(* ===== verification/Prelude.thy ===== *)
theory Prelude
  imports Main "HOL-Library.Word"
begin

text \<open>
  Shared vocabulary of the development: the machine integer types of the C sources,
  the big-endian accessors of \<^verbatim>\<open>accel-pppd/utils.h\<close>, bounded reads of received
  buffers, and the generic list lemmas that the component theories rely on.
\<close>

unbundle bit_operations_syntax

named_theorems codec \<open>facts that decide what an encoder or a decoder computes\<close>
named_theorems frame \<open>fields an operation leaves alone\<close>

type_synonym u8 = "8 word"
type_synonym u16 = "16 word"
type_synonym u32 = "32 word"
type_synonym u64 = "64 word"
type_synonym bytes = "u8 list"

section \<open>Words and lists\<close>

lemma unat_bound: "unat (w :: 'a::len word) < 2 ^ LENGTH('a)"
  by (rule unsigned_less)

lemma unat_of_nat_eq: "n < 2 ^ LENGTH('a) \<Longrightarrow> unat (of_nat n :: 'a::len word) = n"
  by (simp add: unat_of_nat)

lemma uint_bound: "uint (w :: 'a::len word) < 2 ^ LENGTH('a)"
  by (rule unsigned_less)

lemma map_list_update_same: "k < length xs \<Longrightarrow> g v = g (xs ! k) \<Longrightarrow> map g (xs[k := v]) = map g xs"
  by (metis list_update_id map_update nth_map)

section \<open>Results of code that reads a received buffer\<close>

text \<open>
  A parser of a received packet ends in one of three ways: it reads past the bytes that
  were received (\<open>Fault\<close>, undefined behaviour in C), it rejects the packet (\<open>Reject\<close>), or
  it returns a value. Making the fault a value lets the component theories prove that it
  never happens.
\<close>

datatype 'a parse = Fault | Reject | Ok 'a

fun bind_parse :: "'a parse \<Rightarrow> ('a \<Rightarrow> 'b parse) \<Rightarrow> 'b parse" where
  "bind_parse Fault f = Fault"
| "bind_parse Reject f = Reject"
| "bind_parse (Ok a) f = f a"

text \<open>A read of the byte at offset \<open>i\<close> of a buffer.\<close>

definition read_byte :: "bytes \<Rightarrow> nat \<Rightarrow> u8 parse" where
  "read_byte bs i = (if i < length bs then Ok (bs ! i) else Fault)"

text \<open>A copy of \<open>n\<close> bytes starting at offset \<open>i\<close> (\<^verbatim>\<open>memcpy\<close> from the buffer).\<close>

definition read_bytes :: "bytes \<Rightarrow> nat \<Rightarrow> nat \<Rightarrow> bytes parse" where
  "read_bytes bs i n = (if i + n \<le> length bs then Ok (take n (drop i bs)) else Fault)"

lemma bind_parse_cong [fundef_cong]:
  "r = r' \<Longrightarrow> (\<And>a. r' = Ok a \<Longrightarrow> f a = f' a) \<Longrightarrow> bind_parse r f = bind_parse r' f'"
  by (cases r') auto

lemma bind_parse_split:
  "P (bind_parse r f) \<longleftrightarrow>
     (r = Fault \<longrightarrow> P Fault) \<and> (r = Reject \<longrightarrow> P Reject) \<and> (\<forall>a. r = Ok a \<longrightarrow> P (f a))"
  by (cases r) auto

lemma bind_parse_Ok_iff: "bind_parse r f = Ok b \<longleftrightarrow> (\<exists>a. r = Ok a \<and> f a = Ok b)"
  by (cases r) auto

lemma bind_parse_no_fault:
  "r \<noteq> Fault \<Longrightarrow> (\<And>a. r = Ok a \<Longrightarrow> f a \<noteq> Fault) \<Longrightarrow> bind_parse r f \<noteq> Fault"
  by (cases r) auto

lemma read_byte_ok [simp]: "i < length bs \<Longrightarrow> read_byte bs i = Ok (bs ! i)"
  by (simp add: read_byte_def)

lemma read_bytes_ok [simp]: "i + n \<le> length bs \<Longrightarrow> read_bytes bs i n = Ok (take n (drop i bs))"
  by (simp add: read_bytes_def)

lemma read_bytes_length: "read_bytes bs i n = Ok xs \<Longrightarrow> length xs = n"
  by (auto simp: read_bytes_def split: if_splits)

section \<open>Big-endian integers\<close>

text \<open>
  \<^verbatim>\<open>u_read_be16\<close>, \<^verbatim>\<open>u_read_be32\<close>, \<^verbatim>\<open>u_read_be64\<close> and the matching writers of
  \<^verbatim>\<open>utils.h\<close>. A reader takes the bytes its pointer addresses; reading from fewer bytes
  than the width of the value is not defined by the sources, and every caller in the
  model checks the length first (or goes through \<open>read_bytes\<close>).
\<close>

fun u_read_be16 :: "bytes \<Rightarrow> u16" where
  "u_read_be16 (a # b # _) = push_bit 8 (ucast a) OR ucast b"
| "u_read_be16 _ = 0"

definition u_read_be32 :: "bytes \<Rightarrow> u32" where
  "u_read_be32 bs = push_bit 16 (ucast (u_read_be16 bs)) OR ucast (u_read_be16 (drop 2 bs))"

definition u_read_be64 :: "bytes \<Rightarrow> u64" where
  "u_read_be64 bs = push_bit 32 (ucast (u_read_be32 bs)) OR ucast (u_read_be32 (drop 4 bs))"


definition u_write_be16 :: "u16 \<Rightarrow> bytes" where
  "u_write_be16 v = [ucast (drop_bit 8 v), ucast v]"

definition u_write_be32 :: "u32 \<Rightarrow> bytes" where
  "u_write_be32 v = u_write_be16 (ucast (drop_bit 16 v)) @ u_write_be16 (ucast v)"

definition u_write_be64 :: "u64 \<Rightarrow> bytes" where
  "u_write_be64 v = u_write_be32 (ucast (drop_bit 32 v)) @ u_write_be32 (ucast v)"

lemma length_u_write_be [simp]:
  "length (u_write_be16 v) = 2" "length (u_write_be32 w) = 4" "length (u_write_be64 x) = 8"
  by (simp_all add: u_write_be16_def u_write_be32_def u_write_be64_def)

lemma u_read_write_be16 [simp]: "u_read_be16 (u_write_be16 v @ rest) = v"
  by (rule bit_word_eqI) (auto simp: u_write_be16_def bit_or_iff bit_push_bit_iff bit_unsigned_iff bit_drop_bit_eq)

lemma u_read_write_be32 [simp]: "u_read_be32 (u_write_be32 v @ rest) = v"
proof -
  have *: "drop 2 (u_write_be32 v @ rest) = u_write_be16 (ucast v) @ rest"
    by (simp add: u_write_be32_def)
  have "u_read_be32 (u_write_be32 v @ rest) = push_bit 16 (ucast (ucast (drop_bit 16 v) :: u16)) OR ucast (ucast v :: u16)"
    unfolding u_read_be32_def * by (simp add: u_write_be32_def)
  also have "\<dots> = v"
    by (rule bit_word_eqI) (auto simp: bit_or_iff bit_push_bit_iff bit_unsigned_iff bit_drop_bit_eq)
  finally show ?thesis .
qed

lemma u_read_write_be64 [simp]: "u_read_be64 (u_write_be64 v @ rest) = v"
proof -
  have *: "drop 4 (u_write_be64 v @ rest) = u_write_be32 (ucast v) @ rest"
    by (simp add: u_write_be64_def)
  have "u_read_be64 (u_write_be64 v @ rest) = push_bit 32 (ucast (ucast (drop_bit 32 v) :: u32)) OR ucast (ucast v :: u32)"
    unfolding u_read_be64_def * by (simp add: u_write_be64_def)
  also have "\<dots> = v"
    by (rule bit_word_eqI) (auto simp: bit_or_iff bit_push_bit_iff bit_unsigned_iff bit_drop_bit_eq)
  finally show ?thesis .
qed

end
