(* ===== verification/Bitpool.thy ===== *)
theory Bitpool
  imports Prelude
begin

text \<open>
  The bit array of \<^verbatim>\<open>accel-pppd/extra/bitpool.h\<close>, on which the address pools are built.
  A map is a list of 64-bit words (\<^verbatim>\<open>bm_word_t\<close> is \<^verbatim>\<open>unsigned long\<close>, 64 bits on the
  LP64 targets); bit indices are natural numbers. \<open>BM_INVALID\<close> is \<open>None\<close>.
\<close>

type_synonym bitmap = "u64 list"

abbreviation (input) BM_WORD_BITS :: nat where "BM_WORD_BITS \<equiv> 64"

definition BM_NWORDS :: "nat \<Rightarrow> nat" where
  "BM_NWORDS n = (n + BM_WORD_BITS - 1) div BM_WORD_BITS"

definition bm_set :: "bitmap \<Rightarrow> nat \<Rightarrow> bitmap" where
  "bm_set bm i = bm[i div BM_WORD_BITS := bm ! (i div BM_WORD_BITS) OR push_bit (i mod BM_WORD_BITS) 1]"

definition bm_clear :: "bitmap \<Rightarrow> nat \<Rightarrow> bitmap" where
  "bm_clear bm i =
     bm[i div BM_WORD_BITS := bm ! (i div BM_WORD_BITS) AND NOT (push_bit (i mod BM_WORD_BITS) 1)]"

definition bm_test :: "bitmap \<Rightarrow> nat \<Rightarrow> bool" where
  "bm_test bm i \<longleftrightarrow> drop_bit (i mod BM_WORD_BITS) (bm ! (i div BM_WORD_BITS)) AND 1 \<noteq> 0"

text \<open>\<^verbatim>\<open>__builtin_ctzl\<close>: the number of zero bits below the lowest one bit.\<close>

definition ctzl :: "u64 \<Rightarrow> nat" where
  "ctzl w = length (takeWhile (\<lambda>k. \<not> bit w k) [0..<64])"

text \<open>
  The probe loop of \<^verbatim>\<open>bm_find_free\<close>: \<open>nwords + 1\<close> probes, the start word twice, first
  without its bits below \<open>fb\<close> and last with only those.
\<close>

function bm_probe :: "bitmap \<Rightarrow> nat \<Rightarrow> nat \<Rightarrow> nat \<Rightarrow> nat \<Rightarrow> nat \<Rightarrow> nat option" where
  "bm_probe bm count nwords fw fb i =
     (if i \<le> nwords then
        let word = (if fw + i \<ge> nwords then fw + i - nwords else fw + i);
            inv = NOT (bm ! word);
            inv = (if i = 0 then inv AND NOT (push_bit fb 1 - 1)
                   else if i = nwords then inv AND (push_bit fb 1 - 1)
                   else inv)
        in if inv \<noteq> 0 \<and> word * BM_WORD_BITS + ctzl inv < count
           then Some (word * BM_WORD_BITS + ctzl inv)
           else bm_probe bm count nwords fw fb (Suc i)
      else None)"
  by pat_completeness auto
termination
  by (relation "measure (\<lambda>(bm, count, nwords, fw, fb, i). Suc nwords - i)") auto

declare bm_probe.simps [simp del]

definition bm_find_free :: "bitmap \<Rightarrow> nat \<Rightarrow> nat \<Rightarrow> nat option" where
  "bm_find_free bm count from =
     (if count = 0 then None
      else let from = (if from \<ge> count then 0 else from)
           in bm_probe bm count (BM_NWORDS count) (from div BM_WORD_BITS) (from mod BM_WORD_BITS) 0)"

section \<open>Bits\<close>

lemma bm_test_bit: "bm_test bm i \<longleftrightarrow> bit (bm ! (i div 64)) (i mod 64)"
  by (simp add: bm_test_def and_one_eq odd_iff_mod_2_eq_one [symmetric] bit_iff_odd_drop_bit)

lemma length_bm [simp]: "length (bm_set bm i) = length bm" "length (bm_clear bm i) = length bm"
  by (simp_all add: bm_set_def bm_clear_def)

lemma div_mod_64_eq: "(i::nat) div 64 = j div 64 \<Longrightarrow> i mod 64 = j mod 64 \<Longrightarrow> i = j"
  by (metis div_mult_mod_eq)

lemma bm_test_set:
  assumes "i < 64 * length bm"
  shows "bm_test (bm_set bm i) j \<longleftrightarrow> i = j \<or> bm_test bm j"
proof (cases "i div 64 = j div 64")
  case True
  then have "i = j \<longleftrightarrow> i mod 64 = j mod 64" by (metis div_mod_64_eq)
  moreover have "i div 64 < length bm" using assms by (simp add: less_mult_imp_div_less mult.commute)
  ultimately show ?thesis
    using True by (simp add: bm_test_bit bm_set_def bit_or_iff bit_exp_iff) metis
next
  case False
  then show ?thesis by (auto simp: bm_test_bit bm_set_def)
qed

lemma bm_test_clear:
  assumes "i < 64 * length bm"
  shows "bm_test (bm_clear bm i) j \<longleftrightarrow> i \<noteq> j \<and> bm_test bm j"
proof (cases "i div 64 = j div 64")
  case True
  then have "i = j \<longleftrightarrow> i mod 64 = j mod 64" by (metis div_mod_64_eq)
  moreover have "i div 64 < length bm" using assms by (simp add: less_mult_imp_div_less mult.commute)
  ultimately show ?thesis
    using True by (simp add: bm_test_bit bm_clear_def bit_and_iff bit_not_iff bit_exp_iff) metis
next
  case False
  then show ?thesis by (auto simp: bm_test_bit bm_clear_def)
qed

lemma bm_eqI:
  assumes "length a = length b" and "\<And>i. i < 64 * length a \<Longrightarrow> bm_test a i = bm_test b i"
  shows "a = b"
proof (rule nth_equalityI)
  fix k assume k: "k < length a"
  show "a ! k = b ! k"
  proof (rule bit_word_eqI)
    fix n :: nat assume "n < LENGTH(64)"
    then have "k * 64 + n < 64 * length a" and "(k * 64 + n) div 64 = k" and "(k * 64 + n) mod 64 = n"
      using k by auto
    with assms(2) [of "k * 64 + n"] show "bit (a ! k) n = bit (b ! k) n"
      by (simp add: bm_test_bit)
  qed
qed (rule assms(1))

section \<open>The word scan is a linear search\<close>

lemma find_append: "find P (xs @ ys) = (case find P xs of None \<Rightarrow> find P ys | Some x \<Rightarrow> Some x)"
  by (induction xs) auto

lemma find_upt_eqI:
  assumes "lo \<le> x" "x < hi" "P x" "\<And>k. lo \<le> k \<Longrightarrow> k < x \<Longrightarrow> \<not> P k"
  shows "find P [lo..<hi] = Some x"
proof -
  have "[lo..<hi] = [lo..<x] @ x # [Suc x..<hi]"
    using assms(1,2) by (metis le_add_diff_inverse less_imp_le upt_add_eq_append upt_conv_Cons)
  moreover have "find P [lo..<x] = None" using assms(4) by (auto simp: find_None_iff)
  ultimately show ?thesis using assms(3) by (simp add: find_append)
qed

lemma ctzl_cases: "ctzl w = n \<longleftrightarrow> n \<le> 64 \<and> (\<forall>k<n. \<not> bit w k) \<and> (n < 64 \<longrightarrow> bit w n)"
proof -
  have "length (takeWhile (\<lambda>k. \<not> bit w k) [i..<64]) = n \<longleftrightarrow>
      n \<le> 64 - i \<and> (\<forall>k<n. \<not> bit w (i + k)) \<and> (n < 64 - i \<longrightarrow> bit w (i + n))" if "i \<le> 64" for i
    using that
  proof (induction i arbitrary: n rule: inc_induct)
    case base
    then show ?case by auto
  next
    case (step i)
    then have u: "[i..<64] = i # [Suc i..<64]" by (simp add: upt_conv_Cons)
    show ?case
    proof (cases n)
      case 0
      with step.hyps show ?thesis by (auto simp: u)
    next
      case (Suc m)
      have "(\<forall>k<Suc m. \<not> bit w (i + k)) \<longleftrightarrow> \<not> bit w i \<and> (\<forall>k<m. \<not> bit w (Suc i + k))"
        by (auto simp: less_Suc_eq_0_disj)
      with step.IH [of m] step.hyps Suc show ?thesis by (auto simp: u)
    qed
  qed
  from this [of 0] show ?thesis by (simp add: ctzl_def)
qed

lemma ctzl_below: "k < ctzl w \<Longrightarrow> \<not> bit w k"
  using ctzl_cases [of w "ctzl w"] by simp

lemma ctzl_bit: "w \<noteq> 0 \<Longrightarrow> bit w (ctzl w) \<and> ctzl w < 64"
proof -
  assume "w \<noteq> 0"
  then obtain n where n: "bit w n" by (auto simp: bit_eq_iff)
  then have "n < 64" using bit_imp_le_length [of w n] by simp
  with n have "ctzl w < 64" using ctzl_below [of n w] by (meson not_le order_le_less_trans)
  then show ?thesis using ctzl_cases [of w "ctzl w"] by simp
qed

lemma bit_low_mask: "bit (2 ^ n - 1 :: u64) k \<longleftrightarrow> k < 64 \<and> k < n" if "n < 64"
  by (auto simp: bit_mask_iff simp flip: mask_eq_exp_minus_1)

text \<open>
  One probe of a word under a mask that keeps the bits \<open>lo \<le> k < hi\<close> finds the first
  free bit of that part of the word.
\<close>

lemma probe_word:
  assumes "word < length bm" and hi: "hi \<le> 64"
    and m: "\<And>k. bit m k \<longleftrightarrow> lo \<le> k \<and> k < hi"
  defines "iv \<equiv> NOT (bm ! word) AND m"
  shows "(if iv \<noteq> 0 \<and> word * 64 + ctzl iv < count then Some (word * 64 + ctzl iv) else None) =
    find (\<lambda>i. \<not> bm_test bm i) [word * 64 + lo..<min (word * 64 + hi) count]"
proof -
  have bi: "bit iv k \<longleftrightarrow> lo \<le> k \<and> k < hi \<and> \<not> bm_test bm (word * 64 + k)" for k
    using hi by (auto simp: iv_def bit_and_iff bit_not_iff m bm_test_bit)
  have none: "find (\<lambda>i. \<not> bm_test bm i) [word * 64 + lo..<min (word * 64 + hi) count] = None"
    if "\<And>k. lo \<le> k \<Longrightarrow> k < hi \<Longrightarrow> word * 64 + k < count \<Longrightarrow> \<not> bit iv k"
  proof -
    have "bm_test bm i" if i: "i \<in> set [word * 64 + lo..<min (word * 64 + hi) count]" for i
      using that \<open>\<And>k. lo \<le> k \<Longrightarrow> k < hi \<Longrightarrow> word * 64 + k < count \<Longrightarrow> \<not> bit iv k\<close> [of "i - word * 64"]
        bi [of "i - word * 64"] by auto
    then show ?thesis by (auto simp: find_None_iff)
  qed
  show ?thesis
  proof (cases "iv \<noteq> 0 \<and> word * 64 + ctzl iv < count")
    case True
    then have "find (\<lambda>i. \<not> bm_test bm i) [word * 64 + lo..<min (word * 64 + hi) count] = Some (word * 64 + ctzl iv)"
    proof (intro find_upt_eqI)
      fix k assume "word * 64 + lo \<le> k" "k < word * 64 + ctzl iv"
      then show "\<not> \<not> bm_test bm k"
        using ctzl_below [of "k - word * 64" iv] ctzl_bit [of iv] True bi [of "k - word * 64"] bi [of "ctzl iv"]
        by auto
    qed (use ctzl_bit [of iv] bi [of "ctzl iv"] in auto)
    with True show ?thesis by simp
  next
    case False
    have "\<not> bit iv k" if "word * 64 + k < count" for k
      using False ctzl_below [of k iv] that by (cases "iv = 0") auto
    with none False show ?thesis by simp
  qed
qed


definition probe_from :: "bitmap \<Rightarrow> nat \<Rightarrow> nat \<Rightarrow> nat \<Rightarrow> nat option" where
  "probe_from bm count lo hi = find (\<lambda>i. \<not> bm_test bm i) [lo..<min hi count]"

lemma probe_from_append:
  assumes "lo \<le> mid" "mid \<le> hi"
  shows "probe_from bm count lo hi =
    (case probe_from bm count lo mid of None \<Rightarrow> probe_from bm count mid hi | Some x \<Rightarrow> Some x)"
proof (cases "mid \<le> count")
  case True
  then have "[lo..<min hi count] = [lo..<min mid count] @ [mid..<min hi count]"
    using assms upt_add_eq_append [of lo mid "min hi count - mid"] by (simp add: min_def)
  then show ?thesis unfolding probe_from_def by (simp add: find_append split: option.split)
next
  case False
  then show ?thesis using assms by (auto simp: probe_from_def min_def split: option.split)
qed

text \<open>The three kinds of probe: the start word, a whole word, the start word again.\<close>

lemma probe_step:
  assumes len: "nwords \<le> length bm" and fw: "fw < nwords" and fb: "fb < 64" and i: "i \<le> nwords"
  shows "bm_probe bm count nwords fw fb i =
    (let word = (if fw + i \<ge> nwords then fw + i - nwords else fw + i);
         lo = (if i = 0 then fb else 0);
         hi = (if i = 0 then 64 else if i = nwords then fb else 64)
     in case probe_from bm count (word * 64 + lo) (word * 64 + hi) of
          None \<Rightarrow> bm_probe bm count nwords fw fb (Suc i) | Some x \<Rightarrow> Some x)"
proof -
  define word where "word = (if fw + i \<ge> nwords then fw + i - nwords else fw + i)"
  define lo :: nat where "lo = (if i = 0 then fb else 0)"
  define hi where "hi = (if i = 0 then 64 else if i = nwords then fb else 64)"
  define m :: u64 where "m = (if i = 0 then NOT (push_bit fb 1 - 1)
     else if i = nwords then push_bit fb 1 - 1 else - 1)"
  have w: "word < length bm" using len fw i by (auto simp: word_def)
  have hi64: "hi \<le> 64" using fb by (simp add: hi_def)
  have mb: "bit m k \<longleftrightarrow> lo \<le> k \<and> k < hi" for k
    using fb by (auto simp: m_def lo_def hi_def bit_not_iff bit_low_mask)
  have inv: "(if i = 0 then NOT (bm ! word) AND NOT (push_bit fb 1 - 1)
      else if i = nwords then NOT (bm ! word) AND (push_bit fb 1 - 1) else NOT (bm ! word)) =
      NOT (bm ! word) AND m"
    by (simp add: m_def)
  show ?thesis
    unfolding bm_probe.simps [of bm count nwords fw fb i] Let_def word_def [symmetric] lo_def [symmetric]
      hi_def [symmetric] inv probe_from_def probe_word [OF w hi64 mb, symmetric]
    using i by simp
qed


text \<open>After the wrap the probes search the words \<open>0, 1, \<dots>\<close> and stop below the start bit.\<close>

lemma probe_wrapped:
  assumes len: "nwords \<le> length bm" and fw: "fw < nwords" and fb: "fb < 64" and "j \<le> fw"
  shows "bm_probe bm count nwords fw fb (nwords - fw + j) =
    probe_from bm count (j * 64) (fw * 64 + fb)"
  using \<open>j \<le> fw\<close>
proof (induction j rule: inc_induct)
  case base
  have "bm_probe bm count nwords fw fb (Suc nwords) = None" by (simp add: bm_probe.simps)
  then show ?case
    using fw by (simp add: probe_step [OF len fw fb] split: option.split)
next
  case (step j)
  have "nwords - fw + j \<noteq> 0" "nwords - fw + j < nwords" "Suc (nwords - fw + j) = nwords - fw + Suc j"
    using fw step.hyps by auto
  then have "bm_probe bm count nwords fw fb (nwords - fw + j) =
      (case probe_from bm count (j * 64) (Suc j * 64) of
         None \<Rightarrow> bm_probe bm count nwords fw fb (nwords - fw + Suc j) | Some x \<Rightarrow> Some x)"
    using fw step.hyps by (simp add: probe_step [OF len fw fb] add.commute split: option.split)
  also have "\<dots> = probe_from bm count (j * 64) (fw * 64 + fb)"
    using step.hyps probe_from_append [of "j * 64" "Suc j * 64" "fw * 64 + fb" bm count]
    by (simp only: step.IH) simp
  finally show ?case .
qed

text \<open>Before the wrap they search upwards to the end of the map.\<close>

lemma probe_upwards:
  assumes len: "nwords \<le> length bm" and fw: "fw < nwords" and fb: "fb < 64"
    and cnt: "count \<le> nwords * 64" and "0 < j" "j \<le> nwords - fw"
  shows "bm_probe bm count nwords fw fb j =
    (case probe_from bm count ((fw + j) * 64) count of
       None \<Rightarrow> probe_from bm count 0 (fw * 64 + fb) | Some x \<Rightarrow> Some x)"
  using \<open>0 < j\<close> \<open>j \<le> nwords - fw\<close>
proof (induction "nwords - fw - j" arbitrary: j)
  case 0
  then have "j = nwords - fw" by simp
  moreover from this have "probe_from bm count ((fw + j) * 64) count = None"
    using cnt fw by (simp add: probe_from_def)
  ultimately show ?case
    using probe_wrapped [OF len fw fb, of 0] by simp
next
  case (Suc n)
  then have lt: "fw + j < nwords" by simp
  then have "j \<noteq> nwords" by simp
  have "bm_probe bm count nwords fw fb j =
      (case probe_from bm count ((fw + j) * 64) (Suc (fw + j) * 64) of
         None \<Rightarrow> bm_probe bm count nwords fw fb (Suc j) | Some x \<Rightarrow> Some x)"
    using Suc.prems lt \<open>j \<noteq> nwords\<close> by (simp add: probe_step [OF len fw fb] algebra_simps)
  also have "bm_probe bm count nwords fw fb (Suc j) =
      (case probe_from bm count (Suc (fw + j) * 64) count of
       None \<Rightarrow> probe_from bm count 0 (fw * 64 + fb) | Some x \<Rightarrow> Some x)"
    using Suc.hyps(1) [of "Suc j"] Suc.hyps(2) Suc.prems lt by simp
  finally show ?case
    using probe_from_append [of "(fw + j) * 64" "Suc (fw + j) * 64" "max count (Suc (fw + j) * 64)" bm count]
    by (simp add: probe_from_def min_def max_def split: option.splits if_splits)
qed

text \<open>
  The word-at-a-time scan is the linear search for the first clear bit in cyclic order
  from the hint. It holds whatever the remainder bits of the last word are.
\<close>

definition cyclic_from :: "nat \<Rightarrow> nat \<Rightarrow> nat list" where
  "cyclic_from count from = (let s = if from \<ge> count then 0 else from in [s..<count] @ [0..<s])"

lemma bm_find_free_linear:
  assumes len: "BM_NWORDS count \<le> length bm"
  shows "bm_find_free bm count from = find (\<lambda>i. \<not> bm_test bm i) (cyclic_from count from)"
proof (cases "count = 0")
  case True
  then show ?thesis by (simp add: bm_find_free_def cyclic_from_def)
next
  case False
  define s where "s = (if from \<ge> count then 0 else from)"
  define n where "n = BM_NWORDS count"
  have s: "s < count" using False by (auto simp: s_def)
  have cnt: "count \<le> n * 64" by (simp add: n_def BM_NWORDS_def)
  have fw: "s div 64 < n" using s cnt by (simp add: div_less_iff_less_mult)
  have fb: "s mod 64 < 64" by simp
  have len': "n \<le> length bm" using len by (simp add: n_def)
  have "bm_find_free bm count from = bm_probe bm count n (s div 64) (s mod 64) 0"
    using False by (simp add: bm_find_free_def s_def n_def Let_def)
  also have "\<dots> = (case probe_from bm count s (Suc (s div 64) * 64) of
      None \<Rightarrow> bm_probe bm count n (s div 64) (s mod 64) 1 | Some x \<Rightarrow> Some x)"
    using fw by (simp add: probe_step [OF len' fw fb] Let_def add.commute split: option.split)
  also have "bm_probe bm count n (s div 64) (s mod 64) 1 =
      (case probe_from bm count (Suc (s div 64) * 64) count of
        None \<Rightarrow> probe_from bm count 0 s | Some x \<Rightarrow> Some x)"
    using probe_upwards [OF len' fw fb cnt, of 1] fw by (simp split: option.split)
  also have "(case probe_from bm count s (Suc (s div 64) * 64) of None \<Rightarrow> \<dots> | Some x \<Rightarrow> Some x) =
      (case probe_from bm count s count of None \<Rightarrow> probe_from bm count 0 s | Some x \<Rightarrow> Some x)"
  proof (cases "Suc (s div 64) * 64 \<le> count")
    case True
    moreover have "s \<le> Suc (s div 64) * 64" by presburger
    ultimately show ?thesis
      by (simp add: probe_from_append [of s "Suc (s div 64) * 64" count] split: option.split)
  next
    case F: False
    then have "probe_from bm count (Suc (s div 64) * 64) count = None"
      and "probe_from bm count s (Suc (s div 64) * 64) = probe_from bm count s count"
      by (simp_all add: probe_from_def min_def)
    then show ?thesis by (simp only: option.case)
  qed
  also have "\<dots> = find (\<lambda>i. \<not> bm_test bm i) ([s..<count] @ [0..<s])"
    using s by (simp add: probe_from_def find_append min_def split: option.split)
  finally show ?thesis by (simp add: cyclic_from_def s_def Let_def)
qed

section \<open>The allocator interface\<close>

text \<open>
  What the address pools rely on: a map of \<open>n\<close> units that can be tested, taken and given
  back, and a search that returns a free unit whenever there is one. \<open>used_units\<close> is the
  abstract state, the set of units in use.
\<close>

definition used_units :: "('m \<Rightarrow> nat \<Rightarrow> bool) \<Rightarrow> 'm \<Rightarrow> nat \<Rightarrow> nat set" where
  "used_units tst m n = {i. i < n \<and> tst m i}"

lemma finite_used_units [simp]: "finite (used_units tst m n)"
  by (simp add: used_units_def)

lemma used_units_subset: "used_units tst m n \<subseteq> {..<n}"
  by (auto simp: used_units_def)

locale unit_allocator =
  fixes ok :: "'m \<Rightarrow> nat \<Rightarrow> bool"
    and tst :: "'m \<Rightarrow> nat \<Rightarrow> bool"
    and take_unit :: "'m \<Rightarrow> nat \<Rightarrow> 'm"
    and give_unit :: "'m \<Rightarrow> nat \<Rightarrow> 'm"
    and search :: "'m \<Rightarrow> nat \<Rightarrow> nat \<Rightarrow> nat option"
  assumes ok_take: "ok m n \<Longrightarrow> ok (take_unit m i) n"
    and ok_give: "ok m n \<Longrightarrow> ok (give_unit m i) n"
    and tst_take: "ok m n \<Longrightarrow> i < n \<Longrightarrow> tst (take_unit m i) j \<longleftrightarrow> i = j \<or> tst m j"
    and tst_give: "ok m n \<Longrightarrow> i < n \<Longrightarrow> tst (give_unit m i) j \<longleftrightarrow> i \<noteq> j \<and> tst m j"
    and search_Some: "ok m n \<Longrightarrow> search m n hint = Some i \<Longrightarrow> i < n \<and> \<not> tst m i"
    and search_None: "ok m n \<Longrightarrow> search m n hint = None \<Longrightarrow> i < n \<Longrightarrow> tst m i"
begin

lemma used_take: "ok m n \<Longrightarrow> i < n \<Longrightarrow> used_units tst (take_unit m i) n = insert i (used_units tst m n)"
  by (auto simp: used_units_def tst_take)

lemma used_give: "ok m n \<Longrightarrow> i < n \<Longrightarrow> used_units tst (give_unit m i) n = used_units tst m n - {i}"
  by (auto simp: used_units_def tst_give)

lemma take_search:
  assumes "ok m n" "search m n hint = Some i"
  shows "i \<notin> used_units tst m n" "card (used_units tst (take_unit m i) n) = Suc (card (used_units tst m n))"
proof -
  show "i \<notin> used_units tst m n" using search_Some [OF assms] by (simp add: used_units_def)
  then show "card (used_units tst (take_unit m i) n) = Suc (card (used_units tst m n))"
    using search_Some [OF assms] by (simp add: used_take [OF assms(1)])
qed

lemma search_exhausted:
  assumes "ok m n"
  shows "search m n hint = None \<longleftrightarrow> card (used_units tst m n) = n"
proof
  assume "search m n hint = None"
  then have "used_units tst m n = {..<n}" using search_None [OF assms] by (auto simp: used_units_def)
  then show "card (used_units tst m n) = n" by simp
next
  assume "card (used_units tst m n) = n"
  then have "used_units tst m n = {..<n}"
    using used_units_subset [of tst m n] by (simp add: card_subset_eq)
  then have "\<And>i. i < n \<Longrightarrow> tst m i" by (auto simp: used_units_def)
  then show "search m n hint = None" using search_Some [OF assms] by (cases "search m n hint") auto
qed

end

definition bm_ok :: "bitmap \<Rightarrow> nat \<Rightarrow> bool" where
  "bm_ok bm n \<longleftrightarrow> length bm = BM_NWORDS n"

lemma bm_ok_bound: "bm_ok bm n \<Longrightarrow> i < n \<Longrightarrow> i < 64 * length bm"
  by (simp add: bm_ok_def BM_NWORDS_def)

lemma set_cyclic_from: "set (cyclic_from count from) = {..<count}"
  by (auto simp: cyclic_from_def Let_def)

interpretation bm: unit_allocator bm_ok bm_test bm_set bm_clear bm_find_free
proof
  fix bm n i j hint
  assume ok: "bm_ok bm n"
  then have lin: "bm_find_free bm n hint = find (\<lambda>i. \<not> bm_test bm i) (cyclic_from n hint)"
    by (intro bm_find_free_linear) (simp add: bm_ok_def)
  show "bm_ok (bm_set bm i) n" "bm_ok (bm_clear bm i) n" using ok by (simp_all add: bm_ok_def)
  show "bm_test (bm_set bm i) j \<longleftrightarrow> i = j \<or> bm_test bm j" if "i < n"
    using bm_test_set bm_ok_bound [OF ok that] by blast
  show "bm_test (bm_clear bm i) j \<longleftrightarrow> i \<noteq> j \<and> bm_test bm j" if "i < n"
    using bm_test_clear bm_ok_bound [OF ok that] by blast
  show "i < n \<and> \<not> bm_test bm i" if "bm_find_free bm n hint = Some i"
    using that lin set_cyclic_from [of n hint] by (metis find_Some_iff lessThan_iff nth_mem)
  show "bm_test bm i" if "bm_find_free bm n hint = None" "i < n"
    using that lin set_cyclic_from [of n hint] by (auto simp: find_None_iff)
qed

text \<open>
  C34. The word-wise search equals the linear one: \<^verbatim>\<open>bm_find_free\<close> returns the first clear bit in
  cyclic order from the hint (from 0 if the hint is out of range), and nothing only
  if all \<^verbatim>\<open>count\<close> bits are set. It needs no assumption on the bits past \<^verbatim>\<open>count\<close>.
\<close>

theorem bm_find_free_first_fit:
  assumes "BM_NWORDS count \<le> length bm" "f = (if from < count then from else 0)"
  shows "bm_find_free bm count from = find (\<lambda>i. \<not> bm_test bm i) ([f..<count] @ [0..<f])"
  unfolding bm_find_free_linear [OF assms(1)] cyclic_from_def Let_def assms(2)
  by (simp add: not_le [symmetric])

theorem bm_find_free_first_fit_witness:
  "bm_find_free [5] 3 2 = find (\<lambda>i. \<not> bm_test [5] i) [2, 0, 1] \<and> bm_test [5] 2 \<and> bm_test [5] 0 \<and> \<not> bm_test [5] 1"
  using bm_find_free_first_fit [of 3 "[5]" 2 2] by (simp add: BM_NWORDS_def bm_test_def upt_rec)

end
