(* ===== verification/CLib.thy ===== *)
theory CLib
  imports Prelude
begin

text \<open>
  The parts of the C library that the modelled sources call on configuration strings:
  character classes, \<^verbatim>\<open>strspn\<close>, \<^verbatim>\<open>strchr\<close>, \<^verbatim>\<open>strstr\<close>, \<^verbatim>\<open>strtoul\<close>, the \<^verbatim>\<open>%u\<close>
  conversion of \<^verbatim>\<open>sscanf\<close>, \<^verbatim>\<open>atoi\<close>, \<^verbatim>\<open>inet_pton\<close> (IPv4) and \<^verbatim>\<open>inet_addr\<close>, with the behaviour
  of glibc on a 64-bit target. A C string is a \<open>string\<close> without its terminator; a
  pointer into it is the suffix it points to. IPv4 addresses are in host byte order
  throughout the model, so the sources' \<^verbatim>\<open>htonl\<close>/\<^verbatim>\<open>ntohl\<close> pairs cancel.
\<close>

definition isdigit :: "char \<Rightarrow> bool" where
  "isdigit c \<longleftrightarrow> 48 \<le> (of_char c :: nat) \<and> (of_char c :: nat) \<le> 57"

definition isspace :: "char \<Rightarrow> bool" where
  "isspace c \<longleftrightarrow> (of_char c :: nat) = 32 \<or> (9 \<le> (of_char c :: nat) \<and> (of_char c :: nat) \<le> 13)"

definition digit_val :: "char \<Rightarrow> nat" where
  "digit_val c = of_char c - 48"

definition xdigit_val :: "char \<Rightarrow> nat option" where
  "xdigit_val c =
     (let n = (of_char c :: nat)
      in if 48 \<le> n \<and> n \<le> 57 then Some (n - 48)
         else if 65 \<le> n \<and> n \<le> 70 then Some (n - 55)
         else if 97 \<le> n \<and> n \<le> 102 then Some (n - 87) else None)"

definition strspn :: "string \<Rightarrow> string \<Rightarrow> nat" where
  "strspn s accept = length (takeWhile (\<lambda>c. c \<in> set accept) s)"

text \<open>\<^verbatim>\<open>strchr\<close> and \<^verbatim>\<open>strstr\<close> return the suffix at the match; \<^verbatim>\<open>strchrnul\<close> the end if there is none.\<close>

definition strchr :: "string \<Rightarrow> char \<Rightarrow> string option" where
  "strchr s c = (case dropWhile (\<lambda>d. d \<noteq> c) s of [] \<Rightarrow> None | r \<Rightarrow> Some r)"

definition before_chr :: "string \<Rightarrow> char \<Rightarrow> string" where
  \<comment> \<open>the characters from \<open>s\<close> up to \<^verbatim>\<open>strchrnul(s, c)\<close>\<close>
  "before_chr s c = takeWhile (\<lambda>d. d \<noteq> c) s"

fun strstr :: "string \<Rightarrow> string \<Rightarrow> string option" where
  "strstr [] pat = (if pat = [] then Some [] else None)"
| "strstr (c # s) pat = (if take (length pat) (c # s) = pat then Some (c # s) else strstr s pat)"

section \<open>Numbers\<close>

fun digits_val :: "nat \<Rightarrow> nat \<Rightarrow> nat list \<Rightarrow> nat" where
  "digits_val base acc [] = acc"
| "digits_val base acc (d # ds) = digits_val base (acc * base + d) ds"

definition ULONG_MAX :: nat where "ULONG_MAX = 2 ^ 64 - 1"

text \<open>
  \<^verbatim>\<open>strtoul(s, &end, 10)\<close>: leading white space, an optional sign, then decimal digits. The
  result is the value (saturated at \<^verbatim>\<open>ULONG_MAX\<close>, negated modulo $2^{64}$ after a minus
  sign), the rest of the string, and whether \<^verbatim>\<open>errno\<close> is \<^verbatim>\<open>ERANGE\<close>. With no digits the value
  is 0 and the rest is the whole string.
\<close>

definition strtoul10 :: "string \<Rightarrow> nat \<times> string \<times> bool" where
  "strtoul10 s =
     (let t = dropWhile isspace s;
          neg = (case t of c # _ \<Rightarrow> c = CHR ''-'' | [] \<Rightarrow> False);
          u = (case t of c # r \<Rightarrow> if c = CHR ''-'' \<or> c = CHR ''+'' then r else t | [] \<Rightarrow> t);
          ds = takeWhile isdigit u;
          n = digits_val 10 0 (map digit_val ds)
      in if ds = [] then (0, s, False)
         else if n > ULONG_MAX then (ULONG_MAX, drop (length ds) u, True)
         else (if neg then (2 ^ 64 - n) mod 2 ^ 64 else n, drop (length ds) u, False))"

text \<open>
  The \<^verbatim>\<open>%u\<close> conversion of \<^verbatim>\<open>sscanf\<close>: like \<^verbatim>\<open>strtoul\<close>, stored in a 32-bit \<^verbatim>\<open>unsigned int\<close>;
  \<open>None\<close> when no number starts here.
\<close>

definition scan_u :: "string \<Rightarrow> (u32 \<times> string) option" where
  "scan_u s = (let (v, r, e) = strtoul10 s in if r = s then None else Some (of_nat v, r))"

text \<open>A literal character of a \<^verbatim>\<open>sscanf\<close> format.\<close>

fun scan_lit :: "char \<Rightarrow> string \<Rightarrow> string option" where
  "scan_lit c (d # s) = (if c = d then Some s else None)"
| "scan_lit c [] = None"

text \<open>\<^verbatim>\<open>atoi\<close>: \<^verbatim>\<open>(int) strtol(s, NULL, 10)\<close>, for values in the range of \<^verbatim>\<open>long\<close>.\<close>

definition LONG_MAX :: nat where "LONG_MAX = 2 ^ 63 - 1"

definition atoi :: "string \<Rightarrow> int" where
  "atoi s =
     (let t = dropWhile isspace s;
          neg = (case t of c # _ \<Rightarrow> c = CHR ''-'' | [] \<Rightarrow> False);
          u = (case t of c # r \<Rightarrow> if c = CHR ''-'' \<or> c = CHR ''+'' then r else t | [] \<Rightarrow> t);
          n = digits_val 10 0 (map digit_val (takeWhile isdigit u));
          v = (if neg then - int (min n (LONG_MAX + 1)) else int (min n LONG_MAX))
      in sint (word_of_int v :: u32))"

text \<open>\<^verbatim>\<open>strtol(s, &end, 10)\<close>: the value, saturated to the range of \<^verbatim>\<open>long\<close>, and the rest of the string.\<close>

definition strtol10 :: "string \<Rightarrow> int \<times> string" where
  "strtol10 s =
     (let t = dropWhile isspace s;
          neg = (case t of c # _ \<Rightarrow> c = CHR ''-'' | [] \<Rightarrow> False);
          u = (case t of c # r \<Rightarrow> if c = CHR ''-'' \<or> c = CHR ''+'' then r else t | [] \<Rightarrow> t);
          ds = takeWhile isdigit u;
          n = digits_val 10 0 (map digit_val ds)
      in if ds = [] then (0, s)
         else (if neg then - int (min n (LONG_MAX + 1)) else int (min n LONG_MAX), drop (length ds) u))"

text \<open>A value of type \<^verbatim>\<open>long\<close> that is stored in an \<^verbatim>\<open>int\<close>.\<close>

definition to_int :: "int \<Rightarrow> int" where
  "to_int v = sint (word_of_int v :: u32)"

section \<open>IPv4 addresses\<close>

text \<open>
  \<^verbatim>\<open>inet_pton(AF_INET, \<dots>)\<close>: exactly four decimal octets, each at most 255 and without
  leading zeros (\<open>inet_pton4\<close> of glibc: one pass with the current octet, whether a digit
  was seen in it, and the octets finished so far).
\<close>

fun inet_pton4 :: "u8 list \<Rightarrow> bool \<Rightarrow> nat \<Rightarrow> string \<Rightarrow> u8 list option" where
  "inet_pton4 done seen cur [] = (if seen \<and> length done = 3 then Some (done @ [of_nat cur]) else None)"
| "inet_pton4 done seen cur (c # s) =
     (if isdigit c then
        (if (seen \<and> cur = 0) \<or> cur * 10 + digit_val c > 255 then None
         else inet_pton4 done True (cur * 10 + digit_val c) s)
      else if c = CHR ''.'' \<and> seen then
        (if length done = 3 then None else inet_pton4 (done @ [of_nat cur]) False 0 s)
      else None)"

definition inet_pton :: "string \<Rightarrow> u32 option" where
  "inet_pton s = map_option u_read_be32 (inet_pton4 [] False 0 s)"

text \<open>
  \<^verbatim>\<open>inet_addr\<close>: one to four numbers in C notation (decimal, \<^verbatim>\<open>0\<close> octal, \<^verbatim>\<open>0x\<close> hexadecimal)
  separated by dots, all but the last at most 255 and the last filling the remaining
  bytes; white space may follow. \<^verbatim>\<open>INADDR_NONE\<close> on anything else.
\<close>

definition INADDR_NONE :: u32 where "INADDR_NONE = 0xFFFFFFFF"

definition c_number :: "string \<Rightarrow> nat \<times> string" where
  \<comment> \<open>\<^verbatim>\<open>strtoul(cp, &endp, 0)\<close> at a digit\<close>
  "c_number s =
     (case s of
        z # x # r \<Rightarrow>
          if z = CHR ''0'' \<and> (x = CHR ''x'' \<or> x = CHR ''X'') \<and> r \<noteq> [] \<and> xdigit_val (hd r) \<noteq> None
          then let ds = takeWhile (\<lambda>c. xdigit_val c \<noteq> None) r
               in (digits_val 16 0 (map (\<lambda>c. the (xdigit_val c)) ds), drop (length ds) r)
          else if z = CHR ''0''
          then let ds = takeWhile (\<lambda>c. isdigit c \<and> digit_val c < 8) s
               in (digits_val 8 0 (map digit_val ds), drop (length ds) s)
          else let ds = takeWhile isdigit s
               in (digits_val 10 0 (map digit_val ds), drop (length ds) s)
      | _ \<Rightarrow> let ds = takeWhile isdigit s
             in (digits_val 10 0 (map digit_val ds), drop (length ds) s))"

fun inet_aton_parts :: "nat \<Rightarrow> u32 \<Rightarrow> nat \<Rightarrow> string \<Rightarrow> u32 option" where
  \<comment> \<open>\<open>k\<close> parts may still be followed by a dot; \<open>acc\<close> holds the \<open>n\<close> parts read so far\<close>
  "inet_aton_parts k acc n s =
     (case s of [] \<Rightarrow> None
      | c # _ \<Rightarrow>
          if \<not> isdigit c then None
          else let (v, r) = c_number s
               in if v > 0xFFFFFFFF then None
                  else case r of
                         d # r' \<Rightarrow>
                           if d = CHR ''.'' then
                             (case k of 0 \<Rightarrow> None
                              | Suc k' \<Rightarrow> if v > 0xFF then None
                                         else inet_aton_parts k' (acc OR push_bit (8 * (3 - n)) (of_nat v)) (Suc n) r')
                           else if isspace d \<and> v < 2 ^ (8 * (4 - n)) then Some (acc OR of_nat v) else None
                       | [] \<Rightarrow> if v < 2 ^ (8 * (4 - n)) then Some (acc OR of_nat v) else None)"

definition inet_addr :: "string \<Rightarrow> u32" where
  "inet_addr s = (case inet_aton_parts 3 0 0 s of None \<Rightarrow> INADDR_NONE | Some a \<Rightarrow> a)"

text \<open>The \<^verbatim>\<open>%i\<close> conversion of \<^verbatim>\<open>sprintf\<close>.\<close>

fun show_nat :: "nat \<Rightarrow> string" where
  "show_nat n = (if n < 10 then [char_of (48 + n)] else show_nat (n div 10) @ [char_of (48 + n mod 10)])"

declare show_nat.simps [simp del]

definition show_int :: "int \<Rightarrow> string" where
  "show_int i = (if i < 0 then CHR ''-'' # show_nat (nat (- i)) else show_nat (nat i))"

named_theorems clib \<open>evaluation of the C library functions on literal strings\<close>

lemmas clib_defs [clib] =
  isdigit_def isspace_def digit_val_def xdigit_val_def strspn_def strchr_def before_chr_def
  strtoul10_def ULONG_MAX_def scan_u_def LONG_MAX_def atoi_def inet_pton_def c_number_def
  inet_addr_def INADDR_NONE_def u_read_be32_def

end
