(* ===== verification/RadiusDict.thy ===== *)
theory RadiusDict
  imports CLib
begin

text \<open>
  The RADIUS dictionary of \<^verbatim>\<open>accel-pppd/radius/dict.c\<close> and the value types of
  \<^verbatim>\<open>radius/radius.h\<close>: attributes by vendor, and the linear look-ups the packet code and the
  address pools use. The dictionary is read from files at start-up; here it is data, and
  everything that follows holds for every dictionary.
\<close>

datatype rad_type =
    ATTR_TYPE_INTEGER | ATTR_TYPE_STRING | ATTR_TYPE_OCTETS | ATTR_TYPE_DATE | ATTR_TYPE_IPADDR
  | ATTR_TYPE_IFID | ATTR_TYPE_IPV6ADDR | ATTR_TYPE_IPV6PREFIX | ATTR_TYPE_ETHER | ATTR_TYPE_TLV

text \<open>
  \<^verbatim>\<open>rad_value_t\<close>: the member of the union is chosen by the attribute's type. IPv4
  addresses are in host order; \<^verbatim>\<open>ifid\<close> and IPv6 addresses are the bytes on the wire.
\<close>

datatype rad_value =
    RadInteger u32
  | RadString bytes
  | RadOctets bytes
  | RadDate u32
  | RadIpaddr u32
  | RadIfid bytes
  | RadIpv6addr bytes
  | RadIpv6prefix bytes u8

record rad_dict_value =
  dv_val :: rad_value
  dv_name :: string

datatype rad_dict_attr =
  RadDictAttr (da_name: string) (da_id: int) (da_type: rad_type) (da_array: bool) (da_size: int)
    (da_values: "rad_dict_value list") (da_tlv: "rad_dict_attr list")

record rad_dict_vendor =
  dvn_id :: int
  dvn_tag :: int
  dvn_len :: int
  dvn_name :: string
  dvn_items :: "rad_dict_attr list"

record rad_dict =
  dict_items :: "rad_dict_attr list"
  dict_vendors :: "rad_dict_vendor list"

definition dict_find_attr :: "rad_dict_attr list \<Rightarrow> string \<Rightarrow> rad_dict_attr option" where
  "dict_find_attr items name = find (\<lambda>a. da_name a = name) items"

definition rad_dict_find_attr :: "rad_dict \<Rightarrow> string \<Rightarrow> rad_dict_attr option" where
  "rad_dict_find_attr dict name = dict_find_attr (dict_items dict) name"

definition rad_dict_find_attr_id :: "rad_dict \<Rightarrow> rad_dict_vendor option \<Rightarrow> int \<Rightarrow> rad_dict_attr option" where
  "rad_dict_find_attr_id dict vendor id' =
     find (\<lambda>a. da_id a = id') (case vendor of Some v \<Rightarrow> dvn_items v | None \<Rightarrow> dict_items dict)"

definition rad_dict_find_val_name :: "rad_dict_attr \<Rightarrow> string \<Rightarrow> rad_dict_value option" where
  "rad_dict_find_val_name attr name = find (\<lambda>v. dv_name v = name) (da_values attr)"

definition rad_dict_find_val :: "rad_dict_attr \<Rightarrow> rad_value \<Rightarrow> rad_dict_value option" where
  "rad_dict_find_val attr v =
     (if da_type attr \<noteq> ATTR_TYPE_INTEGER then None else find (\<lambda>d. dv_val d = v) (da_values attr))"

definition rad_dict_find_vendor_name :: "rad_dict \<Rightarrow> string \<Rightarrow> rad_dict_vendor option" where
  "rad_dict_find_vendor_name dict name = find (\<lambda>v. dvn_name v = name) (dict_vendors dict)"

definition rad_dict_find_vendor_id :: "rad_dict \<Rightarrow> int \<Rightarrow> rad_dict_vendor option" where
  "rad_dict_find_vendor_id dict id' = find (\<lambda>v. dvn_id v = id') (dict_vendors dict)"

definition rad_dict_find_vendor_attr :: "rad_dict_vendor \<Rightarrow> string \<Rightarrow> rad_dict_attr option" where
  "rad_dict_find_vendor_attr vendor name = dict_find_attr (dvn_items vendor) name"

end
