(* ===== verification/IpPool.thy ===== *)
theory IpPool
  imports Bitpool RadiusDict
begin

text \<open>
  The IPv4 address pools of \<^verbatim>\<open>accel-pppd/extra/ippool.c\<close>: ranges with one bit per
  allocatable block, pools of ranges, the set of pools built from the configuration,
  address allocation and release, and the reconciliation of live sessions on a reload.

  Pointers into a pool set are references: a pool is the default pool or an index into
  the list of named pools, a range is an index into its pool's list. The operations run
  under the locks of the source (\<^verbatim>\<open>pool_set_rwlock\<close>, the pool's spin lock) and are modelled
  as atomic; allocation failure is a parameter where the source handles it
  in \<^verbatim>\<open>get_ip\<close> and is left out of the configuration code. Addresses are in host order.
\<close>

definition IPPOOL_MAX_BITS :: nat where "IPPOOL_MAX_BITS = 2 ^ 24"

datatype orphan_policy_t = ORPHAN_KEEP | ORPHAN_DISCONNECT

record ip_range =
  r_start :: u32
  r_end :: u32
  r_step :: u32
  r_gw_offset :: int
  r_peer_offset :: int
  r_count :: nat
  r_cursor :: nat
  r_used :: u64
  r_bitmap :: bitmap

record ip_pool =
  p_name :: "string option"
  p_next :: "nat option"
  p_ranges :: "ip_range list"

record pool_set =
  pools :: "ip_pool list"
  def_pool :: "ip_pool option"
  gw_ip_address :: u32
  shuffle :: int
  orphan_policy :: orphan_policy_t

datatype pool_ref = DefPool | NamedPool nat

definition get_pool :: "pool_set \<Rightarrow> pool_ref \<Rightarrow> ip_pool option" where
  "get_pool ps p =
     (case p of DefPool \<Rightarrow> def_pool ps
      | NamedPool i \<Rightarrow> if i < length (pools ps) then Some (pools ps ! i) else None)"

definition upd_pool :: "pool_ref \<Rightarrow> (ip_pool \<Rightarrow> ip_pool) \<Rightarrow> pool_set \<Rightarrow> pool_set" where
  "upd_pool p f ps =
     (case p of DefPool \<Rightarrow> ps\<lparr>def_pool := map_option f (def_pool ps)\<rparr>
      | NamedPool i \<Rightarrow> ps\<lparr>pools := (if i < length (pools ps) then (pools ps)[i := f (pools ps ! i)] else pools ps)\<rparr>)"

definition upd_range :: "pool_ref \<Rightarrow> nat \<Rightarrow> (ip_range \<Rightarrow> ip_range) \<Rightarrow> pool_set \<Rightarrow> pool_set" where
  "upd_range p k f = upd_pool p (\<lambda>pool.
     pool\<lparr>p_ranges := (if k < length (p_ranges pool) then (p_ranges pool)[k := f (p_ranges pool ! k)] else p_ranges pool)\<rparr>)"

definition get_range :: "pool_set \<Rightarrow> pool_ref \<Rightarrow> nat \<Rightarrow> ip_range option" where
  "get_range ps p k =
     (case get_pool ps p of None \<Rightarrow> None
      | Some pool \<Rightarrow> if k < length (p_ranges pool) then Some (p_ranges pool ! k) else None)"

section \<open>Range arithmetic\<close>

definition ip4 :: "u32 \<Rightarrow> u32 \<Rightarrow> u32 \<Rightarrow> u32 \<Rightarrow> u32" where
  "ip4 f1 f2 f3 f4 = push_bit 24 f1 OR push_bit 16 f2 OR push_bit 8 f3 OR f4"

text \<open>\<^verbatim>\<open>sscanf(str, "%u.%u.%u.%u<sep>%u", \<dots>) == 5\<close>\<close>

definition scan_quad_sep :: "char \<Rightarrow> string \<Rightarrow> (u32 \<times> u32 \<times> u32 \<times> u32 \<times> u32) option" where
  "scan_quad_sep sep s0 =
     (case scan_u s0 of None \<Rightarrow> None | Some (f1, s1) \<Rightarrow>
     (case scan_lit CHR ''.'' s1 of None \<Rightarrow> None | Some s1' \<Rightarrow>
     (case scan_u s1' of None \<Rightarrow> None | Some (f2, s2) \<Rightarrow>
     (case scan_lit CHR ''.'' s2 of None \<Rightarrow> None | Some s2' \<Rightarrow>
     (case scan_u s2' of None \<Rightarrow> None | Some (f3, s3) \<Rightarrow>
     (case scan_lit CHR ''.'' s3 of None \<Rightarrow> None | Some s3' \<Rightarrow>
     (case scan_u s3' of None \<Rightarrow> None | Some (f4, s4) \<Rightarrow>
     (case scan_lit sep s4 of None \<Rightarrow> None | Some s4' \<Rightarrow>
     (case scan_u s4' of None \<Rightarrow> None | Some (m, _) \<Rightarrow> Some (f1, f2, f3, f4, m))))))))))"

text \<open>Ranges like \<^verbatim>\<open>x.x.x.x/mask\<close> and \<^verbatim>\<open>x.x.x.x-y\<close>.\<close>

definition parse1 :: "string \<Rightarrow> (u32 \<times> u32) option" where
  "parse1 str =
     (case scan_quad_sep CHR ''/'' str of None \<Rightarrow> None
      | Some (f1, f2, f3, f4, m) \<Rightarrow>
          if f1 > 255 \<or> f2 > 255 \<or> f3 > 255 \<or> f4 > 255 then None
          else if m = 0 \<or> m > 32 then None
          else let b = ip4 f1 f2 f3 f4;
                   m' = (if m = 32 then 0 else push_bit (unat (32 - m)) 1 - 1)
               in Some (b, b OR m'))"

definition parse2 :: "string \<Rightarrow> (u32 \<times> u32) option" where
  "parse2 str =
     (case scan_quad_sep CHR ''-'' str of None \<Rightarrow> None
      | Some (f1, f2, f3, f4, f5) \<Rightarrow>
          if f1 > 255 \<or> f2 > 255 \<or> f3 > 255 \<or> f4 > 255 then None
          else if f5 < f4 \<or> f5 > 255 then None
          else Some (ip4 f1 f2 f3 f4, ip4 f1 f2 f3 f5))"

definition range_addr_to_bit :: "ip_range \<Rightarrow> u32 \<Rightarrow> nat option" where
  "range_addr_to_bit r peer_host =
     (if peer_host < word_of_int (r_peer_offset r) then None
      else let base = peer_host - word_of_int (r_peer_offset r)
           in if base < r_start r then None
              else let delta = base - r_start r
                   in if delta mod r_step r \<noteq> 0 then None
                      else let bt = unat (delta div r_step r)
                           in if bt \<ge> r_count r then None else Some bt)"

section \<open>Pool set construction\<close>

definition create_pool :: "pool_set \<Rightarrow> string \<Rightarrow> pool_set \<times> nat" where
  "create_pool ps name =
     (ps\<lparr>pools := pools ps @ [\<lparr>p_name = Some name, p_next = None, p_ranges = []\<rparr>]\<rparr>, length (pools ps))"

fun find_named :: "ip_pool list \<Rightarrow> string \<Rightarrow> nat \<Rightarrow> nat option" where
  "find_named [] name i = None"
| "find_named (p # rest) name i = (if p_name p = Some name then Some i else find_named rest name (Suc i))"

text \<open>\<^verbatim>\<open>find_pool\<close> without and with its \<^verbatim>\<open>create\<close> argument.\<close>

definition find_pool :: "pool_set \<Rightarrow> string \<Rightarrow> nat option" where
  "find_pool ps name = find_named (pools ps) name 0"

definition find_pool_create :: "pool_set \<Rightarrow> string \<Rightarrow> pool_set \<times> nat" where
  "find_pool_create ps name =
     (case find_pool ps name of Some i \<Rightarrow> (ps, i) | None \<Rightarrow> create_pool ps name)"

definition add_range_to_pool :: "ip_pool \<Rightarrow> string \<Rightarrow> u32 \<Rightarrow> int \<Rightarrow> int \<Rightarrow> ip_pool \<times> int" where
  "add_range_to_pool p str step gw_offset peer_offset =
     (case (case parse1 str of None \<Rightarrow> parse2 str | Some r \<Rightarrow> Some r) of
        None \<Rightarrow> (p, -1)
      | Some (start, end) \<Rightarrow>
          if end < start then (p, -1)
          else let count = (unat (end - start) + 1) div unat step
               in if count = 0 then (p, 0)
                  else if count > IPPOOL_MAX_BITS then (p, -1)
                  else (p\<lparr>p_ranges := p_ranges p @
                     [\<lparr>r_start = start, r_end = end, r_step = step, r_gw_offset = gw_offset,
                       r_peer_offset = peer_offset, r_count = count, r_cursor = 0, r_used = 0,
                       r_bitmap = []\<rparr>]\<rparr>, 0))"

definition set_remainder :: "bitmap \<Rightarrow> nat \<Rightarrow> bitmap" where
  "set_remainder bm count = fold (\<lambda>b bm. bm_set bm b) [count..<length bm * BM_WORD_BITS] bm"

definition reserve_gw :: "u32 \<Rightarrow> ip_range \<Rightarrow> ip_range" where
  "reserve_gw gw r =
     (if r_step r = 1 \<and> r_peer_offset r = 0 \<and> gw \<noteq> 0 \<and> gw \<ge> r_start r \<and> gw \<le> r_end r
      then let bt = unat (gw - r_start r)
           in if bt < r_count r \<and> \<not> bm_test (r_bitmap r) bt
              then r\<lparr>r_bitmap := bm_set (r_bitmap r) bt, r_used := r_used r + 1\<rparr>
              else r
      else r)"

definition finalize_range :: "pool_set \<Rightarrow> ip_range \<Rightarrow> ip_range" where
  "finalize_range ps r =
     reserve_gw (gw_ip_address ps)
       (r\<lparr>r_bitmap := set_remainder (replicate (BM_NWORDS (r_count r)) 0) (r_count r)\<rparr>)"

definition finalize_ranges :: "pool_set \<Rightarrow> ip_pool \<Rightarrow> ip_pool" where
  "finalize_ranges ps p = p\<lparr>p_ranges := map (finalize_range ps) (p_ranges p)\<rparr>"

definition parse_gw_ip_address :: "string option \<Rightarrow> u32 \<Rightarrow> u32" where
  "parse_gw_ip_address val out =
     (case val of None \<Rightarrow> out
      | Some v \<Rightarrow>
          (case strchr v CHR ''/'' of
             Some _ \<Rightarrow> let a = before_chr v CHR ''/''
                       in if length a > 15 \<or> length a < 7 then out else inet_addr a
           | None \<Rightarrow> inet_addr v))"

text \<open>\<^verbatim>\<open>,name=\<close>, \<^verbatim>\<open>,allocator=\<close> and \<^verbatim>\<open>,next=\<close> of a raw option line.\<close>

definition line_pool :: "pool_set \<Rightarrow> string \<Rightarrow> pool_set \<times> pool_ref option" where
  "line_pool ps opt =
     (case strstr opt '',name='' of
        Some r \<Rightarrow> let (ps', i) = find_pool_create ps (before_chr (drop 6 r) CHR '','') in (ps', Some (NamedPool i))
      | None \<Rightarrow>
          (case strchr opt CHR '','' of
             Some r \<Rightarrow>
               if strchr (drop 1 r) CHR ''='' = None
               then let (ps', i) = find_pool_create ps (before_chr (drop 1 r) CHR '','') in (ps', Some (NamedPool i))
               else (ps, if def_pool ps = None then None else Some DefPool)
           | None \<Rightarrow> (ps, if def_pool ps = None then None else Some DefPool)))"

definition line_allocator :: "string \<Rightarrow> (u32 \<times> int \<times> int) option" where
  "line_allocator opt =
     (case strstr opt '',allocator='' of
        None \<Rightarrow> Some (1, -1, 0)
      | Some r \<Rightarrow> let a = before_chr (drop 11 r) CHR '',''
                  in if a = ''p2p'' then Some (1, -1, 0)
                     else if a = ''net30'' then Some (4, 1, 2)
                     else None)"

definition line_next :: "pool_set \<Rightarrow> pool_ref \<Rightarrow> string \<Rightarrow> pool_set" where
  "line_next ps pool opt =
     (case strstr opt '',next='' of
        None \<Rightarrow> ps
      | Some r \<Rightarrow> let (ps', i) = find_pool_create ps (before_chr (drop 6 r) CHR '','')
                  in upd_pool pool (\<lambda>p. p\<lparr>p_next := Some i\<rparr>) ps')"

definition parse_line_opts :: "pool_set \<Rightarrow> string \<Rightarrow> pool_set \<times> (pool_ref \<times> u32 \<times> int \<times> int) option" where
  "parse_line_opts ps opt =
     (case line_pool ps opt of
        (set1, None) \<Rightarrow> (set1, None)
      | (set1, Some pool) \<Rightarrow>
          (case line_allocator opt of
             None \<Rightarrow> (set1, None)
           | Some (step, gw, peer) \<Rightarrow> (line_next set1 pool opt, Some (pool, step, gw, peer))))"


text \<open>An entry of the \<^verbatim>\<open>[ip-pool]\<close> section (\<^verbatim>\<open>struct conf_option_t\<close> of the triton library).\<close>

record conf_option =
  o_name :: string
  o_val :: "string option"
  o_raw :: string

text \<open>The file's static \<^verbatim>\<open>conf_vendor\<close> and \<^verbatim>\<open>conf_attr\<close>.\<close>

record ippool_conf =
  conf_vendor :: int
  conf_attr :: int

definition parse_attr_opt :: "rad_dict \<Rightarrow> int \<Rightarrow> string \<Rightarrow> int" where
  "parse_attr_opt dict cv opt =
     (let attr = (if cv \<noteq> 0
                  then (case rad_dict_find_vendor_id dict cv of
                          Some vendor \<Rightarrow> rad_dict_find_vendor_attr vendor opt
                        | None \<Rightarrow> None)
                  else rad_dict_find_attr dict opt)
      in case attr of Some a \<Rightarrow> da_id a | None \<Rightarrow> atoi opt)"

definition parse_vendor_opt :: "rad_dict \<Rightarrow> string \<Rightarrow> int" where
  "parse_vendor_opt dict opt =
     (case rad_dict_find_vendor_name dict opt of Some v \<Rightarrow> dvn_id v | None \<Rightarrow> atoi opt)"

text \<open>The range lines of \<^verbatim>\<open>build_pool_set\<close>, and one turn of its loop over the section.\<close>

definition add_range_line :: "pool_set \<Rightarrow> conf_option \<Rightarrow> string \<Rightarrow> pool_set" where
  "add_range_line ps opt range_str =
     (case parse_line_opts ps (o_raw opt) of
        (ps', None) \<Rightarrow> ps'
      | (ps', Some (pool, step, gw_offset, peer_offset)) \<Rightarrow>
          upd_pool pool (\<lambda>p. fst (add_range_to_pool p range_str step gw_offset peer_offset)) ps')"

definition build_option ::
  "rad_dict option \<Rightarrow> conf_option \<Rightarrow> ippool_conf \<times> pool_set \<Rightarrow> ippool_conf \<times> pool_set" where
  "build_option radius opt = (\<lambda>(cf, ps).
     if radius \<noteq> None \<and> o_name opt = ''vendor'' then
       (case o_val opt of Some v \<Rightarrow> cf\<lparr>conf_vendor := parse_vendor_opt (the radius) v\<rparr> | None \<Rightarrow> cf, ps)
     else if radius \<noteq> None \<and> o_name opt = ''attr'' then
       (case o_val opt of Some v \<Rightarrow> cf\<lparr>conf_attr := parse_attr_opt (the radius) (conf_vendor cf) v\<rparr> | None \<Rightarrow> cf, ps)
     else if o_name opt = ''gw-ip-address'' then
       (cf, ps\<lparr>gw_ip_address := parse_gw_ip_address (o_val opt) (gw_ip_address ps)\<rparr>)
     else if o_name opt = ''shuffle'' then
       (cf, ps\<lparr>shuffle := (case o_val opt of Some v \<Rightarrow> atoi v | None \<Rightarrow> 0)\<rparr>)
     else if o_name opt = ''reload-orphan'' then
       (cf, ps\<lparr>orphan_policy := (if o_val opt = Some ''disconnect'' then ORPHAN_DISCONNECT else ORPHAN_KEEP)\<rparr>)
     else if o_name opt = ''gw'' then (cf, ps)
     else if o_name opt = ''tunnel'' then
       (case o_val opt of None \<Rightarrow> (cf, ps) | Some v \<Rightarrow> (cf, add_range_line ps opt v))
     else if o_val opt = None \<or> strchr (o_name opt) CHR '','' \<noteq> None then
       (cf, add_range_line ps opt (o_name opt))
     else (cf, ps))"

definition finalize_set :: "pool_set \<Rightarrow> pool_set" where
  "finalize_set ps =
     ps\<lparr>def_pool := map_option (finalize_ranges ps) (def_pool ps),
        pools := map (finalize_ranges ps) (pools ps)\<rparr>"

definition empty_set :: pool_set where
  "empty_set = \<lparr>pools = [], def_pool = None, gw_ip_address = 0, shuffle = 0, orphan_policy = ORPHAN_KEEP\<rparr>"

definition build_pool_set :: "rad_dict option \<Rightarrow> conf_option list option \<Rightarrow> ippool_conf \<times> pool_set" where
  "build_pool_set radius s =
     (let cf = \<lparr>conf_vendor = 0, conf_attr = 88\<rparr>
      in case s of
           None \<Rightarrow> (cf, empty_set)
         | Some items \<Rightarrow>
             let (cf', ps) = fold (build_option radius) items
                   (cf, empty_set\<lparr>def_pool := Some \<lparr>p_name = None, p_next = None, p_ranges = []\<rparr>\<rparr>)
             in (cf', finalize_set ps))"

section \<open>Address look-up\<close>

fun first_range :: "ip_range list \<Rightarrow> nat \<Rightarrow> u32 \<Rightarrow> (nat \<times> nat) option" where
  "first_range [] k peer_host = None"
| "first_range (r # rs) k peer_host =
     (case range_addr_to_bit r peer_host of
        Some bt \<Rightarrow> Some (k, bt)
      | None \<Rightarrow> first_range rs (Suc k) peer_host)"

definition pool_contains :: "ip_pool \<Rightarrow> u32 \<Rightarrow> (nat \<times> nat) option" where
  "pool_contains p peer_host = first_range (p_ranges p) 0 peer_host"

fun first_pool :: "ip_pool list \<Rightarrow> nat \<Rightarrow> u32 \<Rightarrow> (pool_ref \<times> nat \<times> nat) option" where
  "first_pool [] i peer_host = None"
| "first_pool (p # rest) i peer_host =
     (case pool_contains p peer_host of
        Some (k, bt) \<Rightarrow> Some (NamedPool i, k, bt)
      | None \<Rightarrow> first_pool rest (Suc i) peer_host)"

definition contains_in :: "pool_set \<Rightarrow> pool_ref \<Rightarrow> u32 \<Rightarrow> (pool_ref \<times> nat \<times> nat) option" where
  "contains_in ps p peer_host =
     (case get_pool ps p of None \<Rightarrow> None
      | Some pool \<Rightarrow> map_option (\<lambda>(k, bt). (p, k, bt)) (pool_contains pool peer_host))"

definition find_target :: "pool_set \<Rightarrow> u32 \<Rightarrow> string option \<Rightarrow> (pool_ref \<times> nat \<times> nat) option" where
  "find_target ps peer_host pref_name =
     (case (case pref_name of None \<Rightarrow> None
            | Some name \<Rightarrow> (case find_pool ps name of None \<Rightarrow> None
                             | Some i \<Rightarrow> contains_in ps (NamedPool i) peer_host)) of
        Some t \<Rightarrow> Some t
      | None \<Rightarrow>
          (case contains_in ps DefPool peer_host of
             Some t \<Rightarrow> Some t
           | None \<Rightarrow> first_pool (pools ps) 0 peer_host))"

section \<open>Allocation and release\<close>

datatype ip_owner = OwnPool | OwnBackup | OwnForeign nat

text \<open>
  A lease with the \<^verbatim>\<open>ipv4db_item_t\<close> it wraps. An item of another owner has no lease
  around it; its \<open>l_pool\<close> and \<open>l_range\<close> are not read.
\<close>

record ip_lease =
  l_pool :: "pool_ref option"
  l_range :: "nat option"
  it_owner :: "ip_owner option"
  it_addr :: u32
  it_peer_addr :: u32
  it_mask :: nat

text \<open>What the pool code reads and writes of a session.\<close>

record ip_ses =
  s_ipv4 :: "ip_lease option"
  s_ipv4_pool_name :: "string option"
  s_ppp :: bool

definition range_take :: "nat \<Rightarrow> ip_range \<Rightarrow> ip_range" where
  "range_take bt r = r\<lparr>r_bitmap := bm_set (r_bitmap r) bt, r_used := r_used r + 1, r_cursor := bt + 1\<rparr>"

definition range_from :: "pool_set \<Rightarrow> u64 \<Rightarrow> ip_range \<Rightarrow> nat" where
  "range_from ps rnd r =
     (if shuffle ps \<noteq> 0 then (if r_count r \<noteq> 0 then unat rnd mod r_count r else 0) else r_cursor r)"

text \<open>The loop over the ranges of one pool: the first range with a free bit, and that bit.\<close>

fun scan_ranges :: "pool_set \<Rightarrow> u64 \<Rightarrow> ip_range list \<Rightarrow> nat \<Rightarrow> (nat \<times> nat) option" where
  "scan_ranges ps rnd [] k = None"
| "scan_ranges ps rnd (r # rs) k =
     (case bm_find_free (r_bitmap r) (r_count r) (range_from ps rnd r) of
        Some bt \<Rightarrow> Some (k, bt)
      | None \<Rightarrow> scan_ranges ps rnd rs (Suc k))"

text \<open>
  The loop over the overflow chain. It may run forever (see \<open>chain_diverges\<close> below), so it is
  a partial function: \<open>None\<close> stands for a loop that does not end, \<open>Some None\<close> for a chain
  without a free address.
\<close>

partial_function (option) chain_loop ::
  "pool_set \<Rightarrow> u64 \<Rightarrow> pool_ref \<Rightarrow> pool_ref \<Rightarrow> (pool_ref \<times> nat \<times> nat) option option" where
  "chain_loop ps rnd start pool =
     (case get_pool ps pool of
        None \<Rightarrow> Some None
      | Some p \<Rightarrow>
          (case scan_ranges ps rnd (p_ranges p) 0 of
             Some (k, bt) \<Rightarrow> Some (Some (pool, k, bt))
           | None \<Rightarrow>
               (case p_next p of
                  None \<Rightarrow> Some None
                | Some i \<Rightarrow> if NamedPool i = start then Some None
                            else chain_loop ps rnd start (NamedPool i))))"

text \<open>The peer address of block \<open>bt\<close> of a range (\<^verbatim>\<open>base + peer_offset\<close> at the end of \<^verbatim>\<open>get_ip\<close>).\<close>

definition range_peer :: "ip_range \<Rightarrow> nat \<Rightarrow> u32" where
  "range_peer r bt = r_start r + of_nat bt * r_step r + word_of_int (r_peer_offset r)"

definition lease_of :: "pool_set \<Rightarrow> bool \<Rightarrow> pool_ref \<Rightarrow> nat \<Rightarrow> nat \<Rightarrow> ip_range \<Rightarrow> ip_lease" where
  "lease_of ps ppp p k bt r =
     \<lparr>l_pool = Some p, l_range = Some k, it_owner = Some OwnPool,
      it_addr = (if ppp then gw_ip_address ps else 0),
      it_peer_addr = range_peer r bt,
      it_mask = 0\<rparr>"

text \<open>
  \<^verbatim>\<open>get_ip\<close> on the current set: \<open>None\<close> if the chain loop does not end, otherwise the new
  set and the lease, if any. \<open>rnd\<close> is the value read from \<^verbatim>\<open>/dev/urandom\<close> (only used with
  \<^verbatim>\<open>shuffle\<close>), \<open>malloc_ok\<close> tells whether the lease could be allocated.
\<close>

definition get_ip ::
  "pool_set option \<Rightarrow> u64 \<Rightarrow> bool \<Rightarrow> ip_ses \<Rightarrow> (pool_set option \<times> ip_lease option) option" where
  "get_ip cur rnd malloc_ok ses =
     (case cur of None \<Rightarrow> Some (None, None)
      | Some ps \<Rightarrow>
          (case (case s_ipv4_pool_name ses of
                   Some name \<Rightarrow> map_option NamedPool (find_pool ps name)
                 | None \<Rightarrow> (if def_pool ps = None then None else Some DefPool)) of
             None \<Rightarrow> Some (Some ps, None)
           | Some pool \<Rightarrow>
               (case chain_loop ps rnd pool pool of
                  None \<Rightarrow> None
                | Some None \<Rightarrow> Some (Some ps, None)
                | Some (Some (p, k, bt)) \<Rightarrow>
                    let ps' = upd_range p k (range_take bt) ps
                    in if malloc_ok
                       then Some (Some ps', map_option (lease_of ps (s_ppp ses) p k bt) (get_range ps p k))
                       else Some (Some (upd_range p k (\<lambda>r. r\<lparr>r_bitmap := bm_clear (r_bitmap r) bt, r_used := r_used r - 1\<rparr>) ps'), None))))"

definition range_put :: "u32 \<Rightarrow> ip_range \<Rightarrow> ip_range" where
  "range_put peer r =
     (case range_addr_to_bit r peer of
        None \<Rightarrow> r
      | Some bt \<Rightarrow> if bm_test (r_bitmap r) bt
                    then r\<lparr>r_bitmap := bm_clear (r_bitmap r) bt, r_used := r_used r - 1\<rparr>
                    else r)"

definition put_ip :: "pool_set \<Rightarrow> ip_lease \<Rightarrow> pool_set" where
  "put_ip ps lease =
     (case (l_pool lease, l_range lease) of
        (Some p, Some k) \<Rightarrow> upd_range p k (range_put (it_peer_addr lease)) ps
      | _ \<Rightarrow> ps)"

definition range_reserve :: "nat \<Rightarrow> ip_range \<Rightarrow> ip_range" where
  "range_reserve bt r =
     (if bm_test (r_bitmap r) bt then r
      else r\<lparr>r_bitmap := bm_set (r_bitmap r) bt, r_used := r_used r + 1\<rparr>)"

definition session_save :: "ip_ses \<Rightarrow> int" where
  "session_save ses =
     (case s_ipv4 ses of None \<Rightarrow> -2 | Some it \<Rightarrow> if it_owner it \<noteq> Some OwnPool then -2 else 0)"

text \<open>
  \<^verbatim>\<open>session_restore\<close>: \<open>addr\<close> and \<open>peer\<close> are the contents of the two address tags of the
  saved session (0 where a tag is missing); the session has no address yet.
\<close>

definition session_restore :: "pool_set option \<Rightarrow> u32 \<Rightarrow> u32 \<Rightarrow> ip_ses \<Rightarrow> pool_set option \<times> ip_ses" where
  "session_restore cur addr peer ses =
     (case (case cur of None \<Rightarrow> None | Some ps \<Rightarrow> map_option (\<lambda>t. (ps, t)) (find_target ps peer None)) of
        Some (ps, p, k, bt) \<Rightarrow>
          (Some (upd_range p k (range_reserve bt) ps),
           ses\<lparr>s_ipv4 := Some \<lparr>l_pool = Some p, l_range = Some k, it_owner = Some OwnPool,
                             it_addr = addr, it_peer_addr = peer, it_mask = 0\<rparr>\<rparr>)
      | None \<Rightarrow>
          (cur, if s_ipv4 ses = None
                then ses\<lparr>s_ipv4 := Some \<lparr>l_pool = None, l_range = None, it_owner = Some OwnBackup,
                                      it_addr = addr, it_peer_addr = peer, it_mask = 0\<rparr>\<rparr>
                else ses))"

section \<open>Reload\<close>

text \<open>
  One session of the reload: the new set with the session's address reserved, the session
  with its lease moved to the new set, and whether it must be disconnected.
\<close>

definition reconcile_v4 :: "pool_set \<Rightarrow> ip_ses \<Rightarrow> orphan_policy_t \<Rightarrow> pool_set \<times> ip_ses \<times> bool" where
  "reconcile_v4 new ses policy =
     (case s_ipv4 ses of None \<Rightarrow> (new, ses, False)
      | Some it \<Rightarrow>
          (case it_owner it of None \<Rightarrow> (new, ses, False)
           | Some own \<Rightarrow>
               if own = OwnPool then
                 (case find_target new (it_peer_addr it) (s_ipv4_pool_name ses) of
                    Some (p, k, bt) \<Rightarrow>
                      (upd_range p k (range_reserve bt) new,
                       ses\<lparr>s_ipv4 := Some (it\<lparr>l_pool := Some p, l_range := Some k\<rparr>)\<rparr>, False)
                  | None \<Rightarrow>
                      (new, ses\<lparr>s_ipv4 := Some (it\<lparr>l_pool := None, l_range := None\<rparr>)\<rparr>,
                       policy = ORPHAN_DISCONNECT))
               else
                 (case find_target new (it_peer_addr it) None of
                    Some (p, k, bt) \<Rightarrow> (upd_range p k (range_reserve bt) new, ses, False)
                  | None \<Rightarrow> (new, ses, False))))"

fun reconcile_all :: "orphan_policy_t \<Rightarrow> pool_set \<Rightarrow> ip_ses list \<Rightarrow> nat \<Rightarrow> pool_set \<times> ip_ses list \<times> nat list" where
  "reconcile_all policy new [] i = (new, [], [])"
| "reconcile_all policy new (s # ss) i =
     (let (new1, s1, d) = reconcile_v4 new s policy;
          (new2, ss2, ds) = reconcile_all policy new1 ss (Suc i)
      in (new2, s1 # ss2, if d then i # ds else ds))"

text \<open>
  \<^verbatim>\<open>load_config\<close>: the pool set built from the section replaces the current one after every
  live session was reconciled; the third component lists the sessions that are
  scheduled for \<^verbatim>\<open>terminate_orphan\<close>, by position.
\<close>

definition load_config ::
  "rad_dict option \<Rightarrow> conf_option list option \<Rightarrow> ip_ses list \<Rightarrow> ippool_conf \<times> pool_set \<times> ip_ses list \<times> nat list" where
  "load_config radius s sessions =
     (let (cf, new) = build_pool_set radius s
      in (cf, reconcile_all (orphan_policy new) new sessions 0))"

section \<open>Pool names from RADIUS\<close>

definition parse_attr :: "ippool_conf \<Rightarrow> nat \<Rightarrow> string \<Rightarrow> ip_ses \<Rightarrow> ip_ses" where
  \<comment> \<open>\<open>len\<close> is the attribute's length, \<open>str\<close> its value as a C string\<close>
  "parse_attr cf len str ses =
     (if conf_vendor cf = 9 then
        (if len > 14 \<and> take 13 str = ''ip:addr-pool='' then ses\<lparr>s_ipv4_pool_name := Some (drop 13 str)\<rparr>
         else ses)
      else ses\<lparr>s_ipv4_pool_name := Some str\<rparr>)"

text \<open>\<^verbatim>\<open>show ippool\<close>: total, used and available units of a pool.\<close>

definition pool_totals :: "ip_pool \<Rightarrow> u64 \<times> u64 \<times> u64" where
  "pool_totals p =
     (let total = sum_list (map (\<lambda>r. of_nat (r_count r)) (p_ranges p));
          used = sum_list (map r_used (p_ranges p))
      in (total, used, total - used))"


end
