(* ===== verification/IpPoolCorrect.thy ===== *)
theory IpPoolCorrect
  imports IpPool
begin

text \<open>
  Correctness of the address pools: bits and addresses of a range correspond one to one,
  every operation keeps the range invariant (the bitmap covers the range, the remainder
  bits are set, \<^verbatim>\<open>used\<close> counts the taken blocks), allocation takes a free block of the first
  pool of the overflow chain that has one, release undoes it, and a reload keeps the
  addresses of live sessions reserved.
\<close>

section \<open>Ranges: addresses and bits\<close>

definition range_ok :: "ip_range \<Rightarrow> bool" where
  "range_ok r \<longleftrightarrow>
     0 < r_step r \<and> 0 \<le> r_peer_offset r \<and> r_peer_offset r < uint (r_step r) \<and>
     0 < r_count r \<and> r_count r \<le> IPPOOL_MAX_BITS \<and>
     unat (r_start r) + r_count r * unat (r_step r) \<le> Suc (unat (r_end r))"

definition range_inv :: "ip_range \<Rightarrow> bool" where
  "range_inv r \<longleftrightarrow>
     range_ok r \<and> bm_ok (r_bitmap r) (r_count r) \<and>
     (\<forall>b \<in> {r_count r..<64 * length (r_bitmap r)}. bm_test (r_bitmap r) b) \<and>
     r_used r = of_nat (card (used_units bm_test (r_bitmap r) (r_count r)))"

lemma range_peer_bound:
  assumes "range_ok r" "b < r_count r"
  shows "unat (r_start r) + b * unat (r_step r) + nat (r_peer_offset r) \<le> unat (r_end r)"
proof -
  have "nat (r_peer_offset r) < unat (r_step r)"
    using assms(1) by (simp add: range_ok_def nat_less_iff)
  moreover have "Suc b * unat (r_step r) \<le> r_count r * unat (r_step r)"
    using assms(2) by (intro mult_le_mono1) simp
  ultimately show ?thesis using assms(1) by (simp add: range_ok_def)
qed

lemma peer_offset_word:
  "range_ok r \<Longrightarrow> (word_of_int (r_peer_offset r) :: u32) = of_nat (nat (r_peer_offset r))"
  by (simp add: range_ok_def)

lemma unat_range_peer:
  assumes "range_ok r" "b < r_count r"
  shows "unat (range_peer r b) = unat (r_start r) + b * unat (r_step r) + nat (r_peer_offset r)"
proof -
  have "range_peer r b = of_nat (unat (r_start r) + b * unat (r_step r) + nat (r_peer_offset r))"
    by (simp add: range_peer_def peer_offset_word [OF assms(1)])
  moreover have "unat (r_start r) + b * unat (r_step r) + nat (r_peer_offset r) < 2 ^ LENGTH(32)"
    using range_peer_bound [OF assms] unat_bound [of "r_end r"] by linarith
  ultimately show ?thesis by (simp only: unat_of_nat_eq)
qed


lemma range_addr_to_bit_peer:
  assumes ok: "range_ok r" and b: "b < r_count r"
  shows "range_addr_to_bit r (range_peer r b) = Some b"
proof -
  let ?off = "word_of_int (r_peer_offset r) :: u32"
  have off: "unat ?off = nat (r_peer_offset r)"
    using range_peer_bound [OF ok b] unat_bound [of "r_end r"]
    unfolding peer_offset_word [OF ok] by (intro unat_of_nat_eq) simp
  have base: "range_peer r b - ?off = r_start r + of_nat b * r_step r"
    by (simp add: range_peer_def)
  have bound: "unat (r_start r) + b * unat (r_step r) < 2 ^ 32"
    using range_peer_bound [OF ok b] unat_bound [of "r_end r"] by simp
  have ub: "unat (r_start r + of_nat b * r_step r) = unat (r_start r) + b * unat (r_step r)"
    and db: "unat (of_nat b * r_step r) = b * unat (r_step r)"
    using bound unat_of_nat_eq [where ?'a = 32, of "unat (r_start r) + b * unat (r_step r)"]
      unat_of_nat_eq [where ?'a = 32, of "b * unat (r_step r)"] by simp_all
  have "r_step r \<noteq> 0" using ok by (auto simp: range_ok_def)
  then have step: "unat (r_step r) > 0" by (simp add: unat_gt_0)
  have m: "of_nat b * r_step r mod r_step r = 0"
    by (simp add: word_arith_nat_mod db)
  have q: "unat (of_nat b * r_step r div r_step r) = b"
    using step by (simp add: unat_div db)
  have "\<not> range_peer r b < word_of_int (r_peer_offset r)"
    by (simp only: word_less_nat_alt off unat_range_peer [OF ok b])
  moreover have "\<not> r_start r + of_nat b * r_step r < r_start r"
    by (simp only: word_less_nat_alt ub)
  moreover have "r_start r + of_nat b * r_step r - r_start r = of_nat b * r_step r" by (rule add_diff_cancel_left')
  ultimately show ?thesis
    using b m q by (simp add: range_addr_to_bit_def Let_def base del: not_less)
qed

lemma range_addr_to_bit_iff:
  assumes ok: "range_ok r"
  shows "range_addr_to_bit r a = Some b \<longleftrightarrow> b < r_count r \<and> a = range_peer r b"
proof
  assume lhs: "range_addr_to_bit r a = Some b"
  define d where "d = a - word_of_int (r_peer_offset r) - r_start r"
  have d: "d mod r_step r = 0" "b = unat (d div r_step r)" "b < r_count r"
    using lhs by (auto simp: range_addr_to_bit_def Let_def d_def not_le split: if_splits)
  have "of_nat b * r_step r = d"
    using word_mod_div_equality [of d "r_step r"] by (simp add: d(1,2))
  then have "a = range_peer r b" by (simp add: range_peer_def d_def algebra_simps)
  then show "b < r_count r \<and> a = range_peer r b" using d by simp
next
  assume "b < r_count r \<and> a = range_peer r b"
  then show "range_addr_to_bit r a = Some b" using range_addr_to_bit_peer [OF ok] by simp
qed


section \<open>Ranges: the invariant\<close>

definition range_used :: "ip_range \<Rightarrow> nat set" where
  "range_used r = used_units bm_test (r_bitmap r) (r_count r)"

lemma range_ok_bitmap [simp]:
  "range_ok (r\<lparr>r_bitmap := bm\<rparr>) = range_ok r" "range_ok (r\<lparr>r_used := u\<rparr>) = range_ok r"
  "range_ok (r\<lparr>r_cursor := c\<rparr>) = range_ok r"
  by (simp_all add: range_ok_def)

lemma range_peer_bitmap [simp]:
  "range_peer (r\<lparr>r_bitmap := bm\<rparr>) = range_peer r" "range_peer (r\<lparr>r_used := u\<rparr>) = range_peer r"
  "range_peer (r\<lparr>r_cursor := c\<rparr>) = range_peer r"
  by (simp_all add: range_peer_def fun_eq_iff)

lemma range_inv_ok: "range_inv r \<Longrightarrow> range_ok r" "range_inv r \<Longrightarrow> bm_ok (r_bitmap r) (r_count r)"
  by (simp_all add: range_inv_def)

lemma range_inv_mark:
  assumes r: "range_inv r" and b: "b < r_count r" "\<not> bm_test (r_bitmap r) b"
  shows "range_inv (r\<lparr>r_bitmap := bm_set (r_bitmap r) b, r_used := r_used r + 1\<rparr>)"
proof -
  have ok: "bm_ok (r_bitmap r) (r_count r)" using r by (simp add: range_inv_def)
  have "b \<notin> used_units bm_test (r_bitmap r) (r_count r)" using b by (simp add: used_units_def)
  then have "card (used_units bm_test (bm_set (r_bitmap r) b) (r_count r))
             = Suc (card (used_units bm_test (r_bitmap r) (r_count r)))"
    using bm.used_take [OF ok b(1)] by simp
  then show ?thesis
    using r bm.ok_take [OF ok] bm.tst_take [OF ok b(1)] by (simp add: range_inv_def algebra_simps)
qed

lemma range_inv_unmark:
  assumes r: "range_inv r" and b: "b < r_count r" "bm_test (r_bitmap r) b"
  shows "range_inv (r\<lparr>r_bitmap := bm_clear (r_bitmap r) b, r_used := r_used r - 1\<rparr>)"
proof -
  have ok: "bm_ok (r_bitmap r) (r_count r)" using r by (simp add: range_inv_def)
  have "b \<in> used_units bm_test (r_bitmap r) (r_count r)" using b by (simp add: used_units_def)
  then have "card (used_units bm_test (r_bitmap r) (r_count r))
             = Suc (card (used_units bm_test (bm_clear (r_bitmap r) b) (r_count r)))"
    unfolding bm.used_give [OF ok b(1)] by (simp only: card_Suc_Diff1 finite_used_units)
  then show ?thesis
    using r b bm.ok_give [OF ok] bm.tst_give [OF ok b(1)] by (auto simp: range_inv_def algebra_simps)
qed

lemma range_inv_cursor [simp]: "range_inv (r\<lparr>r_cursor := c\<rparr>) = range_inv r"
  by (simp add: range_inv_def)

lemma range_take_alt:
  "range_take b r = (r\<lparr>r_bitmap := bm_set (r_bitmap r) b, r_used := r_used r + 1\<rparr>)\<lparr>r_cursor := b + 1\<rparr>"
  by (simp add: range_take_def)

lemma range_inv_take:
  "range_inv r \<Longrightarrow> b < r_count r \<Longrightarrow> \<not> bm_test (r_bitmap r) b \<Longrightarrow> range_inv (range_take b r)"
  unfolding range_take_alt by (simp only: range_inv_cursor) (rule range_inv_mark)

lemma range_used_take:
  "range_inv r \<Longrightarrow> b < r_count r \<Longrightarrow> range_used (range_take b r) = insert b (range_used r)"
  by (simp add: range_used_def range_take_def bm.used_take range_inv_ok)

lemma range_inv_reserve: "range_inv r \<Longrightarrow> b < r_count r \<Longrightarrow> range_inv (range_reserve b r)"
  by (auto simp: range_reserve_def intro: range_inv_mark)

lemma range_used_reserve:
  "range_inv r \<Longrightarrow> b < r_count r \<Longrightarrow> range_used (range_reserve b r) = insert b (range_used r)"
  by (auto simp: range_used_def range_reserve_def bm.used_take range_inv_ok) (simp add: used_units_def)

lemma range_inv_put: "range_inv r \<Longrightarrow> range_inv (range_put a r)"
  by (auto simp: range_put_def range_addr_to_bit_iff range_inv_ok intro: range_inv_unmark split: option.split)

lemma range_used_put:
  assumes "range_inv r"
  shows "range_used (range_put a r) = range_used r - {b. range_addr_to_bit r a = Some b}"
proof (cases "range_addr_to_bit r a")
  case (Some b)
  then have "b < r_count r" using assms by (simp add: range_addr_to_bit_iff range_inv_ok)
  then show ?thesis
    using Some assms by (simp add: range_put_def range_used_def bm.used_give range_inv_ok)
      (auto simp: used_units_def)
qed (simp add: range_put_def)

lemma range_count_ops [simp]:
  "r_count (range_take b r) = r_count r" "r_count (range_reserve b r) = r_count r"
  "r_count (range_put a r) = r_count r"
  by (simp_all add: range_take_def range_reserve_def range_put_def split: option.split)

lemma range_peer_ops [simp]:
  "range_peer (range_take b r) = range_peer r" "range_peer (range_reserve b r) = range_peer r"
  "range_peer (range_put a r) = range_peer r"
  by (simp_all add: range_take_def range_reserve_def range_put_def split: option.split)

section \<open>Ranges: construction\<close>

lemma length_set_bits [simp]: "length (fold (\<lambda>b bm. bm_set bm b) bs bm) = length bm"
  by (induction bs arbitrary: bm) simp_all

lemma bm_test_set_bits:
  "\<forall>b \<in> set bs. b < 64 * length bm \<Longrightarrow>
   bm_test (fold (\<lambda>b bm. bm_set bm b) bs bm) j \<longleftrightarrow> bm_test bm j \<or> j \<in> set bs"
  by (induction bs arbitrary: bm) (auto simp: bm_test_set)

lemma bm_test_replicate_0: "j < 64 * n \<Longrightarrow> \<not> bm_test (replicate n 0) j"
  by (simp add: bm_test_bit less_mult_imp_div_less mult.commute)

lemma BM_NWORDS_cover: "n \<le> 64 * BM_NWORDS n"
  by (simp add: BM_NWORDS_def)

lemma range_inv_fresh:
  assumes "range_ok r" "r_used r = 0"
  shows "range_inv (r\<lparr>r_bitmap := set_remainder (replicate (BM_NWORDS (r_count r)) 0) (r_count r)\<rparr>)"
    and "range_used (r\<lparr>r_bitmap := set_remainder (replicate (BM_NWORDS (r_count r)) 0) (r_count r)\<rparr>) = {}"
proof -
  let ?bm = "set_remainder (replicate (BM_NWORDS (r_count r)) 0) (r_count r)"
  have test: "bm_test ?bm j \<longleftrightarrow> r_count r \<le> j" if "j < 64 * BM_NWORDS (r_count r)" for j
    using that bm_test_replicate_0 [OF that] by (simp add: set_remainder_def bm_test_set_bits mult.commute)
  have len: "length ?bm = BM_NWORDS (r_count r)" by (simp add: set_remainder_def)
  have "used_units bm_test ?bm (r_count r) = {}"
    using BM_NWORDS_cover [of "r_count r"] by (auto simp: used_units_def test)
  then show "range_inv (r\<lparr>r_bitmap := ?bm\<rparr>)" "range_used (r\<lparr>r_bitmap := ?bm\<rparr>) = {}"
    using assms by (simp_all add: range_inv_def bm_ok_def len test range_used_def)
qed

lemma reserve_gw_cases:
  "reserve_gw gw r = r \<or>
   (\<exists>b < r_count r. reserve_gw gw r = range_reserve b r \<and> gw = range_peer r b)"
  by (auto simp: reserve_gw_def range_reserve_def range_peer_def Let_def)

lemma range_inv_reserve_gw: "range_inv r \<Longrightarrow> range_inv (reserve_gw gw r)"
  using reserve_gw_cases [of gw r] by (auto intro: range_inv_reserve)

lemma range_inv_finalize: "range_ok r \<Longrightarrow> r_used r = 0 \<Longrightarrow> range_inv (finalize_range ps r)"
  by (simp add: finalize_range_def range_inv_reserve_gw range_inv_fresh)

text \<open>The block of a point-to-point range whose address is the gateway's is taken from the start.\<close>

lemma gw_reserved:
  assumes r: "range_inv r" and p2p: "r_step r = 1" "r_peer_offset r = 0"
    and b: "b < r_count r" "range_peer r b \<noteq> 0"
  shows "b \<in> range_used (reserve_gw (range_peer r b) r)"
proof -
  let ?gw = "range_peer r b"
  have ok: "range_ok r" using r by (rule range_inv_ok)
  have u: "unat ?gw = unat (r_start r) + b" using unat_range_peer [OF ok b(1)] p2p by simp
  then have le: "r_start r \<le> ?gw" "?gw \<le> r_end r"
    using range_peer_bound [OF ok b(1)] p2p by (simp_all add: word_le_nat_alt)
  have "unat (?gw - r_start r) = b" using u by (simp add: unat_sub [OF le(1)])
  then have "reserve_gw ?gw r = range_reserve b r"
    using le b p2p by (simp add: reserve_gw_def range_reserve_def Let_def)
  then show ?thesis using range_used_reserve [OF r b(1)] by simp
qed

section \<open>References into a pool set\<close>

lemma get_pool_upd_pool:
  "get_pool (upd_pool p f ps) q = (if q = p then map_option f (get_pool ps q) else get_pool ps q)"
  by (auto simp: get_pool_def upd_pool_def nth_list_update split: pool_ref.split)

lemma get_range_upd_range:
  "get_range (upd_range p k f ps) q l =
     (if q = p \<and> l = k then map_option f (get_range ps q l) else get_range ps q l)"
  by (auto simp: get_range_def upd_range_def get_pool_upd_pool nth_list_update split: option.split)

lemma upd_frame [simp]:
  "length (pools (upd_pool p f ps)) = length (pools ps)"
  "gw_ip_address (upd_pool p f ps) = gw_ip_address ps"
  "shuffle (upd_pool p f ps) = shuffle ps" "orphan_policy (upd_pool p f ps) = orphan_policy ps"
  "length (pools (upd_range p k g ps)) = length (pools ps)"
  "gw_ip_address (upd_range p k g ps) = gw_ip_address ps"
  "shuffle (upd_range p k g ps) = shuffle ps" "orphan_policy (upd_range p k g ps) = orphan_policy ps"
  by (simp_all add: upd_pool_def upd_range_def split: pool_ref.split)

lemma upd_pool_upd_pool: "upd_pool p f (upd_pool p g ps) = upd_pool p (\<lambda>x. f (g x)) ps"
  by (simp add: upd_pool_def option.map_comp comp_def split: pool_ref.split)

lemma upd_range_upd_range: "upd_range p k f (upd_range p k g ps) = upd_range p k (\<lambda>r. f (g r)) ps"
  unfolding upd_range_def upd_pool_upd_pool
  by (rule arg_cong [of _ _ "\<lambda>h. upd_pool p h ps"]) (simp add: fun_eq_iff)

text \<open>
  The invariant of a pool set: every range satisfies the range invariant and every
  overflow link points to a pool of the set. \<open>leased\<close> is what a pool set represents: the
  blocks that are not available.
\<close>

definition set_all :: "(ip_range \<Rightarrow> bool) \<Rightarrow> pool_set \<Rightarrow> bool" where
  "set_all P ps \<longleftrightarrow>
     (\<forall>pool \<in> set (pools ps) \<union> set_option (def_pool ps).
        (\<forall>r \<in> set (p_ranges pool). P r) \<and> (\<forall>i. p_next pool = Some i \<longrightarrow> i < length (pools ps)))"

definition set_inv :: "pool_set \<Rightarrow> bool" where
  "set_inv ps \<longleftrightarrow> set_all range_inv ps"

definition leased :: "pool_set \<Rightarrow> (pool_ref \<times> nat \<times> nat) set" where
  "leased ps = {(p, k, b). \<exists>r. get_range ps p k = Some r \<and> b \<in> range_used r}"

lemma all_pools_iff:
  "pool \<in> set (pools ps) \<union> set_option (def_pool ps) \<longleftrightarrow> (\<exists>p. get_pool ps p = Some pool)"
  by (auto simp: get_pool_def in_set_conv_nth split: pool_ref.splits)
    (metis pool_ref.exhaust)+

lemma set_all_iff:
  "set_all P ps \<longleftrightarrow>
     (\<forall>p k r. get_range ps p k = Some r \<longrightarrow> P r) \<and>
     (\<forall>p pool i. get_pool ps p = Some pool \<longrightarrow> p_next pool = Some i \<longrightarrow> i < length (pools ps))"
  unfolding set_all_def Ball_def all_pools_iff
  by (auto simp: get_range_def in_set_conv_nth split: option.splits if_splits)

lemmas set_inv_iff = set_inv_def [unfolded set_all_iff]

lemma set_inv_range: "set_inv ps \<Longrightarrow> get_range ps p k = Some r \<Longrightarrow> range_inv r"
  by (simp add: set_inv_iff)

lemma p_next_upd_range:
  "map_option p_next (get_pool (upd_range p k f ps) q) = map_option p_next (get_pool ps q)"
  by (auto simp: upd_range_def get_pool_upd_pool option.map_comp comp_def)

lemma set_inv_upd_range:
  assumes "set_inv ps" and "\<And>r. get_range ps p k = Some r \<Longrightarrow> range_inv r \<Longrightarrow> range_inv (f r)"
  shows "set_inv (upd_range p k f ps)"
  unfolding set_inv_iff
proof (intro conjI allI impI)
  fix q l r assume "get_range (upd_range p k f ps) q l = Some r"
  then show "range_inv r"
    using assms by (auto simp: get_range_upd_range set_inv_iff split: if_splits)
next
  fix q pool i assume "get_pool (upd_range p k f ps) q = Some pool" "p_next pool = Some i"
  moreover from this p_next_upd_range [of p k f ps q, symmetric]
  obtain pool' where "get_pool ps q = Some pool'" "p_next pool' = Some i" by auto
  ultimately show "i < length (pools (upd_range p k f ps))" using assms(1) by (auto simp: set_inv_iff)
qed

lemma leased_upd_range:
  assumes "get_range ps p k = Some r"
  shows "leased (upd_range p k f ps) =
    {t \<in> leased ps. fst t \<noteq> p \<or> fst (snd t) \<noteq> k} \<union> {(p, k, b) | b. b \<in> range_used (f r)}"
  using assms by (auto simp: leased_def get_range_upd_range split: if_splits)


lemma leased_take:
  assumes "set_inv ps" "get_range ps p k = Some r" "b < r_count r"
  shows "leased (upd_range p k (range_take b) ps) = insert (p, k, b) (leased ps)"
    and "leased (upd_range p k (range_reserve b) ps) = insert (p, k, b) (leased ps)"
  using assms set_inv_range [OF assms(1,2)]
  by (auto simp: leased_upd_range range_used_take range_used_reserve) (auto simp: leased_def)

lemma leased_put:
  assumes "set_inv ps" "get_range ps p k = Some r"
  shows "leased (upd_range p k (range_put a) ps) = leased ps - {(p, k, b) | b. range_addr_to_bit r a = Some b}"
  using assms set_inv_range [OF assms]
  by (auto simp: leased_upd_range range_used_put) (auto simp: leased_def)

section \<open>The overflow chain\<close>

lemma scan_ranges_Some:
  assumes "\<forall>r \<in> set rs. range_inv r" "scan_ranges ps rnd rs k = Some (l, b)"
  shows "k \<le> l \<and> l - k < length rs \<and> b < r_count (rs ! (l - k)) \<and> \<not> bm_test (r_bitmap (rs ! (l - k))) b"
  using assms
proof (induction rs arbitrary: k)
  case (Cons r rs)
  then have ok: "bm_ok (r_bitmap r) (r_count r)" by (simp add: range_inv_def)
  show ?case
  proof (cases "bm_find_free (r_bitmap r) (r_count r) (range_from ps rnd r)")
    case None
    then have "Suc k \<le> l \<and> l - Suc k < length rs \<and> b < r_count (rs ! (l - Suc k)) \<and> \<not> bm_test (r_bitmap (rs ! (l - Suc k))) b"
      using Cons by simp
    then show ?thesis by (auto simp: nth_Cons' Suc_diff_le)
  next
    case (Some b')
    then show ?thesis using Cons.prems bm.search_Some [OF ok Some] by simp
  qed
qed simp

text \<open>A pool is full when every block of every range is in use.\<close>

definition pool_full :: "pool_set \<Rightarrow> pool_ref \<Rightarrow> bool" where
  "pool_full ps p \<longleftrightarrow> (\<forall>k r. get_range ps p k = Some r \<longrightarrow> card (range_used r) = r_count r)"

lemma range_full_iff:
  "range_inv r \<Longrightarrow> bm_find_free (r_bitmap r) (r_count r) from = None \<longleftrightarrow> card (range_used r) = r_count r"
  by (simp add: range_used_def bm.search_exhausted range_inv_ok)

lemma scan_ranges_None:
  "\<forall>r \<in> set rs. range_inv r \<Longrightarrow>
   scan_ranges ps rnd rs k = None \<longleftrightarrow> (\<forall>r \<in> set rs. card (range_used r) = r_count r)"
proof (induction rs arbitrary: k)
  case (Cons r rs)
  then show ?case
    using range_full_iff [of r "range_from ps rnd r"]
    by (cases "bm_find_free (r_bitmap r) (r_count r) (range_from ps rnd r)") auto
qed simp

lemma get_pool_ranges_inv:
  assumes "set_inv ps" "get_pool ps p = Some pool"
  shows "\<forall>r \<in> set (p_ranges pool). range_inv r"
proof
  fix r assume "r \<in> set (p_ranges pool)"
  then obtain k where "k < length (p_ranges pool)" "p_ranges pool ! k = r"
    by (auto simp: in_set_conv_nth)
  then have "get_range ps p k = Some r" using assms(2) by (simp add: get_range_def)
  then show "range_inv r" by (rule set_inv_range [OF assms(1)])
qed

lemma pool_full_scan:
  "set_inv ps \<Longrightarrow> get_pool ps p = Some pool \<Longrightarrow>
   scan_ranges ps rnd (p_ranges pool) 0 = None \<longleftrightarrow> pool_full ps p"
  by (simp add: scan_ranges_None [OF get_pool_ranges_inv] pool_full_def get_range_def)
    (metis in_set_conv_nth)

lemma scan_pool_Some:
  assumes "set_inv ps" "get_pool ps p = Some pool" "scan_ranges ps rnd (p_ranges pool) 0 = Some (k, b)"
  shows "\<exists>r. get_range ps p k = Some r \<and> b < r_count r \<and> \<not> bm_test (r_bitmap r) b"
  using scan_ranges_Some [OF get_pool_ranges_inv [OF assms(1,2)] assms(3)] assms(2)
  by (simp add: get_range_def)

definition chain_next :: "pool_set \<Rightarrow> pool_ref \<Rightarrow> pool_ref option" where
  "chain_next ps p = (case get_pool ps p of None \<Rightarrow> None | Some pool \<Rightarrow> map_option NamedPool (p_next pool))"

fun chain_walk :: "pool_set \<Rightarrow> pool_ref \<Rightarrow> nat \<Rightarrow> pool_ref option" where
  "chain_walk ps p 0 = Some p"
| "chain_walk ps p (Suc n) = (case chain_next ps p of None \<Rightarrow> None | Some q \<Rightarrow> chain_walk ps q n)"

text \<open>
  The loop in terms of the chain: the pools it visits, and the position where it may stop.
\<close>

lemma chain_loop_unfold:
  assumes "set_inv ps" "get_pool ps p \<noteq> None"
  shows "chain_loop ps rnd start p =
    (if pool_full ps p
     then (case chain_next ps p of None \<Rightarrow> Some None
           | Some q \<Rightarrow> if q = start then Some None else chain_loop ps rnd start q)
     else Some (map_option (\<lambda>(k, b). (p, k, b)) (scan_ranges ps rnd (p_ranges (the (get_pool ps p))) 0)))"
  using assms pool_full_scan [OF assms(1), of p "the (get_pool ps p)" rnd]
  by (subst chain_loop.simps) (auto simp: chain_next_def split: option.split)

lemma get_pool_chain_next:
  "set_inv ps \<Longrightarrow> chain_next ps p = Some q \<Longrightarrow> get_pool ps q \<noteq> None"
  by (fastforce simp: set_inv_iff chain_next_def get_pool_def split: option.splits)

lemma chain_loop_returns:
  assumes "set_inv ps" "get_pool ps p \<noteq> None"
    and "chain_walk ps p (Suc n) = None \<or> chain_walk ps p (Suc n) = Some start"
  shows "\<exists>res. chain_loop ps rnd start p = Some res"
  using assms(2,3)
proof (induction n arbitrary: p)
  case 0
  then show ?case by (auto simp: chain_loop_unfold [OF assms(1)] split: option.splits)
next
  case (Suc n)
  show ?case
  proof (cases "chain_next ps p")
    case (Some q)
    then have "\<exists>res. chain_loop ps rnd start q = Some res"
      using Suc get_pool_chain_next [OF assms(1) Some] by simp
    then show ?thesis using Some Suc.prems by (simp add: chain_loop_unfold [OF assms(1)])
  qed (use Suc.prems in \<open>simp add: chain_loop_unfold [OF assms(1)]\<close>)
qed


definition chain_result :: "pool_set \<Rightarrow> pool_ref \<Rightarrow> pool_ref \<Rightarrow> (pool_ref \<times> nat \<times> nat) option \<Rightarrow> bool" where
  "chain_result ps start p res \<longleftrightarrow>
     (\<exists>n. (\<forall>m q. m < n \<longrightarrow> chain_walk ps p m = Some q \<longrightarrow> pool_full ps q) \<and>
          (case res of
             Some (q, k, b) \<Rightarrow> chain_walk ps p n = Some q \<and>
               (\<exists>r. get_range ps q k = Some r \<and> b < r_count r \<and> b \<notin> range_used r)
           | None \<Rightarrow> n > 0 \<and> (chain_walk ps p n = None \<or> chain_walk ps p n = Some start)))"

lemma chain_result_step:
  assumes "chain_next ps p = Some q" "pool_full ps p" "chain_result ps start q res"
  shows "chain_result ps start p res"
proof -
  from assms(3) obtain n where
    full: "\<forall>m q'. m < n \<longrightarrow> chain_walk ps q m = Some q' \<longrightarrow> pool_full ps q'" and
    res: "case res of
       Some (q', k, b) \<Rightarrow> chain_walk ps q n = Some q' \<and>
         (\<exists>r. get_range ps q' k = Some r \<and> b < r_count r \<and> b \<notin> range_used r)
     | None \<Rightarrow> n > 0 \<and> (chain_walk ps q n = None \<or> chain_walk ps q n = Some start)"
    unfolding chain_result_def by blast
  have "pool_full ps q'" if "m < Suc n" "chain_walk ps p m = Some q'" for m q'
    using that full assms(1,2) by (cases m) auto
  then show ?thesis
    unfolding chain_result_def using res assms(1)
    by (intro exI [of _ "Suc n"]) (auto split: option.splits)
qed

lemma chain_loop_sound:
  assumes "chain_loop ps rnd start p = Some res" "set_inv ps" "get_pool ps p \<noteq> None"
  shows "chain_result ps start p res"
  using assms
proof (induction ps rnd start p res rule: chain_loop.raw_induct [rotated 1, consumes 1, case_names step])
  case (step loop ps rnd start p res)
  then obtain pool where pool: "get_pool ps p = Some pool" by blast
  show ?case
  proof (cases "scan_ranges ps rnd (p_ranges pool) 0")
    case (Some kb)
    then have "res = Some (p, kb)" using step pool by (cases kb) simp
    then show ?thesis
      using scan_pool_Some [OF \<open>set_inv ps\<close> pool, of rnd] Some
      by (cases kb) (auto simp: chain_result_def range_used_def used_units_def intro!: exI [of _ 0])
  next
    case None
    then have full: "pool_full ps p" using pool_full_scan [OF \<open>set_inv ps\<close> pool] by simp
    show ?thesis
    proof (cases "chain_next ps p")
      case (Some q)
      then have "res = None \<and> q = start \<or> q \<noteq> start \<and> loop ps rnd start q = Some res"
        using step(2) pool None by (auto simp: chain_next_def split: if_splits)
      then show ?thesis
      proof
        assume "res = None \<and> q = start"
        then show ?thesis
          using Some full by (auto simp: chain_result_def intro!: exI [of _ 1])
      next
        assume "q \<noteq> start \<and> loop ps rnd start q = Some res"
        then have "chain_result ps start q res"
          using step(1,3) get_pool_chain_next [OF \<open>set_inv ps\<close> Some] by blast
        then show ?thesis by (rule chain_result_step [OF Some full])
      qed
    qed (use step(2) pool None full in \<open>auto simp: chain_result_def chain_next_def intro!: exI [of _ 1]
        split: option.splits\<close>)
  qed
qed


lemma chain_loop_found:
  assumes "set_inv ps" "get_pool ps p \<noteq> None" "chain_walk ps p n = Some q" "\<not> pool_full ps q"
  shows "\<exists>res. chain_loop ps rnd start p = Some res"
  using assms(2,3)
proof (induction n arbitrary: p)
  case 0
  then show ?case using assms(4) by (simp add: chain_loop_unfold [OF assms(1)])
next
  case (Suc n)
  then obtain p' where p': "chain_next ps p = Some p'" by (auto split: option.splits)
  then have "\<exists>res. chain_loop ps rnd start p' = Some res"
    using Suc get_pool_chain_next [OF assms(1) p'] by simp
  then show ?case using p' Suc.prems by (simp add: chain_loop_unfold [OF assms(1)])
qed

lemma pool_not_fullI:
  assumes "get_range ps q k = Some r" "b < r_count r" "b \<notin> range_used r"
  shows "\<not> pool_full ps q"
proof -
  have "range_used r \<subset> {..<r_count r}" using assms(2,3) by (auto simp: range_used_def used_units_def)
  then have "card (range_used r) < card {..<r_count r}" by (intro psubset_card_mono) simp_all
  then show ?thesis using assms(1) unfolding pool_full_def by (metis card_lessThan less_irrefl)
qed

lemma chain_loop_iff:
  assumes "set_inv ps" "get_pool ps p \<noteq> None"
  shows "chain_loop ps rnd start p \<noteq> None \<longleftrightarrow>
    (\<exists>n q. chain_walk ps p n = Some q \<and> \<not> pool_full ps q) \<or>
    (\<exists>n>0. chain_walk ps p n = None \<or> chain_walk ps p n = Some start)" (is "?L \<longleftrightarrow> ?R")
proof
  assume ?L
  then obtain res where res: "chain_result ps start p res"
    using chain_loop_sound [OF _ assms] by blast
  show ?R
  proof (cases res)
    case None
    then show ?thesis using res by (auto simp: chain_result_def)
  next
    case (Some t)
    then obtain n q where "chain_walk ps p n = Some q" "\<not> pool_full ps q"
      using res by (cases t) (auto simp: chain_result_def dest: pool_not_fullI)
    then show ?thesis by blast
  qed
next
  assume ?R
  then show ?L
  proof (elim disjE exE conjE)
    fix n q assume "chain_walk ps p n = Some q" "\<not> pool_full ps q"
    then show ?L using chain_loop_found [OF assms] by simp
  next
    fix n :: nat assume "n > 0" "chain_walk ps p n = None"
    then show ?L using chain_loop_returns [OF assms, of "n - 1"] by simp
  next
    fix n :: nat assume "n > 0" "chain_walk ps p n = Some start"
    then show ?L using chain_loop_returns [OF assms, of "n - 1"] by simp
  qed
qed

section \<open>Allocation and release: the contract\<close>

definition ses_pool :: "pool_set \<Rightarrow> ip_ses \<Rightarrow> pool_ref option" where
  "ses_pool ps ses =
     (case s_ipv4_pool_name ses of
        Some name \<Rightarrow> map_option NamedPool (find_pool ps name)
      | None \<Rightarrow> (if def_pool ps = None then None else Some DefPool))"

lemma find_named_bound: "find_named pl name i = Some j \<Longrightarrow> i \<le> j \<and> j < i + length pl"
  by (induction pl arbitrary: i) (fastforce split: if_splits)+

lemma ses_pool_get: "ses_pool ps ses = Some p \<Longrightarrow> get_pool ps p \<noteq> None"
  by (auto simp: ses_pool_def find_pool_def get_pool_def dest!: find_named_bound split: option.splits if_splits)

text \<open>\<open>get_ip\<close> after the chain loop, on the block it found.\<close>

definition range_take_back :: "nat \<Rightarrow> ip_range \<Rightarrow> ip_range" where
  "range_take_back b r =
     (range_take b r)\<lparr>r_bitmap := bm_clear (r_bitmap (range_take b r)) b, r_used := r_used (range_take b r) - 1\<rparr>"

lemma get_ip_alt:
  "get_ip (Some ps) rnd malloc_ok ses =
     (case ses_pool ps ses of
        None \<Rightarrow> Some (Some ps, None)
      | Some pool \<Rightarrow>
          (case chain_loop ps rnd pool pool of
             None \<Rightarrow> None
           | Some None \<Rightarrow> Some (Some ps, None)
           | Some (Some (p, k, b)) \<Rightarrow>
               if malloc_ok
               then Some (Some (upd_range p k (range_take b) ps),
                          map_option (lease_of ps (s_ppp ses) p k b) (get_range ps p k))
               else Some (Some (upd_range p k (range_take_back b) ps), None)))"
  by (simp only: get_ip_def ses_pool_def option.case Let_def upd_range_upd_range range_take_back_def [abs_def])

lemma range_take_back:
  assumes "range_inv r" "b < r_count r" "b \<notin> range_used r"
  shows "range_inv (range_take_back b r)" and "range_used (range_take_back b r) = range_used r"
proof -
  have free: "\<not> bm_test (r_bitmap r) b" using assms by (simp add: range_used_def used_units_def)
  have inv: "range_inv (range_take b r)" using assms(1,2) free by (rule range_inv_take)
  have "bm_test (r_bitmap (range_take b r)) b"
    using assms bm.tst_take [OF range_inv_ok(2) [OF assms(1)] assms(2)] by (simp add: range_take_def)
  then show "range_inv (range_take_back b r)"
    using range_inv_unmark [OF inv] assms(2) by (simp add: range_take_back_def)
  have "range_used (range_take_back b r) = range_used (range_take b r) - {b}"
    using bm.used_give [OF range_inv_ok(2) [OF inv]] assms(2) by (simp add: range_used_def range_take_back_def)
  then show "range_used (range_take_back b r) = range_used r"
    using range_used_take [OF assms(1,2)] assms(3) by simp
qed

lemma range_take_back_peer [simp]:
  "range_peer (range_take_back b r) = range_peer r" "r_count (range_take_back b r) = r_count r"
  by (simp_all add: range_take_back_def)

lemma get_ip_Some:
  assumes ps: "set_inv ps" and res: "get_ip (Some ps) rnd ok ses = Some (cur, Some lease)"
  obtains p k b r where "get_range ps p k = Some r" "b < r_count r" "b \<notin> range_used r"
    "cur = Some (upd_range p k (range_take b) ps)" "lease = lease_of ps (s_ppp ses) p k b r"
proof -
  obtain pool p k b where pool: "ses_pool ps ses = Some pool"
    and loop: "chain_loop ps rnd pool pool = Some (Some (p, k, b))"
    and cur: "cur = Some (upd_range p k (range_take b) ps)"
    and lease: "Some lease = map_option (lease_of ps (s_ppp ses) p k b) (get_range ps p k)"
    using res by (auto simp: get_ip_alt split: option.splits if_splits)
  have "chain_result ps pool pool (Some (p, k, b))"
    using chain_loop_sound [OF loop ps] ses_pool_get [OF pool] by simp
  then obtain r where r: "get_range ps p k = Some r" "b < r_count r" "b \<notin> range_used r"
    by (auto simp: chain_result_def)
  moreover have "lease = lease_of ps (s_ppp ses) p k b r" using lease r(1) by simp
  ultimately show thesis using that cur by blast
qed

lemma get_ip_None:
  assumes ps: "set_inv ps" and res: "get_ip (Some ps) rnd ok ses = Some (cur, None)"
  obtains "cur = Some ps"
  | p k b r where "get_range ps p k = Some r" "b < r_count r" "b \<notin> range_used r" "\<not> ok"
      "cur = Some (upd_range p k (range_take_back b) ps)"
proof (cases "ses_pool ps ses")
  case None
  then show thesis using res that by (simp add: get_ip_alt)
next
  case (Some pool)
  then obtain found where loop: "chain_loop ps rnd pool pool = Some found"
    using res by (auto simp: get_ip_alt split: option.splits)
  have sound: "chain_result ps pool pool found"
    using chain_loop_sound [OF loop ps] ses_pool_get [OF Some] by simp
  show thesis
  proof (cases found)
    case None
    then show thesis using res loop Some that by (simp add: get_ip_alt)
  next
    case f: (Some t)
    obtain p k b where t: "t = (p, k, b)" by (cases t)
    obtain r where r: "get_range ps p k = Some r" "b < r_count r" "b \<notin> range_used r"
      using sound by (auto simp: f t chain_result_def)
    then have "\<not> ok" "cur = Some (upd_range p k (range_take_back b) ps)"
      using res loop Some by (auto simp: f t get_ip_alt split: if_splits)
    then show thesis using that(2) r by blast
  qed
qed

section \<open>Construction: the invariant\<close>

definition range_new :: "ip_range \<Rightarrow> bool" where
  "range_new r \<longleftrightarrow> range_ok r \<and> r_used r = 0"

definition pool_good :: "(ip_range \<Rightarrow> bool) \<Rightarrow> nat \<Rightarrow> ip_pool \<Rightarrow> bool" where
  "pool_good P n pool \<longleftrightarrow> (\<forall>r \<in> set (p_ranges pool). P r) \<and> (\<forall>i. p_next pool = Some i \<longrightarrow> i < n)"

lemma set_all_pools:
  "set_all P ps \<longleftrightarrow> (\<forall>p pool. get_pool ps p = Some pool \<longrightarrow> pool_good P (length (pools ps)) pool)"
  unfolding set_all_def Ball_def all_pools_iff pool_good_def by blast

lemma set_all_upd_pool:
  assumes "set_all P ps"
    and "\<And>pool. pool_good P (length (pools ps)) pool \<Longrightarrow> pool_good P (length (pools ps)) (f pool)"
  shows "set_all P (upd_pool p f ps)"
  using assms by (auto simp: set_all_pools get_pool_upd_pool split: if_splits)

lemma set_all_create_pool: "set_all P ps \<Longrightarrow> set_all P (fst (create_pool ps name))"
  by (auto simp: set_all_def create_pool_def less_SucI)

lemma find_pool_create:
  assumes "set_all P ps" "find_pool_create ps name = (ps', i)"
  shows "set_all P ps'" "i < length (pools ps')" "length (pools ps) \<le> length (pools ps')"
    "def_pool ps' = def_pool ps" "gw_ip_address ps' = gw_ip_address ps"
  using assms set_all_create_pool [of P ps name]
  by (auto simp: find_pool_create_def find_pool_def create_pool_def dest: find_named_bound split: option.splits)

lemma line_pool:
  assumes "set_all P ps" "line_pool ps opt = (ps', pool)"
  shows "set_all P ps'"
  using assms by (auto simp: line_pool_def Let_def intro: find_pool_create(1) split: option.splits prod.splits if_splits)

lemma line_next:
  assumes "set_all P ps"
  shows "set_all P (line_next ps pool opt)"
  using assms
  by (auto simp: line_next_def Let_def intro!: set_all_upd_pool dest: find_pool_create(1,2) simp: pool_good_def
      split: option.split prod.split)


lemma parse_line_opts:
  assumes "set_all P ps" "parse_line_opts ps opt = (ps', res)"
  shows "set_all P ps'"
    and "res = Some (pool, step, gw, peer) \<Longrightarrow> (step, peer) = (1, 0) \<or> (step, peer) = (4, 2)"
  using assms
  by (auto simp: parse_line_opts_def line_allocator_def Let_def dest: line_pool intro: line_next
      split: prod.splits option.splits if_splits)

lemma add_range_to_pool:
  assumes "pool_good range_new n p" "(step, peer) = (1, 0) \<or> (step, peer) = (4, 2)"
  shows "pool_good range_new n (fst (add_range_to_pool p str step gw peer))"
proof -
  have "range_new \<lparr>r_start = start, r_end = end, r_step = step, r_gw_offset = gw, r_peer_offset = peer,
      r_count = (unat (end - start) + 1) div unat step, r_cursor = 0, r_used = 0, r_bitmap = []\<rparr>"
    if le: "\<not> end < start" and c: "(unat (end - start) + 1) div unat step \<noteq> 0"
      "\<not> (unat (end - start) + 1) div unat step > IPPOOL_MAX_BITS" for start "end" :: u32
  proof -
    have "unat start \<le> unat end" "unat (end - start) = unat end - unat start"
      using le by (simp_all add: not_less unat_sub word_le_nat_alt)
    then have "unat start + (unat (end - start) + 1) div unat step * unat step \<le> Suc (unat end)"
      using div_times_less_eq_dividend [of "unat (end - start) + 1" "unat step"] by linarith
    then show ?thesis using assms(2) c by (auto simp: range_new_def range_ok_def)
  qed
  then show ?thesis
    using assms(1) by (auto simp: add_range_to_pool_def Let_def pool_good_def split: option.split)
qed

lemma set_all_add_range_line:
  "set_all range_new ps \<Longrightarrow> set_all range_new (add_range_line ps opt str)"
  by (auto simp: add_range_line_def dest: parse_line_opts
      intro!: set_all_upd_pool add_range_to_pool split: prod.split option.split)

lemma set_all_fields [simp]:
  "set_all P (ps\<lparr>gw_ip_address := g\<rparr>) = set_all P ps" "set_all P (ps\<lparr>shuffle := s\<rparr>) = set_all P ps"
  "set_all P (ps\<lparr>orphan_policy := o'\<rparr>) = set_all P ps"
  by (simp_all add: set_all_def)

lemma set_all_build_option:
  "set_all range_new (snd cps) \<Longrightarrow> set_all range_new (snd (build_option radius opt cps))"
  by (cases cps) (simp add: build_option_def set_all_add_range_line split: option.split)

lemma set_all_build_options:
  "set_all range_new (snd cps) \<Longrightarrow> set_all range_new (snd (fold (build_option radius) items cps))"
  by (induction items arbitrary: cps) (simp_all add: set_all_build_option)

lemma set_inv_finalize_set: "set_all range_new ps \<Longrightarrow> set_inv (finalize_set ps)"
  by (auto simp: set_inv_def set_all_def finalize_set_def finalize_ranges_def range_new_def ball_Un
      intro!: range_inv_finalize)

lemma build_pool_set_cases:
  obtains "snd (build_pool_set radius s) = empty_set"
  | ps where "set_all range_new ps" "snd (build_pool_set radius s) = finalize_set ps"
proof (cases s)
  case None
  then show thesis using that by (simp add: build_pool_set_def)
next
  case (Some items)
  let ?init = "(\<lparr>conf_vendor = 0, conf_attr = 88\<rparr>,
    empty_set\<lparr>def_pool := Some \<lparr>p_name = None, p_next = None, p_ranges = []\<rparr>\<rparr>)"
  have "set_all range_new (snd (fold (build_option radius) items ?init))"
    by (rule set_all_build_options) (simp add: empty_set_def set_all_def)
  moreover have "snd (build_pool_set radius s) = finalize_set (snd (fold (build_option radius) items ?init))"
    using Some by (simp add: build_pool_set_def Let_def split: prod.split)
  ultimately show thesis using that by blast
qed

lemma set_inv_build: "set_inv (snd (build_pool_set radius s))"
  by (rule build_pool_set_cases [of radius s])
    (simp_all add: set_inv_finalize_set, simp add: empty_set_def set_inv_def set_all_def)

section \<open>Histories of a pool set\<close>

text \<open>
  A pool set between two reloads: built from a configuration, then any number of
  allocations (with any random draw, also failing ones) and releases of live leases.
\<close>

inductive pool_reach :: "pool_set \<Rightarrow> ip_lease list \<Rightarrow> bool" where
  pool_built: "pool_reach (snd (build_pool_set radius s)) []"
| pool_get: "pool_reach ps ls \<Longrightarrow> get_ip (Some ps) rnd ok ses = Some (Some ps', Some l) \<Longrightarrow> pool_reach ps' (l # ls)"
| pool_get_fail: "pool_reach ps ls \<Longrightarrow> get_ip (Some ps) rnd ok ses = Some (Some ps', None) \<Longrightarrow> pool_reach ps' ls"
| pool_put: "pool_reach ps (ls1 @ l # ls2) \<Longrightarrow> pool_reach (put_ip ps l) (ls1 @ ls2)"

definition is_p2p :: "ip_range \<Rightarrow> bool" where
  "is_p2p r \<longleftrightarrow> r_step r = 1 \<and> r_peer_offset r = 0"

text \<open>A live lease names a block in use and carries its address.\<close>

definition lease_live :: "pool_set \<Rightarrow> ip_lease \<Rightarrow> bool" where
  "lease_live ps l \<longleftrightarrow>
     (\<exists>p k r b. l_pool l = Some p \<and> l_range l = Some k \<and> get_range ps p k = Some r \<and>
        b \<in> range_used r \<and> it_peer_addr l = range_peer r b \<and>
        (is_p2p r \<and> gw_ip_address ps \<noteq> 0 \<longrightarrow> it_peer_addr l \<noteq> gw_ip_address ps))"

definition gw_taken :: "pool_set \<Rightarrow> bool" where
  "gw_taken ps \<longleftrightarrow>
     (\<forall>p k r b. get_range ps p k = Some r \<longrightarrow> is_p2p r \<longrightarrow> gw_ip_address ps \<noteq> 0 \<longrightarrow>
        b < r_count r \<longrightarrow> range_peer r b = gw_ip_address ps \<longrightarrow> b \<in> range_used r)"

definition lease_key :: "ip_lease \<Rightarrow> pool_ref option \<times> nat option \<times> u32" where
  "lease_key l = (l_pool l, l_range l, it_peer_addr l)"

lemma is_p2p_ops [simp]:
  "is_p2p (range_take b r) = is_p2p r" "is_p2p (range_put a r) = is_p2p r"
  "is_p2p (range_take_back b r) = is_p2p r"
  by (simp_all add: is_p2p_def range_take_def range_put_def range_take_back_def split: option.split)

lemma lease_live_upd_range:
  assumes "lease_live ps l"
    and "\<And>r b. get_range ps p k = Some r \<Longrightarrow> l_pool l = Some p \<Longrightarrow> l_range l = Some k \<Longrightarrow>
      b \<in> range_used r \<Longrightarrow> it_peer_addr l = range_peer r b \<Longrightarrow> b \<in> range_used (f r)"
    and "\<And>r. range_peer (f r) = range_peer r" "\<And>r. is_p2p (f r) = is_p2p r"
  shows "lease_live (upd_range p k f ps) l"
proof -
  from assms(1) obtain q m r b where l: "l_pool l = Some q" "l_range l = Some m" "get_range ps q m = Some r"
    "b \<in> range_used r" "it_peer_addr l = range_peer r b"
    "is_p2p r \<and> gw_ip_address ps \<noteq> 0 \<longrightarrow> it_peer_addr l \<noteq> gw_ip_address ps"
    unfolding lease_live_def by blast
  define r' where "r' = (if q = p \<and> m = k then f r else r)"
  have "get_range (upd_range p k f ps) q m = Some r'" using l(3) by (auto simp: get_range_upd_range r'_def)
  moreover have "b \<in> range_used r'" "range_peer r' = range_peer r" "is_p2p r' = is_p2p r"
    using l assms(2-4) by (auto simp: r'_def)
  ultimately show ?thesis unfolding lease_live_def using l by auto
qed

lemma gw_taken_upd_range:
  assumes "gw_taken ps"
    and "\<And>r b. get_range ps p k = Some r \<Longrightarrow> b \<in> range_used r \<Longrightarrow> is_p2p r \<Longrightarrow> gw_ip_address ps \<noteq> 0 \<Longrightarrow>
      range_peer r b = gw_ip_address ps \<Longrightarrow> b \<in> range_used (f r)"
    and "\<And>r. range_peer (f r) = range_peer r" "\<And>r. is_p2p (f r) = is_p2p r" "\<And>r. r_count (f r) = r_count r"
  shows "gw_taken (upd_range p k f ps)"
  using assms unfolding gw_taken_def by (auto simp: get_range_upd_range split: if_splits)


lemma range_new_finalize:
  assumes r: "range_new r" and p2p: "is_p2p (finalize_range ps r)" and gw: "gw_ip_address ps \<noteq> 0"
    and b: "b < r_count (finalize_range ps r)" "range_peer (finalize_range ps r) b = gw_ip_address ps"
  shows "b \<in> range_used (finalize_range ps r)"
proof -
  let ?r = "r\<lparr>r_bitmap := set_remainder (replicate (BM_NWORDS (r_count r)) 0) (r_count r)\<rparr>"
  have eq: "finalize_range ps r = reserve_gw (gw_ip_address ps) ?r" by (simp add: finalize_range_def)
  have inv: "range_inv ?r" using r by (simp add: range_new_def range_inv_fresh)
  have same: "range_peer (reserve_gw g s) = range_peer s" "r_count (reserve_gw g s) = r_count s"
    "r_step (reserve_gw g s) = r_step s" "r_peer_offset (reserve_gw g s) = r_peer_offset s" for g s
    by (simp_all add: reserve_gw_def Let_def)
  show ?thesis
    using gw_reserved [OF inv, of b] p2p gw b by (simp add: eq same is_p2p_def)
qed

lemma get_range_finalize_set:
  "get_range (finalize_set ps) p k = map_option (finalize_range ps) (get_range ps p k)"
  by (auto simp: get_range_def get_pool_def finalize_set_def finalize_ranges_def
      split: pool_ref.split option.split)

lemma gw_taken_finalize_set:
  assumes "set_all range_new ps"
  shows "gw_taken (finalize_set ps)"
proof -
  have gw: "gw_ip_address (finalize_set ps) = gw_ip_address ps" by (simp add: finalize_set_def)
  show ?thesis
    unfolding gw_taken_def gw get_range_finalize_set
    using assms range_new_finalize by (auto simp: set_all_iff)
qed

lemma gw_taken_build: "gw_taken (snd (build_pool_set radius s))"
  by (rule build_pool_set_cases [of radius s])
    (simp_all add: gw_taken_finalize_set, simp add: empty_set_def gw_taken_def)

lemma lease_of_fields [simp]:
  "l_pool (lease_of ps ppp p k b r) = Some p" "l_range (lease_of ps ppp p k b r) = Some k"
  "it_peer_addr (lease_of ps ppp p k b r) = range_peer r b"
  by (simp_all add: lease_of_def)

lemma range_peer_inj:
  "range_ok r \<Longrightarrow> b < r_count r \<Longrightarrow> c < r_count r \<Longrightarrow> range_peer r b = range_peer r c \<Longrightarrow> b = c"
  using range_addr_to_bit_peer by (metis option.inject)

lemma range_used_count: "b \<in> range_used r \<Longrightarrow> b < r_count r"
  by (simp add: range_used_def used_units_def)

lemma lease_key_fresh:
  assumes "set_inv ps" "\<forall>l \<in> set ls. lease_live ps l" "get_range ps p k = Some r" "b < r_count r" "b \<notin> range_used r"
  shows "lease_key (lease_of ps ppp p k b r) \<notin> lease_key ` set ls"
proof
  assume "lease_key (lease_of ps ppp p k b r) \<in> lease_key ` set ls"
  then obtain l where "l \<in> set ls" and l: "l_pool l = Some p" "l_range l = Some k" "it_peer_addr l = range_peer r b"
    by (auto simp: lease_key_def)
  then obtain c where c: "c \<in> range_used r" "range_peer r b = range_peer r c"
    using assms(2,3) unfolding lease_live_def by fastforce
  then have "b = c"
    using range_peer_inj [OF range_inv_ok(1) [OF set_inv_range [OF assms(1,3)]]] assms(4) range_used_count by blast
  then show False using c assms(5) by simp
qed


definition history_ok :: "pool_set \<Rightarrow> ip_lease list \<Rightarrow> bool" where
  "history_ok ps ls \<longleftrightarrow> set_inv ps \<and> gw_taken ps \<and> (\<forall>l \<in> set ls. lease_live ps l) \<and> distinct (map lease_key ls)"

lemma history_ok_get:
  assumes "history_ok ps ls" "get_ip (Some ps) rnd ok ses = Some (Some ps', Some l)"
  shows "history_ok ps' (l # ls)"
proof -
  have ps: "set_inv ps" using assms(1) by (simp add: history_ok_def)
  obtain p k b r where r: "get_range ps p k = Some r" "b < r_count r" "b \<notin> range_used r"
    and c: "Some ps' = Some (upd_range p k (range_take b) ps)" and l: "l = lease_of ps (s_ppp ses) p k b r"
    by (rule get_ip_Some [OF ps assms(2)])
  have ps': "ps' = upd_range p k (range_take b) ps" using c by simp
  have inv: "range_inv r" using set_inv_range [OF ps r(1)] .
  have free: "\<not> bm_test (r_bitmap r) b" using r by (simp add: range_used_def used_units_def)
  have used: "range_used (range_take b r) = insert b (range_used r)" using range_used_take [OF inv r(2)] .
  have "set_inv ps'"
    unfolding ps' using ps r by (intro set_inv_upd_range) (auto simp: range_inv_take free)
  moreover have "gw_taken ps'"
    unfolding ps' using assms(1) r(1) used by (intro gw_taken_upd_range) (auto simp: history_ok_def)
  moreover have "lease_live ps' l'" if "l' \<in> set ls" for l'
    unfolding ps' using that assms(1) r(1) used by (intro lease_live_upd_range) (auto simp: history_ok_def)
  moreover have "lease_live ps' l"
    using r used assms(1) unfolding lease_live_def l ps'
    by (auto simp: get_range_upd_range history_ok_def gw_taken_def)
  ultimately show ?thesis
    using assms(1) lease_key_fresh [OF ps _ r] by (auto simp: history_ok_def l)
qed

lemma history_ok_get_fail:
  assumes "history_ok ps ls" "get_ip (Some ps) rnd ok ses = Some (Some ps', None)"
  shows "history_ok ps' ls"
proof -
  have ps: "set_inv ps" using assms(1) by (simp add: history_ok_def)
  show ?thesis
  proof (cases rule: get_ip_None [OF ps assms(2)])
    case 1
    then show ?thesis using assms(1) by simp
  next
    case (2 p k b r)
    have tb: "range_inv (range_take_back b r)" "range_used (range_take_back b r) = range_used r"
      using range_take_back [OF set_inv_range [OF ps 2(1)] 2(2,3)] by simp_all
    have "set_inv (upd_range p k (range_take_back b) ps)"
      using ps 2(1) tb by (intro set_inv_upd_range) auto
    moreover have "gw_taken (upd_range p k (range_take_back b) ps)"
      using assms(1) 2(1) tb by (intro gw_taken_upd_range) (auto simp: history_ok_def)
    moreover have "lease_live (upd_range p k (range_take_back b) ps) l" if "l \<in> set ls" for l
      using that assms(1) 2(1) tb by (intro lease_live_upd_range) (auto simp: history_ok_def)
    ultimately show ?thesis using 2(5) assms(1) by (simp add: history_ok_def)
  qed
qed


lemma put_ip_live:
  assumes "set_inv ps" "lease_live ps l"
  obtains p k r b where "l_pool l = Some p" "l_range l = Some k" "get_range ps p k = Some r"
    "b \<in> range_used r" "it_peer_addr l = range_peer r b" "range_addr_to_bit r (it_peer_addr l) = Some b"
    "put_ip ps l = upd_range p k (range_put (it_peer_addr l)) ps"
proof -
  from assms(2) obtain p k r b where l: "l_pool l = Some p" "l_range l = Some k" "get_range ps p k = Some r"
    "b \<in> range_used r" "it_peer_addr l = range_peer r b"
    unfolding lease_live_def by blast
  moreover have "range_addr_to_bit r (it_peer_addr l) = Some b"
    using range_addr_to_bit_peer [OF range_inv_ok(1) [OF set_inv_range [OF assms(1) l(3)]] range_used_count [OF l(4)]]
    by (simp add: l(5))
  moreover have "put_ip ps l = upd_range p k (range_put (it_peer_addr l)) ps" by (simp add: put_ip_def l)
  ultimately show thesis using that by blast
qed

lemma history_ok_put:
  assumes "history_ok ps (ls1 @ l # ls2)"
  shows "history_ok (put_ip ps l) (ls1 @ ls2)"
proof -
  have ps: "set_inv ps" and live: "lease_live ps l" using assms by (simp_all add: history_ok_def)
  obtain p k r b where l: "l_pool l = Some p" "l_range l = Some k" "get_range ps p k = Some r"
    "b \<in> range_used r" "it_peer_addr l = range_peer r b" and bit: "range_addr_to_bit r (it_peer_addr l) = Some b"
    and put: "put_ip ps l = upd_range p k (range_put (it_peer_addr l)) ps"
    by (rule put_ip_live [OF ps live])
  have inv: "range_inv r" by (rule set_inv_range [OF ps l(3)])
  have used: "range_used (range_put (it_peer_addr l) r) = range_used r - {b}"
    using range_used_put [OF inv] bit by simp
  have keep: "c \<in> range_used (range_put (it_peer_addr l) r)"
    if "c \<in> range_used r" "range_peer r c \<noteq> it_peer_addr l" for c
    using that used l(5) by auto
  have "set_inv (put_ip ps l)"
    unfolding put using ps by (intro set_inv_upd_range range_inv_put)
  moreover have "gw_taken (put_ip ps l)"
    unfolding put using assms l(3) live keep
    by (intro gw_taken_upd_range) (auto simp: history_ok_def lease_live_def l)
  moreover have "lease_live (put_ip ps l) l'" if "l' \<in> set ls1 \<union> set ls2" for l'
  proof -
    have "lease_key l \<notin> lease_key ` (set ls1 \<union> set ls2)" using assms by (auto simp: history_ok_def)
    then have "lease_key l' \<noteq> lease_key l" using that by (metis imageI)
    then show ?thesis
      unfolding put using that assms l keep
      by (intro lease_live_upd_range) (auto simp: history_ok_def lease_key_def)
  qed
  ultimately show ?thesis using assms by (auto simp: history_ok_def)
qed

lemma pool_reach_ok: "pool_reach ps ls \<Longrightarrow> history_ok ps ls"
proof (induction rule: pool_reach.induct)
  case (pool_built radius s)
  then show ?case by (simp add: history_ok_def set_inv_build gw_taken_build)
qed (blast intro: history_ok_get history_ok_get_fail history_ok_put)+


section \<open>Reload: look-ups depend on the shape of a pool set only\<close>

definition range_shape :: "ip_range \<Rightarrow> ip_range" where
  "range_shape r = r\<lparr>r_bitmap := [], r_used := 0, r_cursor := 0\<rparr>"

definition pool_shape :: "ip_pool \<Rightarrow> ip_pool" where
  "pool_shape p = p\<lparr>p_ranges := map range_shape (p_ranges p)\<rparr>"

definition set_shape :: "pool_set \<Rightarrow> pool_set" where
  "set_shape ps = ps\<lparr>pools := map pool_shape (pools ps), def_pool := map_option pool_shape (def_pool ps)\<rparr>"

lemma range_addr_to_bit_shape [simp]: "range_addr_to_bit (range_shape r) = range_addr_to_bit r"
  by (simp add: fun_eq_iff range_addr_to_bit_def range_shape_def Let_def)

lemma first_range_shape [simp]: "first_range (map range_shape rs) k a = first_range rs k a"
  by (induction rs arbitrary: k) (simp_all split: option.split)

lemma pool_contains_shape [simp]: "pool_contains (pool_shape p) a = pool_contains p a"
  by (simp add: pool_contains_def pool_shape_def)

lemma first_pool_shape [simp]: "first_pool (map pool_shape pl) i a = first_pool pl i a"
  by (induction pl arbitrary: i) (simp_all split: option.split)

lemma find_named_shape [simp]: "find_named (map pool_shape pl) name i = find_named pl name i"
  by (induction pl arbitrary: i) (simp_all add: pool_shape_def)

lemma get_pool_shape: "get_pool (set_shape ps) p = map_option pool_shape (get_pool ps p)"
  by (auto simp: get_pool_def set_shape_def split: pool_ref.split)

lemma find_target_shape: "find_target (set_shape ps) a pref = find_target ps a pref"
proof -
  have 1: "contains_in (set_shape ps) p a = contains_in ps p a" for p
    by (simp add: contains_in_def get_pool_shape split: option.split)
  have 2: "find_pool (set_shape ps) name = find_pool ps name" for name
    by (simp add: find_pool_def set_shape_def)
  have 3: "first_pool (pools (set_shape ps)) 0 a = first_pool (pools ps) 0 a"
    by (simp add: set_shape_def)
  show ?thesis by (simp only: find_target_def 1 2 3)
qed

lemma range_shape_ops [simp]:
  "range_shape (range_reserve b r) = range_shape r" "range_shape (range_take b r) = range_shape r"
  "range_shape (range_put a r) = range_shape r"
  by (simp_all add: range_shape_def range_reserve_def range_take_def range_put_def split: option.split)

lemma set_shape_upd_range:
  assumes "\<And>r. range_shape (f r) = range_shape r"
  shows "set_shape (upd_range p k f ps) = set_shape ps"
proof -
  let ?g = "\<lambda>pool. pool\<lparr>p_ranges := if k < length (p_ranges pool)
      then (p_ranges pool)[k := f (p_ranges pool ! k)] else p_ranges pool\<rparr>"
  have shape: "pool_shape (?g pool) = pool_shape pool" for pool
    by (simp add: pool_shape_def map_list_update_same assms)
  have "map pool_shape (pl[i := ?g (pl ! i)]) = map pool_shape pl" if "i < length pl" for i and pl :: "ip_pool list"
    using that by (rule map_list_update_same) (rule shape)
  then show ?thesis
    by (simp add: set_shape_def upd_range_def upd_pool_def option.map_comp comp_def shape split: pool_ref.split)
qed


lemma find_target_upd_range:
  "(\<And>r. range_shape (f r) = range_shape r) \<Longrightarrow> find_target (upd_range p k f ps) a pref = find_target ps a pref"
  by (metis find_target_shape set_shape_upd_range)

lemma first_range_Some:
  "first_range rs k a = Some (l, b) \<Longrightarrow> k \<le> l \<and> l - k < length rs \<and> range_addr_to_bit (rs ! (l - k)) a = Some b"
  by (induction rs arbitrary: k) (fastforce simp: nth_Cons' split: option.splits)+

lemma contains_in_Some:
  "contains_in ps p a = Some (q, k, b) \<Longrightarrow> q = p \<and> (\<exists>r. get_range ps p k = Some r \<and> range_addr_to_bit r a = Some b)"
  by (auto simp: contains_in_def get_range_def pool_contains_def dest!: first_range_Some split: option.splits)

lemma first_pool_Some:
  "first_pool pl i a = Some (q, k, b) \<Longrightarrow>
   \<exists>j. q = NamedPool j \<and> i \<le> j \<and> j - i < length pl \<and> pool_contains (pl ! (j - i)) a = Some (k, b)"
  by (induction pl arbitrary: i) (fastforce simp: nth_Cons' split: option.splits)+

lemma find_target_Some:
  assumes "find_target ps a pref = Some (p, k, b)"
  shows "\<exists>r. get_range ps p k = Some r \<and> range_addr_to_bit r a = Some b"
proof -
  consider q where "contains_in ps q a = Some (p, k, b)" | "first_pool (pools ps) 0 a = Some (p, k, b)"
    using assms unfolding find_target_def by (auto split: option.splits)
  then show ?thesis
  proof cases
    case 1
    then show ?thesis using contains_in_Some by blast
  next
    case 2
    then obtain j where "p = NamedPool j" "j < length (pools ps)" "pool_contains (pools ps ! j) a = Some (k, b)"
      using first_pool_Some by fastforce
    then show ?thesis using contains_in_Some [of ps p a p k b] by (simp add: contains_in_def get_pool_def)
  qed
qed


definition target_of :: "pool_set \<Rightarrow> ip_ses \<Rightarrow> (pool_ref \<times> nat \<times> nat) option" where
  "target_of ps ses =
     (case s_ipv4 ses of None \<Rightarrow> None
      | Some it \<Rightarrow> (case it_owner it of None \<Rightarrow> None
          | Some own \<Rightarrow> find_target ps (it_peer_addr it) (if own = OwnPool then s_ipv4_pool_name ses else None)))"

lemma target_of_Some:
  assumes "set_inv ps" "target_of ps ses = Some (p, k, b)"
  obtains r it where "get_range ps p k = Some r" "b < r_count r" "s_ipv4 ses = Some it" "it_peer_addr it = range_peer r b"
proof -
  obtain it pref where it: "s_ipv4 ses = Some it" "find_target ps (it_peer_addr it) pref = Some (p, k, b)"
    using assms(2) by (auto simp: target_of_def split: option.splits)
  then obtain r where "get_range ps p k = Some r" "range_addr_to_bit r (it_peer_addr it) = Some b"
    using find_target_Some by blast
  then show thesis
    using that it range_addr_to_bit_iff range_inv_ok(1) set_inv_range [OF assms(1)] by blast
qed

lemma target_of_shape: "set_shape ps' = set_shape ps \<Longrightarrow> target_of ps' = target_of ps"
  by (metis (no_types) find_target_shape target_of_def ext)

lemma reconcile_v4_set:
  "fst (reconcile_v4 new ses policy) =
     (case target_of new ses of None \<Rightarrow> new | Some (p, k, b) \<Rightarrow> upd_range p k (range_reserve b) new)"
  by (simp add: reconcile_v4_def target_of_def split: option.split)

lemma reconcile_v4_step:
  assumes "set_inv new" "reconcile_v4 new ses policy = (new', ses', d)"
  shows "set_inv new'" "set_shape new' = set_shape new" "leased new' = leased new \<union> set_option (target_of new ses)"
proof -
  have new': "new' = (case target_of new ses of None \<Rightarrow> new | Some (p, k, b) \<Rightarrow> upd_range p k (range_reserve b) new)"
    using reconcile_v4_set [of new ses policy] assms(2) by simp
  show "set_shape new' = set_shape new"
    by (auto simp: new' set_shape_upd_range split: option.split)
  show "set_inv new'" "leased new' = leased new \<union> set_option (target_of new ses)"
  proof (atomize(full), cases "target_of new ses")
    case (Some t)
    then obtain p k b where t: "target_of new ses = Some (p, k, b)" by (cases t) auto
    obtain r where r: "get_range new p k = Some r" "b < r_count r" by (rule target_of_Some [OF assms(1) t])
    then show "set_inv new' \<and> leased new' = leased new \<union> set_option (target_of new ses)"
      using assms(1) leased_take(2) [OF assms(1) r]
      by (auto simp: new' t intro!: set_inv_upd_range range_inv_reserve)
  qed (use assms(1) in \<open>simp add: new'\<close>)
qed

lemma reconcile_all_set:
  assumes "set_inv new" "reconcile_all policy new ss i = (new', ss', ds)"
  shows "set_inv new' \<and> set_shape new' = set_shape new \<and>
    leased new' = leased new \<union> (\<Union>s \<in> set ss. set_option (target_of new s))"
  using assms
proof (induction ss arbitrary: new i ss' ds)
  case (Cons s ss)
  obtain new1 s1 d where 1: "reconcile_v4 new s policy = (new1, s1, d)" by (metis prod_cases3)
  obtain ss2 ds2 where 2: "reconcile_all policy new1 ss (Suc i) = (new', ss2, ds2)"
    using Cons.prems(2) 1 by (auto simp: Let_def split: prod.splits)
  note step = reconcile_v4_step [OF Cons.prems(1) 1]
  show ?case
    using Cons.IH [OF step(1) 2] step target_of_shape [OF step(2)] by auto
qed simp

text \<open>What a reload does to one session, in terms of the pool set it ends with.\<close>

definition moved_lease :: "pool_set \<Rightarrow> ip_ses \<Rightarrow> ip_ses" where
  "moved_lease ps ses =
     (case s_ipv4 ses of
        Some it \<Rightarrow> if it_owner it = Some OwnPool
          then ses\<lparr>s_ipv4 := Some (it\<lparr>l_pool := map_option fst (target_of ps ses),
                                    l_range := map_option (fst \<circ> snd) (target_of ps ses)\<rparr>)\<rparr>
          else ses
      | None \<Rightarrow> ses)"

definition is_orphan :: "pool_set \<Rightarrow> ip_ses \<Rightarrow> bool" where
  "is_orphan ps ses \<longleftrightarrow> (\<exists>it. s_ipv4 ses = Some it \<and> it_owner it = Some OwnPool) \<and> target_of ps ses = None"

lemma reconcile_v4_ses:
  "snd (reconcile_v4 new ses policy) = (moved_lease new ses, is_orphan new ses \<and> policy = ORPHAN_DISCONNECT)"
  by (auto simp: reconcile_v4_def moved_lease_def is_orphan_def target_of_def split: option.split)

lemma reconcile_all_ses:
  assumes "set_inv new" "reconcile_all policy new ss i = (new', ss', ds)"
  shows "ss' = map (moved_lease new) ss \<and>
    ds = map fst (filter (\<lambda>(j, s). is_orphan new s \<and> policy = ORPHAN_DISCONNECT) (enumerate i ss))"
  using assms
proof (induction ss arbitrary: new i ss' ds)
  case (Cons s ss)
  obtain new1 s1 d where 1: "reconcile_v4 new s policy = (new1, s1, d)" by (metis prod_cases3)
  obtain ss2 ds2 where 2: "reconcile_all policy new1 ss (Suc i) = (new', ss2, ds2)"
    using Cons.prems(2) 1 by (auto simp: Let_def split: prod.splits)
  note step = reconcile_v4_step [OF Cons.prems(1) 1]
  have eq: "moved_lease new1 = moved_lease new" "is_orphan new1 = is_orphan new"
    using target_of_shape [OF step(2)] by (simp_all add: fun_eq_iff moved_lease_def is_orphan_def split: option.split)
  show ?case
    using Cons.IH [OF step(1) 2] Cons.prems(2) 1 2 reconcile_v4_ses [of new s policy]
    by (auto simp: Let_def eq)
qed simp

end
