(* ===== verification/IpPoolProps.thy ===== *)
theory IpPoolProps
  imports IpPoolCorrect
begin

text \<open>
  The properties of the address pools, each with an example on a configuration of one
  range of two addresses, and on overflow chains that do and do not end.
\<close>

section \<open>A small configuration for the examples\<close>

definition demo_conf :: "conf_option list" where
  "demo_conf = [\<lparr>o_name = ''10.0.0.1-2'', o_val = None, o_raw = ''10.0.0.1-2''\<rparr>]"

definition demo_range :: "nat \<Rightarrow> u64 \<Rightarrow> u64 \<Rightarrow> ip_range" where
  "demo_range cursor used w =
     \<lparr>r_start = 0x0A000001, r_end = 0x0A000002, r_step = 1, r_gw_offset = -1, r_peer_offset = 0,
       r_count = 2, r_cursor = cursor, r_used = used, r_bitmap = [w]\<rparr>"

definition demo_set :: "ip_range \<Rightarrow> pool_set" where
  "demo_set r = \<lparr>pools = [], def_pool = Some \<lparr>p_name = None, p_next = None, p_ranges = [r]\<rparr>,
     gw_ip_address = 0, shuffle = 0, orphan_policy = ORPHAN_KEEP\<rparr>"

definition demo_ses :: ip_ses where
  "demo_ses = \<lparr>s_ipv4 = None, s_ipv4_pool_name = None, s_ppp = True\<rparr>"

definition demo_lease :: "u32 \<Rightarrow> ip_lease" where
  "demo_lease a = \<lparr>l_pool = Some DefPool, l_range = Some 0, it_owner = Some OwnPool, it_addr = 0,
     it_peer_addr = a, it_mask = 0\<rparr>"

lemma demo_parse: "parse1 ''10.0.0.1-2'' = None" "parse2 ''10.0.0.1-2'' = Some (0x0A000001, 0x0A000002)"
  by (simp_all add: parse1_def parse2_def scan_quad_sep_def clib ip4_def)

lemma demo_line: "parse_line_opts ps ''10.0.0.1-2'' =
   (if def_pool ps = None then (ps, None) else (ps, Some (DefPool, 1, -1, 0)))"
  by (simp add: parse_line_opts_def line_pool_def line_allocator_def line_next_def clib)

lemma demo_build: "snd (build_pool_set None (Some demo_conf)) = demo_set (demo_range 0 0 0xFFFFFFFFFFFFFFFC)"
  by (simp add: build_pool_set_def demo_conf_def build_option_def add_range_line_def demo_line demo_parse
      add_range_to_pool_def empty_set_def upd_pool_def finalize_set_def finalize_ranges_def finalize_range_def
      reserve_gw_def set_remainder_def BM_NWORDS_def bm_set_def upt_rec IPPOOL_MAX_BITS_def clib
      demo_set_def demo_range_def)

lemmas demo_defs = demo_set_def demo_range_def demo_ses_def demo_lease_def
  get_ip_def chain_loop.simps get_pool_def get_range_def upd_range_def upd_pool_def range_from_def range_take_def
  lease_of_def range_peer_def bm_find_free_def bm_probe.simps BM_NWORDS_def ctzl_def upt_rec bm_set_def

lemma demo_get:
  "get_ip (Some (demo_set (demo_range 0 0 0xFFFFFFFFFFFFFFFC))) 0 True demo_ses =
     Some (Some (demo_set (demo_range 1 1 0xFFFFFFFFFFFFFFFD)), Some (demo_lease 0x0A000001))"
  "get_ip (Some (demo_set (demo_range 1 1 0xFFFFFFFFFFFFFFFD))) 0 True demo_ses =
     Some (Some (demo_set (demo_range 2 2 0xFFFFFFFFFFFFFFFF)), Some (demo_lease 0x0A000002))"
  "get_ip (Some (demo_set (demo_range 2 2 0xFFFFFFFFFFFFFFFF))) 0 True demo_ses =
     Some (Some (demo_set (demo_range 2 2 0xFFFFFFFFFFFFFFFF)), None)"
  by (simp_all add: demo_defs)


lemma demo_reach: "pool_reach (demo_set (demo_range 2 2 0xFFFFFFFFFFFFFFFF)) [demo_lease 0x0A000002, demo_lease 0x0A000001]"
  using pool_built [of None "Some demo_conf"] demo_get(1,2) unfolding demo_build by (blast intro: pool_get)

lemma demo_inv: "set_inv (demo_set (demo_range 0 0 0xFFFFFFFFFFFFFFFC))"
  using set_inv_build [of None "Some demo_conf"] by (simp only: demo_build)

section \<open>Properties\<close>

text \<open>
  C7. No address is handed out twice. However a pool set was configured, after any sequence
  of allocations (successful or not) and releases the live leases are pairwise different
  in pool, range and peer address; each names a block that is marked in use and
  carries that block's address; and no lease of a point-to-point range has the
  configured gateway address.
\<close>

theorem pool_leases_unique:
  assumes "pool_reach ps ls"
  shows "distinct (map (\<lambda>l. (l_pool l, l_range l, it_peer_addr l)) ls) \<and>
    (\<forall>l \<in> set ls. \<exists>p k r b. l_pool l = Some p \<and> l_range l = Some k \<and> get_range ps p k = Some r \<and>
       b < r_count r \<and> bm_test (r_bitmap r) b \<and> it_peer_addr l = range_peer r b \<and>
       (r_step r = 1 \<and> r_peer_offset r = 0 \<and> gw_ip_address ps \<noteq> 0 \<longrightarrow> it_peer_addr l \<noteq> gw_ip_address ps))"
  using pool_reach_ok [OF assms]
  by (simp add: history_ok_def lease_key_def [abs_def] lease_live_def is_p2p_def range_used_def used_units_def)

theorem pool_leases_unique_witness:
  "pool_reach (demo_set (demo_range 2 2 0xFFFFFFFFFFFFFFFF)) [demo_lease 0x0A000002, demo_lease 0x0A000001] \<and>
   demo_lease 0x0A000002 \<noteq> demo_lease 0x0A000001"
  using demo_reach pool_leases_unique [OF demo_reach] by (simp add: demo_lease_def)

text \<open>
  C25. Allocation and release are inverse. A successful allocation marks exactly one block that
  was free, and releasing the lease it returned gives back the same set of taken blocks;
  the set keeps its invariant on the way.
\<close>

theorem get_ip_put_ip:
  assumes "set_inv ps" "get_ip (Some ps) rnd ok ses = Some (Some ps', Some lease)"
  shows "set_inv ps' \<and> set_inv (put_ip ps' lease) \<and> leased (put_ip ps' lease) = leased ps \<and>
    (\<exists>t. t \<notin> leased ps \<and> leased ps' = insert t (leased ps))"
proof -
  obtain p k b r where r: "get_range ps p k = Some r" "b < r_count r" "b \<notin> range_used r"
    and c: "Some ps' = Some (upd_range p k (range_take b) ps)" and l: "lease = lease_of ps (s_ppp ses) p k b r"
    by (rule get_ip_Some [OF assms])
  have free: "\<not> bm_test (r_bitmap r) b" using r by (simp add: range_used_def used_units_def)
  have inv: "set_inv ps'"
    using assms(1) c r free by (auto simp: range_inv_take intro!: set_inv_upd_range)
  have r': "get_range ps' p k = Some (range_take b r)" using c r(1) by (simp add: get_range_upd_range)
  have "range_ok (range_take b r)" using range_inv_ok(1) [OF set_inv_range [OF inv r']] .
  then have bit: "range_addr_to_bit (range_take b r) (it_peer_addr lease) = Some b"
    using range_addr_to_bit_peer [of "range_take b r" b] r(2) l by simp
  have t: "leased ps' = insert (p, k, b) (leased ps)" using c leased_take(1) [OF assms(1) r(1,2)] by simp
  have n: "(p, k, b) \<notin> leased ps" using r by (simp add: leased_def)
  have put: "put_ip ps' lease = upd_range p k (range_put (it_peer_addr lease)) ps'"
    by (simp add: put_ip_def l)
  then have "set_inv (put_ip ps' lease)" using inv by (simp add: set_inv_upd_range range_inv_put)
  moreover have "leased (put_ip ps' lease) = leased ps"
    using leased_put [OF inv r', of "it_peer_addr lease"] bit t n put by simp
  ultimately show ?thesis using inv t n by blast
qed

theorem get_ip_put_ip_witness:
  "leased (put_ip (demo_set (demo_range 1 1 0xFFFFFFFFFFFFFFFD)) (demo_lease 0x0A000001)) =
   leased (demo_set (demo_range 0 0 0xFFFFFFFFFFFFFFFC))"
  using get_ip_put_ip [OF demo_inv demo_get(1)] by simp


text \<open>
  C27. When \<^verbatim>\<open>get_ip\<close> returns at all. The search of the overflow chain ends exactly when a pool on
  the chain has a free block, or the chain ends, or it comes back to the pool it started
  from.
\<close>

theorem get_ip_returns_iff:
  assumes "set_inv ps" "ses_pool ps ses = Some p"
  shows "get_ip (Some ps) rnd ok ses \<noteq> None \<longleftrightarrow>
    (\<exists>n q. chain_walk ps p n = Some q \<and> \<not> pool_full ps q) \<or>
    (\<exists>n>0. chain_walk ps p n = None \<or> chain_walk ps p n = Some p)"
  using chain_loop_iff [OF assms(1) ses_pool_get [OF assms(2)], of rnd p] assms(2)
  by (auto simp: get_ip_alt split: option.split)

theorem get_ip_returns_iff_witness:
  "get_ip (Some (demo_set (demo_range 0 0 0xFFFFFFFFFFFFFFFC))) 0 True demo_ses \<noteq> None"
proof -
  have "chain_walk (demo_set (demo_range 0 0 0xFFFFFFFFFFFFFFFC)) DefPool 1 = None"
    by (simp add: chain_next_def get_pool_def demo_set_def)
  moreover have "ses_pool (demo_set (demo_range 0 0 0xFFFFFFFFFFFFFFFC)) demo_ses = Some DefPool"
    by (simp add: ses_pool_def demo_set_def demo_ses_def)
  ultimately show ?thesis
    using get_ip_returns_iff [OF demo_inv, of demo_ses DefPool 0 True] by (metis zero_less_one)
qed

text \<open>
  An allocation is refused only when there is nothing to give: if \<^verbatim>\<open>get_ip\<close> returns no lease
  although memory was available, every pool from the session's pool to the end of the
  chain (or back to the start) is full.
\<close>

theorem get_ip_refused:
  assumes "set_inv ps" "ses_pool ps ses = Some p" "get_ip (Some ps) rnd True ses = Some (cur, None)"
  shows "cur = Some ps \<and>
    (\<exists>n>0. (chain_walk ps p n = None \<or> chain_walk ps p n = Some p) \<and>
       (\<forall>m<n. \<forall>q. chain_walk ps p m = Some q \<longrightarrow> pool_full ps q))"
proof -
  obtain res where loop: "chain_loop ps rnd p p = Some res"
    using assms(2,3) by (auto simp: get_ip_alt split: option.splits)
  have sound: "chain_result ps p p res"
    using chain_loop_sound [OF loop assms(1)] ses_pool_get [OF assms(2)] by simp
  have "res = None \<and> cur = Some ps"
    using assms(2,3) loop sound by (auto simp: get_ip_alt chain_result_def split: option.splits)
  then show ?thesis using sound by (auto simp: chain_result_def)
qed

theorem get_ip_refused_witness:
  "card (range_used (demo_range 2 2 0xFFFFFFFFFFFFFFFF)) = 2"
proof -
  let ?ps = "demo_set (demo_range 2 2 0xFFFFFFFFFFFFFFFF)"
  have p: "ses_pool ?ps demo_ses = Some DefPool" by (simp add: ses_pool_def demo_set_def demo_ses_def)
  have inv: "set_inv ?ps" using pool_reach_ok [OF demo_reach] by (simp add: history_ok_def)
  obtain n where "n > 0" "\<forall>m<n. \<forall>q. chain_walk ?ps DefPool m = Some q \<longrightarrow> pool_full ?ps q"
    using get_ip_refused [OF inv p demo_get(3)] by blast
  then have "pool_full ?ps DefPool" using chain_walk.simps(1) by blast
  moreover have "get_range ?ps DefPool 0 = Some (demo_range 2 2 0xFFFFFFFFFFFFFFFF)"
    by (simp add: get_range_def get_pool_def demo_set_def)
  ultimately have "card (range_used (demo_range 2 2 0xFFFFFFFFFFFFFFFF)) = r_count (demo_range 2 2 0xFFFFFFFFFFFFFFFF)"
    by (simp only: pool_full_def)
  then show ?thesis by (simp add: demo_range_def)
qed















text \<open>
  C32. Bits and addresses of a range are in bijection: the look-up that release and reload use
  finds exactly the block whose address it is given, for every range a configuration
  can produce.
\<close>

theorem range_addr_bit_bijection:
  assumes "get_range (snd (build_pool_set radius s)) p k = Some r"
  shows "range_addr_to_bit r a = Some b \<longleftrightarrow>
    b < r_count r \<and> unat a = unat (r_start r) + b * unat (r_step r) + nat (r_peer_offset r) \<and> a \<le> r_end r"
proof -
  have ok: "range_ok r" by (rule range_inv_ok) (rule set_inv_range [OF set_inv_build assms])
  show ?thesis
    using unat_range_peer [OF ok, of b] range_peer_bound [OF ok, of b]
    by (auto simp: range_addr_to_bit_iff [OF ok] word_le_nat_alt word_unat_eq_iff)
qed

theorem range_addr_bit_bijection_witness:
  "range_addr_to_bit (demo_range 0 0 0xFFFFFFFFFFFFFFFC) 0x0A000002 = Some 1"
proof -
  have "get_range (snd (build_pool_set None (Some demo_conf))) DefPool 0 = Some (demo_range 0 0 0xFFFFFFFFFFFFFFFC)"
    by (simp add: demo_build get_range_def get_pool_def demo_set_def)
  from range_addr_bit_bijection [OF this, of "0x0A000002" 1] show ?thesis by (simp add: demo_range_def)
qed




text \<open>
  C33. The \<^verbatim>\<open>used\<close> counter that \<^verbatim>\<open>show ippool\<close> reports is exact at every moment: it is the number of
  set bits below \<^verbatim>\<open>count\<close>, never exceeds \<^verbatim>\<open>count\<close>, and the bits past the end of the range
  stay set.
\<close>

theorem pool_used_exact:
  assumes "pool_reach ps ls" "get_range ps p k = Some r"
  shows "unat (r_used r) = card {b. b < r_count r \<and> bm_test (r_bitmap r) b} \<and> unat (r_used r) \<le> r_count r \<and>
    (\<forall>b. r_count r \<le> b \<and> b < 64 * length (r_bitmap r) \<longrightarrow> bm_test (r_bitmap r) b)"
proof -
  have inv: "range_inv r"
    using pool_reach_ok [OF assms(1)] set_inv_range [OF _ assms(2)] by (simp add: history_ok_def)
  have "card (used_units bm_test (r_bitmap r) (r_count r)) \<le> r_count r"
    using card_mono [OF finite_lessThan used_units_subset] by fastforce
  moreover have "r_count r < 2 ^ 64" using inv by (simp add: range_inv_def range_ok_def IPPOOL_MAX_BITS_def)
  ultimately show ?thesis
    using inv by (auto simp: range_inv_def used_units_def unat_of_nat_eq)
qed

theorem pool_used_exact_witness:
  "card {b. b < 2 \<and> bm_test [0xFFFFFFFFFFFFFFFF] b} = 2"
  using pool_used_exact [OF demo_reach, of DefPool 0 "demo_range 2 2 0xFFFFFFFFFFFFFFFF"]
  by (simp add: get_range_def get_pool_def demo_set_def) (simp add: demo_range_def)

end
