(* ===== verification/Session.thy ===== *)
theory Session
  imports CLib
begin

text \<open>
  The session layer of \<^verbatim>\<open>accel-pppd/session.c\<close> and \<^verbatim>\<open>include/ap_session.h\<close>: the life cycle
  of a session (starting, active, finishing), the global counters, the session list, soft
  shutdown, session ids, traffic statistics and the single-session policy.

  The state is a world with a table of sessions, addressed by an identifier that stands for
  the pointer. Control modules extend the world record with their own state and pass their
  function pointers (\<^verbatim>\<open>struct ap_ctrl\<close>) in the environment, together with what lies outside
  this file: the interface code of \<^verbatim>\<open>ifcfg.c\<close>, the event handlers, the kernel counters, the
  address database. Log output, context priorities and reference counts are not modelled.
\<close>

type_synonym sid = nat

datatype ap_state = AP_STATE_NONE | AP_STATE_STARTING | AP_STATE_ACTIVE | AP_STATE_FINISHING | AP_STATE_RESTORE

datatype term_cause =
    TERM_NONE | TERM_USER_REQUEST | TERM_SESSION_TIMEOUT | TERM_ADMIN_RESET | TERM_USER_ERROR | TERM_NAS_ERROR
  | TERM_NAS_REQUEST | TERM_NAS_REBOOT | TERM_AUTH_ERROR | TERM_LOST_CARRIER | TERM_IDLE_TIMEOUT

datatype ap_event =
    EV_SES_STARTING | EV_SES_FINISHING | EV_SES_PRE_FINISHED | EV_SES_FINISHED | EV_SES_AUTHORIZED | EV_SES_AUTH_FAILED

text \<open>Functions handed to \<^verbatim>\<open>triton_context_call\<close>.\<close>

datatype deferred = Call_terminate_soft_reboot | Call_terminate_sec | Call_lcp_layer_finished | Call_ppp_auth_started

record link_stats =
  rx_packets :: u64
  tx_packets :: u64
  rx_bytes :: u64
  tx_bytes :: u64

record ap_session =
  ses_state :: ap_state
  ses_ifname :: string
  ses_unit_idx :: int
  ses_ifindex :: int
  ses_sessionid :: string
  ses_start_time :: int
  ses_stop_time :: int
  ses_idle_time :: int
  ses_username :: "string option"
  ses_ipv4_pool_name :: "string option"
  ses_ipv6_pool_name :: "string option"
  ses_dpv6_pool_name :: "string option"
  ses_ifname_rename :: "string option"
  ses_ipv4 :: bool \<comment> \<open>an address with an owner is assigned\<close>
  ses_ipv6 :: bool
  ses_wakeup :: "sid option"
  ses_terminating :: bool
  ses_terminated :: bool
  ses_down :: bool
  ses_terminate_cause :: term_cause
  ses_idle_timeout :: int
  ses_session_timeout :: int
  ses_timer :: bool
  ses_timer_period :: int
  ses_timer_expire :: int
  ses_acct :: link_stats
  ses_acct_i :: link_stats

record ap_world =
  stat_starting :: u32
  stat_active :: u32
  stat_finishing :: u32
  ap_shutdown :: bool
  shutdown_done :: nat \<comment> \<open>completed soft shutdowns (\<^verbatim>\<open>shutdown_cb\<close> or \<^verbatim>\<open>SIGTERM\<close>)\<close>
  ses_list :: "sid list"
  sessions :: "sid \<Rightarrow> ap_session"
  calls :: "(sid \<times> deferred) list"
  woken :: "sid list"
  seq :: u64
  fired :: "(ap_event \<times> sid) list"

record ses_conf =
  conf_sid_ucase :: bool
  conf_single_session :: int
  conf_single_session_ignore_case :: int
  conf_sid_source_seq :: bool
  conf_session_timeout :: int

text \<open>What \<^verbatim>\<open>session.c\<close> calls: the control module and the rest of the system.\<close>

record 'w ses_env =
  env_conf :: ses_conf
  env_time :: int
  env_random :: bytes
  env_get_ifindex :: "string \<Rightarrow> int"
  env_link_stats :: "int \<Rightarrow> link_stats option"
  env_ifup :: "sid \<Rightarrow> 'w \<Rightarrow> 'w"
  env_ifdown :: "sid \<Rightarrow> 'w \<Rightarrow> 'w"
  env_event :: "ap_event \<Rightarrow> sid \<Rightarrow> 'w \<Rightarrow> 'w"
  env_put_ipv4 :: "sid \<Rightarrow> 'w \<Rightarrow> 'w"
  env_put_ipv6 :: "sid \<Rightarrow> 'w \<Rightarrow> 'w"
  env_hooks_busy :: "'w \<Rightarrow> bool"
  env_hooks_terminate :: "'w \<Rightarrow> 'w"
  ctrl_finished :: "sid \<Rightarrow> 'w \<Rightarrow> 'w"
  ctrl_terminate :: "sid \<Rightarrow> bool \<Rightarrow> 'w \<Rightarrow> 'w \<times> bool"

type_synonym ('a) world_env = "'a ap_world_scheme ses_env"

definition upd_ses :: "sid \<Rightarrow> (ap_session \<Rightarrow> ap_session) \<Rightarrow> 'a ap_world_scheme \<Rightarrow> 'a ap_world_scheme" where
  "upd_ses s f w = w\<lparr>sessions := (sessions w)(s := f (sessions w s))\<rparr>"

definition triton_event_fire :: "'a world_env \<Rightarrow> ap_event \<Rightarrow> sid \<Rightarrow> 'a ap_world_scheme \<Rightarrow> 'a ap_world_scheme" where
  "triton_event_fire e ev s w = env_event e ev s (w\<lparr>fired := fired w @ [(ev, s)]\<rparr>)"

definition triton_context_call :: "sid \<Rightarrow> deferred \<Rightarrow> 'a ap_world_scheme \<Rightarrow> 'a ap_world_scheme" where
  "triton_context_call s f w = w\<lparr>calls := calls w @ [(s, f)]\<rparr>"

section \<open>Counters and shutdown\<close>

datatype stat_field = Starting | Active | Finishing

definition ap_session_stat_inc :: "stat_field \<Rightarrow> 'a ap_world_scheme \<Rightarrow> 'a ap_world_scheme" where
  "ap_session_stat_inc st w =
     (case st of Starting \<Rightarrow> w\<lparr>stat_starting := stat_starting w + 1\<rparr>
      | Active \<Rightarrow> w\<lparr>stat_active := stat_active w + 1\<rparr>
      | Finishing \<Rightarrow> w\<lparr>stat_finishing := stat_finishing w + 1\<rparr>)"

definition ap_session_stat_dec :: "stat_field \<Rightarrow> 'a ap_world_scheme \<Rightarrow> 'a ap_world_scheme" where
  "ap_session_stat_dec st w =
     (case st of Starting \<Rightarrow> w\<lparr>stat_starting := stat_starting w - 1\<rparr>
      | Active \<Rightarrow> w\<lparr>stat_active := stat_active w - 1\<rparr>
      | Finishing \<Rightarrow> w\<lparr>stat_finishing := stat_finishing w - 1\<rparr>)"

definition ap_session_stat_move :: "stat_field \<Rightarrow> stat_field \<Rightarrow> 'a ap_world_scheme \<Rightarrow> 'a ap_world_scheme" where
  "ap_session_stat_move from to w = ap_session_stat_inc to (ap_session_stat_dec from w)"

definition ap_session_stat_idle :: "'a world_env \<Rightarrow> 'a ap_world_scheme \<Rightarrow> bool" where
  "ap_session_stat_idle e w \<longleftrightarrow>
     stat_starting w = 0 \<and> stat_active w = 0 \<and> stat_finishing w = 0 \<and> \<not> env_hooks_busy e w"

definition ap_shutdown_check :: "'a world_env \<Rightarrow> 'a ap_world_scheme \<Rightarrow> 'a ap_world_scheme" where
  "ap_shutdown_check e w =
     (if ap_shutdown w \<and> ap_session_stat_idle e w then w\<lparr>shutdown_done := Suc (shutdown_done w)\<rparr> else w)"

definition ap_shutdown_soft :: "'a world_env \<Rightarrow> bool \<Rightarrow> 'a ap_world_scheme \<Rightarrow> 'a ap_world_scheme \<times> bool" where
  "ap_shutdown_soft e trm w =
     (let w = w\<lparr>ap_shutdown := True\<rparr>
      in if ap_session_stat_idle e w then (w\<lparr>shutdown_done := Suc (shutdown_done w)\<rparr>, True)
         else if trm then
           (env_hooks_terminate e (fold (\<lambda>s. triton_context_call s Call_terminate_soft_reboot) (ses_list w) w), False)
         else (w, False))"

section \<open>Session ids\<close>

definition hex_digit :: "bool \<Rightarrow> nat \<Rightarrow> char" where
  "hex_digit ucase d = char_of (if d < 10 then 48 + d else (if ucase then 55 else 87) + d)"

text \<open>\<^verbatim>\<open>%016llx\<close> of a 64-bit number.\<close>

definition hex16 :: "bool \<Rightarrow> u64 \<Rightarrow> string" where
  "hex16 ucase v = map (\<lambda>i. hex_digit ucase (unat (drop_bit (4 * (15 - i)) v AND 15))) [0..<16]"

definition hex_bytes :: "bool \<Rightarrow> bytes \<Rightarrow> string" where
  "hex_bytes ucase bs = concat (map (\<lambda>b. [hex_digit ucase (unat (drop_bit 4 b)), hex_digit ucase (unat (b AND 15))]) bs)"

definition generate_sessionid :: "'a world_env \<Rightarrow> sid \<Rightarrow> 'a ap_world_scheme \<Rightarrow> 'a ap_world_scheme" where
  "generate_sessionid e s w =
     (if conf_sid_source_seq (env_conf e)
      then let w = w\<lparr>seq := seq w + 1\<rparr>
           in upd_ses s (\<lambda>ses. ses\<lparr>ses_sessionid := hex16 (conf_sid_ucase (env_conf e)) (seq w)\<rparr>) w
      else upd_ses s (\<lambda>ses. ses\<lparr>ses_sessionid := hex_bytes (conf_sid_ucase (env_conf e)) (take 8 (env_random e))\<rparr>) w)"

section \<open>Traffic counters\<close>

definition stats0 :: link_stats where
  "stats0 = \<lparr>rx_packets = 0, tx_packets = 0, rx_bytes = 0, tx_bytes = 0\<rparr>"

definition ap_session_set_ifindex :: "'a world_env \<Rightarrow> sid \<Rightarrow> 'a ap_world_scheme \<Rightarrow> 'a ap_world_scheme" where
  "ap_session_set_ifindex e s w =
     (case env_link_stats e (ses_ifindex (sessions w s)) of
        None \<Rightarrow> w
      | Some st \<Rightarrow> upd_ses s (\<lambda>ses. ses\<lparr>ses_acct_i := st,
                      ses_acct := (ses_acct ses)\<lparr>rx_bytes := 0, tx_bytes := 0\<rparr>\<rparr>) w)"

definition ap_session_read_stats :: "'a world_env \<Rightarrow> sid \<Rightarrow> 'a ap_world_scheme \<Rightarrow> 'a ap_world_scheme \<times> link_stats option" where
  "ap_session_read_stats e s w =
     (let ses = sessions w s
      in if ses_ifindex ses = -1 then (w, None)
         else case env_link_stats e (ses_ifindex ses) of
           None \<Rightarrow> (w, None)
         | Some st \<Rightarrow>
             let d = \<lparr>rx_packets = rx_packets st - rx_packets (ses_acct_i ses),
                      tx_packets = tx_packets st - tx_packets (ses_acct_i ses),
                      rx_bytes = rx_bytes st - rx_bytes (ses_acct_i ses),
                      tx_bytes = tx_bytes st - tx_bytes (ses_acct_i ses)\<rparr>
             in (upd_ses s (\<lambda>ses. ses\<lparr>
                   ses_idle_time := (if rx_bytes d \<noteq> rx_bytes (ses_acct ses) then env_time e else ses_idle_time ses),
                   ses_acct := d\<rparr>) w, Some d))"

section \<open>Life cycle\<close>

definition ap_session_init :: ap_session where
  "ap_session_init =
     \<lparr>ses_state = AP_STATE_NONE, ses_ifname = [], ses_unit_idx = -1, ses_ifindex = -1, ses_sessionid = [],
      ses_start_time = 0, ses_stop_time = 0, ses_idle_time = 0, ses_username = None, ses_ipv4_pool_name = None,
      ses_ipv6_pool_name = None, ses_dpv6_pool_name = None, ses_ifname_rename = None, ses_ipv4 = False, ses_ipv6 = False,
      ses_wakeup = None, ses_terminating = False, ses_terminated = False, ses_down = False,
      ses_terminate_cause = TERM_NONE, ses_idle_timeout = 0, ses_session_timeout = 0, ses_timer = False,
      ses_timer_period = 0, ses_timer_expire = 0, ses_acct = stats0, ses_acct_i = stats0\<rparr>"

definition ap_session_starting :: "'a world_env \<Rightarrow> sid \<Rightarrow> 'a ap_world_scheme \<Rightarrow> 'a ap_world_scheme \<times> int" where
  "ap_session_starting e s w =
     (if ap_shutdown w then (w, -1)
      else
        let w = (if ses_ifindex (sessions w s) = -1 \<and> ses_ifname (sessions w s) \<noteq> []
                 then upd_ses s (\<lambda>ses. ses\<lparr>ses_ifindex := env_get_ifindex e (ses_ifname ses)\<rparr>) w else w);
            w = (if ses_ifindex (sessions w s) \<noteq> -1 then ap_session_set_ifindex e s w else w);
            w = (if ses_state (sessions w s) \<noteq> AP_STATE_RESTORE
                 then upd_ses s (\<lambda>ses. ses\<lparr>ses_state := AP_STATE_STARTING\<rparr>)
                        (generate_sessionid e s
                          (upd_ses s (\<lambda>ses. ses\<lparr>ses_start_time := env_time e, ses_idle_time := env_time e\<rparr>) w))
                 else w);
            w = ap_session_stat_inc Starting w;
            w = w\<lparr>ses_list := ses_list w @ [s]\<rparr>
        in (triton_event_fire e EV_SES_STARTING s w, 0))"

definition ap_session_activate :: "'a world_env \<Rightarrow> sid \<Rightarrow> 'a ap_world_scheme \<Rightarrow> 'a ap_world_scheme" where
  "ap_session_activate e s w =
     (if ap_shutdown w then w
      else
        let w = env_ifup e s w
        in if ses_stop_time (sessions w s) \<noteq> 0 then w
           else
             let w = upd_ses s (\<lambda>ses. ses\<lparr>ses_state := AP_STATE_ACTIVE\<rparr>) w;
                 w = ap_session_stat_move Starting Active w;
                 w = upd_ses s (\<lambda>ses. if ses_session_timeout ses = 0 \<and> conf_session_timeout (env_conf e) \<noteq> 0
                                 then ses\<lparr>ses_session_timeout := conf_session_timeout (env_conf e)\<rparr> else ses) w
             in upd_ses s (\<lambda>ses.
                  if ses_idle_timeout ses \<noteq> 0 then ses\<lparr>ses_timer_period := 60000, ses_timer := True\<rparr>
                  else if ses_session_timeout ses \<noteq> 0
                  then ses\<lparr>ses_timer_expire := ses_session_timeout ses, ses_timer := True\<rparr>
                  else ses) w)"

definition ap_session_finished :: "'a world_env \<Rightarrow> sid \<Rightarrow> 'a ap_world_scheme \<Rightarrow> 'a ap_world_scheme" where
  "ap_session_finished e s w =
     (let w = upd_ses s (\<lambda>ses. ses\<lparr>ses_terminated := True\<rparr>) w;
          w = (if \<not> ses_down (sessions w s) then triton_event_fire e EV_SES_FINISHING s (env_ifdown e s w) else w);
          w = triton_event_fire e EV_SES_PRE_FINISHED s w;
          w = w\<lparr>ses_list := remove1 s (ses_list w)\<rparr>;
          w = (case ses_state (sessions w s) of
                 AP_STATE_ACTIVE \<Rightarrow> ap_session_stat_dec Active w
               | AP_STATE_RESTORE \<Rightarrow> ap_session_stat_dec Starting w
               | AP_STATE_STARTING \<Rightarrow> ap_session_stat_dec Starting w
               | AP_STATE_FINISHING \<Rightarrow> ap_session_stat_dec Finishing w
               | AP_STATE_NONE \<Rightarrow> w);
          w = (if ses_ipv4 (sessions w s) then upd_ses s (\<lambda>ses. ses\<lparr>ses_ipv4 := False\<rparr>) (env_put_ipv4 e s w) else w);
          w = (if ses_ipv6 (sessions w s) then upd_ses s (\<lambda>ses. ses\<lparr>ses_ipv6 := False\<rparr>) (env_put_ipv6 e s w) else w);
          w = triton_event_fire e EV_SES_FINISHED s w;
          w = ctrl_finished e s w;
          w = (case ses_wakeup (sessions w s) of None \<Rightarrow> w | Some c \<Rightarrow> w\<lparr>woken := woken w @ [c]\<rparr>);
          w = upd_ses s (\<lambda>ses. ses\<lparr>ses_username := None, ses_ipv4_pool_name := None, ses_ipv6_pool_name := None,
                               ses_dpv6_pool_name := None, ses_ifname_rename := None, ses_timer := False\<rparr>) w
      in ap_shutdown_check e w)"

definition ap_session_terminate :: "'a world_env \<Rightarrow> sid \<Rightarrow> term_cause \<Rightarrow> bool \<Rightarrow> 'a ap_world_scheme \<Rightarrow> 'a ap_world_scheme" where
  "ap_session_terminate e s cause hard w =
     (if ses_terminated (sessions w s) then w
      else
        let w = upd_ses s (\<lambda>ses. ses\<lparr>
                  ses_stop_time := (if ses_stop_time ses = 0 then env_time e else ses_stop_time ses),
                  ses_terminate_cause := (if ses_terminate_cause ses = TERM_NONE then cause else ses_terminate_cause ses),
                  ses_timer := False\<rparr>) w
        in if ses_terminating (sessions w s) then
             (if hard then fst (ctrl_terminate e s True w)
              else if ses_state (sessions w s) = AP_STATE_FINISHING then fst (ctrl_terminate e s True w)
              else w)
           else
             let w = (if ses_state (sessions w s) = AP_STATE_ACTIVE
                      then ap_session_stat_move Active Finishing w
                      else ap_session_stat_move Starting Finishing w);
                 w = upd_ses s (\<lambda>ses. ses\<lparr>ses_terminating := True, ses_state := AP_STATE_FINISHING\<rparr>) w;
                 w = fst (ap_session_read_stats e s w);
                 (w, pending) = ctrl_terminate e s hard w
             in if pending
                then upd_ses s (\<lambda>ses. ses\<lparr>ses_down := True\<rparr>)
                       (triton_event_fire e EV_SES_FINISHING s (env_ifdown e s w))
                else w)"

definition ap_session_timer :: "'a world_env \<Rightarrow> sid \<Rightarrow> 'a ap_world_scheme \<Rightarrow> 'a ap_world_scheme" where
  "ap_session_timer e s w =
     (let (w, st) = ap_session_read_stats e s w;
          w = (if st = None then ap_session_terminate e s TERM_NAS_ERROR False w else w);
          ses = sessions w s
      in if ses_idle_timeout ses \<noteq> 0 \<and> env_time e - ses_idle_time ses \<ge> ses_idle_timeout ses
         then ap_session_terminate e s TERM_SESSION_TIMEOUT False w
         else if ses_session_timeout ses \<noteq> 0 \<and> env_time e - ses_start_time ses \<ge> ses_session_timeout ses
         then ap_session_terminate e s TERM_SESSION_TIMEOUT False w
         else w)"

section \<open>User names\<close>

definition tolower :: "char \<Rightarrow> char" where
  "tolower c = (if 65 \<le> (of_char c :: nat) \<and> (of_char c :: nat) \<le> 90 then char_of (of_char c + (32 :: nat)) else c)"

definition same_user :: "ses_conf \<Rightarrow> string \<Rightarrow> string \<Rightarrow> bool" where
  "same_user cf a b =
     (if conf_single_session_ignore_case cf = 1 then map tolower a = map tolower b else a = b)"

definition holds_user :: "ses_conf \<Rightarrow> string \<Rightarrow> ap_session \<Rightarrow> bool" where
  "holds_user cf username ses =
     (case ses_username ses of None \<Rightarrow> False | Some u \<Rightarrow> same_user cf u username)"

text \<open>
  The loop of \<^verbatim>\<open>ap_session_set_username\<close> over the session list: \<open>None\<close> if the name is taken
  under the deny policy, otherwise the world with the older sessions scheduled for
  termination and whether the caller waits for one of them.
\<close>

fun replace_sessions :: "'a world_env \<Rightarrow> sid \<Rightarrow> string \<Rightarrow> sid list \<Rightarrow> 'a ap_world_scheme \<Rightarrow> bool \<Rightarrow> ('a ap_world_scheme \<times> bool) option" where
  "replace_sessions e s username [] w wait = Some (w, wait)"
| "replace_sessions e s username (t # ts) w wait =
     (if holds_user (env_conf e) username (sessions w t) \<and> ses_terminate_cause (sessions w t) \<noteq> TERM_AUTH_ERROR then
        (if conf_single_session (env_conf e) = 0 then None
         else
           let (w, wait) = (if ses_wakeup (sessions w t) = None
                            then (upd_ses t (\<lambda>ses. ses\<lparr>ses_wakeup := Some s\<rparr>) w, True) else (w, wait));
               w = triton_context_call t Call_terminate_sec (env_ifdown e t w)
           in replace_sessions e s username ts w wait)
      else replace_sessions e s username ts w wait)"

definition ap_session_set_username :: "'a world_env \<Rightarrow> sid \<Rightarrow> string \<Rightarrow> 'a ap_world_scheme \<Rightarrow> ('a ap_world_scheme \<times> bool) option" where
  "ap_session_set_username e s username w =
     map_option (\<lambda>(w, wait). (upd_ses s (\<lambda>ses. ses\<lparr>ses_username := Some username\<rparr>) w, wait))
       (if conf_single_session (env_conf e) \<ge> 0 then replace_sessions e s username (ses_list w) w False
        else Some (w, False))"

definition ap_check_username :: "ses_conf \<Rightarrow> string \<Rightarrow> 'a ap_world_scheme \<Rightarrow> bool" where
  "ap_check_username cf username w =
     (if conf_single_session cf \<noteq> 0 then False
      else list_ex (\<lambda>t. holds_user cf username (sessions w t)) (ses_list w))"

end
