(* ===== verification/PppFsm.thy ===== *)
theory PppFsm
  imports Prelude
begin

text \<open>
  The negotiation automaton of \<^verbatim>\<open>accel-pppd/ppp/ppp_fsm.c\<close> (RFC 1661), which LCP and the
  network control protocols instantiate. In C the automaton is a structure embedded in the
  protocol's own, and its function pointers reach the protocol through \<^verbatim>\<open>container_of\<close>. Here
  the functions work on the protocol's state \<open>'s\<close> and the record \<open>fsm_ops\<close> holds the embedding
  and the function pointers; an optional pointer is an option. The restart timer is its
  \<open>armed\<close> flag (\<^verbatim>\<open>restart_timer.tpd\<close>); a tick of an armed timer is \<open>restart_timer_func\<close>.
\<close>

datatype FSM_STATE =
    FSM_Initial | FSM_Starting | FSM_Closed | FSM_Stopped | FSM_Closing | FSM_Stopping
  | FSM_Req_Sent | FSM_Ack_Rcvd | FSM_Ack_Sent | FSM_Opened

record ppp_fsm =
  fsm_state :: FSM_STATE
  restart_timer :: bool
  restart_counter :: int
  max_terminate :: int
  max_configure :: int
  max_failure :: int
  conf_failure :: int
  fsm_id :: u8
  recv_id :: u8

record 's fsm_ops =
  get_fsm :: "'s \<Rightarrow> ppp_fsm"
  put_fsm :: "ppp_fsm \<Rightarrow> 's \<Rightarrow> 's"
  layer_up :: "('s \<Rightarrow> 's) option"
  layer_down :: "('s \<Rightarrow> 's) option"
  layer_started :: "('s \<Rightarrow> 's) option"
  layer_finished :: "('s \<Rightarrow> 's) option"
  send_conf_req :: "('s \<Rightarrow> 's \<times> bool) option" \<comment> \<open>the flag: it failed\<close>
  send_conf_ack :: "('s \<Rightarrow> 's) option"
  send_conf_nak :: "('s \<Rightarrow> 's) option"
  send_conf_rej :: "('s \<Rightarrow> 's) option"
  send_code_rej :: "('s \<Rightarrow> 's) option"
  send_term_req :: "'s \<Rightarrow> 's"
  send_term_ack :: "'s \<Rightarrow> 's"

text \<open>Configuration of the automaton (the file's statics).\<close>

record fsm_conf =
  conf_max_terminate :: int
  conf_max_configure :: int
  conf_max_failure :: int

definition ppp_fsm_init :: "fsm_conf \<Rightarrow> u8 \<Rightarrow> ppp_fsm \<Rightarrow> ppp_fsm" where
  \<comment> \<open>the second argument is the value of \<^verbatim>\<open>random()\<close>\<close>
  "ppp_fsm_init cf rnd f =
     f\<lparr>fsm_state := FSM_Initial, restart_counter := 0, max_terminate := conf_max_terminate cf,
       max_configure := conf_max_configure cf, max_failure := conf_max_failure cf, fsm_id := rnd\<rparr>"

section \<open>Access to the embedded automaton\<close>

definition state_of :: "'s fsm_ops \<Rightarrow> 's \<Rightarrow> FSM_STATE" where
  "state_of ops s = fsm_state (get_fsm ops s)"

definition upd_fsm :: "'s fsm_ops \<Rightarrow> (ppp_fsm \<Rightarrow> ppp_fsm) \<Rightarrow> 's \<Rightarrow> 's" where
  "upd_fsm ops f s = put_fsm ops (f (get_fsm ops s)) s"

definition set_state :: "'s fsm_ops \<Rightarrow> FSM_STATE \<Rightarrow> 's \<Rightarrow> 's" where
  "set_state ops st = upd_fsm ops (\<lambda>f. f\<lparr>fsm_state := st\<rparr>)"

text \<open>A call through an optional function pointer.\<close>

definition opt_call :: "('s \<Rightarrow> 's) option \<Rightarrow> 's \<Rightarrow> 's" where
  "opt_call cb s = (case cb of None \<Rightarrow> s | Some f \<Rightarrow> f s)"

definition conf_req_call :: "'s fsm_ops \<Rightarrow> 's \<Rightarrow> 's \<times> bool" where
  "conf_req_call ops s = (case send_conf_req ops of None \<Rightarrow> (s, False) | Some f \<Rightarrow> f s)"

definition stop_timer :: "'s fsm_ops \<Rightarrow> 's \<Rightarrow> 's" where
  "stop_timer ops = upd_fsm ops (\<lambda>f. f\<lparr>restart_timer := False\<rparr>)"

definition init_req_counter :: "'s fsm_ops \<Rightarrow> (ppp_fsm \<Rightarrow> int) \<Rightarrow> 's \<Rightarrow> 's" where
  "init_req_counter ops timeout = upd_fsm ops (\<lambda>f. f\<lparr>restart_counter := timeout f, restart_timer := True\<rparr>)"

definition zero_req_counter :: "'s fsm_ops \<Rightarrow> 's \<Rightarrow> 's" where
  "zero_req_counter ops = upd_fsm ops (\<lambda>f. f\<lparr>restart_counter := 0, restart_timer := True\<rparr>)"

definition dec_counter :: "'s fsm_ops \<Rightarrow> 's \<Rightarrow> 's" where
  "dec_counter ops = upd_fsm ops (\<lambda>f. f\<lparr>restart_counter := restart_counter f - 1\<rparr>)"

text \<open>\<^verbatim>\<open>++layer->conf_failure\<close>; the flag tells whether it reached \<^verbatim>\<open>max_failure\<close>.\<close>

definition inc_failure :: "'s fsm_ops \<Rightarrow> 's \<Rightarrow> 's" where
  "inc_failure ops = upd_fsm ops (\<lambda>f. f\<lparr>conf_failure := conf_failure f + 1\<rparr>)"

definition failure_limit :: "'s fsm_ops \<Rightarrow> 's \<Rightarrow> bool" where
  "failure_limit ops s \<longleftrightarrow> conf_failure (get_fsm ops s) = max_failure (get_fsm ops s)"

section \<open>Events from the lower layer and from the administrator\<close>

definition ppp_fsm_free :: "'s fsm_ops \<Rightarrow> 's \<Rightarrow> 's" where
  "ppp_fsm_free ops = stop_timer ops"

definition ppp_fsm_lower_up :: "'s fsm_ops \<Rightarrow> 's \<Rightarrow> 's \<times> int" where
  "ppp_fsm_lower_up ops s =
     (case state_of ops s of
        FSM_Initial \<Rightarrow> (set_state ops FSM_Closed s, 0)
      | FSM_Starting \<Rightarrow>
          (case conf_req_call ops (dec_counter ops (init_req_counter ops max_configure s)) of
             (s, True) \<Rightarrow> (s, -1)
           | (s, False) \<Rightarrow> (set_state ops FSM_Req_Sent s, 0))
      | _ \<Rightarrow> (s, 0))"

definition ppp_fsm_lower_down :: "'s fsm_ops \<Rightarrow> 's \<Rightarrow> 's" where
  "ppp_fsm_lower_down ops s =
     (case state_of ops s of
        FSM_Closed \<Rightarrow> set_state ops FSM_Initial s
      | FSM_Closing \<Rightarrow> set_state ops FSM_Initial s
      | FSM_Stopped \<Rightarrow> set_state ops FSM_Starting (opt_call (layer_started ops) s)
      | FSM_Stopping \<Rightarrow> set_state ops FSM_Starting s
      | FSM_Req_Sent \<Rightarrow> set_state ops FSM_Starting s
      | FSM_Ack_Rcvd \<Rightarrow> set_state ops FSM_Starting s
      | FSM_Ack_Sent \<Rightarrow> set_state ops FSM_Starting s
      | FSM_Opened \<Rightarrow> set_state ops FSM_Starting (opt_call (layer_down ops) s)
      | _ \<Rightarrow> s)"

definition ppp_fsm_open :: "'s fsm_ops \<Rightarrow> 's \<Rightarrow> 's \<times> int" where
  "ppp_fsm_open ops s =
     (let reopen = (fst (ppp_fsm_lower_up ops (ppp_fsm_lower_down ops s)), 0)
      in case state_of ops s of
        FSM_Initial \<Rightarrow> (set_state ops FSM_Starting s, 0)
      | FSM_Starting \<Rightarrow> (s, 0)
      | FSM_Closed \<Rightarrow>
          (case conf_req_call ops (set_state ops FSM_Req_Sent (dec_counter ops (init_req_counter ops max_configure s))) of
             (s, failed) \<Rightarrow> (s, if failed then -1 else 0))
      | FSM_Closing \<Rightarrow> reopen
      | FSM_Stopping \<Rightarrow> reopen
      | FSM_Stopped \<Rightarrow> reopen
      | FSM_Opened \<Rightarrow> reopen
      | _ \<Rightarrow> (s, 0))"

definition send_term :: "'s fsm_ops \<Rightarrow> 's \<Rightarrow> 's" where
  \<comment> \<open>the common tail of \<^verbatim>\<open>ppp_fsm_close\<close>\<close>
  "send_term ops s = set_state ops FSM_Closing (send_term_req ops (init_req_counter ops max_terminate s))"

definition ppp_fsm_close :: "'s fsm_ops \<Rightarrow> 's \<Rightarrow> 's" where
  "ppp_fsm_close ops s =
     (case state_of ops s of
        FSM_Starting \<Rightarrow> opt_call (layer_finished ops) (set_state ops FSM_Initial (stop_timer ops s))
      | FSM_Stopped \<Rightarrow> stop_timer ops (set_state ops FSM_Closed s)
      | FSM_Stopping \<Rightarrow> set_state ops FSM_Closing s
      | FSM_Opened \<Rightarrow> send_term ops (opt_call (layer_down ops) (set_state ops FSM_Closing s))
      | FSM_Req_Sent \<Rightarrow> send_term ops s
      | FSM_Ack_Rcvd \<Rightarrow> send_term ops s
      | FSM_Ack_Sent \<Rightarrow> send_term ops s
      | _ \<Rightarrow> s)"

definition ppp_fsm_close2 :: "'s fsm_ops \<Rightarrow> 's \<Rightarrow> 's" where
  "ppp_fsm_close2 ops s = set_state ops FSM_Closed (stop_timer ops s)"

section \<open>Time-outs\<close>

definition resend_conf_req :: "'s fsm_ops \<Rightarrow> 's \<Rightarrow> 's" where
  \<comment> \<open>\<^verbatim>\<open>--layer->restart_counter; if (layer->send_conf_req) layer->send_conf_req(layer);\<close>\<close>
  "resend_conf_req ops s = fst (conf_req_call ops (dec_counter ops s))"

definition ppp_fsm_timeout0 :: "'s fsm_ops \<Rightarrow> 's \<Rightarrow> 's" where
  "ppp_fsm_timeout0 ops s =
     (case state_of ops s of
        FSM_Closing \<Rightarrow> send_term_req ops (dec_counter ops s)
      | FSM_Stopping \<Rightarrow> send_term_req ops (dec_counter ops s)
      | FSM_Ack_Rcvd \<Rightarrow> resend_conf_req ops (set_state ops FSM_Req_Sent s)
      | FSM_Req_Sent \<Rightarrow> resend_conf_req ops s
      | FSM_Ack_Sent \<Rightarrow> resend_conf_req ops s
      | _ \<Rightarrow> s)"

definition finish_in :: "'s fsm_ops \<Rightarrow> FSM_STATE \<Rightarrow> 's \<Rightarrow> 's" where
  "finish_in ops st s = opt_call (layer_finished ops) (set_state ops st s)"

definition ppp_fsm_timeout1 :: "'s fsm_ops \<Rightarrow> 's \<Rightarrow> 's" where
  "ppp_fsm_timeout1 ops s =
     (case state_of ops s of
        FSM_Closing \<Rightarrow> finish_in ops FSM_Closed (stop_timer ops s)
      | FSM_Stopping \<Rightarrow> finish_in ops FSM_Stopped (stop_timer ops s)
      | FSM_Ack_Rcvd \<Rightarrow> finish_in ops FSM_Stopped (stop_timer ops s)
      | FSM_Req_Sent \<Rightarrow> finish_in ops FSM_Stopped (stop_timer ops s)
      | FSM_Ack_Sent \<Rightarrow> finish_in ops FSM_Stopped (stop_timer ops s)
      | _ \<Rightarrow> s)"

definition restart_timer_func :: "'s fsm_ops \<Rightarrow> 's \<Rightarrow> 's" where
  "restart_timer_func ops s =
     (if restart_counter (get_fsm ops s) > 0 then ppp_fsm_timeout0 ops s else ppp_fsm_timeout1 ops s)"

section \<open>Received packets\<close>

text \<open>The start of a new exchange from \<open>FSM_Stopped\<close>.\<close>

definition restart_conf_req :: "'s fsm_ops \<Rightarrow> 's \<Rightarrow> 's" where
  "restart_conf_req ops s = resend_conf_req ops (init_req_counter ops max_configure s)"

definition ppp_fsm_recv_conf_req_ack :: "'s fsm_ops \<Rightarrow> 's \<Rightarrow> 's" where
  "ppp_fsm_recv_conf_req_ack ops s =
     (let acked = (\<lambda>s. set_state ops FSM_Ack_Sent (opt_call (send_conf_ack ops) s))
      in case state_of ops s of
        FSM_Closed \<Rightarrow> send_term_ack ops s
      | FSM_Stopped \<Rightarrow> acked (restart_conf_req ops s)
      | FSM_Req_Sent \<Rightarrow> acked s
      | FSM_Ack_Sent \<Rightarrow> acked s
      | FSM_Ack_Rcvd \<Rightarrow>
          set_state ops FSM_Opened (opt_call (layer_up ops) (stop_timer ops (opt_call (send_conf_ack ops) s)))
      | FSM_Opened \<Rightarrow> acked (resend_conf_req ops (opt_call (layer_down ops) s))
      | _ \<Rightarrow> s)"

definition ppp_fsm_recv_conf_req_nak :: "'s fsm_ops \<Rightarrow> 's \<Rightarrow> 's" where
  "ppp_fsm_recv_conf_req_nak ops s =
     (let naked = (\<lambda>s. set_state ops FSM_Req_Sent (opt_call (send_conf_nak ops) s));
          counted = (let s = inc_failure ops s
                     in if failure_limit ops s then opt_call (layer_finished ops) s
                        else opt_call (send_conf_nak ops) s)
      in case state_of ops s of
        FSM_Closed \<Rightarrow> send_term_ack ops s
      | FSM_Stopped \<Rightarrow> naked (restart_conf_req ops s)
      | FSM_Ack_Sent \<Rightarrow> naked s
      | FSM_Req_Sent \<Rightarrow> counted
      | FSM_Ack_Rcvd \<Rightarrow> counted
      | FSM_Opened \<Rightarrow> naked (resend_conf_req ops (opt_call (layer_down ops) s))
      | _ \<Rightarrow> s)"

definition ppp_fsm_recv_conf_req_rej :: "'s fsm_ops \<Rightarrow> 's \<Rightarrow> 's" where
  "ppp_fsm_recv_conf_req_rej ops s =
     (let rejected = (\<lambda>s. set_state ops FSM_Req_Sent (opt_call (send_conf_rej ops) s));
          limited = (\<lambda>s. let s = inc_failure ops s
                         in if failure_limit ops s then opt_call (layer_down ops) s else rejected s);
          counted = (let s = inc_failure ops s
                     in if failure_limit ops s then opt_call (layer_finished ops) s
                        else opt_call (send_conf_rej ops) s)
      in case state_of ops s of
        FSM_Closed \<Rightarrow> send_term_ack ops s
      | FSM_Stopped \<Rightarrow> limited (restart_conf_req ops s)
      | FSM_Ack_Sent \<Rightarrow> limited s
      | FSM_Req_Sent \<Rightarrow> counted
      | FSM_Ack_Rcvd \<Rightarrow> counted
      | FSM_Opened \<Rightarrow> rejected (resend_conf_req ops (opt_call (layer_down ops) s))
      | _ \<Rightarrow> s)"

definition next_id :: "'s fsm_ops \<Rightarrow> 's \<Rightarrow> 's" where
  "next_id ops = upd_fsm ops (\<lambda>f. f\<lparr>fsm_id := fsm_id f + 1\<rparr>)"

definition ppp_fsm_recv_conf_ack :: "'s fsm_ops \<Rightarrow> 's \<Rightarrow> 's" where
  "ppp_fsm_recv_conf_ack ops s =
     (let s = next_id ops s
      in case state_of ops s of
        FSM_Closed \<Rightarrow> send_term_ack ops s
      | FSM_Stopped \<Rightarrow> send_term_ack ops s
      | FSM_Req_Sent \<Rightarrow> set_state ops FSM_Ack_Rcvd s
      | FSM_Ack_Rcvd \<Rightarrow> set_state ops FSM_Req_Sent (resend_conf_req ops s)
      | FSM_Ack_Sent \<Rightarrow> set_state ops FSM_Opened (opt_call (layer_up ops) (stop_timer ops s))
      | FSM_Opened \<Rightarrow> set_state ops FSM_Req_Sent (resend_conf_req ops (opt_call (layer_down ops) s))
      | _ \<Rightarrow> s)"

definition ppp_fsm_recv_conf_rej :: "'s fsm_ops \<Rightarrow> 's \<Rightarrow> 's" where
  "ppp_fsm_recv_conf_rej ops s =
     (let s = next_id ops s;
          limited = (\<lambda>timeout. let s = inc_failure ops s
                               in if failure_limit ops s then opt_call (layer_down ops) s
                                  else resend_conf_req ops (init_req_counter ops timeout s))
      in case state_of ops s of
        FSM_Closed \<Rightarrow> send_term_ack ops s
      | FSM_Stopped \<Rightarrow> send_term_ack ops s
      | FSM_Req_Sent \<Rightarrow> limited max_failure
      | FSM_Ack_Rcvd \<Rightarrow> set_state ops FSM_Req_Sent (resend_conf_req ops s)
      | FSM_Ack_Sent \<Rightarrow> limited max_configure
      | FSM_Opened \<Rightarrow> set_state ops FSM_Req_Sent (resend_conf_req ops (opt_call (layer_down ops) s))
      | _ \<Rightarrow> s)"

definition ppp_fsm_recv_term_req :: "'s fsm_ops \<Rightarrow> 's \<Rightarrow> 's" where
  "ppp_fsm_recv_term_req ops s =
     (let back_to_req = set_state ops FSM_Req_Sent (send_term_ack ops s)
      in case state_of ops s of
        FSM_Opened \<Rightarrow>
          set_state ops FSM_Stopping (zero_req_counter ops (send_term_ack ops (opt_call (layer_down ops) s)))
      | FSM_Req_Sent \<Rightarrow> back_to_req
      | FSM_Ack_Rcvd \<Rightarrow> back_to_req
      | FSM_Ack_Sent \<Rightarrow> back_to_req
      | _ \<Rightarrow> send_term_ack ops s)"

definition ppp_fsm_recv_term_ack :: "'s fsm_ops \<Rightarrow> 's \<Rightarrow> 's" where
  "ppp_fsm_recv_term_ack ops s =
     (let s = stop_timer ops s
      in case state_of ops s of
        FSM_Closing \<Rightarrow> finish_in ops FSM_Closed s
      | FSM_Stopping \<Rightarrow> finish_in ops FSM_Stopped s
      | FSM_Ack_Rcvd \<Rightarrow> set_state ops FSM_Req_Sent s
      | FSM_Opened \<Rightarrow> set_state ops FSM_Req_Sent (resend_conf_req ops (opt_call (layer_down ops) s))
      | _ \<Rightarrow> s)"

definition ppp_fsm_recv_unk :: "'s fsm_ops \<Rightarrow> 's \<Rightarrow> 's" where
  "ppp_fsm_recv_unk ops = opt_call (send_code_rej ops)"

definition ppp_fsm_recv_code_rej_perm :: "'s fsm_ops \<Rightarrow> 's \<Rightarrow> 's" where
  "ppp_fsm_recv_code_rej_perm ops s =
     (if state_of ops s = FSM_Ack_Rcvd then set_state ops FSM_Req_Sent s else s)"

definition ppp_fsm_recv_code_rej_bad :: "'s fsm_ops \<Rightarrow> 's \<Rightarrow> 's" where
  "ppp_fsm_recv_code_rej_bad ops s =
     (case state_of ops s of
        FSM_Opened \<Rightarrow>
          set_state ops FSM_Stopping (send_term_req ops (dec_counter ops (opt_call (layer_down ops) s)))
      | FSM_Closing \<Rightarrow> finish_in ops FSM_Closed s
      | FSM_Stopping \<Rightarrow> finish_in ops FSM_Stopped s
      | FSM_Req_Sent \<Rightarrow> finish_in ops FSM_Stopped s
      | FSM_Ack_Rcvd \<Rightarrow> finish_in ops FSM_Stopped s
      | FSM_Ack_Sent \<Rightarrow> finish_in ops FSM_Stopped s
      | _ \<Rightarrow> s)"

end
