(* ===== verification/PppState.thy ===== *)
theory PppState
  imports Session PppFsm
begin

text \<open>
  The state of a PPP connection (\<^verbatim>\<open>struct ppp_t\<close> of \<^verbatim>\<open>ppp/ppp.h\<close>, \<^verbatim>\<open>struct ppp_lcp_t\<close> of
  \<^verbatim>\<open>ppp/ppp_lcp.h\<close>, the authentication layer of \<^verbatim>\<open>ppp/ppp_auth.c\<close>), and the environment of the PPP
  code: configuration, the answers of the kernel, and the function pointers that link
  the files with each other. Calls between files that can be re-entered (termination of a
  session, start and finish of layers) go through the environment; \<^verbatim>\<open>PppSystem\<close> ties the knot.
\<close>

datatype layer_id = L_LCP | L_AUTH | L_CCP | L_IPCP | L_IPV6CP

record ppp_layer_data =
  ld_layer :: layer_id
  ld_passive :: bool
  ld_optional :: bool
  ld_starting :: bool
  ld_started :: bool
  ld_finished :: bool

section \<open>LCP\<close>

abbreviation (input) LCP_OPT_NONE :: int where "LCP_OPT_NONE \<equiv> 0"
abbreviation (input) LCP_OPT_ACK :: int where "LCP_OPT_ACK \<equiv> 1"
abbreviation (input) LCP_OPT_NAK :: int where "LCP_OPT_NAK \<equiv> -1"
abbreviation (input) LCP_OPT_REJ :: int where "LCP_OPT_REJ \<equiv> -2"
abbreviation (input) LCP_OPT_FAIL :: int where "LCP_OPT_FAIL \<equiv> -3"

text \<open>
  An option with the data of its handler (\<^verbatim>\<open>struct mru_option_t\<close>, \<^verbatim>\<open>magic_option_t\<close>, \<dots>, which
  embed \<^verbatim>\<open>struct lcp_option_t\<close>). The data of the authentication option are in the
  authentication layer.
\<close>

record mru_option =
  mo_mru :: int
  mo_mtu :: int
  mo_naked :: bool
  mo_rejected :: bool

datatype lcp_opt_data = MruOpt mru_option | MagicOpt u32 | PcompOpt u32 | AccompOpt u32 | AuthOpt

record lcp_option =
  lo_id :: u8
  lo_len :: int
  lo_state :: int
  lo_data :: lcp_opt_data

text \<open>A received option: its bytes (\<^verbatim>\<open>hdr\<close> and \<^verbatim>\<open>len\<close>), its state and whether an option matched it.\<close>

record recv_opt =
  ro_hdr :: bytes
  ro_state :: int
  ro_lopt :: bool

record ppp_lcp =
  lcp_fsm :: ppp_fsm
  lcp_opts :: "lcp_option list"
  lcp_echo_timer :: bool
  lcp_echo_sent :: int
  lcp_magic :: u32
  lcp_last_ipackets :: u64
  lcp_last_echo_ts :: int
  lcp_ropt_list :: "recv_opt list"
  lcp_ropt_len :: int
  lcp_conf_req_len :: int
  lcp_started :: bool

section \<open>Authentication layer\<close>

record auth_data =
  ad_handler :: nat
  ad_proto :: u16
  ad_state :: int
  ad_len :: int

record auth_option =
  ao_list :: "auth_data list"
  ao_auth :: "nat option" \<comment> \<open>index into \<open>ao_list\<close>\<close>
  ao_started :: bool

text \<open>
  \<^verbatim>\<open>struct ppp_auth_handler_t\<close>: the protocol number and option data length its \<^verbatim>\<open>init\<close> sets and
  the bytes its \<^verbatim>\<open>send_conf_req\<close> writes.
\<close>

record auth_handler =
  ah_proto :: u16
  ah_len :: int
  ah_conf_req :: bytes
  ah_restart :: bool

section \<open>Connections\<close>

record ppp_conn =
  c_fd :: int
  c_chan_fd :: int
  c_unit_fd :: int
  c_chan_hnd :: bool \<comment> \<open>\<^verbatim>\<open>chan_hnd\<close> is registered\<close>
  c_unit_hnd :: bool \<comment> \<open>\<^verbatim>\<open>unit_hnd\<close> is registered\<close>
  c_mtu :: int
  c_mru :: int
  c_buf :: bytes \<comment> \<open>\<^verbatim>\<open>buf\<close>, as far as \<^verbatim>\<open>buf_size\<close>\<close>
  c_chan_handlers :: "u16 list"
  c_unit_handlers :: "u16 list"
  c_layers :: "ppp_layer_data list list"
  c_lcp :: ppp_lcp
  c_auth :: auth_option
  c_out :: "bytes list" \<comment> \<open>frames written to the channel\<close>
  c_random :: "u32 list" \<comment> \<open>the values \<^verbatim>\<open>random()\<close> returns next\<close>
  c_comp_prot :: bool \<comment> \<open>\<^verbatim>\<open>SC_COMP_PROT\<close> and \<^verbatim>\<open>SC_COMP_AC\<close> of the channel\<close>
  c_comp_ac :: bool

record ppp_world = ap_world +
  conns :: "sid \<Rightarrow> ppp_conn"
  uc_list :: "(int \<times> int) list" \<comment> \<open>cached units: descriptor and index\<close>
  broken :: bool \<comment> \<open>a null pointer was used, memory outside a packet read, or a call cut off by the nesting bound\<close>
  starved :: bool \<comment> \<open>the given random numbers were used up\<close>

definition upd_conn :: "sid \<Rightarrow> (ppp_conn \<Rightarrow> ppp_conn) \<Rightarrow> ppp_world \<Rightarrow> ppp_world" where
  "upd_conn s f w = w\<lparr>conns := (conns w)(s := f (conns w s))\<rparr>"

definition upd_lcp :: "sid \<Rightarrow> (ppp_lcp \<Rightarrow> ppp_lcp) \<Rightarrow> ppp_world \<Rightarrow> ppp_world" where
  "upd_lcp s f = upd_conn s (\<lambda>c. c\<lparr>c_lcp := f (c_lcp c)\<rparr>)"

definition upd_auth :: "sid \<Rightarrow> (auth_option \<Rightarrow> auth_option) \<Rightarrow> ppp_world \<Rightarrow> ppp_world" where
  "upd_auth s f = upd_conn s (\<lambda>c. c\<lparr>c_auth := f (c_auth c)\<rparr>)"

abbreviation lcp_of :: "ppp_world \<Rightarrow> sid \<Rightarrow> ppp_lcp" where "lcp_of w s \<equiv> c_lcp (conns w s)"
abbreviation auth_of :: "ppp_world \<Rightarrow> sid \<Rightarrow> auth_option" where "auth_of w s \<equiv> c_auth (conns w s)"

section \<open>Environment\<close>

text \<open>The answers of the kernel to the calls of \<^verbatim>\<open>ppp.c\<close>; \<open>None\<close>, \<open>False\<close> or a negative descriptor is an error.\<close>

record ppp_kernel =
  k_getchan :: bool
  k_open_chan :: int
  k_attach :: bool
  k_open_unit :: int
  k_newunit :: "int option"
  k_nonblock :: bool
  k_connect :: bool
  k_ifindex :: "int option"
  k_rename :: bool
  k_set_mtu :: bool
  k_set_unit_mru :: bool
  k_set_chan_mru :: bool
  k_flags :: bool

record ppp_conf =
  conf_fsm :: fsm_conf
  conf_unit_cache :: int
  conf_unit_preallocate :: int
  conf_echo_interval :: int
  conf_echo_failure :: int
  conf_echo_timeout :: int
  conf_mtu :: int
  conf_mru :: int
  conf_min_mtu :: int
  conf_max_mtu :: int
  conf_pcomp :: u32
  conf_accomp :: u32
  conf_noauth :: int
  conf_ctrl_max_mtu :: int \<comment> \<open>\<^verbatim>\<open>ses.ctrl->max_mtu\<close>\<close>

record ppp_env =
  pe_conf :: ppp_conf
  pe_kernel :: ppp_kernel
  pe_ses :: "ppp_world ses_env"
  pe_stack_garbage :: u64 \<comment> \<open>what an uninitialised local variable holds\<close>
  pe_auth_handlers :: "auth_handler list"
  pe_terminate :: "sid \<Rightarrow> term_cause \<Rightarrow> bool \<Rightarrow> ppp_world \<Rightarrow> ppp_world"
  pe_layer_started :: "layer_id \<Rightarrow> sid \<Rightarrow> ppp_world \<Rightarrow> ppp_world"
  pe_layer_finished :: "layer_id \<Rightarrow> sid \<Rightarrow> ppp_world \<Rightarrow> ppp_world"
  pe_layer_init :: "layer_id \<Rightarrow> sid \<Rightarrow> ppp_world \<Rightarrow> (ppp_world \<times> bool \<times> bool) option"
    \<comment> \<open>with the flags \<^verbatim>\<open>passive\<close> and \<^verbatim>\<open>optional\<close> of the new layer data\<close>
  pe_layer_start :: "layer_id \<Rightarrow> sid \<Rightarrow> ppp_world \<Rightarrow> ppp_world \<times> bool" \<comment> \<open>the flag: it failed\<close>
  pe_layer_finish :: "layer_id \<Rightarrow> sid \<Rightarrow> ppp_world \<Rightarrow> ppp_world"
  pe_layer_free :: "layer_id \<Rightarrow> sid \<Rightarrow> ppp_world \<Rightarrow> ppp_world"
  pe_recv :: "u16 \<Rightarrow> sid \<Rightarrow> ppp_world \<Rightarrow> ppp_world"
  pe_recv_proto_rej :: "u16 \<Rightarrow> sid \<Rightarrow> ppp_world \<Rightarrow> ppp_world"
  pe_auth_start :: "nat \<Rightarrow> sid \<Rightarrow> ppp_world \<Rightarrow> ppp_world"
  pe_auth_finish :: "nat \<Rightarrow> sid \<Rightarrow> ppp_world \<Rightarrow> ppp_world"
  pe_auth_restart :: "nat \<Rightarrow> sid \<Rightarrow> ppp_world \<Rightarrow> ppp_world \<times> bool"

abbreviation (input) PPP_LCP :: u16 where "PPP_LCP \<equiv> 0xc021"
abbreviation (input) PPP_PAP :: u16 where "PPP_PAP \<equiv> 0xc023"
abbreviation (input) PPP_CHAP :: u16 where "PPP_CHAP \<equiv> 0xc223"
abbreviation (input) PPP_MTU :: int where "PPP_MTU \<equiv> 1500"

lemma upd_conn_conns [simp]:
  "conns (upd_conn s f w) = (conns w)(s := f (conns w s))"
  "sessions (upd_conn s f w) = sessions w" "ses_list (upd_conn s f w) = ses_list w"
  "stat_starting (upd_conn s f w) = stat_starting w" "stat_active (upd_conn s f w) = stat_active w"
  "stat_finishing (upd_conn s f w) = stat_finishing w" "ap_shutdown (upd_conn s f w) = ap_shutdown w"
  by (simp_all add: upd_conn_def)

end
