(* ===== verification/PppChannel.thy ===== *)
theory PppChannel
  imports PppState
begin

text \<open>
  The connection code of \<^verbatim>\<open>accel-pppd/ppp/ppp.c\<close>: establishing a connection, connecting the kernel unit,
  reading frames, the ordered start and finish of the layers, and taking a connection
  down. Network namespaces are not modelled. A layer's data are found by the layer's name in the connection's list of nodes;
  loops over a node visit the layers that were in it when the loop began.
\<close>

section \<open>Sending\<close>

definition ppp_chan_send :: "sid \<Rightarrow> bytes \<Rightarrow> ppp_world \<Rightarrow> ppp_world" where
  "ppp_chan_send s data = upd_conn s (\<lambda>c. c\<lparr>c_out := c_out c @ [data]\<rparr>)"

section \<open>The kernel unit\<close>

definition setup_ppp_mru :: "ppp_env \<Rightarrow> sid \<Rightarrow> ppp_world \<Rightarrow> bool" where
  \<comment> \<open>true if it fails\<close>
  "setup_ppp_mru E s w =
     (c_mtu (conns w s) \<noteq> 0 \<and> \<not> k_set_mtu (pe_kernel E) \<or>
      c_mru (conns w s) \<noteq> 0 \<and> (\<not> k_set_unit_mru (pe_kernel E) \<or> \<not> k_set_chan_mru (pe_kernel E)))"

definition close_unit :: "sid \<Rightarrow> ppp_world \<Rightarrow> ppp_world" where
  "close_unit s = upd_conn s (\<lambda>c. c\<lparr>c_unit_fd := -1\<rparr>)"

text \<open>A unit from the cache or a new one; \<open>Inl\<close> is the failure with the descriptor already closed or never opened.\<close>

definition open_unit :: "ppp_env \<Rightarrow> sid \<Rightarrow> ppp_world \<Rightarrow> ppp_world + ppp_world" where
  "open_unit E s w =
     (case uc_list w of
        (fd, idx) # rest \<Rightarrow>
          Inr (upd_conn s (\<lambda>c. c\<lparr>c_unit_fd := fd\<rparr>) (upd_ses s (\<lambda>ses. ses\<lparr>ses_unit_idx := idx\<rparr>) (w\<lparr>uc_list := rest\<rparr>)))
      | [] \<Rightarrow>
          let w = upd_conn s (\<lambda>c. c\<lparr>c_unit_fd := k_open_unit (pe_kernel E)\<rparr>) w
          in if k_open_unit (pe_kernel E) < 0 then Inl w
             else case k_newunit (pe_kernel E) of
               None \<Rightarrow> Inl (close_unit s w)
             | Some idx \<Rightarrow>
                 let w = upd_ses s (\<lambda>ses. ses\<lparr>ses_unit_idx := idx\<rparr>) w
                 in if \<not> k_nonblock (pe_kernel E) then Inl (close_unit s w) else Inr w)"

definition connect_ppp_channel :: "ppp_env \<Rightarrow> sid \<Rightarrow> ppp_world \<Rightarrow> ppp_world \<times> bool" where
  \<comment> \<open>the flag: it failed\<close>
  "connect_ppp_channel E s w =
     (if c_unit_fd (conns w s) \<noteq> -1 then
        (if setup_ppp_mru E s w then (close_unit s w, True) else (w, False))
      else
        case open_unit E s w of
          Inl w \<Rightarrow> (w, True)
        | Inr w \<Rightarrow>
            if \<not> k_connect (pe_kernel E) then (close_unit s w, True)
            else
              let w = upd_ses s (\<lambda>ses. ses\<lparr>ses_ifname := ''ppp'' @ show_int (ses_unit_idx ses)\<rparr>) w
              in case k_ifindex (pe_kernel E) of
                None \<Rightarrow> (close_unit s w, True)
              | Some i \<Rightarrow>
                  (upd_conn s (\<lambda>c. c\<lparr>c_unit_hnd := True\<rparr>)
                     (ap_session_set_ifindex (pe_ses E) s (upd_ses s (\<lambda>ses. ses\<lparr>ses_ifindex := i\<rparr>) w)), False))"

section \<open>Layers\<close>

definition get_layer_order :: "layer_id \<Rightarrow> nat" where
  "get_layer_order l = (case l of L_LCP \<Rightarrow> 0 | L_AUTH \<Rightarrow> 1 | L_CCP \<Rightarrow> 2 | L_IPCP \<Rightarrow> 2 | L_IPV6CP \<Rightarrow> 2)"

text \<open>The global list of registered layers, in nodes of the same order.\<close>

type_synonym layer_nodes = "(nat \<times> layer_id list) list"

fun ppp_register_layer :: "layer_id \<Rightarrow> layer_nodes \<Rightarrow> layer_nodes" where
  "ppp_register_layer l [] = [(get_layer_order l, [l])]"
| "ppp_register_layer l ((ord, items) # ns) =
     (if get_layer_order l > ord then (ord, items) # ppp_register_layer l ns
      else if get_layer_order l < ord then (get_layer_order l, [l]) # (ord, items) # ns
      else (ord, items @ [l]) # ns)"

definition layer_data0 :: "layer_id \<Rightarrow> ppp_layer_data" where
  "layer_data0 l = \<lparr>ld_layer = l, ld_passive = False, ld_optional = False, ld_starting = False,
     ld_started = False, ld_finished = False\<rparr>"

definition upd_layer :: "sid \<Rightarrow> layer_id \<Rightarrow> (ppp_layer_data \<Rightarrow> ppp_layer_data) \<Rightarrow> ppp_world \<Rightarrow> ppp_world" where
  "upd_layer s l f = upd_conn s (\<lambda>c. c\<lparr>c_layers := map (map (\<lambda>d. if ld_layer d = l then f d else d)) (c_layers c)\<rparr>)"

definition ppp_find_layer_data :: "ppp_conn \<Rightarrow> layer_id \<Rightarrow> ppp_layer_data option" where
  "ppp_find_layer_data c l = find (\<lambda>d. ld_layer d = l) (concat (c_layers c))"

fun free_layer_list :: "ppp_env \<Rightarrow> sid \<Rightarrow> layer_id list \<Rightarrow> ppp_world \<Rightarrow> ppp_world" where
  "free_layer_list E s [] w = w"
| "free_layer_list E s (l # ls) w =
     free_layer_list E s ls (pe_layer_free E l s
       (upd_conn s (\<lambda>c. c\<lparr>c_layers := map (filter (\<lambda>d. ld_layer d \<noteq> l)) (c_layers c)\<rparr>) w))"

definition free_layers :: "ppp_env \<Rightarrow> sid \<Rightarrow> ppp_world \<Rightarrow> ppp_world" where
  "free_layers E s w =
     upd_conn s (\<lambda>c. c\<lparr>c_layers := []\<rparr>)
       (free_layer_list E s (map ld_layer (concat (c_layers (conns w s)))) w)"

text \<open>\<^verbatim>\<open>init_layers\<close>: the layers of one node, then the nodes; \<open>None\<close> if a layer cannot be initialised.\<close>

fun init_node :: "ppp_env \<Rightarrow> sid \<Rightarrow> layer_id list \<Rightarrow> ppp_world \<Rightarrow> ppp_world + ppp_world" where
  "init_node E s [] w = Inr w"
| "init_node E s (l # ls) w =
     (case pe_layer_init E l s w of
        None \<Rightarrow> Inl w
      | Some (w, passive, optional) \<Rightarrow>
          let d = (layer_data0 l)\<lparr>ld_passive := passive, ld_optional := optional\<rparr>
          in init_node E s ls (upd_conn s (\<lambda>c. c\<lparr>c_layers := butlast (c_layers c) @ [last (c_layers c) @ [d]]\<rparr>) w))"

fun init_layers :: "ppp_env \<Rightarrow> sid \<Rightarrow> layer_nodes \<Rightarrow> ppp_world \<Rightarrow> ppp_world + ppp_world" where
  "init_layers E s [] w = Inr w"
| "init_layers E s ((_, items) # ns) w =
     (case init_node E s items (upd_conn s (\<lambda>c. c\<lparr>c_layers := c_layers c @ [[]]\<rparr>) w) of
        Inl w \<Rightarrow> Inl (free_layers E s w)
      | Inr w \<Rightarrow> init_layers E s ns w)"

text \<open>The loop that starts the layers of a node, in \<^verbatim>\<open>start_first_layer\<close> and in \<^verbatim>\<open>__ppp_layer_started\<close>.\<close>

fun start_layers :: "ppp_env \<Rightarrow> sid \<Rightarrow> layer_id list \<Rightarrow> ppp_world \<Rightarrow> ppp_world" where
  "start_layers E s [] w = w"
| "start_layers E s (l # ls) w =
     (case pe_layer_start E l s (upd_layer s l (\<lambda>d. d\<lparr>ld_starting := True\<rparr>) w) of
        (w, True) \<Rightarrow> pe_terminate E s TERM_NAS_ERROR False w
      | (w, False) \<Rightarrow> start_layers E s ls w)"

definition start_first_layer :: "ppp_env \<Rightarrow> sid \<Rightarrow> ppp_world \<Rightarrow> ppp_world" where
  "start_first_layer E s w =
     (case c_layers (conns w s) of [] \<Rightarrow> w | n # _ \<Rightarrow> start_layers E s (map ld_layer n) w)"

fun split_at_layer :: "layer_id \<Rightarrow> ppp_layer_data list list \<Rightarrow> (ppp_layer_data list \<times> ppp_layer_data list list) option" where
  "split_at_layer l [] = None"
| "split_at_layer l (n # ns) = (if l \<in> ld_layer ` set n then Some (n, ns) else split_at_layer l ns)"

definition layer_started_check :: "ppp_env \<Rightarrow> layer_id \<Rightarrow> sid \<Rightarrow> ppp_world \<Rightarrow> ppp_world" where
  \<comment> \<open>\<^verbatim>\<open>__ppp_layer_started\<close>\<close>
  "layer_started_check E l s w =
     (case split_at_layer l (c_layers (conns w s)) of
        None \<Rightarrow> w
      | Some (n, rest) \<Rightarrow>
          if list_ex (\<lambda>d. \<not> ld_started d \<and> \<not> ld_passive d) n then w
          else if \<not> list_ex (\<lambda>d. ld_started d \<and> \<not> ld_optional d) n then w
          else case rest of
            [] \<Rightarrow> if ses_state (sessions w s) = AP_STATE_STARTING then ap_session_activate (pe_ses E) s w else w
          | n' # _ \<Rightarrow> start_layers E s (map ld_layer n') w)"

definition layer_flag :: "(ppp_layer_data \<Rightarrow> bool) \<Rightarrow> layer_id \<Rightarrow> ppp_conn \<Rightarrow> bool" where
  "layer_flag f l c = (case ppp_find_layer_data c l of None \<Rightarrow> False | Some d \<Rightarrow> f d)"

definition ppp_layer_started :: "ppp_env \<Rightarrow> layer_id \<Rightarrow> sid \<Rightarrow> ppp_world \<Rightarrow> ppp_world" where
  "ppp_layer_started E l s w =
     (if layer_flag ld_started l (conns w s) then w
      else layer_started_check E l s (upd_layer s l (\<lambda>d. d\<lparr>ld_started := True\<rparr>) w))"

definition ppp_layer_passive :: "ppp_env \<Rightarrow> layer_id \<Rightarrow> sid \<Rightarrow> ppp_world \<Rightarrow> ppp_world" where
  "ppp_layer_passive E l s w =
     (if layer_flag ld_started l (conns w s) then w
      else layer_started_check E l s (upd_layer s l (\<lambda>d. d\<lparr>ld_passive := True\<rparr>) w))"

section \<open>Taking a connection down\<close>

definition destroy_ppp_channel :: "ppp_env \<Rightarrow> sid \<Rightarrow> ppp_world \<Rightarrow> ppp_world" where
  "destroy_ppp_channel E s w =
     upd_conn s (\<lambda>c. c\<lparr>c_buf := []\<rparr>)
       (free_layers E s (upd_conn s (\<lambda>c. c\<lparr>c_chan_hnd := False, c_fd := -1, c_chan_fd := -1\<rparr>) w))"

definition destablish_ppp :: "ppp_env \<Rightarrow> sid \<Rightarrow> ppp_world \<Rightarrow> ppp_world" where
  "destablish_ppp E s w =
     (if c_unit_fd (conns w s) < 0 then destroy_ppp_channel E s (ap_session_finished (pe_ses E) s w)
      else
        let ses = sessions w s;
            uc = (if conf_unit_cache (pe_conf E) \<noteq> 0 \<and>
                     (ses_ifname ses = ''ppp'' @ show_int (ses_unit_idx ses) \<or> k_rename (pe_kernel E))
                  then [(c_unit_fd (conns w s), ses_unit_idx ses)] else []);
            w = upd_conn s (\<lambda>c. c\<lparr>c_unit_hnd := False\<rparr>) w;
            w = ap_session_finished (pe_ses E) s w;
            w = upd_conn s (\<lambda>c. c\<lparr>c_unit_fd := -1\<rparr>) w;
            w = destroy_ppp_channel E s w
        in w\<lparr>uc_list := uc_list w @ uc\<rparr>)"

definition ppp_layer_finished :: "ppp_env \<Rightarrow> layer_id \<Rightarrow> sid \<Rightarrow> ppp_world \<Rightarrow> ppp_world" where
  "ppp_layer_finished E l s w =
     (let w = upd_layer s l (\<lambda>d. d\<lparr>ld_finished := True, ld_starting := False\<rparr>) w
      in if list_ex (\<lambda>d. ld_starting d \<and> \<not> ld_finished d) (concat (c_layers (conns w s))) then w
         else destablish_ppp E s w)"

text \<open>The loop of \<^verbatim>\<open>ppp_terminate\<close>: the flag tells whether some layer was starting.\<close>

fun finish_layers :: "ppp_env \<Rightarrow> sid \<Rightarrow> layer_id list \<Rightarrow> ppp_world \<Rightarrow> bool \<Rightarrow> ppp_world \<times> bool" where
  "finish_layers E s [] w f = (w, f)"
| "finish_layers E s (l # ls) w f =
     (if layer_flag ld_starting l (conns w s)
      then finish_layers E s ls (pe_layer_finish E l s w) True
      else finish_layers E s ls w f)"

definition ppp_terminate :: "ppp_env \<Rightarrow> sid \<Rightarrow> bool \<Rightarrow> ppp_world \<Rightarrow> ppp_world \<times> bool" where
  \<comment> \<open>the result: the layers are still finishing\<close>
  "ppp_terminate E s hard w =
     (if hard then (destablish_ppp E s w, False)
      else
        case finish_layers E s (map ld_layer (concat (c_layers (conns w s)))) w False of
          (w, True) \<Rightarrow> (w, True)
        | (w, False) \<Rightarrow> (destablish_ppp E s w, False))"

section \<open>Establishing a connection\<close>

definition ppp_conn0 :: ppp_conn where
  "ppp_conn0 =
     \<lparr>c_fd = -1, c_chan_fd = -1, c_unit_fd = -1, c_chan_hnd = False, c_unit_hnd = False, c_mtu = 0, c_mru = 0, c_buf = [],
      c_chan_handlers = [], c_unit_handlers = [], c_layers = [],
      c_lcp = \<lparr>lcp_fsm = \<lparr>fsm_state = FSM_Initial, restart_timer = False, restart_counter = 0, max_terminate = 0,
                 max_configure = 0, max_failure = 0, conf_failure = 0, fsm_id = 0, recv_id = 0\<rparr>,
               lcp_opts = [], lcp_echo_timer = False, lcp_echo_sent = 0, lcp_magic = 0, lcp_last_ipackets = 0,
               lcp_last_echo_ts = 0, lcp_ropt_list = [], lcp_ropt_len = 0, lcp_conf_req_len = 0, lcp_started = False\<rparr>,
      c_auth = \<lparr>ao_list = [], ao_auth = None, ao_started = False\<rparr>,
      c_out = [], c_random = [], c_comp_prot = False, c_comp_ac = False\<rparr>"

definition ppp_init :: "sid \<Rightarrow> u32 list \<Rightarrow> ppp_world \<Rightarrow> ppp_world" where
  "ppp_init s rnd w =
     upd_ses s (\<lambda>_. ap_session_init) (upd_conn s (\<lambda>_. ppp_conn0\<lparr>c_random := rnd\<rparr>) w)"

definition establish_ppp :: "ppp_env \<Rightarrow> layer_nodes \<Rightarrow> sid \<Rightarrow> ppp_world \<Rightarrow> ppp_world \<times> int" where
  "establish_ppp E nodes s w =
     (if ap_shutdown w then (w, -1)
      else if \<not> k_getchan (pe_kernel E) then (w, -1)
      else
        let w = upd_conn s (\<lambda>c. c\<lparr>c_chan_fd := k_open_chan (pe_kernel E)\<rparr>) w
        in if k_open_chan (pe_kernel E) < 0 then (w, -1)
           else if \<not> k_attach (pe_kernel E) then (w, -1)
           else case init_layers E s nodes w of
             Inl w \<Rightarrow> (w, -1)
           | Inr w \<Rightarrow>
               if c_layers (conns w s) = [] then (w, -1)
               else
                 case (if conf_unit_preallocate (pe_conf E) \<noteq> 0 then connect_ppp_channel E s w else (w, False)) of
                   (w, True) \<Rightarrow> (w, -1)
                 | (w, False) \<Rightarrow>
                     (case ap_session_starting (pe_ses E) s w of
                        (w, r) \<Rightarrow> if r \<noteq> 0 then (w, -1)
                                  else (start_first_layer E s (upd_conn s (\<lambda>c. c\<lparr>c_chan_hnd := True\<rparr>) w), 0)))"

section \<open>Reading frames\<close>

definition lcp_send_proto_rej :: "sid \<Rightarrow> u16 \<Rightarrow> ppp_world \<Rightarrow> ppp_world" where
  "lcp_send_proto_rej s proto w =
     (let w = upd_lcp s (\<lambda>l. l\<lparr>lcp_fsm := (lcp_fsm l)\<lparr>fsm_id := fsm_id (lcp_fsm l) + 1\<rparr>\<rparr>) w
      in ppp_chan_send s (u_write_be16 PPP_LCP @ [8, fsm_id (lcp_fsm (lcp_of w s))] @ u_write_be16 6 @ u_write_be16 proto) w)"

definition ppp_recv_proto_rej :: "ppp_env \<Rightarrow> u16 \<Rightarrow> sid \<Rightarrow> ppp_world \<Rightarrow> ppp_world" where
  "ppp_recv_proto_rej E proto s w =
     (if proto \<in> set (c_chan_handlers (conns w s)) then pe_recv_proto_rej E proto s w
      else if proto \<in> set (c_unit_handlers (conns w s)) then pe_recv_proto_rej E proto s w
      else w)"

text \<open>What \<^verbatim>\<open>net->read\<close> returns: an error, \<^verbatim>\<open>EAGAIN\<close>, or bytes (none at end of file).\<close>

datatype read_result = ReadError | ReadAgain | ReadData bytes

text \<open>
  \<^verbatim>\<open>ppp_chan_read\<close> over the results of its successive reads; the result tells whether the
  handler asked to be dropped. The loop ends with \<^verbatim>\<open>EAGAIN\<close>, an empty read or an error; the
  list stands for the reads up to there.
\<close>

fun ppp_chan_read :: "ppp_env \<Rightarrow> sid \<Rightarrow> read_result list \<Rightarrow> ppp_world \<Rightarrow> ppp_world \<times> int" where
  "ppp_chan_read E s [] w = (upd_conn s (\<lambda>c. c\<lparr>c_buf := []\<rparr>) w, 0)"
| "ppp_chan_read E s (ReadError # rs) w = (pe_terminate E s TERM_NAS_ERROR True w, 1)"
| "ppp_chan_read E s (ReadAgain # rs) w = (upd_conn s (\<lambda>c. c\<lparr>c_buf := []\<rparr>) w, 0)"
| "ppp_chan_read E s (ReadData bs # rs) w =
     (if bs = [] then (upd_conn s (\<lambda>c. c\<lparr>c_buf := []\<rparr>) w, 0)
      else
        let w = upd_conn s (\<lambda>c. c\<lparr>c_buf := bs\<rparr>) w
        in if length bs < 2 then ppp_chan_read E s rs w
           else if u_read_be16 bs \<in> set (c_chan_handlers (conns w s)) then
             (let w = pe_recv E (u_read_be16 bs) s w
              in if c_fd (conns w s) = -1 then (w, 1) else ppp_chan_read E s rs w)
           else if u_read_be16 bs \<in> set (c_unit_handlers (conns w s)) then ppp_chan_read E s rs w
           else ppp_chan_read E s rs (lcp_send_proto_rej s (u_read_be16 bs) w))"

fun ppp_unit_read :: "ppp_env \<Rightarrow> sid \<Rightarrow> read_result list \<Rightarrow> ppp_world \<Rightarrow> ppp_world \<times> int" where
  "ppp_unit_read E s [] w = (upd_conn s (\<lambda>c. c\<lparr>c_buf := []\<rparr>) w, 0)"
| "ppp_unit_read E s (ReadError # rs) w = (pe_terminate E s TERM_NAS_ERROR True w, 1)"
| "ppp_unit_read E s (ReadAgain # rs) w = (upd_conn s (\<lambda>c. c\<lparr>c_buf := []\<rparr>) w, 0)"
| "ppp_unit_read E s (ReadData bs # rs) w =
     (if bs = [] then (upd_conn s (\<lambda>c. c\<lparr>c_buf := []\<rparr>) w, 0)
      else
        let w = upd_conn s (\<lambda>c. c\<lparr>c_buf := bs\<rparr>) w
        in if length bs < 2 then ppp_unit_read E s rs w
           else if u_read_be16 bs \<in> set (c_unit_handlers (conns w s)) then
             (let w = pe_recv E (u_read_be16 bs) s w
              in if c_fd (conns w s) = -1 then (w, 1) else ppp_unit_read E s rs w)
           else ppp_unit_read E s rs (lcp_send_proto_rej s (u_read_be16 bs) w))"

end
