(* ===== verification/LcpOptions.thy ===== *)
theory LcpOptions
  imports PppChannel
begin

text \<open>
  The LCP option handlers: \<^verbatim>\<open>lcp_opt_mru.c\<close>, \<^verbatim>\<open>lcp_opt_magic.c\<close>, \<^verbatim>\<open>lcp_opt_pcomp.c\<close>,
  \<^verbatim>\<open>lcp_opt_accomp.c\<close> and the option part of \<^verbatim>\<open>ppp_auth.c\<close>, and the dispatch through
  \<^verbatim>\<open>struct lcp_option_handler_t\<close>. A handler gets the option by value and returns it updated.
  The bytes it writes to the packet are returned; a received option is given as its bytes, of
  which there are as many as its length field says.
\<close>

datatype opt_kind = KMru | KMagic | KPcomp | KAccomp | KAuth

abbreviation (input) CI_MRU :: u8 where "CI_MRU \<equiv> 1"
abbreviation (input) CI_AUTH :: u8 where "CI_AUTH \<equiv> 3"
abbreviation (input) CI_MAGIC :: u8 where "CI_MAGIC \<equiv> 5"
abbreviation (input) CI_PCOMP :: u8 where "CI_PCOMP \<equiv> 7"
abbreviation (input) CI_ACCOMP :: u8 where "CI_ACCOMP \<equiv> 8"

definition opt_len :: "bytes \<Rightarrow> u8" where
  "opt_len hdr = hdr ! 1"

definition break_world :: "ppp_world \<Rightarrow> ppp_world" where
  "break_world w = w\<lparr>broken := True\<rparr>"

definition starve_world :: "ppp_world \<Rightarrow> ppp_world" where
  "starve_world w = w\<lparr>starved := True\<rparr>"

section \<open>Maximum receive unit\<close>

definition mru_limit :: "ppp_conf \<Rightarrow> int \<Rightarrow> int" where
  "mru_limit cf conf =
     (let m = (if conf \<noteq> 0 \<and> conf \<le> conf_ctrl_max_mtu cf then conf else conf_ctrl_max_mtu cf)
      in if m > conf_max_mtu cf then conf_max_mtu cf else m)"

definition mru_init :: "ppp_env \<Rightarrow> sid \<Rightarrow> ppp_world \<Rightarrow> lcp_option \<times> ppp_world" where
  "mru_init E s w =
     (let cf = pe_conf E;
          o' = \<lparr>mo_mru = mru_limit cf (conf_mru cf), mo_mtu = mru_limit cf (conf_mtu cf), mo_naked = False, mo_rejected = False\<rparr>
      in (\<lparr>lo_id = CI_MRU, lo_len = 4, lo_state = LCP_OPT_NONE, lo_data = MruOpt o'\<rparr>,
          upd_conn s (\<lambda>c. c\<lparr>c_mru := PPP_MTU, c_mtu := mo_mtu o'\<rparr>) w))"

definition mru_send_conf_req :: "mru_option \<Rightarrow> bytes" where
  "mru_send_conf_req o' =
     (if mo_naked o' \<or> mo_rejected o' then [] else [CI_MRU, 4] @ u_write_be16 (word_of_int (mo_mru o')))"

definition mru_send_conf_nak :: "mru_option \<Rightarrow> bytes" where
  "mru_send_conf_nak o' = [CI_MRU, 4] @ u_write_be16 (word_of_int (mo_mtu o'))"

definition mru_recv_conf_req :: "ppp_env \<Rightarrow> sid \<Rightarrow> mru_option \<Rightarrow> bytes \<Rightarrow> ppp_world \<Rightarrow> mru_option \<times> ppp_world \<times> int" where
  "mru_recv_conf_req E s o' hdr w =
     (if opt_len hdr \<noteq> 4 then (o', w, LCP_OPT_REJ)
      else
        let val = uint (u_read_be16 (drop 2 hdr))
        in if val < conf_min_mtu (pe_conf E) \<or> val > conf_ctrl_max_mtu (pe_conf E) \<or> val > conf_max_mtu (pe_conf E)
           then (o', w, LCP_OPT_NAK)
           else (o'\<lparr>mo_mtu := val\<rparr>, upd_conn s (\<lambda>c. c\<lparr>c_mtu := val\<rparr>) w, LCP_OPT_ACK))"

definition mru_recv_conf_ack :: "sid \<Rightarrow> mru_option \<Rightarrow> ppp_world \<Rightarrow> ppp_world" where
  "mru_recv_conf_ack s o' = upd_conn s (\<lambda>c. c\<lparr>c_mru := mo_mru o'\<rparr>)"

definition mru_recv_conf_nak :: "mru_option \<Rightarrow> mru_option" where
  "mru_recv_conf_nak o' = o'\<lparr>mo_naked := True\<rparr>"

definition mru_recv_conf_rej :: "mru_option \<Rightarrow> mru_option" where
  "mru_recv_conf_rej o' = o'\<lparr>mo_rejected := True\<rparr>"

section \<open>Magic number\<close>

fun nzmagic :: "u32 list \<Rightarrow> u32 \<Rightarrow> (u32 \<times> u32 list) option" where
  "nzmagic [] old = None"
| "nzmagic (m # ms) old = (if m = old \<or> m = 0 then nzmagic ms old else Some (m, ms))"

definition draw_magic :: "sid \<Rightarrow> u32 \<Rightarrow> ppp_world \<Rightarrow> u32 \<times> ppp_world" where
  "draw_magic s old w =
     (case nzmagic (c_random (conns w s)) old of
        None \<Rightarrow> (0, starve_world w)
      | Some (m, rest) \<Rightarrow> (m, upd_conn s (\<lambda>c. c\<lparr>c_random := rest\<rparr>) w))"

definition magic_init :: "sid \<Rightarrow> ppp_world \<Rightarrow> lcp_option \<times> ppp_world" where
  "magic_init s w =
     (let (m, w) = draw_magic s 0 w
      in (\<lparr>lo_id = CI_MAGIC, lo_len = 6, lo_state = LCP_OPT_NONE, lo_data = MagicOpt m\<rparr>,
          upd_lcp s (\<lambda>l. l\<lparr>lcp_magic := m\<rparr>) w))"

definition magic_send_conf_req :: "u32 \<Rightarrow> bytes" where
  "magic_send_conf_req m = (if m = 0 then [] else [CI_MAGIC, 6] @ u_write_be32 m)"

definition magic_send_conf_nak :: "sid \<Rightarrow> u32 \<Rightarrow> ppp_world \<Rightarrow> ppp_world \<times> bytes" where
  "magic_send_conf_nak s m w = (let (m', w) = draw_magic s m w in (w, [CI_MAGIC, 6] @ u_write_be32 m'))"

definition magic_recv_conf_req :: "u32 \<Rightarrow> bytes \<Rightarrow> int" where
  "magic_recv_conf_req m hdr =
     (if opt_len hdr \<noteq> 6 then LCP_OPT_REJ
      else if m \<noteq> 0 \<and> m = u_read_be32 (drop 2 hdr) then LCP_OPT_NAK
      else LCP_OPT_ACK)"

definition magic_recv_conf_rej :: "sid \<Rightarrow> ppp_world \<Rightarrow> u32 \<times> ppp_world" where
  "magic_recv_conf_rej s w = (0, upd_lcp s (\<lambda>l. l\<lparr>lcp_magic := 0\<rparr>) w)"

definition magic_recv_conf_nak :: "sid \<Rightarrow> u32 \<Rightarrow> bytes \<Rightarrow> ppp_world \<Rightarrow> u32 \<times> ppp_world \<times> bool" where
  \<comment> \<open>the flag: it failed\<close>
  "magic_recv_conf_nak s m hdr w =
     (if opt_len hdr \<noteq> 6 then (m, w, True)
      else
        let val = u_read_be32 (drop 2 hdr)
        in if m \<noteq> 0 \<and> m = val then (m, w, True)
           else
             let (m', w) = (if val \<noteq> 0 then (val, w) else draw_magic s m w)
             in (m', upd_lcp s (\<lambda>l. l\<lparr>lcp_magic := m'\<rparr>) w, False))"

section \<open>Protocol field compression\<close>

definition pcomp_init :: "ppp_env \<Rightarrow> lcp_option" where
  "pcomp_init E =
     \<lparr>lo_id = CI_PCOMP, lo_len = 2, lo_state = LCP_OPT_NONE, lo_data = PcompOpt (conf_pcomp (pe_conf E))\<rparr>"

definition pcomp_send_conf_req :: "u32 \<Rightarrow> bytes" where
  "pcomp_send_conf_req v = (if v AND 1 \<noteq> 0 then [CI_PCOMP, 2] else [])"

definition pcomp_recv_conf_req :: "u32 \<Rightarrow> bytes \<Rightarrow> int" where
  "pcomp_recv_conf_req v hdr =
     (if opt_len hdr \<noteq> 2 then LCP_OPT_REJ else if v AND 2 \<noteq> 0 then LCP_OPT_ACK else LCP_OPT_REJ)"

definition pcomp_recv_conf_rej :: "u32 \<Rightarrow> u32" where
  "pcomp_recv_conf_rej v = v AND NOT 1"

definition pcomp_recv_conf_nak :: "u32 \<Rightarrow> bytes \<Rightarrow> u32 \<times> bool" where
  \<comment> \<open>the flag: it failed\<close>
  "pcomp_recv_conf_nak v hdr = (if opt_len hdr \<noteq> 2 then (v, True) else (pcomp_recv_conf_rej v, False))"

definition pcomp_recv_conf_ack :: "ppp_env \<Rightarrow> sid \<Rightarrow> u32 \<Rightarrow> ppp_world \<Rightarrow> ppp_world \<times> bool" where
  "pcomp_recv_conf_ack E s v w =
     (if \<not> k_flags (pe_kernel E) then (w, True)
      else (upd_conn s (\<lambda>c. c\<lparr>c_comp_prot := (v AND 1 \<noteq> 0)\<rparr>) w, False))"

section \<open>Address and control field compression\<close>

definition accomp_init :: "ppp_env \<Rightarrow> lcp_option" where
  "accomp_init E =
     \<lparr>lo_id = CI_ACCOMP, lo_len = 2, lo_state = LCP_OPT_NONE, lo_data = AccompOpt (conf_accomp (pe_conf E))\<rparr>"

definition accomp_send_conf_req :: "u32 \<Rightarrow> bytes" where
  "accomp_send_conf_req v = (if v AND 1 \<noteq> 0 then [CI_ACCOMP, 2] else [])"

definition accomp_recv_conf_req :: "u32 \<Rightarrow> bytes \<Rightarrow> int" where
  "accomp_recv_conf_req v hdr =
     (if opt_len hdr \<noteq> 2 then LCP_OPT_REJ else if v AND 2 \<noteq> 0 then LCP_OPT_ACK else LCP_OPT_REJ)"

definition accomp_recv_conf_rej :: "u32 \<Rightarrow> u32" where
  "accomp_recv_conf_rej v = v AND NOT 1"

definition accomp_recv_conf_nak :: "u32 \<Rightarrow> bytes \<Rightarrow> u32 \<times> bool" where
  \<comment> \<open>the flag: it failed\<close>
  "accomp_recv_conf_nak v hdr = (if opt_len hdr \<noteq> 2 then (v, True) else (accomp_recv_conf_rej v, False))"

definition accomp_recv_conf_ack :: "ppp_env \<Rightarrow> sid \<Rightarrow> u32 \<Rightarrow> ppp_world \<Rightarrow> ppp_world \<times> bool" where
  "accomp_recv_conf_ack E s v w =
     (if \<not> k_flags (pe_kernel E) then (w, True)
      else (upd_conn s (\<lambda>c. c\<lparr>c_comp_ac := (v AND 1 \<noteq> 0)\<rparr>) w, False))"

section \<open>Authentication\<close>

definition auth_init :: "ppp_env \<Rightarrow> sid \<Rightarrow> ppp_world \<Rightarrow> lcp_option \<times> ppp_world" where
  "auth_init E s w =
     (let hs = (if conf_noauth (pe_conf E) \<noteq> 0 then [] else pe_auth_handlers E);
          ds = map (\<lambda>i. \<lparr>ad_handler = i, ad_proto = ah_proto (hs ! i), ad_state = LCP_OPT_NONE, ad_len = ah_len (hs ! i)\<rparr>)
                 [0..<length hs]
      in (\<lparr>lo_id = CI_AUTH, lo_len = 4 + fold (\<lambda>d m. if m < ad_len d then ad_len d else m) ds 0,
           lo_state = LCP_OPT_NONE, lo_data = AuthOpt\<rparr>,
          upd_auth s (\<lambda>a. a\<lparr>ao_list := ds\<rparr>) w))"

fun first_usable :: "auth_data list \<Rightarrow> nat \<Rightarrow> nat option" where
  "first_usable [] i = None"
| "first_usable (d # ds) i =
     (if ad_state d = LCP_OPT_NAK \<or> ad_state d = LCP_OPT_REJ then first_usable ds (Suc i) else Some i)"

definition auth_choose :: "auth_option \<Rightarrow> auth_option" where
  "auth_choose a =
     (case ao_auth a of
        Some i \<Rightarrow>
          if ad_state (ao_list a ! i) = LCP_OPT_NAK
          then (case first_usable (ao_list a) 0 of None \<Rightarrow> a | Some j \<Rightarrow> a\<lparr>ao_auth := Some j\<rparr>)
          else a
      | None \<Rightarrow> (case first_usable (ao_list a) 0 of None \<Rightarrow> a | Some j \<Rightarrow> a\<lparr>ao_auth := Some j\<rparr>))"

definition auth_send_conf_req :: "ppp_env \<Rightarrow> sid \<Rightarrow> ppp_world \<Rightarrow> ppp_world \<times> bytes" where
  "auth_send_conf_req E s w =
     (if ao_list (auth_of w s) = [] \<or> conf_noauth (pe_conf E) \<noteq> 0 then (w, [])
      else
        let w = upd_auth s auth_choose w
        in case ao_auth (auth_of w s) of
          None \<Rightarrow> (break_world w, [])
        | Some i \<Rightarrow>
            let d = ao_list (auth_of w s) ! i;
                body = ah_conf_req (pe_auth_handlers E ! ad_handler d)
            in (w, [CI_AUTH, of_nat (4 + length body)] @ u_write_be16 (ad_proto d) @ body))"

definition auth_recv_conf_nak :: "sid \<Rightarrow> ppp_world \<Rightarrow> ppp_world \<times> bool" where
  \<comment> \<open>the flag: negotiation failed\<close>
  "auth_recv_conf_nak s w =
     (case ao_auth (auth_of w s) of
        None \<Rightarrow> (w, True)
      | Some i \<Rightarrow>
          let w = upd_auth s (\<lambda>a. a\<lparr>ao_list := (ao_list a)[i := (ao_list a ! i)\<lparr>ad_state := LCP_OPT_NAK\<rparr>]\<rparr>) w
          in (w, \<not> list_ex (\<lambda>d. ad_state d \<noteq> LCP_OPT_NAK) (ao_list (auth_of w s))))"

definition auth_recv_conf_rej :: "sid \<Rightarrow> ppp_world \<Rightarrow> ppp_world \<times> bool" where
  \<comment> \<open>the flag: negotiation failed\<close>
  "auth_recv_conf_rej s w =
     (case ao_auth (auth_of w s) of
        None \<Rightarrow> (w, True)
      | Some i \<Rightarrow>
          let w = upd_auth s (\<lambda>a. a\<lparr>ao_list := (ao_list a)[i := (ao_list a ! i)\<lparr>ad_state := LCP_OPT_NAK\<rparr>]\<rparr>) w
          in (w, \<not> list_ex (\<lambda>d. ad_state d \<noteq> LCP_OPT_NAK) (ao_list (auth_of w s))))"

definition auth_free :: "ppp_env \<Rightarrow> sid \<Rightarrow> ppp_world \<Rightarrow> ppp_world" where
  "auth_free E s w =
     (let a = auth_of w s;
          w = (if ao_started a
               then case ao_auth a of None \<Rightarrow> w
                    | Some i \<Rightarrow> upd_auth s (\<lambda>a. a\<lparr>ao_started := False\<rparr>) (pe_auth_finish E (ad_handler (ao_list a ! i)) s w)
               else w)
      in upd_auth s (\<lambda>a. a\<lparr>ao_list := []\<rparr>) w)"

section \<open>Dispatch\<close>

definition opt_init :: "ppp_env \<Rightarrow> sid \<Rightarrow> opt_kind \<Rightarrow> ppp_world \<Rightarrow> lcp_option \<times> ppp_world" where
  "opt_init E s k w =
     (case k of
        KMru \<Rightarrow> mru_init E s w
      | KMagic \<Rightarrow> magic_init s w
      | KPcomp \<Rightarrow> (pcomp_init E, w)
      | KAccomp \<Rightarrow> (accomp_init E, w)
      | KAuth \<Rightarrow> auth_init E s w)"

definition opt_send_conf_req :: "ppp_env \<Rightarrow> sid \<Rightarrow> lcp_option \<Rightarrow> ppp_world \<Rightarrow> ppp_world \<times> bytes" where
  "opt_send_conf_req E s lopt w =
     (case lo_data lopt of
        MruOpt o' \<Rightarrow> (w, mru_send_conf_req o')
      | MagicOpt m \<Rightarrow> (w, magic_send_conf_req m)
      | PcompOpt v \<Rightarrow> (w, pcomp_send_conf_req v)
      | AccompOpt v \<Rightarrow> (w, accomp_send_conf_req v)
      | AuthOpt \<Rightarrow> auth_send_conf_req E s w)"

text \<open>The compression options have no \<^verbatim>\<open>send_conf_nak\<close>.\<close>

definition opt_send_conf_nak :: "ppp_env \<Rightarrow> sid \<Rightarrow> lcp_option \<Rightarrow> ppp_world \<Rightarrow> ppp_world \<times> bytes" where
  "opt_send_conf_nak E s lopt w =
     (case lo_data lopt of
        MruOpt o' \<Rightarrow> (w, mru_send_conf_nak o')
      | MagicOpt m \<Rightarrow> magic_send_conf_nak s m w
      | AuthOpt \<Rightarrow> auth_send_conf_req E s w
      | _ \<Rightarrow> (break_world w, []))"

definition opt_recv_conf_req :: "ppp_env \<Rightarrow> sid \<Rightarrow> lcp_option \<Rightarrow> bytes \<Rightarrow> ppp_world \<Rightarrow> lcp_option \<times> ppp_world \<times> int" where
  "opt_recv_conf_req E s lopt hdr w =
     (case lo_data lopt of
        MruOpt o' \<Rightarrow> let (o'', w, r) = mru_recv_conf_req E s o' hdr w in (lopt\<lparr>lo_data := MruOpt o''\<rparr>, w, r)
      | MagicOpt m \<Rightarrow> (lopt, w, magic_recv_conf_req m hdr)
      | PcompOpt v \<Rightarrow> (lopt, w, pcomp_recv_conf_req v hdr)
      | AccompOpt v \<Rightarrow> (lopt, w, accomp_recv_conf_req v hdr)
      | AuthOpt \<Rightarrow> (lopt, w, LCP_OPT_REJ))"

definition opt_recv_conf_rej :: "sid \<Rightarrow> lcp_option \<Rightarrow> bytes \<Rightarrow> ppp_world \<Rightarrow> lcp_option \<times> ppp_world \<times> bool" where
  "opt_recv_conf_rej s lopt hdr w =
     (case lo_data lopt of
        MruOpt o' \<Rightarrow> (lopt\<lparr>lo_data := MruOpt (mru_recv_conf_rej o')\<rparr>, w, False)
      | MagicOpt m \<Rightarrow> let (m', w) = magic_recv_conf_rej s w in (lopt\<lparr>lo_data := MagicOpt m'\<rparr>, w, False)
      | PcompOpt v \<Rightarrow> (lopt\<lparr>lo_data := PcompOpt (pcomp_recv_conf_rej v)\<rparr>, w, False)
      | AccompOpt v \<Rightarrow> (lopt\<lparr>lo_data := AccompOpt (accomp_recv_conf_rej v)\<rparr>, w, False)
      | AuthOpt \<Rightarrow> let (w, f) = auth_recv_conf_rej s w in (lopt, w, f))"

definition opt_recv_conf_nak :: "sid \<Rightarrow> lcp_option \<Rightarrow> bytes \<Rightarrow> ppp_world \<Rightarrow> lcp_option \<times> ppp_world \<times> bool" where
  "opt_recv_conf_nak s lopt hdr w =
     (case lo_data lopt of
        MruOpt o' \<Rightarrow> (lopt\<lparr>lo_data := MruOpt (mru_recv_conf_nak o')\<rparr>, w, False)
      | MagicOpt m \<Rightarrow> let (m', w, f) = magic_recv_conf_nak s m hdr w in (lopt\<lparr>lo_data := MagicOpt m'\<rparr>, w, f)
      | PcompOpt v \<Rightarrow> let (v', f) = pcomp_recv_conf_nak v hdr in (lopt\<lparr>lo_data := PcompOpt v'\<rparr>, w, f)
      | AccompOpt v \<Rightarrow> let (v', f) = accomp_recv_conf_nak v hdr in (lopt\<lparr>lo_data := AccompOpt v'\<rparr>, w, f)
      | AuthOpt \<Rightarrow> let (w, f) = auth_recv_conf_nak s w in (lopt, w, f))"

definition opt_recv_conf_ack :: "ppp_env \<Rightarrow> sid \<Rightarrow> lcp_option \<Rightarrow> bytes \<Rightarrow> ppp_world \<Rightarrow> lcp_option \<times> ppp_world \<times> bool" where
  "opt_recv_conf_ack E s lopt hdr w =
     (case lo_data lopt of
        MruOpt o' \<Rightarrow> (lopt, mru_recv_conf_ack s o' w, False)
      | MagicOpt m \<Rightarrow> (lopt, w, False)
      | PcompOpt v \<Rightarrow> let (w, f) = pcomp_recv_conf_ack E s v w in (lopt, w, f)
      | AccompOpt v \<Rightarrow> let (w, f) = accomp_recv_conf_ack E s v w in (lopt, w, f)
      | AuthOpt \<Rightarrow> (lopt, w, False))"

definition opt_free :: "ppp_env \<Rightarrow> sid \<Rightarrow> lcp_option \<Rightarrow> ppp_world \<Rightarrow> ppp_world" where
  "opt_free E s lopt w = (case lo_data lopt of AuthOpt \<Rightarrow> auth_free E s w | _ \<Rightarrow> w)"

end
