(* ===== verification/PppLcp.thy ===== *)
theory PppLcp
  imports LcpOptions
begin

text \<open>
  The Link Control Protocol of \<^verbatim>\<open>accel-pppd/ppp/ppp_lcp.c\<close> as a client of the automaton: building and
  parsing of its packets, echo supervision, and its layer functions.
\<close>

abbreviation (input) CONFREQ :: u8 where "CONFREQ \<equiv> 1"
abbreviation (input) CONFACK :: u8 where "CONFACK \<equiv> 2"
abbreviation (input) CONFNAK :: u8 where "CONFNAK \<equiv> 3"
abbreviation (input) CONFREJ :: u8 where "CONFREJ \<equiv> 4"
abbreviation (input) TERMREQ :: u8 where "TERMREQ \<equiv> 5"
abbreviation (input) TERMACK :: u8 where "TERMACK \<equiv> 6"
abbreviation (input) CODEREJ :: u8 where "CODEREJ \<equiv> 7"
abbreviation (input) PROTOREJ :: u8 where "PROTOREJ \<equiv> 8"
abbreviation (input) ECHOREQ :: u8 where "ECHOREQ \<equiv> 9"
abbreviation (input) ECHOREP :: u8 where "ECHOREP \<equiv> 10"
abbreviation (input) DISCARDREQ :: u8 where "DISCARDREQ \<equiv> 11"
abbreviation (input) IDENT :: u8 where "IDENT \<equiv> 12"

section \<open>Options\<close>

fun init_options :: "ppp_env \<Rightarrow> sid \<Rightarrow> opt_kind list \<Rightarrow> ppp_world \<Rightarrow> ppp_world" where
  "init_options E s [] w = w"
| "init_options E s (k # ks) w =
     (let (lopt, w) = opt_init E s k w
      in init_options E s ks (upd_lcp s (\<lambda>l. l\<lparr>lcp_opts := lcp_opts l @ [lopt],
                                            lcp_conf_req_len := lcp_conf_req_len l + lo_len lopt\<rparr>) w))"

text \<open>\<open>handlers\<close> is the list \<^verbatim>\<open>option_handlers\<close> in the order of registration.\<close>

definition lcp_options_init :: "ppp_env \<Rightarrow> opt_kind list \<Rightarrow> sid \<Rightarrow> ppp_world \<Rightarrow> ppp_world" where
  "lcp_options_init E handlers s w =
     init_options E s handlers (upd_lcp s (\<lambda>l. l\<lparr>lcp_opts := [], lcp_conf_req_len := 6\<rparr>) w)"

definition lcp_options_free :: "ppp_env \<Rightarrow> sid \<Rightarrow> ppp_world \<Rightarrow> ppp_world" where
  "lcp_options_free E s w =
     upd_lcp s (\<lambda>l. l\<lparr>lcp_opts := []\<rparr>) (fold (opt_free E s) (lcp_opts (lcp_of w s)) w)"

section \<open>Packets sent\<close>

definition lcp_packet :: "u8 \<Rightarrow> u8 \<Rightarrow> bytes \<Rightarrow> bytes" where
  "lcp_packet code ident body = u_write_be16 PPP_LCP @ [code, ident] @ u_write_be16 (of_nat (4 + length body)) @ body"

fun collect_req :: "ppp_env \<Rightarrow> sid \<Rightarrow> lcp_option list \<Rightarrow> ppp_world \<Rightarrow> ppp_world \<times> bytes" where
  "collect_req E s [] w = (w, [])"
| "collect_req E s (lopt # ls) w =
     (let (w, bs) = opt_send_conf_req E s lopt w; (w, rest) = collect_req E s ls w in (w, bs @ rest))"

definition lcp_send_conf_req :: "ppp_env \<Rightarrow> sid \<Rightarrow> ppp_world \<Rightarrow> ppp_world \<times> bool" where
  "lcp_send_conf_req E s w =
     (let (w, body) = collect_req E s (lcp_opts (lcp_of w s)) w
      in (ppp_chan_send s (lcp_packet CONFREQ (fsm_id (lcp_fsm (lcp_of w s))) body) w, False))"

text \<open>A packet answered in place: the code of the received packet is overwritten and the packet sent back.\<close>

definition send_back :: "u8 \<Rightarrow> sid \<Rightarrow> ppp_world \<Rightarrow> ppp_world" where
  "send_back code s w =
     (let buf = (c_buf (conns w s))[2 := code]
      in ppp_chan_send s (take (unat (u_read_be16 (drop 4 buf)) + 2) buf) (upd_conn s (\<lambda>c. c\<lparr>c_buf := buf\<rparr>) w))"

definition lcp_send_conf_ack :: "sid \<Rightarrow> ppp_world \<Rightarrow> ppp_world" where
  "lcp_send_conf_ack = send_back CONFACK"

definition lcp_send_code_rej :: "sid \<Rightarrow> ppp_world \<Rightarrow> ppp_world" where
  "lcp_send_code_rej = send_back CODEREJ"

fun collect_nak :: "ppp_env \<Rightarrow> sid \<Rightarrow> lcp_option list \<Rightarrow> ppp_world \<Rightarrow> ppp_world \<times> bytes" where
  "collect_nak E s [] w = (w, [])"
| "collect_nak E s (lopt # ls) w =
     (if lo_state lopt = LCP_OPT_NAK
      then let (w, bs) = opt_send_conf_nak E s lopt w; (w, rest) = collect_nak E s ls w in (w, bs @ rest)
      else collect_nak E s ls w)"

definition lcp_send_conf_nak :: "ppp_env \<Rightarrow> sid \<Rightarrow> ppp_world \<Rightarrow> ppp_world" where
  "lcp_send_conf_nak E s w =
     (let (w, body) = collect_nak E s (lcp_opts (lcp_of w s)) w
      in ppp_chan_send s (lcp_packet CONFNAK (recv_id (lcp_fsm (lcp_of w s))) body) w)"

definition rej_body :: "recv_opt list \<Rightarrow> bytes" where
  "rej_body ropts = concat (map ro_hdr (filter (\<lambda>r. ro_state r = LCP_OPT_REJ) ropts))"

definition lcp_send_conf_rej :: "sid \<Rightarrow> ppp_world \<Rightarrow> ppp_world" where
  "lcp_send_conf_rej s w =
     ppp_chan_send s (lcp_packet CONFREJ (recv_id (lcp_fsm (lcp_of w s))) (rej_body (lcp_ropt_list (lcp_of w s)))) w"

definition lcp_send_term_req :: "sid \<Rightarrow> ppp_world \<Rightarrow> ppp_world" where
  "lcp_send_term_req s w =
     (let w = upd_lcp s (\<lambda>l. l\<lparr>lcp_fsm := (lcp_fsm l)\<lparr>fsm_id := fsm_id (lcp_fsm l) + 1\<rparr>\<rparr>) w
      in ppp_chan_send s (lcp_packet TERMREQ (fsm_id (lcp_fsm (lcp_of w s))) []) w)"

definition lcp_send_term_ack :: "sid \<Rightarrow> ppp_world \<Rightarrow> ppp_world" where
  "lcp_send_term_ack s w = ppp_chan_send s (lcp_packet TERMACK (recv_id (lcp_fsm (lcp_of w s))) []) w"

section \<open>Echo supervision\<close>

definition start_echo :: "ppp_env \<Rightarrow> sid \<Rightarrow> ppp_world \<Rightarrow> ppp_world" where
  "start_echo E s =
     upd_lcp s (\<lambda>l. if conf_echo_interval (pe_conf E) * 1000 \<noteq> 0 then l\<lparr>lcp_echo_timer := True\<rparr> else l)"

definition stop_echo :: "sid \<Rightarrow> ppp_world \<Rightarrow> ppp_world" where
  "stop_echo s = upd_lcp s (\<lambda>l. l\<lparr>lcp_echo_timer := False\<rparr>)"

definition echo_alive :: "ppp_env \<Rightarrow> sid \<Rightarrow> ppp_world \<Rightarrow> ppp_world" where
  "echo_alive E s = upd_lcp s (\<lambda>l. l\<lparr>lcp_echo_sent := 0, lcp_last_echo_ts := env_time (pe_ses E)\<rparr>)"

definition send_echo_reply :: "ppp_env \<Rightarrow> sid \<Rightarrow> ppp_world \<Rightarrow> ppp_world" where
  "send_echo_reply E s w =
     (let len = u_read_be16 (drop 4 (c_buf (conns w s)))
      in if uint len > c_mtu (conns w s) then w
         else
           let w = echo_alive E s w;
               b = (c_buf (conns w s))[2 := ECHOREP];
               buf = take 6 b @ u_write_be32 (lcp_magic (lcp_of w s)) @ drop 10 b
           in ppp_chan_send s (take (unat len + 2) buf) (upd_conn s (\<lambda>c. c\<lparr>c_buf := buf\<rparr>) w))"

definition lcp_recv_echo_repl :: "ppp_env \<Rightarrow> sid \<Rightarrow> bytes \<Rightarrow> ppp_world \<Rightarrow> ppp_world" where
  \<comment> \<open>\<open>data\<close>: the bytes after the header, as many as the length field says\<close>
  "lcp_recv_echo_repl E s data w =
     (let w = (if length data = 4 \<and> lcp_magic (lcp_of w s) \<noteq> 0 \<and> u_read_be32 data = lcp_magic (lcp_of w s)
               then pe_terminate E s TERM_NAS_ERROR False w else w)
      in echo_alive E s w)"

text \<open>
  The expiry of the echo timer. \<^verbatim>\<open>ap_session_read_stats\<close> leaves the caller's structure alone
  when it fails, and the caller does not look at its result.
\<close>

definition send_echo_request :: "ppp_env \<Rightarrow> sid \<Rightarrow> ppp_world \<Rightarrow> ppp_world" where
  "send_echo_request E s w =
     (let (w, fin) =
        (if conf_echo_timeout (pe_conf E) \<noteq> 0 then
           let (w, st) = ap_session_read_stats (pe_ses E) s w;
               rx = (case st of Some d \<Rightarrow> rx_packets d | None \<Rightarrow> pe_stack_garbage E)
           in if lcp_last_ipackets (lcp_of w s) \<noteq> rx
              then (upd_lcp s (\<lambda>l. l\<lparr>lcp_last_ipackets := rx, lcp_last_echo_ts := env_time (pe_ses E), lcp_echo_sent := 0\<rparr>) w, True)
              else (w, env_time (pe_ses E) - lcp_last_echo_ts (lcp_of w s) < conf_echo_timeout (pe_conf E))
         else (w, False))
      in if fin then w
         else if lcp_echo_sent (lcp_of w s) > conf_echo_failure (pe_conf E)
         then pe_terminate E s TERM_LOST_CARRIER True w
         else
           let ident = fsm_id (lcp_fsm (lcp_of w s));
               w = upd_lcp s (\<lambda>l. l\<lparr>lcp_fsm := (lcp_fsm l)\<lparr>fsm_id := ident + 1\<rparr>, lcp_echo_sent := lcp_echo_sent l + 1\<rparr>) w
           in ppp_chan_send s (lcp_packet ECHOREQ ident (u_write_be32 (lcp_magic (lcp_of w s)))) w)"

section \<open>Notifications of the automaton\<close>

definition lcp_layer_up :: "ppp_env \<Rightarrow> sid \<Rightarrow> ppp_world \<Rightarrow> ppp_world" where
  "lcp_layer_up E s w =
     start_echo E s
       (if \<not> lcp_started (lcp_of w s)
        then pe_layer_started E L_LCP s (upd_lcp s (\<lambda>l. l\<lparr>lcp_started := True\<rparr>) w) else w)"

definition lcp_layer_down :: "sid \<Rightarrow> ppp_world \<Rightarrow> ppp_world" where
  "lcp_layer_down s w = w"

definition lcp_layer_finished :: "ppp_env \<Rightarrow> sid \<Rightarrow> ppp_world \<Rightarrow> ppp_world" where
  "lcp_layer_finished E s w =
     (let w = stop_echo s w
      in if lcp_started (lcp_of w s) then
           (let w = upd_lcp s (\<lambda>l. l\<lparr>lcp_started := False\<rparr>) w
            in if ses_terminating (sessions w s) then pe_layer_finished E L_LCP s w
               else pe_terminate E s TERM_NAS_ERROR False w)
         else pe_terminate E s TERM_NAS_ERROR False w)"

definition lcp_ops :: "ppp_env \<Rightarrow> sid \<Rightarrow> ppp_world fsm_ops" where
  "lcp_ops E s =
     \<lparr>get_fsm = (\<lambda>w. lcp_fsm (lcp_of w s)), put_fsm = (\<lambda>f. upd_lcp s (\<lambda>l. l\<lparr>lcp_fsm := f\<rparr>)),
      layer_up = Some (lcp_layer_up E s), layer_down = Some (lcp_layer_down s), layer_started = None,
      layer_finished = Some (lcp_layer_finished E s), send_conf_req = Some (lcp_send_conf_req E s),
      send_conf_ack = Some (lcp_send_conf_ack s), send_conf_nak = Some (lcp_send_conf_nak E s),
      send_conf_rej = Some (lcp_send_conf_rej s), send_code_rej = Some (lcp_send_code_rej s),
      send_term_req = lcp_send_term_req s, send_term_ack = lcp_send_term_ack s\<rparr>"

section \<open>Layer functions\<close>

definition lcp_layer_init :: "ppp_env \<Rightarrow> sid \<Rightarrow> ppp_world \<Rightarrow> (ppp_world \<times> bool \<times> bool) option" where
  "lcp_layer_init E s w =
     (let (rnd, w) = (case c_random (conns w s) of
                        [] \<Rightarrow> (0, starve_world w)
                      | r # rs \<Rightarrow> (r, upd_conn s (\<lambda>c. c\<lparr>c_random := rs\<rparr>) w))
      in Some (upd_conn s (\<lambda>c. c\<lparr>c_chan_handlers := c_chan_handlers c @ [PPP_LCP],
            c_lcp := (c_lcp ppp_conn0)\<lparr>lcp_fsm := ppp_fsm_init (conf_fsm (pe_conf E)) (ucast rnd) (lcp_fsm (c_lcp ppp_conn0))\<rparr>\<rparr>) w, False, False))"

definition lcp_layer_start :: "ppp_env \<Rightarrow> opt_kind list \<Rightarrow> sid \<Rightarrow> ppp_world \<Rightarrow> ppp_world \<times> bool" where
  "lcp_layer_start E handlers s w =
     (let w = lcp_options_init E handlers s w;
          w = fst (ppp_fsm_lower_up (lcp_ops E s) w);
          (w, r) = ppp_fsm_open (lcp_ops E s) w
      in (w, r \<noteq> 0))"

definition lcp_layer_finish :: "ppp_env \<Rightarrow> sid \<Rightarrow> ppp_world \<Rightarrow> ppp_world" where
  "lcp_layer_finish E s w =
     (if lcp_started (lcp_of w s) then ppp_fsm_close (lcp_ops E s) (stop_echo s w)
      else triton_context_call s Call_lcp_layer_finished w)"

definition cancel_call :: "sid \<Rightarrow> deferred \<Rightarrow> ppp_world \<Rightarrow> ppp_world" where
  "cancel_call s f w = w\<lparr>calls := filter (\<lambda>x. x \<noteq> (s, f)) (calls w)\<rparr>"

definition lcp_layer_free :: "ppp_env \<Rightarrow> sid \<Rightarrow> ppp_world \<Rightarrow> ppp_world" where
  "lcp_layer_free E s w =
     (let w = stop_echo s w;
          w = upd_conn s (\<lambda>c. c\<lparr>c_chan_handlers := remove1 PPP_LCP (c_chan_handlers c)\<rparr>) w;
          w = lcp_options_free E s w;
          w = ppp_fsm_free (lcp_ops E s) w
      in cancel_call s Call_lcp_layer_finished w)"

section \<open>Packets received\<close>

text \<open>
  The loop that cuts the options of a packet apart: \<open>data\<close> is what the pointer addresses, \<open>sz\<close> the
  bytes still to read. The result is the list of options up to the first malformed one and
  whether there was one.
\<close>

function split_opts :: "bytes \<Rightarrow> nat \<Rightarrow> (bytes list \<times> bool) parse" where
  "split_opts data sz =
     (if sz = 0 then Ok ([], False)
      else if sz < 2 then Ok ([], True)
      else bind_parse (read_byte data 1) (\<lambda>l.
        if unat l < 2 \<or> unat l > sz then Ok ([], True)
        else bind_parse (read_bytes data 0 (unat l)) (\<lambda>opt.
          bind_parse (split_opts (drop (unat l) data) (sz - unat l)) (\<lambda>(os, bad). Ok (opt # os, bad)))))"
  by pat_completeness auto
termination
  by (relation "measure snd") auto

declare split_opts.simps [simp del]

fun find_opt :: "lcp_option list \<Rightarrow> u8 \<Rightarrow> nat \<Rightarrow> nat option" where
  "find_opt [] ident i = None"
| "find_opt (o' # os) ident i = (if lo_id o' = ident then Some i else find_opt os ident (Suc i))"

definition set_opt :: "sid \<Rightarrow> nat \<Rightarrow> lcp_option \<Rightarrow> ppp_world \<Rightarrow> ppp_world" where
  "set_opt s i lopt = upd_lcp s (\<lambda>l. l\<lparr>lcp_opts := (lcp_opts l)[i := lopt]\<rparr>)"

text \<open>The second loop of \<^verbatim>\<open>lcp_recv_conf_req\<close>.\<close>

fun judge_opts :: "ppp_env \<Rightarrow> sid \<Rightarrow> bytes list \<Rightarrow> ppp_world \<Rightarrow> int \<Rightarrow> recv_opt list \<times> ppp_world \<times> int" where
  "judge_opts E s [] w ret = ([], w, ret)"
| "judge_opts E s (hdr # hs) w ret =
     (case find_opt (lcp_opts (lcp_of w s)) (hdr ! 0) 0 of
        None \<Rightarrow>
          let (ros, w, ret) = judge_opts E s hs w LCP_OPT_REJ
          in (\<lparr>ro_hdr = hdr, ro_state = LCP_OPT_REJ, ro_lopt = False\<rparr> # ros, w, ret)
      | Some i \<Rightarrow>
          let (lopt, w, r) = opt_recv_conf_req E s (lcp_opts (lcp_of w s) ! i) hdr w;
              w = set_opt s i (lopt\<lparr>lo_state := r\<rparr>) w;
              (ros, w, ret) = judge_opts E s hs w (if r < ret then r else ret)
          in (\<lparr>ro_hdr = hdr, ro_state = r, ro_lopt = True\<rparr> # ros, w, ret))"

definition lcp_recv_conf_req :: "ppp_env \<Rightarrow> sid \<Rightarrow> bytes \<Rightarrow> nat \<Rightarrow> ppp_world \<Rightarrow> ppp_world \<times> int" where
  "lcp_recv_conf_req E s data sz w =
     (let w = upd_lcp s (\<lambda>l. l\<lparr>lcp_ropt_len := int sz\<rparr>) w
      in case split_opts data sz of
        Ok (os, False) \<Rightarrow>
          let w = upd_lcp s (\<lambda>l. l\<lparr>lcp_opts := map (\<lambda>o'. o'\<lparr>lo_state := LCP_OPT_NONE\<rparr>) (lcp_opts l)\<rparr>) w;
              (ros, w, ret) = judge_opts E s os w 1
          in (upd_lcp s (\<lambda>l. l\<lparr>lcp_ropt_list := ros\<rparr>) w, ret)
      | Ok (os, True) \<Rightarrow>
          (upd_lcp s (\<lambda>l. l\<lparr>lcp_ropt_list := map (\<lambda>h. \<lparr>ro_hdr = h, ro_state = LCP_OPT_NONE, ro_lopt = False\<rparr>) os\<rparr>) w,
           LCP_OPT_FAIL)
      | _ \<Rightarrow> (break_world w, LCP_OPT_FAIL))"

definition lcp_free_conf_req :: "sid \<Rightarrow> ppp_world \<Rightarrow> ppp_world" where
  "lcp_free_conf_req s = upd_lcp s (\<lambda>l. l\<lparr>lcp_ropt_list := []\<rparr>)"

text \<open>
  The loop shared by \<^verbatim>\<open>lcp_recv_conf_rej\<close>, \<^verbatim>\<open>lcp_recv_conf_nak\<close> and \<^verbatim>\<open>lcp_recv_conf_ack\<close>: each option goes
  to its handler; the result tells whether one of them failed.
\<close>

fun answer_opts ::
  "(lcp_option \<Rightarrow> bytes \<Rightarrow> ppp_world \<Rightarrow> lcp_option \<times> ppp_world \<times> bool) \<Rightarrow> sid \<Rightarrow> bytes list \<Rightarrow> ppp_world \<Rightarrow> bool \<Rightarrow>
   ppp_world \<times> bool" where
  "answer_opts h s [] w res = (w, res)"
| "answer_opts h s (hdr # hs) w res =
     (case find_opt (lcp_opts (lcp_of w s)) (hdr ! 0) 0 of
        None \<Rightarrow> answer_opts h s hs w res
      | Some i \<Rightarrow>
          let (lopt, w, f) = h (lcp_opts (lcp_of w s) ! i) hdr w
          in answer_opts h s hs (set_opt s i lopt w) (res \<or> f))"

definition recv_answer ::
  "(lcp_option \<Rightarrow> bytes \<Rightarrow> ppp_world \<Rightarrow> lcp_option \<times> ppp_world \<times> bool) \<Rightarrow> sid \<Rightarrow> bytes \<Rightarrow> nat \<Rightarrow> ppp_world \<Rightarrow>
   ppp_world \<times> bool" where
  "recv_answer h s data sz w =
     (if recv_id (lcp_fsm (lcp_of w s)) \<noteq> fsm_id (lcp_fsm (lcp_of w s)) then (w, False)
      else case split_opts data sz of
        Ok (os, bad) \<Rightarrow> let (w, f) = answer_opts h s os w False in (w, f \<or> bad)
      | _ \<Rightarrow> (break_world w, True))"

definition lcp_recv_conf_rej :: "sid \<Rightarrow> bytes \<Rightarrow> nat \<Rightarrow> ppp_world \<Rightarrow> ppp_world \<times> bool" where
  "lcp_recv_conf_rej s = recv_answer (opt_recv_conf_rej s) s"

definition lcp_recv_conf_nak :: "sid \<Rightarrow> bytes \<Rightarrow> nat \<Rightarrow> ppp_world \<Rightarrow> ppp_world \<times> bool" where
  "lcp_recv_conf_nak s = recv_answer (opt_recv_conf_nak s) s"

definition lcp_recv_conf_ack :: "ppp_env \<Rightarrow> sid \<Rightarrow> bytes \<Rightarrow> nat \<Rightarrow> ppp_world \<Rightarrow> ppp_world \<times> bool" where
  "lcp_recv_conf_ack E s = recv_answer (opt_recv_conf_ack E s) s"

definition recv_confreq :: "ppp_env \<Rightarrow> sid \<Rightarrow> bytes \<Rightarrow> nat \<Rightarrow> ppp_world \<Rightarrow> ppp_world" where
  \<comment> \<open>the \<^verbatim>\<open>CONFREQ\<close> case of \<^verbatim>\<open>lcp_recv\<close>\<close>
  "recv_confreq E s data sz w =
     (let (w, r) = lcp_recv_conf_req E s data sz w
      in if lcp_started (lcp_of w s) \<and> r = LCP_OPT_ACK
         then lcp_free_conf_req s (lcp_send_conf_ack s w)
         else
           let r = (if lcp_started (lcp_of w s) then LCP_OPT_FAIL else r);
               w = (if r = LCP_OPT_ACK then ppp_fsm_recv_conf_req_ack (lcp_ops E s) w
                    else if r = LCP_OPT_NAK then ppp_fsm_recv_conf_req_nak (lcp_ops E s) w
                    else if r = LCP_OPT_REJ then ppp_fsm_recv_conf_req_rej (lcp_ops E s) w
                    else w);
               w = lcp_free_conf_req s w
           in if r = LCP_OPT_FAIL then pe_terminate E s TERM_USER_ERROR False w else w)"

definition recv_confans :: "ppp_env \<Rightarrow> sid \<Rightarrow> (ppp_world \<Rightarrow> ppp_world) \<Rightarrow> ppp_world \<times> bool \<Rightarrow> ppp_world" where
  \<comment> \<open>the common end of the \<^verbatim>\<open>CONFACK\<close>, \<^verbatim>\<open>CONFNAK\<close> and \<^verbatim>\<open>CONFREJ\<close> cases\<close>
  "recv_confans E s event = (\<lambda>(w, f).
     if f then pe_terminate E s TERM_USER_ERROR False w
     else if recv_id (lcp_fsm (lcp_of w s)) \<noteq> fsm_id (lcp_fsm (lcp_of w s)) then w
     else event w)"

definition lcp_recv :: "ppp_env \<Rightarrow> sid \<Rightarrow> ppp_world \<Rightarrow> ppp_world" where
  "lcp_recv E s w =
     (let buf = c_buf (conns w s)
      in if length buf < 6 then w
         else
           let len = unat (u_read_be16 (drop 4 buf));
               code = buf ! 2; ident = buf ! 3;
               data = drop 6 buf; sz = len - 4;
               conf_answer = (code = CONFACK \<or> code = CONFNAK \<or> code = CONFREJ);
               ops = lcp_ops E s
           in if len < 4 \<or> len > length buf - 2 then w
              else if conf_answer \<and> ident \<noteq> fsm_id (lcp_fsm (lcp_of w s)) then w
              else if conf_answer \<and> lcp_started (lcp_of w s) then w
              else if state_of ops w = FSM_Initial \<or> state_of ops w = FSM_Closed \<or>
                      ses_terminating (sessions w s) \<and> code \<noteq> TERMACK \<and> code \<noteq> TERMREQ then w
              else
                let w = upd_fsm ops (\<lambda>f. f\<lparr>recv_id := ident\<rparr>) w
                in if code = CONFREQ then recv_confreq E s data sz w
                   else if code = CONFACK then
                     recv_confans E s (ppp_fsm_recv_conf_ack ops) (lcp_recv_conf_ack E s data sz w)
                   else if code = CONFNAK then
                     recv_confans E s (ppp_fsm_recv_conf_rej ops) (lcp_recv_conf_nak s data sz w)
                   else if code = CONFREJ then
                     recv_confans E s (ppp_fsm_recv_conf_rej ops) (lcp_recv_conf_rej s data sz w)
                   else if code = TERMREQ then
                     pe_terminate E s TERM_USER_REQUEST False (ppp_fsm_recv_term_req ops w)
                   else if code = TERMACK then ppp_fsm_recv_term_ack ops w
                   else if code = CODEREJ then ppp_fsm_recv_code_rej_bad ops w
                   else if code = ECHOREQ then
                     (if len < 8 \<or> length buf < 10 then w else send_echo_reply E s w)
                   else if code = ECHOREP then
                     (if len < 8 \<or> length buf < 10 then w else lcp_recv_echo_repl E s (take sz data) w)
                   else if code = PROTOREJ then
                     (if len < 6 \<or> length buf < 8 then w else ppp_recv_proto_rej E (u_read_be16 data) s w)
                   else if code = DISCARDREQ \<or> code = IDENT then w
                   else ppp_fsm_recv_unk ops w)"

end
