(* ===== verification/PppAuth.thy ===== *)
theory PppAuth
  imports PppLcp
begin

text \<open>
  The authentication layer of \<^verbatim>\<open>accel-pppd/ppp/ppp_auth.c\<close>: it starts the method agreed upon by LCP
  and reports the layer as started once a method has accepted the peer. The methods (PAP,
  CHAP) are behind the handler functions of the environment.
\<close>

definition auth_layer_init :: "sid \<Rightarrow> ppp_world \<Rightarrow> (ppp_world \<times> bool \<times> bool) option" where
  "auth_layer_init s w =
     Some (upd_auth s (\<lambda>_. \<lparr>ao_list = [], ao_auth = None, ao_started = False\<rparr>) w, False, False)"

definition auth_handler_of :: "auth_option \<Rightarrow> nat \<Rightarrow> nat" where
  "auth_handler_of a i = ad_handler (ao_list a ! i)"

definition auth_layer_start :: "ppp_env \<Rightarrow> sid \<Rightarrow> ppp_world \<Rightarrow> ppp_world \<times> bool" where
  \<comment> \<open>the flag: it failed\<close>
  "auth_layer_start E s w =
     (case (if conf_noauth (pe_conf E) \<noteq> 0 then connect_ppp_channel E s w else (w, False)) of
        (w, True) \<Rightarrow> (w, True)
      | (w, False) \<Rightarrow>
          (case ao_auth (auth_of w s) of
             Some i \<Rightarrow> (pe_auth_start E (auth_handler_of (auth_of w s) i) s (upd_auth s (\<lambda>a. a\<lparr>ao_started := True\<rparr>) w), False)
           | None \<Rightarrow> (pe_layer_started E L_AUTH s w, False)))"

definition auth_layer_finish :: "ppp_env \<Rightarrow> sid \<Rightarrow> ppp_world \<Rightarrow> ppp_world" where
  "auth_layer_finish E s w =
     (let w = (case ao_auth (auth_of w s) of
                 None \<Rightarrow> w
               | Some i \<Rightarrow> pe_auth_finish E (auth_handler_of (auth_of w s) i) s w)
      in pe_layer_finished E L_AUTH s (upd_auth s (\<lambda>a. a\<lparr>ao_started := False\<rparr>) w))"

definition auth_layer_free :: "sid \<Rightarrow> ppp_world \<Rightarrow> ppp_world" where
  "auth_layer_free s w = cancel_call s Call_ppp_auth_started w"

definition ppp_auth_started :: "ppp_env \<Rightarrow> sid \<Rightarrow> ppp_world \<Rightarrow> ppp_world" where
  \<comment> \<open>\<^verbatim>\<open>__ppp_auth_started\<close>\<close>
  "ppp_auth_started E s w =
     (if ses_terminating (sessions w s) then w
      else pe_layer_started E L_AUTH s (triton_event_fire (pe_ses E) EV_SES_AUTHORIZED s w))"

definition ppp_auth_succeeded :: "ppp_env \<Rightarrow> sid \<Rightarrow> string \<Rightarrow> ppp_world \<Rightarrow> ppp_world \<times> bool" where
  \<comment> \<open>the flag: it failed\<close>
  "ppp_auth_succeeded E s username w =
     (case ap_session_set_username (pe_ses E) s username w of
        None \<Rightarrow> (w, True)
      | Some (w, wait) \<Rightarrow>
          (case connect_ppp_channel E s w of
             (w, True) \<Rightarrow> (w, True)
           | (w, False) \<Rightarrow> (triton_context_call s Call_ppp_auth_started w, False)))"

definition ppp_auth_failed :: "ppp_env \<Rightarrow> sid \<Rightarrow> string option \<Rightarrow> ppp_world \<Rightarrow> ppp_world" where
  "ppp_auth_failed E s username w =
     (let w = (case username of
                 None \<Rightarrow> w
               | Some u \<Rightarrow>
                   triton_event_fire (pe_ses E) EV_SES_AUTH_FAILED s
                     (upd_ses s (\<lambda>ses. ses\<lparr>ses_username := (if ses_username ses = None then Some u else ses_username ses),
                                        ses_terminate_cause := TERM_AUTH_ERROR\<rparr>) w))
      in pe_terminate E s TERM_AUTH_ERROR False w)"

definition ppp_auth_restart :: "ppp_env \<Rightarrow> sid \<Rightarrow> ppp_world \<Rightarrow> ppp_world \<times> bool" where
  "ppp_auth_restart E s w =
     (case ao_auth (auth_of w s) of
        None \<Rightarrow> (break_world w, True)
      | Some i \<Rightarrow>
          let h = auth_handler_of (auth_of w s) i
          in if \<not> ah_restart (pe_auth_handlers E ! h) then (w, True) else pe_auth_restart E h s w)"

end
