(* ===== verification/PppSystem.thy ===== *)
theory PppSystem
  imports PppAuth
begin

text \<open>
  The PPP part of the daemon put together. The files of \<^verbatim>\<open>accel-pppd/ppp\<close> and \<^verbatim>\<open>session.c\<close> call each
  other through function pointers and across files, back and forth within one event: a
  Configure-Ack opens LCP, which starts the authentication layer, whose failure terminates
  the session, which closes LCP. \<open>link_env\<close> resolves every such call to its definition;
  \<open>ppp_sys n\<close> resolves calls nested up to depth \<open>n\<close>. What remains outside is the base environment:
  configuration, the kernel, event handlers, the authentication methods and the inner parts
  of the network protocols.
\<close>

section \<open>Linking\<close>

text \<open>\<open>B\<close> is the base environment, \<open>E\<close> the environment in which the linked functions make their calls.\<close>

definition link_env :: "opt_kind list \<Rightarrow> ppp_env \<Rightarrow> ppp_env \<Rightarrow> ppp_env" where
  "link_env opts B E =
     B\<lparr>pe_ses := (pe_ses B)\<lparr>ctrl_terminate := ppp_terminate E\<rparr>,
       pe_terminate := ap_session_terminate (pe_ses E),
       pe_layer_started := ppp_layer_started E,
       pe_layer_finished := ppp_layer_finished E,
       pe_layer_init := (\<lambda>l. if l = L_LCP then lcp_layer_init E else if l = L_AUTH then auth_layer_init else pe_layer_init B l),
       pe_layer_start := (\<lambda>l. if l = L_LCP then lcp_layer_start E opts else if l = L_AUTH then auth_layer_start E
                              else pe_layer_start B l),
       pe_layer_finish := (\<lambda>l. if l = L_LCP then lcp_layer_finish E else if l = L_AUTH then auth_layer_finish E
                               else (\<lambda>s w. pe_layer_finished E l s (pe_layer_finish B l s w))),
       pe_layer_free := (\<lambda>l. if l = L_LCP then lcp_layer_free E else if l = L_AUTH then auth_layer_free else pe_layer_free B l),
       pe_recv := (\<lambda>proto. if proto = PPP_LCP then lcp_recv E else pe_recv B proto),
       pe_recv_proto_rej := (\<lambda>proto. if proto = PPP_LCP then (\<lambda>s w. w) else pe_recv_proto_rej B proto)\<rparr>"

text \<open>Every call is cut off.\<close>

definition cut_env :: "ppp_env \<Rightarrow> ppp_env" where
  "cut_env B =
     B\<lparr>pe_ses := (pe_ses B)\<lparr>ctrl_terminate := (\<lambda>_ _ w. (break_world w, False))\<rparr>,
       pe_terminate := (\<lambda>_ _ _. break_world), pe_layer_started := (\<lambda>_ _. break_world),
       pe_layer_finished := (\<lambda>_ _. break_world), pe_layer_init := (\<lambda>_ _ w. Some (break_world w, False, False)),
       pe_layer_start := (\<lambda>_ _ w. (break_world w, False)), pe_layer_finish := (\<lambda>_ _. break_world),
       pe_layer_free := (\<lambda>_ _. break_world), pe_recv := (\<lambda>_ _. break_world),
       pe_recv_proto_rej := (\<lambda>_ _. break_world)\<rparr>"

primrec ppp_sys :: "nat \<Rightarrow> opt_kind list \<Rightarrow> ppp_env \<Rightarrow> ppp_env" where
  "ppp_sys 0 opts B = cut_env B"
| "ppp_sys (Suc n) opts B = link_env opts B (ppp_sys n opts B)"

section \<open>Events\<close>

text \<open>
  One event of the daemon's loop. A control module brings up a connection with descriptor \<open>fd\<close>
  (and drops it when \<^verbatim>\<open>establish_ppp\<close> fails), the kernel has frames to read, a timer expires, a
  deferred call is due, an authentication method or a network protocol reports, an
  administrator terminates a session or shuts the daemon down.
\<close>

datatype ppp_op =
    Establish sid int "u32 list"
  | Chan_Read sid "read_result list"
  | Unit_Read sid "read_result list"
  | Fsm_Tick sid
  | Echo_Tick sid
  | Ses_Tick sid
  | Deferred sid deferred
  | Auth_Succeeded sid string
  | Auth_Failed sid "string option"
  | Net_Started layer_id sid
  | Net_Passive layer_id sid
  | Terminate sid term_cause bool
  | Shutdown bool

definition run_deferred :: "ppp_env \<Rightarrow> sid \<Rightarrow> deferred \<Rightarrow> ppp_world \<Rightarrow> ppp_world" where
  "run_deferred E s f =
     (case f of
        Call_terminate_soft_reboot \<Rightarrow> pe_terminate E s TERM_NAS_REBOOT False
      | Call_terminate_sec \<Rightarrow> pe_terminate E s TERM_NAS_REQUEST False
      | Call_lcp_layer_finished \<Rightarrow> lcp_layer_finished E s
      | Call_ppp_auth_started \<Rightarrow> ppp_auth_started E s)"

definition net_layer :: "layer_id \<Rightarrow> bool" where
  "net_layer l \<longleftrightarrow> l \<noteq> L_LCP \<and> l \<noteq> L_AUTH"

text \<open>When an event can occur.\<close>

fun op_enabled :: "ppp_op \<Rightarrow> ppp_world \<Rightarrow> bool" where
  "op_enabled (Establish s fd rnd) w = (ses_state (sessions w s) = AP_STATE_NONE \<and> fd \<ge> 0)"
| "op_enabled (Chan_Read s rs) w = c_chan_hnd (conns w s)"
| "op_enabled (Unit_Read s rs) w = (c_unit_hnd (conns w s) \<and> c_unit_fd (conns w s) \<ge> 0)"
| "op_enabled (Fsm_Tick s) w = restart_timer (lcp_fsm (lcp_of w s))"
| "op_enabled (Echo_Tick s) w = lcp_echo_timer (lcp_of w s)"
| "op_enabled (Ses_Tick s) w = ses_timer (sessions w s)"
| "op_enabled (Deferred s f) w = ((s, f) \<in> set (calls w))"
| "op_enabled (Auth_Succeeded s u) w = ao_started (auth_of w s)"
| "op_enabled (Auth_Failed s u) w = ao_started (auth_of w s)"
| "op_enabled (Net_Started l s) w = (net_layer l \<and> layer_flag ld_starting l (conns w s))"
| "op_enabled (Net_Passive l s) w = (net_layer l \<and> layer_flag ld_starting l (conns w s))"
| "op_enabled (Terminate s cause hard) w = (s \<in> set (ses_list w))"
| "op_enabled (Shutdown trm) w = True"

definition run_establish :: "ppp_env \<Rightarrow> layer_nodes \<Rightarrow> sid \<Rightarrow> int \<Rightarrow> u32 list \<Rightarrow> ppp_world \<Rightarrow> ppp_world" where
  "run_establish E nodes s fd rnd w =
     (case establish_ppp E nodes s (upd_conn s (\<lambda>c. c\<lparr>c_fd := fd\<rparr>) (ppp_init s rnd w)) of
        (w, r) \<Rightarrow> if r = 0 then w else upd_conn s (\<lambda>_. ppp_conn0) (upd_ses s (\<lambda>_. ap_session_init) w))"

fun run_op :: "ppp_env \<Rightarrow> layer_nodes \<Rightarrow> ppp_op \<Rightarrow> ppp_world \<Rightarrow> ppp_world" where
  "run_op E nodes (Establish s fd rnd) w = run_establish E nodes s fd rnd w"
| "run_op E nodes (Chan_Read s rs) w = fst (ppp_chan_read E s rs w)"
| "run_op E nodes (Unit_Read s rs) w = fst (ppp_unit_read E s rs w)"
| "run_op E nodes (Fsm_Tick s) w = restart_timer_func (lcp_ops E s) w"
| "run_op E nodes (Echo_Tick s) w = send_echo_request E s w"
| "run_op E nodes (Ses_Tick s) w = ap_session_timer (pe_ses E) s w"
| "run_op E nodes (Deferred s f) w = run_deferred E s f (w\<lparr>calls := remove1 (s, f) (calls w)\<rparr>)"
| "run_op E nodes (Auth_Succeeded s u) w = fst (ppp_auth_succeeded E s u w)"
| "run_op E nodes (Auth_Failed s u) w = ppp_auth_failed E s u w"
| "run_op E nodes (Net_Started l s) w = ppp_layer_started E l s w"
| "run_op E nodes (Net_Passive l s) w = ppp_layer_passive E l s w"
| "run_op E nodes (Terminate s cause hard) w = pe_terminate E s cause hard w"
| "run_op E nodes (Shutdown trm) w = fst (ap_shutdown_soft (pe_ses E) trm w)"

text \<open>The daemon before the first connection.\<close>

definition ppp_world0 :: ppp_world where
  "ppp_world0 =
     \<lparr>stat_starting = 0, stat_active = 0, stat_finishing = 0, ap_shutdown = False, shutdown_done = 0, ses_list = [],
      sessions = (\<lambda>_. ap_session_init), calls = [], woken = [], seq = 0, fired = [],
      conns = (\<lambda>_. ppp_conn0), uc_list = [], broken = False, starved = False\<rparr>"

text \<open>
  Histories: any enabled events in any order, each in an environment admitted by \<open>P\<close>, so that
  the time, the kernel's answers and what the outside does may differ from event to event.
\<close>

inductive ppp_reach :: "nat \<Rightarrow> opt_kind list \<Rightarrow> layer_nodes \<Rightarrow> (ppp_env \<Rightarrow> bool) \<Rightarrow> ppp_world \<Rightarrow> bool"
  for n opts nodes P where
  reach_start: "ppp_reach n opts nodes P ppp_world0"
| reach_op: "ppp_reach n opts nodes P w \<Longrightarrow> P B \<Longrightarrow> op_enabled op w \<Longrightarrow>
    ppp_reach n opts nodes P (run_op (ppp_sys n opts B) nodes op w)"

end
