(* ===== verification/PppInvariant.thy ===== *)
theory PppInvariant
  imports PppSystem
begin

text \<open>
  The invariant of the PPP part of the daemon and the updates that keep it. \<open>kept\<close> relates worlds
  that agree on everything the invariant speaks about; it is what the code outside the model
  (event handlers, authentication methods, the inside of the network protocols, interface
  configuration) is required to respect, and what most of the model's own updates respect.
\<close>

section \<open>The parts of the state that matter\<close>

definition listed :: "'a ap_world_scheme \<Rightarrow> sid \<Rightarrow> bool" where
  "listed w t \<longleftrightarrow> t \<in> set (ses_list w)"

definition ev_count :: "'a ap_world_scheme \<Rightarrow> ap_event \<Rightarrow> sid \<Rightarrow> nat" where
  "ev_count w ev t = count_list (fired w) (ev, t)"

definition life_event :: "ap_event \<Rightarrow> bool" where
  "life_event ev \<longleftrightarrow> ev \<in> {EV_SES_STARTING, EV_SES_FINISHING, EV_SES_FINISHED, EV_SES_AUTHORIZED}"

definition own_call :: "deferred \<Rightarrow> bool" where
  "own_call f \<longleftrightarrow> f \<in> {Call_lcp_layer_finished, Call_ppp_auth_started}"

definition ses_core :: "ap_session \<Rightarrow> ap_state \<times> bool \<times> bool \<times> bool \<times> bool" where
  "ses_core ses = (ses_state ses, ses_terminating ses, ses_terminated ses, ses_down ses, ses_timer ses)"

fun kind_of :: "lcp_opt_data \<Rightarrow> opt_kind" where
  "kind_of (MruOpt _) = KMru"
| "kind_of (MagicOpt _) = KMagic"
| "kind_of (PcompOpt _) = KPcomp"
| "kind_of (AccompOpt _) = KAccomp"
| "kind_of AuthOpt = KAuth"

definition opt_core :: "lcp_option \<Rightarrow> opt_kind \<times> bool" where
  "opt_core lopt = (kind_of (lo_data lopt), lo_state lopt = LCP_OPT_NAK)"

definition lcp_core :: "ppp_lcp \<Rightarrow> FSM_STATE \<times> bool \<times> bool \<times> bool \<times> (opt_kind \<times> bool) list" where
  "lcp_core l = (fsm_state (lcp_fsm l), restart_timer (lcp_fsm l), lcp_echo_timer l, lcp_started l, map opt_core (lcp_opts l))"

definition conn_core where
  "conn_core c = (c_fd c, c_chan_hnd c, c_unit_hnd c, c_unit_fd c, c_layers c, c_auth c, lcp_core (c_lcp c))"

definition kept :: "ppp_world \<Rightarrow> ppp_world \<Rightarrow> bool" where
  "kept w w' \<longleftrightarrow>
     stat_starting w' = stat_starting w \<and> stat_active w' = stat_active w \<and> stat_finishing w' = stat_finishing w \<and>
     ses_list w' = ses_list w \<and> uc_list w' = uc_list w \<and> broken w' = broken w \<and>
     (\<forall>ev t. life_event ev \<longrightarrow> ev_count w' ev t = ev_count w ev t) \<and>
     (\<forall>t f. own_call f \<longrightarrow> ((t, f) \<in> set (calls w') \<longleftrightarrow> (t, f) \<in> set (calls w))) \<and>
     (\<forall>t f. (t, f) \<in> set (calls w') \<longrightarrow> (t, f) \<in> set (calls w) \<or> ses_state (sessions w t) \<noteq> AP_STATE_NONE) \<and>
     (\<forall>t. ses_core (sessions w' t) = ses_core (sessions w t)) \<and>
     (\<forall>t. conn_core (conns w' t) = conn_core (conns w t))"

lemma ses_core_state: "ses_core a = ses_core b \<Longrightarrow> ses_state a = ses_state b"
  by (simp add: ses_core_def)

lemma kept_refl [simp, intro]: "kept w w"
  by (simp add: kept_def)

lemma kept_trans [trans]: "kept u v \<Longrightarrow> kept v w \<Longrightarrow> kept u w"
  unfolding kept_def by (elim conjE) (intro conjI; metis ses_core_state)

section \<open>The environment outside\<close>

definition keeps :: "(sid \<Rightarrow> ppp_world \<Rightarrow> ppp_world) \<Rightarrow> bool" where
  "keeps f \<longleftrightarrow> (\<forall>s w. kept w (f s w))"

lemma keepsD [simp, intro]: "keeps f \<Longrightarrow> kept w (f s w)"
  by (simp add: keeps_def)

text \<open>What is required of the outside.\<close>

definition frame_ses :: "ppp_world ses_env \<Rightarrow> bool" where
  "frame_ses e \<longleftrightarrow>
     keeps (env_ifup e) \<and> keeps (env_ifdown e) \<and> (\<forall>ev. keeps (env_event e ev)) \<and> keeps (env_put_ipv4 e) \<and>
     keeps (env_put_ipv6 e) \<and> (\<forall>w. kept w (env_hooks_terminate e w)) \<and> keeps (ctrl_finished e)"

definition frame_env :: "ppp_env \<Rightarrow> bool" where
  "frame_env B \<longleftrightarrow> frame_ses (pe_ses B) \<and>
     (\<forall>l s w w' f. pe_layer_init B l s w = Some (w', f) \<longrightarrow> kept w w') \<and>
     (\<forall>l. keeps (\<lambda>s w. fst (pe_layer_start B l s w))) \<and> (\<forall>l. keeps (pe_layer_finish B l)) \<and>
     (\<forall>l. keeps (pe_layer_free B l)) \<and> (\<forall>p. keeps (pe_recv B p)) \<and> (\<forall>p. keeps (pe_recv_proto_rej B p)) \<and>
     (\<forall>h. keeps (pe_auth_start B h)) \<and> (\<forall>h. keeps (pe_auth_finish B h))"

section \<open>The invariant\<close>

definition count_in :: "'a ap_world_scheme \<Rightarrow> ap_state set \<Rightarrow> nat" where
  "count_in w S = length (filter (\<lambda>t. ses_state (sessions w t) \<in> S) (ses_list w))"

text \<open>The counters count.\<close>

definition stat_ok :: "'a ap_world_scheme \<Rightarrow> bool" where
  "stat_ok w \<longleftrightarrow> distinct (ses_list w) \<and>
     stat_starting w = of_nat (count_in w {AP_STATE_STARTING, AP_STATE_RESTORE}) \<and>
     stat_active w = of_nat (count_in w {AP_STATE_ACTIVE}) \<and>
     stat_finishing w = of_nat (count_in w {AP_STATE_FINISHING})"

text \<open>The life of one session.\<close>

definition ses_ok :: "ppp_world \<Rightarrow> sid \<Rightarrow> bool" where
  "ses_ok w t \<longleftrightarrow>
     (let ses = sessions w t
      in ses_state ses \<noteq> AP_STATE_RESTORE \<and> (ses_terminating ses \<longleftrightarrow> ses_state ses = AP_STATE_FINISHING) \<and>
         (listed w t \<longleftrightarrow> ses_state ses \<noteq> AP_STATE_NONE \<and> \<not> ses_terminated ses) \<and>
         (ses_terminated ses \<longrightarrow> ses_terminating ses) \<and> (ses_down ses \<longrightarrow> ses_terminating ses) \<and>
         (ses_timer ses \<longrightarrow> ses_state ses = AP_STATE_ACTIVE) \<and>
         ev_count w EV_SES_STARTING t = of_bool (ses_state ses \<noteq> AP_STATE_NONE) \<and>
         ev_count w EV_SES_FINISHING t = of_bool (ses_down ses \<or> ses_terminated ses) \<and>
         ev_count w EV_SES_FINISHED t = of_bool (ses_terminated ses) \<and>
         (\<forall>f. (t, f) \<in> set (calls w) \<longrightarrow> ses_state ses \<noteq> AP_STATE_NONE))"

definition layers_ok :: "ppp_layer_data list list \<Rightarrow> bool" where
  "layers_ok ls \<longleftrightarrow> distinct (map ld_layer (concat ls)) \<and>
     (\<forall>i < length ls. \<forall>d \<in> set (ls ! i). get_layer_order (ld_layer d) = i)"

text \<open>A layer that may run only after authentication.\<close>

definition past_auth :: "ppp_layer_data \<Rightarrow> bool" where
  "past_auth d \<longleftrightarrow> ld_layer d = L_AUTH \<and> ld_started d \<or> net_layer (ld_layer d) \<and> ld_starting d"

definition auth_state_ok :: "auth_option \<Rightarrow> bool" where
  "auth_state_ok a \<longleftrightarrow> (ao_auth a = None \<longrightarrow> (\<forall>d \<in> set (ao_list a). ad_state d = LCP_OPT_NONE) \<and> \<not> ao_started a)"

text \<open>
  One connection. \<open>na\<close>: the configuration demands authentication. \<open>mo\<close>: the kernel accepts the
  units' MTU and MRU.
\<close>

definition conn_ok :: "bool \<Rightarrow> bool \<Rightarrow> ppp_world \<Rightarrow> sid \<Rightarrow> bool" where
  "conn_ok na mo w t \<longleftrightarrow>
     (let c = conns w t; l = c_lcp c; a = c_auth c
      in layers_ok (c_layers c) \<and> fsm_state (lcp_fsm l) \<noteq> FSM_Starting \<and>
         (\<forall>lopt \<in> set (lcp_opts l). lo_state lopt = LCP_OPT_NAK \<longrightarrow> kind_of (lo_data lopt) \<in> {KMru, KMagic}) \<and>
         auth_state_ok a \<and> (ao_started a \<longrightarrow> KAuth \<in> kind_of ` lo_data ` set (lcp_opts l)) \<and>
         (mo \<longrightarrow> c_unit_hnd c \<longrightarrow> c_unit_fd c \<ge> 0) \<and>
         (na \<longrightarrow> (ao_auth a = None \<longrightarrow> fsm_state (lcp_fsm l) \<in> {FSM_Initial, FSM_Closed}) \<and>
                (list_ex past_auth (concat (c_layers c)) \<longrightarrow> ev_count w EV_SES_AUTHORIZED t > 0)))"

text \<open>LCP takes part and has not reported its end.\<close>

definition lcp_held :: "ppp_conn \<Rightarrow> bool" where
  "lcp_held c \<longleftrightarrow> (\<exists>d. ppp_find_layer_data c L_LCP = Some d \<and> ld_starting d \<and> \<not> ld_finished d)"

text \<open>Nothing is registered on behalf of the connection any more.\<close>

definition quiet :: "bool \<Rightarrow> ppp_world \<Rightarrow> sid \<Rightarrow> bool" where
  "quiet mo w t \<longleftrightarrow>
     c_fd (conns w t) = -1 \<and> c_unit_fd (conns w t) < 0 \<and> \<not> c_chan_hnd (conns w t) \<and> (mo \<longrightarrow> \<not> c_unit_hnd (conns w t)) \<and> \<not> restart_timer (lcp_fsm (lcp_of w t)) \<and>
     \<not> lcp_echo_timer (lcp_of w t) \<and> \<not> ses_timer (sessions w t) \<and> c_layers (conns w t) = [] \<and>
     \<not> ao_started (auth_of w t) \<and> (\<forall>f. own_call f \<longrightarrow> (t, f) \<notin> set (calls w))"

definition settled :: "bool \<Rightarrow> ppp_world \<Rightarrow> sid \<Rightarrow> bool" where
  "settled mo w t \<longleftrightarrow>
     (if listed w t
      then (\<not> ses_terminating (sessions w t) \<longrightarrow> lcp_held (conns w t)) \<and>
           {L_LCP, L_AUTH} \<subseteq> ld_layer ` set (concat (c_layers (conns w t))) \<and>
           (\<forall>i. ao_auth (auth_of w t) = Some i \<longrightarrow>
                i < length (ao_list (auth_of w t)) \<and> KAuth \<in> kind_of ` lo_data ` set (lcp_opts (lcp_of w t)))
      else quiet mo w t)"

text \<open>\<open>X\<close>: sessions that are being brought up or taken down right now.\<close>

definition ppp_inv :: "bool \<Rightarrow> bool \<Rightarrow> sid set \<Rightarrow> ppp_world \<Rightarrow> bool" where
  "ppp_inv na mo X w \<longleftrightarrow> \<not> broken w \<and> stat_ok w \<and> (\<forall>x \<in> set (uc_list w). fst x \<ge> 0) \<and>
     (\<forall>t. ses_ok w t \<and> conn_ok na mo w t \<and> (t \<notin> X \<longrightarrow> settled mo w t))"

section \<open>What \<open>kept\<close> keeps\<close>

lemma kept_listed: "kept w w' \<Longrightarrow> listed w' t = listed w t"
  by (simp add: kept_def listed_def)

lemma kept_ses:
  assumes "kept w w'"
  shows "ses_state (sessions w' t) = ses_state (sessions w t)" "ses_terminating (sessions w' t) = ses_terminating (sessions w t)"
    "ses_terminated (sessions w' t) = ses_terminated (sessions w t)" "ses_down (sessions w' t) = ses_down (sessions w t)"
    "ses_timer (sessions w' t) = ses_timer (sessions w t)"
  using assms by (simp_all add: kept_def ses_core_def)

lemma kept_conn:
  assumes "kept w w'"
  shows "c_chan_hnd (conns w' t) = c_chan_hnd (conns w t)" "c_unit_hnd (conns w' t) = c_unit_hnd (conns w t)"
    "c_unit_fd (conns w' t) = c_unit_fd (conns w t)" "c_layers (conns w' t) = c_layers (conns w t)"
    "auth_of w' t = auth_of w t" "fsm_state (lcp_fsm (lcp_of w' t)) = fsm_state (lcp_fsm (lcp_of w t))"
    "restart_timer (lcp_fsm (lcp_of w' t)) = restart_timer (lcp_fsm (lcp_of w t))"
    "lcp_echo_timer (lcp_of w' t) = lcp_echo_timer (lcp_of w t)" "lcp_started (lcp_of w' t) = lcp_started (lcp_of w t)"
    "map opt_core (lcp_opts (lcp_of w' t)) = map opt_core (lcp_opts (lcp_of w t))" "c_fd (conns w' t) = c_fd (conns w t)"
  using assms by (simp_all add: kept_def conn_core_def lcp_core_def)

lemma opt_core_kinds: "kind_of ` lo_data ` set os = fst ` set (map opt_core os)"
  by (auto simp: opt_core_def image_iff)

lemma opt_core_naks:
  "(\<forall>lopt \<in> set os. lo_state lopt = LCP_OPT_NAK \<longrightarrow> kind_of (lo_data lopt) \<in> {KMru, KMagic}) \<longleftrightarrow>
   (\<forall>x \<in> set (map opt_core os). snd x \<longrightarrow> fst x \<in> {KMru, KMagic})"
  by (auto simp: opt_core_def)

lemma kept_calls:
  assumes "kept w w'" "own_call f"
  shows "((t, f) \<in> set (calls w')) = ((t, f) \<in> set (calls w))"
  using assms by (simp add: kept_def)

lemma kept_events: "kept w w' \<Longrightarrow> life_event ev \<Longrightarrow> ev_count w' ev t = ev_count w ev t"
  by (simp add: kept_def)

lemma life_events [simp]:
  "life_event EV_SES_STARTING" "life_event EV_SES_FINISHING" "life_event EV_SES_FINISHED" "life_event EV_SES_AUTHORIZED"
  "\<not> life_event EV_SES_PRE_FINISHED" "\<not> life_event EV_SES_AUTH_FAILED"
  by (simp_all add: life_event_def)

lemma own_calls [simp]:
  "own_call Call_lcp_layer_finished" "own_call Call_ppp_auth_started"
  "\<not> own_call Call_terminate_soft_reboot" "\<not> own_call Call_terminate_sec"
  by (simp_all add: own_call_def)

lemma kept_stat: "kept w w' \<Longrightarrow> stat_ok w' = stat_ok w"
  by (simp add: stat_ok_def count_in_def kept_ses) (simp add: kept_def)

lemma kept_ses_ok:
  assumes k: "kept w w'" and ok: "ses_ok w t"
  shows "ses_ok w' t"
proof -
  have "(t, f) \<in> set (calls w') \<Longrightarrow> ses_state (sessions w t) \<noteq> AP_STATE_NONE" for f
    using k ok unfolding kept_def ses_ok_def Let_def by blast
  then show ?thesis
    using ok by (auto simp: ses_ok_def Let_def kept_ses [OF k] kept_listed [OF k] kept_events [OF k])
qed

lemma kept_conn_ok: "kept w w' \<Longrightarrow> conn_ok na mo w' t = conn_ok na mo w t"
  unfolding conn_ok_def Let_def opt_core_kinds opt_core_naks by (simp only: kept_conn kept_events life_events)

lemma kept_held: "kept w w' \<Longrightarrow> lcp_held (conns w' t) = lcp_held (conns w t)"
  by (simp add: lcp_held_def ppp_find_layer_data_def kept_conn)

lemma kept_settled: "kept w w' \<Longrightarrow> settled mo w' t = settled mo w t"
  unfolding settled_def quiet_def opt_core_kinds
  by (simp add: kept_listed kept_held kept_ses kept_conn kept_calls cong: imp_cong del: set_map)

lemma kept_inv: "kept w w' \<Longrightarrow> ppp_inv na mo X w \<Longrightarrow> ppp_inv na mo X w'"
  unfolding ppp_inv_def using kept_ses_ok by (auto simp: kept_stat kept_conn_ok kept_settled) (auto simp: kept_def)

end
