(* ===== verification/PppFrames.thy ===== *)
theory PppFrames
  imports PppInvariant
begin

text \<open>
  Updates that leave the invariant's part of the state alone, updates that commute with that
  relation, and the arithmetic of the session counters.
\<close>

section \<open>Updates that keep\<close>

lemma kept_upd_ses: "ses_core (f (sessions w s)) = ses_core (sessions w s) \<Longrightarrow> kept w (upd_ses s f w)"
  by (simp add: kept_def upd_ses_def ev_count_def)

lemma kept_upd_conn: "conn_core (f (conns w s)) = conn_core (conns w s) \<Longrightarrow> kept w (upd_conn s f w)"
  by (simp add: kept_def upd_conn_def ev_count_def)

lemma kept_upd_lcp: "lcp_core (f (lcp_of w s)) = lcp_core (lcp_of w s) \<Longrightarrow> kept w (upd_lcp s f w)"
  unfolding upd_lcp_def by (rule kept_upd_conn) (simp add: conn_core_def)

lemma kept_fields [simp, intro]:
  "kept w (w\<lparr>woken := a\<rparr>)" "kept w (w\<lparr>seq := b\<rparr>)" "kept w (w\<lparr>shutdown_done := n\<rparr>)" "kept w (w\<lparr>ap_shutdown := sd\<rparr>)"
  "kept w (starve_world w)"
  by (simp_all add: kept_def ev_count_def starve_world_def)

lemma kept_chan_send [simp, intro]: "kept w (ppp_chan_send s d w)"
  unfolding ppp_chan_send_def by (rule kept_upd_conn) (simp add: conn_core_def)

lemma kept_call:
  assumes "\<not> own_call f" "ses_state (sessions w t) \<noteq> AP_STATE_NONE"
  shows "kept w (triton_context_call t f w)"
  using assms by (auto simp: kept_def triton_context_call_def ev_count_def)

lemma kept_fire:
  assumes "frame_ses e" "\<not> life_event ev"
  shows "kept w (triton_event_fire e ev s w)"
proof -
  have "kept w (w\<lparr>fired := fired w @ [(ev, s)]\<rparr>)"
    using assms(2) by (auto simp: kept_def ev_count_def)
  moreover have "kept (w\<lparr>fired := fired w @ [(ev, s)]\<rparr>) (triton_event_fire e ev s w)"
    using assms(1) by (simp add: triton_event_fire_def frame_ses_def)
  ultimately show ?thesis by (rule kept_trans)
qed

lemma kept_shutdown_check [simp, intro]: "kept w (ap_shutdown_check e w)"
  by (simp add: ap_shutdown_check_def)

lemma kept_set_ifindex [simp, intro]: "kept w (ap_session_set_ifindex e s w)"
  by (auto simp: ap_session_set_ifindex_def ses_core_def intro!: kept_upd_ses split: option.split)

lemma kept_read_stats [simp, intro]: "kept w (fst (ap_session_read_stats e s w))"
  by (auto simp: ap_session_read_stats_def Let_def ses_core_def intro!: kept_upd_ses split: option.split)

lemma kept_generate_sessionid [simp, intro]: "kept w (generate_sessionid e s w)"
proof (cases "conf_sid_source_seq (env_conf e)")
  case True
  have "kept (w\<lparr>seq := seq w + 1\<rparr>) (generate_sessionid e s w)"
    using True by (auto simp: generate_sessionid_def ses_core_def intro!: kept_upd_ses)
  with kept_fields(2) show ?thesis by (rule kept_trans)
next
  case False
  then show ?thesis by (auto simp: generate_sessionid_def ses_core_def intro!: kept_upd_ses)
qed

section \<open>Updates that respect \<open>kept\<close>\<close>

definition fire_core :: "ap_event \<Rightarrow> sid \<Rightarrow> ppp_world \<Rightarrow> ppp_world" where
  "fire_core ev s w = w\<lparr>fired := fired w @ [(ev, s)]\<rparr>"

lemma fire_core_kept: "frame_ses e \<Longrightarrow> kept (fire_core ev s w) (triton_event_fire e ev s w)"
  by (simp add: triton_event_fire_def fire_core_def frame_ses_def)

lemma cong_fire: "kept u v \<Longrightarrow> kept (fire_core ev s u) (fire_core ev s v)"
  by (simp add: kept_def fire_core_def ev_count_def)

lemma cong_upd_ses:
  assumes "kept u v" "\<And>a b. ses_core a = ses_core b \<Longrightarrow> ses_core (f a) = ses_core (f b)"
    "\<And>a. ses_state (f a) = ses_state a"
  shows "kept (upd_ses s f u) (upd_ses s f v)"
proof -
  have "\<forall>t. ses_core (((sessions v)(s := f (sessions v s))) t) = ses_core (((sessions u)(s := f (sessions u s))) t)"
    using assms(1) assms(2) [of "sessions v s" "sessions u s"] by (simp add: kept_def)
  then show ?thesis using assms(1,3) by (simp add: kept_def upd_ses_def ev_count_def)
qed

lemma cong_remove: "kept u v \<Longrightarrow> kept (u\<lparr>ses_list := remove1 s (ses_list u)\<rparr>) (v\<lparr>ses_list := remove1 s (ses_list v)\<rparr>)"
  by (simp add: kept_def ev_count_def)

lemma cong_stat_dec: "kept u v \<Longrightarrow> kept (ap_session_stat_dec st u) (ap_session_stat_dec st v)"
  by (cases st) (simp_all add: kept_def ev_count_def ap_session_stat_dec_def)

section \<open>Counting sessions\<close>

lemma filter_one_changed:
  assumes "distinct xs" "s \<in> set xs" "\<And>t. t \<noteq> s \<Longrightarrow> P t = Q t"
  shows "int (length (filter Q xs)) = int (length (filter P xs)) - of_bool (P s) + of_bool (Q s)"
  using assms
proof (induction xs)
  case (Cons x xs)
  show ?case
  proof (cases "x = s")
    case True
    then have "filter Q xs = filter P xs" using Cons.prems by (intro filter_cong) (simp_all, metis)
    then show ?thesis using True by simp
  next
    case False
    then show ?thesis using Cons by auto
  qed
qed simp

lemma filter_one_removed:
  "s \<in> set xs \<Longrightarrow> length (filter P xs) = length (filter P (remove1 s xs)) + of_bool (P s)"
  by (induction xs) auto

lemma count_in_upd:
  assumes "stat_ok w" "listed w s"
  shows "(of_nat (count_in (upd_ses s f w) S) :: u32) =
    of_nat (count_in w S) - of_bool (ses_state (sessions w s) \<in> S) + of_bool (ses_state (f (sessions w s)) \<in> S)"
proof -
  have "int (count_in (upd_ses s f w) S) =
      int (count_in w S) - of_bool (ses_state (sessions w s) \<in> S) + of_bool (ses_state (f (sessions w s)) \<in> S)"
    using filter_one_changed [of "ses_list w" s "\<lambda>t. ses_state (sessions w t) \<in> S"
      "\<lambda>t. ses_state (((sessions w)(s := f (sessions w s))) t) \<in> S"] assms
    by (simp add: count_in_def upd_ses_def stat_ok_def listed_def)
  then have "(of_int (int (count_in (upd_ses s f w) S)) :: u32) =
      of_int (int (count_in w S) - of_bool (ses_state (sessions w s) \<in> S) + of_bool (ses_state (f (sessions w s)) \<in> S))"
    by simp
  then show ?thesis by simp
qed

lemma count_in_remove:
  assumes "stat_ok w" "listed w s"
  shows "(of_nat (count_in (w\<lparr>ses_list := remove1 s (ses_list w)\<rparr>) S) :: u32) =
    of_nat (count_in w S) - of_bool (ses_state (sessions w s) \<in> S)"
proof -
  have "count_in w S = count_in (w\<lparr>ses_list := remove1 s (ses_list w)\<rparr>) S + of_bool (ses_state (sessions w s) \<in> S)"
    using filter_one_removed [of s "ses_list w" "\<lambda>t. ses_state (sessions w t) \<in> S"] assms(2)
    by (simp add: count_in_def listed_def)
  then show ?thesis by simp
qed

section \<open>Changing one session\<close>

lemma invD:
  assumes "ppp_inv na mo X w"
  shows "\<not> broken w" "stat_ok w" "ses_ok w t" "conn_ok na mo w t" "t \<notin> X \<Longrightarrow> settled mo w t"
    "x \<in> set (uc_list w) \<Longrightarrow> fst x \<ge> 0"
  using assms by (auto simp: ppp_inv_def)

definition same_at :: "sid \<Rightarrow> ppp_world \<Rightarrow> ppp_world \<Rightarrow> bool" where
  "same_at t w w' \<longleftrightarrow> conns w' t = conns w t \<and> sessions w' t = sessions w t \<and> listed w' t = listed w t \<and>
     (\<forall>ev. life_event ev \<longrightarrow> ev_count w' ev t = ev_count w ev t) \<and> (\<forall>f. ((t, f) \<in> set (calls w')) = ((t, f) \<in> set (calls w)))"

lemma same_at_ok:
  assumes "same_at t w w'"
  shows "ses_ok w' t = ses_ok w t" "conn_ok na mo w' t = conn_ok na mo w t" "settled mo w' t = settled mo w t"
  using assms by (simp_all add: same_at_def ses_ok_def conn_ok_def settled_def quiet_def Let_def)

lemma inv_step:
  assumes "ppp_inv na mo X w" "\<And>t. t \<noteq> s \<Longrightarrow> same_at t w w'" "X \<subseteq> insert s Y" "\<not> broken w'" "stat_ok w'"
    "\<And>x. x \<in> set (uc_list w') \<Longrightarrow> fst x \<ge> 0" "ses_ok w' s" "conn_ok na mo w' s" "s \<notin> Y \<Longrightarrow> settled mo w' s"
  shows "ppp_inv na mo Y w'"
proof -
  have "ses_ok w' t \<and> conn_ok na mo w' t \<and> (t \<notin> Y \<longrightarrow> settled mo w' t)" for t
    using assms(3,7,8,9) invD(3,4,5) [OF assms(1), of t] same_at_ok [OF assms(2), of t] by (cases "t = s") auto
  then show ?thesis using assms(4,5,6) by (simp add: ppp_inv_def)
qed

text \<open>An update of one connection.\<close>

lemma count_in_conn [simp]: "count_in (upd_conn s f w) S = count_in w S"
  by (simp add: count_in_def)

lemma stat_ok_conn [simp]: "stat_ok (upd_conn s f w) = stat_ok w"
  by (simp add: stat_ok_def)

lemma upd_conn_sel [simp]:
  "broken (upd_conn s f w) = broken w" "uc_list (upd_conn s f w) = uc_list w" "calls (upd_conn s f w) = calls w"
  "fired (upd_conn s f w) = fired w" "listed (upd_conn s f w) t = listed w t" "ev_count (upd_conn s f w) ev t = ev_count w ev t"
  by (simp_all add: upd_conn_def listed_def ev_count_def)

lemma ses_ok_conn [simp]: "ses_ok (upd_conn s f w) t = ses_ok w t"
  by (simp add: ses_ok_def)

lemma inv_upd_conn:
  assumes "ppp_inv na mo X w" "conn_ok na mo (upd_conn s f w) s" "s \<notin> X \<Longrightarrow> settled mo (upd_conn s f w) s"
  shows "ppp_inv na mo X (upd_conn s f w)"
  by (rule inv_step [OF assms(1), of s]) (use assms invD [OF assms(1)] in \<open>auto simp: same_at_def\<close>)

lemma inv_fewer_calls:
  assumes inv: "ppp_inv na mo X w" and cs: "set cs \<subseteq> set (calls w)"
  shows "ppp_inv na mo X (w\<lparr>calls := cs\<rparr>)"
proof -
  let ?w = "w\<lparr>calls := cs\<rparr>"
  have sel: "listed ?w t = listed w t" "ev_count ?w ev t = ev_count w ev t" for ev t
    by (simp_all add: listed_def ev_count_def)
  have "ses_ok ?w t" for t
    using invD(3) [OF inv, of t] cs unfolding ses_ok_def Let_def sel by (simp del: split_paired_All) blast
  moreover have "conn_ok na mo ?w t" for t using invD(4) [OF inv, of t] by (simp add: conn_ok_def sel)
  moreover have "settled mo ?w t" if "t \<notin> X" for t
    using invD(5) [OF inv that] cs by (auto simp: settled_def quiet_def sel)
  ultimately show ?thesis using inv by (simp add: ppp_inv_def stat_ok_def count_in_def)
qed

lemma inv_cancel:
  assumes "ppp_inv na mo X w"
  shows "ppp_inv na mo X (cancel_call s f w)"
  unfolding cancel_call_def by (rule inv_fewer_calls [OF assms]) auto

end
