(* ===== verification/PppDestroy.thy ===== *)
theory PppDestroy
  imports PppFrames
begin

text \<open>
  Taking a connection down: \<^verbatim>\<open>ap_session_finished\<close>, the freeing of the layers and \<^verbatim>\<open>destablish_ppp\<close>.
\<close>

section \<open>The session is finished\<close>

definition drop_names :: "ap_session \<Rightarrow> ap_session" where
  "drop_names ses = ses\<lparr>ses_username := None, ses_ipv4_pool_name := None, ses_ipv6_pool_name := None,
     ses_dpv6_pool_name := None, ses_ifname_rename := None, ses_timer := False\<rparr>"

text \<open>\<^verbatim>\<open>ap_session_finished\<close> of a finishing session without the calls to the outside.\<close>

definition finish_core :: "sid \<Rightarrow> ppp_world \<Rightarrow> ppp_world" where
  "finish_core s w =
     (let w = upd_ses s (\<lambda>ses. ses\<lparr>ses_terminated := True\<rparr>) w;
          w = (if ses_down (sessions w s) then w else fire_core EV_SES_FINISHING s w);
          w = ap_session_stat_dec Finishing (w\<lparr>ses_list := remove1 s (ses_list w)\<rparr>)
      in upd_ses s drop_names (fire_core EV_SES_FINISHED s w))"

lemma kept_fire_core:
  assumes "frame_ses e" "kept u v"
  shows "kept (fire_core ev s u) (triton_event_fire e ev s v)"
  using kept_trans [OF cong_fire [OF assms(2)] fire_core_kept [OF assms(1)]] .

lemma kept_put_addr:
  assumes "keeps f" "ses_core (g (sessions (f s w) s)) = ses_core (sessions (f s w) s)"
  shows "kept w (upd_ses s g (f s w))"
  using kept_trans [OF keepsD [OF assms(1)] kept_upd_ses] assms(2) by blast

lemma drop_names_core: "ses_core a = ses_core b \<Longrightarrow> ses_core (drop_names a) = ses_core (drop_names b)"
  by (simp add: ses_core_def drop_names_def)

lemma finished_kept:
  assumes e: "frame_ses e" and st: "ses_state (sessions w s) = AP_STATE_FINISHING"
  shows "kept (finish_core s w) (ap_session_finished e s w)"
proof -
  have k: "keeps (env_ifdown e)" "keeps (env_put_ipv4 e)" "keeps (env_put_ipv6 e)" "keeps (ctrl_finished e)"
    using e by (simp_all add: frame_ses_def)
  define w1 where "w1 = upd_ses s (\<lambda>ses. ses\<lparr>ses_terminated := True\<rparr>) w"
  define u2 where "u2 = (if ses_down (sessions w1 s) then w1 else fire_core EV_SES_FINISHING s w1)"
  define w2 where "w2 = (if \<not> ses_down (sessions w1 s) then triton_event_fire e EV_SES_FINISHING s (env_ifdown e s w1) else w1)"
  define w3 where "w3 = triton_event_fire e EV_SES_PRE_FINISHED s w2"
  define u4 where "u4 = u2\<lparr>ses_list := remove1 s (ses_list u2)\<rparr>"
  define w4 where "w4 = w3\<lparr>ses_list := remove1 s (ses_list w3)\<rparr>"
  define w5 where "w5 = ap_session_stat_dec Finishing w4"
  define w6 where "w6 = (if ses_ipv4 (sessions w5 s) then upd_ses s (\<lambda>ses. ses\<lparr>ses_ipv4 := False\<rparr>) (env_put_ipv4 e s w5) else w5)"
  define w7 where "w7 = (if ses_ipv6 (sessions w6 s) then upd_ses s (\<lambda>ses. ses\<lparr>ses_ipv6 := False\<rparr>) (env_put_ipv6 e s w6) else w6)"
  define w9 where "w9 = ctrl_finished e s (triton_event_fire e EV_SES_FINISHED s w7)"
  define w10 where "w10 = (case ses_wakeup (sessions w9 s) of None \<Rightarrow> w9 | Some c \<Rightarrow> w9\<lparr>woken := woken w9 @ [c]\<rparr>)"
  have "kept u2 w2" using k(1) by (auto simp: u2_def w2_def intro: kept_fire_core [OF e])
  also have "kept w2 w3" unfolding w3_def by (rule kept_fire [OF e]) simp
  finally have u4: "kept u4 w4" unfolding u4_def w4_def by (rule cong_remove)
  have "ses_state (sessions u4 s) = AP_STATE_FINISHING"
    using st by (simp add: u4_def u2_def w1_def upd_ses_def fire_core_def)
  then have st4: "ses_state (sessions w4 s) = AP_STATE_FINISHING" by (simp add: kept_ses(1) [OF u4])
  have "kept (ap_session_stat_dec Finishing u4) w5" unfolding w5_def by (rule cong_stat_dec [OF u4])
  also have "kept w5 w6" unfolding w6_def by (auto simp: ses_core_def intro: kept_put_addr [OF k(2)])
  also have "kept w6 w7" unfolding w7_def by (auto simp: ses_core_def intro: kept_put_addr [OF k(3)])
  finally have "kept (fire_core EV_SES_FINISHED s (ap_session_stat_dec Finishing u4)) (triton_event_fire e EV_SES_FINISHED s w7)"
    by (rule kept_fire_core [OF e])
  also have "kept (triton_event_fire e EV_SES_FINISHED s w7) w9" unfolding w9_def using k(4) by simp
  also have "kept w9 w10" unfolding w10_def by (simp split: option.split)
  finally have "kept (upd_ses s drop_names (fire_core EV_SES_FINISHED s (ap_session_stat_dec Finishing u4))) (upd_ses s drop_names w10)"
    by (rule cong_upd_ses) (erule drop_names_core, simp add: drop_names_def)
  moreover have "finish_core s w = upd_ses s drop_names (fire_core EV_SES_FINISHED s (ap_session_stat_dec Finishing u4))"
    by (simp add: finish_core_def u4_def u2_def w1_def Let_def)
  moreover have "ap_session_finished e s w = ap_shutdown_check e (upd_ses s drop_names w10)"
    unfolding ap_session_finished_def
    apply (subst Let_def, fold w1_def, subst Let_def, fold w2_def, subst Let_def, fold w3_def, subst Let_def, fold w4_def)
    apply (subst Let_def, simp only: st4 ap_state.case, fold w5_def, subst Let_def, fold w6_def, subst Let_def, fold w7_def)
    apply (subst Let_def, subst Let_def, fold w9_def, subst Let_def, fold w10_def)
    apply (simp add: drop_names_def [abs_def])
    done
  ultimately show ?thesis using kept_shutdown_check kept_trans by metis
qed

lemma finish_core_sel:
  "conns (finish_core s w) = conns w" "calls (finish_core s w) = calls w" "uc_list (finish_core s w) = uc_list w"
  "broken (finish_core s w) = broken w" "ses_list (finish_core s w) = remove1 s (ses_list w)"
  "sessions (finish_core s w) = (sessions w)(s := drop_names ((sessions w s)\<lparr>ses_terminated := True\<rparr>))"
  "fired (finish_core s w) =
     fired w @ (if ses_down (sessions w s) then [] else [(EV_SES_FINISHING, s)]) @ [(EV_SES_FINISHED, s)]"
  "stat_starting (finish_core s w) = stat_starting w" "stat_active (finish_core s w) = stat_active w"
  "stat_finishing (finish_core s w) = stat_finishing w - 1"
  by (simp_all add: finish_core_def Let_def fire_core_def upd_ses_def ap_session_stat_dec_def)

lemma count_in_finish: "count_in (finish_core s w) S = count_in (w\<lparr>ses_list := remove1 s (ses_list w)\<rparr>) S"
  unfolding count_in_def finish_core_sel by (rule arg_cong [of _ _ length], rule filter_cong) (auto simp: drop_names_def)

lemma finish_core_stat:
  assumes "stat_ok w" "listed w s" "ses_state (sessions w s) = AP_STATE_FINISHING"
  shows "stat_ok (finish_core s w)"
  using assms count_in_remove [OF assms(1,2)]
  unfolding stat_ok_def count_in_finish finish_core_sel by simp

lemma finish_core_inv:
  assumes inv: "ppp_inv na mo X w" and s: "listed w s" "ses_terminating (sessions w s)"
  shows "ppp_inv na mo (insert s X) (finish_core s w)"
proof -
  have fin: "ses_state (sessions w s) = AP_STATE_FINISHING" "distinct (ses_list w)"
    using invD(3) [OF inv, of s] s invD(2) [OF inv] by (auto simp: ses_ok_def Let_def stat_ok_def)
  have other: "listed (finish_core s w) t = listed w t" if "t \<noteq> s" for t
    using that fin(2) by (simp add: listed_def finish_core_sel)
  have gone: "\<not> listed (finish_core s w) s" using fin(2) by (simp add: listed_def finish_core_sel)
  have ev: "ev_count (finish_core s w) ev t = ev_count w ev t +
      (if t \<noteq> s then 0 else if ev = EV_SES_FINISHED then 1 else if ev = EV_SES_FINISHING then of_bool (\<not> ses_down (sessions w s)) else 0)"
    for ev t by (auto simp: ev_count_def finish_core_sel)
  show ?thesis
  proof (rule inv_step [OF inv, of s])
    show "same_at t w (finish_core s w)" if "t \<noteq> s" for t
      using that other [OF that] by (simp add: same_at_def finish_core_sel ev)
    show "stat_ok (finish_core s w)" by (rule finish_core_stat [OF invD(2) [OF inv] s(1) fin(1)])
    show "ses_ok (finish_core s w) s"
      using invD(3) [OF inv, of s] gone s by (auto simp: ses_ok_def Let_def ev finish_core_sel drop_names_def)
    show "conn_ok na mo (finish_core s w) s"
      using invD(4) [OF inv, of s] by (simp add: conn_ok_def Let_def ev finish_core_sel)
  qed (use invD [OF inv] in \<open>auto simp: finish_core_sel\<close>)
qed

lemma finished_inv:
  assumes e: "frame_ses e" and inv: "ppp_inv na mo X w" and s: "listed w s" "ses_terminating (sessions w s)"
  shows "ppp_inv na mo (insert s X) (ap_session_finished e s w) \<and> \<not> listed (ap_session_finished e s w) s \<and>
    \<not> ses_timer (sessions (ap_session_finished e s w) s) \<and>
    conn_core (conns (ap_session_finished e s w) s) = conn_core (conns w s)"
proof -
  have fin: "ses_state (sessions w s) = AP_STATE_FINISHING" "distinct (ses_list w)"
    using invD(3) [OF inv, of s] s invD(2) [OF inv] by (auto simp: ses_ok_def Let_def stat_ok_def)
  have k: "kept (finish_core s w) (ap_session_finished e s w)" by (rule finished_kept [OF e fin(1)])
  have "\<not> listed (finish_core s w) s" "\<not> ses_timer (sessions (finish_core s w) s)"
    using fin(2) by (simp_all add: listed_def finish_core_sel drop_names_def)
  then show ?thesis
    using kept_inv [OF k finish_core_inv [OF inv s]] k
    by (simp add: kept_listed kept_ses) (simp add: kept_def finish_core_sel)
qed

section \<open>Freeing the layers\<close>

text \<open>Nothing is switched on or scheduled for session \<open>s\<close>, and its handlers stay.\<close>

definition calm :: "sid \<Rightarrow> ppp_world \<Rightarrow> ppp_world \<Rightarrow> bool" where
  "calm s w w' \<longleftrightarrow> listed w' s = listed w s \<and> ses_state (sessions w' s) = ses_state (sessions w s) \<and>
     c_fd (conns w' s) = c_fd (conns w s) \<and> c_unit_fd (conns w' s) = c_unit_fd (conns w s) \<and>
     c_chan_hnd (conns w' s) = c_chan_hnd (conns w s) \<and>
     c_unit_hnd (conns w' s) = c_unit_hnd (conns w s) \<and> ses_timer (sessions w' s) = ses_timer (sessions w s) \<and>
     (restart_timer (lcp_fsm (lcp_of w' s)) \<longrightarrow> restart_timer (lcp_fsm (lcp_of w s))) \<and>
     (lcp_echo_timer (lcp_of w' s) \<longrightarrow> lcp_echo_timer (lcp_of w s)) \<and>
     (ao_started (auth_of w' s) \<longrightarrow> ao_started (auth_of w s)) \<and>
     (\<forall>f. own_call f \<longrightarrow> (s, f) \<in> set (calls w') \<longrightarrow> (s, f) \<in> set (calls w))"

lemma calm_refl [simp]: "calm s w w"
  by (simp add: calm_def)

lemma calm_trans [trans]: "calm s u v \<Longrightarrow> calm s v w \<Longrightarrow> calm s u w"
  by (simp add: calm_def)

lemma kept_calm: "kept w w' \<Longrightarrow> calm s w w'"
  by (simp add: calm_def kept_listed kept_ses kept_conn kept_calls)

text \<open>What freeing a layer achieves.\<close>

definition freed :: "layer_id \<Rightarrow> ppp_world \<Rightarrow> sid \<Rightarrow> bool" where
  "freed l w s \<longleftrightarrow>
     (l = L_LCP \<longrightarrow> \<not> restart_timer (lcp_fsm (lcp_of w s)) \<and> \<not> lcp_echo_timer (lcp_of w s) \<and> \<not> ao_started (auth_of w s) \<and>
        (s, Call_lcp_layer_finished) \<notin> set (calls w)) \<and>
     (l = L_AUTH \<longrightarrow> (s, Call_ppp_auth_started) \<notin> set (calls w))"

lemma freed_calm: "freed l w s \<Longrightarrow> calm s w w' \<Longrightarrow> freed l w' s"
  by (auto simp: freed_def calm_def)

definition free_contract :: "bool \<Rightarrow> bool \<Rightarrow> ppp_env \<Rightarrow> bool" where
  "free_contract na mo E \<longleftrightarrow>
     (\<forall>l s w. ppp_inv na mo {s} w \<longrightarrow>
        ppp_inv na mo {s} (pe_layer_free E l s w) \<and> calm s w (pe_layer_free E l s w) \<and> freed l (pe_layer_free E l s w) s)"

lemma inv_upd_auth_down:
  assumes "ppp_inv na mo {s} w" "auth_state_ok (f (auth_of w s))" "ao_auth (f (auth_of w s)) = ao_auth (auth_of w s)"
    "ao_started (f (auth_of w s)) \<Longrightarrow> ao_started (auth_of w s)"
  shows "ppp_inv na mo {s} (upd_auth s f w)"
  unfolding upd_auth_def
proof (rule inv_upd_conn [OF assms(1)])
  show "conn_ok na mo (upd_conn s (\<lambda>c. c\<lparr>c_auth := f (c_auth c)\<rparr>) w) s"
    using invD(4) [OF assms(1), of s] assms(2-4) by (auto simp: conn_ok_def Let_def)
qed simp

lemma calm_upd_auth: "(ao_started (f (auth_of w s)) \<Longrightarrow> ao_started (auth_of w s)) \<Longrightarrow> calm s w (upd_auth s f w)"
  by (auto simp: calm_def upd_auth_def)

lemma auth_free_inv:
  assumes fin: "\<And>h. keeps (pe_auth_finish E h)" and inv: "ppp_inv na mo {s} w"
  shows "ppp_inv na mo {s} (auth_free E s w) \<and> calm s w (auth_free E s w) \<and> \<not> ao_started (auth_of (auth_free E s w) s)"
proof -
  let ?off = "\<lambda>a. a\<lparr>ao_started := False\<rparr>"
  define w1 where "w1 = (if ao_started (auth_of w s)
     then case ao_auth (auth_of w s) of None \<Rightarrow> w
          | Some i \<Rightarrow> upd_auth s ?off (pe_auth_finish E (ad_handler (ao_list (auth_of w s) ! i)) s w)
     else w)"
  have ok: "auth_state_ok (auth_of w s)" using invD(4) [OF inv, of s] by (simp add: conn_ok_def Let_def)
  have w1: "ppp_inv na mo {s} w1 \<and> calm s w w1 \<and> \<not> ao_started (auth_of w1 s)"
  proof (cases "ao_started (auth_of w s)")
    case True
    then obtain i where i: "ao_auth (auth_of w s) = Some i" using ok by (auto simp: auth_state_ok_def)
    define u where "u = pe_auth_finish E (ad_handler (ao_list (auth_of w s) ! i)) s w"
    have k: "kept w u" using fin by (simp add: u_def)
    have "ppp_inv na mo {s} (upd_auth s ?off u)"
      by (rule inv_upd_auth_down [OF kept_inv [OF k inv]]) (simp_all add: auth_state_ok_def kept_conn(5) [OF k] i)
    moreover have "calm s w (upd_auth s ?off u)"
      by (rule calm_trans [OF kept_calm [OF k]]) (rule calm_upd_auth, simp)
    ultimately show ?thesis using True i by (simp add: w1_def u_def upd_auth_def)
  qed (use inv in \<open>simp add: w1_def\<close>)
  have "auth_free E s w = upd_auth s (\<lambda>a. a\<lparr>ao_list := []\<rparr>) w1"
    by (simp only: auth_free_def Let_def w1_def)
  moreover have "ppp_inv na mo {s} (upd_auth s (\<lambda>a. a\<lparr>ao_list := []\<rparr>) w1)"
    by (rule inv_upd_auth_down) (use w1 in \<open>simp_all add: auth_state_ok_def\<close>)
  moreover have "calm s w (upd_auth s (\<lambda>a. a\<lparr>ao_list := []\<rparr>) w1)"
    by (rule calm_trans [OF conjunct1 [OF conjunct2 [OF w1]]], rule calm_upd_auth) simp
  ultimately show ?thesis using w1 by (simp add: upd_auth_def)
qed

lemma opt_free_fold:
  assumes fin: "\<And>h. keeps (pe_auth_finish E h)" and inv: "ppp_inv na mo {s} w"
  shows "ppp_inv na mo {s} (fold (opt_free E s) os w) \<and> calm s w (fold (opt_free E s) os w) \<and>
    (ao_started (auth_of (fold (opt_free E s) os w) s) \<longrightarrow> KAuth \<notin> kind_of ` lo_data ` set os)"
  using inv
proof (induction os arbitrary: w)
  case (Cons lopt os)
  let ?w = "opt_free E s lopt w"
  have h: "ppp_inv na mo {s} ?w \<and> calm s w ?w \<and> (kind_of (lo_data lopt) = KAuth \<longrightarrow> \<not> ao_started (auth_of ?w s))"
    using auth_free_inv [OF fin Cons.prems] Cons.prems
    by (cases "lo_data lopt") (simp_all add: opt_free_def)
  then have "ppp_inv na mo {s} ?w" by simp
  note IH = Cons.IH [OF this]
  moreover have "calm s w (fold (opt_free E s) os ?w)" using IH h calm_trans by blast
  moreover have "ao_started (auth_of (fold (opt_free E s) os ?w) s) \<longrightarrow> ao_started (auth_of ?w s)"
    using IH by (simp add: calm_def)
  ultimately show ?case using h by auto
qed simp

lemma inv_upd_lcp_down:
  assumes "ppp_inv na mo {s} w" "fsm_state (lcp_fsm (f (lcp_of w s))) = fsm_state (lcp_fsm (lcp_of w s))"
    "lcp_opts (f (lcp_of w s)) = lcp_opts (lcp_of w s) \<or> lcp_opts (f (lcp_of w s)) = [] \<and> \<not> ao_started (auth_of w s)"
  shows "ppp_inv na mo {s} (upd_lcp s f w)"
  unfolding upd_lcp_def
proof (rule inv_upd_conn [OF assms(1)])
  show "conn_ok na mo (upd_conn s (\<lambda>c. c\<lparr>c_lcp := f (c_lcp c)\<rparr>) w) s"
    using invD(4) [OF assms(1), of s] assms(2,3) by (auto simp: conn_ok_def Let_def)
qed simp

lemma calm_upd_lcp:
  assumes "restart_timer (lcp_fsm (f (lcp_of w s))) \<Longrightarrow> restart_timer (lcp_fsm (lcp_of w s))"
    "lcp_echo_timer (f (lcp_of w s)) \<Longrightarrow> lcp_echo_timer (lcp_of w s)"
  shows "calm s w (upd_lcp s f w)"
  using assms by (auto simp: calm_def upd_lcp_def)

lemma lcp_options_free_inv:
  assumes fin: "\<And>h. keeps (pe_auth_finish E h)" and inv: "ppp_inv na mo {s} w"
  shows "ppp_inv na mo {s} (lcp_options_free E s w) \<and> calm s w (lcp_options_free E s w) \<and>
    \<not> ao_started (auth_of (lcp_options_free E s w) s)"
proof -
  define u where "u = fold (opt_free E s) (lcp_opts (lcp_of w s)) w"
  note f = opt_free_fold [OF fin inv, where os = "lcp_opts (lcp_of w s)", folded u_def]
  have off: "\<not> ao_started (auth_of u s)"
    using f invD(4) [OF inv, of s] by (auto simp: calm_def conn_ok_def Let_def)
  have "ppp_inv na mo {s} (upd_lcp s (\<lambda>l. l\<lparr>lcp_opts := []\<rparr>) u)"
    by (rule inv_upd_lcp_down) (use f off in simp_all)
  moreover have "calm s w (upd_lcp s (\<lambda>l. l\<lparr>lcp_opts := []\<rparr>) u)"
    by (rule calm_trans [of s w u], use f in simp, rule calm_upd_lcp) simp_all
  ultimately show ?thesis using off by (simp add: lcp_options_free_def u_def [symmetric]) (simp add: upd_lcp_def)
qed

lemma lcp_layer_free_inv:
  assumes fin: "\<And>h. keeps (pe_auth_finish E h)" and inv: "ppp_inv na mo {s} w"
  shows "ppp_inv na mo {s} (lcp_layer_free E s w) \<and> calm s w (lcp_layer_free E s w) \<and> freed L_LCP (lcp_layer_free E s w) s"
proof -
  define w1 where "w1 = stop_echo s w"
  define w2 where "w2 = upd_conn s (\<lambda>c. c\<lparr>c_chan_handlers := remove1 PPP_LCP (c_chan_handlers c)\<rparr>) w1"
  define w3 where "w3 = lcp_options_free E s w2"
  define w4 where "w4 = ppp_fsm_free (lcp_ops E s) w3"
  have i1: "ppp_inv na mo {s} w1" unfolding w1_def stop_echo_def by (rule inv_upd_lcp_down [OF inv]) simp_all
  have k2: "kept w1 w2" unfolding w2_def by (rule kept_upd_conn) (simp add: conn_core_def)
  note f3 = lcp_options_free_inv [OF fin kept_inv [OF k2 i1], folded w3_def]
  have e4: "w4 = upd_lcp s (\<lambda>l. l\<lparr>lcp_fsm := (lcp_fsm (lcp_of w3 s))\<lparr>restart_timer := False\<rparr>\<rparr>) w3"
    by (simp add: w4_def ppp_fsm_free_def stop_timer_def upd_fsm_def lcp_ops_def)
  have i4: "ppp_inv na mo {s} w4" unfolding e4 by (rule inv_upd_lcp_down) (use f3 in simp_all)
  have "calm s w w1" unfolding w1_def stop_echo_def by (rule calm_upd_lcp) simp_all
  also have "calm s w1 w2" by (rule kept_calm [OF k2])
  also have c3: "calm s w2 w3" using f3 by simp
  also have "calm s w3 w4" unfolding e4 by (rule calm_upd_lcp) simp_all
  also have "calm s w4 (cancel_call s Call_lcp_layer_finished w4)" by (auto simp: calm_def cancel_call_def listed_def)
  finally have c: "calm s w (cancel_call s Call_lcp_layer_finished w4)" .
  have "\<not> lcp_echo_timer (lcp_of w3 s)"
    using c3 by (simp add: calm_def w2_def w1_def stop_echo_def upd_lcp_def)
  then have "freed L_LCP (cancel_call s Call_lcp_layer_finished w4) s"
    using f3 by (simp add: freed_def cancel_call_def e4 upd_lcp_def)
  then show ?thesis
    using c inv_cancel [OF i4] by (simp add: lcp_layer_free_def Let_def w1_def w2_def w3_def w4_def)
qed

lemma sys_same [simp]:
  "pe_conf (ppp_sys n opts B) = pe_conf B" "pe_kernel (ppp_sys n opts B) = pe_kernel B"
  "pe_auth_handlers (ppp_sys n opts B) = pe_auth_handlers B"
  "pe_auth_start (ppp_sys n opts B) = pe_auth_start B" "pe_auth_finish (ppp_sys n opts B) = pe_auth_finish B"
  by (cases n; simp add: cut_env_def link_env_def)+

lemma sys_frame: "frame_env B \<Longrightarrow> frame_ses (pe_ses (ppp_sys n opts B))"
  by (cases n) (simp_all add: cut_env_def link_env_def frame_env_def frame_ses_def)

lemma frame_envD:
  assumes "frame_env B"
  shows "keeps (pe_auth_start B h)" "keeps (pe_auth_finish B h)" "keeps (pe_layer_free B l)" "keeps (pe_layer_finish B l)"
    "keeps (pe_recv B p)" "keeps (pe_recv_proto_rej B p)"
  using assms by (simp_all add: frame_env_def)

lemma frame_env_layers:
  assumes "frame_env B"
  shows "kept w (fst (pe_layer_start B l s w))" "pe_layer_init B l s w = Some (w', f) \<Longrightarrow> kept w w'"
proof -
  have "keeps (\<lambda>s w. fst (pe_layer_start B l s w))" using assms by (simp add: frame_env_def)
  then show "kept w (fst (pe_layer_start B l s w))" by (simp add: keeps_def)
  assume "pe_layer_init B l s w = Some (w', f)"
  moreover have "\<forall>l s w w' f. pe_layer_init B l s w = Some (w', f) \<longrightarrow> kept w w'"
    using assms unfolding frame_env_def by (elim conjE) assumption
  ultimately show "kept w w'" by blast
qed

lemma sys_free:
  assumes "frame_env B"
  shows "free_contract na mo (ppp_sys (Suc n) opts B)"
  unfolding free_contract_def
proof (intro allI impI)
  fix l s w
  assume inv: "ppp_inv na mo {s} w"
  let ?E = "ppp_sys n opts B"
  have fin: "keeps (pe_auth_finish ?E h)" for h using frame_envD(2) [OF assms] by simp
  consider "l = L_LCP" | "l = L_AUTH" | "l \<noteq> L_LCP" "l \<noteq> L_AUTH" by blast
  then show "ppp_inv na mo {s} (pe_layer_free (ppp_sys (Suc n) opts B) l s w) \<and>
      calm s w (pe_layer_free (ppp_sys (Suc n) opts B) l s w) \<and> freed l (pe_layer_free (ppp_sys (Suc n) opts B) l s w) s"
  proof cases
    case 1
    then show ?thesis using lcp_layer_free_inv [OF fin inv] by (simp add: link_env_def)
  next
    case 2
    then show ?thesis using inv_cancel [OF inv]
      by (auto simp: link_env_def auth_layer_free_def freed_def calm_def cancel_call_def listed_def)
  next
    case 3
    have k: "kept w (pe_layer_free B l s w)" using frame_envD(3) [OF assms] by simp
    then show ?thesis using 3 kept_inv [OF k inv] kept_calm [OF k] by (simp add: link_env_def freed_def)
  qed
qed

lemma layers_ok_filter: "layers_ok ls \<Longrightarrow> layers_ok (map (filter P) ls)"
  by (auto simp: layers_ok_def distinct_map inj_on_def simp flip: filter_concat)

lemma conn_ok_layers:
  assumes "conn_ok na mo w s" "layers_ok (f (c_layers (conns w s)))"
    "na \<Longrightarrow> list_ex past_auth (concat (f (c_layers (conns w s)))) \<Longrightarrow> ev_count w EV_SES_AUTHORIZED s > 0"
  shows "conn_ok na mo (upd_conn s (\<lambda>c. c\<lparr>c_layers := f (c_layers c)\<rparr>) w) s"
  using assms by (simp add: conn_ok_def Let_def)

lemma inv_filter_layers:
  assumes "ppp_inv na mo {s} w"
  shows "ppp_inv na mo {s} (upd_conn s (\<lambda>c. c\<lparr>c_layers := map (filter P) (c_layers c)\<rparr>) w)"
proof (rule inv_upd_conn [OF assms])
  show "conn_ok na mo (upd_conn s (\<lambda>c. c\<lparr>c_layers := map (filter P) (c_layers c)\<rparr>) w) s"
    by (rule conn_ok_layers [OF invD(4) [OF assms]])
      (use invD(4) [OF assms, of s] in \<open>auto simp: conn_ok_def Let_def layers_ok_filter list_ex_iff\<close>)
qed simp

lemma inv_no_layers:
  assumes "ppp_inv na mo {s} w"
  shows "ppp_inv na mo {s} (upd_conn s (\<lambda>c. c\<lparr>c_layers := []\<rparr>) w)"
proof (rule inv_upd_conn [OF assms])
  show "conn_ok na mo (upd_conn s (\<lambda>c. c\<lparr>c_layers := []\<rparr>) w) s"
    by (rule conn_ok_layers [OF invD(4) [OF assms], where f = "\<lambda>_. []"]) (simp_all add: layers_ok_def)
qed simp

lemma free_list_inv:
  assumes E: "free_contract na mo E" and inv: "ppp_inv na mo {s} w"
  shows "ppp_inv na mo {s} (free_layer_list E s ls w) \<and> calm s w (free_layer_list E s ls w) \<and>
    (\<forall>l \<in> set ls. freed l (free_layer_list E s ls w) s)"
  using inv
proof (induction ls arbitrary: w)
  case (Cons l ls)
  let ?f = "map (filter (\<lambda>d. ld_layer d \<noteq> l))"
  define u where "u = upd_conn s (\<lambda>c. c\<lparr>c_layers := ?f (c_layers c)\<rparr>) w"
  define v where "v = pe_layer_free E l s u"
  have "ppp_inv na mo {s} u" unfolding u_def by (rule inv_filter_layers [OF Cons.prems])
  then have v: "ppp_inv na mo {s} v" "calm s u v" "freed l v s" using E by (simp_all add: free_contract_def v_def)
  have "calm s w u" by (simp add: calm_def u_def)
  note IH = Cons.IH [OF v(1)]
  have "calm s w (free_layer_list E s ls v)" using \<open>calm s w u\<close> v(2) IH calm_trans by blast
  then show ?case using IH v(3) freed_calm [OF v(3)] by (simp add: u_def v_def)
qed simp

lemma free_layers_inv:
  assumes E: "free_contract na mo E" and inv: "ppp_inv na mo {s} w"
  shows "ppp_inv na mo {s} (free_layers E s w) \<and> calm s w (free_layers E s w) \<and> c_layers (conns (free_layers E s w) s) = [] \<and>
    (\<forall>l \<in> ld_layer ` set (concat (c_layers (conns w s))). freed l (free_layers E s w) s)"
proof -
  define u where "u = free_layer_list E s (map ld_layer (concat (c_layers (conns w s)))) w"
  define v where "v = upd_conn s (\<lambda>c. c\<lparr>c_layers := []\<rparr>) u"
  note f = free_list_inv [OF E inv, of "map ld_layer (concat (c_layers (conns w s)))", folded u_def]
  have "ppp_inv na mo {s} v" unfolding v_def using f by (simp add: inv_no_layers)
  moreover have c: "calm s u v" by (simp add: calm_def v_def)
  moreover have "calm s w v" using f c calm_trans by blast
  moreover have "\<forall>l \<in> ld_layer ` set (concat (c_layers (conns w s))). freed l v s"
    using f freed_calm [OF _ c] by simp
  moreover have "free_layers E s w = v" by (simp add: free_layers_def u_def v_def)
  ultimately show ?thesis by (simp add: v_def)
qed

section \<open>The connection is gone\<close>

lemma inv_settle:
  assumes "ppp_inv na mo {s} w" "settled mo w s"
  shows "ppp_inv na mo {} w"
  using assms by (auto simp: ppp_inv_def)

lemma kept_clear_buf [simp, intro]: "kept w (upd_conn s (\<lambda>c. c\<lparr>c_buf := b\<rparr>) w)"
  by (rule kept_upd_conn) (simp add: conn_core_def)

lemma destroy_inv:
  assumes E: "free_contract na mo E" and inv: "ppp_inv na mo {s} w"
    and s: "\<not> listed w s" "\<not> ses_timer (sessions w s)" "mo \<Longrightarrow> \<not> c_unit_hnd (conns w s)" "c_unit_fd (conns w s) < 0"
      "{L_LCP, L_AUTH} \<subseteq> ld_layer ` set (concat (c_layers (conns w s)))"
  shows "ppp_inv na mo {} (destroy_ppp_channel E s w) \<and> \<not> listed (destroy_ppp_channel E s w) s"
proof -
  define u where "u = upd_conn s (\<lambda>c. c\<lparr>c_chan_hnd := False, c_fd := -1, c_chan_fd := -1\<rparr>) w"
  have u: "ppp_inv na mo {s} u" unfolding u_def
    by (rule inv_upd_conn [OF inv]) (use invD(4) [OF inv, of s] in \<open>simp_all add: conn_ok_def Let_def\<close>)
  define v where "v = free_layers E s u"
  note f = free_layers_inv [OF E u, folded v_def]
  have fr: "freed l v s" if "l \<in> ld_layer ` set (concat (c_layers (conns w s)))" for l
    using f that by (auto simp: u_def)
  have off: "freed L_LCP v s" "freed L_AUTH v s" using s(5) by (simp_all only: insert_subset fr)
  have "quiet mo v s"
    unfolding quiet_def own_call_def using f off s(2-4) by (auto simp: calm_def freed_def u_def)
  moreover have "\<not> listed v s" using f s(1) by (simp add: calm_def u_def)
  ultimately have "ppp_inv na mo {} v" "\<not> listed v s" using inv_settle [of na mo s v] f by (simp_all add: settled_def)
  then show ?thesis
    using kept_inv [OF kept_clear_buf] kept_listed [OF kept_clear_buf] by (simp add: destroy_ppp_channel_def u_def v_def)
qed

lemma inv_unit_hnd_off:
  assumes "ppp_inv na mo X w"
  shows "ppp_inv na mo X (upd_conn s (\<lambda>c. c\<lparr>c_unit_hnd := False\<rparr>) w)"
proof (rule inv_upd_conn [OF assms])
  show "conn_ok na mo (upd_conn s (\<lambda>c. c\<lparr>c_unit_hnd := False\<rparr>) w) s"
    using invD(4) [OF assms, of s] by (simp add: conn_ok_def Let_def)
  assume "s \<notin> X"
  from invD(5) [OF assms this] show "settled mo (upd_conn s (\<lambda>c. c\<lparr>c_unit_hnd := False\<rparr>) w) s"
    by (auto simp: settled_def quiet_def lcp_held_def ppp_find_layer_data_def)
qed

lemma inv_uc_append:
  assumes "ppp_inv na mo X w" "\<forall>x \<in> set uc. fst x \<ge> 0"
  shows "ppp_inv na mo X (w\<lparr>uc_list := uc_list w @ uc\<rparr>)"
proof -
  have "ses_ok (w\<lparr>uc_list := uc\<rparr>) t = ses_ok w t" "conn_ok na mo (w\<lparr>uc_list := uc\<rparr>) t = conn_ok na mo w t"
    "settled mo (w\<lparr>uc_list := uc\<rparr>) t = settled mo w t" for t uc
    by (simp_all add: ses_ok_def conn_ok_def settled_def quiet_def listed_def ev_count_def)
  then show ?thesis using assms by (auto simp: ppp_inv_def stat_ok_def count_in_def)
qed

lemma listed_layers:
  assumes "ppp_inv na mo X w" "s \<notin> X" "listed w s"
  shows "{L_LCP, L_AUTH} \<subseteq> ld_layer ` set (concat (c_layers (conns w s)))"
  using invD(5) [OF assms(1,2)] assms(3) unfolding settled_def by (simp only: if_True)

lemma destablish_inv:
  assumes E: "free_contract na mo E" and fr: "frame_ses (pe_ses E)" and inv: "ppp_inv na mo {} w"
    and s: "listed w s" "ses_terminating (sessions w s)"
  shows "ppp_inv na mo {} (destablish_ppp E s w) \<and> \<not> listed (destablish_ppp E s w) s"
proof (cases "c_unit_fd (conns w s) < 0")
  case True
  define u where "u = ap_session_finished (pe_ses E) s w"
  note f = finished_inv [OF fr inv s, folded u_def]
  have "mo \<longrightarrow> \<not> c_unit_hnd (conns u s)" "c_layers (conns u s) = c_layers (conns w s)" "c_unit_fd (conns u s) < 0"
    using f True invD(4) [OF inv, of s] by (auto simp: conn_core_def conn_ok_def Let_def)
  then show ?thesis
    using destroy_inv [OF E, of s u] f listed_layers [OF inv _ s(1)] True by (simp add: destablish_ppp_def u_def)
next
  case False
  define w1 where "w1 = upd_conn s (\<lambda>c. c\<lparr>c_unit_hnd := False\<rparr>) w"
  have i1: "ppp_inv na mo {} w1" unfolding w1_def by (rule inv_unit_hnd_off [OF inv])
  define u where "u = ap_session_finished (pe_ses E) s w1"
  have s1: "listed w1 s" "ses_terminating (sessions w1 s)" using s by (simp_all add: w1_def)
  note f = finished_inv [OF fr i1 s1, folded u_def]
  have hu: "\<not> c_unit_hnd (conns u s)" "c_layers (conns u s) = c_layers (conns w s)"
    using f by (simp_all add: conn_core_def w1_def)
  define v where "v = upd_conn s (\<lambda>c. c\<lparr>c_unit_fd := -1\<rparr>) u"
  have "ppp_inv na mo {s} v" unfolding v_def
    by (rule inv_upd_conn) (use f hu invD(4) [of na mo "{s}" u s] in \<open>auto simp: conn_ok_def Let_def\<close>)
  then have d: "ppp_inv na mo {} (destroy_ppp_channel E s v) \<and> \<not> listed (destroy_ppp_channel E s v) s"
    using destroy_inv [OF E, of s v] f hu listed_layers [OF inv _ s(1)] by (simp add: v_def)
  define uc where "uc = (if conf_unit_cache (pe_conf E) \<noteq> 0 \<and>
      (ses_ifname (sessions w s) = ''ppp'' @ show_int (ses_unit_idx (sessions w s)) \<or> k_rename (pe_kernel E))
    then [(c_unit_fd (conns w s), ses_unit_idx (sessions w s))] else [])"
  have "destablish_ppp E s w = (destroy_ppp_channel E s v)\<lparr>uc_list := uc_list (destroy_ppp_channel E s v) @ uc\<rparr>"
    using False by (simp only: destablish_ppp_def Let_def uc_def v_def u_def w1_def if_False)
  moreover have "\<forall>x \<in> set uc. fst x \<ge> 0" using False by (simp add: uc_def)
  ultimately show ?thesis using inv_uc_append d by (simp add: listed_def)
qed

end
