(* ===== verification/PppFsmCorrect.thy ===== *)
theory PppFsmCorrect
  imports PppFsm
begin

text \<open>
  Correctness of the negotiation automaton. \<open>fsm_client\<close> is the contract a protocol keeps towards
  the automaton: access to the embedded structure is a lens, and the functions that send
  packets leave its state, counters and timer alone. Under that contract the time-out
  behaviour is proved once. A client that only records what it is asked to do relates the
  automaton to the transition table of RFC 1661.
\<close>

section \<open>The contract of a client\<close>

definition same_core :: "ppp_fsm \<Rightarrow> ppp_fsm \<Rightarrow> bool" where
  "same_core f g \<longleftrightarrow> g = f\<lparr>fsm_id := fsm_id g\<rparr>"

lemma same_coreD:
  assumes "same_core f g"
  shows "fsm_state g = fsm_state f" "restart_timer g = restart_timer f" "restart_counter g = restart_counter f"
    "max_terminate g = max_terminate f" "max_configure g = max_configure f" "max_failure g = max_failure f"
    "conf_failure g = conf_failure f" "recv_id g = recv_id f"
  using assms unfolding same_core_def by (metis ppp_fsm.select_convs ppp_fsm.surjective ppp_fsm.update_convs(8))+

lemma same_core_refl [simp]: "same_core f f"
  by (simp add: same_core_def)

text \<open>The state in which a time-out of the last retransmission leaves the automaton.\<close>

definition gave_up :: "FSM_STATE \<Rightarrow> FSM_STATE" where
  "gave_up st = (if st = FSM_Closing then FSM_Closed else FSM_Stopped)"

locale fsm_client =
  fixes ops :: "'s fsm_ops"
  assumes get_put: "get_fsm ops (put_fsm ops f s) = f"
    and conf_req_core: "send_conf_req ops = Some cb \<Longrightarrow> same_core (get_fsm ops s) (get_fsm ops (fst (cb s)))"
    and term_req_core: "same_core (get_fsm ops s) (get_fsm ops (send_term_req ops s))"
begin

lemma get_upd [simp]: "get_fsm ops (upd_fsm ops f s) = f (get_fsm ops s)"
  by (simp add: upd_fsm_def get_put)

lemma get_ops [simp]:
  "get_fsm ops (set_state ops st s) = (get_fsm ops s)\<lparr>fsm_state := st\<rparr>"
  "get_fsm ops (stop_timer ops s) = (get_fsm ops s)\<lparr>restart_timer := False\<rparr>"
  "get_fsm ops (dec_counter ops s) = (get_fsm ops s)\<lparr>restart_counter := restart_counter (get_fsm ops s) - 1\<rparr>"
  by (simp_all add: set_state_def stop_timer_def dec_counter_def)

lemma conf_req_call_core: "same_core (get_fsm ops s) (get_fsm ops (fst (conf_req_call ops s)))"
  by (auto simp: conf_req_call_def conf_req_core split: option.split)

lemma resend_fields:
  "fsm_state (get_fsm ops (resend_conf_req ops s)) = fsm_state (get_fsm ops s)"
  "restart_timer (get_fsm ops (resend_conf_req ops s)) = restart_timer (get_fsm ops s)"
  "restart_counter (get_fsm ops (resend_conf_req ops s)) = restart_counter (get_fsm ops s) - 1"
  using same_coreD [OF conf_req_call_core [of "dec_counter ops s"]] by (simp_all add: resend_conf_req_def)

lemma term_req_fields:
  "fsm_state (get_fsm ops (send_term_req ops s)) = fsm_state (get_fsm ops s)"
  "restart_timer (get_fsm ops (send_term_req ops s)) = restart_timer (get_fsm ops s)"
  "restart_counter (get_fsm ops (send_term_req ops s)) = restart_counter (get_fsm ops s)"
  using same_coreD [OF term_req_core [of s]] by simp_all

text \<open>A tick with the counter above zero retransmits and counts down.\<close>

lemma tick_retransmit:
  assumes "restart_counter (get_fsm ops s) > 0"
    and "state_of ops s \<in> {FSM_Req_Sent, FSM_Ack_Rcvd, FSM_Ack_Sent, FSM_Closing, FSM_Stopping}"
  shows "restart_counter (get_fsm ops (restart_timer_func ops s)) = restart_counter (get_fsm ops s) - 1"
    and "restart_timer (get_fsm ops (restart_timer_func ops s)) = restart_timer (get_fsm ops s)"
    and "state_of ops (restart_timer_func ops s) =
      (if state_of ops s = FSM_Ack_Rcvd then FSM_Req_Sent else state_of ops s)"
  using assms
  by (auto simp: restart_timer_func_def ppp_fsm_timeout0_def state_of_def resend_fields term_req_fields)

text \<open>A tick with the counter at zero gives up.\<close>

lemma tick_give_up:
  assumes "restart_counter (get_fsm ops s) \<le> 0"
    and "state_of ops s \<in> {FSM_Req_Sent, FSM_Ack_Rcvd, FSM_Ack_Sent, FSM_Closing, FSM_Stopping}"
  shows "restart_timer_func ops s = finish_in ops (gave_up (state_of ops s)) (stop_timer ops s)"
  using assms by (auto simp: restart_timer_func_def ppp_fsm_timeout1_def gave_up_def)

lemma ticks:
  assumes "restart_counter (get_fsm ops s) = int k"
    and "state_of ops s \<in> {FSM_Req_Sent, FSM_Ack_Rcvd, FSM_Ack_Sent, FSM_Closing, FSM_Stopping}"
  shows "restart_counter (get_fsm ops ((restart_timer_func ops ^^ k) s)) = 0 \<and>
    state_of ops ((restart_timer_func ops ^^ k) s) \<in>
      {state_of ops s, (if state_of ops s = FSM_Ack_Rcvd then FSM_Req_Sent else state_of ops s)}"
  using assms
proof (induction k arbitrary: s)
  case (Suc k)
  let ?s = "restart_timer_func ops s"
  have pos: "restart_counter (get_fsm ops s) > 0" using Suc.prems by simp
  note tick = tick_retransmit [OF pos Suc.prems(2)]
  have st: "state_of ops ?s \<in> {FSM_Req_Sent, FSM_Ack_Rcvd, FSM_Ack_Sent, FSM_Closing, FSM_Stopping}"
    and c: "restart_counter (get_fsm ops ?s) = int k"
    using Suc.prems tick by auto
  show ?case using Suc.IH [OF c st] tick(3) by (auto simp: funpow_swap1 split: if_splits)
qed simp

lemma negotiation_ends:
  assumes "restart_counter (get_fsm ops s) = int k"
    and "state_of ops s \<in> {FSM_Req_Sent, FSM_Ack_Rcvd, FSM_Ack_Sent, FSM_Closing, FSM_Stopping}"
  shows "\<exists>t. (restart_timer_func ops ^^ Suc k) s = opt_call (layer_finished ops) t \<and>
    state_of ops t = gave_up (state_of ops s) \<and> \<not> restart_timer (get_fsm ops t)"
proof -
  let ?t = "(restart_timer_func ops ^^ k) s"
  have st: "state_of ops ?t \<in> {FSM_Req_Sent, FSM_Ack_Rcvd, FSM_Ack_Sent, FSM_Closing, FSM_Stopping}"
    using ticks [OF assms] assms(2) by (auto split: if_splits)
  have "restart_counter (get_fsm ops ?t) \<le> 0" using ticks [OF assms] by simp
  then have "restart_timer_func ops ?t = finish_in ops (gave_up (state_of ops ?t)) (stop_timer ops ?t)"
    using st by (rule tick_give_up)
  moreover have "gave_up (state_of ops ?t) = gave_up (state_of ops s)"
    using ticks [OF assms] by (auto simp: gave_up_def split: if_splits)
  ultimately show ?thesis
    by (intro exI [of _ "set_state ops (gave_up (state_of ops s)) (stop_timer ops ?t)"])
      (simp add: finish_in_def state_of_def)
qed

end

section \<open>The recording client and RFC 1661\<close>

datatype fsm_action = Tlu | Tld | Tls | Tlf | Scr | Sca | Scn | Scj | Str | Sta | Sxj

type_synonym tr_state = "ppp_fsm \<times> fsm_action list"

definition tr_ops :: "tr_state fsm_ops" where
  "tr_ops =
     (let rec = (\<lambda>a (f, as). (f, as @ [a]))
      in \<lparr>get_fsm = fst, put_fsm = (\<lambda>f (_, as). (f, as)),
         layer_up = Some (rec Tlu), layer_down = Some (rec Tld), layer_started = Some (rec Tls),
         layer_finished = Some (rec Tlf), send_conf_req = Some (\<lambda>s. (rec Scr s, False)),
         send_conf_ack = Some (rec Sca), send_conf_nak = Some (rec Scn), send_conf_rej = Some (rec Scj),
         send_code_rej = Some (rec Sxj), send_term_req = rec Str, send_term_ack = rec Sta\<rparr>)"

interpretation tr: fsm_client tr_ops
  by unfold_locales (auto simp: tr_ops_def Let_def)

datatype fsm_event =
    EvUp | EvDown | EvOpen | EvClose | EvTO | EvRCRack | EvRCRnak | EvRCRrej | EvRCA | EvRCN | EvRTR | EvRTA | EvRUC
  | EvRXJperm | EvRXJbad

definition fsm_handle :: "'s fsm_ops \<Rightarrow> fsm_event \<Rightarrow> 's \<Rightarrow> 's" where
  "fsm_handle ops ev s =
     (case ev of
        EvUp \<Rightarrow> fst (ppp_fsm_lower_up ops s) | EvDown \<Rightarrow> ppp_fsm_lower_down ops s
      | EvOpen \<Rightarrow> fst (ppp_fsm_open ops s) | EvClose \<Rightarrow> ppp_fsm_close ops s
      | EvTO \<Rightarrow> restart_timer_func ops s
      | EvRCRack \<Rightarrow> ppp_fsm_recv_conf_req_ack ops s | EvRCRnak \<Rightarrow> ppp_fsm_recv_conf_req_nak ops s
      | EvRCRrej \<Rightarrow> ppp_fsm_recv_conf_req_rej ops s | EvRCA \<Rightarrow> ppp_fsm_recv_conf_ack ops s
      | EvRCN \<Rightarrow> ppp_fsm_recv_conf_rej ops s | EvRTR \<Rightarrow> ppp_fsm_recv_term_req ops s
      | EvRTA \<Rightarrow> ppp_fsm_recv_term_ack ops s | EvRUC \<Rightarrow> ppp_fsm_recv_unk ops s
      | EvRXJperm \<Rightarrow> ppp_fsm_recv_code_rej_perm ops s | EvRXJbad \<Rightarrow> ppp_fsm_recv_code_rej_bad ops s)"



lemmas fsm_defs = fsm_handle_def ppp_fsm_lower_up_def ppp_fsm_lower_down_def ppp_fsm_open_def ppp_fsm_close_def
  restart_timer_func_def ppp_fsm_timeout0_def ppp_fsm_timeout1_def ppp_fsm_recv_conf_req_ack_def
  ppp_fsm_recv_conf_req_nak_def ppp_fsm_recv_conf_req_rej_def ppp_fsm_recv_conf_ack_def ppp_fsm_recv_conf_rej_def
  ppp_fsm_recv_term_req_def ppp_fsm_recv_term_ack_def ppp_fsm_recv_unk_def ppp_fsm_recv_code_rej_perm_def
  ppp_fsm_recv_code_rej_bad_def send_term_def resend_conf_req_def restart_conf_req_def finish_in_def
  init_req_counter_def zero_req_counter_def dec_counter_def inc_failure_def failure_limit_def next_id_def
  stop_timer_def set_state_def upd_fsm_def state_of_def conf_req_call_def opt_call_def

lemmas tr_defs = fsm_defs tr_ops_def Let_def

section \<open>What the automaton has seen\<close>

definition agreed :: "FSM_STATE \<Rightarrow> fsm_event list \<Rightarrow> fsm_action list \<Rightarrow> bool" where
  "agreed st evs acts \<longleftrightarrow>
     (st = FSM_Ack_Sent \<longrightarrow> EvRCRack \<in> set evs \<and> Sca \<in> set acts) \<and>
     (st = FSM_Ack_Rcvd \<longrightarrow> EvRCA \<in> set evs) \<and>
     (st = FSM_Opened \<longrightarrow> EvRCRack \<in> set evs \<and> EvRCA \<in> set evs \<and> Sca \<in> set acts \<and> Tlu \<in> set acts)"

lemma agreed_step:
  assumes "agreed (fsm_state f) evs as"
  shows "agreed (fsm_state (fst (fsm_handle tr_ops ev (f, as)))) (evs @ [ev]) (snd (fsm_handle tr_ops ev (f, as)))"
  using assms
  by (cases ev; cases "fsm_state f") (auto simp: tr_defs agreed_def)

lemma fsm_agreed_run:
  assumes "fsm_state f = FSM_Initial"
  shows "agreed (fsm_state (fst (fold (fsm_handle tr_ops) evs (f, as)))) evs (snd (fold (fsm_handle tr_ops) evs (f, as)))"
proof (induction evs rule: rev_induct)
  case Nil
  then show ?case using assms by (simp add: agreed_def)
next
  case (snoc ev evs)
  then show ?case
    using agreed_step [of "fst (fold (fsm_handle tr_ops) evs (f, as))" evs "snd (fold (fsm_handle tr_ops) evs (f, as))" ev]
    by simp
qed

section \<open>Properties\<close>


definition fsm0 :: "FSM_STATE \<Rightarrow> bool \<Rightarrow> int \<Rightarrow> ppp_fsm" where
  "fsm0 st tm cnt = \<lparr>fsm_state = st, restart_timer = tm, restart_counter = cnt, max_terminate = 2, max_configure = 10,
     max_failure = 10, conf_failure = 0, fsm_id = 0, recv_id = 0\<rparr>"


text \<open>
  C28. Negotiation and termination end. For every protocol built on the automaton: if the timer
  only ticks, the automaton retransmits while the restart counter is positive and then, at tick
  number counter + 1, stops the timer, enters \<open>FSM_Closed\<close> or \<open>FSM_Stopped\<close> and reports that the
  layer finished.
\<close>

theorem fsm_negotiation_ends:
  assumes "fsm_client ops" "restart_counter (get_fsm ops s) = int k"
    and "state_of ops s \<in> {FSM_Req_Sent, FSM_Ack_Rcvd, FSM_Ack_Sent, FSM_Closing, FSM_Stopping}"
  shows "\<exists>t. (restart_timer_func ops ^^ Suc k) s = opt_call (layer_finished ops) t \<and>
    state_of ops t = (if state_of ops s = FSM_Closing then FSM_Closed else FSM_Stopped) \<and>
    \<not> restart_timer (get_fsm ops t)"
  using fsm_client.negotiation_ends [OF assms] by (simp add: gave_up_def)

theorem fsm_negotiation_ends_witness:
  "\<exists>t. (restart_timer_func tr_ops ^^ 3) (fsm0 FSM_Req_Sent True 2, []) = opt_call (layer_finished tr_ops) t \<and>
    state_of tr_ops t = FSM_Stopped"
  using fsm_negotiation_ends [OF tr.fsm_client_axioms, of "(fsm0 FSM_Req_Sent True 2, [])" 2]
  by (auto simp: tr_defs fsm0_def numeral_3_eq_3)






text \<open>
  C36. A layer comes up only after both sides agreed: whatever the sequence of events since
  initialisation, the automaton is in \<open>FSM_Opened\<close> only if an acceptable Configure-Request was
  received (and acknowledged) and a Configure-Ack was received.
\<close>

theorem fsm_opened_both_agreed:
  assumes "fsm_state f = FSM_Initial" "fsm_state (fst (fold (fsm_handle tr_ops) evs (f, as))) = FSM_Opened"
  shows "EvRCRack \<in> set evs \<and> EvRCA \<in> set evs \<and> {Sca, Tlu} \<subseteq> set (snd (fold (fsm_handle tr_ops) evs (f, as)))"
  using fsm_agreed_run [OF assms(1), of evs as] assms(2) by (simp add: agreed_def)

theorem fsm_opened_both_agreed_witness:
  "let evs = [EvUp, EvOpen, EvRCRack, EvRCA]; f = fsm0 FSM_Initial False 0
   in fsm_state (fst (fold (fsm_handle tr_ops) evs (f, []))) = FSM_Opened \<and>
      {Sca, Tlu} \<subseteq> set (snd (fold (fsm_handle tr_ops) evs (f, [])))"
proof -
  have 1: "fsm_state (fsm0 FSM_Initial False 0) = FSM_Initial" by (simp add: fsm0_def)
  have 2: "fsm_state (fst (fold (fsm_handle tr_ops) [EvUp, EvOpen, EvRCRack, EvRCA] (fsm0 FSM_Initial False 0, []))) = FSM_Opened"
    by (simp add: tr_defs fsm0_def)
  show ?thesis unfolding Let_def using fsm_opened_both_agreed [OF 1 2] 2 by blast
qed

end
