(* ===== verification/PppLcpInv.thy ===== *)
theory PppLcpInv
  imports PppDestroy PppFsmCorrect
begin

text \<open>
  LCP and the invariant: the updates of the automaton embedded in a connection, and the
  packets LCP sends.
\<close>

section \<open>Updates of the automaton\<close>

lemma upd_lcp_sel [simp]:
  "lcp_of (upd_lcp s f w) t = (if t = s then f (lcp_of w s) else lcp_of w t)"
  "auth_of (upd_lcp s f w) t = auth_of w t" "sessions (upd_lcp s f w) = sessions w"
  "c_layers (conns (upd_lcp s f w) t) = c_layers (conns w t)" "c_mtu (conns (upd_lcp s f w) t) = c_mtu (conns w t)"
  "c_buf (conns (upd_lcp s f w) t) = c_buf (conns w t)" "listed (upd_lcp s f w) t = listed w t"
  "broken (upd_lcp s f w) = broken w" "ev_count (upd_lcp s f w) ev t = ev_count w ev t" "calls (upd_lcp s f w) = calls w"
  "lcp_held (conns (upd_lcp s f w) t) = lcp_held (conns w t)"
  by (simp_all add: upd_lcp_def lcp_held_def ppp_find_layer_data_def)

lemma opt_core_same:
  assumes "map opt_core os = map opt_core os'"
  shows "kind_of ` lo_data ` set os = kind_of ` lo_data ` set os'"
    "(\<forall>lopt \<in> set os. lo_state lopt = LCP_OPT_NAK \<longrightarrow> kind_of (lo_data lopt) \<in> {KMru, KMagic}) \<longleftrightarrow>
     (\<forall>lopt \<in> set os'. lo_state lopt = LCP_OPT_NAK \<longrightarrow> kind_of (lo_data lopt) \<in> {KMru, KMagic})"
  unfolding opt_core_kinds opt_core_naks using assms by simp_all

lemma inv_upd_lcp:
  assumes inv: "ppp_inv na mo X w"
    and st: "fsm_state (lcp_fsm (f (lcp_of w s))) \<noteq> FSM_Starting"
      "na \<Longrightarrow> ao_auth (auth_of w s) = None \<Longrightarrow> fsm_state (lcp_fsm (f (lcp_of w s))) \<in> {FSM_Initial, FSM_Closed}"
    and os: "map opt_core (lcp_opts (f (lcp_of w s))) = map opt_core (lcp_opts (lcp_of w s))"
    and tm: "restart_timer (lcp_fsm (f (lcp_of w s))) \<Longrightarrow> restart_timer (lcp_fsm (lcp_of w s)) \<or> listed w s"
      "lcp_echo_timer (f (lcp_of w s)) \<Longrightarrow> lcp_echo_timer (lcp_of w s) \<or> listed w s"
  shows "ppp_inv na mo X (upd_lcp s f w)"
  unfolding upd_lcp_def
proof (rule inv_upd_conn [OF inv])
  show "conn_ok na mo (upd_conn s (\<lambda>c. c\<lparr>c_lcp := f (c_lcp c)\<rparr>) w) s"
    using invD(4) [OF inv, of s] st opt_core_same [OF os] by (simp add: conn_ok_def Let_def)
  assume "s \<notin> X"
  from invD(5) [OF inv this] show "settled mo (upd_conn s (\<lambda>c. c\<lparr>c_lcp := f (c_lcp c)\<rparr>) w) s"
    using tm opt_core_same(1) [OF os] by (auto simp: settled_def quiet_def lcp_held_def ppp_find_layer_data_def)
qed

lemma inv_start: "ppp_inv na mo X w \<Longrightarrow> fsm_state (lcp_fsm (lcp_of w s)) \<noteq> FSM_Starting"
  using invD(4) [of na mo X w s] by (simp add: conn_ok_def Let_def)

lemma inv_na: "ppp_inv na mo X w \<Longrightarrow> na \<Longrightarrow> ao_auth (auth_of w s) = None \<Longrightarrow>
    fsm_state (lcp_fsm (lcp_of w s)) \<in> {FSM_Initial, FSM_Closed}"
  using invD(4) [of na mo X w s] by (simp add: conn_ok_def Let_def)

lemma upd_fsm_lcp: "upd_fsm (lcp_ops E s) g w = upd_lcp s (\<lambda>l. l\<lparr>lcp_fsm := g (lcp_fsm l)\<rparr>) w"
  by (simp add: upd_fsm_def lcp_ops_def upd_lcp_def upd_conn_def)

lemmas fsm_lcp = upd_fsm_lcp set_state_def stop_timer_def init_req_counter_def zero_req_counter_def dec_counter_def
  inc_failure_def next_id_def

lemma state_of_lcp [simp]: "state_of (lcp_ops E s) w = fsm_state (lcp_fsm (lcp_of w s))"
  by (simp add: state_of_def lcp_ops_def)

section \<open>Packets sent\<close>

lemma kept_send_back [simp, intro]: "kept w (send_back code s w)"
  unfolding send_back_def Let_def by (rule kept_trans [OF kept_clear_buf kept_chan_send])

lemma kept_lcp_fields:
  "kept w (upd_lcp s (\<lambda>l. l\<lparr>lcp_fsm := (lcp_fsm l)\<lparr>fsm_id := i\<rparr>\<rparr>) w)"
  by (rule kept_upd_lcp) (simp add: lcp_core_def)

lemma kept_send_term_req [simp, intro]: "kept w (lcp_send_term_req s w)"
  unfolding lcp_send_term_req_def Let_def
  by (rule kept_trans [OF _ kept_chan_send], rule kept_upd_lcp) (simp add: lcp_core_def)

lemma kept_send_simple [simp, intro]:
  "kept w (lcp_send_term_ack s w)" "kept w (lcp_send_conf_ack s w)" "kept w (lcp_send_code_rej s w)" "kept w (lcp_send_conf_rej s w)"
  by (simp_all add: lcp_send_term_ack_def lcp_send_conf_ack_def lcp_send_code_rej_def lcp_send_conf_rej_def)

lemma kept_draw_magic [simp, intro]: "kept w (snd (draw_magic s old w))"
  by (auto simp: draw_magic_def conn_core_def intro!: kept_upd_conn split: option.split)

lemma kept_collect_nak:
  assumes "\<forall>lopt \<in> set os. lo_state lopt = LCP_OPT_NAK \<longrightarrow> kind_of (lo_data lopt) \<in> {KMru, KMagic}"
  shows "kept w (fst (collect_nak E s os w))"
  using assms
proof (induction os arbitrary: w)
  case (Cons lopt os)
  have "kept w (fst (opt_send_conf_nak E s lopt w))" if "lo_state lopt = LCP_OPT_NAK"
    using Cons.prems that kept_draw_magic [of w s]
    by (cases "lo_data lopt") (auto simp: opt_send_conf_nak_def magic_send_conf_nak_def Let_def case_prod_beta)
  then show ?case using Cons kept_trans by (fastforce simp: Let_def case_prod_beta)
qed simp

lemma kept_send_conf_nak:
  assumes "ppp_inv na mo X w"
  shows "kept w (lcp_send_conf_nak E s w)"
proof -
  have "kept w (fst (collect_nak E s (lcp_opts (lcp_of w s)) w))"
    using invD(4) [OF assms, of s] by (intro kept_collect_nak) (simp add: conn_ok_def Let_def)
  then show ?thesis
    by (simp add: lcp_send_conf_nak_def Let_def case_prod_beta) (rule kept_trans [OF _ kept_chan_send])
qed

section \<open>Configure-Request\<close>

lemma first_usable_bound: "first_usable ds i = Some j \<Longrightarrow> i \<le> j \<and> j < i + length ds \<and> ad_state (ds ! (j - i)) \<noteq> LCP_OPT_NAK"
proof (induction ds i rule: first_usable.induct)
  case (2 d ds i)
  have "(d # ds) ! (j - i) = ds ! (j - Suc i)" if "Suc i \<le> j"
    using that by (simp add: nth_Cons' [of d])
  then show ?case using 2 by (auto split: if_splits)
qed simp

lemma first_usable_fresh: "\<forall>d \<in> set ds. ad_state d = LCP_OPT_NONE \<Longrightarrow> ds \<noteq> [] \<Longrightarrow> first_usable ds i = Some i"
  by (cases ds) simp_all

lemma auth_choose_sel [simp]: "ao_list (auth_choose a) = ao_list a" "ao_started (auth_choose a) = ao_started a"
  by (simp_all add: auth_choose_def split: option.split)

lemma auth_choose_some: "ao_auth a \<noteq> None \<Longrightarrow> ao_auth (auth_choose a) \<noteq> None"
  by (auto simp: auth_choose_def split: option.split)

lemma auth_choose_fresh: "auth_state_ok a \<Longrightarrow> ao_list a \<noteq> [] \<Longrightarrow> ao_auth (auth_choose a) \<noteq> None"
  by (cases "ao_auth a") (simp_all add: auth_choose_some, simp add: auth_choose_def auth_state_ok_def first_usable_fresh)

lemma auth_choose_bound:
  assumes "\<And>i. ao_auth a = Some i \<Longrightarrow> i < length (ao_list a)" "ao_auth (auth_choose a) = Some j"
  shows "j < length (ao_list a)"
  using assms first_usable_bound [of "ao_list a" 0] by (auto simp: auth_choose_def split: option.splits if_splits)

lemma auth_choose_idem: "auth_choose (auth_choose a) = auth_choose a"
  using first_usable_bound [of "ao_list a" 0] by (auto simp: auth_choose_def split: option.splits)

lemma auth_choose_ok: "auth_state_ok a \<Longrightarrow> auth_state_ok (auth_choose a)"
  using auth_choose_some [of a] by (auto simp: auth_state_ok_def)

definition asks_auth :: "ppp_env \<Rightarrow> auth_option \<Rightarrow> bool" where
  "asks_auth E a \<longleftrightarrow> ao_list a \<noteq> [] \<and> conf_noauth (pe_conf E) = 0"

lemma upd_auth_sel [simp]:
  "auth_of (upd_auth s f w) t = (if t = s then f (auth_of w s) else auth_of w t)" "lcp_of (upd_auth s f w) t = lcp_of w t"
  "sessions (upd_auth s f w) = sessions w" "listed (upd_auth s f w) t = listed w t" "broken (upd_auth s f w) = broken w"
  "c_layers (conns (upd_auth s f w) t) = c_layers (conns w t)" "lcp_held (conns (upd_auth s f w) t) = lcp_held (conns w t)"
  by (simp_all add: upd_auth_def lcp_held_def ppp_find_layer_data_def)

lemma upd_auth_upd_auth: "upd_auth s (\<lambda>_. b) (upd_auth s (\<lambda>_. a) w) = upd_auth s (\<lambda>_. b) w"
  by (simp add: upd_auth_def upd_conn_def)

lemma upd_auth_id: "upd_auth s (\<lambda>_. auth_of w s) w = w"
  by (simp add: upd_auth_def upd_conn_def)

lemma upd_auth_const: "upd_auth s f w = upd_auth s (\<lambda>_. f (auth_of w s)) w"
  by (simp add: upd_auth_def upd_conn_def)

text \<open>Collecting the options of a request does nothing but choose the authentication method.\<close>

definition req_auth :: "ppp_env \<Rightarrow> lcp_option list \<Rightarrow> auth_option \<Rightarrow> auth_option" where
  "req_auth E os a = (if asks_auth E a \<and> KAuth \<in> kind_of ` lo_data ` set os then auth_choose a else a)"

lemma auth_req_world:
  assumes "auth_state_ok (auth_of w s)"
  shows "fst (auth_send_conf_req E s w) = upd_auth s (\<lambda>_. if asks_auth E (auth_of w s) then auth_choose (auth_of w s) else auth_of w s) w"
  using auth_choose_fresh [OF assms]
  by (auto simp: auth_send_conf_req_def asks_auth_def Let_def upd_auth_id upd_auth_const [of s auth_choose] split: option.split)

lemma collect_req_world:
  assumes "auth_state_ok (auth_of w s)"
  shows "fst (collect_req E s os w) = upd_auth s (\<lambda>_. req_auth E os (auth_of w s)) w"
  using assms
proof (induction os arbitrary: w)
  case Nil
  then show ?case by (simp add: req_auth_def upd_auth_id)
next
  case (Cons lopt os)
  have "fst (opt_send_conf_req E s lopt w) = upd_auth s (\<lambda>_. req_auth E [lopt] (auth_of w s)) w"
    using auth_req_world [OF Cons.prems] by (cases "lo_data lopt") (simp_all add: opt_send_conf_req_def req_auth_def upd_auth_id)
  moreover have "auth_state_ok (req_auth E [lopt] (auth_of w s))"
    using Cons.prems by (simp add: req_auth_def auth_choose_ok)
  ultimately have "fst (collect_req E s (lopt # os) w) =
      upd_auth s (\<lambda>_. req_auth E os (req_auth E [lopt] (auth_of w s))) w"
    using Cons.IH by (simp add: Let_def case_prod_beta upd_auth_upd_auth)
  moreover have "req_auth E os (req_auth E [lopt] a) = req_auth E (lopt # os) a" for a
    by (auto simp: req_auth_def asks_auth_def auth_choose_idem)
  ultimately show ?case by simp
qed

lemma inv_upd_auth:
  assumes inv: "ppp_inv na mo X w"
    and ok: "auth_state_ok (f (auth_of w s))" "ao_started (f (auth_of w s)) = ao_started (auth_of w s)"
      "ao_auth (auth_of w s) \<noteq> None \<Longrightarrow> ao_auth (f (auth_of w s)) \<noteq> None"
    and bd: "\<And>i. listed w s \<Longrightarrow> s \<notin> X \<Longrightarrow> ao_auth (f (auth_of w s)) = Some i \<Longrightarrow>
      i < length (ao_list (f (auth_of w s))) \<and> KAuth \<in> kind_of ` lo_data ` set (lcp_opts (lcp_of w s))"
  shows "ppp_inv na mo X (upd_auth s f w)"
  unfolding upd_auth_def
proof (rule inv_upd_conn [OF inv])
  show "conn_ok na mo (upd_conn s (\<lambda>c. c\<lparr>c_auth := f (c_auth c)\<rparr>) w) s"
    using invD(4) [OF inv, of s] ok by (auto simp: conn_ok_def Let_def)
  assume "s \<notin> X"
  from invD(5) [OF inv this] show "settled mo (upd_conn s (\<lambda>c. c\<lparr>c_auth := f (c_auth c)\<rparr>) w) s"
    using bd [OF _ \<open>s \<notin> X\<close>] ok(2) by (auto simp: settled_def quiet_def lcp_held_def ppp_find_layer_data_def)
qed

lemma inv_auth_ok: "ppp_inv na mo X w \<Longrightarrow> auth_state_ok (auth_of w s)"
  using invD(4) [of na mo X w s] by (simp add: conn_ok_def Let_def)

lemma inv_auth_bound:
  assumes "ppp_inv na mo X w" "s \<notin> X" "listed w s" "ao_auth (auth_of w s) = Some i"
  shows "i < length (ao_list (auth_of w s))" "KAuth \<in> kind_of ` lo_data ` set (lcp_opts (lcp_of w s))"
  using invD(5) [OF assms(1,2)] assms(3,4) by (simp_all add: settled_def)

lemma send_conf_req_world:
  assumes "auth_state_ok (auth_of w s)"
  shows "fst (lcp_send_conf_req E s w) =
    ppp_chan_send s (lcp_packet CONFREQ (fsm_id (lcp_fsm (lcp_of w s))) (snd (collect_req E s (lcp_opts (lcp_of w s)) w)))
      (upd_auth s (\<lambda>_. req_auth E (lcp_opts (lcp_of w s)) (auth_of w s)) w)"
  by (simp add: lcp_send_conf_req_def Let_def case_prod_beta collect_req_world [OF assms])

lemma req_auth_inv:
  assumes "ppp_inv na mo X w"
  shows "ppp_inv na mo X (upd_auth s (\<lambda>_. req_auth E (lcp_opts (lcp_of w s)) (auth_of w s)) w)"
proof (rule inv_upd_auth [OF assms])
  let ?os = "lcp_opts (lcp_of w s)"
  fix i
  assume "listed w s" "s \<notin> X" "ao_auth (req_auth E ?os (auth_of w s)) = Some i"
  then show "i < length (ao_list (req_auth E ?os (auth_of w s))) \<and> KAuth \<in> kind_of ` lo_data ` set (lcp_opts (lcp_of w s))"
    using inv_auth_bound [OF assms] auth_choose_bound [of "auth_of w s" i]
    by (auto simp: req_auth_def split: if_splits)
qed (use inv_auth_ok [OF assms, of s] auth_choose_some in \<open>simp_all add: req_auth_def auth_choose_ok\<close>)

lemma send_conf_req_inv:
  assumes "ppp_inv na mo X w"
  shows "ppp_inv na mo X (fst (lcp_send_conf_req E s w))"
  using kept_inv [OF kept_chan_send req_auth_inv [OF assms]] by (simp add: send_conf_req_world [OF inv_auth_ok [OF assms]])

text \<open>What a Configure-Request leaves alone.\<close>

lemma chan_send_sel [simp]:
  "lcp_of (ppp_chan_send s d w) t = lcp_of w t" "auth_of (ppp_chan_send s d w) t = auth_of w t"
  "sessions (ppp_chan_send s d w) = sessions w" "listed (ppp_chan_send s d w) t = listed w t"
  "lcp_held (conns (ppp_chan_send s d w) t) = lcp_held (conns w t)"
  by (simp_all add: ppp_chan_send_def lcp_held_def ppp_find_layer_data_def)

lemma send_conf_req_sel:
  assumes "auth_state_ok (auth_of w s)"
  shows "lcp_of (fst (lcp_send_conf_req E s w)) t = lcp_of w t" "sessions (fst (lcp_send_conf_req E s w)) = sessions w"
    "listed (fst (lcp_send_conf_req E s w)) t = listed w t"
    "lcp_held (conns (fst (lcp_send_conf_req E s w)) t) = lcp_held (conns w t)"
    "auth_of (fst (lcp_send_conf_req E s w)) s = req_auth E (lcp_opts (lcp_of w s)) (auth_of w s)"
  by (simp_all add: send_conf_req_world [OF assms])

text \<open>LCP is a client of the automaton: it keeps the contract of \<open>fsm_client\<close>.\<close>

lemma collect_req_lcp: "lcp_of (fst (collect_req E s os w)) t = lcp_of w t"
proof (induction os arbitrary: w)
  case (Cons lopt os)
  have "lcp_of (fst (opt_send_conf_req E s lopt w)) t = lcp_of w t" for w
    by (cases "lo_data lopt")
      (simp_all add: opt_send_conf_req_def auth_send_conf_req_def Let_def break_world_def split: option.split)
  then show ?case using Cons.IH by (simp add: Let_def case_prod_beta)
qed simp

interpretation lcp: fsm_client "lcp_ops E s" for E s
proof
  show "same_core (get_fsm (lcp_ops E s) w) (get_fsm (lcp_ops E s) (fst (cb w)))"
    if "send_conf_req (lcp_ops E s) = Some cb" for cb w
    using that by (auto simp: lcp_ops_def lcp_send_conf_req_def Let_def case_prod_beta collect_req_lcp)
  show "same_core (get_fsm (lcp_ops E s) w) (get_fsm (lcp_ops E s) (send_term_req (lcp_ops E s) w))" for w
    by (simp add: lcp_ops_def lcp_send_term_req_def Let_def same_core_def)
qed (simp add: lcp_ops_def)

end
