(* ===== verification/PppTerminate.thy ===== *)
theory PppTerminate
  imports PppLcpInv
begin

text \<open>
  Terminating a session: \<^verbatim>\<open>ap_session_terminate\<close>, \<^verbatim>\<open>ppp_terminate\<close> and the finish functions of the
  layers, which call each other. Each is proved against contracts of the functions it calls;
  the contracts are then established for the linked system, level by level.
\<close>

section \<open>Layer flags\<close>

lemma find_map: "(\<And>x. P (g x) = P x) \<Longrightarrow> find P (map g xs) = map_option g (find P xs)"
  by (induction xs) auto

lemma upd_layer_conn:
  "c_layers (conns (upd_layer s l f w) t) =
     (if t = s then map (map (\<lambda>d. if ld_layer d = l then f d else d)) (c_layers (conns w s)) else c_layers (conns w t))"
  "lcp_of (upd_layer s l f w) t = lcp_of w t" "auth_of (upd_layer s l f w) t = auth_of w t"
  "sessions (upd_layer s l f w) = sessions w" "listed (upd_layer s l f w) t = listed w t"
  by (simp_all add: upd_layer_def)

lemma find_upd_layer:
  assumes "\<And>d. ld_layer (f d) = ld_layer d"
  shows "ppp_find_layer_data (conns (upd_layer s l f w) s) l' =
    map_option (\<lambda>d. if ld_layer d = l then f d else d) (ppp_find_layer_data (conns w s) l')"
  by (simp add: ppp_find_layer_data_def upd_layer_conn flip: map_concat) (rule find_map, simp add: assms)

lemma find_layer_data_id: "ppp_find_layer_data c l = Some d \<Longrightarrow> ld_layer d = l"
  by (auto simp: ppp_find_layer_data_def find_Some_iff)

lemma held_upd_layer:
  assumes "\<And>d. ld_layer (f d) = ld_layer d" "l \<noteq> L_LCP \<or> (\<forall>d. ld_starting (f d) \<and> (ld_finished (f d) \<longrightarrow> ld_finished d))"
    "lcp_held (conns w s)"
  shows "lcp_held (conns (upd_layer s l f w) s)"
proof -
  obtain d where d: "ppp_find_layer_data (conns w s) L_LCP = Some d" "ld_starting d" "\<not> ld_finished d"
    using assms(3) by (auto simp: lcp_held_def)
  show ?thesis
    using d find_layer_data_id [OF d(1)] assms(2) by (auto simp: lcp_held_def find_upd_layer [OF assms(1)])
qed

lemma layers_ok_map:
  assumes "\<And>d. ld_layer (g d) = ld_layer d"
  shows "layers_ok (map (map g) ls) = layers_ok ls"
proof -
  have "map ld_layer (concat (map (map g) ls)) = map ld_layer (concat ls)"
    by (simp add: comp_def assms flip: map_concat)
  then show ?thesis using assms by (simp add: layers_ok_def)
qed

lemma set_concat_map: "set (concat (map (map g) ls)) = g ` set (concat ls)"
  by (simp only: map_concat [symmetric] set_map)

lemma inv_upd_layer:
  assumes inv: "ppp_inv na mo X w" and f: "\<And>d. ld_layer (f d) = ld_layer d"
    and pa: "\<And>d. na \<Longrightarrow> ld_layer d = l \<Longrightarrow> past_auth (f d) \<Longrightarrow> past_auth d \<or> ev_count w EV_SES_AUTHORIZED s > 0"
    and held: "s \<notin> X \<Longrightarrow> listed w s \<Longrightarrow> \<not> ses_terminating (sessions w s) \<Longrightarrow> lcp_held (conns (upd_layer s l f w) s)"
  shows "ppp_inv na mo X (upd_layer s l f w)"
proof -
  let ?g = "\<lambda>d. if ld_layer d = l then f d else d"
  have id: "ld_layer (?g d) = ld_layer d" for d using f by simp
  note u = upd_layer_def [of s l f]
  show ?thesis
    unfolding u
  proof (rule inv_upd_conn [OF inv])
    show "conn_ok na mo (upd_conn s (\<lambda>c. c\<lparr>c_layers := map (map ?g) (c_layers c)\<rparr>) w) s"
    proof (rule conn_ok_layers [OF invD(4) [OF inv]])
      show "layers_ok (map (map ?g) (c_layers (conns w s)))"
        using invD(4) [OF inv, of s] by (simp add: layers_ok_map [OF id] conn_ok_def Let_def)
      assume "na" and "list_ex past_auth (concat (map (map ?g) (c_layers (conns w s))))"
      then obtain x where "x \<in> ?g ` set (concat (c_layers (conns w s)))" "past_auth x"
        unfolding list_ex_iff set_concat_map by (elim bexE) (rule that)
      then obtain d where d: "d \<in> set (concat (c_layers (conns w s)))" "past_auth (?g d)" by (elim imageE) simp
      then have "past_auth d \<or> ev_count w EV_SES_AUTHORIZED s > 0" using pa [OF \<open>na\<close>] by (auto split: if_splits)
      then show "ev_count w EV_SES_AUTHORIZED s > 0"
        using invD(4) [OF inv, of s] d(1) \<open>na\<close> by (auto simp: conn_ok_def Let_def list_ex_iff)
    qed
    assume "s \<notin> X"
    have ids: "ld_layer ` set (concat (map (map ?g) (c_layers (conns w s)))) = ld_layer ` set (concat (c_layers (conns w s)))"
      unfolding set_concat_map image_image id ..
    show "settled mo (upd_conn s (\<lambda>c. c\<lparr>c_layers := map (map ?g) (c_layers c)\<rparr>) w) s"
    proof (cases "listed w s")
      case True
      show ?thesis
        using invD(5) [OF inv \<open>s \<notin> X\<close>] held [OF \<open>s \<notin> X\<close> True] True ids
        unfolding settled_def u by (simp del: set_concat)
    next
      case False
      then show ?thesis using invD(5) [OF inv \<open>s \<notin> X\<close>] by (simp add: settled_def quiet_def)
    qed
  qed
qed

section \<open>Contracts\<close>

text \<open>The session goes on finishing: LCP still takes part, and nothing else of interest changed.\<close>

definition stays :: "sid \<Rightarrow> ppp_world \<Rightarrow> ppp_world \<Rightarrow> bool" where
  "stays s w w' \<longleftrightarrow> listed w' s \<and> lcp_held (conns w' s) \<and> ses_core (sessions w' s) = ses_core (sessions w s) \<and>
     ao_auth (auth_of w' s) = ao_auth (auth_of w s)"

lemma stays_trans [trans]: "stays s u v \<Longrightarrow> stays s v w \<Longrightarrow> stays s u w"
  by (simp add: stays_def)

lemma kept_stays: "kept w w' \<Longrightarrow> listed w s \<Longrightarrow> lcp_held (conns w s) \<Longrightarrow> stays s w w'"
  by (simp add: stays_def kept_listed kept_held kept_conn) (simp add: kept_def)

definition end_flags :: "ppp_layer_data \<Rightarrow> ppp_layer_data" where
  "end_flags d = d\<lparr>ld_finished := True, ld_starting := False\<rparr>"

definition finished_contract :: "bool \<Rightarrow> bool \<Rightarrow> ppp_env \<Rightarrow> bool" where
  "finished_contract na mo E \<longleftrightarrow>
     (\<forall>l s w. ppp_inv na mo {} w \<longrightarrow> listed w s \<longrightarrow> ses_terminating (sessions w s) \<longrightarrow>
        ppp_inv na mo {} (pe_layer_finished E l s w) \<and>
        (l \<noteq> L_LCP \<longrightarrow> lcp_held (conns w s) \<longrightarrow> stays s w (pe_layer_finished E l s w)))"

definition finish_contract :: "bool \<Rightarrow> bool \<Rightarrow> ppp_env \<Rightarrow> bool" where
  "finish_contract na mo E \<longleftrightarrow>
     (\<forall>l s w. ppp_inv na mo {} w \<longrightarrow> listed w s \<longrightarrow> ses_terminating (sessions w s) \<longrightarrow> lcp_held (conns w s) \<longrightarrow>
        ppp_inv na mo {} (pe_layer_finish E l s w) \<and> stays s w (pe_layer_finish E l s w))"

definition ctrl_contract :: "bool \<Rightarrow> bool \<Rightarrow> ppp_world ses_env \<Rightarrow> bool" where
  "ctrl_contract na mo e \<longleftrightarrow>
     (\<forall>s w w' p. ppp_inv na mo {} w \<longrightarrow> listed w s \<longrightarrow> ses_terminating (sessions w s) \<longrightarrow>
        (ctrl_terminate e s True w = (w', p) \<longrightarrow> ppp_inv na mo {} w' \<and> \<not> listed w' s \<and> \<not> p) \<and>
        (lcp_held (conns w s) \<longrightarrow> ctrl_terminate e s False w = (w', p) \<longrightarrow> ppp_inv na mo {} w' \<and> stays s w w' \<and> p))"

definition terminate_contract :: "bool \<Rightarrow> bool \<Rightarrow> ppp_env \<Rightarrow> bool" where
  "terminate_contract na mo E \<longleftrightarrow>
     (\<forall>s cause hard w. ppp_inv na mo {} w \<longrightarrow> listed w s \<or> ses_terminated (sessions w s) \<longrightarrow>
        ppp_inv na mo {} (pe_terminate E s cause hard w) \<and>
        (\<not> hard \<longrightarrow> listed w s \<longrightarrow> \<not> ses_terminating (sessions w s) \<longrightarrow>
           listed (pe_terminate E s cause hard w) s \<and>
           ao_auth (auth_of (pe_terminate E s cause hard w) s) = ao_auth (auth_of w s)))"

section \<open>A layer reports its end\<close>

lemma end_flags_simps [simp]:
  "ld_layer (end_flags d) = ld_layer d" "ld_started (end_flags d) = ld_started d" "\<not> ld_starting (end_flags d)"
  by (simp_all add: end_flags_def)

lemma inv_end_layer:
  assumes "ppp_inv na mo X w" "ses_terminating (sessions w s) \<or> l \<noteq> L_LCP"
  shows "ppp_inv na mo X (upd_layer s l end_flags w)"
proof (rule inv_upd_layer [OF assms(1)])
  assume "s \<notin> X" "listed w s" "\<not> ses_terminating (sessions w s)"
  then show "lcp_held (conns (upd_layer s l end_flags w) s)"
    using invD(5) [OF assms(1)] assms(2) by (intro held_upd_layer) (auto simp: settled_def)
qed (auto simp: past_auth_def)

lemma held_busy:
  assumes "lcp_held c"
  shows "list_ex (\<lambda>d. ld_starting d \<and> \<not> ld_finished d) (concat (c_layers c))"
proof -
  obtain d where "find (\<lambda>d. ld_layer d = L_LCP) (concat (c_layers c)) = Some d" "ld_starting d" "\<not> ld_finished d"
    using assms by (auto simp: lcp_held_def ppp_find_layer_data_def)
  then show ?thesis unfolding list_ex_iff by (metis find_Some_iff nth_mem)
qed

lemma layer_finished_inv:
  assumes E: "free_contract na mo E" "frame_ses (pe_ses E)"
    and w: "ppp_inv na mo {} w" "listed w s" "ses_terminating (sessions w s)"
  shows "ppp_inv na mo {} (ppp_layer_finished E l s w) \<and>
    (l \<noteq> L_LCP \<longrightarrow> lcp_held (conns w s) \<longrightarrow> stays s w (ppp_layer_finished E l s w))"
proof -
  define u where "u = upd_layer s l end_flags w"
  have e: "ppp_layer_finished E l s w =
      (if list_ex (\<lambda>d. ld_starting d \<and> \<not> ld_finished d) (concat (c_layers (conns u s))) then u else destablish_ppp E s u)"
    by (simp add: ppp_layer_finished_def Let_def u_def end_flags_def [abs_def])
  have u: "ppp_inv na mo {} u" unfolding u_def by (rule inv_end_layer) (use w in auto)
  have "ppp_inv na mo {} (ppp_layer_finished E l s w)"
    unfolding e using u destablish_inv [OF E u] w by (simp add: u_def upd_layer_conn)
  moreover have "stays s w u \<and> ppp_layer_finished E l s w = u" if "l \<noteq> L_LCP" "lcp_held (conns w s)"
  proof -
    have "lcp_held (conns u s)" unfolding u_def by (rule held_upd_layer) (use that in auto)
    then show ?thesis
      unfolding e using held_busy w(2) by (simp add: stays_def) (simp add: u_def upd_layer_conn)
  qed
  ultimately show ?thesis by simp
qed

lemma sys_finished:
  assumes "frame_env B"
  shows "finished_contract na mo (ppp_sys (Suc (Suc n)) opts B)"
  using layer_finished_inv [OF sys_free [OF assms] sys_frame [OF assms]]
  by (simp add: finished_contract_def link_env_def)

section \<open>The finish functions\<close>

lemma stays_upd_lcp [simp]: "stays s w (upd_lcp s f w') = stays s w w'"
  by (simp add: stays_def)

lemma stays_upd_auth [simp]: "ao_auth (f (auth_of w' s)) = ao_auth (auth_of w' s) \<Longrightarrow> stays s w (upd_auth s f w') = stays s w w'"
  by (simp add: stays_def)

lemma stays_refl: "listed w s \<Longrightarrow> lcp_held (conns w s) \<Longrightarrow> stays s w w"
  by (simp add: stays_def)

lemma inv_own_call:
  assumes inv: "ppp_inv na mo X w" and s: "listed w s"
  shows "ppp_inv na mo X (triton_context_call s f w)"
proof -
  let ?w = "triton_context_call s f w"
  have sel: "conns ?w = conns w" "sessions ?w = sessions w" "listed ?w t = listed w t" "ev_count ?w ev t = ev_count w ev t"
    "set (calls ?w) = insert (s, f) (set (calls w))" for t ev
    by (simp_all add: triton_context_call_def listed_def ev_count_def)
  show ?thesis
  proof (rule inv_step [OF inv, of s])
    show "same_at t w ?w" if "t \<noteq> s" for t using that by (simp add: same_at_def sel)
    show "stat_ok ?w" using invD(2) [OF inv] by (simp add: triton_context_call_def stat_ok_def count_in_def)
    show "ses_ok ?w s" using invD(3) [OF inv, of s] s by (auto simp: ses_ok_def Let_def sel)
    show "conn_ok na mo ?w s" using invD(4) [OF inv, of s] by (simp add: conn_ok_def Let_def sel)
    show "settled mo ?w s" if "s \<notin> X" using invD(5) [OF inv that] s by (simp add: settled_def sel)
  qed (use invD [OF inv] in \<open>auto simp: triton_context_call_def\<close>)
qed

lemma stays_call: "stays s w (triton_context_call t f w') = stays s w w'"
  by (simp add: stays_def triton_context_call_def listed_def)

lemma stays_kept: "stays s w u \<Longrightarrow> kept u v \<Longrightarrow> stays s w v"
  using kept_stays stays_trans stays_def by blast

lemma inv_set_state:
  assumes "ppp_inv na mo X w" "st \<noteq> FSM_Starting" "na \<Longrightarrow> ao_auth (auth_of w s) = None \<Longrightarrow> st \<in> {FSM_Initial, FSM_Closed}"
  shows "ppp_inv na mo X (set_state (lcp_ops E s) st w)"
  unfolding fsm_lcp by (rule inv_upd_lcp) (use assms in simp_all)

lemma inv_init_counter:
  assumes "ppp_inv na mo X w" "listed w s"
  shows "ppp_inv na mo X (init_req_counter (lcp_ops E s) tmo w)" "ppp_inv na mo X (zero_req_counter (lcp_ops E s) w)"
  unfolding fsm_lcp by (rule inv_upd_lcp; use assms inv_start [OF assms(1)] inv_na [OF assms(1)] in simp)+

lemma inv_stop_timer:
  assumes "ppp_inv na mo X w"
  shows "ppp_inv na mo X (stop_timer (lcp_ops E s) w)" "ppp_inv na mo X (stop_echo s w)"
  unfolding fsm_lcp stop_echo_def by (rule inv_upd_lcp; use assms inv_start [OF assms(1)] inv_na [OF assms(1)] in simp)+

lemma stays_fsm [simp]:
  "stays s w (set_state (lcp_ops E s) st w') = stays s w w'" "stays s w (init_req_counter (lcp_ops E s) tmo w') = stays s w w'"
  "stays s w (stop_timer (lcp_ops E s) w') = stays s w w'" "stays s w (stop_echo s w') = stays s w w'"
  by (simp_all add: fsm_lcp stop_echo_def)

lemma send_term_inv:
  assumes inv: "ppp_inv na mo {} w" and s: "listed w s" and au: "na \<Longrightarrow> ao_auth (auth_of w s) \<noteq> None"
  shows "ppp_inv na mo {} (send_term (lcp_ops E s) w) \<and> (lcp_held (conns w s) \<longrightarrow> stays s w (send_term (lcp_ops E s) w))"
proof -
  define u where "u = init_req_counter (lcp_ops E s) max_terminate w"
  define v where "v = lcp_send_term_req s u"
  have u: "ppp_inv na mo {} u" unfolding u_def by (rule inv_init_counter [OF inv s])
  have k: "kept u v" by (simp add: v_def)
  have "auth_of v s = auth_of w s" using kept_conn(5) [OF k] by (simp add: u_def fsm_lcp)
  then have "ppp_inv na mo {} (set_state (lcp_ops E s) FSM_Closing v)"
    using kept_inv [OF k u] au by (intro inv_set_state) auto
  moreover have "stays s w v" if "lcp_held (conns w s)"
    by (rule stays_kept [OF _ k]) (simp add: u_def stays_refl s that)
  moreover have "send_term (lcp_ops E s) w = set_state (lcp_ops E s) FSM_Closing v"
    by (simp add: send_term_def v_def u_def) (simp add: lcp_ops_def)
  ultimately show ?thesis by simp
qed

lemma fsm_close_inv:
  assumes inv: "ppp_inv na mo {} w" and s: "listed w s" "lcp_held (conns w s)"
  shows "ppp_inv na mo {} (ppp_fsm_close (lcp_ops E s) w) \<and> stays s w (ppp_fsm_close (lcp_ops E s) w)"
proof -
  let ?st = "fsm_state (lcp_fsm (lcp_of w s))"
  have au: "ao_auth (auth_of w s) \<noteq> None" if "na" "?st \<notin> {FSM_Initial, FSM_Closed}"
    using inv_na [OF inv that(1), of s] that(2) by blast
  have down: "opt_call (layer_down (lcp_ops E s)) w' = w'" for w' by (simp add: lcp_ops_def opt_call_def lcp_layer_down_def)
  have cl: "ppp_inv na mo {} (set_state (lcp_ops E s) FSM_Closing w)" if "?st \<notin> {FSM_Initial, FSM_Closed}"
    using au that by (intro inv_set_state [OF inv]) auto
  note opened = send_term_inv [OF cl, of s]
  show ?thesis
  proof (cases ?st)
    case FSM_Opened
    then show ?thesis using send_term_inv [OF cl, of s] au s
      by (simp add: ppp_fsm_close_def down) (auto simp: fsm_lcp stays_def)
  qed (use inv_start [OF inv, of s] send_term_inv [OF inv s(1)] au cl s inv in
      \<open>auto simp: ppp_fsm_close_def stays_refl intro: inv_stop_timer inv_set_state\<close>)
qed

lemma lcp_finish_inv:
  assumes inv: "ppp_inv na mo {} w" and s: "listed w s" "lcp_held (conns w s)"
  shows "ppp_inv na mo {} (lcp_layer_finish E s w) \<and> stays s w (lcp_layer_finish E s w)"
proof (cases "lcp_started (lcp_of w s)")
  case True
  have "ppp_inv na mo {} (stop_echo s w)" by (rule inv_stop_timer [OF inv])
  moreover have "stays s w (stop_echo s w)" using s by (simp add: stays_refl)
  ultimately show ?thesis
    using fsm_close_inv [of na mo "stop_echo s w" s E] True stays_trans by (auto simp: lcp_layer_finish_def stays_def)
next
  case False
  then show ?thesis using inv_own_call [OF inv s(1)] s by (simp add: lcp_layer_finish_def stays_call stays_refl)
qed

lemma inv_auth_off:
  assumes inv: "ppp_inv na mo X w"
  shows "ppp_inv na mo X (upd_auth s (\<lambda>a. a\<lparr>ao_started := False\<rparr>) w)"
  unfolding upd_auth_def
proof (rule inv_upd_conn [OF inv])
  show "conn_ok na mo (upd_conn s (\<lambda>c. c\<lparr>c_auth := (c_auth c)\<lparr>ao_started := False\<rparr>\<rparr>) w) s"
    using invD(4) [OF inv, of s] by (auto simp: conn_ok_def Let_def auth_state_ok_def)
  assume "s \<notin> X"
  from invD(5) [OF inv this] show "settled mo (upd_conn s (\<lambda>c. c\<lparr>c_auth := (c_auth c)\<lparr>ao_started := False\<rparr>\<rparr>) w) s"
    by (auto simp: settled_def quiet_def lcp_held_def ppp_find_layer_data_def)
qed

lemma auth_finish_inv:
  assumes E: "finished_contract na mo E" and fin: "\<And>h. keeps (pe_auth_finish E h)"
    and inv: "ppp_inv na mo {} w" and s: "listed w s" "ses_terminating (sessions w s)" "lcp_held (conns w s)"
  shows "ppp_inv na mo {} (auth_layer_finish E s w) \<and> stays s w (auth_layer_finish E s w)"
proof -
  define u where "u = (case ao_auth (auth_of w s) of None \<Rightarrow> w
    | Some i \<Rightarrow> pe_auth_finish E (auth_handler_of (auth_of w s) i) s w)"
  have k: "kept w u" using fin by (auto simp: u_def split: option.split)
  define v where "v = upd_auth s (\<lambda>a. a\<lparr>ao_started := False\<rparr>) u"
  have v: "ppp_inv na mo {} v" unfolding v_def by (rule inv_auth_off [OF kept_inv [OF k inv]])
  have st: "stays s w v" unfolding v_def using kept_stays [OF k s(1,3)] by simp
  then have "ses_terminating (sessions v s)" "listed v s" "lcp_held (conns v s)"
    using s(2) by (simp_all add: stays_def ses_core_def)
  with E v have "ppp_inv na mo {} (pe_layer_finished E L_AUTH s v) \<and> stays s v (pe_layer_finished E L_AUTH s v)"
    by (simp add: finished_contract_def)
  moreover have "auth_layer_finish E s w = pe_layer_finished E L_AUTH s v"
    by (simp add: auth_layer_finish_def Let_def u_def v_def)
  ultimately show ?thesis using stays_trans [OF st] by simp
qed

lemma sys_finish:
  assumes "frame_env B"
  shows "finish_contract na mo (ppp_sys (Suc (Suc (Suc n))) opts B)"
  unfolding finish_contract_def
proof (intro allI impI)
  fix l s w
  assume w: "ppp_inv na mo {} w" "listed w s" "ses_terminating (sessions w s)" "lcp_held (conns w s)"
  let ?E = "ppp_sys (Suc (Suc n)) opts B"
  have E: "finished_contract na mo ?E" by (rule sys_finished [OF assms])
  have fin: "keeps (pe_auth_finish ?E h)" for h using frame_envD(2) [OF assms] by (simp only: sys_same)
  have net: "ppp_inv na mo {} (pe_layer_finished ?E l s (pe_layer_finish B l s w)) \<and>
      stays s w (pe_layer_finished ?E l s (pe_layer_finish B l s w))" if "l \<noteq> L_LCP"
  proof -
    have k: "kept w (pe_layer_finish B l s w)" using frame_envD(4) [OF assms] by simp
    note st = kept_stays [OF k w(2,4)]
    have "ppp_inv na mo {} (pe_layer_finished ?E l s (pe_layer_finish B l s w)) \<and>
        stays s (pe_layer_finish B l s w) (pe_layer_finished ?E l s (pe_layer_finish B l s w))"
      using E kept_inv [OF k w(1)] st w(3) that unfolding finished_contract_def
      by (simp add: kept_listed [OF k] kept_ses [OF k] kept_held [OF k] w)
    then show ?thesis using stays_trans [OF st] by blast
  qed
  have "pe_layer_finish (ppp_sys (Suc (Suc (Suc n))) opts B) l s w =
      (if l = L_LCP then lcp_layer_finish ?E s w else if l = L_AUTH then auth_layer_finish ?E s w
       else pe_layer_finished ?E l s (pe_layer_finish B l s w))"
    by (simp add: link_env_def)
  then show "ppp_inv na mo {} (pe_layer_finish (ppp_sys (Suc (Suc (Suc n))) opts B) l s w) \<and>
      stays s w (pe_layer_finish (ppp_sys (Suc (Suc (Suc n))) opts B) l s w)"
    using lcp_finish_inv [OF w(1,2,4)] auth_finish_inv [OF E fin w] net by simp
qed

section \<open>The layers are told to finish\<close>

lemma held_flag: "lcp_held c \<Longrightarrow> layer_flag ld_starting L_LCP c"
  by (auto simp: lcp_held_def layer_flag_def)

lemma finish_layers_inv:
  assumes E: "finish_contract na mo E"
    and w: "ppp_inv na mo {} w" "listed w s" "ses_terminating (sessions w s)" "lcp_held (conns w s)"
  shows "ppp_inv na mo {} (fst (finish_layers E s ls w f)) \<and> stays s w (fst (finish_layers E s ls w f)) \<and>
    (f \<or> L_LCP \<in> set ls \<longrightarrow> snd (finish_layers E s ls w f))"
  using w
proof (induction ls arbitrary: w f)
  case Nil
  then show ?case by (simp add: stays_refl)
next
  case (Cons l ls)
  show ?case
  proof (cases "layer_flag ld_starting l (conns w s)")
    case True
    define u where "u = pe_layer_finish E l s w"
    have u: "ppp_inv na mo {} u" "stays s w u" using E Cons.prems by (simp_all add: finish_contract_def u_def)
    then have "listed u s" "ses_terminating (sessions u s)" "lcp_held (conns u s)"
      using Cons.prems by (simp_all add: stays_def ses_core_def)
    from Cons.IH [OF u(1) this, of True] show ?thesis
      using True stays_trans [OF u(2)] by (simp add: u_def)
  next
    case False
    then have "l \<noteq> L_LCP" using held_flag [OF Cons.prems(4)] by auto
    then show ?thesis using Cons.IH [OF Cons.prems, of f] False by auto
  qed
qed

lemma terminate_hard:
  assumes "free_contract na mo E" "frame_ses (pe_ses E)"
    and "ppp_inv na mo {} w" "listed w s" "ses_terminating (sessions w s)" "ppp_terminate E s True w = (w', p)"
  shows "ppp_inv na mo {} w' \<and> \<not> listed w' s \<and> \<not> p"
  using destablish_inv [OF assms(1-5)] assms(6) by (auto simp: ppp_terminate_def)

lemma terminate_soft:
  assumes E: "finish_contract na mo E"
    and w: "ppp_inv na mo {} w" "listed w s" "ses_terminating (sessions w s)" "lcp_held (conns w s)"
    and r: "ppp_terminate E s False w = (w', p)"
  shows "ppp_inv na mo {} w' \<and> stays s w w' \<and> p"
proof -
  let ?ls = "map ld_layer (concat (c_layers (conns w s)))"
  have "L_LCP \<in> set ?ls" using listed_layers [OF w(1) _ w(2)] by (simp only: set_map) simp
  then show ?thesis
    using finish_layers_inv [OF E w, of ?ls False] r
    by (cases "finish_layers E s ?ls w False") (auto simp: ppp_terminate_def split: bool.splits)
qed

lemma sys_ctrl:
  assumes "frame_env B"
  shows "ctrl_contract na mo (pe_ses (ppp_sys (Suc (Suc (Suc (Suc n)))) opts B))"
proof -
  let ?E = "ppp_sys (Suc (Suc (Suc n))) opts B"
  have e: "ctrl_terminate (pe_ses (ppp_sys (Suc (Suc (Suc (Suc n)))) opts B)) = ppp_terminate ?E"
    by (simp add: link_env_def)
  show ?thesis
    unfolding ctrl_contract_def e
    using terminate_hard [OF sys_free [OF assms] sys_frame [OF assms]] terminate_soft [OF sys_finish [OF assms]] by blast
qed

section \<open>Terminating a session\<close>

lemma upd_ses_sel [simp]:
  "conns (upd_ses s f w) = conns w" "sessions (upd_ses s f w) = (sessions w)(s := f (sessions w s))"
  "listed (upd_ses s f w) t = listed w t" "ev_count (upd_ses s f w) ev t = ev_count w ev t" "calls (upd_ses s f w) = calls w"
  "broken (upd_ses s f w) = broken w" "uc_list (upd_ses s f w) = uc_list w"
  by (simp_all add: upd_ses_def listed_def ev_count_def)

lemma fire_core_sel [simp]:
  "conns (fire_core ev s w) = conns w" "sessions (fire_core ev s w) = sessions w" "listed (fire_core ev s w) t = listed w t"
  "calls (fire_core ev s w) = calls w" "broken (fire_core ev s w) = broken w" "uc_list (fire_core ev s w) = uc_list w"
  "ev_count (fire_core ev s w) ev' t = ev_count w ev' t + of_bool (ev' = ev \<and> t = s)"
  by (auto simp: fire_core_def listed_def ev_count_def)

lemma settled_same:
  assumes "settled mo w s" "listed w' s = listed w s" "conns w' s = conns w s" "calls w' = calls w"
    "ses_terminating (sessions w s) \<Longrightarrow> ses_terminating (sessions w' s)"
    "\<not> listed w s \<Longrightarrow> ses_timer (sessions w' s) \<Longrightarrow> ses_timer (sessions w s)"
  shows "settled mo w' s"
  using assms by (cases "listed w s") (auto simp: settled_def quiet_def)

lemma inv_ses_timer_off:
  assumes inv: "ppp_inv na mo X w"
    and f: "\<And>ses. ses_core (f ses) = (ses_state ses, ses_terminating ses, ses_terminated ses, ses_down ses, False)"
  shows "ppp_inv na mo X (upd_ses s f w)"
proof -
  have f': "ses_state (f ses) = ses_state ses" "ses_terminating (f ses) = ses_terminating ses"
    "ses_terminated (f ses) = ses_terminated ses" "ses_down (f ses) = ses_down ses" "\<not> ses_timer (f ses)" for ses
    using f [of ses] by (simp_all add: ses_core_def)
  show ?thesis
  proof (rule inv_step [OF inv, of s])
    have "count_in (upd_ses s f w) S = count_in w S" for S
      unfolding count_in_def by (rule arg_cong [of _ _ length], simp add: upd_ses_def, rule filter_cong) (auto simp: f')
    then show "stat_ok (upd_ses s f w)" using invD(2) [OF inv] by (simp add: stat_ok_def upd_ses_def)
    show "ses_ok (upd_ses s f w) s" using invD(3) [OF inv, of s] by (auto simp: ses_ok_def Let_def f')
    show "conn_ok na mo (upd_ses s f w) s" using invD(4) [OF inv, of s] by (simp add: conn_ok_def Let_def)
    show "settled mo (upd_ses s f w) s" if "s \<notin> X" by (rule settled_same [OF invD(5) [OF inv that]]) (simp_all add: f')
  qed (use invD [OF inv] in \<open>auto simp: same_at_def\<close>)
qed

definition to_finishing :: "sid \<Rightarrow> ppp_world \<Rightarrow> ppp_world" where
  "to_finishing s w =
     upd_ses s (\<lambda>ses. ses\<lparr>ses_terminating := True, ses_state := AP_STATE_FINISHING\<rparr>)
       (if ses_state (sessions w s) = AP_STATE_ACTIVE then ap_session_stat_move Active Finishing w
        else ap_session_stat_move Starting Finishing w)"

lemma to_finishing_sel:
  "conns (to_finishing s w) = conns w" "listed (to_finishing s w) t = listed w t" "calls (to_finishing s w) = calls w"
  "ev_count (to_finishing s w) ev t = ev_count w ev t" "broken (to_finishing s w) = broken w" "uc_list (to_finishing s w) = uc_list w"
  "sessions (to_finishing s w) = (sessions w)(s := (sessions w s)\<lparr>ses_terminating := True, ses_state := AP_STATE_FINISHING\<rparr>)"
  by (simp_all add: to_finishing_def ap_session_stat_move_def ap_session_stat_inc_def ap_session_stat_dec_def listed_def ev_count_def upd_ses_def)

lemma to_finishing_stat:
  assumes "stat_ok w" "listed w s" "ses_state (sessions w s) \<in> {AP_STATE_STARTING, AP_STATE_ACTIVE}"
  shows "stat_ok (to_finishing s w)"
proof -
  let ?f = "\<lambda>ses. ses\<lparr>ses_terminating := True, ses_state := AP_STATE_FINISHING\<rparr>"
  have "count_in (to_finishing s w) S = count_in (upd_ses s ?f w) S" for S
    by (simp add: count_in_def to_finishing_sel upd_ses_def)
      (simp add: to_finishing_def ap_session_stat_move_def ap_session_stat_inc_def ap_session_stat_dec_def upd_ses_def)
  then have c: "(of_nat (count_in (to_finishing s w) S) :: u32) =
      of_nat (count_in w S) - of_bool (ses_state (sessions w s) \<in> S) + of_bool (AP_STATE_FINISHING \<in> S)" for S
    using count_in_upd [OF assms(1,2), of ?f S] by simp
  show ?thesis
    using assms unfolding stat_ok_def c
    by (auto simp: to_finishing_def ap_session_stat_move_def ap_session_stat_inc_def ap_session_stat_dec_def upd_ses_def)
qed

lemma to_finishing_inv:
  assumes inv: "ppp_inv na mo X w" and s: "listed w s" "\<not> ses_terminating (sessions w s)" "\<not> ses_timer (sessions w s)"
  shows "ppp_inv na mo X (to_finishing s w)"
proof (rule inv_step [OF inv, of s])
  have ok: "ses_ok w s" by (rule invD(3) [OF inv])
  then have "ses_state (sessions w s) \<in> {AP_STATE_STARTING, AP_STATE_ACTIVE}"
    using s by (cases "ses_state (sessions w s)") (simp_all add: ses_ok_def Let_def)
  then show "stat_ok (to_finishing s w)" by (rule to_finishing_stat [OF invD(2) [OF inv] s(1)])
  show "ses_ok (to_finishing s w) s" using ok s by (auto simp: ses_ok_def Let_def to_finishing_sel)
  show "conn_ok na mo (to_finishing s w) s" using invD(4) [OF inv, of s] by (simp add: conn_ok_def Let_def to_finishing_sel)
  show "settled mo (to_finishing s w) s" if "s \<notin> X"
    by (rule settled_same [OF invD(5) [OF inv that]]) (use s in \<open>simp_all add: to_finishing_sel\<close>)
qed (use invD [OF inv] in \<open>auto simp: same_at_def to_finishing_sel\<close>)

lemma going_down_inv:
  assumes inv: "ppp_inv na mo X w" and s: "listed w s" "ses_terminating (sessions w s)" "\<not> ses_down (sessions w s)"
  shows "ppp_inv na mo X (upd_ses s (\<lambda>ses. ses\<lparr>ses_down := True\<rparr>) (fire_core EV_SES_FINISHING s w))"
proof (rule inv_step [OF inv, of s])
  let ?w = "upd_ses s (\<lambda>ses. ses\<lparr>ses_down := True\<rparr>) (fire_core EV_SES_FINISHING s w)"
  have "count_in ?w S = count_in w S" for S
    unfolding count_in_def by (rule arg_cong [of _ _ length], simp add: fire_core_def upd_ses_def, rule filter_cong) auto
  then show "stat_ok ?w" using invD(2) [OF inv] by (simp add: stat_ok_def fire_core_def upd_ses_def)
  show "ses_ok ?w s" using invD(3) [OF inv, of s] s by (auto simp: ses_ok_def Let_def)
  show "conn_ok na mo ?w s" using invD(4) [OF inv, of s] by (simp add: conn_ok_def Let_def)
  show "settled mo ?w s" if "s \<notin> X" by (rule settled_same [OF invD(5) [OF inv that]]) (use s in simp_all)
qed (use invD [OF inv] in \<open>auto simp: same_at_def\<close>)

lemma ctrl_hard:
  assumes "ctrl_contract na mo e" "ppp_inv na mo {} w" "listed w s" "ses_terminating (sessions w s)"
    "ctrl_terminate e s True w = (w', p)"
  shows "ppp_inv na mo {} w' \<and> \<not> listed w' s \<and> \<not> p"
  using assms unfolding ctrl_contract_def by blast

lemma ctrl_soft:
  assumes "ctrl_contract na mo e" "ppp_inv na mo {} w" "listed w s" "ses_terminating (sessions w s)" "lcp_held (conns w s)"
    "ctrl_terminate e s False w = (w', p)"
  shows "ppp_inv na mo {} w' \<and> stays s w w' \<and> p"
  using assms unfolding ctrl_contract_def by blast

text \<open>The first call of \<^verbatim>\<open>ap_session_terminate\<close> for a session, after the counters have been moved.\<close>

lemma first_terminate:
  assumes c: "ctrl_contract na mo e" and fr: "frame_ses e"
    and w: "ppp_inv na mo {} w" "listed w s" "ses_terminating (sessions w s)" "\<not> ses_down (sessions w s)" "lcp_held (conns w s)"
    and r: "ctrl_terminate e s hard w = (w', p)"
  shows "ppp_inv na mo {} (if p then upd_ses s (\<lambda>ses. ses\<lparr>ses_down := True\<rparr>)
                       (triton_event_fire e EV_SES_FINISHING s (env_ifdown e s w')) else w') \<and>
    (\<not> hard \<longrightarrow> p \<and> listed w' s \<and> ao_auth (auth_of w' s) = ao_auth (auth_of w s))"
proof (cases hard)
  case True
  then show ?thesis using ctrl_hard [OF c w(1-3)] r by simp
next
  case False
  then have h: "ppp_inv na mo {} w'" "stays s w w'" "p" using ctrl_soft [OF c w(1-3,5)] r by simp_all
  have k: "kept w' (env_ifdown e s w')" using fr by (simp add: frame_ses_def)
  have "kept (upd_ses s (\<lambda>ses. ses\<lparr>ses_down := True\<rparr>) (fire_core EV_SES_FINISHING s w'))
      (upd_ses s (\<lambda>ses. ses\<lparr>ses_down := True\<rparr>) (triton_event_fire e EV_SES_FINISHING s (env_ifdown e s w')))"
    by (rule cong_upd_ses [OF kept_fire_core [OF fr k]]) (simp_all add: ses_core_def)
  moreover have "ppp_inv na mo {} (upd_ses s (\<lambda>ses. ses\<lparr>ses_down := True\<rparr>) (fire_core EV_SES_FINISHING s w'))"
    by (rule going_down_inv [OF h(1)]) (use h(2) w in \<open>simp_all add: stays_def ses_core_def\<close>)
  ultimately show ?thesis using h kept_inv by (simp add: stays_def)
qed

lemma ses_terminate_inv:
  assumes c: "ctrl_contract na mo e" and fr: "frame_ses e"
    and inv: "ppp_inv na mo {} w" and s: "listed w s \<or> ses_terminated (sessions w s)"
  shows "ppp_inv na mo {} (ap_session_terminate e s cause hard w) \<and>
    (\<not> hard \<longrightarrow> listed w s \<longrightarrow> \<not> ses_terminating (sessions w s) \<longrightarrow>
       listed (ap_session_terminate e s cause hard w) s \<and>
       ao_auth (auth_of (ap_session_terminate e s cause hard w) s) = ao_auth (auth_of w s))"
proof (cases "ses_terminated (sessions w s)")
  case True
  then show ?thesis using inv invD(3) [OF inv, of s] by (auto simp: ap_session_terminate_def ses_ok_def Let_def)
next
  case False
  define f :: "ap_session \<Rightarrow> ap_session" where "f = (\<lambda>ses. ses\<lparr>ses_stop_time := (if ses_stop_time ses = 0 then env_time e else ses_stop_time ses),
      ses_terminate_cause := (if ses_terminate_cause ses = TERM_NONE then cause else ses_terminate_cause ses), ses_timer := False\<rparr>)"
  define u where "u = upd_ses s f w"
  have li: "listed w s" using s False by simp
  have u: "ppp_inv na mo {} u" unfolding u_def by (rule inv_ses_timer_off [OF inv]) (simp add: f_def ses_core_def)
  have us: "listed u s" "ses_terminating (sessions u s) = ses_terminating (sessions w s)" "conns u = conns w"
    using li by (simp_all add: u_def f_def)
  have ok: "ses_ok u s" by (rule invD(3) [OF u])
  show ?thesis
  proof (cases "ses_terminating (sessions w s)")
    case True
    then have "ap_session_terminate e s cause hard w = fst (ctrl_terminate e s True u)"
      using False ok us by (simp add: ap_session_terminate_def Let_def ses_ok_def flip: f_def u_def)
    moreover have "ppp_inv na mo {} (fst (ctrl_terminate e s True u))"
      using ctrl_hard [OF c u us(1)] us(2) True by (cases "ctrl_terminate e s True u") simp
    ultimately show ?thesis using True by simp
  next
    case nt: False
    define x where "x = fst (ap_session_read_stats e s (to_finishing s u))"
    have k: "kept (to_finishing s u) x" by (simp add: x_def)
    have "\<not> ses_timer (sessions u s)" by (simp add: u_def f_def)
    then have x: "ppp_inv na mo {} x" using to_finishing_inv [OF u us(1)] us(2) nt kept_inv [OF k] by simp
    have xs: "listed x s" "ses_terminating (sessions x s)" "\<not> ses_down (sessions x s)" "lcp_held (conns x s)"
      "auth_of x s = auth_of w s"
      using us nt ok invD(5) [OF u, of s]
      by (auto simp: kept_listed [OF k] kept_ses [OF k] kept_held [OF k] kept_conn [OF k] to_finishing_sel ses_ok_def Let_def settled_def)
    obtain w' p where r: "ctrl_terminate e s hard x = (w', p)" by (cases "ctrl_terminate e s hard x")
    have "ap_session_terminate e s cause hard w =
        (if p then upd_ses s (\<lambda>ses. ses\<lparr>ses_down := True\<rparr>) (triton_event_fire e EV_SES_FINISHING s (env_ifdown e s w')) else w')"
      using False nt us(2) r
      by (simp add: ap_session_terminate_def Let_def x_def to_finishing_def flip: f_def u_def)
    moreover have "listed w' s \<Longrightarrow> listed (triton_event_fire e EV_SES_FINISHING s (env_ifdown e s w')) s \<and>
        auth_of (triton_event_fire e EV_SES_FINISHING s (env_ifdown e s w')) s = auth_of w' s"
    proof -
      have "kept (fire_core EV_SES_FINISHING s w') (triton_event_fire e EV_SES_FINISHING s (env_ifdown e s w'))"
        using kept_fire_core [OF fr, of w'] fr by (simp add: frame_ses_def)
      from kept_listed [OF this] kept_conn(5) [OF this] show "listed w' s \<Longrightarrow> ?thesis" by (simp add: fire_core_def listed_def)
    qed
    ultimately show ?thesis using first_terminate [OF c fr x xs(1-4) r] xs(5) by (auto split: if_splits)
  qed
qed

lemma sys_terminate:
  assumes "frame_env B"
  shows "terminate_contract na mo (ppp_sys (Suc (Suc (Suc (Suc (Suc n))))) opts B)"
proof -
  let ?E = "ppp_sys (Suc (Suc (Suc (Suc n)))) opts B"
  have e: "pe_terminate (ppp_sys (Suc (Suc (Suc (Suc (Suc n))))) opts B) = ap_session_terminate (pe_ses ?E)"
    by (simp add: link_env_def)
  show ?thesis
    unfolding terminate_contract_def e using ses_terminate_inv [OF sys_ctrl [OF assms] sys_frame [OF assms]] by blast
qed

end
