(* ===== verification/PppStart.thy ===== *)
theory PppStart
  imports PppTerminate
begin

text \<open>
  Bringing a connection up: the kernel unit, activation, and the start of the layers one node
  after the other.
\<close>

section \<open>The kernel unit\<close>

definition only_unit :: "ppp_world \<Rightarrow> ppp_world \<Rightarrow> bool" where
  "only_unit w w' \<longleftrightarrow> (\<forall>t. listed w' t = listed w t \<and> ses_core (sessions w' t) = ses_core (sessions w t) \<and>
     lcp_of w' t = lcp_of w t \<and> auth_of w' t = auth_of w t \<and> c_layers (conns w' t) = c_layers (conns w t) \<and>
     c_chan_hnd (conns w' t) = c_chan_hnd (conns w t) \<and>
     (\<forall>ev. ev_count w' ev t = ev_count w ev t) \<and> calls w' = calls w)"

lemma only_unit_trans [trans]: "only_unit u v \<Longrightarrow> only_unit v w \<Longrightarrow> only_unit u w"
  by (simp add: only_unit_def)

lemma only_unit_refl [simp]: "only_unit w w"
  by (simp add: only_unit_def)

lemma only_unit_ses: "ses_core (f (sessions w s)) = ses_core (sessions w s) \<Longrightarrow> only_unit w (upd_ses s f w)"
  by (simp add: only_unit_def)

definition unit_ok :: "bool \<Rightarrow> bool \<Rightarrow> sid set \<Rightarrow> ppp_world \<Rightarrow> ppp_world \<Rightarrow> bool" where
  "unit_ok na mo X w w' \<longleftrightarrow> ppp_inv na mo X w' \<and> only_unit w w'"

lemma unit_ok_ses:
  assumes "unit_ok na mo X w w'" "ses_core (f (sessions w' s)) = ses_core (sessions w' s)"
  shows "unit_ok na mo X w (upd_ses s f w')"
  using assms kept_inv [OF kept_upd_ses] only_unit_trans [OF _ only_unit_ses] by (simp add: unit_ok_def)

lemma unit_ok_conn:
  assumes w: "unit_ok na mo X w w'" and s: "listed w s \<or> s \<in> X"
    and f: "\<And>c. c_layers (f c) = c_layers c" "\<And>c. c_chan_hnd (f c) = c_chan_hnd c" "\<And>c. c_auth (f c) = c_auth c" "\<And>c. c_lcp (f c) = c_lcp c"
      "mo \<Longrightarrow> c_unit_hnd (f (conns w' s)) \<Longrightarrow> c_unit_fd (f (conns w' s)) \<ge> 0"
  shows "unit_ok na mo X w (upd_conn s f w')"
proof -
  have inv: "ppp_inv na mo X w'" using w by (simp add: unit_ok_def)
  have "ppp_inv na mo X (upd_conn s f w')"
  proof (rule inv_upd_conn [OF inv])
    show "conn_ok na mo (upd_conn s f w') s" using invD(4) [OF inv, of s] f by (simp add: conn_ok_def Let_def)
    assume "s \<notin> X"
    then have "listed w' s" using w s by (simp add: unit_ok_def only_unit_def)
    then show "settled mo (upd_conn s f w') s"
      using invD(5) [OF inv \<open>s \<notin> X\<close>] f by (simp add: settled_def lcp_held_def ppp_find_layer_data_def)
  qed
  moreover have "only_unit w' (upd_conn s f w')" using f by (simp add: only_unit_def)
  ultimately show ?thesis using w only_unit_trans by (auto simp: unit_ok_def)
qed

lemma unit_ok_uc:
  assumes "ppp_inv na mo X w" "set uc \<subseteq> set (uc_list w)"
  shows "unit_ok na mo X w (w\<lparr>uc_list := uc\<rparr>)"
proof -
  have "ses_ok (w\<lparr>uc_list := uc\<rparr>) t = ses_ok w t" "conn_ok na mo (w\<lparr>uc_list := uc\<rparr>) t = conn_ok na mo w t"
    "settled mo (w\<lparr>uc_list := uc\<rparr>) t = settled mo w t" for t
    by (simp_all add: ses_ok_def conn_ok_def settled_def quiet_def listed_def ev_count_def)
  then show ?thesis
    using assms by (auto simp: ppp_inv_def unit_ok_def only_unit_def stat_ok_def count_in_def listed_def ev_count_def)
qed

definition mru_ok :: "ppp_kernel \<Rightarrow> bool" where
  "mru_ok k \<longleftrightarrow> k_set_mtu k \<and> k_set_unit_mru k \<and> k_set_chan_mru k"

lemma close_unit_ok:
  assumes "unit_ok na mo X w w'" "listed w s \<or> s \<in> X" "mo \<Longrightarrow> \<not> c_unit_hnd (conns w' s)"
  shows "unit_ok na mo X w (close_unit s w')"
  unfolding close_unit_def by (rule unit_ok_conn [OF assms(1,2)]) (use assms(3) in simp_all)

lemma open_unit_ok:
  assumes inv: "ppp_inv na mo X w" and s: "listed w s \<or> s \<in> X" and off: "mo \<Longrightarrow> \<not> c_unit_hnd (conns w s)"
  shows "case open_unit E s w of
      Inl w' \<Rightarrow> unit_ok na mo X w w'
    | Inr w' \<Rightarrow> unit_ok na mo X w w' \<and> c_unit_fd (conns w' s) \<ge> 0 \<and> c_unit_hnd (conns w' s) = c_unit_hnd (conns w s)"
proof (cases "uc_list w")
  case Nil
  let ?fd = "k_open_unit (pe_kernel E)"
  define w1 where "w1 = upd_conn s (\<lambda>c. c\<lparr>c_unit_fd := ?fd\<rparr>) w"
  have w1: "unit_ok na mo X w w1" unfolding w1_def
    by (rule unit_ok_conn [OF _ s]) (use inv off in \<open>simp_all add: unit_ok_def\<close>)
  have hnd: "c_unit_hnd (conns w1 s) = c_unit_hnd (conns w s)" "c_unit_fd (conns w1 s) = ?fd" by (simp_all add: w1_def)
  have idx: "unit_ok na mo X w (upd_ses s (\<lambda>ses. ses\<lparr>ses_unit_idx := i\<rparr>) w1)" for i
    by (rule unit_ok_ses [OF w1]) (simp add: ses_core_def)
  show ?thesis
    using Nil w1 idx hnd off close_unit_ok [OF w1 s] close_unit_ok [OF idx s]
    by (auto simp: open_unit_def Let_def w1_def [symmetric] split: option.split)
next
  case (Cons a rest)
  define v where "v = upd_ses s (\<lambda>ses. ses\<lparr>ses_unit_idx := snd a\<rparr>) (w\<lparr>uc_list := rest\<rparr>)"
  have v: "unit_ok na mo X w v"
    unfolding v_def by (rule unit_ok_ses [OF unit_ok_uc [OF inv]]) (use Cons in \<open>auto simp: ses_core_def\<close>)
  have fd: "fst a \<ge> 0" using invD(6) [OF inv, of a] Cons by simp
  have "unit_ok na mo X w (upd_conn s (\<lambda>c. c\<lparr>c_unit_fd := fst a\<rparr>) v)" by (rule unit_ok_conn [OF v s]) (use fd in simp_all)
  then show ?thesis using Cons fd by (cases a) (simp add: open_unit_def v_def)
qed

lemma connect_ok:
  assumes inv: "ppp_inv na mo X w" and s: "listed w s \<or> s \<in> X" and k: "mo \<Longrightarrow> mru_ok (pe_kernel E)"
  shows "unit_ok na mo X w (fst (connect_ppp_channel E s w))"
proof (cases "c_unit_fd (conns w s) = -1")
  case True
  have off: "\<not> c_unit_hnd (conns w s)" if "mo"
    using invD(4) [OF inv, of s] that True by (auto simp: conn_ok_def Let_def)
  show ?thesis
  proof (cases "open_unit E s w")
    case (Inl w')
    then show ?thesis using open_unit_ok [OF inv s off, of E] True by (simp add: connect_ppp_channel_def)
  next
    case (Inr w')
    then have w': "unit_ok na mo X w w'" "c_unit_fd (conns w' s) \<ge> 0" "mo \<Longrightarrow> \<not> c_unit_hnd (conns w' s)"
      using open_unit_ok [OF inv s off, of E] off by simp_all
    define v where "v = upd_ses s (\<lambda>ses. ses\<lparr>ses_ifname := ''ppp'' @ show_int (ses_unit_idx ses)\<rparr>) w'"
    have v: "unit_ok na mo X w v" unfolding v_def by (rule unit_ok_ses [OF w'(1)]) (simp add: ses_core_def)
    define x where "x = (\<lambda>i. ap_session_set_ifindex (pe_ses E) s (upd_ses s (\<lambda>ses. ses\<lparr>ses_ifindex := i\<rparr>) v))"
    have x: "unit_ok na mo X w (x i) \<and> c_unit_fd (conns (x i) s) \<ge> 0" for i
    proof -
      have "unit_ok na mo X w (upd_ses s (\<lambda>ses. ses\<lparr>ses_ifindex := i\<rparr>) v)" by (rule unit_ok_ses [OF v]) (simp add: ses_core_def)
      then show ?thesis
        using w'(2) unfolding x_def ap_session_set_ifindex_def
        by (auto simp: v_def ses_core_def split: option.split intro!: unit_ok_ses)
    qed
    have "unit_ok na mo X w (upd_conn s (\<lambda>c. c\<lparr>c_unit_hnd := True\<rparr>) (x i))" for i
      by (rule unit_ok_conn [OF _ s]) (use x in simp_all)
    moreover have "unit_ok na mo X w (close_unit s w')" "unit_ok na mo X w (close_unit s v)"
      using close_unit_ok [OF w'(1) s] close_unit_ok [OF v s] w'(3) by (simp_all add: v_def)
    ultimately show ?thesis
      using True Inr by (simp add: connect_ppp_channel_def Let_def v_def x_def split: option.split)
  qed
next
  case False
  have "\<not> setup_ppp_mru E s w" if "mo" using k [OF that] by (simp add: setup_ppp_mru_def mru_ok_def)
  then have "unit_ok na mo X w (close_unit s w)" if "setup_ppp_mru E s w"
    unfolding close_unit_def using that inv by (intro unit_ok_conn [OF _ s]) (auto simp: unit_ok_def)
  then show ?thesis using False inv by (simp add: connect_ppp_channel_def unit_ok_def)
qed

section \<open>Activation\<close>

lemma inv_ses_timer_on:
  assumes inv: "ppp_inv na mo X w" and s: "listed w s" "ses_state (sessions w s) = AP_STATE_ACTIVE"
    and f: "ses_state (f (sessions w s)) = ses_state (sessions w s)" "ses_terminating (f (sessions w s)) = ses_terminating (sessions w s)"
      "ses_terminated (f (sessions w s)) = ses_terminated (sessions w s)" "ses_down (f (sessions w s)) = ses_down (sessions w s)"
  shows "ppp_inv na mo X (upd_ses s f w)"
proof (rule inv_step [OF inv, of s])
  have "count_in (upd_ses s f w) S = count_in w S" for S
    unfolding count_in_def by (rule arg_cong [of _ _ length], simp add: upd_ses_def, rule filter_cong) (auto simp: f)
  then show "stat_ok (upd_ses s f w)" using invD(2) [OF inv] by (simp add: stat_ok_def upd_ses_def)
  show "ses_ok (upd_ses s f w) s" using invD(3) [OF inv, of s] s(2) by (auto simp: ses_ok_def Let_def f)
  show "conn_ok na mo (upd_ses s f w) s" using invD(4) [OF inv, of s] by (simp add: conn_ok_def Let_def)
  show "settled mo (upd_ses s f w) s" if "s \<notin> X" by (rule settled_same [OF invD(5) [OF inv that]]) (use s in \<open>simp_all add: f\<close>)
qed (use invD [OF inv] in \<open>auto simp: same_at_def\<close>)

definition to_active :: "sid \<Rightarrow> ppp_world \<Rightarrow> ppp_world" where
  "to_active s w = ap_session_stat_move Starting Active (upd_ses s (\<lambda>ses. ses\<lparr>ses_state := AP_STATE_ACTIVE\<rparr>) w)"

lemma to_active_sel:
  "conns (to_active s w) = conns w" "listed (to_active s w) t = listed w t" "calls (to_active s w) = calls w"
  "ev_count (to_active s w) ev t = ev_count w ev t" "broken (to_active s w) = broken w" "uc_list (to_active s w) = uc_list w"
  "sessions (to_active s w) = (sessions w)(s := (sessions w s)\<lparr>ses_state := AP_STATE_ACTIVE\<rparr>)"
  by (simp_all add: to_active_def ap_session_stat_move_def ap_session_stat_inc_def ap_session_stat_dec_def listed_def ev_count_def upd_ses_def)

lemma to_active_stat:
  assumes "stat_ok w" "listed w s" "ses_state (sessions w s) = AP_STATE_STARTING"
  shows "stat_ok (to_active s w)"
proof -
  let ?f = "\<lambda>ses. ses\<lparr>ses_state := AP_STATE_ACTIVE\<rparr>"
  have "count_in (to_active s w) S = count_in (upd_ses s ?f w) S" for S
    by (simp add: count_in_def to_active_sel upd_ses_def)
      (simp add: to_active_def ap_session_stat_move_def ap_session_stat_inc_def ap_session_stat_dec_def upd_ses_def)
  then have c: "(of_nat (count_in (to_active s w) S) :: u32) =
      of_nat (count_in w S) - of_bool (AP_STATE_STARTING \<in> S) + of_bool (AP_STATE_ACTIVE \<in> S)" for S
    using count_in_upd [OF assms(1,2), of ?f S] assms(3) by simp
  show ?thesis
    using assms unfolding stat_ok_def c
    by (simp add: to_active_def ap_session_stat_move_def ap_session_stat_inc_def ap_session_stat_dec_def upd_ses_def)
qed

lemma to_active_inv:
  assumes inv: "ppp_inv na mo X w" and s: "ses_state (sessions w s) = AP_STATE_STARTING"
  shows "ppp_inv na mo X (to_active s w)"
proof (rule inv_step [OF inv, of s])
  have ok: "ses_ok w s" by (rule invD(3) [OF inv])
  then have li: "listed w s" using s by (auto simp: ses_ok_def Let_def)
  show "stat_ok (to_active s w)" by (rule to_active_stat [OF invD(2) [OF inv] li s])
  show "ses_ok (to_active s w) s" using ok s by (auto simp: ses_ok_def Let_def to_active_sel)
  show "conn_ok na mo (to_active s w) s" using invD(4) [OF inv, of s] by (simp add: conn_ok_def Let_def to_active_sel)
  show "settled mo (to_active s w) s" if "s \<notin> X"
    by (rule settled_same [OF invD(5) [OF inv that]]) (use li in \<open>simp_all add: to_active_sel\<close>)
qed (use invD [OF inv] in \<open>auto simp: same_at_def to_active_sel\<close>)

text \<open>The session stays and keeps its authentication method.\<close>

definition goes_on :: "sid \<Rightarrow> ppp_world \<Rightarrow> ppp_world \<Rightarrow> bool" where
  "goes_on s w w' \<longleftrightarrow> listed w' s \<and> (ao_auth (auth_of w s) \<noteq> None \<longrightarrow> ao_auth (auth_of w' s) \<noteq> None)"

lemma goes_on_trans [trans]: "goes_on s u v \<Longrightarrow> goes_on s v w \<Longrightarrow> goes_on s u w"
  by (simp add: goes_on_def)

lemma kept_goes_on: "kept w w' \<Longrightarrow> listed w s \<Longrightarrow> goes_on s w w'"
  by (simp add: goes_on_def kept_listed kept_conn)

lemma activate_inv:
  assumes fr: "frame_ses e" and inv: "ppp_inv na mo {} w" and s: "ses_state (sessions w s) = AP_STATE_STARTING"
  shows "ppp_inv na mo {} (ap_session_activate e s w) \<and> goes_on s w (ap_session_activate e s w)"
proof -
  have li: "listed w s" using invD(3) [OF inv, of s] s by (auto simp: ses_ok_def Let_def)
  define u where "u = env_ifup e s w"
  have k: "kept w u" using fr by (simp add: u_def frame_ses_def)
  have u: "ppp_inv na mo {} u" "listed u s" "ses_state (sessions u s) = AP_STATE_STARTING"
    using kept_inv [OF k inv] li s by (simp_all add: kept_listed [OF k] kept_ses [OF k])
  define f :: "ap_session \<Rightarrow> ap_session" where
    "f = (\<lambda>ses. if ses_session_timeout ses = 0 \<and> conf_session_timeout (env_conf e) \<noteq> 0
             then ses\<lparr>ses_session_timeout := conf_session_timeout (env_conf e)\<rparr> else ses)"
  define g :: "ap_session \<Rightarrow> ap_session" where
    "g = (\<lambda>ses. if ses_idle_timeout ses \<noteq> 0 then ses\<lparr>ses_timer_period := 60000, ses_timer := True\<rparr>
             else if ses_session_timeout ses \<noteq> 0
             then ses\<lparr>ses_timer_expire := ses_session_timeout ses, ses_timer := True\<rparr> else ses)"
  define v where "v = upd_ses s f (to_active s u)"
  have v: "ppp_inv na mo {} v" unfolding v_def
    by (rule kept_inv [OF kept_upd_ses to_active_inv [OF u(1,3)]]) (simp add: f_def ses_core_def)
  have x: "ppp_inv na mo {} (upd_ses s g v)"
    by (rule inv_ses_timer_on [OF v]) (use u(2) in \<open>simp_all add: v_def to_active_sel f_def g_def\<close>)
  have "goes_on s w u" by (rule kept_goes_on [OF k li])
  moreover have "goes_on s u (upd_ses s g v)" using u(2) by (simp add: goes_on_def v_def to_active_sel)
  moreover have "ap_session_activate e s w =
      (if ap_shutdown w then w else if ses_stop_time (sessions u s) \<noteq> 0 then u else upd_ses s g v)"
    by (simp add: ap_session_activate_def Let_def u_def v_def to_active_def f_def g_def)
  ultimately show ?thesis using inv u(1) x li goes_on_trans by (auto simp: goes_on_def)
qed

section \<open>The next node\<close>

lemma split_at_layer_append:
  "split_at_layer l ls = Some (n, rest) \<Longrightarrow> \<exists>pre. ls = pre @ n # rest \<and> l \<in> ld_layer ` set n"
proof (induction ls)
  case (Cons a ls)
  show ?case
  proof (cases "l \<in> ld_layer ` set a")
    case True
    then show ?thesis using Cons.prems by (intro exI [of _ "[]"]) simp
  next
    case False
    then obtain pre where "ls = pre @ n # rest" "l \<in> ld_layer ` set n" using Cons by auto
    then show ?thesis by (intro exI [of _ "a # pre"]) simp
  qed
qed simp

lemma layers_okD: "layers_ok ls \<Longrightarrow> i < length ls \<Longrightarrow> d \<in> set (ls ! i) \<Longrightarrow> get_layer_order (ld_layer d) = i"
  by (simp add: layers_ok_def)

lemma next_node:
  assumes "layers_ok ls" "split_at_layer l ls = Some (n, n' # rest)" "d \<in> set n'"
  shows "get_layer_order (ld_layer d) = Suc (get_layer_order l)"
proof -
  obtain pre where pre: "ls = pre @ n # n' # rest" "l \<in> ld_layer ` set n" using split_at_layer_append [OF assms(2)] by auto
  then obtain d0 where "d0 \<in> set n" "l = ld_layer d0" by auto
  then have "get_layer_order l = length pre" using layers_okD [OF assms(1), of "length pre" d0] pre(1) by simp
  moreover have "get_layer_order (ld_layer d) = Suc (length pre)"
    using layers_okD [OF assms(1), of "Suc (length pre)" d] pre(1) assms(3) by (simp add: nth_append)
  ultimately show ?thesis by simp
qed

lemma layer_orders [simp]:
  "get_layer_order L_LCP = 0" "get_layer_order L_AUTH = Suc 0" "get_layer_order l = 0 \<longleftrightarrow> l = L_LCP"
  "get_layer_order l = Suc 0 \<longleftrightarrow> l = L_AUTH" "get_layer_order l = Suc (Suc 0) \<longleftrightarrow> net_layer l"
  by (cases l; simp add: get_layer_order_def net_layer_def)+

lemma layer_order_net: "net_layer l \<Longrightarrow> get_layer_order l = 2" "get_layer_order l \<le> 2"
  by (cases l; simp add: get_layer_order_def net_layer_def)+

lemma next_distinct:
  assumes "layers_ok ls" "split_at_layer l ls = Some (n, n' # rest)"
  shows "distinct (map ld_layer n')"
proof -
  obtain pre where "ls = pre @ n # n' # rest" using split_at_layer_append [OF assms(2)] by auto
  then show ?thesis using assms(1) by (simp add: layers_ok_def)
qed

lemma all_same_distinct: "distinct xs \<Longrightarrow> \<forall>x \<in> set xs. x = a \<Longrightarrow> xs = [] \<or> xs = [a]"
  by (cases xs; cases "tl xs") auto

lemma next_of_lcp:
  assumes "layers_ok ls" "split_at_layer L_LCP ls = Some (n, n' # rest)"
  shows "map ld_layer n' = [] \<or> map ld_layer n' = [L_AUTH]"
  using next_node [OF assms] by (intro all_same_distinct next_distinct [OF assms]) auto

lemma next_of_auth:
  assumes "layers_ok ls" "split_at_layer L_AUTH ls = Some (n, n' # rest)"
  shows "\<forall>l \<in> set (map ld_layer n'). net_layer l"
  using next_node [OF assms] by auto

lemma next_of_net:
  assumes "layers_ok ls" "split_at_layer l ls = Some (n, n' # rest)" "net_layer l"
  shows "n' = []"
proof (rule ccontr)
  assume "n' \<noteq> []"
  then obtain d where "d \<in> set n'" by (cases n') auto
  from next_node [OF assms(1,2) this] layer_order_net(1) [OF assms(3)] layer_order_net(2) [of "ld_layer d"] show False by simp
qed

section \<open>Starting layers\<close>

abbreviation authd :: "ppp_world \<Rightarrow> sid \<Rightarrow> bool" where
  "authd w s \<equiv> ev_count w EV_SES_AUTHORIZED s > 0"

lemma inv_starting_flag:
  assumes inv: "ppp_inv na mo {} w" and au: "na \<Longrightarrow> net_layer l \<Longrightarrow> authd w s"
  shows "ppp_inv na mo {} (upd_layer s l (\<lambda>d. d\<lparr>ld_starting := True\<rparr>) w)"
proof (rule inv_upd_layer [OF inv])
  assume "listed w s" "\<not> ses_terminating (sessions w s)"
  then show "lcp_held (conns (upd_layer s l (\<lambda>d. d\<lparr>ld_starting := True\<rparr>) w) s)"
    using invD(5) [OF inv, of s] by (intro held_upd_layer) (auto simp: settled_def)
qed (use au in \<open>auto simp: past_auth_def\<close>)

lemma inv_started_flag:
  assumes inv: "ppp_inv na mo {} w" and au: "na \<Longrightarrow> l = L_AUTH \<Longrightarrow> authd w s"
    and f: "f = (\<lambda>d. d\<lparr>ld_started := True\<rparr>) \<or> f = (\<lambda>d. d\<lparr>ld_passive := True\<rparr>)"
  shows "ppp_inv na mo {} (upd_layer s l f w)"
proof (rule inv_upd_layer [OF inv])
  assume "listed w s" "\<not> ses_terminating (sessions w s)"
  then have h: "lcp_held (conns w s)" using invD(5) [OF inv, of s] by (simp add: settled_def)
  have "ld_starting (f d) = ld_starting d" "ld_finished (f d) = ld_finished d" "ld_layer (f d) = ld_layer d" for d using f by auto
  note same = this
  obtain d where "ppp_find_layer_data (conns w s) L_LCP = Some d" "ld_starting d" "\<not> ld_finished d"
    using h by (auto simp: lcp_held_def)
  then show "lcp_held (conns (upd_layer s l f w) s)"
    using find_upd_layer [of f s l w L_LCP] same by (simp add: lcp_held_def)
qed (use au f in \<open>auto simp: past_auth_def\<close>)

lemma upd_layer_goes_on [simp]: "goes_on s w (upd_layer s l f w) = listed w s"
  by (simp add: goes_on_def upd_layer_conn)

lemma upd_layer_authd [simp]: "ev_count (upd_layer s l f w) ev t = ev_count w ev t"
  by (simp add: upd_layer_def)

definition net_contract :: "ppp_env \<Rightarrow> bool" where
  "net_contract E \<longleftrightarrow> (\<forall>l s w. net_layer l \<longrightarrow> kept w (fst (pe_layer_start E l s w)))"

lemma terminateD:
  assumes "terminate_contract na mo E" "ppp_inv na mo {} w" "listed w s \<or> ses_terminated (sessions w s)"
  shows "ppp_inv na mo {} (pe_terminate E s cause hard w)"
    "\<not> hard \<Longrightarrow> listed w s \<Longrightarrow> \<not> ses_terminating (sessions w s) \<Longrightarrow> goes_on s w (pe_terminate E s cause hard w)"
  using assms unfolding terminate_contract_def goes_on_def by auto

lemma start_nets_inv:
  assumes E: "net_contract E" "terminate_contract na mo E"
    and w: "ppp_inv na mo {} w" "listed w s" "\<not> ses_terminating (sessions w s)" "na \<Longrightarrow> authd w s"
    and ls: "\<forall>l \<in> set ls. net_layer l"
  shows "ppp_inv na mo {} (start_layers E s ls w) \<and> goes_on s w (start_layers E s ls w)"
  using w ls
proof (induction ls arbitrary: w)
  case Nil
  then show ?case by (simp add: goes_on_def)
next
  case (Cons l ls)
  define u where "u = upd_layer s l (\<lambda>d. d\<lparr>ld_starting := True\<rparr>) w"
  obtain v f where v: "pe_layer_start E l s u = (v, f)" by (cases "pe_layer_start E l s u")
  have k: "kept u v" using E(1) Cons.prems(5) v unfolding net_contract_def by (metis fst_conv list.set_intros(1))
  have u: "ppp_inv na mo {} u" unfolding u_def by (rule inv_starting_flag) (use Cons.prems in auto)
  have i: "ppp_inv na mo {} v" by (rule kept_inv [OF k u])
  have vs: "listed v s" "\<not> ses_terminating (sessions v s)" "na \<Longrightarrow> authd v s"
    using Cons.prems by (simp_all add: kept_listed [OF k] kept_ses [OF k] kept_events [OF k] u_def upd_layer_conn)
  have g: "goes_on s w v" using kept_goes_on [OF k, of s] Cons.prems(2)
    by (intro goes_on_trans [of s w u v]) (simp_all add: u_def upd_layer_conn)
  have t: "ppp_inv na mo {} (pe_terminate E s TERM_NAS_ERROR False v) \<and> goes_on s w (pe_terminate E s TERM_NAS_ERROR False v)"
    using terminateD [OF E(2) i] vs goes_on_trans [OF g] by simp
  show ?case
    using Cons.IH [OF i vs] Cons.prems(5) t goes_on_trans [OF g] v by (cases f) (simp_all add: u_def)
qed

lemma check_net_inv:
  assumes fr: "frame_ses (pe_ses E)" and w: "ppp_inv na mo {} w" "listed w s" and l: "net_layer l"
  shows "ppp_inv na mo {} (layer_started_check E l s w) \<and> goes_on s w (layer_started_check E l s w)"
proof -
  have ok: "layers_ok (c_layers (conns w s))" using invD(4) [OF w(1), of s] by (simp add: conn_ok_def Let_def)
  have "goes_on s w w" using w(2) by (simp add: goes_on_def)
  then show ?thesis
    using w(1) activate_inv [OF fr w(1), of s] next_of_net [OF ok _ l]
    by (auto simp: layer_started_check_def split: option.split list.split)
qed

lemma check_auth_inv:
  assumes E: "net_contract E" "terminate_contract na mo E" "frame_ses (pe_ses E)"
    and w: "ppp_inv na mo {} w" "listed w s" "\<not> ses_terminating (sessions w s)" "na \<Longrightarrow> authd w s"
  shows "ppp_inv na mo {} (layer_started_check E L_AUTH s w) \<and> goes_on s w (layer_started_check E L_AUTH s w)"
proof -
  have ok: "layers_ok (c_layers (conns w s))" using invD(4) [OF w(1), of s] by (simp add: conn_ok_def Let_def)
  have "goes_on s w w" using w(2) by (simp add: goes_on_def)
  then show ?thesis
    using w(1) activate_inv [OF E(3) w(1), of s] start_nets_inv [OF E(1,2) w] next_of_auth [OF ok]
    by (auto simp: layer_started_check_def split: option.split list.split)
qed

definition auth_started_contract :: "bool \<Rightarrow> bool \<Rightarrow> ppp_env \<Rightarrow> bool" where
  "auth_started_contract na mo E \<longleftrightarrow>
     (\<forall>s w. ppp_inv na mo {} w \<longrightarrow> listed w s \<longrightarrow> \<not> ses_terminating (sessions w s) \<longrightarrow> (na \<longrightarrow> authd w s) \<longrightarrow>
        ppp_inv na mo {} (pe_layer_started E L_AUTH s w) \<and> goes_on s w (pe_layer_started E L_AUTH s w))"

lemma layer_started_auth:
  assumes E: "net_contract E" "terminate_contract na mo E" "frame_ses (pe_ses E)"
    and w: "ppp_inv na mo {} w" "listed w s" "\<not> ses_terminating (sessions w s)" "na \<longrightarrow> authd w s"
  shows "ppp_inv na mo {} (ppp_layer_started E L_AUTH s w) \<and> goes_on s w (ppp_layer_started E L_AUTH s w)"
proof -
  let ?u = "upd_layer s L_AUTH (\<lambda>d. d\<lparr>ld_started := True\<rparr>) w"
  have u: "ppp_inv na mo {} ?u" by (rule inv_started_flag) (use w in auto)
  have "goes_on s w ?u" using w(2) by simp
  then show ?thesis
    using check_auth_inv [OF E u, of s] w goes_on_trans [of s w ?u] by (auto simp: ppp_layer_started_def upd_layer_conn goes_on_def)
qed

lemma layer_started_net:
  assumes fr: "frame_ses (pe_ses E)" and w: "ppp_inv na mo {} w" "listed w s" and l: "net_layer l"
  shows "ppp_inv na mo {} (ppp_layer_started E l s w)" "ppp_inv na mo {} (ppp_layer_passive E l s w)"
proof -
  have "l \<noteq> L_AUTH" using l by (simp add: net_layer_def)
  then have "ppp_inv na mo {} (upd_layer s l f w)" if "f = (\<lambda>d. d\<lparr>ld_started := True\<rparr>) \<or> f = (\<lambda>d. d\<lparr>ld_passive := True\<rparr>)" for f
    using that by (intro inv_started_flag [OF w(1)]) auto
  then show "ppp_inv na mo {} (ppp_layer_started E l s w)" "ppp_inv na mo {} (ppp_layer_passive E l s w)"
    using check_net_inv [OF fr _ _ l] w by (simp_all add: ppp_layer_started_def ppp_layer_passive_def upd_layer_conn)
qed

section \<open>The authentication layer\<close>

lemma only_unit_goes_on: "only_unit w w' \<Longrightarrow> listed w s \<Longrightarrow> goes_on s w w'"
  by (simp add: goes_on_def only_unit_def)

lemma inv_auth_on:
  assumes inv: "ppp_inv na mo {} w" and s: "listed w s" "ao_auth (auth_of w s) = Some i"
  shows "ppp_inv na mo {} (upd_auth s (\<lambda>a. a\<lparr>ao_started := True\<rparr>) w)"
  unfolding upd_auth_def
proof (rule inv_upd_conn [OF inv])
  note b = inv_auth_bound [OF inv _ s]
  show "conn_ok na mo (upd_conn s (\<lambda>c. c\<lparr>c_auth := (c_auth c)\<lparr>ao_started := True\<rparr>\<rparr>) w) s"
    using invD(4) [OF inv, of s] b s by (auto simp: conn_ok_def Let_def auth_state_ok_def)
  show "settled mo (upd_conn s (\<lambda>c. c\<lparr>c_auth := (c_auth c)\<lparr>ao_started := True\<rparr>\<rparr>) w) s"
    using invD(5) [OF inv, of s] s by (auto simp: settled_def lcp_held_def ppp_find_layer_data_def)
qed

lemma auth_start_inv:
  assumes E: "auth_started_contract na mo E" "\<And>h. keeps (pe_auth_start E h)" "mo \<Longrightarrow> mru_ok (pe_kernel E)"
    and w: "ppp_inv na mo {} w" "listed w s" "\<not> ses_terminating (sessions w s)" "na \<Longrightarrow> ao_auth (auth_of w s) \<noteq> None"
    and r: "auth_layer_start E s w = (w', failed)"
  shows "ppp_inv na mo {} w' \<and> goes_on s w w' \<and> (failed \<longrightarrow> \<not> ses_terminating (sessions w' s))"
proof -
  define x where "x = (if conf_noauth (pe_conf E) \<noteq> 0 then connect_ppp_channel E s w else (w, False))"
  obtain u f where uf: "x = (u, f)" by (cases x)
  have "unit_ok na mo {} w u"
    using connect_ok [OF w(1), of s E] w(1,2) E(3) uf by (auto simp: x_def unit_ok_def split: if_splits)
  then have u: "ppp_inv na mo {} u" "only_unit w u" by (simp_all add: unit_ok_def)
  have us: "listed u s" "\<not> ses_terminating (sessions u s)" "auth_of u s = auth_of w s"
    using u(2) w(2,3) by (simp_all add: only_unit_def ses_core_def)
  have g: "goes_on s w u" by (rule only_unit_goes_on [OF u(2) w(2)])
  show ?thesis
  proof (cases f)
    case True
    then show ?thesis using r uf u(1) g us by (simp add: auth_layer_start_def x_def)
  next
    case f: False
    show ?thesis
    proof (cases "ao_auth (auth_of u s)")
      case None
      then have "\<not> na" using w(4) us(3) by auto
      then have "ppp_inv na mo {} (pe_layer_started E L_AUTH s u) \<and> goes_on s u (pe_layer_started E L_AUTH s u)"
        using E(1) u(1) us by (simp add: auth_started_contract_def)
      then show ?thesis using r uf f None goes_on_trans [OF g] by (auto simp: auth_layer_start_def x_def)
    next
      case (Some i)
      define v where "v = upd_auth s (\<lambda>a. a\<lparr>ao_started := True\<rparr>) u"
      have v: "ppp_inv na mo {} v" unfolding v_def by (rule inv_auth_on [OF u(1) us(1) Some])
      have k: "kept v (pe_auth_start E (auth_handler_of (auth_of u s) i) s v)" using E(2) by simp
      have "goes_on s u v" using us(1) by (simp add: goes_on_def v_def)
      then have "goes_on s w (pe_auth_start E (auth_handler_of (auth_of u s) i) s v)"
        using goes_on_trans [OF g] goes_on_trans kept_goes_on [OF k] us(1) by (metis goes_on_def)
      then show ?thesis using r uf f Some kept_inv [OF k v] by (simp add: auth_layer_start_def x_def v_def)
    qed
  qed
qed

definition auth_start_contract :: "bool \<Rightarrow> bool \<Rightarrow> ppp_env \<Rightarrow> bool" where
  "auth_start_contract na mo E \<longleftrightarrow>
     (\<forall>s w w' failed. ppp_inv na mo {} w \<longrightarrow> listed w s \<longrightarrow> \<not> ses_terminating (sessions w s) \<longrightarrow>
        (na \<longrightarrow> ao_auth (auth_of w s) \<noteq> None) \<longrightarrow> pe_layer_start E L_AUTH s w = (w', failed) \<longrightarrow>
        ppp_inv na mo {} w' \<and> goes_on s w w' \<and> (failed \<longrightarrow> \<not> ses_terminating (sessions w' s)))"

definition lcp_started_contract :: "bool \<Rightarrow> bool \<Rightarrow> ppp_env \<Rightarrow> bool" where
  "lcp_started_contract na mo E \<longleftrightarrow>
     (\<forall>s w. ppp_inv na mo {} w \<longrightarrow> listed w s \<longrightarrow> \<not> ses_terminating (sessions w s) \<longrightarrow>
        (na \<longrightarrow> ao_auth (auth_of w s) \<noteq> None) \<longrightarrow>
        ppp_inv na mo {} (pe_layer_started E L_LCP s w) \<and> goes_on s w (pe_layer_started E L_LCP s w))"

lemma start_auth_node:
  assumes E: "auth_start_contract na mo E" "terminate_contract na mo E"
    and w: "ppp_inv na mo {} w" "listed w s" "\<not> ses_terminating (sessions w s)" "na \<longrightarrow> ao_auth (auth_of w s) \<noteq> None"
  shows "ppp_inv na mo {} (start_layers E s [L_AUTH] w) \<and> goes_on s w (start_layers E s [L_AUTH] w)"
proof -
  define u where "u = upd_layer s L_AUTH (\<lambda>d. d\<lparr>ld_starting := True\<rparr>) w"
  obtain v f where v: "pe_layer_start E L_AUTH s u = (v, f)" by (cases "pe_layer_start E L_AUTH s u")
  have u: "ppp_inv na mo {} u" unfolding u_def by (rule inv_starting_flag) (use w in \<open>auto simp: net_layer_def\<close>)
  have h: "ppp_inv na mo {} v" "goes_on s u v" "f \<longrightarrow> \<not> ses_terminating (sessions v s)"
    using E(1) [unfolded auth_start_contract_def, rule_format, OF u _ _ _ v] w by (simp_all add: u_def upd_layer_conn)
  have g: "goes_on s w v" using h(2) w(2) by (simp add: goes_on_def u_def upd_layer_conn)
  have "ppp_inv na mo {} (pe_terminate E s TERM_NAS_ERROR False v) \<and> goes_on s w (pe_terminate E s TERM_NAS_ERROR False v)" if f
    using terminateD [OF E(2) h(1)] h(3) that goes_on_trans [OF g] g by (simp add: goes_on_def)
  then show ?thesis using v h(1) g by (cases f) (simp_all add: u_def)
qed

lemma layer_started_lcp:
  assumes E: "auth_start_contract na mo E" "terminate_contract na mo E" "frame_ses (pe_ses E)"
    and w: "ppp_inv na mo {} w" "listed w s" "\<not> ses_terminating (sessions w s)" "na \<longrightarrow> ao_auth (auth_of w s) \<noteq> None"
  shows "ppp_inv na mo {} (ppp_layer_started E L_LCP s w) \<and> goes_on s w (ppp_layer_started E L_LCP s w)"
proof -
  let ?u = "upd_layer s L_LCP (\<lambda>d. d\<lparr>ld_started := True\<rparr>) w"
  have u: "ppp_inv na mo {} ?u" by (rule inv_started_flag) (use w in auto)
  have us: "listed ?u s" "\<not> ses_terminating (sessions ?u s)" "na \<longrightarrow> ao_auth (auth_of ?u s) \<noteq> None"
    using w by (simp_all add: upd_layer_conn)
  have ok: "layers_ok (c_layers (conns ?u s))" using invD(4) [OF u, of s] by (simp add: conn_ok_def Let_def)
  have "goes_on s ?u ?u" using us by (simp add: goes_on_def)
  then have "ppp_inv na mo {} (layer_started_check E L_LCP s ?u) \<and> goes_on s ?u (layer_started_check E L_LCP s ?u)"
    using u activate_inv [OF E(3) u, of s] start_auth_node [OF E(1,2) u us] next_of_lcp [OF ok]
    by (auto simp: layer_started_check_def split: option.split list.split)
  moreover have "goes_on s w ?u" using w(2) by simp
  ultimately show ?thesis using w goes_on_trans [of s w ?u] by (auto simp: ppp_layer_started_def goes_on_def)
qed

section \<open>The linked system\<close>

lemma sys_net: "frame_env B \<Longrightarrow> net_contract (ppp_sys (Suc n) opts B)"
  using frame_env_layers(1) by (simp add: net_contract_def link_env_def net_layer_def)

lemma sys_levels:
  assumes "frame_env B" "5 \<le> n"
  shows "terminate_contract na mo (ppp_sys n opts B)" "net_contract (ppp_sys n opts B)" "finished_contract na mo (ppp_sys n opts B)"
    "free_contract na mo (ppp_sys n opts B)"
proof -
  obtain m where "n = 5 + m" using assms(2) le_Suc_ex by blast
  then have n: "n = Suc (Suc (Suc (Suc (Suc m))))" by simp
  show "terminate_contract na mo (ppp_sys n opts B)" "net_contract (ppp_sys n opts B)" "finished_contract na mo (ppp_sys n opts B)"
    "free_contract na mo (ppp_sys n opts B)"
    unfolding n by (rule sys_terminate [OF assms(1)] sys_net [OF assms(1)] sys_finished [OF assms(1)] sys_free [OF assms(1)])+
qed

lemma sys_auth_started:
  assumes "frame_env B" "6 \<le> n"
  shows "auth_started_contract na mo (ppp_sys n opts B)"
proof -
  obtain m where n: "n = Suc m" "5 \<le> m" using assms(2) by (cases n) auto
  show ?thesis
    unfolding auth_started_contract_def n(1)
    using layer_started_auth [OF sys_levels(2,1) [OF assms(1) n(2)] sys_frame [OF assms(1)]] by (simp add: link_env_def)
qed

definition env_ok :: "bool \<Rightarrow> bool \<Rightarrow> opt_kind list \<Rightarrow> ppp_env \<Rightarrow> bool" where
  "env_ok na mo opts B \<longleftrightarrow> frame_env B \<and> (mo \<longrightarrow> mru_ok (pe_kernel B)) \<and>
     (na \<longrightarrow> conf_noauth (pe_conf B) = 0 \<and> pe_auth_handlers B \<noteq> [] \<and> KAuth \<in> set opts)"

lemma sys_auth_start:
  assumes "env_ok na mo opts B" "7 \<le> n"
  shows "auth_start_contract na mo (ppp_sys n opts B)"
proof -
  obtain m where n: "n = Suc m" "6 \<le> m" using assms(2) by (cases n) auto
  have B: "frame_env B" "mo \<Longrightarrow> mru_ok (pe_kernel (ppp_sys m opts B))" using assms(1) by (simp_all add: env_ok_def)
  have st: "keeps (pe_auth_start (ppp_sys m opts B) h)" for h using frame_envD(1) [OF B(1)] by simp
  have e: "pe_layer_start (ppp_sys n opts B) L_AUTH = auth_layer_start (ppp_sys m opts B)" unfolding n(1) by (simp add: link_env_def)
  show ?thesis
    unfolding auth_start_contract_def e using auth_start_inv [OF sys_auth_started [OF B(1) n(2)] st B(2)] by blast
qed

lemma sys_lcp_started:
  assumes "env_ok na mo opts B" "8 \<le> n"
  shows "lcp_started_contract na mo (ppp_sys n opts B)"
proof -
  obtain m where n: "n = Suc m" "7 \<le> m" using assms(2) by (cases n) auto
  have B: "frame_env B" using assms(1) by (simp add: env_ok_def)
  have "5 \<le> m" using n(2) by simp
  note T = sys_levels(1) [OF B this]
  show ?thesis
    unfolding lcp_started_contract_def n(1)
    using layer_started_lcp [OF sys_auth_start [OF assms(1) n(2)] T sys_frame [OF B]] by (simp add: link_env_def)
qed

end
