(* ===== verification/PppLcpRecv.thy ===== *)
theory PppLcpRecv
  imports PppStart
begin

text \<open>
  LCP's reaction to packets and time-outs keeps the invariant.
\<close>

section \<open>A running negotiation\<close>

definition good :: "bool \<Rightarrow> bool \<Rightarrow> bool \<Rightarrow> sid \<Rightarrow> ppp_world \<Rightarrow> bool" where
  "good na mo b s w \<longleftrightarrow> ppp_inv na mo {} w \<and> listed w s \<and> (na \<longrightarrow> ao_auth (auth_of w s) \<noteq> None) \<and>
     (b \<longrightarrow> \<not> ses_terminating (sessions w s))"

lemma goodD: "good na mo b s w \<Longrightarrow> ppp_inv na mo {} w" "good na mo b s w \<Longrightarrow> listed w s" "good na mo b s w \<Longrightarrow> good na mo False s w"
  by (simp_all add: good_def)

lemma good_kept: "kept w w' \<Longrightarrow> good na mo b s w \<Longrightarrow> good na mo b s w'"
  using kept_inv by (simp add: good_def kept_listed kept_conn kept_ses)

lemma good_set_state [intro, simp]: "good na mo b s w \<Longrightarrow> st \<noteq> FSM_Starting \<Longrightarrow> good na mo b s (set_state (lcp_ops E s) st w)"
  using inv_set_state [of na mo "{}" w st s E] by (auto simp: good_def fsm_lcp)

lemma good_timers [intro, simp]:
  assumes "good na mo b s w"
  shows "good na mo b s (stop_timer (lcp_ops E s) w)" "good na mo b s (stop_echo s w)"
    "good na mo b s (init_req_counter (lcp_ops E s) tmo w)" "good na mo b s (zero_req_counter (lcp_ops E s) w)"
  using assms inv_stop_timer [of na mo "{}" w] inv_init_counter [of na mo "{}" w s] by (auto simp: good_def fsm_lcp stop_echo_def)

lemma kept_counters [intro, simp]:
  "kept w (dec_counter (lcp_ops E s) w)" "kept w (inc_failure (lcp_ops E s) w)" "kept w (next_id (lcp_ops E s) w)"
  unfolding fsm_lcp by (rule kept_upd_lcp; simp add: lcp_core_def)+

lemma good_counters [intro, simp]:
  assumes "good na mo b s w"
  shows "good na mo b s (dec_counter (lcp_ops E s) w)" "good na mo b s (inc_failure (lcp_ops E s) w)" "good na mo b s (next_id (lcp_ops E s) w)"
  using assms by (simp_all add: good_kept [OF kept_counters(1)] good_kept [OF kept_counters(2)] good_kept [OF kept_counters(3)])

lemma good_conf_req [intro, simp]:
  assumes "good na mo b s w"
  shows "good na mo b s (fst (conf_req_call (lcp_ops E s) w))"
proof -
  have e: "conf_req_call (lcp_ops E s) w = lcp_send_conf_req E s w" by (simp add: conf_req_call_def lcp_ops_def)
  have inv: "ppp_inv na mo {} w" using assms by (rule goodD)
  note sel = send_conf_req_sel [OF inv_auth_ok [OF inv], of E]
  have "ao_auth (auth_of w s) \<noteq> None \<Longrightarrow> ao_auth (req_auth E (lcp_opts (lcp_of w s)) (auth_of w s)) \<noteq> None"
    using auth_choose_some by (simp add: req_auth_def)
  then show ?thesis using assms send_conf_req_inv [OF inv, of E s] unfolding e good_def by (auto simp: sel)
qed

lemma good_resend [intro, simp]:
  "good na mo b s w \<Longrightarrow> good na mo b s (resend_conf_req (lcp_ops E s) w)"
  "good na mo b s w \<Longrightarrow> good na mo b s (restart_conf_req (lcp_ops E s) w)"
  by (simp_all add: resend_conf_req_def restart_conf_req_def)

lemma lcp_calls [simp]:
  "opt_call (layer_down (lcp_ops E s)) w = w" "opt_call (send_conf_ack (lcp_ops E s)) w = lcp_send_conf_ack s w"
  "opt_call (send_conf_nak (lcp_ops E s)) w = lcp_send_conf_nak E s w" "opt_call (send_conf_rej (lcp_ops E s)) w = lcp_send_conf_rej s w"
  "opt_call (send_code_rej (lcp_ops E s)) w = lcp_send_code_rej s w" "opt_call (layer_up (lcp_ops E s)) w = lcp_layer_up E s w"
  "opt_call (layer_finished (lcp_ops E s)) w = lcp_layer_finished E s w" "send_term_ack (lcp_ops E s) = lcp_send_term_ack s"
  "send_term_req (lcp_ops E s) = lcp_send_term_req s"
  by (simp_all add: lcp_ops_def opt_call_def lcp_layer_down_def)

lemma good_sends [intro, simp]:
  assumes "good na mo b s w"
  shows "good na mo b s (lcp_send_conf_ack s w)" "good na mo b s (lcp_send_conf_nak E s w)" "good na mo b s (lcp_send_conf_rej s w)"
    "good na mo b s (lcp_send_code_rej s w)" "good na mo b s (lcp_send_term_ack s w)" "good na mo b s (lcp_send_term_req s w)"
  using assms good_kept [OF kept_send_conf_nak [OF goodD(1) [OF assms]]]
  by (auto intro: good_kept [OF kept_send_simple(1)] good_kept [OF kept_send_simple(2)] good_kept [OF kept_send_simple(3)]
      good_kept [OF kept_send_simple(4)] good_kept [OF kept_send_term_req])

section \<open>Notifications\<close>

text \<open>The contracts LCP relies on.\<close>

definition lcp_env :: "bool \<Rightarrow> bool \<Rightarrow> ppp_env \<Rightarrow> bool" where
  "lcp_env na mo E \<longleftrightarrow> terminate_contract na mo E \<and> finished_contract na mo E \<and> lcp_started_contract na mo E \<and>
     frame_ses (pe_ses E) \<and> (\<forall>p. keeps (pe_recv_proto_rej E p))"

lemma inv_lcp_started:
  assumes "ppp_inv na mo X w"
  shows "ppp_inv na mo X (upd_lcp s (\<lambda>l. l\<lparr>lcp_started := b\<rparr>) w)"
  by (rule inv_upd_lcp [OF assms]) (use inv_start [OF assms] inv_na [OF assms] in simp_all)

lemma inv_start_echo:
  assumes "ppp_inv na mo X w" "listed w s"
  shows "ppp_inv na mo X (start_echo E s w)"
  unfolding start_echo_def by (rule inv_upd_lcp [OF assms(1)]) (use inv_start [OF assms(1)] inv_na [OF assms(1)] assms(2) in simp_all)

lemma good_layer_up [intro]:
  assumes E: "lcp_env na mo E" and w: "good na mo True s w"
  shows "good na mo False s (lcp_layer_up E s w)"
proof -
  define u where "u = (if \<not> lcp_started (lcp_of w s)
      then pe_layer_started E L_LCP s (upd_lcp s (\<lambda>l. l\<lparr>lcp_started := True\<rparr>) w) else w)"
  have x: "good na mo True s (upd_lcp s (\<lambda>l. l\<lparr>lcp_started := True\<rparr>) w)"
    using w inv_lcp_started [of na mo "{}" w s True] by (simp add: good_def)
  then have "ppp_inv na mo {} u \<and> goes_on s w u"
    using E w unfolding lcp_env_def lcp_started_contract_def by (auto simp: good_def u_def goes_on_def)
  then have "good na mo False s (start_echo E s u)"
    using w inv_start_echo [of na mo "{}" u s E] by (auto simp: good_def goes_on_def) (simp_all add: start_echo_def)
  then show ?thesis by (simp add: lcp_layer_up_def u_def)
qed

lemma terminate_good:
  assumes "lcp_env na mo E" "good na mo b s w"
  shows "ppp_inv na mo {} (pe_terminate E s cause hard w)"
  using assms terminateD(1) by (simp add: lcp_env_def good_def)

lemma layer_finished_good:
  assumes E: "lcp_env na mo E" and inv: "ppp_inv na mo {} w" and s: "listed w s"
  shows "ppp_inv na mo {} (lcp_layer_finished E s w)"
proof -
  let ?u = "stop_echo s w"
  have u: "ppp_inv na mo {} ?u" "listed ?u s" using inv_stop_timer(2) [OF inv] s by (simp_all add: stop_echo_def)
  let ?v = "upd_lcp s (\<lambda>l. l\<lparr>lcp_started := False\<rparr>) ?u"
  have v: "ppp_inv na mo {} ?v" "listed ?v s" using inv_lcp_started [OF u(1)] u(2) by simp_all
  have T: "terminate_contract na mo E" and F: "finished_contract na mo E" using E by (simp_all add: lcp_env_def)
  show ?thesis
    using terminateD(1) [OF T u(1)] terminateD(1) [OF T v(1)] F v u
    by (auto simp: lcp_layer_finished_def Let_def finished_contract_def)
qed

section \<open>The events of the automaton\<close>

lemma conf_req_ack_inv:
  assumes E: "lcp_env na mo E" and w: "good na mo True s w"
  shows "ppp_inv na mo {} (ppp_fsm_recv_conf_req_ack (lcp_ops E s) w)"
proof -
  have "good na mo False s (set_state (lcp_ops E s) FSM_Opened
      (lcp_layer_up E s (stop_timer (lcp_ops E s) (lcp_send_conf_ack s w))))"
    using w by (intro good_set_state good_layer_up [OF E]) simp_all
  then show ?thesis
    using w by (cases "fsm_state (lcp_fsm (lcp_of w s))") (auto simp: ppp_fsm_recv_conf_req_ack_def Let_def intro!: goodD(1))
qed

lemma conf_req_nak_inv:
  assumes E: "lcp_env na mo E" and w: "good na mo True s w"
  shows "ppp_inv na mo {} (ppp_fsm_recv_conf_req_nak (lcp_ops E s) w)"
proof -
  have i: "good na mo True s (inc_failure (lcp_ops E s) w)" using w by simp
  have "ppp_inv na mo {} (lcp_layer_finished E s (inc_failure (lcp_ops E s) w))"
    by (rule layer_finished_good [OF E goodD(1,2) [OF i]])
  then show ?thesis
    using w i by (cases "fsm_state (lcp_fsm (lcp_of w s))") (auto simp: ppp_fsm_recv_conf_req_nak_def Let_def intro!: goodD(1))
qed

lemma conf_req_rej_inv:
  assumes E: "lcp_env na mo E" and w: "good na mo True s w"
  shows "ppp_inv na mo {} (ppp_fsm_recv_conf_req_rej (lcp_ops E s) w)"
proof -
  have i: "good na mo True s (inc_failure (lcp_ops E s) w)" using w by simp
  have "ppp_inv na mo {} (lcp_layer_finished E s (inc_failure (lcp_ops E s) w))"
    by (rule layer_finished_good [OF E goodD(1,2) [OF i]])
  then show ?thesis
    using w i by (cases "fsm_state (lcp_fsm (lcp_of w s))") (auto simp: ppp_fsm_recv_conf_req_rej_def Let_def intro!: goodD(1))
qed

lemma conf_ack_inv:
  assumes E: "lcp_env na mo E" and w: "good na mo True s w"
  shows "ppp_inv na mo {} (ppp_fsm_recv_conf_ack (lcp_ops E s) w)"
proof -
  have "good na mo False s (set_state (lcp_ops E s) FSM_Opened (lcp_layer_up E s (stop_timer (lcp_ops E s) (next_id (lcp_ops E s) w))))"
    using w by (intro good_set_state good_layer_up [OF E]) simp_all
  then show ?thesis
    using w by (cases "fsm_state (lcp_fsm (lcp_of (next_id (lcp_ops E s) w) s))")
      (auto simp: ppp_fsm_recv_conf_ack_def Let_def intro!: goodD(1))
qed

lemma conf_rej_inv:
  assumes w: "good na mo True s w"
  shows "ppp_inv na mo {} (ppp_fsm_recv_conf_rej (lcp_ops E s) w)"
  using w by (cases "fsm_state (lcp_fsm (lcp_of (next_id (lcp_ops E s) w) s))")
    (auto simp: ppp_fsm_recv_conf_rej_def Let_def intro!: goodD(1))

lemma term_req_good:
  assumes "good na mo b s w"
  shows "good na mo b s (ppp_fsm_recv_term_req (lcp_ops E s) w)"
  using assms by (cases "fsm_state (lcp_fsm (lcp_of w s))") (auto simp: ppp_fsm_recv_term_req_def Let_def)

lemma finish_in_inv:
  assumes E: "lcp_env na mo E" and w: "good na mo b s w" and st: "st \<noteq> FSM_Starting"
  shows "ppp_inv na mo {} (finish_in (lcp_ops E s) st w)"
proof -
  have "good na mo b s (set_state (lcp_ops E s) st w)" using w st by simp
  then show ?thesis unfolding finish_in_def lcp_calls by (intro layer_finished_good [OF E]) (rule goodD, assumption)+
qed

lemma term_ack_inv:
  assumes E: "lcp_env na mo E" and w: "good na mo b s w"
  shows "ppp_inv na mo {} (ppp_fsm_recv_term_ack (lcp_ops E s) w)"
  using w by (cases "fsm_state (lcp_fsm (lcp_of (stop_timer (lcp_ops E s) w) s))")
    (auto simp: ppp_fsm_recv_term_ack_def Let_def intro: goodD(1) [of na mo b s] finish_in_inv [OF E, of b])

lemma code_rej_inv:
  assumes E: "lcp_env na mo E" and w: "good na mo b s w"
  shows "ppp_inv na mo {} (ppp_fsm_recv_code_rej_bad (lcp_ops E s) w)"
  using w by (cases "fsm_state (lcp_fsm (lcp_of w s))")
    (auto simp: ppp_fsm_recv_code_rej_bad_def intro: goodD(1) [of na mo b s] finish_in_inv [OF E, of b])

lemma fsm_tick_inv:
  assumes E: "lcp_env na mo E" and w: "good na mo b s w"
  shows "ppp_inv na mo {} (restart_timer_func (lcp_ops E s) w)"
  using w by (cases "fsm_state (lcp_fsm (lcp_of w s))")
    (auto simp: restart_timer_func_def ppp_fsm_timeout0_def ppp_fsm_timeout1_def intro: goodD(1) [of na mo b s] finish_in_inv [OF E, of b])

section \<open>The options of a packet\<close>

text \<open>The loop that cuts a packet apart stays inside it.\<close>

lemma split_opts_safe:
  assumes "sz \<le> length data"
  shows "\<exists>os bad. split_opts data sz = Ok (os, bad)"
  using assms
proof (induction data sz rule: split_opts.induct)
  case (1 data sz)
  show ?case
  proof (cases "sz < 2 \<or> unat (data ! 1) < 2 \<or> unat (data ! 1) > sz")
    case True
    then show ?thesis using 1 (2) by (subst split_opts.simps) (auto simp: read_byte_def)
  next
    case False
    then have rb: "read_byte data 1 = Ok (data ! 1)" "read_bytes data 0 (unat (data ! 1)) = Ok (take (unat (data ! 1)) data)"
      using 1 (2) by (auto simp: read_byte_def read_bytes_def)
    have "sz - unat (data ! 1) \<le> length (drop (unat (data ! 1)) data)" using 1 (2) by simp
    then obtain os bad where "split_opts (drop (unat (data ! 1)) data) (sz - unat (data ! 1)) = Ok (os, bad)"
      using 1 (1) [OF _ _ rb(1) _ rb(2)] False by auto
    then show ?thesis using False rb by (subst split_opts.simps) auto
  qed
qed

lemma find_opt_bound: "find_opt os x i = Some j \<Longrightarrow> i \<le> j \<and> j < i + length os"
  by (induction os x i rule: find_opt.induct) (auto split: if_splits)

lemma inv_set_opts:
  assumes inv: "ppp_inv na mo X w"
    and ks: "map (\<lambda>o'. kind_of (lo_data o')) os = map (\<lambda>o'. kind_of (lo_data o')) (lcp_opts (lcp_of w s))"
    and nk: "\<forall>o' \<in> set os. lo_state o' = LCP_OPT_NAK \<longrightarrow> kind_of (lo_data o') \<in> {KMru, KMagic}"
  shows "ppp_inv na mo X (upd_lcp s (\<lambda>l. l\<lparr>lcp_opts := os\<rparr>) w)"
  unfolding upd_lcp_def
proof (rule inv_upd_conn [OF inv])
  have k: "kind_of ` lo_data ` set os = kind_of ` lo_data ` set (lcp_opts (lcp_of w s))"
    using arg_cong [OF ks, of set] by (simp add: image_image)
  show "conn_ok na mo (upd_conn s (\<lambda>c. c\<lparr>c_lcp := (c_lcp c)\<lparr>lcp_opts := os\<rparr>\<rparr>) w) s"
    using invD(4) [OF inv, of s] k nk by (simp add: conn_ok_def Let_def)
  assume "s \<notin> X"
  from invD(5) [OF inv this] show "settled mo (upd_conn s (\<lambda>c. c\<lparr>c_lcp := (c_lcp c)\<lparr>lcp_opts := os\<rparr>\<rparr>) w) s"
    using k by (auto simp: settled_def quiet_def lcp_held_def ppp_find_layer_data_def)
qed

lemma inv_naks:
  assumes "ppp_inv na mo X w"
  shows "\<forall>o' \<in> set (lcp_opts (lcp_of w s)). lo_state o' = LCP_OPT_NAK \<longrightarrow> kind_of (lo_data o') \<in> {KMru, KMagic}"
  using invD(4) [OF assms, of s] by (simp add: conn_ok_def Let_def)

lemma good_set_opts:
  assumes "good na mo b s w"
    and "map (\<lambda>o'. kind_of (lo_data o')) os = map (\<lambda>o'. kind_of (lo_data o')) (lcp_opts (lcp_of w s))"
    and "\<forall>o' \<in> set os. lo_state o' = LCP_OPT_NAK \<longrightarrow> kind_of (lo_data o') \<in> {KMru, KMagic}"
  shows "good na mo b s (upd_lcp s (\<lambda>l. l\<lparr>lcp_opts := os\<rparr>) w)"
  using assms(1) inv_set_opts [OF goodD(1) [OF assms(1)] assms(2,3)] by (simp add: good_def)

lemma set_opt_eq: "set_opt s i lopt w = upd_lcp s (\<lambda>l. l\<lparr>lcp_opts := (lcp_opts (lcp_of w s))[i := lopt]\<rparr>) w"
  by (simp add: set_opt_def upd_lcp_def upd_conn_def fun_eq_iff)

lemma good_set_opt:
  assumes w: "good na mo b s w" and i: "i < length (lcp_opts (lcp_of w s))"
    and k: "kind_of (lo_data lopt) = kind_of (lo_data (lcp_opts (lcp_of w s) ! i))"
    and n: "lo_state lopt = LCP_OPT_NAK \<Longrightarrow> kind_of (lo_data lopt) \<in> {KMru, KMagic}"
  shows "good na mo b s (set_opt s i lopt w)"
  unfolding set_opt_eq
proof (rule good_set_opts [OF w])
  show "map (\<lambda>o'. kind_of (lo_data o')) ((lcp_opts (lcp_of w s))[i := lopt]) = map (\<lambda>o'. kind_of (lo_data o')) (lcp_opts (lcp_of w s))"
    using i k by (metis (mono_tags, lifting) list_update_id map_update nth_map)
  show "\<forall>o' \<in> set ((lcp_opts (lcp_of w s))[i := lopt]). lo_state o' = LCP_OPT_NAK \<longrightarrow> kind_of (lo_data o') \<in> {KMru, KMagic}"
    using inv_naks [OF goodD(1) [OF w], of s] n set_update_subset_insert [of "lcp_opts (lcp_of w s)" i lopt] by blast
qed

text \<open>The verdict of a handler on a requested option.\<close>

lemma recv_conf_req_opt:
  assumes "opt_recv_conf_req E s lopt hdr w = (lopt', w', r)"
  shows "kept w w'" "lcp_opts (lcp_of w' s) = lcp_opts (lcp_of w s)" "kind_of (lo_data lopt') = kind_of (lo_data lopt)"
    "r = LCP_OPT_NAK \<Longrightarrow> kind_of (lo_data lopt) \<in> {KMru, KMagic}" "lcp_started (lcp_of w' s) = lcp_started (lcp_of w s)"
  using assms
  by (cases "lo_data lopt"; auto simp: opt_recv_conf_req_def mru_recv_conf_req_def magic_recv_conf_req_def
      pcomp_recv_conf_req_def accomp_recv_conf_req_def Let_def conn_core_def intro!: kept_upd_conn split: if_splits prod.splits)+

lemma judge_opts_good:
  assumes "judge_opts E s hs w ret = (ros, w', r)" "good na mo b s w"
  shows "good na mo b s w'"
  using assms
proof (induction E s hs w ret arbitrary: ros w' r rule: judge_opts.induct)
  case (2 E s hdr hs w ret)
  show ?case
  proof (cases "find_opt (lcp_opts (lcp_of w s)) (hdr ! 0) 0")
    case None
    then show ?thesis using 2 by (auto split: prod.splits)
  next
    case (Some i)
    obtain lopt v q where h: "opt_recv_conf_req E s (lcp_opts (lcp_of w s) ! i) hdr w = (lopt, v, q)" by (metis prod_cases3)
    have "good na mo b s v" using good_kept [OF recv_conf_req_opt(1) [OF h]] 2 (4) by simp
    moreover have "i < length (lcp_opts (lcp_of v s))" using find_opt_bound [OF Some] recv_conf_req_opt(2) [OF h] by simp
    ultimately have "good na mo b s (set_opt s i (lopt\<lparr>lo_state := q\<rparr>) v)"
      by (rule good_set_opt) (use recv_conf_req_opt(2-4) [OF h] in auto)
    then show ?thesis using 2 (2) [OF Some h [symmetric] refl refl refl] 2 (3) Some h by (auto simp: Let_def split: prod.splits)
  qed
qed simp

lemma judge_opts_started: "judge_opts E s hs w ret = (ros, w', r) \<Longrightarrow> lcp_started (lcp_of w' s) = lcp_started (lcp_of w s)"
proof (induction E s hs w ret arbitrary: ros w' r rule: judge_opts.induct)
  case (2 E s hdr hs w ret)
  show ?case
  proof (cases "find_opt (lcp_opts (lcp_of w s)) (hdr ! 0) 0")
    case None
    then show ?thesis using 2 by (auto split: prod.splits)
  next
    case (Some i)
    obtain lopt v q where h: "opt_recv_conf_req E s (lcp_opts (lcp_of w s) ! i) hdr w = (lopt, v, q)" by (metis prod_cases3)
    then show ?thesis using 2 (2) [OF Some h [symmetric] refl refl refl] 2 (3) Some recv_conf_req_opt(5) [OF h]
      by (auto simp: Let_def set_opt_def split: prod.splits)
  qed
qed simp

lemma good_upd_lcp:
  assumes "good na mo b s w" "\<And>l. lcp_core (f l) = lcp_core l"
  shows "good na mo b s (upd_lcp s f w)"
  by (rule good_kept [OF kept_upd_lcp assms(1)]) (rule assms(2))

lemma good_free_conf_req: "good na mo b s w \<Longrightarrow> good na mo b s (lcp_free_conf_req s w)"
  unfolding lcp_free_conf_req_def by (erule good_upd_lcp) (simp add: lcp_core_def)

lemma inv_free_conf_req: "ppp_inv na mo X w \<Longrightarrow> ppp_inv na mo X (lcp_free_conf_req s w)"
  unfolding lcp_free_conf_req_def by (rule kept_inv [OF kept_upd_lcp]) (simp_all add: lcp_core_def)

lemma conf_req_good:
  assumes w: "good na mo b s w" and sz: "sz \<le> length data"
  shows "good na mo b s (fst (lcp_recv_conf_req E s data sz w))"
proof -
  let ?u = "upd_lcp s (\<lambda>l. l\<lparr>lcp_ropt_len := int sz\<rparr>) w"
  have u: "good na mo b s ?u" by (rule good_upd_lcp [OF w]) (simp add: lcp_core_def)
  obtain os bad where sp: "split_opts data sz = Ok (os, bad)" using split_opts_safe [OF sz] by blast
  have ropt: "good na mo b s (upd_lcp s (\<lambda>l. l\<lparr>lcp_ropt_list := x\<rparr>) v)" if "good na mo b s v" for x v
    by (rule good_upd_lcp [OF that]) (simp add: lcp_core_def)
  define v where "v = upd_lcp s (\<lambda>l. l\<lparr>lcp_opts := map (\<lambda>o'. o'\<lparr>lo_state := LCP_OPT_NONE\<rparr>) (lcp_opts l)\<rparr>) ?u"
  have "v = upd_lcp s (\<lambda>l. l\<lparr>lcp_opts := map (\<lambda>o'. o'\<lparr>lo_state := LCP_OPT_NONE\<rparr>) (lcp_opts (lcp_of ?u s))\<rparr>) ?u"
    by (simp add: v_def upd_lcp_def upd_conn_def fun_eq_iff)
  then have "good na mo b s v" using good_set_opts [OF u] by (simp add: comp_def)
  moreover obtain ros x r where j: "judge_opts E s os v 1 = (ros, x, r)" by (metis prod_cases3)
  ultimately have "good na mo b s x" using judge_opts_good by blast
  then have "good na mo b s (upd_lcp s (\<lambda>l. l\<lparr>lcp_ropt_list := ros\<rparr>) x)" by (rule ropt)
  then show ?thesis
    unfolding lcp_recv_conf_req_def sp
    using j ropt [OF u] by (cases bad) (simp_all only: Let_def parse.case prod.case bool.case fst_conv v_def [symmetric])
qed

lemma confreq_inv:
  assumes E: "lcp_env na mo E" and w: "good na mo True s w" and sz: "sz \<le> length data"
  shows "ppp_inv na mo {} (recv_confreq E s data sz w)"
proof -
  obtain v r where v: "lcp_recv_conf_req E s data sz w = (v, r)" by fastforce
  have g: "good na mo True s v" using conf_req_good [OF w sz, of E] v by simp
  note T = terminate_good [OF E good_free_conf_req [OF g]]
  show ?thesis
    using T goodD(1) [OF good_free_conf_req [OF good_sends(1) [OF g]]] goodD(1) [OF good_free_conf_req [OF g]]
      inv_free_conf_req [OF conf_req_ack_inv [OF E g]] inv_free_conf_req [OF conf_req_nak_inv [OF E g]]
      inv_free_conf_req [OF conf_req_rej_inv [OF E g]]
    unfolding recv_confreq_def v by (simp add: Let_def)
qed

section \<open>Answers to our request\<close>

text \<open>A handler of an answered option changes neither the kind nor the verdict of the option.\<close>

definition answers :: "bool \<Rightarrow> bool \<Rightarrow> sid \<Rightarrow> (lcp_option \<Rightarrow> bytes \<Rightarrow> ppp_world \<Rightarrow> lcp_option \<times> ppp_world \<times> bool) \<Rightarrow> bool" where
  "answers na mo s h \<longleftrightarrow> (\<forall>b lopt hdr w lopt' w' f. h lopt hdr w = (lopt', w', f) \<longrightarrow> good na mo b s w \<longrightarrow>
     good na mo b s w' \<and> lcp_opts (lcp_of w' s) = lcp_opts (lcp_of w s) \<and> kind_of (lo_data lopt') = kind_of (lo_data lopt) \<and>
     lo_state lopt' = lo_state lopt)"

lemma answers_upd:
  assumes "answers na mo s h" "h (lcp_opts (lcp_of w s) ! i) hdr w = (lopt, v, f)" "i < length (lcp_opts (lcp_of w s))" "good na mo b s w"
  shows "good na mo b s (set_opt s i lopt v)"
proof -
  have a: "good na mo b s v" "lcp_opts (lcp_of v s) = lcp_opts (lcp_of w s)"
    "kind_of (lo_data lopt) = kind_of (lo_data (lcp_opts (lcp_of w s) ! i))" "lo_state lopt = lo_state (lcp_opts (lcp_of w s) ! i)"
    using assms unfolding answers_def by blast+
  show ?thesis
    using inv_naks [OF goodD(1) [OF assms(4)], of s] assms(3) a by (intro good_set_opt) auto
qed

lemma answer_opts_good:
  assumes h: "answers na mo s h" and w: "good na mo b s w"
  shows "good na mo b s (fst (answer_opts h s os w res))"
  using w
proof (induction os arbitrary: w res)
  case (Cons hdr os)
  show ?case
  proof (cases "find_opt (lcp_opts (lcp_of w s)) (hdr ! 0) 0")
    case (Some i)
    obtain lopt v f where e: "h (lcp_opts (lcp_of w s) ! i) hdr w = (lopt, v, f)" by (metis prod_cases3)
    have "good na mo b s (set_opt s i lopt v)" using answers_upd [OF h e _ Cons.prems] find_opt_bound [OF Some] by simp
    then show ?thesis using Cons.IH Some e by simp
  qed (use Cons in simp)
qed simp

lemma recv_answer_good:
  assumes h: "answers na mo s h" and w: "good na mo b s w" and sz: "sz \<le> length data"
  shows "good na mo b s (fst (recv_answer h s data sz w))"
proof -
  obtain os bad where "split_opts data sz = Ok (os, bad)" using split_opts_safe [OF sz] by blast
  then show ?thesis using answer_opts_good [OF h w, of os False] w by (simp add: recv_answer_def case_prod_beta)
qed

lemma good_auth_nak:
  assumes w: "good na mo b s w" and i: "ao_auth (auth_of w s) = Some i"
  shows "good na mo b s (upd_auth s (\<lambda>a. a\<lparr>ao_list := (ao_list a)[j := x]\<rparr>) w)"
proof -
  have "ppp_inv na mo {} (upd_auth s (\<lambda>a. a\<lparr>ao_list := (ao_list a)[j := x]\<rparr>) w)"
    by (rule inv_upd_auth [OF goodD(1) [OF w]]) (use inv_auth_bound [OF goodD(1) [OF w]] i in \<open>simp_all add: auth_state_ok_def\<close>)
  then show ?thesis using w i by (simp add: good_def upd_auth_def)
qed

lemma upd_auth_upd: "upd_auth s (\<lambda>a. a\<lparr>ao_list := (ao_list a)[i := g (ao_list a)]\<rparr>) w =
    upd_auth s (\<lambda>a. a\<lparr>ao_list := (ao_list a)[i := g (ao_list (auth_of w s))]\<rparr>) w"
  by (simp add: upd_auth_def upd_conn_def fun_eq_iff)

lemma auth_nak_good:
  assumes "good na mo b s w"
  shows "good na mo b s (fst (auth_recv_conf_nak s w))" "good na mo b s (fst (auth_recv_conf_rej s w))"
  using assms good_auth_nak [OF assms]
  by (auto simp: auth_recv_conf_nak_def auth_recv_conf_rej_def Let_def upd_auth_upd [of s _ "\<lambda>l. (l ! _)\<lparr>ad_state := LCP_OPT_NAK\<rparr>"]
      split: option.split)

lemma auth_nak_opts [simp]:
  "lcp_of (fst (auth_recv_conf_nak s w)) t = lcp_of w t" "lcp_of (fst (auth_recv_conf_rej s w)) t = lcp_of w t"
  by (simp_all add: auth_recv_conf_nak_def auth_recv_conf_rej_def Let_def upd_auth_def upd_conn_def split: option.split)

lemma draw_magic_opts [simp]: "lcp_of (snd (draw_magic s old w)) t = lcp_of w t"
  by (simp add: draw_magic_def starve_world_def upd_conn_def split: option.split)

lemma answers_rej: "answers na mo s (opt_recv_conf_rej s)"
proof -
  have m: "good na mo b s w \<Longrightarrow> good na mo b s (upd_lcp s (\<lambda>l. l\<lparr>lcp_magic := m\<rparr>) w)" for b m w
    by (erule good_upd_lcp) (simp add: lcp_core_def)
  show ?thesis
    unfolding answers_def
  proof (intro allI impI, goal_cases)
    case (1 b lopt hdr w lopt' w' f)
    then show ?case using m auth_nak_good(2) [OF 1(2)] auth_nak_opts(2) [of s w s]
      by (cases "lo_data lopt") (auto simp: opt_recv_conf_rej_def magic_recv_conf_rej_def case_prod_beta Let_def)
  qed
qed

lemma magic_nak:
  assumes "good na mo b s w"
  shows "good na mo b s (fst (snd (magic_recv_conf_nak s m hdr w)))"
    "lcp_opts (lcp_of (fst (snd (magic_recv_conf_nak s m hdr w))) s) = lcp_opts (lcp_of w s)"
proof -
  have m: "good na mo b s w \<Longrightarrow> good na mo b s (upd_lcp s (\<lambda>l. l\<lparr>lcp_magic := m\<rparr>) w)" for m w
    by (erule good_upd_lcp) (simp add: lcp_core_def)
  have "good na mo b s (snd (draw_magic s x w))" for x by (rule good_kept [OF kept_draw_magic assms])
  then show "good na mo b s (fst (snd (magic_recv_conf_nak s m hdr w)))"
    using assms m by (simp add: magic_recv_conf_nak_def Let_def case_prod_beta)
qed (simp add: magic_recv_conf_nak_def Let_def case_prod_beta)

lemma answers_nak: "answers na mo s (opt_recv_conf_nak s)"
  unfolding answers_def
proof (intro allI impI, goal_cases)
  case (1 b lopt hdr w lopt' w' f)
  then show ?case
    using auth_nak_good(1) [OF 1(2)] auth_nak_opts(1) [of s w s] magic_nak [OF 1(2)]
    by (cases "lo_data lopt") (auto simp: opt_recv_conf_nak_def pcomp_recv_conf_nak_def
        accomp_recv_conf_nak_def case_prod_beta Let_def, (metis fst_conv)+)
qed

lemma answers_ack: "answers na mo s (opt_recv_conf_ack E s)"
proof -
  have m: "good na mo b s w \<Longrightarrow> good na mo b s (upd_conn s (\<lambda>c. c\<lparr>c_mru := m\<rparr>) w)"
    "good na mo b s w \<Longrightarrow> good na mo b s (upd_conn s (\<lambda>c. c\<lparr>c_comp_prot := p\<rparr>) w)"
    "good na mo b s w \<Longrightarrow> good na mo b s (upd_conn s (\<lambda>c. c\<lparr>c_comp_ac := p\<rparr>) w)" for b m p w
    by (rule good_kept [OF kept_upd_conn]; simp add: conn_core_def)+
  show ?thesis
    unfolding answers_def
  proof (intro allI impI, goal_cases)
    case (1 b lopt hdr w lopt' w' f)
    then show ?case using m
      by (cases "lo_data lopt") (auto simp: opt_recv_conf_ack_def mru_recv_conf_ack_def pcomp_recv_conf_ack_def
          accomp_recv_conf_ack_def case_prod_beta Let_def split: if_splits)
  qed
qed

lemma confans_inv:
  assumes E: "lcp_env na mo E" and h: "answers na mo s h" and w: "good na mo True s w" and sz: "sz \<le> length data"
    and ev: "\<And>v. good na mo True s v \<Longrightarrow> ppp_inv na mo {} (event v)"
  shows "ppp_inv na mo {} (recv_confans E s event (recv_answer h s data sz w))"
  using recv_answer_good [OF h w sz] terminate_good [OF E] ev goodD(1)
  by (auto simp: recv_confans_def case_prod_beta)

section \<open>Packets\<close>

lemma kept_echo_alive [simp, intro]: "kept w (echo_alive E s w)"
  unfolding echo_alive_def by (rule kept_upd_lcp) (simp add: lcp_core_def)

lemma kept_echo_reply: "kept w (send_echo_reply E s w)"
proof -
  have "kept w (ppp_chan_send s d (upd_conn s (\<lambda>c. c\<lparr>c_buf := buf\<rparr>) (echo_alive E s w)))" for d buf
    by (rule kept_trans [OF kept_trans [OF kept_echo_alive kept_clear_buf] kept_chan_send])
  then show ?thesis by (simp add: send_echo_reply_def Let_def)
qed

lemma echo_repl_inv:
  assumes "lcp_env na mo E" "good na mo b s w"
  shows "ppp_inv na mo {} (lcp_recv_echo_repl E s data w)"
  using terminate_good [OF assms] goodD(1) [OF assms(2)] by (simp add: lcp_recv_echo_repl_def Let_def kept_inv [OF kept_echo_alive])

lemma good_recv_id:
  assumes inv: "ppp_inv na mo {} w" and s: "listed w s" and st: "fsm_state (lcp_fsm (lcp_of w s)) \<notin> {FSM_Initial, FSM_Closed}"
    and b: "b \<Longrightarrow> \<not> ses_terminating (sessions w s)"
  shows "good na mo b s (upd_fsm (lcp_ops E s) (\<lambda>f. f\<lparr>recv_id := x\<rparr>) w)"
proof -
  have "good na mo b s w" using inv s b inv_na [OF inv, of s] st by (auto simp: good_def)
  then show ?thesis unfolding upd_fsm_lcp by (rule good_upd_lcp) (simp add: lcp_core_def)
qed

lemma kept_proto_rej:
  assumes "lcp_env na mo E"
  shows "kept w (ppp_recv_proto_rej E p s w)"
  using assms by (simp add: lcp_env_def ppp_recv_proto_rej_def)

lemma inv_if:
  "(c \<Longrightarrow> ppp_inv na mo X a) \<Longrightarrow> (\<not> c \<Longrightarrow> ppp_inv na mo X b) \<Longrightarrow> ppp_inv na mo X (if c then a else b)"
  by simp

lemma lcp_recv_inv:
  assumes E: "lcp_env na mo E" and inv: "ppp_inv na mo {} w" and s: "listed w s"
  shows "ppp_inv na mo {} (lcp_recv E s w)"
proof -
  define buf where "buf = c_buf (conns w s)"
  define len where "len = unat (u_read_be16 (drop 4 buf))"
  define code where "code = buf ! 2"
  define u where "u = upd_fsm (lcp_ops E s) (\<lambda>f. f\<lparr>recv_id := buf ! 3\<rparr>) w"
  let ?skip = "length buf < 6 \<or> len < 4 \<or> len > length buf - 2 \<or> state_of (lcp_ops E s) w = FSM_Initial \<or> state_of (lcp_ops E s) w = FSM_Closed \<or>
      ses_terminating (sessions w s) \<and> code \<noteq> TERMACK \<and> code \<noteq> TERMREQ"
  show ?thesis
  proof (cases ?skip)
    case True
    then have "lcp_recv E s w = w"
      unfolding lcp_recv_def Let_def buf_def [symmetric] len_def [symmetric] code_def [symmetric] by (elim disjE) simp_all
    then show ?thesis using inv by simp
  next
    case False
    have st: "fsm_state (lcp_fsm (lcp_of w s)) \<notin> {FSM_Initial, FSM_Closed}" using False by simp
    have u: "good na mo False s u" unfolding u_def by (rule good_recv_id [OF inv s st]) simp
    have t: "good na mo True s u" if "code \<noteq> TERMACK" "code \<noteq> TERMREQ"
      unfolding u_def by (rule good_recv_id [OF inv s st]) (use False that in simp)
    have sz: "len - 4 \<le> length (drop 6 buf)" using False by (simp add: not_less) linarith
    have ans: "ppp_inv na mo {} (recv_confans E s event (recv_answer h s (drop 6 buf) (len - 4) u))"
      if "code \<noteq> TERMACK" "code \<noteq> TERMREQ" "answers na mo s h" "\<And>v. good na mo True s v \<Longrightarrow> ppp_inv na mo {} (event v)" for h event
      by (rule confans_inv [OF E that(3) t [OF that(1,2)] sz that(4)])
    note facts = ans [OF _ _ answers_ack conf_ack_inv [OF E]] ans [OF _ _ answers_nak conf_rej_inv] ans [OF _ _ answers_rej conf_rej_inv]
      confreq_inv [OF E t sz] terminate_good [OF E term_req_good [OF u]] term_ack_inv [OF E u] code_rej_inv [OF E u]
      kept_inv [OF kept_echo_reply goodD(1) [OF u]] echo_repl_inv [OF E u] kept_inv [OF kept_proto_rej [OF E] goodD(1) [OF u]]
      goodD(1) [OF u] goodD(1) [OF good_sends(4) [OF u]] inv
    show ?thesis
      unfolding lcp_recv_def Let_def buf_def [symmetric] len_def [symmetric] code_def [symmetric] u_def [symmetric]
        lcp_recv_conf_ack_def lcp_recv_conf_nak_def lcp_recv_conf_rej_def ppp_fsm_recv_unk_def lcp_calls
      by (intro inv_if; rule facts; simp)
  qed
qed

end
