(* ===== verification/PppEvents.thy ===== *)
theory PppEvents
  imports PppLcpRecv
begin

text \<open>
  Every event of the daemon's loop on an established session keeps the invariant.
\<close>

section \<open>Levels\<close>

lemma sys_lcp_env:
  assumes "env_ok na mo opts B" "8 \<le> n"
  shows "lcp_env na mo (ppp_sys n opts B)"
proof -
  have B: "frame_env B" using assms(1) by (simp add: env_ok_def)
  have "5 \<le> n" using assms(2) by simp
  note l = sys_levels [OF B this]
  obtain m where n: "n = Suc m" using assms(2) by (cases n) auto
  have "keeps (pe_recv_proto_rej (ppp_sys n opts B) p)" for p
    using frame_envD(6) [OF B] unfolding n by (auto simp: link_env_def keeps_def)
  then show ?thesis
    unfolding lcp_env_def using l sys_lcp_started [OF assms] sys_frame [OF B] by blast
qed

definition recv_contract :: "bool \<Rightarrow> bool \<Rightarrow> ppp_env \<Rightarrow> bool" where
  "recv_contract na mo E \<longleftrightarrow> (\<forall>p s w. ppp_inv na mo {} w \<longrightarrow> listed w s \<longrightarrow> ppp_inv na mo {} (pe_recv E p s w))"

lemma sys_recv:
  assumes "env_ok na mo opts B" "9 \<le> n"
  shows "recv_contract na mo (ppp_sys n opts B)"
proof -
  obtain m where n: "n = Suc m" "8 \<le> m" using assms(2) by (cases n) auto
  have B: "frame_env B" using assms(1) by (simp add: env_ok_def)
  have "kept w (pe_recv B p s w)" for p s w using frame_envD(5) [OF B] by simp
  then show ?thesis
    unfolding recv_contract_def n(1) using lcp_recv_inv [OF sys_lcp_env [OF assms(1) n(2)]] kept_inv by (simp add: link_env_def) blast
qed

section \<open>Frames\<close>

lemma kept_send_proto_rej: "kept w (lcp_send_proto_rej s p w)"
proof -
  have "kept w (upd_lcp s (\<lambda>l. l\<lparr>lcp_fsm := (lcp_fsm l)\<lparr>fsm_id := fsm_id (lcp_fsm l) + 1\<rparr>\<rparr>) w)"
    by (rule kept_upd_lcp) (simp add: lcp_core_def)
  then show ?thesis unfolding lcp_send_proto_rej_def Let_def by (rule kept_trans [OF _ kept_chan_send])
qed

text \<open>A session that is gone has no descriptor.\<close>

lemma open_listed:
  assumes "ppp_inv na mo {} w" "c_fd (conns w s) \<noteq> -1"
  shows "listed w s"
  using invD(5) [OF assms(1), of s] assms(2) by (auto simp: settled_def quiet_def split: if_splits)

lemma read_step:
  assumes "recv_contract na mo E" "ppp_inv na mo {} w" "listed w s"
  shows "ppp_inv na mo {} (pe_recv E p s (upd_conn s (\<lambda>c. c\<lparr>c_buf := b\<rparr>) w))"
  using assms kept_inv [OF kept_clear_buf] kept_listed [OF kept_clear_buf] unfolding recv_contract_def by blast

lemma kept_rej_buf: "kept w (lcp_send_proto_rej s p (upd_conn s (\<lambda>c. c\<lparr>c_buf := b\<rparr>) w))"
  by (rule kept_trans [OF kept_clear_buf kept_send_proto_rej])

lemma chan_read_inv:
  assumes E: "recv_contract na mo E" "terminate_contract na mo E" and w: "ppp_inv na mo {} w" "listed w s"
  shows "ppp_inv na mo {} (fst (ppp_chan_read E s rs w))"
  using w
proof (induction rs arbitrary: w)
  case Nil
  then show ?case using kept_inv [OF kept_clear_buf] by simp
next
  case (Cons r rs)
  note k = kept_inv [OF kept_clear_buf Cons.prems(1)] kept_inv [OF kept_rej_buf Cons.prems(1)]
  have li: "listed (upd_conn s (\<lambda>c. c\<lparr>c_buf := b\<rparr>) w) s" "listed (lcp_send_proto_rej s p (upd_conn s (\<lambda>c. c\<lparr>c_buf := b\<rparr>) w)) s" for b p
    using Cons.prems(2) kept_listed [OF kept_clear_buf] kept_listed [OF kept_rej_buf] by blast+
  show ?case
    using k Cons.IH [OF k(1) li(1)] Cons.IH [OF k(2) li(2)] terminateD(1) [OF E(2) Cons.prems(1)] Cons.prems(2)
      read_step [OF E(1) Cons.prems] Cons.IH [OF read_step [OF E(1) Cons.prems] open_listed [OF read_step [OF E(1) Cons.prems]]]
    by (cases r) (auto simp: Let_def)
qed

lemma unit_read_inv:
  assumes E: "recv_contract na mo E" "terminate_contract na mo E" and w: "ppp_inv na mo {} w" "listed w s"
  shows "ppp_inv na mo {} (fst (ppp_unit_read E s rs w))"
  using w
proof (induction rs arbitrary: w)
  case Nil
  then show ?case using kept_inv [OF kept_clear_buf] by simp
next
  case (Cons r rs)
  note k = kept_inv [OF kept_clear_buf Cons.prems(1)] kept_inv [OF kept_rej_buf Cons.prems(1)]
  have li: "listed (upd_conn s (\<lambda>c. c\<lparr>c_buf := b\<rparr>) w) s" "listed (lcp_send_proto_rej s p (upd_conn s (\<lambda>c. c\<lparr>c_buf := b\<rparr>) w)) s" for b p
    using Cons.prems(2) kept_listed [OF kept_clear_buf] kept_listed [OF kept_rej_buf] by blast+
  show ?case
    using k Cons.IH [OF k(1) li(1)] Cons.IH [OF k(2) li(2)] terminateD(1) [OF E(2) Cons.prems(1)] Cons.prems(2)
      read_step [OF E(1) Cons.prems] Cons.IH [OF read_step [OF E(1) Cons.prems] open_listed [OF read_step [OF E(1) Cons.prems]]]
    by (cases r) (auto simp: Let_def)
qed

section \<open>Timers\<close>

lemma echo_tick_inv:
  assumes T: "terminate_contract na mo E" and w: "ppp_inv na mo {} w" "listed w s"
  shows "ppp_inv na mo {} (send_echo_request E s w)"
proof -
  define v where "v = (if conf_echo_timeout (pe_conf E) \<noteq> 0 then
           let (w, st) = ap_session_read_stats (pe_ses E) s w;
               rx = (case st of Some d \<Rightarrow> rx_packets d | None \<Rightarrow> pe_stack_garbage E)
           in if lcp_last_ipackets (lcp_of w s) \<noteq> rx
              then (upd_lcp s (\<lambda>l. l\<lparr>lcp_last_ipackets := rx, lcp_last_echo_ts := env_time (pe_ses E), lcp_echo_sent := 0\<rparr>) w, True)
              else (w, env_time (pe_ses E) - lcp_last_echo_ts (lcp_of w s) < conf_echo_timeout (pe_conf E))
         else (w, False))"
  have rs: "kept w (fst (ap_session_read_stats (pe_ses E) s w))" by simp
  have "kept x (upd_lcp s (\<lambda>l. l\<lparr>lcp_last_ipackets := a, lcp_last_echo_ts := b, lcp_echo_sent := c\<rparr>) x)" for a b c x
    by (rule kept_upd_lcp) (simp add: lcp_core_def)
  then have k: "kept w (fst v)" using kept_trans [OF rs] rs by (simp add: v_def Let_def case_prod_beta)
  have v: "ppp_inv na mo {} (fst v)" "listed (fst v) s" using kept_inv [OF k w(1)] kept_listed [OF k] w(2) by simp_all
  have sent: "kept x (ppp_chan_send s d (upd_lcp s (\<lambda>l. l\<lparr>lcp_fsm := (lcp_fsm l)\<lparr>fsm_id := i\<rparr>, lcp_echo_sent := lcp_echo_sent l + 1\<rparr>) x))" for x i d
    by (rule kept_trans [OF kept_upd_lcp kept_chan_send]) (simp add: lcp_core_def)
  show ?thesis
    unfolding send_echo_request_def unfolding v_def [symmetric]
    using v terminateD(1) [OF T v(1)] kept_inv [OF sent v(1)] by (simp add: Let_def case_prod_beta)
qed

text \<open>A session that was ever brought up can be told to terminate.\<close>

lemma alive_or_over:
  assumes "ppp_inv na mo X w" "ses_state (sessions w s) \<noteq> AP_STATE_NONE"
  shows "listed w s \<or> ses_terminated (sessions w s)"
  using invD(3) [OF assms(1), of s] assms(2) by (simp add: ses_ok_def Let_def)

lemma ses_tick_inv:
  assumes c: "ctrl_contract na mo e" and fr: "frame_ses e" and w: "ppp_inv na mo {} w" "ses_timer (sessions w s)"
  shows "ppp_inv na mo {} (ap_session_timer e s w)"
proof -
  have st: "ses_state (sessions w s) = AP_STATE_ACTIVE" "\<not> ses_terminating (sessions w s)" "listed w s"
    using invD(3) [OF w(1), of s] w(2) by (auto simp: ses_ok_def Let_def)
  obtain u d where u: "ap_session_read_stats e s w = (u, d)" by fastforce
  have k: "kept w u" using kept_read_stats [of w e s] u by simp
  note ui = kept_inv [OF k w(1)]
  have us: "listed u s" "\<not> ses_terminating (sessions u s)" using st by (simp_all add: kept_listed [OF k] kept_ses [OF k])
  define v where "v = (if d = None then ap_session_terminate e s TERM_NAS_ERROR False u else u)"
  have v: "ppp_inv na mo {} v" "listed v s" using ses_terminate_inv [OF c fr ui, of s] us ui by (auto simp: v_def)
  have "ppp_inv na mo {} (ap_session_terminate e s TERM_SESSION_TIMEOUT False v)" using ses_terminate_inv [OF c fr v(1)] v(2) by blast
  then show ?thesis using v(1) u unfolding ap_session_timer_def by (simp add: Let_def flip: v_def)
qed

section \<open>Authentication\<close>

lemma inv_authorized:
  assumes inv: "ppp_inv na mo X w"
  shows "ppp_inv na mo X (fire_core EV_SES_AUTHORIZED s w)" "authd (fire_core EV_SES_AUTHORIZED s w) s"
proof -
  let ?w = "fire_core EV_SES_AUTHORIZED s w"
  show "ppp_inv na mo X ?w"
  proof (rule inv_step [OF inv, of s])
    show "stat_ok ?w" using invD(2) [OF inv] by (simp add: stat_ok_def fire_core_def count_in_def)
    show "ses_ok ?w s" using invD(3) [OF inv, of s] by (auto simp: ses_ok_def Let_def)
    show "conn_ok na mo ?w s" using invD(4) [OF inv, of s] by (simp add: conn_ok_def Let_def)
    show "settled mo ?w s" if "s \<notin> X" by (rule settled_same [OF invD(5) [OF inv that]]) simp_all
  qed (use invD [OF inv] in \<open>auto simp: same_at_def\<close>)
  show "authd ?w s" by simp
qed

lemma auth_started_inv:
  assumes A: "auth_started_contract na mo E" and fr: "frame_ses (pe_ses E)" and w: "ppp_inv na mo {} w" "listed w s"
  shows "ppp_inv na mo {} (ppp_auth_started E s w)"
proof (cases "ses_terminating (sessions w s)")
  case False
  let ?u = "fire_core EV_SES_AUTHORIZED s w" and ?v = "triton_event_fire (pe_ses E) EV_SES_AUTHORIZED s w"
  have k: "kept ?u ?v" using kept_fire_core [OF fr kept_refl] .
  have "ppp_inv na mo {} ?v" by (rule kept_inv [OF k inv_authorized(1) [OF w(1)]])
  moreover have "listed ?v s" "\<not> ses_terminating (sessions ?v s)" "authd ?v s"
    using w(2) False inv_authorized(2) [OF w(1), of s] by (simp_all add: kept_listed [OF k] kept_ses [OF k] kept_events [OF k])
  ultimately show ?thesis using A False unfolding auth_started_contract_def ppp_auth_started_def by simp
qed (use w in \<open>simp add: ppp_auth_started_def\<close>)

lemma replace_sessions_kept:
  assumes down: "\<And>t w. kept w (env_ifdown e t w)"
  shows "replace_sessions e s u ts w wait = Some (w', x) \<Longrightarrow> \<forall>t \<in> set ts. ses_state (sessions w t) \<noteq> AP_STATE_NONE \<Longrightarrow> kept w w'"
proof (induction ts arbitrary: w wait)
  case (Cons t ts)
  show ?case
  proof (cases "holds_user (env_conf e) u (sessions w t) \<and> ses_terminate_cause (sessions w t) \<noteq> TERM_AUTH_ERROR")
    case True
    define a where "a = (if ses_wakeup (sessions w t) = None then (upd_ses t (\<lambda>ses. ses\<lparr>ses_wakeup := Some s\<rparr>) w, True) else (w, wait))"
    define v where "v = triton_context_call t Call_terminate_sec (env_ifdown e t (fst a))"
    have "kept w (fst a)" by (auto simp: a_def ses_core_def intro!: kept_upd_ses)
    then have d: "kept w (env_ifdown e t (fst a))" by (rule kept_trans [OF _ down])
    then have "kept (env_ifdown e t (fst a)) v" unfolding v_def by (intro kept_call) (use Cons.prems(2) in \<open>simp_all add: kept_ses\<close>)
    then have v: "kept w v" by (rule kept_trans [OF d])
    have "replace_sessions e s u ts v (snd a) = Some (w', x)"
      using Cons.prems(1) True unfolding replace_sessions.simps a_def [symmetric] by (simp add: Let_def case_prod_beta v_def split: if_splits)
    then have "kept v w'" by (rule Cons.IH) (use Cons.prems(2) in \<open>simp add: kept_ses [OF v]\<close>)
    then show ?thesis by (rule kept_trans [OF v])
  next
    case False
    then have "replace_sessions e s u ts w wait = Some (w', x)" using Cons.prems(1) by (simp only: replace_sessions.simps if_False)
    then show ?thesis using Cons.IH Cons.prems(2) by simp
  qed
qed simp

lemma set_username_kept:
  assumes fr: "frame_ses e" and inv: "ppp_inv na mo X w" and r: "ap_session_set_username e s u w = Some (w', x)"
  shows "kept w w'"
proof -
  have down: "kept w (env_ifdown e t w)" for t w using fr by (simp add: frame_ses_def)
  have st: "\<forall>t \<in> set (ses_list w). ses_state (sessions w t) \<noteq> AP_STATE_NONE"
    using invD(3) [OF inv] by (auto simp: ses_ok_def Let_def listed_def)
  obtain v where v: "(if conf_single_session (env_conf e) \<ge> 0 then replace_sessions e s u (ses_list w) w False else Some (w, False)) = Some (v, x)"
    "w' = upd_ses s (\<lambda>ses. ses\<lparr>ses_username := Some u\<rparr>) v"
    using r unfolding ap_session_set_username_def by (auto simp: map_option_case split: option.splits)
  have kv: "kept w v"
    using v(1) replace_sessions_kept [OF down _ st] by (cases "conf_single_session (env_conf e) \<ge> 0") auto
  have "kept v w'" unfolding v(2) by (rule kept_upd_ses) (simp add: ses_core_def)
  then show ?thesis by (rule kept_trans [OF kv])
qed

lemma auth_succeeded_inv:
  assumes fr: "frame_ses (pe_ses E)" and k: "mo \<Longrightarrow> mru_ok (pe_kernel E)" and w: "ppp_inv na mo {} w" "listed w s"
  shows "ppp_inv na mo {} (fst (ppp_auth_succeeded E s u w))"
proof (cases "ap_session_set_username (pe_ses E) s u w")
  case (Some r)
  then obtain v x where r: "ap_session_set_username (pe_ses E) s u w = Some (v, x)" by (cases r) simp
  have kv: "kept w v" by (rule set_username_kept [OF fr w(1) r])
  have v: "ppp_inv na mo {} v" "listed v s" using kept_inv [OF kv w(1)] w(2) by (simp_all add: kept_listed [OF kv])
  obtain y f where y: "connect_ppp_channel E s v = (y, f)" by fastforce
  have "ppp_inv na mo {} y" "listed y s" using connect_ok [OF v(1) _ k, of s] v(2) y by (simp_all add: unit_ok_def only_unit_def)
  then show ?thesis using inv_own_call r y by (cases f) (simp_all add: ppp_auth_succeeded_def)
qed (use w in \<open>simp add: ppp_auth_succeeded_def\<close>)

lemma auth_failed_inv:
  assumes T: "terminate_contract na mo E" and fr: "frame_ses (pe_ses E)" and w: "ppp_inv na mo {} w" "listed w s"
  shows "ppp_inv na mo {} (ppp_auth_failed E s u w)"
proof -
  have "kept w (triton_event_fire (pe_ses E) EV_SES_AUTH_FAILED s (upd_ses s (\<lambda>ses. ses\<lparr>
      ses_username := (if ses_username ses = None then Some n else ses_username ses), ses_terminate_cause := TERM_AUTH_ERROR\<rparr>) w))" for n
    by (rule kept_trans [OF kept_upd_ses kept_fire [OF fr]]) (simp_all add: ses_core_def)
  note k = this
  have "ppp_inv na mo {} (pe_terminate E s TERM_AUTH_ERROR False v)" if "kept w v" for v
    by (rule terminateD(1) [OF T kept_inv [OF that w(1)]]) (use w(2) in \<open>simp add: kept_listed [OF that]\<close>)
  then show ?thesis using k unfolding ppp_auth_failed_def by (simp add: Let_def split: option.split)
qed

section \<open>Deferred calls and shutdown\<close>

lemma deferred_inv:
  assumes E: "lcp_env na mo E" "auth_started_contract na mo E" and w: "ppp_inv na mo {} w" "(s, f) \<in> set (calls w)"
  shows "ppp_inv na mo {} (run_deferred E s f (w\<lparr>calls := remove1 (s, f) (calls w)\<rparr>))"
proof -
  let ?w = "w\<lparr>calls := remove1 (s, f) (calls w)\<rparr>"
  have i: "ppp_inv na mo {} ?w" by (rule inv_fewer_calls [OF w(1)]) (rule set_remove1_subset)
  have own: "listed ?w s" if "own_call f"
    using invD(5) [OF w(1), of s] w(2) that by (auto simp: settled_def quiet_def listed_def split: if_splits)
  have "ses_state (sessions ?w s) \<noteq> AP_STATE_NONE" using invD(3) [OF w(1), of s] w(2) by (auto simp: ses_ok_def Let_def)
  then have any: "listed ?w s \<or> ses_terminated (sessions ?w s)" by (rule alive_or_over [OF i])
  have T: "terminate_contract na mo E" "frame_ses (pe_ses E)" using E(1) by (simp_all add: lcp_env_def)
  show ?thesis
    using terminateD(1) [OF T(1) i any] layer_finished_good [OF E(1) i own] auth_started_inv [OF E(2) T(2) i own]
    by (cases f) (simp_all add: run_deferred_def)
qed

lemma schedule_all_inv:
  assumes "ppp_inv na mo {} w" "\<forall>s \<in> set ss. listed w s"
  shows "ppp_inv na mo {} (fold (\<lambda>s. triton_context_call s f) ss w)"
  using assms
proof (induction ss arbitrary: w)
  case (Cons s ss)
  have "listed (triton_context_call s f w) t = listed w t" for t by (simp add: triton_context_call_def listed_def)
  then show ?case using Cons inv_own_call [OF Cons.prems(1)] by simp
qed simp

lemma shutdown_inv:
  assumes fr: "frame_ses e" and inv: "ppp_inv na mo {} w"
  shows "ppp_inv na mo {} (fst (ap_shutdown_soft e trm w))"
proof -
  let ?w = "w\<lparr>ap_shutdown := True\<rparr>"
  have k: "kept w ?w" "kept w (?w\<lparr>shutdown_done := n\<rparr>)" for n by (simp_all add: kept_def ev_count_def)
  have "\<forall>s \<in> set (ses_list ?w). listed ?w s" by (simp add: listed_def)
  from schedule_all_inv [OF kept_inv [OF k(1) inv] this]
  have x: "ppp_inv na mo {} (fold (\<lambda>s. triton_context_call s f) (ses_list w) ?w)" for f by simp
  have "kept v (env_hooks_terminate e v)" for v using fr by (simp add: frame_ses_def)
  then show ?thesis
    using kept_inv [OF k(1) inv] kept_inv [OF k(2) inv] kept_inv x by (simp add: ap_shutdown_soft_def Let_def) blast
qed

end
