(* ===== verification/PppEstablish.thy ===== *)
theory PppEstablish
  imports PppEvents "HOL-Library.Multiset"
begin

text \<open>
  Bringing a connection up keeps the invariant, and with it every history does.
\<close>

section \<open>Registered layers\<close>

text \<open>The identifiers of the layers of a connection, node by node.\<close>

definition ids_ok :: "layer_id list list \<Rightarrow> bool" where
  "ids_ok rs \<longleftrightarrow> distinct (concat rs) \<and> (\<forall>i < length rs. \<forall>l \<in> set (rs ! i). get_layer_order l = i)"

lemma layers_ok_ids: "layers_ok ls \<longleftrightarrow> ids_ok (map (map ld_layer) ls)"
  by (auto simp: layers_ok_def ids_ok_def map_concat)

lemma ids_ok_prefix:
  assumes "ids_ok (rs @ qs)"
  shows "ids_ok rs"
proof -
  have "(rs @ qs) ! i = rs ! i" "i < length (rs @ qs)" if "i < length rs" for i using that by (simp_all add: nth_append)
  then show ?thesis using assms unfolding ids_ok_def by (metis concat_append distinct_append)
qed

lemma ids_ok_row:
  assumes "ids_ok (rs @ [r @ q])"
  shows "ids_ok (rs @ [r])"
proof -
  have "\<forall>l \<in> set ((rs @ [r]) ! i). get_layer_order l = i" if "i < length (rs @ [r])" for i
  proof -
    have "i < length (rs @ [r @ q])" using that by simp
    then have "\<forall>l \<in> set ((rs @ [r @ q]) ! i). get_layer_order l = i" using assms unfolding ids_ok_def by blast
    then show ?thesis using that by (auto simp: nth_append less_Suc_eq)
  qed
  then show ?thesis using assms by (auto simp: ids_ok_def)
qed

text \<open>Orders strictly increase along the nodes, and a node holds layers of its order.\<close>

fun nodes_from :: "nat \<Rightarrow> layer_nodes \<Rightarrow> bool" where
  "nodes_from k [] \<longleftrightarrow> True"
| "nodes_from k ((ord, items) # ns) \<longleftrightarrow> k \<le> ord \<and> items \<noteq> [] \<and> (\<forall>l \<in> set items. get_layer_order l = ord) \<and> nodes_from (Suc ord) ns"

lemma register_from:
  "nodes_from k ns \<Longrightarrow> k \<le> get_layer_order l \<Longrightarrow> nodes_from k (ppp_register_layer l ns)"
  by (induction l ns arbitrary: k rule: ppp_register_layer.induct) auto

lemma register_ids: "mset (concat (map snd (ppp_register_layer l ns))) = add_mset l (mset (concat (map snd ns)))"
  by (induction l ns rule: ppp_register_layer.induct) auto

definition registered :: "layer_id list \<Rightarrow> layer_nodes" where
  "registered ls = fold ppp_register_layer ls []"

lemma fold_register:
  "nodes_from 0 ns \<Longrightarrow> nodes_from 0 (fold ppp_register_layer ls ns) \<and>
   mset (concat (map snd (fold ppp_register_layer ls ns))) = mset ls + mset (concat (map snd ns))"
proof (induction ls arbitrary: ns)
  case (Cons l ls)
  then show ?case using register_from [of 0 ns l] register_ids [of l ns] by simp
qed simp

lemma nodes_ge: "nodes_from k ns \<Longrightarrow> l \<in> set (concat (map snd ns)) \<Longrightarrow> k \<le> get_layer_order l"
proof (induction k ns rule: nodes_from.induct)
  case (2 k ord items ns)
  then show ?case by (cases "l \<in> set items") auto
qed simp

lemma nodes_head:
  assumes "nodes_from k ns" "l \<in> set (concat (map snd ns))" "get_layer_order l = k"
  obtains items ns' where "ns = (k, items) # ns'" "\<forall>l \<in> set items. get_layer_order l = k" "nodes_from (Suc k) ns'"
proof (cases ns)
  case (Cons n ns')
  obtain ord items where n: "n = (ord, items)" by fastforce
  have "ord = k"
  proof (cases "l \<in> set items")
    case True
    then show ?thesis using assms Cons n by auto
  next
    case False
    then have "Suc ord \<le> get_layer_order l" using assms(1,2) Cons n by (intro nodes_ge [of _ ns']) auto
    then show ?thesis using assms Cons n by simp
  qed
  then show ?thesis using that assms(1) Cons n by simp
qed (use assms in simp)

lemma order_max: "get_layer_order l \<le> 2"
  by (cases l) (simp_all add: get_layer_order_def)

lemma order_low: "get_layer_order l = 0 \<longleftrightarrow> l = L_LCP" "get_layer_order l = Suc 0 \<longleftrightarrow> l = L_AUTH"
  by (cases l; simp add: get_layer_order_def)+

lemma nodes_end:
  assumes "nodes_from 2 ns"
  shows "ns = [] \<or> (\<exists>items. ns = [(2, items)] \<and> (\<forall>l \<in> set items. get_layer_order l = 2))"
proof (cases ns)
  case (Cons n ns')
  obtain ord items where n: "n = (ord, items)" by fastforce
  have it: "2 \<le> ord" "items \<noteq> []" "\<forall>l \<in> set items. get_layer_order l = ord" "nodes_from (Suc ord) ns'" using assms Cons n by simp_all
  then have "ord = 2" using order_max by (metis le_antisym list.set_sel(1))
  moreover have "ns' = []"
  proof (rule ccontr)
    assume "ns' \<noteq> []"
    then obtain o2 i2 ns2 where "ns' = (o2, i2) # ns2" by (metis neq_Nil_conv surj_pair)
    then have "3 \<le> o2" "i2 \<noteq> []" "\<forall>l \<in> set i2. get_layer_order l = o2" using it(4) \<open>ord = 2\<close> by simp_all
    then show False using order_max by (metis list.set_sel(1) not_less_eq_eq numeral_2_eq_2 numeral_3_eq_3)
  qed
  ultimately show ?thesis using Cons n it(3) by simp
qed simp

lemma one_of_kind: "\<forall>x \<in> set xs. x = a \<Longrightarrow> distinct xs \<Longrightarrow> a \<in> set xs \<Longrightarrow> xs = [a]"
  by (cases xs; cases "tl xs") auto

text \<open>What the registration of the layers amounts to.\<close>

lemma registered_nodes:
  assumes d: "distinct ls" and ls: "{L_LCP, L_AUTH} \<subseteq> set ls"
  shows "\<exists>rest. map snd (registered ls) = [L_LCP] # [L_AUTH] # rest \<and> ids_ok ([L_LCP] # [L_AUTH] # rest) \<and>
    set (concat rest) = set ls - {L_LCP, L_AUTH}"
proof -
  let ?ns = "registered ls"
  have f: "nodes_from 0 ?ns" "mset (concat (map snd ?ns)) = mset ls" using fold_register [of "[]" ls] by (simp_all add: registered_def)
  then have ids: "set (concat (map snd ?ns)) = set ls" "distinct (concat (map snd ?ns))"
    using d mset_eq_setD mset_eq_imp_distinct_iff by blast+
  obtain i0 n1 where n1: "?ns = (0, i0) # n1" "\<forall>l \<in> set i0. l = L_LCP" "nodes_from 1 n1"
    using nodes_head [OF f(1), of L_LCP] ids(1) ls order_low(1) by (metis One_nat_def insert_subset)
  have "L_LCP \<notin> set (concat (map snd n1))" using nodes_ge [OF n1(3), of L_LCP] by (auto simp: get_layer_order_def)
  then have i0: "i0 = [L_LCP]" using one_of_kind [OF n1(2)] ids ls n1(1) by auto
  have "L_AUTH \<in> set (concat (map snd n1))" using ids(1) ls n1(1) i0 by auto
  then obtain i1 n2 where n2: "n1 = (1, i1) # n2" "\<forall>l \<in> set i1. l = L_AUTH" "nodes_from 2 n2"
    using nodes_head [OF n1(3), of L_AUTH] order_low(2) by (metis One_nat_def Suc_1)
  have "L_AUTH \<notin> set (concat (map snd n2))" using nodes_ge [OF n2(3), of L_AUTH] by (auto simp: get_layer_order_def)
  then have i1: "i1 = [L_AUTH]" using one_of_kind [OF n2(2)] ids ls n1(1) n2(1) i0 by auto
  have rows: "map snd ?ns = [L_LCP] # [L_AUTH] # map snd n2" using n1(1) n2(1) i0 i1 by simp
  moreover have "ids_ok ([L_LCP] # [L_AUTH] # map snd n2)"
    using nodes_end [OF n2(3)] ids(2) unfolding rows by (elim disjE exE conjE) (auto simp: ids_ok_def All_less_Suc order_low)
  moreover have "set (concat (map snd n2)) = set ls - {L_LCP, L_AUTH}"
  proof -
    have "set (concat (map snd ?ns)) = {L_LCP, L_AUTH} \<union> set (concat (map snd n2))" unfolding rows by simp
    moreover have "L_LCP \<notin> set (concat (map snd n2))" "L_AUTH \<notin> set (concat (map snd n2))" using ids(2) unfolding rows by auto
    ultimately show ?thesis using ids(1) by blast
  qed
  ultimately show ?thesis by (intro exI [of _ "map snd n2"] conjI)
qed

section \<open>A connection under construction\<close>

definition fresh :: "bool \<Rightarrow> bool \<Rightarrow> sid \<Rightarrow> ppp_world \<Rightarrow> bool" where
  "fresh na mo s w \<longleftrightarrow> ppp_inv na mo {s} w \<and> ses_state (sessions w s) = AP_STATE_NONE \<and> ao_auth (auth_of w s) = None \<and>
     \<not> ao_started (auth_of w s) \<and> fsm_state (lcp_fsm (lcp_of w s)) = FSM_Initial \<and>
     (\<forall>d \<in> set (concat (c_layers (conns w s))). \<not> ld_starting d \<and> \<not> ld_started d \<and> \<not> ld_finished d)"

lemma fresh_kept:
  assumes k: "kept w w'" and w: "fresh na mo s w"
  shows "fresh na mo s w'"
  using w kept_inv [OF k] by (simp add: fresh_def kept_ses [OF k] kept_conn [OF k])

lemma fresh_not_listed: "fresh na mo s w \<Longrightarrow> \<not> listed w s"
  using invD(3) [of na mo "{s}" w s] by (simp add: fresh_def ses_ok_def Let_def)

lemma fresh_upd_conn:
  assumes w: "fresh na mo s w" and c: "conn_ok na mo (upd_conn s f w) s"
    and f: "ao_auth (c_auth (f (conns w s))) = None" "\<not> ao_started (c_auth (f (conns w s)))" "fsm_state (lcp_fsm (c_lcp (f (conns w s)))) = FSM_Initial"
      "\<forall>d \<in> set (concat (c_layers (f (conns w s)))). \<not> ld_starting d \<and> \<not> ld_started d \<and> \<not> ld_finished d"
  shows "fresh na mo s (upd_conn s f w)"
proof -
  have "ppp_inv na mo {s} (upd_conn s f w)" by (rule inv_upd_conn [OF _ c]) (use w in \<open>simp_all add: fresh_def\<close>)
  then show ?thesis using w f by (simp add: fresh_def)
qed

text \<open>The session and the connection are dropped again.\<close>

lemma inv_drop:
  assumes inv: "ppp_inv na mo {s} w" and st: "ses_state (sessions w s) = AP_STATE_NONE"
  shows "ppp_inv na mo {} (upd_conn s (\<lambda>_. ppp_conn0) (upd_ses s (\<lambda>_. ap_session_init) w))"
proof -
  let ?w = "upd_conn s (\<lambda>_. ppp_conn0) (upd_ses s (\<lambda>_. ap_session_init) w)"
  have ok: "ses_ok w s" by (rule invD(3) [OF inv])
  then have off: "\<not> listed w s" "\<not> ses_terminated (sessions w s)" "\<not> ses_down (sessions w s)" "\<forall>f. (s, f) \<notin> set (calls w)"
    using st by (auto simp: ses_ok_def Let_def)
  have "count_in ?w S = count_in w S" for S
    unfolding count_in_def using off(1) by (intro arg_cong [of _ _ length] filter_cong) (auto simp: upd_ses_def listed_def)
  then have stat: "stat_ok ?w" using invD(2) [OF inv] by (simp add: stat_ok_def upd_ses_def upd_conn_def)
  show ?thesis
  proof (rule inv_step [OF inv, of s])
    show "ses_ok ?w s" using ok off st by (simp add: ses_ok_def Let_def ap_session_init_def)
    show "conn_ok na mo ?w s" by (simp add: conn_ok_def Let_def ppp_conn0_def layers_ok_def auth_state_ok_def)
    show "settled mo ?w s" using off by (simp add: settled_def quiet_def ppp_conn0_def ap_session_init_def)
  qed (use stat invD [OF inv] in \<open>auto simp: same_at_def\<close>)
qed

lemma init_fresh:
  assumes inv: "ppp_inv na mo {} w" and st: "ses_state (sessions w s) = AP_STATE_NONE"
  shows "fresh na mo s (upd_conn s (\<lambda>c. c\<lparr>c_fd := fd\<rparr>) (ppp_init s rnd w))"
proof -
  let ?w = "upd_conn s (\<lambda>_. ppp_conn0) (upd_ses s (\<lambda>_. ap_session_init) w)"
  have "ppp_inv na mo {s} w" using inv by (simp add: ppp_inv_def)
  then have "ppp_inv na mo {} ?w" using st by (rule inv_drop)
  then have i: "ppp_inv na mo {s} ?w" by (simp add: ppp_inv_def)
  have e: "upd_conn s (\<lambda>c. c\<lparr>c_fd := fd\<rparr>) (ppp_init s rnd w) = upd_conn s (\<lambda>_. ppp_conn0\<lparr>c_random := rnd, c_fd := fd\<rparr>) ?w"
    by (simp add: ppp_init_def upd_conn_def upd_ses_def)
  have "fresh na mo s ?w" using i by (simp add: fresh_def ppp_conn0_def ap_session_init_def)
  then show ?thesis
    unfolding e by (rule fresh_upd_conn) (simp_all add: conn_ok_def Let_def ppp_conn0_def layers_ok_def auth_state_ok_def)
qed

section \<open>Initialisation of the layers\<close>

definition init_contract :: "bool \<Rightarrow> bool \<Rightarrow> ppp_env \<Rightarrow> bool" where
  "init_contract na mo E \<longleftrightarrow> (\<forall>l s w w' x. fresh na mo s w \<longrightarrow> pe_layer_init E l s w = Some (w', x) \<longrightarrow>
     fresh na mo s w' \<and> c_layers (conns w' s) = c_layers (conns w s))"

lemma lcp_init_fresh:
  assumes w: "fresh na mo s w" and r: "lcp_layer_init E s w = Some (w', x)"
  shows "fresh na mo s w' \<and> c_layers (conns w' s) = c_layers (conns w s)"
proof -
  define u where "u = (case c_random (conns w s) of [] \<Rightarrow> starve_world w | y # rs \<Rightarrow> upd_conn s (\<lambda>c. c\<lparr>c_random := rs\<rparr>) w)"
  define y where "y = (case c_random (conns w s) of [] \<Rightarrow> 0 | y # rs \<Rightarrow> y)"
  have k: "kept w u" by (auto simp: u_def conn_core_def intro!: kept_upd_conn split: list.split)
  have u: "fresh na mo s u" by (rule fresh_kept [OF k w])
  have ok: "conn_ok na mo u s" using u invD(4) by (auto simp: fresh_def)
  have w': "w' = upd_conn s (\<lambda>c. c\<lparr>c_chan_handlers := c_chan_handlers c @ [PPP_LCP], c_lcp := (c_lcp ppp_conn0)\<lparr>
      lcp_fsm := ppp_fsm_init (conf_fsm (pe_conf E)) (ucast y) (lcp_fsm (c_lcp ppp_conn0))\<rparr>\<rparr>) u"
    using r by (auto simp: lcp_layer_init_def u_def y_def Let_def split: list.splits)
  have "fresh na mo s w'" unfolding w'
    by (rule fresh_upd_conn [OF u]) (use ok u in \<open>auto simp: conn_ok_def Let_def fresh_def ppp_conn0_def ppp_fsm_init_def\<close>)
  then show ?thesis using kept_conn(4) [OF k, of s] by (simp add: w')
qed

lemma sys_init:
  assumes B: "frame_env B"
  shows "init_contract na mo (ppp_sys (Suc n) opts B)"
  unfolding init_contract_def
proof (intro allI impI)
  fix l s w w' x
  assume w: "fresh na mo s w" and r: "pe_layer_init (ppp_sys (Suc n) opts B) l s w = Some (w', x)"
  consider "l = L_LCP" | "l = L_AUTH" | "l \<noteq> L_LCP" "l \<noteq> L_AUTH" by blast
  then show "fresh na mo s w' \<and> c_layers (conns w' s) = c_layers (conns w s)"
  proof cases
    case 1
    then show ?thesis using r lcp_init_fresh [OF w] by (simp add: link_env_def)
  next
    case 2
    then have w': "w' = upd_auth s (\<lambda>_. \<lparr>ao_list = [], ao_auth = None, ao_started = False\<rparr>) w"
      using r by (simp add: link_env_def auth_layer_init_def)
    have ok: "conn_ok na mo w s" using w invD(4) by (auto simp: fresh_def)
    have "fresh na mo s w'" unfolding w' upd_auth_def
      by (rule fresh_upd_conn [OF w]) (use ok w in \<open>auto simp: conn_ok_def Let_def fresh_def auth_state_ok_def\<close>)
    then show ?thesis by (simp add: w')
  next
    case 3
    then have "pe_layer_init B l s w = Some (w', x)" using r by (simp add: link_env_def)
    then have k: "kept w w'" by (rule frame_env_layers(2) [OF B])
    then show ?thesis using fresh_kept [OF k w] kept_conn(4) [OF k] by simp
  qed
qed

abbreviation rows :: "sid \<Rightarrow> ppp_world \<Rightarrow> layer_id list list" where
  "rows s w \<equiv> map (map ld_layer) (c_layers (conns w s))"

lemma fresh_layers:
  assumes w: "fresh na mo s w" and ids: "ids_ok (map (map ld_layer) (f (c_layers (conns w s))))"
    and d: "\<forall>d \<in> set (concat (f (c_layers (conns w s)))). \<not> ld_starting d \<and> \<not> ld_started d \<and> \<not> ld_finished d"
  shows "fresh na mo s (upd_conn s (\<lambda>c. c\<lparr>c_layers := f (c_layers c)\<rparr>) w)"
proof (rule fresh_upd_conn [OF w])
  have "\<not> list_ex past_auth (concat (f (c_layers (conns w s))))" using d by (auto simp: list_ex_iff past_auth_def)
  then show "conn_ok na mo (upd_conn s (\<lambda>c. c\<lparr>c_layers := f (c_layers c)\<rparr>) w) s"
    by (intro conn_ok_layers) (use w ids in \<open>auto simp: fresh_def layers_ok_ids invD(4)\<close>)
qed (use w d in \<open>simp_all add: fresh_def\<close>)

lemma init_node_fresh:
  assumes E: "init_contract na mo E" and w: "fresh na mo s w" "rows s w = rs @ [r]" "ids_ok (rs @ [r @ ls])"
  shows "case init_node E s ls w of Inl w' \<Rightarrow> fresh na mo s w' | Inr w' \<Rightarrow> fresh na mo s w' \<and> rows s w' = rs @ [r @ ls]"
  using w
proof (induction ls arbitrary: w r)
  case (Cons l ls)
  show ?case
  proof (cases "pe_layer_init E l s w")
    case (Some x)
    then obtain v p q where v: "pe_layer_init E l s w = Some (v, p, q)" by (cases x) auto
    have f: "fresh na mo s v" "c_layers (conns v s) = c_layers (conns w s)"
      using E v Cons.prems(1) unfolding init_contract_def by blast+
    let ?d = "(layer_data0 l)\<lparr>ld_passive := p, ld_optional := q\<rparr>"
    let ?g = "\<lambda>ls. butlast ls @ [last ls @ [?d]]"
    define u where "u = upd_conn s (\<lambda>c. c\<lparr>c_layers := ?g (c_layers c)\<rparr>) v"
    obtain xs x where cl: "c_layers (conns v s) = xs @ [x]" "map (map ld_layer) xs = rs" "map ld_layer x = r"
      using Cons.prems(2) f(2) by (auto simp: map_eq_append_conv map_eq_Cons_conv)
    have ids: "ids_ok (rs @ [r @ [l]])" using ids_ok_row [of rs "r @ [l]" ls] Cons.prems(3) by simp
    have "fresh na mo s u" unfolding u_def
      by (rule fresh_layers [OF f(1)]) (use ids f(1) cl in \<open>auto simp: fresh_def layer_data0_def\<close>)
    moreover have "rows s u = rs @ [r @ [l]]" using cl by (simp add: u_def layer_data0_def)
    ultimately show ?thesis using Cons.IH [of u "r @ [l]"] Cons.prems(3) v by (simp add: u_def Let_def split: sum.splits)
  qed (use Cons.prems in simp)
qed simp

lemma init_layers_fresh:
  assumes E: "init_contract na mo E" "free_contract na mo E" and w: "fresh na mo s w" "rows s w = rs" "ids_ok (rs @ map snd ns)"
  shows "case init_layers E s ns w of
      Inl w' \<Rightarrow> ppp_inv na mo {s} w' \<and> ses_state (sessions w' s) = AP_STATE_NONE
    | Inr w' \<Rightarrow> fresh na mo s w' \<and> rows s w' = rs @ map snd ns"
  using w
proof (induction ns arbitrary: w rs)
  case (Cons n ns)
  obtain ord items where n: "n = (ord, items)" by fastforce
  define u where "u = upd_conn s (\<lambda>c. c\<lparr>c_layers := c_layers c @ [[]]\<rparr>) w"
  have p: "ids_ok (rs @ [items])" using ids_ok_prefix [of "rs @ [items]" "map snd ns"] Cons.prems(3) n by simp
  have "ids_ok (rs @ [[]])" using ids_ok_row [of rs "[]" items] p by simp
  then have "fresh na mo s u" unfolding u_def
    by (intro fresh_layers [OF Cons.prems(1)]) (use Cons.prems(1,2) in \<open>auto simp: fresh_def\<close>)
  moreover have "rows s u = rs @ [[]]" using Cons.prems(2) by (simp add: u_def)
  ultimately have i: "case init_node E s items u of Inl w' \<Rightarrow> fresh na mo s w' | Inr w' \<Rightarrow> fresh na mo s w' \<and> rows s w' = rs @ [items]"
    using init_node_fresh [OF E(1), of s u rs "[]" items] p by (simp split: sum.splits)
  show ?case
  proof (cases "init_node E s items u")
    case (Inl v)
    then have "ppp_inv na mo {s} v" "ses_state (sessions v s) = AP_STATE_NONE" using i by (simp_all add: fresh_def)
    then show ?thesis using free_layers_inv [OF E(2), of s v] Inl n by (simp add: u_def calm_def)
  next
    case (Inr v)
    then show ?thesis using Cons.IH [of v "rs @ [items]"] i Cons.prems(3) n by (simp add: u_def split: sum.splits)
  qed
qed simp

section \<open>The session starts\<close>

definition to_starting :: "sid \<Rightarrow> ppp_world \<Rightarrow> ppp_world" where
  "to_starting s w = fire_core EV_SES_STARTING s ((ap_session_stat_inc Starting (upd_ses s (\<lambda>ses. ses\<lparr>ses_state := AP_STATE_STARTING\<rparr>) w))
     \<lparr>ses_list := ses_list w @ [s]\<rparr>)"

lemma to_starting_sel:
  "conns (to_starting s w) = conns w" "calls (to_starting s w) = calls w" "ses_list (to_starting s w) = ses_list w @ [s]"
  "broken (to_starting s w) = broken w" "uc_list (to_starting s w) = uc_list w"
  "sessions (to_starting s w) = (sessions w)(s := (sessions w s)\<lparr>ses_state := AP_STATE_STARTING\<rparr>)"
  "ev_count (to_starting s w) ev t = ev_count w ev t + of_bool (ev = EV_SES_STARTING \<and> t = s)"
  "stat_starting (to_starting s w) = stat_starting w + 1" "stat_active (to_starting s w) = stat_active w"
  "stat_finishing (to_starting s w) = stat_finishing w"
  by (auto simp: to_starting_def fire_core_def ap_session_stat_inc_def upd_ses_def ev_count_def)

lemma to_starting_inv:
  assumes w: "fresh na mo s w"
  shows "ppp_inv na mo {s} (to_starting s w)"
proof -
  let ?w = "to_starting s w"
  have inv: "ppp_inv na mo {s} w" and st: "ses_state (sessions w s) = AP_STATE_NONE" using w by (simp_all add: fresh_def)
  have nl: "s \<notin> set (ses_list w)" using fresh_not_listed [OF w] by (simp add: listed_def)
  have li: "listed ?w t = (listed w t \<or> t = s)" for t by (auto simp: listed_def to_starting_sel)
  have "filter (\<lambda>t. ses_state (sessions ?w t) \<in> S) (ses_list w) = filter (\<lambda>t. ses_state (sessions w t) \<in> S) (ses_list w)" for S
    by (rule filter_cong) (use nl in \<open>auto simp: to_starting_sel\<close>)
  then have c: "count_in ?w S = count_in w S + of_bool (AP_STATE_STARTING \<in> S)" for S
    by (simp add: count_in_def to_starting_sel)
  have stat: "stat_ok ?w" using invD(2) [OF inv] nl unfolding stat_ok_def c by (simp add: to_starting_sel)
  show ?thesis
  proof (rule inv_step [OF inv, of s])
    show "ses_ok ?w s" using invD(3) [OF inv, of s] st by (auto simp: ses_ok_def Let_def li to_starting_sel)
    show "conn_ok na mo ?w s" using invD(4) [OF inv, of s] by (simp add: conn_ok_def Let_def to_starting_sel)
  qed (use stat invD [OF inv] in \<open>auto simp: same_at_def li to_starting_sel\<close>)
qed

lemma starting_inv:
  assumes fr: "frame_ses e" and w: "fresh na mo s w" and r: "ap_session_starting e s w = (w', r)"
  shows "r \<noteq> 0 \<Longrightarrow> w' = w"
    "r = 0 \<Longrightarrow> ppp_inv na mo {s} w' \<and> listed w' s \<and> \<not> ses_terminating (sessions w' s) \<and> conn_core (conns w' s) = conn_core (conns w s)"
proof -
  show "r \<noteq> 0 \<Longrightarrow> w' = w" using r by (auto simp: ap_session_starting_def Let_def split: if_splits)
  assume "r = 0"
  then have sh: "\<not> ap_shutdown w" using r by (auto simp: ap_session_starting_def)
  define w1 where "w1 = (if ses_ifindex (sessions w s) = -1 \<and> ses_ifname (sessions w s) \<noteq> []
                 then upd_ses s (\<lambda>ses. ses\<lparr>ses_ifindex := env_get_ifindex e (ses_ifname ses)\<rparr>) w else w)"
  define w2 where "w2 = (if ses_ifindex (sessions w1 s) \<noteq> -1 then ap_session_set_ifindex e s w1 else w1)"
  define w3 where "w3 = generate_sessionid e s (upd_ses s (\<lambda>ses. ses\<lparr>ses_start_time := env_time e, ses_idle_time := env_time e\<rparr>) w2)"
  have k1: "kept w w1" by (auto simp: w1_def ses_core_def intro!: kept_upd_ses)
  have k2: "kept w1 w2" by (simp add: w2_def)
  have "kept w2 (upd_ses s (\<lambda>ses. ses\<lparr>ses_start_time := env_time e, ses_idle_time := env_time e\<rparr>) w2)"
    by (rule kept_upd_ses) (simp add: ses_core_def)
  then have k3: "kept w2 w3" unfolding w3_def by (rule kept_trans) simp
  have k: "kept w w3" by (rule kept_trans [OF kept_trans [OF k1 k2] k3])
  have f3: "fresh na mo s w3" by (rule fresh_kept [OF k w])
  have "ses_state (sessions w2 s) \<noteq> AP_STATE_RESTORE"
    using w by (simp add: kept_ses(1) [OF kept_trans [OF k1 k2]] fresh_def)
  then have e: "w' = triton_event_fire e EV_SES_STARTING s ((ap_session_stat_inc Starting (upd_ses s (\<lambda>ses. ses\<lparr>ses_state := AP_STATE_STARTING\<rparr>) w3))
      \<lparr>ses_list := ses_list w3 @ [s]\<rparr>)"
    using r sh unfolding ap_session_starting_def w1_def [symmetric]
    unfolding Let_def w1_def [symmetric] w2_def [symmetric]
    by (simp add: w3_def ap_session_stat_inc_def upd_ses_def)
  have kk: "kept (to_starting s w3) w'" unfolding e to_starting_def by (rule kept_fire_core [OF fr kept_refl])
  have "listed w' s" by (simp add: kept_listed [OF kk]) (simp add: listed_def to_starting_sel)
  moreover have "\<not> ses_terminating (sessions w' s)"
    using f3 invD(3) [of na mo "{s}" w3 s] by (auto simp: kept_ses [OF kk] to_starting_sel fresh_def ses_ok_def Let_def)
  moreover have "conn_core (conns w' s) = conn_core (conns w s)"
    using k kk by (simp add: kept_def to_starting_sel)
  ultimately show "ppp_inv na mo {s} w' \<and> listed w' s \<and> \<not> ses_terminating (sessions w' s) \<and> conn_core (conns w' s) = conn_core (conns w s)"
    using kept_inv [OF kk to_starting_inv [OF f3]] by simp
qed

section \<open>LCP starts\<close>

lemma inv_new_opts:
  assumes inv: "ppp_inv na mo X w" and a: "ao_auth (auth_of w s) = None" "\<not> ao_started (auth_of w s)"
    and nk: "\<forall>o' \<in> set os. lo_state o' \<noteq> LCP_OPT_NAK"
  shows "ppp_inv na mo X (upd_lcp s (\<lambda>l. l\<lparr>lcp_opts := os, lcp_conf_req_len := n\<rparr>) w)"
  unfolding upd_lcp_def
proof (rule inv_upd_conn [OF inv])
  show "conn_ok na mo (upd_conn s (\<lambda>c. c\<lparr>c_lcp := (c_lcp c)\<lparr>lcp_opts := os, lcp_conf_req_len := n\<rparr>\<rparr>) w) s"
    using invD(4) [OF inv, of s] a nk by (auto simp: conn_ok_def Let_def)
  assume "s \<notin> X"
  from invD(5) [OF inv this] show "settled mo (upd_conn s (\<lambda>c. c\<lparr>c_lcp := (c_lcp c)\<lparr>lcp_opts := os, lcp_conf_req_len := n\<rparr>\<rparr>) w) s"
    using a by (auto simp: settled_def quiet_def lcp_held_def ppp_find_layer_data_def)
qed

text \<open>Before LCP has sent its first request.\<close>

definition unasked :: "bool \<Rightarrow> bool \<Rightarrow> sid \<Rightarrow> ppp_world \<Rightarrow> bool" where
  "unasked na mo s w \<longleftrightarrow> ppp_inv na mo {} w \<and> listed w s \<and> ao_auth (auth_of w s) = None \<and> \<not> ao_started (auth_of w s) \<and>
     (\<forall>o' \<in> set (lcp_opts (lcp_of w s)). lo_state o' \<noteq> LCP_OPT_NAK)"

lemma unasked_kept:
  assumes k: "kept w w'" and w: "unasked na mo s w"
  shows "unasked na mo s w'"
proof -
  have "(\<forall>o' \<in> set os. lo_state o' \<noteq> LCP_OPT_NAK) = (\<forall>x \<in> set (map opt_core os). \<not> snd x)" for os by (auto simp: opt_core_def)
  then show ?thesis using w kept_inv [OF k] unfolding unasked_def by (simp only: kept_listed [OF k] kept_conn [OF k]) simp
qed

abbreviation offered :: "ppp_env \<Rightarrow> nat" where
  "offered E \<equiv> (if conf_noauth (pe_conf E) \<noteq> 0 then 0 else length (pe_auth_handlers E))"

lemma unasked_auth_list:
  assumes w: "unasked na mo s w" and ds: "\<forall>d \<in> set ds. ad_state d = LCP_OPT_NONE"
  shows "unasked na mo s (upd_auth s (\<lambda>a. a\<lparr>ao_list := ds\<rparr>) w)"
proof -
  have "ppp_inv na mo {} (upd_auth s (\<lambda>a. a\<lparr>ao_list := ds\<rparr>) w)"
    by (rule inv_upd_auth) (use w ds in \<open>simp_all add: unasked_def auth_state_ok_def\<close>)
  then show ?thesis using w by (simp add: unasked_def)
qed

lemma opt_init_ok:
  assumes w: "unasked na mo s w" and r: "opt_init E s k w = (lopt, v)"
  shows "unasked na mo s v" "lo_state lopt = LCP_OPT_NONE" "kind_of (lo_data lopt) = k"
    "lcp_fsm (lcp_of v s) = lcp_fsm (lcp_of w s)" "lcp_opts (lcp_of v s) = lcp_opts (lcp_of w s)"
    "k \<noteq> KAuth \<Longrightarrow> ao_list (auth_of v s) = ao_list (auth_of w s)" "k = KAuth \<Longrightarrow> length (ao_list (auth_of v s)) = offered E"
proof -
  have m: "kept x (upd_conn s (\<lambda>c. c\<lparr>c_mru := a, c_mtu := b\<rparr>) x)" for x a b by (rule kept_upd_conn) (simp add: conn_core_def)
  have g: "kept x (upd_lcp s (\<lambda>l. l\<lparr>lcp_magic := a\<rparr>) x)" for x a by (rule kept_upd_lcp) (simp add: lcp_core_def)
  have k: "kept w v" if "k \<noteq> KAuth"
    using that r m kept_trans [OF kept_draw_magic g, of w] by (cases k) (auto simp: opt_init_def mru_init_def magic_init_def Let_def case_prod_beta)
  have "unasked na mo s v" if "k = KAuth"
    using that r unasked_auth_list [OF w] by (auto simp: opt_init_def auth_init_def Let_def)
  then show "unasked na mo s v" using unasked_kept [OF k w] by blast
  show "k \<noteq> KAuth \<Longrightarrow> ao_list (auth_of v s) = ao_list (auth_of w s)" using kept_conn(5) [OF k, of s] by simp
  show "lo_state lopt = LCP_OPT_NONE" "kind_of (lo_data lopt) = k" "k = KAuth \<Longrightarrow> length (ao_list (auth_of v s)) = offered E"
    "lcp_fsm (lcp_of v s) = lcp_fsm (lcp_of w s)" "lcp_opts (lcp_of v s) = lcp_opts (lcp_of w s)"
    using r by (cases k; auto simp: opt_init_def mru_init_def magic_init_def pcomp_init_def accomp_init_def auth_init_def Let_def case_prod_beta)+
qed

abbreviation kinds :: "sid \<Rightarrow> ppp_world \<Rightarrow> opt_kind set" where
  "kinds s w \<equiv> kind_of ` lo_data ` set (lcp_opts (lcp_of w s))"

lemma upd_lcp_const: "upd_lcp s f w = upd_lcp s (\<lambda>_. f (lcp_of w s)) w"
  by (simp add: upd_lcp_def upd_conn_def)

lemma unasked_add_opt:
  assumes w: "unasked na mo s w" and l: "lo_state lopt = LCP_OPT_NONE"
  shows "unasked na mo s (upd_lcp s (\<lambda>l. l\<lparr>lcp_opts := lcp_opts l @ [lopt], lcp_conf_req_len := lcp_conf_req_len l + lo_len lopt\<rparr>) w)"
proof -
  let ?os = "lcp_opts (lcp_of w s) @ [lopt]"
  have "ppp_inv na mo {} (upd_lcp s (\<lambda>l. l\<lparr>lcp_opts := ?os, lcp_conf_req_len := lcp_conf_req_len (lcp_of w s) + lo_len lopt\<rparr>) w)"
    by (rule inv_new_opts) (use w l in \<open>auto simp: unasked_def\<close>)
  then have "ppp_inv na mo {} (upd_lcp s (\<lambda>l. l\<lparr>lcp_opts := lcp_opts l @ [lopt], lcp_conf_req_len := lcp_conf_req_len l + lo_len lopt\<rparr>) w)"
    by (simp add: upd_lcp_def upd_conn_def)
  then show ?thesis using w l by (auto simp: unasked_def)
qed

lemma init_options_ok:
  assumes "unasked na mo s w"
  shows "unasked na mo s (init_options E s ks w) \<and> lcp_fsm (lcp_of (init_options E s ks w) s) = lcp_fsm (lcp_of w s) \<and>
    kinds s (init_options E s ks w) = kinds s w \<union> set ks \<and>
    (KAuth \<in> set ks \<longrightarrow> length (ao_list (auth_of (init_options E s ks w) s)) = offered E) \<and>
    (KAuth \<notin> set ks \<longrightarrow> ao_list (auth_of (init_options E s ks w) s) = ao_list (auth_of w s))"
  using assms
proof (induction ks arbitrary: w)
  case (Cons k ks)
  obtain lopt v where r: "opt_init E s k w = (lopt, v)" by fastforce
  note i = opt_init_ok [OF Cons.prems r]
  define u where "u = upd_lcp s (\<lambda>l. l\<lparr>lcp_opts := lcp_opts l @ [lopt], lcp_conf_req_len := lcp_conf_req_len l + lo_len lopt\<rparr>) v"
  have u: "unasked na mo s u" unfolding u_def by (rule unasked_add_opt [OF i(1,2)])
  have "lcp_fsm (lcp_of u s) = lcp_fsm (lcp_of w s)" "kinds s u = insert k (kinds s w)" "auth_of u s = auth_of v s"
    using i(3-5) by (auto simp: u_def)
  moreover have "init_options E s (k # ks) w = init_options E s ks u" by (simp add: r u_def)
  ultimately show ?case using Cons.IH [OF u] i(6,7) by (cases "k = KAuth") auto
qed simp

lemma options_init_ok:
  assumes w: "ppp_inv na mo {} w" "listed w s" "ao_auth (auth_of w s) = None" "\<not> ao_started (auth_of w s)"
  shows "unasked na mo s (lcp_options_init E ks s w) \<and> lcp_fsm (lcp_of (lcp_options_init E ks s w) s) = lcp_fsm (lcp_of w s) \<and>
    kinds s (lcp_options_init E ks s w) = set ks \<and>
    (KAuth \<in> set ks \<longrightarrow> length (ao_list (auth_of (lcp_options_init E ks s w) s)) = offered E)"
proof -
  let ?u = "upd_lcp s (\<lambda>l. l\<lparr>lcp_opts := [], lcp_conf_req_len := 6\<rparr>) w"
  have "ppp_inv na mo {} ?u" by (rule inv_new_opts) (use w in simp_all)
  then have "unasked na mo s ?u" using w by (simp add: unasked_def)
  from init_options_ok [OF this, of E ks] show ?thesis by (simp add: lcp_options_init_def)
qed

end
