(* ===== verification/PppReach.thy ===== *)
theory PppReach
  imports PppEstablish
begin

text \<open>
  The invariant holds after every history of the daemon.
\<close>

lemma set_state_auth: "upd_auth s f (set_state (lcp_ops E s) st w) = set_state (lcp_ops E s) st (upd_auth s f w)"
  by (simp add: set_state_def upd_fsm_def lcp_ops_def upd_auth_def upd_lcp_def upd_conn_def) (cases "conns w s", simp)

lemma lcp_start_inv:
  assumes w: "ppp_inv na mo {} w" "listed w s" "ao_auth (auth_of w s) = None" "\<not> ao_started (auth_of w s)"
      "fsm_state (lcp_fsm (lcp_of w s)) = FSM_Initial"
    and na: "na \<Longrightarrow> conf_noauth (pe_conf E) = 0 \<and> pe_auth_handlers E \<noteq> [] \<and> KAuth \<in> set opts"
  shows "ppp_inv na mo {} (fst (lcp_layer_start E opts s w)) \<and> \<not> snd (lcp_layer_start E opts s w)"
proof -
  let ?ops = "lcp_ops E s"
  define u where "u = lcp_options_init E opts s w"
  note o = options_init_ok [OF w(1-4), of E opts, folded u_def]
  define v where "v = set_state ?ops FSM_Closed u"
  define x where "x = dec_counter ?ops (init_req_counter ?ops max_configure v)"
  define y where "y = set_state ?ops FSM_Req_Sent x"
  have st: "fsm_state (lcp_fsm (lcp_of u s)) = FSM_Initial" using o w(5) by simp
  have u: "ppp_inv na mo {} u" "listed u s" using o by (simp_all add: unasked_def)
  have v: "ppp_inv na mo {} v" "listed v s" unfolding v_def using inv_set_state [OF u(1)] u(2) by (simp_all add: fsm_lcp)
  have x: "ppp_inv na mo {} x" unfolding x_def by (rule kept_inv [OF kept_counters(1) inv_init_counter(1) [OF v]])
  have sel: "auth_of x s = auth_of u s" "lcp_opts (lcp_of x s) = lcp_opts (lcp_of u s)" by (simp_all add: x_def v_def fsm_lcp)
  have y: "auth_of y s = auth_of x s" "lcp_opts (lcp_of y s) = lcp_opts (lcp_of x s)" by (simp_all add: y_def fsm_lcp)
  let ?a = "req_auth E (lcp_opts (lcp_of x s)) (auth_of x s)"
  have z: "ppp_inv na mo {} (upd_auth s (\<lambda>_. ?a) x)" by (rule req_auth_inv [OF x])
  have "ao_auth ?a \<noteq> None" if na
    using na [OF that] o auth_choose_fresh [OF inv_auth_ok [OF x, of s]] sel by (auto simp: req_auth_def asks_auth_def)
  then have "ppp_inv na mo {} (upd_auth s (\<lambda>_. ?a) y)" unfolding y_def set_state_auth by (intro inv_set_state [OF z]) auto
  then have i: "ppp_inv na mo {} (fst (lcp_send_conf_req E s y))"
    using kept_inv [OF kept_chan_send] inv_auth_ok [OF x, of s] by (simp add: send_conf_req_world y)
  have "fst (ppp_fsm_lower_up ?ops u) = v" using st by (simp add: ppp_fsm_lower_up_def v_def)
  moreover have "state_of ?ops v = FSM_Closed" by (simp add: v_def fsm_lcp)
  then have "ppp_fsm_open ?ops v = (fst (lcp_send_conf_req E s y), 0)"
    by (simp add: ppp_fsm_open_def Let_def x_def y_def conf_req_call_def lcp_ops_def lcp_send_conf_req_def case_prod_beta)
  ultimately show ?thesis using i by (simp add: lcp_layer_start_def u_def Let_def)
qed

text \<open>Every layer of the connection that has just been built waits; then LCP starts.\<close>

lemma first_layer_inv:
  assumes E: "pe_layer_start E L_LCP = lcp_layer_start E' opts"
    and na: "na \<Longrightarrow> conf_noauth (pe_conf E') = 0 \<and> pe_auth_handlers E' \<noteq> [] \<and> KAuth \<in> set opts"
    and f: "fresh na mo s w" "rows s w = [L_LCP] # [L_AUTH] # rest"
    and v: "ppp_inv na mo {s} v" "listed v s" "conn_core (conns v s) = conn_core (conns w s)"
  shows "ppp_inv na mo {} (start_first_layer E s (upd_conn s (\<lambda>c. c\<lparr>c_chan_hnd := True\<rparr>) v))"
proof -
  define u where "u = upd_conn s (\<lambda>c. c\<lparr>c_chan_hnd := True\<rparr>) v"
  define x where "x = upd_layer s L_LCP (\<lambda>d. d\<lparr>ld_starting := True\<rparr>) u"
  have core: "c_layers (conns v s) = c_layers (conns w s)" "auth_of v s = auth_of w s"
    "fsm_state (lcp_fsm (lcp_of v s)) = fsm_state (lcp_fsm (lcp_of w s))"
    using v(3) by (simp_all add: conn_core_def lcp_core_def)
  have cu: "c_layers (conns u s) = c_layers (conns w s)" "auth_of u s = auth_of w s" "lcp_of u s = lcp_of v s" "listed u s"
    using core v(2) by (simp_all add: u_def)
  have u: "ppp_inv na mo {s} u" unfolding u_def
    by (rule inv_upd_conn [OF v(1)]) (use invD(4) [OF v(1), of s] in \<open>simp_all add: conn_ok_def Let_def\<close>)
  obtain d ls where d: "c_layers (conns w s) = [d] # ls" "ld_layer d = L_LCP" "map (map ld_layer) ls = [L_AUTH] # rest"
    using f(2) by (auto simp: map_eq_Cons_conv)
  have x: "ppp_inv na mo {s} x" unfolding x_def by (rule inv_upd_layer [OF u]) (auto simp: past_auth_def net_layer_def)
  have lx: "c_layers (conns x s) = [d\<lparr>ld_starting := True\<rparr>] # map (map (\<lambda>d. if ld_layer d = L_LCP then d\<lparr>ld_starting := True\<rparr> else d)) ls"
    using d cu(1) by (simp add: x_def upd_layer_def)
  have fd: "\<not> ld_finished d" using f(1) d(1) by (simp add: fresh_def)
  have sx: "listed x s" "auth_of x s = auth_of w s" "lcp_of x s = lcp_of v s" using cu by (simp_all add: x_def upd_layer_def)
  have a: "ao_auth (auth_of w s) = None" "\<not> ao_started (auth_of w s)" "fsm_state (lcp_fsm (lcp_of w s)) = FSM_Initial"
    using f(1) by (simp_all add: fresh_def)
  have "L_AUTH \<in> ld_layer ` set (concat ls)" using d(3) by (auto simp: map_eq_Cons_conv)
  then have "L_AUTH \<in> ld_layer ` set (concat (c_layers (conns x s)))" unfolding lx by force
  then have "settled mo x s" using sx a d(2) fd by (auto simp: settled_def lcp_held_def ppp_find_layer_data_def lx)
  then have xi: "ppp_inv na mo {} x" by (rule inv_settle [OF x])
  have "map ld_layer [d] = [L_LCP]" using d(2) by simp
  moreover have "ppp_inv na mo {} (fst (lcp_layer_start E' opts s x)) \<and> \<not> snd (lcp_layer_start E' opts s x)"
    by (rule lcp_start_inv [OF xi]) (use sx a core na in simp_all)
  ultimately have "ppp_inv na mo {} (start_first_layer E s u)"
    using d(1) cu(1) by (cases "lcp_layer_start E' opts s x") (simp add: start_first_layer_def E x_def split: bool.split)
  then show ?thesis by (simp add: u_def)
qed

section \<open>Establishing a connection\<close>

lemma establish_inv:
  assumes E: "init_contract na mo E" "free_contract na mo E" "frame_ses (pe_ses E)" "pe_layer_start E L_LCP = lcp_layer_start E' opts"
    and na: "na \<Longrightarrow> conf_noauth (pe_conf E') = 0 \<and> pe_auth_handlers E' \<noteq> [] \<and> KAuth \<in> set opts"
    and k: "mo \<Longrightarrow> mru_ok (pe_kernel E)"
    and ns: "map snd nodes = [L_LCP] # [L_AUTH] # rest" "ids_ok (map snd nodes)"
    and w: "fresh na mo s w" "c_layers (conns w s) = []" and r: "establish_ppp E nodes s w = (w', r)"
  shows "if r = 0 then ppp_inv na mo {} w' else ppp_inv na mo {s} w' \<and> ses_state (sessions w' s) = AP_STATE_NONE"
proof -
  have failed: "ppp_inv na mo {s} x \<and> ses_state (sessions x s) = AP_STATE_NONE" if "fresh na mo s x" for x using that by (simp add: fresh_def)
  let ?w = "upd_conn s (\<lambda>c. c\<lparr>c_chan_fd := k_open_chan (pe_kernel E)\<rparr>) w"
  have "kept w ?w" by (rule kept_upd_conn) (simp add: conn_core_def)
  then have w1: "fresh na mo s ?w" by (rule fresh_kept [OF _ w(1)])
  note i = init_layers_fresh [OF E(1,2) w1, of "[]" nodes]
  show ?thesis
  proof (cases "ap_shutdown w \<or> \<not> k_getchan (pe_kernel E) \<or> k_open_chan (pe_kernel E) < 0 \<or> \<not> k_attach (pe_kernel E)")
    case True
    then show ?thesis using r failed [OF w(1)] failed [OF w1] by (auto simp: establish_ppp_def Let_def split: if_splits)
  next
    case False
    show ?thesis
    proof (cases "init_layers E s nodes ?w")
      case (Inl v)
      then show ?thesis using r False i ns(2) w(2) by (auto simp: establish_ppp_def Let_def)
    next
      case (Inr v)
      then have v: "fresh na mo s v" "rows s v = [L_LCP] # [L_AUTH] # rest" using i ns w(2) by simp_all
      obtain y b where y: "(if conf_unit_preallocate (pe_conf E) \<noteq> 0 then connect_ppp_channel E s v else (v, False)) = (y, b)" by fastforce
      have "unit_ok na mo {s} v (fst (connect_ppp_channel E s v))" by (rule connect_ok) (use v(1) k in \<open>simp_all add: fresh_def\<close>)
      moreover have "unit_ok na mo {s} v v" using v(1) by (simp add: unit_ok_def only_unit_def fresh_def)
      ultimately have "unit_ok na mo {s} v y" using y by (auto split: if_splits)
      then have u: "ppp_inv na mo {s} y" "lcp_of y s = lcp_of v s" "auth_of y s = auth_of v s" "c_layers (conns y s) = c_layers (conns v s)"
        "ses_core (sessions y s) = ses_core (sessions v s)" by (simp_all add: unit_ok_def only_unit_def)
      have fy: "fresh na mo s y" "rows s y = [L_LCP] # [L_AUTH] # rest"
        using v u(1-4) ses_core_state [OF u(5)] by (simp_all add: fresh_def)
      obtain x q where x: "ap_session_starting (pe_ses E) s y = (x, q)" by fastforce
      note st = starting_inv [OF E(3) fy(1) x]
      have ne: "c_layers (conns v s) \<noteq> []" using v(2) by auto
      have e: "(w', r) = (if b then (y, -1) else if q \<noteq> 0 then (x, -1) else (start_first_layer E s (upd_conn s (\<lambda>c. c\<lparr>c_chan_hnd := True\<rparr>) x), 0))"
        using r False Inr x y ne unfolding establish_ppp_def by (cases b) (simp_all add: Let_def)
      show ?thesis
      proof (cases "b \<or> q \<noteq> 0")
        case True
        then show ?thesis using e st(1) failed [OF fy(1)] by (auto split: if_splits)
      next
        case False
        then show ?thesis using e st(2) first_layer_inv [OF E(4) na fy, of x] by simp
      qed
    qed
  qed
qed

lemma run_establish_inv:
  assumes B: "env_ok na mo opts B" and n: "9 \<le> n" and ls: "distinct ls" "{L_LCP, L_AUTH} \<subseteq> set ls"
    and w: "ppp_inv na mo {} w" "ses_state (sessions w s) = AP_STATE_NONE"
  shows "ppp_inv na mo {} (run_establish (ppp_sys n opts B) (registered ls) s fd rnd w)"
proof -
  obtain m where m: "n = Suc m" using n by (cases n) auto
  have fe: "frame_env B" using B by (simp add: env_ok_def)
  let ?E = "ppp_sys n opts B" and ?w = "upd_conn s (\<lambda>c. c\<lparr>c_fd := fd\<rparr>) (ppp_init s rnd w)"
  obtain rest where rest: "map snd (registered ls) = [L_LCP] # [L_AUTH] # rest" "ids_ok (map snd (registered ls))"
    using registered_nodes [OF ls] by metis
  obtain w' r where r: "establish_ppp ?E (registered ls) s ?w = (w', r)" by fastforce
  have "if r = 0 then ppp_inv na mo {} w' else ppp_inv na mo {s} w' \<and> ses_state (sessions w' s) = AP_STATE_NONE"
  proof (rule establish_inv [OF _ _ _ _ _ _ rest init_fresh [OF w] _ r])
    show "init_contract na mo ?E" unfolding m by (rule sys_init [OF fe])
    show "free_contract na mo ?E" by (rule sys_levels(4) [OF fe]) (use n in simp)
    show "frame_ses (pe_ses ?E)" by (rule sys_frame [OF fe])
    show "pe_layer_start ?E L_LCP = lcp_layer_start (ppp_sys m opts B) opts" unfolding m by (simp add: link_env_def)
    show "na \<Longrightarrow> conf_noauth (pe_conf (ppp_sys m opts B)) = 0 \<and> pe_auth_handlers (ppp_sys m opts B) \<noteq> [] \<and> KAuth \<in> set opts"
      using B by (simp add: env_ok_def)
    show "mo \<Longrightarrow> mru_ok (pe_kernel ?E)" using B by (simp add: env_ok_def)
    show "c_layers (conns ?w s) = []" by (simp add: ppp_init_def ppp_conn0_def upd_ses_def)
  qed
  then show ?thesis using inv_drop r by (auto simp: run_establish_def split: if_splits)
qed

section \<open>Every event\<close>

text \<open>Whatever can still happen to a session happens to a listed one.\<close>

lemma active_listed:
  assumes "ppp_inv na mo {} w"
    and "c_chan_hnd (conns w s) \<or> c_unit_fd (conns w s) \<ge> 0 \<or> restart_timer (lcp_fsm (lcp_of w s)) \<or> lcp_echo_timer (lcp_of w s) \<or>
      ao_started (auth_of w s) \<or> c_layers (conns w s) \<noteq> []"
  shows "listed w s"
  using invD(5) [OF assms(1), of s] assms(2) by (auto simp: settled_def quiet_def split: if_splits)

lemma layer_flag_listed:
  assumes "ppp_inv na mo {} w" "layer_flag f l (conns w s)"
  shows "listed w s"
proof (rule active_listed [OF assms(1)])
  have "c_layers (conns w s) \<noteq> []" using assms(2) by (auto simp: layer_flag_def ppp_find_layer_data_def)
  then show "c_chan_hnd (conns w s) \<or> c_unit_fd (conns w s) \<ge> 0 \<or> restart_timer (lcp_fsm (lcp_of w s)) \<or> lcp_echo_timer (lcp_of w s) \<or>
      ao_started (auth_of w s) \<or> c_layers (conns w s) \<noteq> []" by simp
qed

lemma good_tick:
  assumes inv: "ppp_inv na mo {} w" and s: "listed w s" and st: "fsm_state (lcp_fsm (lcp_of w s)) \<notin> {FSM_Initial, FSM_Closed}"
  shows "good na mo False s w"
  using inv_na [OF inv, of s] inv s st by (auto simp: good_def)

lemma run_op_inv:
  assumes B: "env_ok na mo opts B" and n: "9 \<le> n" and ls: "distinct ls" "{L_LCP, L_AUTH} \<subseteq> set ls"
    and w: "ppp_inv na mo {} w" "op_enabled op w"
  shows "ppp_inv na mo {} (run_op (ppp_sys n opts B) (registered ls) op w)"
proof -
  let ?E = "ppp_sys n opts B"
  have fe: "frame_env B" using B by (simp add: env_ok_def)
  have n': "5 \<le> n" "6 \<le> n" "8 \<le> n" using n by simp_all
  note T = sys_levels(1) [OF fe n'(1)] and R = sys_recv [OF B n] and L = sys_lcp_env [OF B n'(3)] and F = sys_frame [OF fe]
  obtain m where "n = 4 + m" using n' le_Suc_ex [of 4 n] by auto
  then have m: "n = Suc (Suc (Suc (Suc m)))" by simp
  have C: "ctrl_contract na mo (pe_ses ?E)" unfolding m by (rule sys_ctrl [OF fe])
  have k: "mo \<Longrightarrow> mru_ok (pe_kernel ?E)" using B by (simp add: env_ok_def)
  note act = active_listed [OF w(1)]
  show ?thesis
  proof (cases op)
    case (Establish s fd rnd)
    then show ?thesis using run_establish_inv [OF B n ls w(1)] w(2) by simp
  next
    case (Fsm_Tick s)
    then have li: "listed w s" using act w(2) by simp
    show ?thesis
    proof (cases "fsm_state (lcp_fsm (lcp_of w s)) \<in> {FSM_Initial, FSM_Closed}")
      case True
      then show ?thesis using Fsm_Tick w(1) by (auto simp: restart_timer_func_def ppp_fsm_timeout0_def ppp_fsm_timeout1_def)
    next
      case False
      then show ?thesis using fsm_tick_inv [OF L good_tick [OF w(1) li]] Fsm_Tick by simp
    qed
  next
    case (Deferred s f)
    then show ?thesis using deferred_inv [OF L sys_auth_started [OF fe n'(2)] w(1)] w(2) by simp
  next
    case (Terminate s cause hard)
    then have "listed w s" using w(2) by (simp add: listed_def)
    then show ?thesis using terminateD(1) [OF T w(1)] Terminate by simp
  next
    case (Net_Started l s)
    then have l: "net_layer l" "layer_flag ld_starting l (conns w s)" using w(2) by simp_all
    show ?thesis unfolding Net_Started run_op.simps by (rule layer_started_net(1) [OF F w(1) layer_flag_listed [OF w(1) l(2)] l(1)])
  next
    case (Net_Passive l s)
    then have l: "net_layer l" "layer_flag ld_starting l (conns w s)" using w(2) by simp_all
    show ?thesis unfolding Net_Passive run_op.simps by (rule layer_started_net(2) [OF F w(1) layer_flag_listed [OF w(1) l(2)] l(1)])
  next
    case (Chan_Read s rs)
    show ?thesis unfolding Chan_Read run_op.simps by (rule chan_read_inv [OF R T w(1) act]) (use w(2) Chan_Read in simp)
  next
    case (Unit_Read s rs)
    show ?thesis unfolding Unit_Read run_op.simps by (rule unit_read_inv [OF R T w(1) act]) (use w(2) Unit_Read in simp)
  next
    case (Echo_Tick s)
    show ?thesis unfolding Echo_Tick run_op.simps by (rule echo_tick_inv [OF T w(1) act]) (use w(2) Echo_Tick in simp)
  next
    case (Ses_Tick s)
    show ?thesis unfolding Ses_Tick run_op.simps by (rule ses_tick_inv [OF C F w(1)]) (use w(2) Ses_Tick in simp)
  next
    case (Auth_Succeeded s u)
    show ?thesis unfolding Auth_Succeeded run_op.simps by (rule auth_succeeded_inv [OF F k w(1) act]) (use w(2) Auth_Succeeded in simp_all)
  next
    case (Auth_Failed s u)
    show ?thesis unfolding Auth_Failed run_op.simps by (rule auth_failed_inv [OF T F w(1) act]) (use w(2) Auth_Failed in simp)
  next
    case (Shutdown trm)
    show ?thesis unfolding Shutdown run_op.simps by (rule shutdown_inv [OF F w(1)])
  qed
qed

lemma world0_inv: "ppp_inv na mo {} ppp_world0"
  by (simp add: ppp_inv_def ppp_world0_def stat_ok_def count_in_def ses_ok_def conn_ok_def settled_def quiet_def listed_def ev_count_def
      Let_def ap_session_init_def ppp_conn0_def layers_ok_def auth_state_ok_def)

lemma reach_inv:
  assumes "ppp_reach n opts (registered ls) P w" and B: "\<And>B. P B \<Longrightarrow> env_ok na mo opts B"
    and n: "9 \<le> n" and ls: "distinct ls" "{L_LCP, L_AUTH} \<subseteq> set ls"
  shows "ppp_inv na mo {} w"
  using assms(1)
proof induction
  case reach_start
  then show ?case by (rule world0_inv)
next
  case (reach_op w B op)
  then show ?case using run_op_inv [OF B n ls] by blast
qed

end
