(* ===== verification/LcpPackets.thy ===== *)
theory LcpPackets
  imports PppReach
begin

text \<open>
  LCP's packets: the parser of options is exact, replies fit the buffers allocated for them,
  what is sent is well formed, and each request gets the answer the handlers decided on.
\<close>

section \<open>The option parser\<close>

definition wf_opt :: "bytes \<Rightarrow> bool" where
  "wf_opt b \<longleftrightarrow> 2 \<le> length b \<and> unat (b ! 1) = length b"

lemma split_step:
  assumes "2 \<le> sz" "sz \<le> length data" "2 \<le> unat (data ! 1)" "unat (data ! 1) \<le> sz"
  shows "split_opts data sz = bind_parse (split_opts (drop (unat (data ! 1)) data) (sz - unat (data ! 1)))
      (\<lambda>(os, bad). Ok (take (unat (data ! 1)) data # os, bad))"
  using assms by (subst split_opts.simps) (simp add: read_byte_def read_bytes_def)

lemma split_bad:
  assumes "0 < sz" "sz \<le> length data" "sz < 2 \<or> unat (data ! 1) < 2 \<or> sz < unat (data ! 1)"
  shows "split_opts data sz = Ok ([], True)"
  using assms by (subst split_opts.simps) (auto simp: read_byte_def)

lemma first_opt:
  assumes "b @ rest = take sz data" "sz \<le> length data" "2 \<le> length b"
  shows "length b \<le> sz" "data ! 1 = b ! 1"
proof -
  have "length b + length rest = sz" using arg_cong [OF assms(1), of length] assms(2) by simp
  then show "length b \<le> sz" by simp
  then have "data ! 1 = take sz data ! 1" using assms(3) by simp
  also have "\<dots> = b ! 1" unfolding assms(1) [symmetric] using assms(3) by (simp add: nth_append)
  finally show "data ! 1 = b ! 1" .
qed

lemma split_exact:
  assumes "sz \<le> length data"
  shows "split_opts data sz = Ok (os, False) \<longleftrightarrow> concat os = take sz data \<and> (\<forall>b \<in> set os. wf_opt b)"
  using assms
proof (induction data sz arbitrary: os rule: split_opts.induct)
  case (1 data sz)
  consider "sz = 0" | "0 < sz" "sz < 2 \<or> unat (data ! 1) < 2 \<or> sz < unat (data ! 1)"
    | "2 \<le> sz" "2 \<le> unat (data ! 1)" "unat (data ! 1) \<le> sz" by linarith
  then show ?case
  proof cases
    case 1
    have "(\<forall>b \<in> set os. wf_opt b) \<Longrightarrow> concat os = [] \<Longrightarrow> os = []" by (cases os) (auto simp: wf_opt_def)
    then show ?thesis using 1 by (subst split_opts.simps) auto
  next
    case 2
    have "\<not> (concat os = take sz data \<and> (\<forall>b \<in> set os. wf_opt b))"
    proof
      assume a: "concat os = take sz data \<and> (\<forall>b \<in> set os. wf_opt b)"
      then obtain b bs where os: "os = b # bs" using 2(1) "1.prems" by (cases os) auto
      then have b: "2 \<le> length b" "unat (b ! 1) = length b" "b @ concat bs = take sz data" using a by (simp_all add: wf_opt_def)
      show False using first_opt [OF b(3) "1.prems" b(1)] b(1,2) 2 by auto
    qed
    then show ?thesis using split_bad [OF 2(1) "1.prems" 2(2)] by simp
  next
    case 3
    define k where "k = unat (data ! 1)"
    have rb: "read_byte data 1 = Ok (data ! 1)" "read_bytes data 0 (unat (data ! 1)) = Ok (take (unat (data ! 1)) data)"
      using 3 "1.prems" by (auto simp: read_byte_def read_bytes_def)
    have len: "sz - k \<le> length (drop k data)" using "1.prems" by (simp add: k_def)
    have IH: "split_opts (drop k data) (sz - k) = Ok (ps, False) \<longleftrightarrow> concat ps = take (sz - k) (drop k data) \<and> (\<forall>b \<in> set ps. wf_opt b)" for ps
      using "1.IH" [OF _ _ rb(1) _ rb(2)] 3 len by (auto simp: k_def)
    obtain ps bad where ps: "split_opts (drop k data) (sz - k) = Ok (ps, bad)" using split_opts_safe [OF len] by blast
    have cut: "take sz data = take k data @ take (sz - k) (drop k data)" using 3 by (metis k_def le_add_diff_inverse take_add)
    have e: "split_opts data sz = Ok (take k data # ps, bad)" using split_step [of sz data] 3 "1.prems" ps by (simp add: k_def)
    have w: "wf_opt (take k data)" using 3 "1.prems" by (auto simp: wf_opt_def k_def)
    show ?thesis
    proof
      assume "split_opts data sz = Ok (os, False)"
      then show "concat os = take sz data \<and> (\<forall>b \<in> set os. wf_opt b)" using e ps IH [of ps] w cut by auto
    next
      assume a: "concat os = take sz data \<and> (\<forall>b \<in> set os. wf_opt b)"
      then obtain b bs where os: "os = b # bs" using 3 "1.prems" by (cases os) auto
      have b: "2 \<le> length b" "unat (b ! 1) = length b" "b @ concat bs = take sz data" using a os by (simp_all add: wf_opt_def)
      then have "length b = k" using first_opt(2) [OF b(3) "1.prems" b(1)] by (simp add: k_def)
      then have "b = take k data" "concat bs = take (sz - k) (drop k data)" using b(3) cut "1.prems" 3 by (auto simp: k_def append_eq_append_conv)
      then show "split_opts data sz = Ok (os, False)" using IH [of bs] a os e ps by auto
    qed
  qed
qed

text \<open>Read on as a sum of lengths.\<close>

lemma split_length:
  assumes "sz \<le> length data" "split_opts data sz = Ok (os, bad)"
  shows "length (concat os) \<le> sz"
  using assms
proof (induction data sz arbitrary: os bad rule: split_opts.induct)
  case (1 data sz)
  consider "sz = 0" | "0 < sz" "sz < 2 \<or> unat (data ! 1) < 2 \<or> sz < unat (data ! 1)"
    | "2 \<le> sz" "2 \<le> unat (data ! 1)" "unat (data ! 1) \<le> sz" by linarith
  then show ?case
  proof cases
    case 1
    then show ?thesis using "1.prems" by (subst (asm) split_opts.simps) simp
  next
    case 2
    then show ?thesis using "1.prems" split_bad by auto
  next
    case 3
    define k where "k = unat (data ! 1)"
    have rb: "read_byte data 1 = Ok (data ! 1)" "read_bytes data 0 (unat (data ! 1)) = Ok (take (unat (data ! 1)) data)"
      using 3 "1.prems" by (auto simp: read_byte_def read_bytes_def)
    have len: "sz - k \<le> length (drop k data)" using "1.prems" by (simp add: k_def)
    obtain ps c where ps: "split_opts (drop k data) (sz - k) = Ok (ps, c)" using split_opts_safe [OF len] by blast
    then have "length (concat ps) \<le> sz - k" using "1.IH" [OF _ _ rb(1) _ rb(2)] 3 len by (auto simp: k_def)
    moreover have "os = take k data # ps" using split_step [of sz data] 3 "1.prems" ps by (simp add: k_def)
    ultimately show ?thesis using 3 by (simp add: k_def)
  qed
qed

section \<open>Room for replies\<close>

text \<open>What the size of a request depends on.\<close>

definition size_core :: "sid \<Rightarrow> ppp_world \<Rightarrow> int \<times> (int \<times> opt_kind) list \<times> nat list" where
  "size_core s w = (lcp_conf_req_len (lcp_of w s), map (\<lambda>lopt. (lo_len lopt, kind_of (lo_data lopt))) (lcp_opts (lcp_of w s)),
     map ad_handler (ao_list (auth_of w s)))"

definition auth_bound :: "sid \<Rightarrow> ppp_world \<Rightarrow> bool" where
  "auth_bound s w \<longleftrightarrow> (\<forall>i. ao_auth (auth_of w s) = Some i \<longrightarrow> i < length (ao_list (auth_of w s)))"

definition same_size :: "sid \<Rightarrow> ppp_world \<Rightarrow> ppp_world \<Rightarrow> bool" where
  "same_size s w w' \<longleftrightarrow> size_core s w' = size_core s w \<and> (auth_bound s w \<longrightarrow> auth_bound s w')"

lemma same_size_refl [simp, intro]: "same_size s w w"
  by (simp add: same_size_def)

lemma same_size_trans [trans]: "same_size s u v \<Longrightarrow> same_size s v w \<Longrightarrow> same_size s u w"
  by (simp add: same_size_def)

lemma same_size_conn:
  assumes "c_lcp (f (conns w s)) = lcp_of w s" "c_auth (f (conns w s)) = auth_of w s"
  shows "same_size s w (upd_conn s f w)"
  using assms by (simp add: same_size_def size_core_def auth_bound_def)

lemma same_size_lcp:
  assumes "lcp_conf_req_len (f (lcp_of w s)) = lcp_conf_req_len (lcp_of w s)"
    "map (\<lambda>lopt. (lo_len lopt, kind_of (lo_data lopt))) (lcp_opts (f (lcp_of w s))) = map (\<lambda>lopt. (lo_len lopt, kind_of (lo_data lopt))) (lcp_opts (lcp_of w s))"
  shows "same_size s w (upd_lcp s f w)"
  using assms by (simp add: same_size_def size_core_def auth_bound_def)

lemma same_size_auth:
  assumes "map ad_handler (ao_list (f (auth_of w s))) = map ad_handler (ao_list (auth_of w s))"
    "\<And>i. auth_bound s w \<Longrightarrow> ao_auth (f (auth_of w s)) = Some i \<Longrightarrow> i < length (ao_list (auth_of w s))"
  shows "same_size s w (upd_auth s f w)"
proof -
  have "auth_bound s (upd_auth s f w)" if "auth_bound s w"
    using assms(2) [OF that] map_eq_imp_length_eq [OF assms(1)] by (simp add: auth_bound_def)
  moreover have "size_core s (upd_auth s f w) = size_core s w" using assms(1) by (simp add: size_core_def)
  ultimately show ?thesis by (simp add: same_size_def)
qed

lemma same_size_break [simp]: "same_size s w (break_world w)" "same_size s w (starve_world w)"
  by (simp_all add: same_size_def size_core_def auth_bound_def break_world_def starve_world_def)

lemma same_size_send [simp]: "same_size s w (ppp_chan_send s d w)"
  unfolding ppp_chan_send_def by (rule same_size_conn) simp_all

lemma same_size_draw [simp]: "same_size s w (snd (draw_magic s m w))"
  unfolding draw_magic_def by (auto split: option.split intro: same_size_conn)

lemma same_entry: "(map f xs)[i := f (xs ! i)] = map f xs"
  by (metis list_update_id map_update)

lemma same_size_set_opt:
  assumes "i < length (lcp_opts (lcp_of w s))" "lo_len lopt = lo_len (lcp_opts (lcp_of w s) ! i)"
    "kind_of (lo_data lopt) = kind_of (lo_data (lcp_opts (lcp_of w s) ! i))"
  shows "same_size s w (set_opt s i lopt w)"
  unfolding set_opt_def by (rule same_size_lcp) (use assms in \<open>auto simp: map_update list_update_same_conv\<close>)

lemma same_size_choose: "same_size s w (upd_auth s auth_choose w)"
  by (rule same_size_auth) (auto simp: auth_bound_def intro: auth_choose_bound)

lemma same_size_conf_req: "same_size s w (fst (auth_send_conf_req E s w))"
  using same_size_choose [of s w] same_size_trans [OF same_size_choose same_size_break(1)]
  by (simp add: auth_send_conf_req_def Let_def split: option.split)

lemma same_size_opt_req: "same_size s w (fst (opt_send_conf_req E s lopt w))" "same_size s w (fst (opt_send_conf_nak E s lopt w))"
  using same_size_conf_req by (cases "lo_data lopt"; simp add: opt_send_conf_req_def opt_send_conf_nak_def magic_send_conf_nak_def case_prod_beta)+

lemma same_size_collect_req: "same_size s w (fst (collect_req E s os w))"
proof (induction os arbitrary: w)
  case (Cons lopt os)
  show ?case using same_size_trans [OF same_size_opt_req(1) Cons.IH] by (simp add: case_prod_beta Let_def)
qed simp

lemma same_size_collect_nak: "same_size s w (fst (collect_nak E s os w))"
proof (induction os arbitrary: w)
  case (Cons lopt os)
  show ?case using same_size_trans [OF same_size_opt_req(2) Cons.IH] Cons.IH by (simp add: case_prod_beta Let_def)
qed simp

text \<open>What one handler does to its option.\<close>

definition sized :: "sid \<Rightarrow> (lcp_option \<Rightarrow> bytes \<Rightarrow> ppp_world \<Rightarrow> lcp_option \<times> ppp_world \<times> 'r) \<Rightarrow> bool" where
  "sized s h \<longleftrightarrow> (\<forall>lopt hdr w lopt' w' r. h lopt hdr w = (lopt', w', r) \<longrightarrow>
     lo_len lopt' = lo_len lopt \<and> kind_of (lo_data lopt') = kind_of (lo_data lopt) \<and> same_size s w w' \<and>
     lcp_opts (lcp_of w' s) = lcp_opts (lcp_of w s))"

lemma same_size_nak: "same_size s w (fst (auth_recv_conf_nak s w))" "same_size s w (fst (auth_recv_conf_rej s w))"
proof -
  have "same_size s w (upd_auth s (\<lambda>a. a\<lparr>ao_list := (ao_list a)[i := (ao_list a ! i)\<lparr>ad_state := x\<rparr>]\<rparr>) w)" for i x
    by (rule same_size_auth) (simp_all add: map_update same_entry auth_bound_def)
  then show "same_size s w (fst (auth_recv_conf_nak s w))" "same_size s w (fst (auth_recv_conf_rej s w))"
    by (simp_all add: auth_recv_conf_nak_def auth_recv_conf_rej_def Let_def split: option.split)
qed

lemma sized_req: "sized s (opt_recv_conf_req E s)"
proof -
  have "same_size s w (upd_conn s (\<lambda>c. c\<lparr>c_mtu := v\<rparr>) w)" for w v by (rule same_size_conn) simp_all
  then show ?thesis
    unfolding sized_def opt_recv_conf_req_def mru_recv_conf_req_def
    by (auto simp: Let_def split: lcp_opt_data.splits if_splits)
qed

lemma same_size_magic: "same_size s w (upd_lcp s (\<lambda>l. l\<lparr>lcp_magic := m\<rparr>) w)"
  by (rule same_size_lcp) simp_all

lemma sized_rej: "sized s (opt_recv_conf_rej s)"
  unfolding sized_def
proof (intro allI impI)
  fix lopt hdr w lopt' w' r
  assume "opt_recv_conf_rej s lopt hdr w = (lopt', w', r)"
  then show "lo_len lopt' = lo_len lopt \<and> kind_of (lo_data lopt') = kind_of (lo_data lopt) \<and> same_size s w w' \<and>
      lcp_opts (lcp_of w' s) = lcp_opts (lcp_of w s)"
    using same_size_nak(2) [of s w] auth_nak_opts(2) [of s w s] same_size_magic
    by (cases "lo_data lopt") (auto simp: opt_recv_conf_rej_def magic_recv_conf_rej_def case_prod_beta)
qed

lemma sized_nak: "sized s (opt_recv_conf_nak s)"
  unfolding sized_def
proof (intro allI impI)
  fix lopt hdr w lopt' w' r
  assume r: "opt_recv_conf_nak s lopt hdr w = (lopt', w', r)"
  have m: "same_size s w (fst (snd (magic_recv_conf_nak s x hdr w)))" "lcp_opts (lcp_of (fst (snd (magic_recv_conf_nak s x hdr w))) s) = lcp_opts (lcp_of w s)" for x
    using same_size_magic same_size_trans [OF same_size_draw same_size_magic] by (simp_all add: magic_recv_conf_nak_def Let_def case_prod_beta)
  show "lo_len lopt' = lo_len lopt \<and> kind_of (lo_data lopt') = kind_of (lo_data lopt) \<and> same_size s w w' \<and>
      lcp_opts (lcp_of w' s) = lcp_opts (lcp_of w s)"
  proof (cases "lo_data lopt")
    case (MagicOpt x)
    then show ?thesis using r m [of x] by (auto simp: opt_recv_conf_nak_def case_prod_beta)
  next
    case AuthOpt
    then show ?thesis using r same_size_nak(1) [of s w] auth_nak_opts(1) [of s w s] by (auto simp: opt_recv_conf_nak_def case_prod_beta)
  qed (use r in \<open>auto simp: opt_recv_conf_nak_def case_prod_beta\<close>)
qed

lemma sized_ack: "sized s (opt_recv_conf_ack E s)"
proof -
  have "same_size s w (upd_conn s (\<lambda>c. c\<lparr>c_mru := v\<rparr>) w)" "same_size s w (upd_conn s (\<lambda>c. c\<lparr>c_comp_prot := b\<rparr>) w)"
    "same_size s w (upd_conn s (\<lambda>c. c\<lparr>c_comp_ac := b\<rparr>) w)" for w v b by (rule same_size_conn; simp)+
  note k = this
  show ?thesis
    unfolding sized_def
  proof (intro allI impI)
    fix lopt hdr w lopt' w' r
    assume "opt_recv_conf_ack E s lopt hdr w = (lopt', w', r)"
    then show "lo_len lopt' = lo_len lopt \<and> kind_of (lo_data lopt') = kind_of (lo_data lopt) \<and> same_size s w w' \<and>
        lcp_opts (lcp_of w' s) = lcp_opts (lcp_of w s)"
      using k by (cases "lo_data lopt") (auto simp: opt_recv_conf_ack_def mru_recv_conf_ack_def pcomp_recv_conf_ack_def
          accomp_recv_conf_ack_def split: if_splits)
  qed
qed

lemma sized_step:
  assumes h: "sized s h" and f: "find_opt (lcp_opts (lcp_of w s)) x 0 = Some i"
    and r: "h (lcp_opts (lcp_of w s) ! i) hdr w = (lopt, v, r)"
  shows "same_size s w (set_opt s i lopt v)" "same_size s w (set_opt s i (lopt\<lparr>lo_state := q\<rparr>) v)"
proof -
  have v: "lo_len lopt = lo_len (lcp_opts (lcp_of w s) ! i)" "kind_of (lo_data lopt) = kind_of (lo_data (lcp_opts (lcp_of w s) ! i))"
    "same_size s w v" "lcp_opts (lcp_of v s) = lcp_opts (lcp_of w s)" using h r unfolding sized_def by blast+
  have i: "i < length (lcp_opts (lcp_of v s))" using find_opt_bound [OF f] v(4) by simp
  show "same_size s w (set_opt s i lopt v)" "same_size s w (set_opt s i (lopt\<lparr>lo_state := q\<rparr>) v)"
    by (rule same_size_trans [OF v(3) same_size_set_opt [OF i]]; use v in simp)+
qed

lemma same_size_answer: "sized s h \<Longrightarrow> same_size s w (fst (answer_opts h s os w res))"
proof (induction os arbitrary: w res)
  case (Cons hdr os)
  show ?case
  proof (cases "find_opt (lcp_opts (lcp_of w s)) (hdr ! 0) 0")
    case (Some i)
    obtain lopt v f where r: "h (lcp_opts (lcp_of w s) ! i) hdr w = (lopt, v, f)" by (metis prod_cases3)
    show ?thesis using same_size_trans [OF sized_step(1) [OF Cons.prems Some r] Cons.IH [OF Cons.prems]] Some r by simp
  qed (use Cons in simp)
qed simp

lemma same_size_judge: "judge_opts E s os w ret = (ros, w', r) \<Longrightarrow> same_size s w w'"
proof (induction E s os w ret arbitrary: ros w' r rule: judge_opts.induct)
  case (2 E s hdr hs w ret)
  show ?case
  proof (cases "find_opt (lcp_opts (lcp_of w s)) (hdr ! 0) 0")
    case None
    then show ?thesis using 2 by (auto split: prod.splits)
  next
    case (Some i)
    obtain lopt v q where h: "opt_recv_conf_req E s (lcp_opts (lcp_of w s) ! i) hdr w = (lopt, v, q)" by (metis prod_cases3)
    then show ?thesis
      using 2 (2) [OF Some h [symmetric] refl refl refl] 2 (3) Some same_size_trans [OF sized_step(2) [OF sized_req Some h]]
      by (auto simp: Let_def split: prod.splits)
  qed
qed simp

text \<open>Enough room for an option of a kind, given the authentication methods on offer.\<close>

definition fits :: "ppp_env \<Rightarrow> nat list \<Rightarrow> int \<Rightarrow> opt_kind \<Rightarrow> bool" where
  "fits E hs n k = (case k of KMru \<Rightarrow> 4 \<le> n | KMagic \<Rightarrow> 6 \<le> n | KPcomp \<Rightarrow> 2 \<le> n | KAccomp \<Rightarrow> 2 \<le> n
     | KAuth \<Rightarrow> 4 \<le> n \<and> (\<forall>h \<in> set hs. 4 + int (length (ah_conf_req (pe_auth_handlers E ! h))) \<le> n))"

text \<open>The methods on offer, by their number.\<close>

definition auth_hs :: "ppp_env \<Rightarrow> nat list" where
  "auth_hs E = [0..<(if conf_noauth (pe_conf E) \<noteq> 0 then 0 else length (pe_auth_handlers E))]"

definition room :: "ppp_env \<Rightarrow> sid \<Rightarrow> ppp_world \<Rightarrow> bool" where
  "room E s w \<longleftrightarrow> auth_bound s w \<and> (case size_core s w of (len, os, hs) \<Rightarrow>
     len = 6 + sum_list (map fst os) \<and> (\<forall>(n, k) \<in> set os. fits E hs n k \<and> (k = KAuth \<longrightarrow> hs = auth_hs E)))"

lemma room_same: "same_size s w w' \<Longrightarrow> room E s w \<Longrightarrow> room E s w'"
  by (simp add: room_def same_size_def)

lemma room_opt:
  assumes "room E s w" "lopt \<in> set (lcp_opts (lcp_of w s))"
  shows "fits E (map ad_handler (ao_list (auth_of w s))) (lo_len lopt) (kind_of (lo_data lopt))"
  using assms by (auto simp: room_def size_core_def)

lemma auth_req_length:
  assumes b: "auth_bound s w" and f: "fits E (map ad_handler (ao_list (auth_of w s))) n KAuth"
  shows "int (length (snd (auth_send_conf_req E s w))) \<le> n"
proof -
  let ?a = "auth_choose (auth_of w s)"
  let ?body = "\<lambda>i. ah_conf_req (pe_auth_handlers E ! ad_handler (ao_list (auth_of w s) ! i))"
  have n: "4 \<le> n" "\<And>h. h \<in> set (map ad_handler (ao_list (auth_of w s))) \<Longrightarrow> 4 + int (length (ah_conf_req (pe_auth_handlers E ! h))) \<le> n"
    using f unfolding fits_def by auto
  have "length (snd (auth_send_conf_req E s w)) = 0 \<or> (\<exists>i. ao_auth ?a = Some i \<and> length (snd (auth_send_conf_req E s w)) = 4 + length (?body i))"
    by (cases "ao_auth ?a") (simp_all add: auth_send_conf_req_def Let_def)
  moreover have "4 + int (length (?body i)) \<le> n" if "ao_auth ?a = Some i" for i
  proof (rule n(2))
    have "i < length (ao_list (auth_of w s))" by (rule auth_choose_bound [OF _ that]) (use b in \<open>simp add: auth_bound_def\<close>)
    then show "ad_handler (ao_list (auth_of w s) ! i) \<in> set (map ad_handler (ao_list (auth_of w s)))" by simp
  qed
  ultimately show ?thesis using n(1) by auto
qed

lemma opt_length:
  assumes b: "auth_bound s w" and f: "fits E (map ad_handler (ao_list (auth_of w s))) (lo_len lopt) (kind_of (lo_data lopt))"
  shows "int (length (snd (opt_send_conf_req E s lopt w))) \<le> lo_len lopt" "int (length (snd (opt_send_conf_nak E s lopt w))) \<le> lo_len lopt"
  using f auth_req_length [OF b, of E "lo_len lopt"]
  by (cases "lo_data lopt"; simp add: opt_send_conf_req_def opt_send_conf_nak_def mru_send_conf_req_def magic_send_conf_req_def
      pcomp_send_conf_req_def accomp_send_conf_req_def mru_send_conf_nak_def magic_send_conf_nak_def case_prod_beta
      fits_def u_write_be16_def u_write_be32_def)+

lemma fits_nonneg: "fits E hs n k \<Longrightarrow> 0 \<le> n"
  by (cases k) (simp_all add: fits_def)

lemma same_size_fits: "same_size s w w' \<Longrightarrow> map ad_handler (ao_list (auth_of w' s)) = map ad_handler (ao_list (auth_of w s))"
  by (simp add: same_size_def size_core_def)

lemma collect_req_length:
  assumes "auth_bound s w" "\<forall>lopt \<in> set os. fits E (map ad_handler (ao_list (auth_of w s))) (lo_len lopt) (kind_of (lo_data lopt))"
  shows "int (length (snd (collect_req E s os w))) \<le> sum_list (map lo_len os)"
  using assms
proof (induction os arbitrary: w)
  case (Cons lopt os)
  have f: "fits E (map ad_handler (ao_list (auth_of w s))) (lo_len lopt) (kind_of (lo_data lopt))" using Cons.prems by simp
  note k = same_size_opt_req(1) [of s w E lopt]
  have b: "auth_bound s (fst (opt_send_conf_req E s lopt w))" using k Cons.prems by (simp add: same_size_def)
  show ?case
    using opt_length(1) [OF Cons.prems(1) f] Cons.IH [OF b] Cons.prems(2) same_size_fits [OF k] by (simp add: case_prod_beta Let_def)
qed simp

lemma collect_nak_length:
  assumes "auth_bound s w" "\<forall>lopt \<in> set os. fits E (map ad_handler (ao_list (auth_of w s))) (lo_len lopt) (kind_of (lo_data lopt))"
  shows "int (length (snd (collect_nak E s os w))) \<le> sum_list (map lo_len os)"
  using assms
proof (induction os arbitrary: w)
  case (Cons lopt os)
  have f: "fits E (map ad_handler (ao_list (auth_of w s))) (lo_len lopt) (kind_of (lo_data lopt))" using Cons.prems by simp
  note k = same_size_opt_req(2) [of s w E lopt]
  have b: "auth_bound s (fst (opt_send_conf_nak E s lopt w))" using k Cons.prems by (simp add: same_size_def)
  show ?case
    using opt_length(2) [OF Cons.prems(1) f] Cons.IH [OF b] Cons.prems(2) same_size_fits [OF k] Cons.IH [OF Cons.prems(1)] fits_nonneg [OF f] by (simp add: case_prod_beta Let_def)
qed simp

lemma packet_length: "length (lcp_packet code i body) = 6 + length body"
  by (simp add: lcp_packet_def u_write_be16_def)

lemma room_fits:
  assumes "room E s w"
  shows "int (length (lcp_packet c i (snd (collect_req E s (lcp_opts (lcp_of w s)) w)))) \<le> lcp_conf_req_len (lcp_of w s)"
    "int (length (lcp_packet c i (snd (collect_nak E s (lcp_opts (lcp_of w s)) w)))) \<le> lcp_conf_req_len (lcp_of w s)"
proof -
  have "lcp_conf_req_len (lcp_of w s) = 6 + sum_list (map lo_len (lcp_opts (lcp_of w s)))" "auth_bound s w"
    using assms by (simp_all add: room_def size_core_def comp_def)
  then show "int (length (lcp_packet c i (snd (collect_req E s (lcp_opts (lcp_of w s)) w)))) \<le> lcp_conf_req_len (lcp_of w s)"
    "int (length (lcp_packet c i (snd (collect_nak E s (lcp_opts (lcp_of w s)) w)))) \<le> lcp_conf_req_len (lcp_of w s)"
    using collect_req_length [of s w "lcp_opts (lcp_of w s)" E] collect_nak_length [of s w "lcp_opts (lcp_of w s)" E] room_opt [OF assms] by (simp_all add: packet_length)
qed

text \<open>The options as \<^verbatim>\<open>lcp_options_init\<close> makes them.\<close>

definition handlers_sized :: "ppp_env \<Rightarrow> bool" where
  \<comment> \<open>an authentication method writes no more than it announced\<close>
  "handlers_sized E \<longleftrightarrow> (\<forall>h \<in> set (pe_auth_handlers E). int (length (ah_conf_req h)) \<le> ah_len h)"

definition auth_len :: "ppp_env \<Rightarrow> int" where
  "auth_len E = lo_len (fst (auth_init E 0 ppp_world0))"

lemma fold_max_ge: "(m :: int) \<le> fold (\<lambda>d m. if m < g d then g d else m) ds m"
proof (induction ds arbitrary: m)
  case (Cons d ds)
  have "m \<le> (if m < g d then g d else m)" by simp
  also have "\<dots> \<le> fold (\<lambda>d m. if m < g d then g d else m) ds (if m < g d then g d else m)" by (rule Cons.IH)
  finally show ?case by simp
qed simp

lemma fold_max_mem: "d \<in> set ds \<Longrightarrow> g d \<le> fold (\<lambda>d (m :: int). if m < g d then g d else m) ds m"
proof (induction ds arbitrary: m)
  case (Cons a ds)
  show ?case
  proof (cases "d = a")
    case True
    have "g a \<le> (if m < g a then g a else m)" by simp
    also have "\<dots> \<le> fold (\<lambda>d m. if m < g d then g d else m) ds (if m < g a then g a else m)" by (rule fold_max_ge)
    finally show ?thesis using True by simp
  qed (use Cons in simp)
qed simp

lemma auth_init_len:
  "lo_len (fst (auth_init E s w)) = auth_len E" "map ad_handler (ao_list (auth_of (snd (auth_init E s w)) s)) = auth_hs E"
  by (simp_all add: auth_init_def auth_len_def auth_hs_def Let_def comp_def map_nth)

lemma auth_len_fits:
  assumes "handlers_sized E"
  shows "fits E (auth_hs E) (auth_len E) KAuth"
proof -
  let ?hs = "if conf_noauth (pe_conf E) \<noteq> 0 then [] else pe_auth_handlers E"
  let ?ds = "map (\<lambda>i. \<lparr>ad_handler = i, ad_proto = ah_proto (?hs ! i), ad_state = LCP_OPT_NONE, ad_len = ah_len (?hs ! i)\<rparr>) [0..<length ?hs]"
  have e: "auth_len E = 4 + fold (\<lambda>d m. if m < ad_len d then ad_len d else m) ?ds 0" by (simp add: auth_len_def auth_init_def Let_def)
  have "4 + int (length (ah_conf_req (pe_auth_handlers E ! h))) \<le> auth_len E" if h: "h \<in> set (auth_hs E)" for h
  proof -
    have hs: "?hs = pe_auth_handlers E" "h < length (pe_auth_handlers E)" using h by (auto simp: auth_hs_def split: if_splits)
    let ?d = "\<lparr>ad_handler = h, ad_proto = ah_proto (?hs ! h), ad_state = LCP_OPT_NONE, ad_len = ah_len (?hs ! h)\<rparr>"
    have "?d \<in> set ?ds" using hs by auto
    from fold_max_mem [OF this, of ad_len 0] have "ah_len (pe_auth_handlers E ! h) \<le> auth_len E - 4" using hs e by simp
    moreover have "int (length (ah_conf_req (pe_auth_handlers E ! h))) \<le> ah_len (pe_auth_handlers E ! h)"
      using assms hs(2) by (simp add: handlers_sized_def)
    ultimately show ?thesis by simp
  qed
  moreover have "4 \<le> auth_len E" using fold_max_ge [of 0 ad_len ?ds] e by simp
  ultimately show ?thesis by (simp add: fits_def)
qed

text \<open>While the options are being set up.\<close>

definition filling :: "ppp_env \<Rightarrow> sid \<Rightarrow> ppp_world \<Rightarrow> bool" where
  "filling E s w \<longleftrightarrow> ao_auth (auth_of w s) = None \<and> lcp_conf_req_len (lcp_of w s) = 6 + sum_list (map lo_len (lcp_opts (lcp_of w s))) \<and>
     (\<forall>lopt \<in> set (lcp_opts (lcp_of w s)). if kind_of (lo_data lopt) = KAuth
        then lo_len lopt = auth_len E \<and> map ad_handler (ao_list (auth_of w s)) = auth_hs E
        else fits E [] (lo_len lopt) (kind_of (lo_data lopt)))"

lemma opt_init_filling:
  assumes w: "filling E s w" and r: "opt_init E s k w = (lopt, v)"
  shows "filling E s v \<and> (if kind_of (lo_data lopt) = KAuth
        then lo_len lopt = auth_len E \<and> map ad_handler (ao_list (auth_of v s)) = auth_hs E
        else fits E [] (lo_len lopt) (kind_of (lo_data lopt)))"
proof (cases "k = KAuth")
  case True
  have l: "lo_len lopt = auth_len E" "map ad_handler (ao_list (auth_of v s)) = auth_hs E" "kind_of (lo_data lopt) = KAuth"
    using auth_init_len [of E s w] r True by (auto simp: opt_init_def auth_init_def Let_def)
  have "ao_auth (auth_of v s) = ao_auth (auth_of w s)" "lcp_of v s = lcp_of w s" using r True by (auto simp: opt_init_def auth_init_def Let_def)
  then show ?thesis using w l unfolding filling_def by simp
next
  case False
  have "auth_of v s = auth_of w s" "lcp_opts (lcp_of v s) = lcp_opts (lcp_of w s)" "lcp_conf_req_len (lcp_of v s) = lcp_conf_req_len (lcp_of w s)"
    "fits E [] (lo_len lopt) (kind_of (lo_data lopt))" "kind_of (lo_data lopt) \<noteq> KAuth"
    using r False by (cases k; auto simp: opt_init_def mru_init_def magic_init_def pcomp_init_def accomp_init_def fits_def Let_def
        draw_magic_def starve_world_def split: option.splits)+
  then show ?thesis using w unfolding filling_def by simp
qed

lemma init_options_filling: "filling E s w \<Longrightarrow> filling E s (init_options E s ks w)"
proof (induction ks arbitrary: w)
  case (Cons k ks)
  obtain lopt v where r: "opt_init E s k w = (lopt, v)" by fastforce
  let ?u = "upd_lcp s (\<lambda>l. l\<lparr>lcp_opts := lcp_opts l @ [lopt], lcp_conf_req_len := lcp_conf_req_len l + lo_len lopt\<rparr>) v"
  have "filling E s ?u" using opt_init_filling [OF Cons.prems r] unfolding filling_def by (simp add: ball_Un)
  then show ?case using Cons.IH r by simp
qed simp

lemma options_init_room:
  assumes "ao_auth (auth_of w s) = None" "handlers_sized E"
  shows "room E s (lcp_options_init E ks s w)"
proof -
  let ?w = "lcp_options_init E ks s w"
  have "filling E s (upd_lcp s (\<lambda>l. l\<lparr>lcp_opts := [], lcp_conf_req_len := 6\<rparr>) w)" using assms(1) by (simp add: filling_def)
  then have f: "filling E s ?w" unfolding lcp_options_init_def by (rule init_options_filling)
  have "fits E (map ad_handler (ao_list (auth_of ?w s))) (lo_len lopt) (kind_of (lo_data lopt))" if "lopt \<in> set (lcp_opts (lcp_of ?w s))" for lopt
  proof (cases "kind_of (lo_data lopt) = KAuth")
    case True
    then have "lo_len lopt = auth_len E" "map ad_handler (ao_list (auth_of ?w s)) = auth_hs E" using f that by (auto simp: filling_def)
    then show ?thesis using True auth_len_fits [OF assms(2)] by simp
  next
    case False
    then have "fits E [] (lo_len lopt) (kind_of (lo_data lopt))" using f that by (auto simp: filling_def)
    then show ?thesis using False by (cases "kind_of (lo_data lopt)") (simp_all add: fits_def)
  qed
  moreover have "kind_of (lo_data lopt) = KAuth \<longrightarrow> map ad_handler (ao_list (auth_of ?w s)) = auth_hs E" if "lopt \<in> set (lcp_opts (lcp_of ?w s))" for lopt
    using f that by (auto simp: filling_def)
  ultimately show ?thesis using f by (auto simp: room_def size_core_def filling_def auth_bound_def comp_def)
qed

section \<open>An exchange of packets\<close>

inductive lcp_talk :: "ppp_env \<Rightarrow> opt_kind list \<Rightarrow> sid \<Rightarrow> ppp_world \<Rightarrow> bool" for E ks s where
  talk_init: "ao_auth (auth_of w s) = None \<Longrightarrow> lcp_talk E ks s (lcp_options_init E ks s w)"
| talk_send_req: "lcp_talk E ks s w \<Longrightarrow> lcp_talk E ks s (fst (lcp_send_conf_req E s w))"
| talk_send_nak: "lcp_talk E ks s w \<Longrightarrow> lcp_talk E ks s (lcp_send_conf_nak E s w)"
| talk_recv_req: "lcp_talk E ks s w \<Longrightarrow> lcp_talk E ks s (fst (lcp_recv_conf_req E s data sz w))"
| talk_recv_ack: "lcp_talk E ks s w \<Longrightarrow> lcp_talk E ks s (fst (lcp_recv_conf_ack E s data sz w))"
| talk_recv_nak: "lcp_talk E ks s w \<Longrightarrow> lcp_talk E ks s (fst (lcp_recv_conf_nak s data sz w))"
| talk_recv_rej: "lcp_talk E ks s w \<Longrightarrow> lcp_talk E ks s (fst (lcp_recv_conf_rej s data sz w))"

lemma same_size_recv_answer: "sized s h \<Longrightarrow> same_size s w (fst (recv_answer h s data sz w))"
  using same_size_answer [of s h w] by (auto simp: recv_answer_def case_prod_beta split: parse.split)

lemma same_size_recv_req: "same_size s w (fst (lcp_recv_conf_req E s data sz w))"
proof -
  let ?u = "upd_lcp s (\<lambda>l. l\<lparr>lcp_ropt_len := int sz\<rparr>) w"
  have u: "same_size s w ?u" by (rule same_size_lcp) simp_all
  have r: "same_size s v (upd_lcp s (\<lambda>l. l\<lparr>lcp_ropt_list := x\<rparr>) v)" for v x by (rule same_size_lcp) simp_all
  define v where "v = upd_lcp s (\<lambda>l. l\<lparr>lcp_opts := map (\<lambda>o'. o'\<lparr>lo_state := LCP_OPT_NONE\<rparr>) (lcp_opts l)\<rparr>) ?u"
  have v: "same_size s ?u v" unfolding v_def by (rule same_size_lcp) simp_all
  show ?thesis
  proof (cases "split_opts data sz")
    case (Ok x)
    obtain os bad where x: "x = (os, bad)" by fastforce
    obtain ros y q where j: "judge_opts E s os v 1 = (ros, y, q)" by (metis prod_cases3)
    have "same_size s w (upd_lcp s (\<lambda>l. l\<lparr>lcp_ropt_list := ros\<rparr>) y)"
      by (rule same_size_trans [OF same_size_trans [OF same_size_trans [OF u v] same_size_judge [OF j]] r])
    moreover have "same_size s w (upd_lcp s (\<lambda>l. l\<lparr>lcp_ropt_list := z\<rparr>) ?u)" for z by (rule same_size_trans [OF u r])
    ultimately show ?thesis
      unfolding lcp_recv_conf_req_def Ok x using j
      by (cases bad) (simp_all only: Let_def parse.case prod.case bool.case fst_conv v_def [symmetric])
  qed (simp_all add: lcp_recv_conf_req_def same_size_trans [OF u])
qed

lemma talk_room:
  assumes "lcp_talk E ks s w" "handlers_sized E"
  shows "room E s w"
  using assms(1)
proof induction
  case (talk_init w)
  then show ?case by (rule options_init_room [OF _ assms(2)])
next
  case (talk_send_req w)
  have "same_size s w (fst (lcp_send_conf_req E s w))"
    using same_size_trans [OF same_size_collect_req same_size_send] by (simp add: lcp_send_conf_req_def case_prod_beta)
  then show ?case using talk_send_req.IH by (rule room_same)
next
  case (talk_send_nak w)
  have "same_size s w (lcp_send_conf_nak E s w)"
    using same_size_trans [OF same_size_collect_nak same_size_send] by (simp add: lcp_send_conf_nak_def case_prod_beta)
  then show ?case using talk_send_nak.IH by (rule room_same)
next
  case (talk_recv_req w data sz)
  show ?case by (rule room_same [OF same_size_recv_req talk_recv_req.IH])
next
  case (talk_recv_ack w data sz)
  show ?case unfolding lcp_recv_conf_ack_def by (rule room_same [OF same_size_recv_answer [OF sized_ack] talk_recv_ack.IH])
next
  case (talk_recv_nak w data sz)
  show ?case unfolding lcp_recv_conf_nak_def by (rule room_same [OF same_size_recv_answer [OF sized_nak] talk_recv_nak.IH])
next
  case (talk_recv_rej w data sz)
  show ?case unfolding lcp_recv_conf_rej_def by (rule room_same [OF same_size_recv_answer [OF sized_rej] talk_recv_rej.IH])
qed

section \<open>Well-formed requests\<close>

lemma len_field:
  "n \<le> 251 \<Longrightarrow> unat (4 + of_nat n :: u8) = 4 + n" "n \<le> 65531 \<Longrightarrow> unat (4 + of_nat n :: u16) = 4 + n"
proof -
  have e: "(4 + of_nat n :: u8) = of_nat (4 + n)" "(4 + of_nat n :: u16) = of_nat (4 + n)" by simp_all
  show "n \<le> 251 \<Longrightarrow> unat (4 + of_nat n :: u8) = 4 + n" "n \<le> 65531 \<Longrightarrow> unat (4 + of_nat n :: u16) = 4 + n"
    unfolding e by (simp_all only: unat_of_nat) simp_all
qed

lemma auth_req_bytes:
  assumes b: "auth_bound s w" and hs: "map ad_handler (ao_list (auth_of w s)) = auth_hs E"
    and h: "\<forall>h \<in> set (pe_auth_handlers E). length (ah_conf_req h) \<le> 251"
  shows "snd (auth_send_conf_req E s w) = [] \<or> wf_opt (snd (auth_send_conf_req E s w)) \<and> snd (auth_send_conf_req E s w) ! 0 = CI_AUTH"
proof -
  let ?a = "auth_choose (auth_of w s)"
  let ?body = "\<lambda>i. ah_conf_req (pe_auth_handlers E ! ad_handler (ao_list (auth_of w s) ! i))"
  have "snd (auth_send_conf_req E s w) = [] \<or> (\<exists>i. ao_auth ?a = Some i \<and> snd (auth_send_conf_req E s w) =
      [CI_AUTH, of_nat (4 + length (?body i))] @ u_write_be16 (ad_proto (ao_list (auth_of w s) ! i)) @ ?body i)"
    by (cases "ao_auth ?a") (simp_all add: auth_send_conf_req_def Let_def)
  moreover have "length (?body i) \<le> 251" if "ao_auth ?a = Some i" for i
  proof -
    have "i < length (ao_list (auth_of w s))" by (rule auth_choose_bound [OF _ that]) (use b in \<open>simp add: auth_bound_def\<close>)
    then have "ad_handler (ao_list (auth_of w s) ! i) \<in> set (auth_hs E)" unfolding hs [symmetric] by simp
    then show ?thesis using h by (auto simp: auth_hs_def split: if_splits)
  qed
  ultimately show ?thesis by (auto simp: wf_opt_def len_field)
qed

lemma opt_req_bytes:
  assumes b: "auth_bound s w" and hs: "kind_of (lo_data lopt) = KAuth \<Longrightarrow> map ad_handler (ao_list (auth_of w s)) = auth_hs E"
    and h: "\<forall>h \<in> set (pe_auth_handlers E). length (ah_conf_req h) \<le> 251"
  shows "snd (opt_send_conf_req E s lopt w) = [] \<or>
    wf_opt (snd (opt_send_conf_req E s lopt w)) \<and> snd (opt_send_conf_req E s lopt w) ! 0 \<in> {CI_MRU, CI_MAGIC, CI_PCOMP, CI_ACCOMP, CI_AUTH}"
  using auth_req_bytes [OF b hs h]
  by (cases "lo_data lopt") (auto simp: opt_send_conf_req_def mru_send_conf_req_def magic_send_conf_req_def pcomp_send_conf_req_def
      accomp_send_conf_req_def wf_opt_def)

lemma collect_req_bytes:
  assumes "auth_bound s w" "\<forall>lopt \<in> set os. kind_of (lo_data lopt) = KAuth \<longrightarrow> map ad_handler (ao_list (auth_of w s)) = auth_hs E"
    and h: "\<forall>h \<in> set (pe_auth_handlers E). length (ah_conf_req h) \<le> 251"
  shows "\<exists>bs. snd (collect_req E s os w) = concat bs \<and> (\<forall>b \<in> set bs. wf_opt b \<and> b ! 0 \<in> {CI_MRU, CI_MAGIC, CI_PCOMP, CI_ACCOMP, CI_AUTH})"
  using assms(1,2)
proof (induction os arbitrary: w)
  case Nil
  show ?case by (rule exI [of _ "[]"]) simp
next
  case (Cons lopt os)
  let ?v = "fst (opt_send_conf_req E s lopt w)" and ?b = "snd (opt_send_conf_req E s lopt w)"
  note k = same_size_opt_req(1) [of s w E lopt]
  have "auth_bound s ?v" using k Cons.prems(1) by (simp add: same_size_def)
  then obtain bs where bs: "snd (collect_req E s os ?v) = concat bs" "\<forall>b \<in> set bs. wf_opt b \<and> b ! 0 \<in> {CI_MRU, CI_MAGIC, CI_PCOMP, CI_ACCOMP, CI_AUTH}"
    using Cons.IH [of ?v] Cons.prems(2) same_size_fits [OF k] by auto
  have e: "snd (collect_req E s (lopt # os) w) = ?b @ concat bs" using bs(1) by (simp add: case_prod_beta)
  have "?b = [] \<or> wf_opt ?b \<and> ?b ! 0 \<in> {CI_MRU, CI_MAGIC, CI_PCOMP, CI_ACCOMP, CI_AUTH}"
    by (rule opt_req_bytes [OF Cons.prems(1) _ h]) (use Cons.prems(2) in simp)
  then show ?case
  proof
    assume "?b = []"
    then show ?thesis using e bs by (intro exI [of _ bs]) simp
  next
    assume "wf_opt ?b \<and> ?b ! 0 \<in> {CI_MRU, CI_MAGIC, CI_PCOMP, CI_ACCOMP, CI_AUTH}"
    then show ?thesis using e bs by (intro exI [of _ "?b # bs"]) simp
  qed
qed

lemma room_auth:
  assumes "room E s w" "lopt \<in> set (lcp_opts (lcp_of w s))" "kind_of (lo_data lopt) = KAuth"
  shows "map ad_handler (ao_list (auth_of w s)) = auth_hs E"
  using assms by (force simp: room_def size_core_def)

lemma packet_fields:
  assumes "length body \<le> 65531"
  shows "unat (u_read_be16 (drop 4 (lcp_packet c i body))) = 4 + length body" "drop 6 (lcp_packet c i body) = body"
    "lcp_packet c i body ! 2 = c" "lcp_packet c i body ! 3 = i" "u_read_be16 (lcp_packet c i body) = PPP_LCP"
proof -
  have "drop 4 (lcp_packet c i body) = u_write_be16 (of_nat (4 + length body)) @ body" by (simp add: lcp_packet_def u_write_be16_def)
  then show "unat (u_read_be16 (drop 4 (lcp_packet c i body))) = 4 + length body"
    using assms by (simp only: u_read_write_be16) (simp add: len_field)
  show "drop 6 (lcp_packet c i body) = body" "lcp_packet c i body ! 2 = c" "lcp_packet c i body ! 3 = i"
    by (simp_all add: lcp_packet_def u_write_be16_def)
  show "u_read_be16 (lcp_packet c i body) = PPP_LCP" unfolding lcp_packet_def by (rule u_read_write_be16)
qed

end
