(* ===== verification/PppProps.thy ===== *)
theory PppProps
  imports PppReach
begin

text \<open>
  What holds after every history of sessions. A history is a sequence of the events of
  \<open>ppp_op\<close>, in any order and for any number of sessions; it starts with no session. The layers are
  those of a list \<open>ls\<close> that the modules have registered. The outside (event handlers, the
  control module, authentication methods, network protocols) keeps the state that belongs to
  the modelled files, which is \<open>frame_env\<close>. Calls nest at most nine deep.
\<close>

definition base_conf :: ppp_conf where
  "base_conf = \<lparr>conf_fsm = \<lparr>conf_max_terminate = 2, conf_max_configure = 10, conf_max_failure = 10\<rparr>, conf_unit_cache = 0,
     conf_unit_preallocate = 0, conf_echo_interval = 20, conf_echo_failure = 3, conf_echo_timeout = 0, conf_mtu = 1400,
     conf_mru = 1400, conf_min_mtu = 100, conf_max_mtu = 1500, conf_pcomp = 0, conf_accomp = 0, conf_noauth = 0,
     conf_ctrl_max_mtu = 1492\<rparr>"

definition base_kernel :: ppp_kernel where
  "base_kernel = \<lparr>k_getchan = True, k_open_chan = 4, k_attach = True, k_open_unit = 5, k_newunit = Some 0, k_nonblock = True,
     k_connect = True, k_ifindex = Some 7, k_rename = True, k_set_mtu = True, k_set_unit_mru = True, k_set_chan_mru = True, k_flags = True\<rparr>"

definition base_ses :: "ppp_world ses_env" where
  "base_ses = \<lparr>env_conf = \<lparr>conf_sid_ucase = False, conf_single_session = -1, conf_single_session_ignore_case = 0,
     conf_sid_source_seq = True, conf_session_timeout = 0\<rparr>, env_time = 100, env_random = [], env_get_ifindex = (\<lambda>_. 7),
     env_link_stats = (\<lambda>_. None), env_ifup = (\<lambda>_ w. w), env_ifdown = (\<lambda>_ w. w), env_event = (\<lambda>_ _ w. w), env_put_ipv4 = (\<lambda>_ w. w),
     env_put_ipv6 = (\<lambda>_ w. w), env_hooks_busy = (\<lambda>_. False), env_hooks_terminate = (\<lambda>w. w), ctrl_finished = (\<lambda>_ w. w),
     ctrl_terminate = (\<lambda>_ _ w. (w, False))\<rparr>"

text \<open>An outside world that does nothing, with one authentication method.\<close>

definition base_env :: ppp_env where
  "base_env = \<lparr>pe_conf = base_conf, pe_kernel = base_kernel, pe_ses = base_ses, pe_stack_garbage = 0,
     pe_auth_handlers = [\<lparr>ah_proto = 0xc023, ah_len = 0, ah_conf_req = [], ah_restart = False\<rparr>],
     pe_terminate = (\<lambda>_ _ _ w. w), pe_layer_started = (\<lambda>_ _ w. w), pe_layer_finished = (\<lambda>_ _ w. w),
     pe_layer_init = (\<lambda>_ _ w. Some (w, False, False)), pe_layer_start = (\<lambda>_ _ w. (w, False)), pe_layer_finish = (\<lambda>_ _ w. w),
     pe_layer_free = (\<lambda>_ _ w. w), pe_recv = (\<lambda>_ _ w. w), pe_recv_proto_rej = (\<lambda>_ _ w. w), pe_auth_start = (\<lambda>_ _ w. w),
     pe_auth_finish = (\<lambda>_ _ w. w), pe_auth_restart = (\<lambda>_ _ w. (w, True))\<rparr>"

lemma base_env_frame: "frame_env base_env"
  by (simp add: frame_env_def frame_ses_def keeps_def base_env_def base_ses_def)

lemma base_env_ok: "KAuth \<in> set opts \<Longrightarrow> env_ok na mo opts base_env"
  by (simp add: env_ok_def base_env_frame) (simp add: base_env_def base_conf_def base_kernel_def mru_ok_def)

definition one_up :: ppp_world where
  "one_up = run_op (ppp_sys 9 [KMru, KMagic, KAuth] base_env) (registered [L_LCP, L_AUTH, L_IPCP]) (Establish 0 3 [1, 2, 3]) ppp_world0"

lemma one_up_reach: "ppp_reach 9 [KMru, KMagic, KAuth] (registered [L_LCP, L_AUTH, L_IPCP]) (\<lambda>B. B = base_env) one_up"
  unfolding one_up_def by (rule reach_op [OF reach_start]) (simp_all add: ppp_world0_def ap_session_init_def)

lemma sys9: "ppp_sys 9 opts B = link_env opts B (ppp_sys 8 opts B)"
  using ppp_sys.simps(2) [of 8 opts B] by simp

lemma registered3: "registered [L_LCP, L_AUTH, L_IPCP] = [(0, [L_LCP]), (1, [L_AUTH]), (2, [L_IPCP])]"
  by (simp add: registered_def get_layer_order_def)

lemma one_up_run:
  "stat_starting one_up = 1 \<and> ses_list one_up = [0] \<and> fired one_up = [(EV_SES_STARTING, 0)] \<and>
   map (map ld_layer) (c_layers (conns one_up 0)) = [[L_LCP], [L_AUTH], [L_IPCP]] \<and> c_layers (conns one_up 1) = []"
  unfolding one_up_def sys9 registered3
  by (simp del: ppp_sys.simps add: run_establish_def ppp_init_def establish_ppp_def link_env_def Let_def base_env_def base_kernel_def
      base_conf_def base_ses_def ppp_world0_def upd_conn_def upd_ses_def upd_lcp_def upd_auth_def lcp_layer_init_def ppp_conn0_def auth_layer_init_def
      ap_session_starting_def ap_session_init_def layer_data0_def generate_sessionid_def ap_session_stat_inc_def triton_event_fire_def
      start_first_layer_def upd_layer_def lcp_layer_start_def lcp_options_init_def opt_init_def mru_init_def magic_init_def auth_init_def
      draw_magic_def mru_limit_def ppp_fsm_init_def ppp_fsm_lower_up_def ppp_fsm_open_def state_of_def lcp_ops_def conf_req_call_def set_state_def
      upd_fsm_def dec_counter_def init_req_counter_def lcp_send_conf_req_def opt_send_conf_req_def mru_send_conf_req_def magic_send_conf_req_def
      auth_send_conf_req_def auth_choose_def ppp_chan_send_def)

lemma one_up_stat: "stat_starting one_up = 1 \<and> ses_list one_up = [0]" and one_up_fired: "fired one_up = [(EV_SES_STARTING, 0)]"
  and one_up_layers: "\<exists>d \<in> set (concat (c_layers (conns one_up 0))). ld_layer d = L_IPCP"
  using one_up_run by (auto simp: map_eq_Cons_conv)

section \<open>Properties\<close>



lemma count_split:
  assumes "\<And>x. x \<in> set xs \<Longrightarrow> f x = a \<or> f x = b \<or> f x = c" "a \<noteq> b" "b \<noteq> c" "a \<noteq> c"
  shows "length xs = length (filter (\<lambda>x. f x = a) xs) + length (filter (\<lambda>x. f x = b) xs) + length (filter (\<lambda>x. f x = c) xs)"
  using assms by (induction xs) auto

lemma listed_state:
  assumes "ppp_inv na mo X w" "s \<in> set (ses_list w)"
  shows "ses_state (sessions w s) = AP_STATE_STARTING \<or> ses_state (sessions w s) = AP_STATE_ACTIVE \<or> ses_state (sessions w s) = AP_STATE_FINISHING"
  using invD(3) [OF assms(1), of s] assms(2) by (cases "ses_state (sessions w s)") (simp_all add: ses_ok_def Let_def listed_def)

definition in_state :: "ap_state \<Rightarrow> ppp_world \<Rightarrow> nat" where
  "in_state st w = length (filter (\<lambda>s. ses_state (sessions w s) = st) (ses_list w))"

text \<open>
  C8. In every history the three counters count: they are the numbers of listed sessions that
  start, are active and finish, every listed session is in one of these states, and no session is
  listed twice. A soft shutdown, which waits for the counters to be zero, so waits for exactly
  the sessions there are.
\<close>

theorem session_counters_exact:
  assumes "ppp_reach n opts (registered ls) P w" "\<forall>B. P B \<longrightarrow> frame_env B"
    and "9 \<le> n" "distinct ls" "{L_LCP, L_AUTH} \<subseteq> set ls"
  shows "stat_starting w = of_nat (in_state AP_STATE_STARTING w) \<and> stat_active w = of_nat (in_state AP_STATE_ACTIVE w) \<and>
    stat_finishing w = of_nat (in_state AP_STATE_FINISHING w) \<and> distinct (ses_list w) \<and>
    length (ses_list w) = in_state AP_STATE_STARTING w + in_state AP_STATE_ACTIVE w + in_state AP_STATE_FINISHING w"
proof -
  have inv: "ppp_inv False False {} w" using reach_inv [of n opts ls P w False False] assms by (simp add: env_ok_def)
  note st = listed_state [OF inv]
  have "filter (\<lambda>s. ses_state (sessions w s) \<in> {AP_STATE_STARTING, AP_STATE_RESTORE}) (ses_list w) =
      filter (\<lambda>s. ses_state (sessions w s) = AP_STATE_STARTING) (ses_list w)"
    by (rule filter_cong) (use st in \<open>auto dest: st\<close>)
  then show ?thesis
    using invD(2) [OF inv] count_split [of "ses_list w" "\<lambda>s. ses_state (sessions w s)", OF st]
    by (simp add: stat_ok_def count_in_def in_state_def)
qed

theorem session_counters_exact_witness: "stat_starting one_up = of_nat (in_state AP_STATE_STARTING one_up) \<and> in_state AP_STATE_STARTING one_up \<le> 1 \<and> stat_starting one_up = 1"
  using session_counters_exact [OF one_up_reach] base_env_frame one_up_stat by simp

text \<open>
  C1. If the configuration demands authentication and a method is loaded, then in every history,
  as long as a session has not been reported as authorized, its authentication layer does not
  count as started and none of its network protocols is started.
\<close>

theorem network_only_after_authorization:
  assumes "ppp_reach n opts (registered ls) P w"
    and "\<forall>B. P B \<longrightarrow> frame_env B \<and> conf_noauth (pe_conf B) = 0 \<and> pe_auth_handlers B \<noteq> []" "KAuth \<in> set opts"
    and "9 \<le> n" "distinct ls" "{L_LCP, L_AUTH} \<subseteq> set ls"
    and "(EV_SES_AUTHORIZED, s) \<notin> set (fired w)" "d \<in> set (concat (c_layers (conns w s)))"
  shows "(ld_layer d = L_AUTH \<longrightarrow> \<not> ld_started d) \<and> (net_layer (ld_layer d) \<longrightarrow> \<not> ld_starting d)"
proof -
  have inv: "ppp_inv True False {} w" using reach_inv [of n opts ls P w True False] assms by (simp add: env_ok_def)
  have "ev_count w EV_SES_AUTHORIZED s = 0" using assms(7) by (simp add: ev_count_def)
  then have "\<not> list_ex past_auth (concat (c_layers (conns w s)))" using invD(4) [OF inv, of s] by (simp add: conn_ok_def Let_def)
  then show ?thesis using assms(8) by (auto simp: list_ex_iff past_auth_def)
qed

theorem network_only_after_authorization_witness:
  "\<exists>d \<in> set (concat (c_layers (conns one_up 0))). ld_layer d = L_IPCP \<and> \<not> ld_starting d"
proof -
  obtain d where d: "d \<in> set (concat (c_layers (conns one_up 0)))" "ld_layer d = L_IPCP" using one_up_layers by auto
  have "(EV_SES_AUTHORIZED, 0) \<notin> set (fired one_up)" by (simp add: one_up_fired)
  from network_only_after_authorization [OF one_up_reach _ _ _ _ _ this d(1)] d base_env_ok [of "[KAuth]" True False]
  show ?thesis by (auto simp: env_ok_def net_layer_def)
qed





lemma terminate_hard_gone:
  assumes c: "ctrl_contract na mo e" and fr: "frame_ses e" and inv: "ppp_inv na mo {} w" and s: "listed w s"
  shows "\<not> listed (ap_session_terminate e s cause True w) s"
proof -
  define f :: "ap_session \<Rightarrow> ap_session" where "f = (\<lambda>ses. ses\<lparr>ses_stop_time := (if ses_stop_time ses = 0 then env_time e else ses_stop_time ses),
      ses_terminate_cause := (if ses_terminate_cause ses = TERM_NONE then cause else ses_terminate_cause ses), ses_timer := False\<rparr>)"
  define u where "u = upd_ses s f w"
  have u: "ppp_inv na mo {} u" unfolding u_def by (rule inv_ses_timer_off [OF inv]) (simp add: f_def ses_core_def)
  have us: "listed u s" "ses_terminating (sessions u s) = ses_terminating (sessions w s)" "\<not> ses_timer (sessions u s)"
    using s by (simp_all add: u_def f_def)
  have nt: "\<not> ses_terminated (sessions w s)" using invD(3) [OF inv, of s] s by (simp add: ses_ok_def Let_def)
  have gone: "\<not> listed (fst (ctrl_terminate e s True x)) s \<and> \<not> snd (ctrl_terminate e s True x)"
    if "ppp_inv na mo {} x" "listed x s" "ses_terminating (sessions x s)" for x
    using ctrl_hard [OF c that] by (cases "ctrl_terminate e s True x") simp
  show ?thesis
  proof (cases "ses_terminating (sessions w s)")
    case True
    then have "ap_session_terminate e s cause True w = fst (ctrl_terminate e s True u)"
      using nt us by (simp add: ap_session_terminate_def Let_def flip: f_def u_def)
    then show ?thesis using gone [OF u us(1)] us(2) True by simp
  next
    case False
    define x where "x = fst (ap_session_read_stats e s (to_finishing s u))"
    have k: "kept (to_finishing s u) x" by (simp add: x_def)
    have x: "ppp_inv na mo {} x" using to_finishing_inv [OF u us(1)] us False kept_inv [OF k] by simp
    have xs: "listed x s" "ses_terminating (sessions x s)" using us by (simp_all add: kept_listed [OF k] kept_ses [OF k] to_finishing_sel)
    have "ap_session_terminate e s cause True w = fst (ctrl_terminate e s True x)"
      using nt False us(2) gone [OF x xs]
      by (cases "ctrl_terminate e s True x") (simp add: ap_session_terminate_def Let_def x_def to_finishing_def flip: f_def u_def)
    then show ?thesis using gone [OF x xs] by simp
  qed
qed

text \<open>
  C18. After every history, telling a listed session to terminate hard ends it within the same
  event: it is off the list, its descriptors are closed, its timers are off and its layers freed.
\<close>

theorem hard_terminate_ends:
  assumes "ppp_reach n opts (registered ls) P w" "\<forall>B. P B \<longrightarrow> frame_env B" "P B"
    and "9 \<le> n" "distinct ls" "{L_LCP, L_AUTH} \<subseteq> set ls" "s \<in> set (ses_list w)"
    and "w' = run_op (ppp_sys n opts B) (registered ls) (Terminate s cause True) w"
  shows "s \<notin> set (ses_list w') \<and> c_fd (conns w' s) = -1 \<and> c_unit_fd (conns w' s) < 0 \<and> c_layers (conns w' s) = [] \<and>
    \<not> restart_timer (lcp_fsm (lcp_of w' s)) \<and> \<not> lcp_echo_timer (lcp_of w' s) \<and> \<not> broken w'"
proof -
  have inv: "ppp_inv False False {} w" using reach_inv [of n opts ls P w False False] assms by (simp add: env_ok_def)
  have "ppp_reach n opts (registered ls) P w'" unfolding assms(8) by (rule reach_op [OF assms(1,3)]) (use assms(7) in simp)
  then have inv': "ppp_inv False False {} w'" using reach_inv [of n opts ls P w' False False] assms(2,4-6) by (simp add: env_ok_def)
  obtain m where "n = 5 + m" using assms(4) le_Suc_ex [of 5 n] by auto
  then have m: "n = Suc (Suc (Suc (Suc (Suc m))))" by simp
  let ?e = "pe_ses (ppp_sys (Suc (Suc (Suc (Suc m)))) opts B)"
  have e: "w' = ap_session_terminate ?e s cause True w"
    unfolding assms(8) m ppp_sys.simps(2) [of "Suc (Suc (Suc (Suc m)))"] by (simp add: link_env_def del: ppp_sys.simps)
  have fe: "frame_env B" using assms(2,3) by simp
  have li: "listed w s" using assms(7) by (simp add: listed_def)
  have "\<not> listed w' s" unfolding e by (rule terminate_hard_gone [OF sys_ctrl [OF fe] sys_frame [OF fe] inv li])
  then show ?thesis using invD(5) [OF inv', of s] invD(1) [OF inv'] by (simp add: settled_def quiet_def listed_def)
qed

theorem hard_terminate_ends_witness:
  "0 \<notin> set (ses_list (run_op (ppp_sys 9 [KMru, KMagic, KAuth] base_env) (registered [L_LCP, L_AUTH, L_IPCP])
     (Terminate 0 TERM_ADMIN_RESET True) one_up))"
  using hard_terminate_ends [OF one_up_reach _ refl _ _ _ _ refl, of 0 TERM_ADMIN_RESET] base_env_frame one_up_stat
  by (simp del: ppp_sys.simps run_op.simps)

section \<open>A handler that outlives its unit\<close>

text \<open>
  If setting the MTU or MRU of an already connected unit fails, the unit is closed while its
  read handler stays registered. Tearing the session down then takes the branch for sessions without a unit, which
  unregisters the channel's handler only.
\<close>

theorem unit_handler_left:
  assumes "0 \<le> c_unit_fd (conns w s)" "c_unit_hnd (conns w s)" "setup_ppp_mru E s w"
  shows "snd (connect_ppp_channel E s w) \<and> c_unit_fd (conns (fst (connect_ppp_channel E s w)) s) = -1 \<and>
    c_unit_hnd (conns (fst (connect_ppp_channel E s w)) s) \<and>
    destablish_ppp E s (fst (connect_ppp_channel E s w)) =
      destroy_ppp_channel E s (ap_session_finished (pe_ses E) s (fst (connect_ppp_channel E s w)))"
  using assms by (simp add: connect_ppp_channel_def close_unit_def destablish_ppp_def)

theorem unit_handler_left_witness:
  "c_unit_hnd (conns (fst (connect_ppp_channel (base_env\<lparr>pe_kernel := base_kernel\<lparr>k_set_mtu := False\<rparr>\<rparr>) 0
     (upd_conn 0 (\<lambda>c. c\<lparr>c_unit_fd := 7, c_unit_hnd := True, c_mtu := 1400\<rparr>) ppp_world0))) 0)"
  using unit_handler_left [of "upd_conn 0 (\<lambda>c. c\<lparr>c_unit_fd := 7, c_unit_hnd := True, c_mtu := 1400\<rparr>) ppp_world0" 0
      "base_env\<lparr>pe_kernel := base_kernel\<lparr>k_set_mtu := False\<rparr>\<rparr>"]
  by (simp add: setup_ppp_mru_def)

end
