(* ===== verification/LcpProps.thy ===== *)
theory LcpProps
  imports LcpPackets PppProps
begin

text \<open>
  Properties of LCP's packets and options.
\<close>

section \<open>Parsing\<close>

text \<open>
  C22. Cutting the options of a packet apart never reads outside the packet, and it succeeds with
  the list \<open>os\<close> exactly if \<open>os\<close> is the packet's only decomposition into options whose length byte is
  their length.
\<close>

theorem lcp_option_parser_exact:
  assumes "sz \<le> length data"
  shows "(\<exists>os bad. split_opts data sz = Ok (os, bad)) \<and>
    (split_opts data sz = Ok (os, False) \<longleftrightarrow> concat os = take sz data \<and> (\<forall>b \<in> set os. wf_opt b))"
  using split_opts_safe [OF assms] split_exact [OF assms] by blast

theorem lcp_option_parser_exact_witness:
  "split_opts [1, 4, 5, 220, 5, 6, 0, 0, 0, 1, 9] 10 = Ok ([[1, 4, 5, 220], [5, 6, 0, 0, 0, 1]], False)"
proof -
  have "(10 :: nat) \<le> length [1, 4, 5, 220, 5, 6, 0, 0, 0, 1, 9 :: u8]" by simp
  from lcp_option_parser_exact [OF this, of "[[1, 4, 5, 220], [5, 6, 0, 0, 0, 1]]"] show ?thesis by (simp add: wf_opt_def)
qed

section \<open>Verdicts\<close>

definition worst :: "int list \<Rightarrow> int" where
  "worst sts = (if LCP_OPT_REJ \<in> set sts then LCP_OPT_REJ else if LCP_OPT_NAK \<in> set sts then LCP_OPT_NAK else LCP_OPT_ACK)"

lemma recv_conf_req_verdict:
  "opt_recv_conf_req E s lopt hdr w = (lopt', w', r) \<Longrightarrow> r \<in> {LCP_OPT_ACK, LCP_OPT_NAK, LCP_OPT_REJ}"
  by (auto simp: opt_recv_conf_req_def mru_recv_conf_req_def magic_recv_conf_req_def pcomp_recv_conf_req_def accomp_recv_conf_req_def
      Let_def split: lcp_opt_data.splits if_splits)

lemma worst_Cons: "a \<in> {LCP_OPT_ACK, LCP_OPT_NAK, LCP_OPT_REJ} \<Longrightarrow> worst (a # sts) = min a (worst sts)"
  by (auto simp: worst_def)

lemma worst_range: "worst sts \<in> {LCP_OPT_ACK, LCP_OPT_NAK, LCP_OPT_REJ}"
  by (simp add: worst_def)

lemma judge_verdict:
  assumes "judge_opts E s os w ret = (ros, w', r)" "ret \<in> {LCP_OPT_ACK, LCP_OPT_NAK, LCP_OPT_REJ}"
  shows "map ro_hdr ros = os \<and> r = min ret (worst (map ro_state ros))"
  using assms
proof (induction E s os w ret arbitrary: ros w' r rule: judge_opts.induct)
  case (1 E s w ret)
  then show ?case by (auto simp: worst_def)
next
  case (2 E s hdr hs w ret)
  show ?case
  proof (cases "find_opt (lcp_opts (lcp_of w s)) (hdr ! 0) 0")
    case None
    obtain ros1 r1 where j: "judge_opts E s hs w LCP_OPT_REJ = (ros1, w', r1)" "ros = \<lparr>ro_hdr = hdr, ro_state = LCP_OPT_REJ, ro_lopt = False\<rparr> # ros1" "r = r1"
      using "2.prems"(1) None by (auto split: prod.splits)
    have "map ro_hdr ros1 = hs \<and> r1 = min LCP_OPT_REJ (worst (map ro_state ros1))" by (rule "2.IH"(1) [OF None j(1)]) simp
    then show ?thesis using j "2.prems"(2) worst_range [of "map ro_state ros1"] by (auto simp: worst_Cons)
  next
    case (Some i)
    obtain lopt v q where h: "opt_recv_conf_req E s (lcp_opts (lcp_of w s) ! i) hdr w = (lopt, v, q)" by (metis prod_cases3)
    let ?u = "set_opt s i (lopt\<lparr>lo_state := q\<rparr>) v" and ?m = "if q < ret then q else ret"
    obtain ros1 r1 where j: "judge_opts E s hs ?u ?m = (ros1, w', r1)" "ros = \<lparr>ro_hdr = hdr, ro_state = q, ro_lopt = True\<rparr> # ros1" "r = r1"
      using "2.prems"(1) Some h by (auto split: prod.splits)
    have q: "q \<in> {LCP_OPT_ACK, LCP_OPT_NAK, LCP_OPT_REJ}" by (rule recv_conf_req_verdict [OF h])
    have "map ro_hdr ros1 = hs \<and> r1 = min ?m (worst (map ro_state ros1))"
      by (rule "2.IH"(2) [OF Some h [symmetric] refl refl refl j(1)]) (use q "2.prems"(2) in auto)
    then show ?thesis using j worst_Cons [OF q, of "map ro_state ros1"] by (simp add: min_def split: if_splits)
  qed
qed

lemma judge_ropt_len: "judge_opts E s os w ret = (ros, w', r) \<Longrightarrow> lcp_ropt_len (lcp_of w' s) = lcp_ropt_len (lcp_of w s)"
proof (induction E s os w ret arbitrary: ros w' r rule: judge_opts.induct)
  case (2 E s hdr hs w ret)
  show ?case
  proof (cases "find_opt (lcp_opts (lcp_of w s)) (hdr ! 0) 0")
    case None
    then show ?thesis using 2 by (auto split: prod.splits)
  next
    case (Some i)
    obtain lopt v q where h: "opt_recv_conf_req E s (lcp_opts (lcp_of w s) ! i) hdr w = (lopt, v, q)" by (metis prod_cases3)
    have "lcp_of v s = lcp_of w s"
      using h by (auto simp: opt_recv_conf_req_def mru_recv_conf_req_def Let_def split: lcp_opt_data.splits if_splits)
    then show ?thesis using 2 (2) [OF Some h [symmetric] refl refl refl] 2 (3) Some h by (auto simp: Let_def set_opt_def split: prod.splits)
  qed
qed simp

lemma recv_req_bad:
  assumes "split_opts data sz = Ok (os, True)"
  shows "snd (lcp_recv_conf_req E s data sz w) = LCP_OPT_FAIL"
    "rej_body (lcp_ropt_list (lcp_of (fst (lcp_recv_conf_req E s data sz w)) s)) = []"
    "lcp_ropt_len (lcp_of (fst (lcp_recv_conf_req E s data sz w)) s) = int sz"
  using assms by (simp_all add: lcp_recv_conf_req_def rej_body_def filter_map comp_def)

lemma recv_req_good:
  assumes "split_opts data sz = Ok (os, False)"
  shows "map ro_hdr (lcp_ropt_list (lcp_of (fst (lcp_recv_conf_req E s data sz w)) s)) = os"
    "snd (lcp_recv_conf_req E s data sz w) = worst (map ro_state (lcp_ropt_list (lcp_of (fst (lcp_recv_conf_req E s data sz w)) s)))"
    "lcp_ropt_len (lcp_of (fst (lcp_recv_conf_req E s data sz w)) s) = int sz"
proof -
  define v where "v = upd_lcp s (\<lambda>l. l\<lparr>lcp_opts := map (\<lambda>o'. o'\<lparr>lo_state := LCP_OPT_NONE\<rparr>) (lcp_opts l)\<rparr>) (upd_lcp s (\<lambda>l. l\<lparr>lcp_ropt_len := int sz\<rparr>) w)"
  obtain ros x r where j: "judge_opts E s os v 1 = (ros, x, r)" by (metis prod_cases3)
  have e: "lcp_recv_conf_req E s data sz w = (upd_lcp s (\<lambda>l. l\<lparr>lcp_ropt_list := ros\<rparr>) x, r)"
    unfolding lcp_recv_conf_req_def assms using j by (simp only: Let_def parse.case prod.case bool.case v_def [symmetric])
  have m: "map ro_hdr ros = os" "r = min 1 (worst (map ro_state ros))" using judge_verdict [OF j] by simp_all
  then have "r = worst (map ro_state ros)" using worst_range [of "map ro_state ros"] by auto
  then show "map ro_hdr (lcp_ropt_list (lcp_of (fst (lcp_recv_conf_req E s data sz w)) s)) = os"
    "snd (lcp_recv_conf_req E s data sz w) = worst (map ro_state (lcp_ropt_list (lcp_of (fst (lcp_recv_conf_req E s data sz w)) s)))"
    "lcp_ropt_len (lcp_of (fst (lcp_recv_conf_req E s data sz w)) s) = int sz"
    unfolding e using m(1) judge_ropt_len [OF j] by (simp_all add: v_def)
qed

text \<open>
  C19. A Configure-Request is refused as malformed exactly if its data are not a sequence of options
  whose length byte is their length. Otherwise every option gets a verdict, in order, and the answer to
  the request is a Reject if some option is rejected, else a Nak if some option is to be
  changed, else an Ack.
\<close>

theorem lcp_request_verdict:
  assumes "sz \<le> length data" "lcp_recv_conf_req E s data sz w = (w', r)"
  shows "(r = LCP_OPT_FAIL \<longleftrightarrow> \<not> (\<exists>os. concat os = take sz data \<and> (\<forall>b \<in> set os. wf_opt b))) \<and>
    (r \<noteq> LCP_OPT_FAIL \<longrightarrow> concat (map ro_hdr (lcp_ropt_list (lcp_of w' s))) = take sz data \<and>
       r = worst (map ro_state (lcp_ropt_list (lcp_of w' s))))"
proof -
  obtain os bad where sp: "split_opts data sz = Ok (os, bad)" using split_opts_safe [OF assms(1)] by blast
  show ?thesis
  proof (cases bad)
    case True
    then have "\<not> (\<exists>os. concat os = take sz data \<and> (\<forall>b \<in> set os. wf_opt b))" using sp split_exact [OF assms(1)] by auto
    then show ?thesis using recv_req_bad(1) [of data sz os E s w] sp True assms(2) by simp
  next
    case False
    then have g: "split_opts data sz = Ok (os, False)" using sp by simp
    have "r \<noteq> LCP_OPT_FAIL" using recv_req_good(2) [OF g, of E s w] worst_range [of "map ro_state (lcp_ropt_list (lcp_of w' s))"] assms(2) by auto
    then show ?thesis using recv_req_good [OF g, of E s w] split_exact [OF assms(1), of os] g assms(2) by auto
  qed
qed

theorem lcp_request_verdict_witness: "snd (lcp_recv_conf_req base_env 0 [1, 4, 5] 3 ppp_world0) = LCP_OPT_FAIL"
proof -
  have "\<not> (\<exists>os. concat os = take 3 [1, 4, 5 :: u8] \<and> (\<forall>b \<in> set os. wf_opt b))"
  proof
    assume "\<exists>os. concat os = take 3 [1, 4, 5 :: u8] \<and> (\<forall>b \<in> set os. wf_opt b)"
    then obtain os where os: "concat os = [1, 4, 5 :: u8]" "\<forall>b \<in> set os. wf_opt b" by auto
    then obtain b bs where "os = b # bs" by (cases os) auto
    then have b: "b @ concat bs = take 3 [1, 4, 5]" "2 \<le> length b" "unat (b ! 1) = length b" using os by (simp_all add: wf_opt_def)
    show False using first_opt [OF b(1) _ b(2)] b(3) by simp
  qed
  then show ?thesis using lcp_request_verdict [of 3 "[1, 4, 5]" base_env 0 ppp_world0, OF _ surjective_pairing] by simp
qed

section \<open>Buffers\<close>

text \<open>
  C23. Whatever has been exchanged since the options were set up, the next Configure-Request and
  the next Configure-Nak fit the buffer of \<^verbatim>\<open>conf_req_len\<close> bytes that is allocated for them,
  provided no authentication method writes more than it announced.
\<close>

theorem lcp_requests_fit:
  assumes "lcp_talk E ks s w" "handlers_sized E"
  shows "int (length (lcp_packet CONFREQ i (snd (collect_req E s (lcp_opts (lcp_of w s)) w)))) \<le> lcp_conf_req_len (lcp_of w s) \<and>
    int (length (lcp_packet CONFNAK j (snd (collect_nak E s (lcp_opts (lcp_of w s)) w)))) \<le> lcp_conf_req_len (lcp_of w s)"
  using room_fits [OF talk_room [OF assms]] by blast

lemma base_talk: "lcp_talk base_env [KMru, KAuth] 0 (lcp_options_init base_env [KMru, KAuth] 0 ppp_world0)"
  by (rule talk_init) (simp add: ppp_world0_def ppp_conn0_def)

lemma base_sized: "handlers_sized base_env"
  by (simp add: handlers_sized_def base_env_def)

theorem lcp_requests_fit_witness:
  "int (length (lcp_packet CONFREQ 1 (snd (collect_req base_env 0 (lcp_opts (lcp_of (lcp_options_init base_env [KMru, KAuth] 0 ppp_world0) 0))
     (lcp_options_init base_env [KMru, KAuth] 0 ppp_world0))))) \<le> lcp_conf_req_len (lcp_of (lcp_options_init base_env [KMru, KAuth] 0 ppp_world0) 0)"
  using lcp_requests_fit [OF base_talk base_sized] by blast

lemma filter_concat_le: "length (concat (map f (filter P xs))) \<le> length (concat (map f xs))"
  by (induction xs) auto

text \<open>
  The Configure-Reject built from a received request fits the buffer allocated for it, which
  is as long as the request's data plus a header.
\<close>

theorem lcp_reject_fits:
  assumes "sz \<le> length data" "lcp_recv_conf_req E s data sz w = (w', r)"
  shows "int (length (lcp_packet CONFREJ i (rej_body (lcp_ropt_list (lcp_of w' s))))) \<le> lcp_ropt_len (lcp_of w' s) + 6"
proof -
  obtain os bad where sp: "split_opts data sz = Ok (os, bad)" using split_opts_safe [OF assms(1)] by blast
  show ?thesis
  proof (cases bad)
    case True
    then show ?thesis using recv_req_bad(2,3) [of data sz os E s w] sp assms(2) by (simp add: packet_length)
  next
    case False
    then have g: "split_opts data sz = Ok (os, False)" using sp by simp
    have "length (rej_body (lcp_ropt_list (lcp_of w' s))) \<le> length (concat os)"
      using filter_concat_le [of ro_hdr _ "lcp_ropt_list (lcp_of w' s)"] recv_req_good(1) [OF g, of E s w] assms(2) by (simp add: rej_body_def)
    also have "\<dots> \<le> sz" by (rule split_length [OF assms(1) g])
    finally show ?thesis using recv_req_good(3) [OF g, of E s w] assms(2) by (simp add: packet_length)
  qed
qed

theorem lcp_reject_fits_witness:
  "int (length (lcp_packet CONFREJ 1 (rej_body (lcp_ropt_list (lcp_of (fst (lcp_recv_conf_req base_env 0 [9, 2] 2 ppp_world0)) 0)))))
     \<le> lcp_ropt_len (lcp_of (fst (lcp_recv_conf_req base_env 0 [9, 2] 2 ppp_world0)) 0) + 6"
  using lcp_reject_fits [of 2 "[9, 2]" base_env 0 ppp_world0, OF _ surjective_pairing] by simp

section \<open>Requests sent\<close>

text \<open>
  C24. Whatever has been exchanged since the options were set up, the next Configure-Request is a
  well-formed LCP packet: its header carries protocol, code, identifier and length, and its data
  parse as a sequence of options of the five known types.
\<close>

theorem lcp_request_wellformed:
  assumes "lcp_talk E ks s w" "handlers_sized E" "\<forall>h \<in> set (pe_auth_handlers E). length (ah_conf_req h) \<le> 251"
    and "lcp_conf_req_len (lcp_of w s) \<le> 65535"
    and "p = lcp_packet CONFREQ i (snd (collect_req E s (lcp_opts (lcp_of w s)) w))"
  shows "u_read_be16 p = PPP_LCP \<and> p ! 2 = CONFREQ \<and> p ! 3 = i \<and> unat (u_read_be16 (drop 4 p)) = length p - 2 \<and>
    (\<exists>os. split_opts (drop 6 p) (unat (u_read_be16 (drop 4 p)) - 4) = Ok (os, False) \<and>
      (\<forall>b \<in> set os. b ! 0 \<in> {CI_MRU, CI_MAGIC, CI_PCOMP, CI_ACCOMP, CI_AUTH}))"
proof -
  let ?body = "snd (collect_req E s (lcp_opts (lcp_of w s)) w)"
  have r: "room E s w" by (rule talk_room [OF assms(1,2)])
  then have b: "auth_bound s w" by (simp add: room_def)
  obtain bs where bs: "?body = concat bs" "\<forall>b \<in> set bs. wf_opt b \<and> b ! 0 \<in> {CI_MRU, CI_MAGIC, CI_PCOMP, CI_ACCOMP, CI_AUTH}"
    using collect_req_bytes [OF b _ assms(3), of "lcp_opts (lcp_of w s)"] room_auth [OF r] by blast
  have "length ?body \<le> 65531" using room_fits(1) [OF r, of CONFREQ i] assms(4) by (simp add: packet_length)
  note f = packet_fields [OF this, of CONFREQ i, folded assms(5)]
  have "split_opts ?body (length ?body) = Ok (bs, False)" using split_exact [of "length ?body" ?body bs] bs by simp
  moreover have "length p = 6 + length ?body" using assms(5) by (simp only: packet_length)
  ultimately show ?thesis using f bs(2) by auto
qed

theorem lcp_request_wellformed_witness:
  "u_read_be16 (drop 4 (lcp_packet CONFREQ 7 (snd (collect_req base_env 0 (lcp_opts (lcp_of (lcp_options_init base_env [KMru, KAuth] 0 ppp_world0) 0))
     (lcp_options_init base_env [KMru, KAuth] 0 ppp_world0))))) = 12"
proof -
  let ?w = "lcp_options_init base_env [KMru, KAuth] 0 ppp_world0"
  let ?p = "lcp_packet CONFREQ 7 (snd (collect_req base_env 0 (lcp_opts (lcp_of ?w 0)) ?w))"
  note ev = lcp_options_init_def opt_init_def mru_init_def auth_init_def mru_limit_def base_env_def base_conf_def Let_def ppp_world0_def ppp_conn0_def
    upd_lcp_def upd_conn_def upd_auth_def opt_send_conf_req_def mru_send_conf_req_def auth_send_conf_req_def auth_choose_def
  have l: "lcp_conf_req_len (lcp_of ?w 0) = 14" "length ?p = 14" by (simp_all add: packet_length, simp_all add: ev)
  have "unat (u_read_be16 (drop 4 ?p)) = unat (12 :: u16)"
    using lcp_request_wellformed [OF base_talk base_sized _ _ refl, of 7] l by (simp add: base_env_def)
  then show ?thesis by (rule unsigned_word_eqI)
qed

section \<open>Naks\<close>



lemma dup_split: "split_opts [1, 4, 0, 50, 1, 4, 5, 120] 8 = Ok ([[1, 4, 0, 50], [1, 4, 5, 120]], False)"
  using split_exact [of 8 "[1, 4, 0, 50, 1, 4, 5, 120]" "[[1, 4, 0, 50], [1, 4, 5, 120]]"] by (simp add: wf_opt_def)

lemma dup_split': "split_opts [1, 4, 0, 50, 1, 4, 5, 120] (Suc (Suc (Suc (Suc (Suc (Suc (Suc (Suc 0)))))))) = Ok ([[1, 4, 0, 50], [1, 4, 5, 120]], False)"
  using dup_split by (simp add: eval_nat_numeral)

text \<open>
  A request that carries the MRU twice, first with a value below the limit and then with an
  acceptable one, is answered by a Configure-Nak without any option: the second verdict replaces the first in
  the option, while the answer to the request stays a Nak.
\<close>

theorem lcp_duplicate_option_empty_nak:
  "\<exists>data w. case lcp_recv_conf_req base_env 0 data (length data) (lcp_options_init base_env [KMru] 0 w) of
     (w', r) \<Rightarrow> r = LCP_OPT_NAK \<and> snd (collect_nak base_env 0 (lcp_opts (lcp_of w' 0)) w') = []"
proof (intro exI)
  note ev = lcp_options_init_def opt_init_def mru_init_def mru_limit_def base_env_def base_conf_def Let_def ppp_world0_def ppp_conn0_def
    upd_lcp_def upd_conn_def opt_recv_conf_req_def mru_recv_conf_req_def set_opt_def opt_len_def
  show "case lcp_recv_conf_req base_env 0 [1, 4, 0, 50, 1, 4, 5, 120] (length [1, 4, 0, 50, 1, 4, 5, 120 :: u8])
      (lcp_options_init base_env [KMru] 0 ppp_world0) of
     (w', r) \<Rightarrow> r = LCP_OPT_NAK \<and> snd (collect_nak base_env 0 (lcp_opts (lcp_of w' 0)) w') = []"
    by (simp add: lcp_recv_conf_req_def dup_split' ev)
qed

end
