(* ===== verification/L2tpPacket.thy ===== *)
theory L2tpPacket
  imports CLib
begin

text \<open>
  L2TP control packets: \<^verbatim>\<open>accel-pppd/ctrl/l2tp/packet.c\<close>, the look-ups of \<^verbatim>\<open>ctrl/l2tp/dict.c\<close> and the
  shipped dictionary of RFC 2661. Integers that the sources keep in network order are their values
  here; the received datagram and the buffers that are ciphered in place are lists of bytes, and every access
  to them outside their length is the value \<open>Fault\<close>. The MD5 of OpenSSL is a parameter; the random source
  is the list of the results its calls give, \<open>None\<close> for a failing one. The target is little-endian.
\<close>

section \<open>Dictionary\<close>

datatype l2tp_type = L2TP_NONE | L2TP_INT16 | L2TP_INT32 | L2TP_INT64 | L2TP_OCTETS | L2TP_STRING

text \<open>\<^verbatim>\<open>struct l2tp_dict_attr_t\<close> without the value names; \<open>M\<close> and \<open>H\<close> are 0, 1, or -1 where both are allowed.\<close>

record l2tp_dict_attr =
  lda_name :: string
  lda_id :: int
  lda_type :: l2tp_type
  lda_M :: int
  lda_H :: int

type_synonym l2tp_dict = "l2tp_dict_attr list"

definition l2tp_dict_find_attr_by_name :: "l2tp_dict \<Rightarrow> string \<Rightarrow> l2tp_dict_attr option" where
  "l2tp_dict_find_attr_by_name dict name = find (\<lambda>a. lda_name a = name) dict"

definition l2tp_dict_find_attr_by_id :: "l2tp_dict \<Rightarrow> int \<Rightarrow> l2tp_dict_attr option" where
  "l2tp_dict_find_attr_by_id dict i = find (\<lambda>a. lda_id a = i) dict"

abbreviation (input) "Message_Type \<equiv> 0 :: int"
abbreviation (input) "Result_Code \<equiv> 1 :: int"
abbreviation (input) "Protocol_Version \<equiv> 2 :: int"
abbreviation (input) "Framing_Capabilities \<equiv> 3 :: int"
abbreviation (input) "Bearer_Capabilities \<equiv> 4 :: int"
abbreviation (input) "Firmware_Revision \<equiv> 6 :: int"
abbreviation (input) "Host_Name \<equiv> 7 :: int"
abbreviation (input) "Vendor_Name \<equiv> 8 :: int"
abbreviation (input) "Assigned_Tunnel_ID \<equiv> 9 :: int"
abbreviation (input) "Recv_Window_Size \<equiv> 10 :: int"
abbreviation (input) "Challenge \<equiv> 11 :: int"
abbreviation (input) "Challenge_Response \<equiv> 13 :: int"
abbreviation (input) "Assigned_Session_ID \<equiv> 14 :: int"
abbreviation (input) "Random_Vector \<equiv> 36 :: int"
abbreviation (input) "Message_Digest \<equiv> 59 :: int"
abbreviation (input) "Router_ID \<equiv> 60 :: int"
abbreviation (input) "Assigned_Connection_ID \<equiv> 61 :: int"

definition dict_entry :: "string \<Rightarrow> int \<Rightarrow> l2tp_type \<Rightarrow> int \<Rightarrow> int \<Rightarrow> l2tp_dict_attr" where
  "dict_entry n i t m h = \<lparr>lda_name = n, lda_id = i, lda_type = t, lda_M = m, lda_H = h\<rparr>"

text \<open>The entries of \<^verbatim>\<open>dict/dictionary.rfc2661\<close>.\<close>

definition rfc2661_dict :: l2tp_dict where
  "rfc2661_dict =
    [dict_entry ''Message-Type'' 0 L2TP_INT16 (-1) 0,
     dict_entry ''Random-Vector'' 36 L2TP_OCTETS 1 0,
     dict_entry ''Result-Code'' 1 L2TP_OCTETS 1 0,
     dict_entry ''Protocol-Version'' 2 L2TP_INT16 1 0,
     dict_entry ''Framing-Capabilities'' 3 L2TP_INT32 1 (-1),
     dict_entry ''Bearer-Capabilities'' 4 L2TP_INT32 1 (-1),
     dict_entry ''Tie-Breaker'' 5 L2TP_INT64 0 0,
     dict_entry ''Firmware-Revision'' 6 L2TP_INT16 0 (-1),
     dict_entry ''Host-Name'' 7 L2TP_STRING 1 0,
     dict_entry ''Vendor-Name'' 8 L2TP_STRING 0 (-1),
     dict_entry ''Assigned-Tunnel-ID'' 9 L2TP_INT16 1 (-1),
     dict_entry ''Recv-Window-Size'' 10 L2TP_INT16 1 0,
     dict_entry ''Challenge'' 11 L2TP_OCTETS 1 (-1),
     dict_entry ''Challenge-Response'' 13 L2TP_OCTETS 1 (-1),
     dict_entry ''Cause-Code'' 12 L2TP_OCTETS 1 0,
     dict_entry ''Assigned-Session-ID'' 14 L2TP_INT16 1 (-1),
     dict_entry ''Call-Serial-Number'' 15 L2TP_INT32 1 (-1),
     dict_entry ''Minimum-BPS'' 16 L2TP_INT32 1 (-1),
     dict_entry ''Maximum-BPS'' 17 L2TP_INT32 1 (-1),
     dict_entry ''Bearer-Type'' 18 L2TP_INT32 1 (-1),
     dict_entry ''Framing-Type'' 19 L2TP_INT32 1 (-1),
     dict_entry ''Called-Number'' 21 L2TP_STRING 1 (-1),
     dict_entry ''Calling-Number'' 22 L2TP_STRING 1 (-1),
     dict_entry ''Sub-Address'' 23 L2TP_STRING 1 (-1),
     dict_entry ''TX-Speed'' 24 L2TP_INT32 1 (-1),
     dict_entry ''RX-Speed'' 38 L2TP_INT32 0 (-1),
     dict_entry ''Physical-Channel-ID'' 25 L2TP_INT32 0 (-1),
     dict_entry ''Private-Group-ID'' 37 L2TP_OCTETS 0 (-1),
     dict_entry ''Sequencing-Required'' 39 L2TP_NONE 1 0,
     dict_entry ''Init-Recv-LCP'' 26 L2TP_OCTETS 0 (-1),
     dict_entry ''Last-Sent-LCP'' 27 L2TP_OCTETS 0 (-1),
     dict_entry ''Last-Recv-LCP'' 28 L2TP_OCTETS 0 (-1),
     dict_entry ''Proxy-Authen-Type'' 29 L2TP_INT16 0 (-1),
     dict_entry ''Proxy-Authen-Name'' 30 L2TP_STRING 0 (-1),
     dict_entry ''Proxy-Authen-Challenge'' 31 L2TP_OCTETS 0 (-1),
     dict_entry ''Proxy-Authen-ID'' 32 L2TP_INT16 0 (-1),
     dict_entry ''Proxy-Authen-Response'' 33 L2TP_OCTETS 0 (-1),
     dict_entry ''Call-Errors'' 34 L2TP_OCTETS 1 (-1),
     dict_entry ''ACCM'' 35 L2TP_OCTETS 1 (-1)]"

section \<open>Attributes and packets\<close>

text \<open>\<^verbatim>\<open>l2tp_value_t\<close>: the member of the union that was stored. \<open>VOctets\<close> is a pointer to that many bytes.\<close>

datatype l2tp_value = V16 u16 | V32 u32 | V64 u64 | VOctets bytes

record l2tp_attr =
  la_attr :: l2tp_dict_attr
  la_M :: bool
  la_H :: bool
  la_length :: nat
  la_val :: l2tp_value

record l2tp_hdr =
  hdr_flags :: u16
  hdr_length :: u16
  hdr_tid :: u16
  hdr_sid :: u16
  hdr_Ns :: u16
  hdr_Nr :: u16

text \<open>
  \<^verbatim>\<open>struct l2tp_packet_t\<close>. \<open>p_sess\<close> is the session on whose queue \<^verbatim>\<open>sess_entry\<close> links the packet; of the address
  only the port is kept. The last two fields are not in the source: they are the sequence numbers of the packet without their wrap-around, which
  the code never reads.
\<close>

record l2tp_packet =
  p_hdr :: l2tp_hdr
  p_attrs :: "l2tp_attr list"
  p_last_RV :: "l2tp_attr option"
  p_secret :: "bytes option"
  p_hide :: bool
  p_port :: u16
  p_sess :: "u16 option"
  p_seq :: nat
  p_ack :: nat

definition l2tp_packet_is_ZLB :: "l2tp_packet \<Rightarrow> bool" where
  "l2tp_packet_is_ZLB pack \<longleftrightarrow> p_attrs pack = []"

abbreviation (input) "L2TP_FLAG_T \<equiv> 0x8000 :: u16"
abbreviation (input) "L2TP_FLAG_L \<equiv> 0x4000 :: u16"
abbreviation (input) "L2TP_FLAG_S \<equiv> 0x0800 :: u16"
abbreviation (input) "L2TP_FLAG_O \<equiv> 0x0200 :: u16"
abbreviation (input) "L2TP_VER_MASK \<equiv> 0x000F :: u16"
abbreviation (input) "L2TP_AVP_FLAG_M \<equiv> 0x8000 :: u16"
abbreviation (input) "L2TP_AVP_FLAG_H \<equiv> 0x4000 :: u16"
abbreviation (input) "L2TP_AVP_LEN_MASK \<equiv> 0x03FF :: u16"
abbreviation (input) "MD5_LEN \<equiv> 16 :: nat"
abbreviation (input) "L2TP_MAX_PACKET_SIZE \<equiv> 65536 :: nat"

section \<open>Hidden attributes\<close>

text \<open>\<^verbatim>\<open>memxor(buf + off, src, sz)\<close> on a buffer of which \<open>buf\<close> is the content.\<close>

definition memxor :: "bytes \<Rightarrow> nat \<Rightarrow> bytes \<Rightarrow> nat \<Rightarrow> bytes parse" where
  "memxor buf off src sz =
     (if off + sz \<le> length buf \<and> sz \<le> length src
      then Ok (map (\<lambda>i. if off \<le> i \<and> i < off + sz then buf ! i XOR src ! (i - off) else buf ! i) [0..<length buf])
      else Fault)"

text \<open>The value of a pointer member: using another member's value as a pointer is a fault.\<close>

fun val_octets :: "l2tp_value \<Rightarrow> bytes parse" where
  "val_octets (VOctets b) = Ok b"
| "val_octets _ = Fault"

text \<open>The loop over the blocks after the first, from the last to the second: \<open>Suc k\<close> blocks are left and \<^verbatim>\<open>prev_block\<close> is block \<open>k\<close>.\<close>

fun decode_blocks :: "(bytes \<Rightarrow> bytes) \<Rightarrow> bytes \<Rightarrow> nat \<Rightarrow> bytes \<Rightarrow> bytes parse" where
  "decode_blocks md5 secret 0 val = Ok val"
| "decode_blocks md5 secret (Suc k) val =
     bind_parse (read_bytes val (MD5_LEN * k) MD5_LEN) (\<lambda>blk.
       bind_parse (memxor val (MD5_LEN * k + MD5_LEN) (md5 (secret @ blk)) MD5_LEN) (decode_blocks md5 secret k))"

text \<open>The blocks after the first, of which \<^verbatim>\<open>bytes_left\<close> bytes are to be deciphered.\<close>

definition decode_rest :: "(bytes \<Rightarrow> bytes) \<Rightarrow> bytes \<Rightarrow> nat \<Rightarrow> bytes \<Rightarrow> bytes parse" where
  "decode_rest md5 secret bytes_left val =
     (let last_block_len = bytes_left mod MD5_LEN;
          blocks_left = bytes_left div MD5_LEN
      in bind_parse
           (if last_block_len \<noteq> 0 then
              bind_parse (read_bytes val (blocks_left * MD5_LEN) MD5_LEN) (\<lambda>blk.
                memxor val (blocks_left * MD5_LEN + MD5_LEN) (md5 (secret @ blk)) last_block_len)
            else Ok val) (decode_blocks md5 secret blocks_left))"

text \<open>The check at the end: the length that the cipher gave must lie inside the attribute.\<close>

definition decode_out :: "bytes \<Rightarrow> (bytes \<times> nat) parse" where
  "decode_out val =
     bind_parse (read_bytes val 0 2) (\<lambda>l.
       let orig_attr_len = unat (u_read_be16 l)
       in if orig_attr_len > length val - 2 then Reject else Ok (val, orig_attr_len))"

text \<open>
  \<^verbatim>\<open>decode_avp\<close>: the value of the attribute, \<open>avp_len - 6\<close> bytes, is deciphered in place; the result is its new content and
  the original length. \<open>Reject\<close> is the result -1.
\<close>

definition decode_avp :: "(bytes \<Rightarrow> bytes) \<Rightarrow> u16 \<Rightarrow> l2tp_attr \<Rightarrow> bytes \<Rightarrow> bytes \<Rightarrow> (bytes \<times> nat) parse" where
  "decode_avp md5 typ RV secret val =
     (let attr_len = length val
      in if attr_len < 2 then Reject
         else
           bind_parse (val_octets (la_val RV)) (\<lambda>rv.
           bind_parse (read_bytes rv 0 (la_length RV)) (\<lambda>rv.
             let p1 = md5 (u_write_be16 typ @ secret @ rv)
             in if attr_len \<le> MD5_LEN then bind_parse (memxor val 0 p1 attr_len) decode_out
                else
                  bind_parse (read_bytes val 0 MD5_LEN) (\<lambda>first.
                  bind_parse (memxor p1 0 first MD5_LEN) (\<lambda>p1.
                    let orig_attr_len = unat (u_read_be16 p1);
                        finish = (\<lambda>val. decode_out (take MD5_LEN p1 @ drop MD5_LEN val))
                    in if orig_attr_len \<le> MD5_LEN - 2 then finish val
                       else if orig_attr_len > attr_len - 2 then Reject
                       else bind_parse (decode_rest md5 secret (orig_attr_len + 2 - MD5_LEN) val) finish)))))"

section \<open>Receiving\<close>

record l2tp_conf =
  lc_dict :: l2tp_dict
  lc_md5 :: "bytes \<Rightarrow> bytes"
  lc_avp_permissive :: bool

text \<open>The value of an attribute of \<open>n\<close> bytes at the start of \<open>val\<close>, by the type of its dictionary entry; \<open>Reject\<close> is \<^verbatim>\<open>out_err_len\<close>.\<close>

definition read_value :: "l2tp_type \<Rightarrow> nat \<Rightarrow> bytes \<Rightarrow> l2tp_value parse" where
  "read_value typ n val =
     (case typ of
        L2TP_INT16 \<Rightarrow> if n \<noteq> 2 then Reject else bind_parse (read_bytes val 0 2) (\<lambda>b. Ok (V16 (u_read_be16 b)))
      | L2TP_INT32 \<Rightarrow> if n \<noteq> 4 then Reject else bind_parse (read_bytes val 0 4) (\<lambda>b. Ok (V32 (u_read_be32 b)))
      | L2TP_INT64 \<Rightarrow> if n \<noteq> 8 then Reject else bind_parse (read_bytes val 0 8) (\<lambda>b. Ok (V64 (u_read_be64 b)))
      | L2TP_OCTETS \<Rightarrow> bind_parse (read_bytes val 0 n) (\<lambda>b. Ok (VOctets b))
      | L2TP_STRING \<Rightarrow> bind_parse (read_bytes val 0 n) (\<lambda>b. Ok (VOctets b))
      | L2TP_NONE \<Rightarrow> Ok (V64 0))"

text \<open>
  One turn of the loop of \<^verbatim>\<open>l2tp_recv\<close> on an attribute whose header has been checked: \<open>val\<close> are the bytes after the header.
  \<open>None\<close> is an attribute that is skipped.
\<close>

definition recv_avp :: "l2tp_conf \<Rightarrow> bytes option \<Rightarrow> l2tp_attr option \<Rightarrow> u16 \<Rightarrow> u16 \<Rightarrow> u16 \<Rightarrow> bytes \<Rightarrow> l2tp_attr option parse" where
  "recv_avp cf secret RV flags vendor typ val =
     (if vendor \<noteq> 0 then Ok None
      else
        let M = (flags AND L2TP_AVP_FLAG_M \<noteq> 0); H = (flags AND L2TP_AVP_FLAG_H \<noteq> 0)
        in case l2tp_dict_find_attr_by_id (lc_dict cf) (uint typ) of
             None \<Rightarrow> if M \<and> \<not> lc_avp_permissive cf then Reject else Ok None
           | Some da \<Rightarrow>
               if lda_M da \<noteq> -1 \<and> (lda_M da = 0) = M \<and> \<not> lc_avp_permissive cf then Reject
               else if lda_H da \<noteq> -1 \<and> (lda_H da = 0) = H \<and> \<not> lc_avp_permissive cf then Reject
               else
                 bind_parse
                   (if H then
                      (case (RV, secret) of
                         (Some rv, Some sec) \<Rightarrow>
                           if sec = [] then Reject
                           else bind_parse (decode_avp (lc_md5 cf) typ rv sec val) (\<lambda>(val, n). Ok (n, drop 2 val))
                       | _ \<Rightarrow> Reject)
                    else Ok (length val, val)) (\<lambda>(n, orig_val).
                 bind_parse (read_value (lda_type da) n orig_val) (\<lambda>v.
                   Ok (Some \<lparr>la_attr = da, la_M = M, la_H = False, la_length = n, la_val = v\<rparr>))))"

definition next_RV :: "l2tp_attr option \<Rightarrow> l2tp_attr option \<Rightarrow> l2tp_attr option" where
  "next_RV RV r = (case r of Some a \<Rightarrow> if lda_id (la_attr a) = Random_Vector then Some a else RV | None \<Rightarrow> RV)"

text \<open>The loop: \<open>len\<close> bytes of the message are left, \<open>buf\<close> is the datagram from the current position.\<close>

function recv_avps :: "l2tp_conf \<Rightarrow> bytes option \<Rightarrow> l2tp_attr option \<Rightarrow> bytes \<Rightarrow> nat \<Rightarrow> l2tp_attr list parse" where
  "recv_avps cf secret RV buf len =
     (if len = 0 then Ok []
      else if len < 6 then Reject
      else bind_parse (read_bytes buf 0 6) (\<lambda>h.
        let flags = u_read_be16 h;
            avp_len = unat (flags AND L2TP_AVP_LEN_MASK)
        in if avp_len < 6 then Reject
           else if len < avp_len then Reject
           else bind_parse (read_bytes buf 6 (avp_len - 6)) (\<lambda>val.
             bind_parse (recv_avp cf secret RV flags (u_read_be16 (drop 2 h)) (u_read_be16 (drop 4 h)) val) (\<lambda>r.
               bind_parse (recv_avps cf secret (next_RV RV r) (drop avp_len buf) (len - avp_len)) (\<lambda>as.
                 Ok (case r of Some a \<Rightarrow> a # as | None \<Rightarrow> as))))))"
  by pat_completeness auto
termination
  by (relation "measure (\<lambda>(_, _, _, _, len). len)") auto

declare recv_avps.simps [simp del]

text \<open>\<^verbatim>\<open>l2tp_recv\<close> on the datagram \<open>buf\<close>; \<open>Reject\<close> is the return without a packet.\<close>

definition l2tp_recv :: "l2tp_conf \<Rightarrow> bytes option \<Rightarrow> u16 \<Rightarrow> bytes \<Rightarrow> l2tp_packet parse" where
  "l2tp_recv cf secret port buf =
     (if length buf < 12 then Reject
      else
        let flags = u_read_be16 buf
        in if flags AND L2TP_FLAG_T = 0 then Reject
           else if flags AND L2TP_FLAG_L = 0 then Reject
           else if flags AND L2TP_FLAG_S = 0 then Reject
           else if flags AND L2TP_VER_MASK = 2 \<and> flags AND L2TP_FLAG_O \<noteq> 0 then Reject
           else if flags AND L2TP_VER_MASK \<noteq> 2 \<and> flags AND L2TP_VER_MASK \<noteq> 3 then Reject
           else
             let len = unat (u_read_be16 (drop 2 buf))
             in if len < 12 then Reject
                else if length buf < len then Reject
                else bind_parse (recv_avps cf secret None (drop 12 buf) (len - 12)) (\<lambda>as.
                  Ok \<lparr>p_hdr = \<lparr>hdr_flags = flags, hdr_length = u_read_be16 (drop 2 buf), hdr_tid = u_read_be16 (drop 4 buf),
                               hdr_sid = u_read_be16 (drop 6 buf), hdr_Ns = u_read_be16 (drop 8 buf), hdr_Nr = u_read_be16 (drop 10 buf)\<rparr>,
                      p_attrs = as, p_last_RV = None, p_secret = None, p_hide = False, p_port = port, p_sess = None, p_seq = 0, p_ack = 0\<rparr>))"

section \<open>Sending\<close>

text \<open>The value of an attribute on the wire: a value stored in another member of the union than the one that is read is a fault.\<close>

definition write_value :: "l2tp_attr \<Rightarrow> bytes parse" where
  "write_value a =
     (if la_H a then
        (if la_length a > 0 then bind_parse (val_octets (la_val a)) (\<lambda>b. read_bytes b 0 (la_length a)) else Ok [])
      else
        case lda_type (la_attr a) of
          L2TP_INT16 \<Rightarrow> (case la_val a of V16 x \<Rightarrow> if la_length a = 2 then Ok (u_write_be16 x) else Fault | _ \<Rightarrow> Fault)
        | L2TP_INT32 \<Rightarrow> (case la_val a of V32 x \<Rightarrow> if la_length a = 4 then Ok (u_write_be32 x) else Fault | _ \<Rightarrow> Fault)
        | L2TP_INT64 \<Rightarrow> (case la_val a of V64 x \<Rightarrow> if la_length a = 8 then Ok (u_write_be64 x) else Fault | _ \<Rightarrow> Fault)
        | L2TP_NONE \<Rightarrow> Ok (replicate (la_length a) 0)
        | _ \<Rightarrow> if la_length a > 0 then bind_parse (val_octets (la_val a)) (\<lambda>b. read_bytes b 0 (la_length a)) else Ok [])"

definition avp_flags :: "l2tp_attr \<Rightarrow> u16" where
  "avp_flags a = (if la_M a then L2TP_AVP_FLAG_M else 0) OR (if la_H a then L2TP_AVP_FLAG_H else 0) OR
     (of_nat (6 + la_length a) AND L2TP_AVP_LEN_MASK)"

fun send_avps :: "l2tp_attr list \<Rightarrow> nat \<Rightarrow> bytes parse" where
  "send_avps [] len = Ok []"
| "send_avps (a # as) len =
     (if len + 6 + la_length a \<ge> L2TP_MAX_PACKET_SIZE then Reject
      else if 6 + la_length a > unat L2TP_AVP_LEN_MASK then Reject
      else bind_parse (write_value a) (\<lambda>val.
        bind_parse (send_avps as (len + 6 + la_length a)) (\<lambda>rest.
          Ok (u_write_be16 (avp_flags a) @ u_write_be16 0 @ u_write_be16 (word_of_int (lda_id (la_attr a))) @ val @ rest))))"

text \<open>The datagram that \<^verbatim>\<open>l2tp_packet_send\<close> hands to \<^verbatim>\<open>sendto\<close>; \<open>Reject\<close> is the result -1.\<close>

definition l2tp_packet_send :: "l2tp_packet \<Rightarrow> bytes parse" where
  "l2tp_packet_send pack =
     bind_parse (send_avps (p_attrs pack) 12) (\<lambda>body.
       let h = p_hdr pack
       in Ok (u_write_be16 (hdr_flags h) @ u_write_be16 (of_nat (12 + length body)) @ u_write_be16 (hdr_tid h) @
              u_write_be16 (hdr_sid h) @ u_write_be16 (hdr_Ns h) @ u_write_be16 (hdr_Nr h) @ body))"

section \<open>Building packets\<close>

type_synonym rand = "bytes option list"

text \<open>\<^verbatim>\<open>u_randbuf\<close>: the next result of the random source.\<close>

fun u_randbuf :: "nat \<Rightarrow> rand \<Rightarrow> bytes option \<times> rand" where
  "u_randbuf n (Some b # r) = (Some (take n (b @ replicate n 0)), r)"
| "u_randbuf n (None # r) = (None, r)"
| "u_randbuf n [] = (None, [])"

text \<open>A \<^verbatim>\<open>uint16_t\<close> filled with random bytes, masked to seven bits, plus 16.\<close>

definition rand_len :: "bytes \<Rightarrow> nat" where
  "rand_len b = unat (hd b AND 0x7F) + 16"

text \<open>The loop of \<^verbatim>\<open>encode_attr\<close> over full blocks, \<open>k\<close> the current block, and its last partial block.\<close>

fun encode_blocks :: "(bytes \<Rightarrow> bytes) \<Rightarrow> bytes \<Rightarrow> nat \<Rightarrow> nat \<Rightarrow> bytes \<Rightarrow> bytes parse" where
  "encode_blocks md5 secret k 0 val = Ok val"
| "encode_blocks md5 secret k (Suc n) val =
     bind_parse (read_bytes val (MD5_LEN * k) MD5_LEN) (\<lambda>blk.
       bind_parse (memxor val (MD5_LEN * Suc k) (md5 (secret @ blk)) MD5_LEN) (encode_blocks md5 secret (Suc k) n))"

definition encode_cipher :: "(bytes \<Rightarrow> bytes) \<Rightarrow> bytes \<Rightarrow> bytes \<Rightarrow> bytes \<Rightarrow> bytes parse" where
  "encode_cipher md5 secret first val =
     (if length val \<le> MD5_LEN then memxor val 0 first (length val)
      else bind_parse (memxor val 0 first MD5_LEN) (\<lambda>val.
        let blocks_left = length val div MD5_LEN - 1;
            last_block_len = length val mod MD5_LEN
        in bind_parse (encode_blocks md5 secret 0 blocks_left val) (\<lambda>val.
             if last_block_len \<noteq> 0 then
               bind_parse (read_bytes val (MD5_LEN * blocks_left) MD5_LEN) (\<lambda>blk.
                 memxor val (MD5_LEN * blocks_left + MD5_LEN) (md5 (secret @ blk)) last_block_len)
             else Ok val)))"

text \<open>
  \<^verbatim>\<open>encode_attr\<close>: the hidden form of \<open>val\<close>, whose length the parameter \<^verbatim>\<open>uint16_t val_len\<close> keeps modulo $2^{16}$. The result
  is the attribute with its length and octets set, \<open>Reject\<close> for the result -1.
\<close>

definition encode_attr :: "(bytes \<Rightarrow> bytes) \<Rightarrow> l2tp_packet \<Rightarrow> l2tp_attr \<Rightarrow> bytes \<Rightarrow> rand \<Rightarrow> l2tp_attr parse \<times> rand" where
  "encode_attr md5 pack attr val rnd =
     (case (p_secret pack, p_last_RV pack) of
        (Some secret, Some RV) \<Rightarrow>
          if secret = [] then (Reject, rnd)
          else
            (case u_randbuf 2 rnd of
               (None, rnd) \<Rightarrow> (Reject, rnd)
             | (Some b, rnd) \<Rightarrow>
                 let val_len = length val mod 2 ^ 16;
                     max_len = unat L2TP_AVP_LEN_MASK - 6
                 in if 2 + val_len + 16 > max_len then (Reject, rnd)
                    else
                      let pad_len = (if 2 + val_len + rand_len b > max_len then max_len - 2 - val_len else rand_len b)
                      in (case u_randbuf pad_len rnd of
                            (None, rnd) \<Rightarrow> (Reject, rnd)
                          | (Some pad, rnd) \<Rightarrow>
                              let clear = u_write_be16 (of_nat val_len) @ take val_len val @ pad
                              in (bind_parse (val_octets (la_val RV)) (\<lambda>rv.
                                  bind_parse (read_bytes rv 0 (la_length RV)) (\<lambda>rv.
                                  bind_parse (encode_cipher md5 secret
                                     (md5 (u_write_be16 (word_of_int (lda_id (la_attr attr))) @ secret @ rv)) clear) (\<lambda>oct.
                                    Ok (attr\<lparr>la_length := length clear, la_val := VOctets oct\<rparr>)))), rnd)))
      | _ \<Rightarrow> (Reject, rnd))"

definition attr_alloc :: "l2tp_dict \<Rightarrow> int \<Rightarrow> bool \<Rightarrow> bool \<Rightarrow> l2tp_attr option" where
  "attr_alloc dict i M H =
     (case l2tp_dict_find_attr_by_id dict i of
        None \<Rightarrow> None
      | Some da \<Rightarrow>
          Some \<lparr>la_attr = da, la_M = (if lda_M da \<noteq> -1 then lda_M da \<noteq> 0 else M), la_H = (if lda_H da \<noteq> -1 then lda_H da \<noteq> 0 else H),
                la_length = 0, la_val = V64 0\<rparr>)"

text \<open>The functions that add an attribute return the packet, whether they failed, and the random source.\<close>

definition l2tp_packet_add_random_vector :: "l2tp_dict \<Rightarrow> l2tp_packet \<Rightarrow> rand \<Rightarrow> (l2tp_packet \<times> bool) \<times> rand" where
  "l2tp_packet_add_random_vector dict pack rnd =
     (case attr_alloc dict Random_Vector True False of
        None \<Rightarrow> ((pack, True), rnd)
      | Some attr \<Rightarrow>
          (case u_randbuf 2 rnd of
             (None, rnd) \<Rightarrow> ((pack, True), rnd)
           | (Some b, rnd) \<Rightarrow>
               (case u_randbuf (rand_len b) rnd of
                  (None, rnd) \<Rightarrow> ((pack, True), rnd)
                | (Some v, rnd) \<Rightarrow>
                    let attr = attr\<lparr>la_length := rand_len b, la_val := VOctets v\<rparr>
                    in ((pack\<lparr>p_attrs := p_attrs pack @ [attr], p_last_RV := Some attr\<rparr>, False), rnd))))"

text \<open>
  The common part of \<^verbatim>\<open>l2tp_packet_add_int16\<close>, \<^verbatim>\<open>_int32\<close>, \<^verbatim>\<open>_int64\<close>, \<^verbatim>\<open>_string\<close> and \<^verbatim>\<open>_octets\<close>: \<open>raw\<close> are the bytes that are hidden, \<open>v\<close> the
  value that is stored otherwise.
\<close>

definition add_attr :: "l2tp_conf \<Rightarrow> l2tp_packet \<Rightarrow> l2tp_attr \<Rightarrow> bytes \<Rightarrow> l2tp_value \<Rightarrow> nat \<Rightarrow> rand \<Rightarrow> (l2tp_packet \<times> bool) \<times> rand" where
  "add_attr cf pack attr raw v len rnd =
     (if la_H attr then
        (case (if p_last_RV pack = None then l2tp_packet_add_random_vector (lc_dict cf) pack rnd else ((pack, False), rnd)) of
           ((pack, True), rnd) \<Rightarrow> ((pack, True), rnd)
         | ((pack, False), rnd) \<Rightarrow>
             (case encode_attr (lc_md5 cf) pack attr raw rnd of
                (Ok attr, rnd) \<Rightarrow> ((pack\<lparr>p_attrs := p_attrs pack @ [attr]\<rparr>, False), rnd)
              | (_, rnd) \<Rightarrow> ((pack, True), rnd)))
      else ((pack\<lparr>p_attrs := p_attrs pack @ [attr\<lparr>la_length := len, la_val := v\<rparr>]\<rparr>, False), rnd))"

definition l2tp_packet_add_int16 :: "l2tp_conf \<Rightarrow> l2tp_packet \<Rightarrow> int \<Rightarrow> u16 \<Rightarrow> bool \<Rightarrow> rand \<Rightarrow> (l2tp_packet \<times> bool) \<times> rand" where
  "l2tp_packet_add_int16 cf pack i val M rnd =
     (case attr_alloc (lc_dict cf) i M (p_hide pack) of
        None \<Rightarrow> ((pack, True), rnd)
      | Some attr \<Rightarrow> add_attr cf pack attr (u_write_be16 val) (V16 val) 2 rnd)"

definition l2tp_packet_add_int32 :: "l2tp_conf \<Rightarrow> l2tp_packet \<Rightarrow> int \<Rightarrow> u32 \<Rightarrow> bool \<Rightarrow> rand \<Rightarrow> (l2tp_packet \<times> bool) \<times> rand" where
  "l2tp_packet_add_int32 cf pack i val M rnd =
     (case attr_alloc (lc_dict cf) i M (p_hide pack) of
        None \<Rightarrow> ((pack, True), rnd)
      | Some attr \<Rightarrow> add_attr cf pack attr (u_write_be32 val) (V32 val) 4 rnd)"

definition l2tp_packet_add_int64 :: "l2tp_conf \<Rightarrow> l2tp_packet \<Rightarrow> int \<Rightarrow> u64 \<Rightarrow> bool \<Rightarrow> rand \<Rightarrow> (l2tp_packet \<times> bool) \<times> rand" where
  "l2tp_packet_add_int64 cf pack i val M rnd =
     (case attr_alloc (lc_dict cf) i M (p_hide pack) of
        None \<Rightarrow> ((pack, True), rnd)
      | Some attr \<Rightarrow> add_attr cf pack attr (u_write_be64 val) (V64 val) 8 rnd)"

definition l2tp_packet_add_string :: "l2tp_conf \<Rightarrow> l2tp_packet \<Rightarrow> int \<Rightarrow> bytes \<Rightarrow> bool \<Rightarrow> rand \<Rightarrow> (l2tp_packet \<times> bool) \<times> rand" where
  "l2tp_packet_add_string cf pack i val M rnd =
     (case attr_alloc (lc_dict cf) i M (p_hide pack) of
        None \<Rightarrow> ((pack, True), rnd)
      | Some attr \<Rightarrow> add_attr cf pack attr val (VOctets val) (length val) rnd)"

definition l2tp_packet_add_octets :: "l2tp_conf \<Rightarrow> l2tp_packet \<Rightarrow> int \<Rightarrow> bytes \<Rightarrow> bool \<Rightarrow> rand \<Rightarrow> (l2tp_packet \<times> bool) \<times> rand" where
  "l2tp_packet_add_octets cf pack i val M rnd =
     (case attr_alloc (lc_dict cf) i M (p_hide pack) of
        None \<Rightarrow> ((pack, True), rnd)
      | Some attr \<Rightarrow>
          if length val > unat L2TP_AVP_LEN_MASK then ((pack, True), rnd)
          else add_attr cf pack attr val (VOctets val) (length val) rnd)"

definition l2tp_packet_alloc :: "l2tp_conf \<Rightarrow> u16 \<Rightarrow> u16 \<Rightarrow> u16 \<Rightarrow> bool \<Rightarrow> bytes option \<Rightarrow> rand \<Rightarrow> l2tp_packet option \<times> rand" where
  "l2tp_packet_alloc cf ver msg_type port H secret rnd =
     (let pack = \<lparr>p_hdr = \<lparr>hdr_flags = L2TP_FLAG_T OR L2TP_FLAG_L OR L2TP_FLAG_S OR (ver AND L2TP_VER_MASK), hdr_length = 0,
                           hdr_tid = 0, hdr_sid = 0, hdr_Ns = 0, hdr_Nr = 0\<rparr>,
                  p_attrs = [], p_last_RV = None, p_secret = secret, p_hide = H, p_port = port, p_sess = None, p_seq = 0, p_ack = 0\<rparr>
      in if msg_type \<noteq> 0 then
           (case l2tp_packet_add_int16 cf pack Message_Type msg_type True rnd of
              ((pack, failed), rnd) \<Rightarrow> (if failed then None else Some pack, rnd))
         else (Some pack, rnd))"

text \<open>The attributes that a caller adds one after the other, up to the first failure.\<close>

datatype avp_req = Req16 int u16 bool | Req32 int u32 bool | Req64 int u64 bool | ReqString int bytes bool | ReqOctets int bytes bool

fun add_req :: "l2tp_conf \<Rightarrow> l2tp_packet \<Rightarrow> avp_req \<Rightarrow> rand \<Rightarrow> (l2tp_packet \<times> bool) \<times> rand" where
  "add_req cf pack (Req16 i x M) rnd = l2tp_packet_add_int16 cf pack i x M rnd"
| "add_req cf pack (Req32 i x M) rnd = l2tp_packet_add_int32 cf pack i x M rnd"
| "add_req cf pack (Req64 i x M) rnd = l2tp_packet_add_int64 cf pack i x M rnd"
| "add_req cf pack (ReqString i x M) rnd = l2tp_packet_add_string cf pack i x M rnd"
| "add_req cf pack (ReqOctets i x M) rnd = l2tp_packet_add_octets cf pack i x M rnd"

fun add_reqs :: "l2tp_conf \<Rightarrow> l2tp_packet \<Rightarrow> avp_req list \<Rightarrow> rand \<Rightarrow> (l2tp_packet \<times> bool) \<times> rand" where
  "add_reqs cf pack [] rnd = ((pack, False), rnd)"
| "add_reqs cf pack (r # rs) rnd =
     (case add_req cf pack r rnd of
        ((pack, True), rnd) \<Rightarrow> ((pack, True), rnd)
      | ((pack, False), rnd) \<Rightarrow> add_reqs cf pack rs rnd)"

end
