(* ===== verification/L2tpState.thy ===== *)
theory L2tpState
  imports L2tpPacket
begin

text \<open>
  The state of an L2TP tunnel and the lower half of \<^verbatim>\<open>accel-pppd/ctrl/l2tp/l2tp.c\<close>: counters, timers, the send and
  retransmission queues, and the functions that end sessions and tunnels. One tunnel is modelled with all its
  sessions; no call switching (\<^verbatim>\<open>l2tp_switch_*\<close>) is configured, so the pointers to switch targets are null. What the
  socket, the kernel and the timers of triton do is part of the environment \<open>l2tp_env\<close>. Ghost fields record the packets that were sent (\<open>sent\<close>, with
  retransmissions), the messages that were given a sequence number (\<open>committed\<close>), the messages that were taken from the reception queue
  (\<open>delivered\<close>), the challenges that were drawn (\<open>challenges\<close>), and whether the code would have crashed.
\<close>

section \<open>State\<close>

datatype l2tp_state =
    STATE_INIT | STATE_WAIT_SCCRP | STATE_WAIT_SCCCN | STATE_WAIT_ICRP | STATE_WAIT_ICCN | STATE_WAIT_OCRP | STATE_WAIT_OCCN
  | STATE_ESTB | STATE_FIN | STATE_FIN_WAIT | STATE_CLOSE

datatype l2tp_stat_field = Conn_starting | Conn_active | Conn_finishing | Sess_starting | Sess_active | Sess_finishing

text \<open>\<^verbatim>\<open>struct l2tp_sess_t\<close>. \<open>s_apses\<close> tells whether the context of the data channel is registered.\<close>

record l2tp_sess =
  s_peer_sid :: u16
  s_calling :: "bytes option"
  s_called :: "bytes option"
  s_state :: l2tp_state
  s_lns_mode :: bool
  s_hide :: bool
  s_send_seq :: bool
  s_recv_seq :: bool
  s_timer :: bool
  s_ctrl_started :: bool
  s_fd :: bool
  s_apses :: bool

text \<open>
  \<^verbatim>\<open>struct l2tp_conn_t\<close>: a timer is the flag that it is registered (\<^verbatim>\<open>tpd\<close>), with its period where it varies; \<open>c_finwait\<close> tells
  that \<^verbatim>\<open>timeout_timer\<close> expires into \<^verbatim>\<open>l2tp_tunnel_finwait_timeout\<close>. The tree of the sessions is an association list.
\<close>

record l2tp_conn =
  c_hnd :: bool
  c_timeout_timer :: bool
  c_timeout_period :: int
  c_finwait :: bool
  c_rtimeout_timer :: bool
  c_period :: int
  c_hello_timer :: bool
  c_rtimeout :: int
  c_rtimeout_cap :: int
  c_max_retransmit :: int
  c_port :: u16
  c_tid :: u16
  c_peer_tid :: u16
  c_framing_cap :: u32
  c_lns_mode :: bool
  c_hide :: bool
  c_port_set :: bool
  c_was_estb :: bool
  c_challenge :: "bytes option"
  c_secret :: "bytes option"
  c_retransmit :: int
  c_Ns :: u16
  c_Nr :: u16
  c_peer_Nr :: u16
  c_send_queue :: "l2tp_packet list"
  c_rtms_queue :: "l2tp_packet list"
  c_send_queue_len :: u32
  c_recv_queue :: "l2tp_packet option list"
  c_recv_queue_offt :: u16
  c_peer_rcv_wnd_sz :: u16
  c_state :: l2tp_state
  c_sessions :: "(u16 \<times> l2tp_sess) list"
  c_sess_count :: u32

text \<open>
  The tunnel with what surrounds it: the counters \<^verbatim>\<open>l2tp_stat\<close>, whether \<^verbatim>\<open>l2tp_conn[]\<close> holds it, the random source. \<open>lingering\<close> counts the sessions that
  were freed while their data channel holds a reference, \<open>start\<close> is the call that \<^verbatim>\<open>l2tp_tunnel_start\<close> has queued.
\<close>

datatype start_call = Call_SCCRQ | Call_SCCRP

record l2tp_world =
  conn :: l2tp_conn
  stat :: "l2tp_stat_field \<Rightarrow> u32"
  in_table :: bool
  rnd :: rand
  sent :: "l2tp_packet list"
  committed :: "l2tp_packet list"
  delivered :: "l2tp_packet list"
  challenges :: "bytes list"
  lingering :: nat
  start :: "start_call option"
  crashed :: bool

abbreviation c_recv_queue_sz :: "l2tp_conn \<Rightarrow> nat" where
  "c_recv_queue_sz c \<equiv> length (c_recv_queue c)"

datatype send_result = Sent | Lost | Failed

text \<open>
  The environment of an event: \<open>e_sendto\<close> is the result of \<^verbatim>\<open>sendto\<close> (\<open>Lost\<close> for \<^verbatim>\<open>EAGAIN\<close>), \<open>e_timer\<close> tells whether timers can be set,
  \<open>e_socket\<close>, \<open>e_context\<close>, \<open>e_handler\<close> and \<open>e_call\<close> whether a new tunnel gets its socket, context, handler and first call, \<open>e_used\<close> which tunnel numbers are taken,
  \<open>e_connect\<close> and \<open>e_sess_connect\<close> whether the kernel sets up the tunnel's and the session's socket, \<open>e_data\<close> whether the data channel starts,
  \<open>e_busy\<close> whether one of the limits of the daemon is reached. \<open>e_addr\<close> is the address a buffer is kept at.
\<close>

record l2tp_env =
  e_cf :: l2tp_conf
  e_sendto :: "l2tp_packet \<Rightarrow> send_result"
  e_timer :: bool
  e_socket :: bool
  e_context :: bool
  e_handler :: bool
  e_call :: bool
  e_used :: "u16 \<Rightarrow> bool"
  e_connect :: bool
  e_sess_connect :: bool
  e_data :: bool
  e_port :: bool
  e_shutdown :: bool
  e_busy :: bool
  e_addr :: "bytes \<Rightarrow> u64"
  e_host_name :: bytes
  e_hello_interval :: int
  e_dataseq :: int
  e_dir300 :: bool
  e_conf_secret :: "bytes option"
  e_conf_hide :: bool
  e_conf_timeout :: int
  e_conf_rtimeout :: int
  e_conf_rtimeout_cap :: int
  e_conf_retransmit :: int
  e_recv_window :: u16

definition upd_c :: "(l2tp_conn \<Rightarrow> l2tp_conn) \<Rightarrow> l2tp_world \<Rightarrow> l2tp_world" where
  "upd_c f w = w\<lparr>conn := f (conn w)\<rparr>"

definition crash :: "l2tp_world \<Rightarrow> l2tp_world" where
  "crash w = w\<lparr>crashed := True\<rparr>"

definition get_sess :: "l2tp_world \<Rightarrow> u16 \<Rightarrow> l2tp_sess option" where
  "get_sess w sid = map_of (c_sessions (conn w)) sid"

definition upd_s :: "u16 \<Rightarrow> (l2tp_sess \<Rightarrow> l2tp_sess) \<Rightarrow> l2tp_world \<Rightarrow> l2tp_world" where
  "upd_s sid f = upd_c (\<lambda>c. c\<lparr>c_sessions := map (\<lambda>(k, s). (k, if k = sid then f s else s)) (c_sessions c)\<rparr>)"

section \<open>Counters and timers\<close>

definition l2tp_stat_inc :: "l2tp_stat_field \<Rightarrow> l2tp_world \<Rightarrow> l2tp_world" where
  "l2tp_stat_inc f w = w\<lparr>stat := (stat w)(f := stat w f + 1)\<rparr>"

definition l2tp_stat_dec :: "l2tp_stat_field \<Rightarrow> l2tp_world \<Rightarrow> l2tp_world" where
  "l2tp_stat_dec f w = w\<lparr>stat := (stat w)(f := stat w f - 1)\<rparr>"

definition l2tp_stat_move :: "l2tp_stat_field \<Rightarrow> l2tp_stat_field \<Rightarrow> l2tp_world \<Rightarrow> l2tp_world" where
  "l2tp_stat_move from to w = l2tp_stat_inc to (l2tp_stat_dec from w)"

text \<open>\<^verbatim>\<open>triton_timer_del\<close> follows \<^verbatim>\<open>tpd\<close>: on a timer that is not registered it reads through a null pointer.\<close>

definition del_timeout :: "l2tp_world \<Rightarrow> l2tp_world" where
  "del_timeout w = (if c_timeout_timer (conn w) then upd_c (\<lambda>c. c\<lparr>c_timeout_timer := False\<rparr>) w else crash w)"

definition del_rtimeout :: "l2tp_world \<Rightarrow> l2tp_world" where
  "del_rtimeout w = (if c_rtimeout_timer (conn w) then upd_c (\<lambda>c. c\<lparr>c_rtimeout_timer := False\<rparr>) w else crash w)"

definition del_hello :: "l2tp_world \<Rightarrow> l2tp_world" where
  "del_hello w = (if c_hello_timer (conn w) then upd_c (\<lambda>c. c\<lparr>c_hello_timer := False\<rparr>) w else crash w)"

definition del_sess_timer :: "u16 \<Rightarrow> l2tp_world \<Rightarrow> l2tp_world" where
  "del_sess_timer sid w =
     (case get_sess w sid of
        Some s \<Rightarrow> if s_timer s then upd_s sid (\<lambda>s. s\<lparr>s_timer := False\<rparr>) w else crash w
      | None \<Rightarrow> crash w)"

section \<open>Sequence numbers\<close>

definition nsnr_cmp :: "u16 \<Rightarrow> u16 \<Rightarrow> int" where
  "nsnr_cmp ns nr =
     (let sub_nsnr = ns - nr; ref = (- 32767 :: u16)
      in (if sub_nsnr \<noteq> 0 \<and> sub_nsnr < ref then 1 else 0) - (if sub_nsnr \<ge> ref then 1 else 0))"

section \<open>Queues\<close>

definition l2tp_tunnel_clear_recvqueue :: "l2tp_world \<Rightarrow> l2tp_world" where
  "l2tp_tunnel_clear_recvqueue = upd_c (\<lambda>c. c\<lparr>c_recv_queue := map (\<lambda>_. None) (c_recv_queue c), c_recv_queue_offt := 0\<rparr>)"

definition l2tp_tunnel_clear_sendqueue :: "l2tp_world \<Rightarrow> l2tp_world" where
  "l2tp_tunnel_clear_sendqueue = upd_c (\<lambda>c. c\<lparr>c_send_queue := [], c_send_queue_len := 0\<rparr>)"

definition l2tp_session_clear_sendqueue :: "u16 \<Rightarrow> l2tp_world \<Rightarrow> l2tp_world" where
  "l2tp_session_clear_sendqueue sid =
     upd_c (\<lambda>c. c\<lparr>c_send_queue := filter (\<lambda>p. p_sess p \<noteq> Some sid) (c_send_queue c),
                  c_send_queue_len := c_send_queue_len c - of_nat (length (filter (\<lambda>p. p_sess p = Some sid) (c_send_queue c)))\<rparr>)"

text \<open>\<^verbatim>\<open>__l2tp_tunnel_send\<close>: the packet with its \<^verbatim>\<open>Nr\<close> set, and whether sending failed.\<close>

definition tunnel_send_now :: "l2tp_env \<Rightarrow> l2tp_packet \<Rightarrow> l2tp_world \<Rightarrow> (l2tp_packet \<times> bool) \<times> l2tp_world" where
  "tunnel_send_now e pack w =
     (let pack = pack\<lparr>p_hdr := (p_hdr pack)\<lparr>hdr_Nr := c_Nr (conn w)\<rparr>, p_ack := length (delivered w)\<rparr>
      in case l2tp_packet_send pack of
           Fault \<Rightarrow> ((pack, True), crash w)
         | Reject \<Rightarrow> ((pack, True), w)
         | Ok _ \<Rightarrow>
             (case e_sendto e pack of
                Sent \<Rightarrow> ((pack, False), w\<lparr>sent := sent w @ [pack]\<rparr>)
              | Lost \<Rightarrow> ((pack, False), w)
              | Failed \<Rightarrow> ((pack, True), w)))"

definition l2tp_tunnel_clean_rtmsqueue :: "l2tp_env \<Rightarrow> l2tp_world \<Rightarrow> l2tp_world \<times> bool" where
  \<comment> \<open>the flag: it failed\<close>
  "l2tp_tunnel_clean_rtmsqueue e w =
     (let q = c_rtms_queue (conn w);
          q' = dropWhile (\<lambda>p. nsnr_cmp (hdr_Ns (p_hdr p)) (c_peer_Nr (conn w)) < 0) q;
          w = upd_c (\<lambda>c. c\<lparr>c_rtms_queue := q'\<rparr>) w
      in if length q' = length q then (w, False)
         else
           let w = upd_c (\<lambda>c. c\<lparr>c_retransmit := 0\<rparr>) w
           in if q' = [] then (if c_rtimeout_timer (conn w) then del_rtimeout w else w, False)
              else
                let w = upd_c (\<lambda>c. c\<lparr>c_period := c_rtimeout c\<rparr>) w
                in if \<not> e_timer e then (w, True)
                   else (upd_c (\<lambda>c. c\<lparr>c_rtimeout_timer := True\<rparr>) w, False))"

text \<open>The loop of \<^verbatim>\<open>l2tp_tunnel_push_sendqueue\<close> over the send queue: the number of packets sent and whether sending failed.\<close>

fun push_loop :: "l2tp_env \<Rightarrow> u16 \<Rightarrow> l2tp_packet list \<Rightarrow> l2tp_world \<Rightarrow> (nat \<times> bool) \<times> l2tp_world" where
  "push_loop e Nr_max [] w = ((0, False), w)"
| "push_loop e Nr_max (pack # q) w =
     (if nsnr_cmp (c_Ns (conn w)) Nr_max \<ge> 0 then ((0, False), w)
      else
        let pack = pack\<lparr>p_hdr := (p_hdr pack)\<lparr>hdr_Ns := c_Ns (conn w)\<rparr>, p_seq := length (committed w)\<rparr>
        in case tunnel_send_now e pack w of
             ((pack, True), w) \<Rightarrow> ((0, True), upd_c (\<lambda>c. c\<lparr>c_send_queue := pack # q\<rparr>) w)
           | ((pack, False), w) \<Rightarrow>
               let w = upd_c (\<lambda>c. c\<lparr>c_send_queue := q, c_rtms_queue := c_rtms_queue c @ [pack\<lparr>p_sess := None\<rparr>],
                                    c_send_queue_len := c_send_queue_len c - 1, c_Ns := c_Ns c + 1\<rparr>) w;
                   w = w\<lparr>committed := committed w @ [pack]\<rparr>
               in case push_loop e Nr_max q w of ((n, failed), w) \<Rightarrow> ((Suc n, failed), w))"

definition l2tp_tunnel_push_sendqueue :: "l2tp_env \<Rightarrow> l2tp_world \<Rightarrow> l2tp_world \<times> int" where
  "l2tp_tunnel_push_sendqueue e w =
     (case push_loop e (c_peer_Nr (conn w) + c_peer_rcv_wnd_sz (conn w)) (c_send_queue (conn w)) w of
        ((n, True), w) \<Rightarrow> (w, -1)
      | ((n, False), w) \<Rightarrow>
          if n = 0 then (w, 0)
          else if \<not> c_rtimeout_timer (conn w) then
            let w = upd_c (\<lambda>c. c\<lparr>c_period := c_rtimeout c\<rparr>) w
            in if e_timer e then (upd_c (\<lambda>c. c\<lparr>c_rtimeout_timer := True\<rparr>) w, 1) else (w, -1)
          else (w, 1))"

abbreviation closing :: "l2tp_state \<Rightarrow> bool" where
  "closing st \<equiv> st = STATE_FIN \<or> st = STATE_FIN_WAIT \<or> st = STATE_CLOSE"

definition l2tp_tunnel_send :: "l2tp_packet \<Rightarrow> l2tp_world \<Rightarrow> l2tp_world \<times> bool" where
  \<comment> \<open>the flag: the packet was discarded\<close>
  "l2tp_tunnel_send pack w =
     (if closing (c_state (conn w)) then (w, True)
      else
        (upd_c (\<lambda>c. c\<lparr>c_send_queue := c_send_queue c @ [pack\<lparr>p_hdr := (p_hdr pack)\<lparr>hdr_tid := c_peer_tid c\<rparr>\<rparr>],
                      c_send_queue_len := c_send_queue_len c + 1\<rparr>) w, False))"

definition l2tp_session_send :: "u16 \<Rightarrow> l2tp_packet \<Rightarrow> l2tp_world \<Rightarrow> l2tp_world \<times> bool" where
  "l2tp_session_send sid pack w =
     (case get_sess w sid of
        None \<Rightarrow> (crash w, True)
      | Some s \<Rightarrow>
          if s_state s = STATE_CLOSE then (w, True)
          else l2tp_tunnel_send (pack\<lparr>p_hdr := (p_hdr pack)\<lparr>hdr_sid := s_peer_sid s\<rparr>, p_sess := Some sid\<rparr>) w)"

definition l2tp_session_try_send :: "u16 \<Rightarrow> l2tp_packet \<Rightarrow> l2tp_world \<Rightarrow> l2tp_world \<times> bool" where
  "l2tp_session_try_send sid pack w =
     (if c_send_queue_len (conn w) \<ge> ucast (c_peer_rcv_wnd_sz (conn w)) then (w, True)
      else (fst (l2tp_session_send sid pack w), False))"

section \<open>Notifications\<close>

text \<open>A packet of the tunnel with the given attributes, or the failure to build it.\<close>

definition make_packet :: "l2tp_env \<Rightarrow> u16 \<Rightarrow> bool \<Rightarrow> avp_req list \<Rightarrow> l2tp_world \<Rightarrow> l2tp_packet option \<times> l2tp_world" where
  "make_packet e msg_type hide rs w =
     (case l2tp_packet_alloc (e_cf e) 2 msg_type (c_port (conn w)) hide (c_secret (conn w)) (rnd w) of
        (None, r) \<Rightarrow> (None, w\<lparr>rnd := r\<rparr>)
      | (Some pack, r) \<Rightarrow>
          (case add_reqs (e_cf e) pack rs r of
             ((pack, True), r) \<Rightarrow> (None, w\<lparr>rnd := r\<rparr>)
           | ((pack, False), r) \<Rightarrow> (Some pack, w\<lparr>rnd := r\<rparr>)))"

abbreviation (input) "MSG_SCCRQ \<equiv> 1 :: u16"
abbreviation (input) "MSG_SCCRP \<equiv> 2 :: u16"
abbreviation (input) "MSG_SCCCN \<equiv> 3 :: u16"
abbreviation (input) "MSG_StopCCN \<equiv> 4 :: u16"
abbreviation (input) "MSG_HELLO \<equiv> 6 :: u16"
abbreviation (input) "MSG_OCRQ \<equiv> 7 :: u16"
abbreviation (input) "MSG_OCRP \<equiv> 8 :: u16"
abbreviation (input) "MSG_OCCN \<equiv> 9 :: u16"
abbreviation (input) "MSG_ICRQ \<equiv> 10 :: u16"
abbreviation (input) "MSG_ICRP \<equiv> 11 :: u16"
abbreviation (input) "MSG_ICCN \<equiv> 12 :: u16"
abbreviation (input) "MSG_CDN \<equiv> 14 :: u16"
abbreviation (input) "MSG_WEN \<equiv> 15 :: u16"
abbreviation (input) "MSG_SLI \<equiv> 16 :: u16"

definition result_code :: "u16 \<Rightarrow> u16 \<Rightarrow> avp_req" where
  "result_code res err = ReqOctets Result_Code (u_write_be16 res @ u_write_be16 err) True"

definition l2tp_send_StopCCN :: "l2tp_env \<Rightarrow> u16 \<Rightarrow> u16 \<Rightarrow> l2tp_world \<Rightarrow> l2tp_world \<times> bool" where
  \<comment> \<open>here and below the flag is the result -1\<close>
  "l2tp_send_StopCCN e res err w =
     (case make_packet e MSG_StopCCN (c_hide (conn w)) [Req16 Assigned_Tunnel_ID (c_tid (conn w)) True, result_code res err] w of
        (None, w) \<Rightarrow> (w, True)
      | (Some pack, w) \<Rightarrow> (fst (l2tp_tunnel_send pack w), False))"

definition l2tp_send_CDN :: "l2tp_env \<Rightarrow> u16 \<Rightarrow> u16 \<Rightarrow> u16 \<Rightarrow> l2tp_world \<Rightarrow> l2tp_world \<times> bool" where
  "l2tp_send_CDN e sid res err w =
     (case get_sess w sid of
        None \<Rightarrow> (crash w, True)
      | Some s \<Rightarrow>
          (case make_packet e MSG_CDN (s_hide s) [Req16 Assigned_Session_ID sid True, result_code res err] w of
             (None, w) \<Rightarrow> (w, True)
           | (Some pack, w) \<Rightarrow> (fst (l2tp_session_send sid pack w), False)))"

definition l2tp_tunnel_send_CDN :: "l2tp_env \<Rightarrow> u16 \<Rightarrow> u16 \<Rightarrow> u16 \<Rightarrow> u16 \<Rightarrow> l2tp_world \<Rightarrow> l2tp_world \<times> bool" where
  "l2tp_tunnel_send_CDN e sid peer_sid res err w =
     (case make_packet e MSG_CDN (c_hide (conn w)) [Req16 Assigned_Session_ID sid True, result_code res err] w of
        (None, w) \<Rightarrow> (w, True)
      | (Some pack, w) \<Rightarrow> (fst (l2tp_tunnel_send (pack\<lparr>p_hdr := (p_hdr pack)\<lparr>hdr_sid := peer_sid\<rparr>\<rparr>) w), False))"

section \<open>Ending sessions and tunnels\<close>

text \<open>
  \<^verbatim>\<open>l2tp_session_free\<close>. \<open>on_last\<close> is what happens to an established tunnel that loses its last session; \<open>rooted\<close> tells whether the tree of the
  tunnel still holds the session (\<^verbatim>\<open>tdestroy\<close> has taken the whole tree otherwise). The session is destroyed at once unless a data channel
  holds it.
\<close>

definition session_free :: "(l2tp_world \<Rightarrow> l2tp_world) \<Rightarrow> bool \<Rightarrow> u16 \<Rightarrow> l2tp_sess \<Rightarrow> l2tp_world \<Rightarrow> l2tp_world" where
  "session_free on_last rooted sid s w =
     (if s_state s \<in> {STATE_CLOSE, STATE_WAIT_SCCRP, STATE_WAIT_SCCCN, STATE_FIN, STATE_FIN_WAIT} then w
      else
        let w = (if s_state s = STATE_ESTB then l2tp_stat_move Sess_active Sess_finishing w else l2tp_stat_move Sess_starting Sess_finishing w);
            w = upd_c (\<lambda>c. c\<lparr>c_send_queue := map (\<lambda>p. if p_sess p = Some sid then p\<lparr>p_sess := None\<rparr> else p) (c_send_queue c)\<rparr>) w;
            w = (if rooted then upd_c (\<lambda>c. c\<lparr>c_sessions := filter (\<lambda>(k, _). k \<noteq> sid) (c_sessions c)\<rparr>) w else w);
            w = (if s_apses s then w\<lparr>lingering := lingering w + 1\<rparr> else l2tp_stat_dec Sess_finishing w);
            w = upd_c (\<lambda>c. c\<lparr>c_sess_count := c_sess_count c - 1\<rparr>) w
        in if c_sess_count (conn w) = 0 \<and> c_state (conn w) = STATE_ESTB then on_last w else w)"

definition l2tp_tunnel_free_sessions :: "l2tp_world \<Rightarrow> l2tp_world" where
  \<comment> \<open>its callers have left \<open>STATE_ESTB\<close>\<close>
  "l2tp_tunnel_free_sessions w =
     (let ss = c_sessions (conn w)
      in fold (\<lambda>(sid, s). session_free crash False sid s) ss (upd_c (\<lambda>c. c\<lparr>c_sessions := []\<rparr>) w))"

text \<open>The tunnel drops its reference to itself: it is destroyed at once unless a lingering session holds it.\<close>

definition tunnel_put :: "l2tp_world \<Rightarrow> l2tp_world" where
  "tunnel_put w = (if lingering w = 0 then l2tp_stat_dec Conn_finishing w else w)"

definition l2tp_tunnel_free :: "l2tp_world \<Rightarrow> l2tp_world" where
  "l2tp_tunnel_free w =
     (let st = c_state (conn w)
      in if st \<in> {STATE_CLOSE, STATE_WAIT_ICRP, STATE_WAIT_ICCN, STATE_WAIT_OCRP, STATE_WAIT_OCCN} then w
         else
           let w = (if st = STATE_ESTB then l2tp_stat_move Conn_active Conn_finishing w
                    else if st = STATE_FIN \<or> st = STATE_FIN_WAIT then w
                    else l2tp_stat_move Conn_starting Conn_finishing w);
               w = upd_c (\<lambda>c. c\<lparr>c_state := STATE_CLOSE\<rparr>) w;
               w = w\<lparr>in_table := False\<rparr>;
               w = upd_c (\<lambda>c. c\<lparr>c_hnd := False, c_timeout_timer := False, c_rtimeout_timer := False, c_hello_timer := False, c_rtms_queue := []\<rparr>) w;
               w = l2tp_tunnel_clear_sendqueue w;
               w = l2tp_tunnel_clear_recvqueue w
           in tunnel_put (l2tp_tunnel_free_sessions w))"

definition l2tp_tunnel_disconnect :: "l2tp_env \<Rightarrow> u16 \<Rightarrow> u16 \<Rightarrow> l2tp_world \<Rightarrow> l2tp_world \<times> bool" where
  "l2tp_tunnel_disconnect e res err w =
     (let st = c_state (conn w)
      in if st \<notin> {STATE_INIT, STATE_WAIT_SCCRP, STATE_WAIT_SCCCN, STATE_ESTB} then (w, False)
         else
           let w = (if st = STATE_ESTB then l2tp_stat_move Conn_active Conn_finishing w else l2tp_stat_move Conn_starting Conn_finishing w);
               w = l2tp_tunnel_clear_sendqueue w
           in case l2tp_send_StopCCN e res err w of
                (w, True) \<Rightarrow> (l2tp_tunnel_free (upd_c (\<lambda>c. c\<lparr>c_state := STATE_FIN\<rparr>) w), True)
              | (w, False) \<Rightarrow>
                  let w = upd_c (\<lambda>c. c\<lparr>c_state := STATE_FIN, c_timeout_timer := False, c_hello_timer := False\<rparr>) w
                  in (l2tp_tunnel_free_sessions w, False))"

definition l2tp_tunnel_disconnect_push :: "l2tp_env \<Rightarrow> u16 \<Rightarrow> u16 \<Rightarrow> l2tp_world \<Rightarrow> l2tp_world" where
  "l2tp_tunnel_disconnect_push e res err w =
     (case l2tp_tunnel_disconnect e res err w of
        (w, True) \<Rightarrow> w
      | (w, False) \<Rightarrow>
          (case l2tp_tunnel_push_sendqueue e w of (w, r) \<Rightarrow> if r < 0 then l2tp_tunnel_free w else w))"

definition l2tp_session_free :: "l2tp_env \<Rightarrow> u16 \<Rightarrow> l2tp_world \<Rightarrow> l2tp_world" where
  "l2tp_session_free e sid w =
     (case get_sess w sid of
        None \<Rightarrow> crash w
      | Some s \<Rightarrow> session_free (l2tp_tunnel_disconnect_push e 1 0) True sid s w)"

definition l2tp_session_disconnect :: "l2tp_env \<Rightarrow> u16 \<Rightarrow> u16 \<Rightarrow> u16 \<Rightarrow> l2tp_world \<Rightarrow> l2tp_world" where
  "l2tp_session_disconnect e sid res err w =
     l2tp_session_free e sid (fst (l2tp_send_CDN e sid res err (l2tp_session_clear_sendqueue sid w)))"

definition l2tp_session_disconnect_push :: "l2tp_env \<Rightarrow> u16 \<Rightarrow> u16 \<Rightarrow> u16 \<Rightarrow> l2tp_world \<Rightarrow> l2tp_world" where
  "l2tp_session_disconnect_push e sid res err w =
     (case l2tp_send_CDN e sid res err w of
        (w, failed) \<Rightarrow> l2tp_session_free e sid (if failed then w else fst (l2tp_tunnel_push_sendqueue e w)))"

end
