(* ===== verification/L2tpMessages.thy ===== *)
theory L2tpMessages
  imports L2tpState
begin

text \<open>
  The control messages of L2TP (\<^verbatim>\<open>ctrl/l2tp/l2tp.c\<close>): setting tunnels up with challenge and response, the messages that
  sessions send and receive, and the timers. A handler that returns an error code is a function to the state and a flag;
  its log output is left out.
\<close>

section \<open>Challenges\<close>

definition comp_chap_md5 :: "(bytes \<Rightarrow> bytes) \<Rightarrow> u8 \<Rightarrow> bytes \<Rightarrow> bytes \<Rightarrow> bytes" where
  "comp_chap_md5 md5 ident secret chall = md5 ([ident] @ secret @ chall)"

text \<open>Whether a secret is set: \<^verbatim>\<open>secret != NULL && secret_len > 0\<close>.\<close>

definition secret_of :: "l2tp_conn \<Rightarrow> bytes option" where
  "secret_of c = (case c_secret c of Some (b # bs) \<Rightarrow> Some (b # bs) | _ \<Rightarrow> None)"

definition l2tp_tunnel_genchall :: "l2tp_env \<Rightarrow> nat \<Rightarrow> l2tp_packet \<Rightarrow> l2tp_world \<Rightarrow> (l2tp_packet \<times> bool) \<times> l2tp_world" where
  "l2tp_tunnel_genchall e chall_len pack w =
     (if chall_len = 0 \<or> secret_of (conn w) = None then ((pack, False), upd_c (\<lambda>c. c\<lparr>c_challenge := None\<rparr>) w)
      else
        case u_randbuf chall_len (rnd w) of
          (None, r) \<Rightarrow> ((pack, True), upd_c (\<lambda>c. c\<lparr>c_challenge := None\<rparr>) (w\<lparr>rnd := r\<rparr>))
        | (Some chall, r) \<Rightarrow>
            (case l2tp_packet_add_octets (e_cf e) pack Challenge chall True r of
               ((pack, True), r) \<Rightarrow> ((pack, True), upd_c (\<lambda>c. c\<lparr>c_challenge := None\<rparr>) (w\<lparr>rnd := r\<rparr>))
             | ((pack, False), r) \<Rightarrow> ((pack, False), upd_c (\<lambda>c. c\<lparr>c_challenge := Some chall\<rparr>) (w\<lparr>rnd := r, challenges := challenges w @ [chall]\<rparr>))))"

text \<open>A pointer member of an attribute's value is read \<^verbatim>\<open>length\<close> bytes far; any other member makes the model crash.\<close>

definition attr_octets :: "l2tp_attr \<Rightarrow> bytes option" where
  "attr_octets a = (case bind_parse (val_octets (la_val a)) (\<lambda>b. read_bytes b 0 (la_length a)) of Ok b \<Rightarrow> Some b | _ \<Rightarrow> None)"

text \<open>
  An empty Challenge: with no challenge stored nothing happens; otherwise \<^verbatim>\<open>_realloc(conn->challenge, 0)\<close> frees the buffer and returns null, and the
  error path frees it a second time.
\<close>

definition l2tp_tunnel_storechall :: "l2tp_attr option \<Rightarrow> l2tp_world \<Rightarrow> l2tp_world \<times> bool" where
  "l2tp_tunnel_storechall chall w =
     (case chall of
        None \<Rightarrow> (upd_c (\<lambda>c. c\<lparr>c_challenge := None\<rparr>) w, False)
      | Some a \<Rightarrow>
          if secret_of (conn w) = None then (upd_c (\<lambda>c. c\<lparr>c_challenge := None\<rparr>) w, True)
          else if la_length a = 0 then (if c_challenge (conn w) = None then (w, False) else (crash w, True))
          else case attr_octets a of
                 None \<Rightarrow> (crash w, True)
               | Some b \<Rightarrow> (upd_c (\<lambda>c. c\<lparr>c_challenge := Some b\<rparr>) w, False))"

definition l2tp_tunnel_genchallresp :: "l2tp_env \<Rightarrow> u8 \<Rightarrow> l2tp_packet \<Rightarrow> l2tp_world \<Rightarrow> (l2tp_packet \<times> bool) \<times> l2tp_world" where
  "l2tp_tunnel_genchallresp e msgident pack w =
     (case c_challenge (conn w) of
        None \<Rightarrow> ((pack, False), w)
      | Some chall \<Rightarrow>
          (case secret_of (conn w) of
             None \<Rightarrow> ((pack, True), w)
           | Some secret \<Rightarrow>
               (case l2tp_packet_add_octets (e_cf e) pack Challenge_Response
                       (comp_chap_md5 (lc_md5 (e_cf e)) msgident secret chall) True (rnd w) of
                  ((pack, failed), r) \<Rightarrow> ((pack, failed), w\<lparr>rnd := r\<rparr>))))"

definition l2tp_tunnel_checkchallresp :: "l2tp_env \<Rightarrow> u8 \<Rightarrow> l2tp_attr option \<Rightarrow> l2tp_world \<Rightarrow> l2tp_world \<times> bool" where
  "l2tp_tunnel_checkchallresp e msgident challresp w =
     (case secret_of (conn w) of
        None \<Rightarrow> (w, False)
      | Some secret \<Rightarrow>
          (case (c_challenge (conn w), challresp) of
             (Some chall, Some a) \<Rightarrow>
               if la_length a \<noteq> MD5_LEN then (w, True)
               else case attr_octets a of
                      None \<Rightarrow> (crash w, True)
                    | Some b \<Rightarrow> (w, comp_chap_md5 (lc_md5 (e_cf e)) msgident secret chall \<noteq> b)
           | _ \<Rightarrow> (w, True)))"

section \<open>Attributes of a message\<close>

text \<open>The loops over the attributes keep the last one of each kind.\<close>

definition last_attr :: "int \<Rightarrow> l2tp_attr list \<Rightarrow> l2tp_attr option" where
  "last_attr i as = find (\<lambda>a. lda_id (la_attr a) = i) (rev as)"

definition unknown_mandatory :: "int list \<Rightarrow> l2tp_attr list \<Rightarrow> bool" where
  "unknown_mandatory known as = list_ex (\<lambda>a. lda_id (la_attr a) \<notin> set known \<and> la_M a) as"

text \<open>\<^verbatim>\<open>val.uint16\<close>, whatever member was stored: the low bytes of a wider integer or of an address.\<close>

fun val_uint16 :: "l2tp_env \<Rightarrow> l2tp_value \<Rightarrow> u16" where
  "val_uint16 e (V16 x) = x"
| "val_uint16 e (V32 x) = ucast x"
| "val_uint16 e (V64 x) = ucast x"
| "val_uint16 e (VOctets b) = ucast (e_addr e b)"

section \<open>Sending tunnel messages\<close>

definition l2tp_send_ZLB :: "l2tp_env \<Rightarrow> l2tp_world \<Rightarrow> l2tp_world \<times> bool" where
  "l2tp_send_ZLB e w =
     (case l2tp_packet_alloc (e_cf e) 2 0 (c_port (conn w)) False None (rnd w) of
        (None, r) \<Rightarrow> (w\<lparr>rnd := r\<rparr>, True)
      | (Some pack, r) \<Rightarrow>
          let pack = pack\<lparr>p_hdr := (p_hdr pack)\<lparr>hdr_tid := c_peer_tid (conn w), hdr_Ns := c_Ns (conn w)\<rparr>, p_seq := length (committed w)\<rparr>
          in case tunnel_send_now e pack (w\<lparr>rnd := r\<rparr>) of ((pack, failed), w) \<Rightarrow> (w, failed))"

definition l2tp_send_HELLO :: "l2tp_env \<Rightarrow> l2tp_world \<Rightarrow> l2tp_world" where
  "l2tp_send_HELLO e w =
     (case make_packet e MSG_HELLO (c_hide (conn w)) [] w of
        (None, w) \<Rightarrow> l2tp_tunnel_free w
      | (Some pack, w) \<Rightarrow>
          (case l2tp_tunnel_push_sendqueue e (fst (l2tp_tunnel_send pack w)) of
             (w, r) \<Rightarrow> if r < 0 then l2tp_tunnel_free w else w))"

text \<open>The length of a challenge: a random \<^verbatim>\<open>uint16_t\<close>, masked.\<close>

definition with_challenge :: "l2tp_env \<Rightarrow> l2tp_packet \<Rightarrow> l2tp_world \<Rightarrow> (l2tp_packet \<times> bool) \<times> l2tp_world" where
  "with_challenge e pack w =
     (case u_randbuf 2 (rnd w) of
        (None, r) \<Rightarrow> ((pack, True), w\<lparr>rnd := r\<rparr>)
      | (Some b, r) \<Rightarrow> l2tp_tunnel_genchall e (rand_len b) pack (w\<lparr>rnd := r\<rparr>))"

definition sccrx_attrs :: "l2tp_env \<Rightarrow> l2tp_conn \<Rightarrow> avp_req list" where
  "sccrx_attrs e c =
     [Req16 Protocol_Version 256 True, ReqString Host_Name (e_host_name e) True, Req32 Framing_Capabilities (c_framing_cap c) True,
      Req16 Assigned_Tunnel_ID (c_tid c) True, ReqString Vendor_Name (map (\<lambda>ch. of_char ch) ''accel-ppp'') False,
      Req16 Recv_Window_Size (of_nat (c_recv_queue_sz c)) True]"

definition l2tp_send_SCCRQ :: "l2tp_env \<Rightarrow> l2tp_world \<Rightarrow> l2tp_world" where
  "l2tp_send_SCCRQ e w =
     (case make_packet e MSG_SCCRQ (c_hide (conn w)) (sccrx_attrs e (conn w)) w of
        (None, w) \<Rightarrow> l2tp_tunnel_free w
      | (Some pack, w) \<Rightarrow>
          (case with_challenge e pack w of
             ((pack, True), w) \<Rightarrow> l2tp_tunnel_free w
           | ((pack, False), w) \<Rightarrow>
               (case l2tp_tunnel_push_sendqueue e (fst (l2tp_tunnel_send pack w)) of
                  (w, r) \<Rightarrow> if r < 0 then l2tp_tunnel_free w else upd_c (\<lambda>c. c\<lparr>c_state := STATE_WAIT_SCCRP\<rparr>) w)))"

definition l2tp_send_SCCRP :: "l2tp_env \<Rightarrow> l2tp_world \<Rightarrow> l2tp_world" where
  "l2tp_send_SCCRP e w =
     (case make_packet e MSG_SCCRP (c_hide (conn w)) (sccrx_attrs e (conn w)) w of
        (None, w) \<Rightarrow> l2tp_tunnel_free w
      | (Some pack, w) \<Rightarrow>
          (case l2tp_tunnel_genchallresp e (ucast MSG_SCCRP) pack w of
             ((pack, True), w) \<Rightarrow> l2tp_tunnel_free w
           | ((pack, False), w) \<Rightarrow>
               (case with_challenge e pack w of
                  ((pack, True), w) \<Rightarrow> l2tp_tunnel_free w
                | ((pack, False), w) \<Rightarrow>
                    (case l2tp_tunnel_push_sendqueue e (fst (l2tp_tunnel_send pack w)) of
                       (w, r) \<Rightarrow> if r < 0 then l2tp_tunnel_free w else upd_c (\<lambda>c. c\<lparr>c_state := STATE_WAIT_SCCCN\<rparr>) w))))"

definition l2tp_send_SCCCN :: "l2tp_env \<Rightarrow> l2tp_world \<Rightarrow> l2tp_world \<times> bool" where
  "l2tp_send_SCCCN e w =
     (case make_packet e MSG_SCCCN (c_hide (conn w)) [] w of
        (None, w) \<Rightarrow> (w, True)
      | (Some pack, w) \<Rightarrow>
          (case l2tp_tunnel_genchallresp e (ucast MSG_SCCCN) pack w of
             ((pack, True), w) \<Rightarrow> (w, True)
           | ((pack, False), w) \<Rightarrow>
               let w = fst (l2tp_tunnel_storechall None w)
               in (fst (l2tp_tunnel_send pack w), False)))"

section \<open>Tunnel set-up and end\<close>

definition l2tp_tunnel_connect :: "l2tp_env \<Rightarrow> l2tp_world \<Rightarrow> l2tp_world \<times> bool" where
  "l2tp_tunnel_connect e w =
     (let w = (if c_timeout_timer (conn w) then del_timeout w else w)
      in if \<not> e_connect e then (w, True)
         else if e_hello_interval e \<noteq> 0 \<and> \<not> e_timer e then (w, True)
         else
           let w = (if e_hello_interval e \<noteq> 0 then upd_c (\<lambda>c. c\<lparr>c_hello_timer := True\<rparr>) w else w);
               w = l2tp_stat_move Conn_starting Conn_active w
           in (upd_c (\<lambda>c. c\<lparr>c_state := STATE_ESTB, c_was_estb := True\<rparr>) w, False))"

text \<open>The steps of \<^verbatim>\<open>l2tp_recv_SCCRP\<close> that store the peer's window, and that authenticate the peer and answer it.\<close>

definition sccrp_window :: "l2tp_env \<Rightarrow> l2tp_attr list \<Rightarrow> l2tp_world \<Rightarrow> l2tp_world \<times> bool" where
  "sccrp_window e as w =
     (case last_attr Recv_Window_Size as of
        None \<Rightarrow> (w, False)
      | Some rws \<Rightarrow>
          let sz = val_uint16 e (la_val rws)
          in if sz = 0 \<or> sz > 32768 then (upd_c (\<lambda>c. c\<lparr>c_peer_rcv_wnd_sz := 4\<rparr>) w, True)
             else (upd_c (\<lambda>c. c\<lparr>c_peer_rcv_wnd_sz := sz\<rparr>) w, False))"

definition sccrp_reply :: "l2tp_env \<Rightarrow> l2tp_attr list \<Rightarrow> l2tp_world \<Rightarrow> l2tp_world" where
  "sccrp_reply e as w =
     (case l2tp_tunnel_checkchallresp e (ucast MSG_SCCRP) (last_attr Challenge_Response as) w of
        (w, True) \<Rightarrow> fst (l2tp_tunnel_disconnect e 4 0 w)
      | (w, False) \<Rightarrow>
          (case l2tp_tunnel_storechall (last_attr Challenge as) w of
             (w, True) \<Rightarrow> fst (l2tp_tunnel_disconnect e 2 4 w)
           | (w, False) \<Rightarrow>
               (case l2tp_send_SCCCN e w of
                  (w, True) \<Rightarrow> fst (l2tp_tunnel_disconnect e 2 0 w)
                | (w, False) \<Rightarrow>
                    (case l2tp_tunnel_connect e w of
                       (w, True) \<Rightarrow> fst (l2tp_tunnel_disconnect e 2 0 w)
                     | (w, False) \<Rightarrow> w))))"

definition l2tp_recv_SCCRP :: "l2tp_env \<Rightarrow> l2tp_packet \<Rightarrow> l2tp_world \<Rightarrow> l2tp_world" where
  "l2tp_recv_SCCRP e pack w =
     (if c_state (conn w) \<noteq> STATE_WAIT_SCCRP then w
      else
        let as = p_attrs pack
        in case last_attr Assigned_Tunnel_ID as of
             None \<Rightarrow> fst (l2tp_tunnel_disconnect e 2 0 w)
           | Some tid \<Rightarrow>
               let w = upd_c (\<lambda>c. c\<lparr>c_peer_tid := val_uint16 e (la_val tid)\<rparr>) w
               in if unknown_mandatory [Message_Type, Random_Vector, Host_Name, Bearer_Capabilities, Firmware_Revision, Vendor_Name,
                       Protocol_Version, Framing_Capabilities, Assigned_Tunnel_ID, Recv_Window_Size, Challenge, Challenge_Response] as
                  then fst (l2tp_tunnel_disconnect e 2 8 w)
                  else if last_attr Framing_Capabilities as = None then fst (l2tp_tunnel_disconnect e 2 0 w)
                  else
                    case last_attr Protocol_Version as of
                      None \<Rightarrow> fst (l2tp_tunnel_disconnect e 2 0 w)
                    | Some pv \<Rightarrow>
                        if val_uint16 e (la_val pv) \<noteq> 256 then fst (l2tp_tunnel_disconnect e 5 0 w)
                        else
                          case sccrp_window e as w of
                            (w, True) \<Rightarrow> fst (l2tp_tunnel_disconnect e 2 3 w)
                          | (w, False) \<Rightarrow> sccrp_reply e as w)"

definition l2tp_recv_SCCCN :: "l2tp_env \<Rightarrow> l2tp_packet \<Rightarrow> l2tp_world \<Rightarrow> l2tp_world" where
  "l2tp_recv_SCCCN e pack w =
     (if c_state (conn w) \<noteq> STATE_WAIT_SCCCN then w
      else
        let as = p_attrs pack;
            disconnect = (\<lambda>res err w. fst (l2tp_tunnel_disconnect e res err w))
        in if unknown_mandatory [Message_Type, Host_Name, Vendor_Name, Bearer_Capabilities, Recv_Window_Size, Protocol_Version,
                Framing_Capabilities, Assigned_Tunnel_ID, Random_Vector, Challenge_Response] as
           then disconnect 2 8 w
           else
             case l2tp_tunnel_checkchallresp e (ucast MSG_SCCCN) (last_attr Challenge_Response as) w of
               (w, True) \<Rightarrow> disconnect 4 0 w
             | (w, False) \<Rightarrow>
                 let w = fst (l2tp_tunnel_storechall None w)
                 in case l2tp_tunnel_connect e w of
                      (w, True) \<Rightarrow> disconnect 2 0 w
                    | (w, False) \<Rightarrow> w)"

text \<open>The loop that adds up the retransmission periods.\<close>

fun finwait_period :: "int \<Rightarrow> int \<Rightarrow> nat \<Rightarrow> int" where
  "finwait_period cap rtimeout 0 = 0"
| "finwait_period cap rtimeout (Suc n) = rtimeout + finwait_period cap (if rtimeout * 2 > cap then cap else rtimeout * 2) n"

definition l2tp_tunnel_finwait :: "l2tp_env \<Rightarrow> l2tp_world \<Rightarrow> l2tp_world" where
  "l2tp_tunnel_finwait e w =
     (let st = c_state (conn w)
      in if st \<notin> {STATE_WAIT_SCCRP, STATE_WAIT_SCCCN, STATE_ESTB, STATE_FIN} then w
         else
           let w = (if st = STATE_ESTB then l2tp_stat_move Conn_active Conn_finishing w
                    else if st = STATE_FIN then w else l2tp_stat_move Conn_starting Conn_finishing w);
               w = upd_c (\<lambda>c. c\<lparr>c_state := STATE_FIN_WAIT, c_timeout_timer := False, c_hello_timer := False\<rparr>) w;
               w = l2tp_tunnel_clear_sendqueue w;
               w = l2tp_tunnel_free_sessions w;
               w = upd_c (\<lambda>c. c\<lparr>c_timeout_period := finwait_period (c_rtimeout_cap c) (c_rtimeout c) (nat (c_max_retransmit c)), c_finwait := True\<rparr>) w
           in if \<not> e_timer e then l2tp_tunnel_free (fst (l2tp_send_ZLB e w))
              else upd_c (\<lambda>c. c\<lparr>c_timeout_timer := True\<rparr>) w)"

text \<open>\<^verbatim>\<open>rescode_get_data\<close>: result code, error code and message; \<open>Reject\<close> is the result -1.\<close>

definition rescode_get_data :: "l2tp_attr \<Rightarrow> (u16 \<times> u16 option \<times> bytes option) parse" where
  "rescode_get_data a =
     (if la_length a \<noteq> 2 \<and> la_length a < 4 then Reject
      else
        case attr_octets a of
          None \<Rightarrow> Fault
        | Some b \<Rightarrow>
            if la_length a = 2 then Ok (u_read_be16 b, None, None)
            else Ok (u_read_be16 b, Some (u_read_be16 (drop 2 b)), if la_length a = 4 then None else Some (drop 4 b)))"

text \<open>What the code reads here goes to the log only: it matters that it can be read.\<close>

definition log_result_code :: "l2tp_attr list \<Rightarrow> l2tp_world \<Rightarrow> l2tp_world" where
  "log_result_code as w =
     (case last_attr Result_Code as of
        None \<Rightarrow> w
      | Some a \<Rightarrow> (case rescode_get_data a of Fault \<Rightarrow> crash w | _ \<Rightarrow> w))"

definition l2tp_recv_StopCCN :: "l2tp_env \<Rightarrow> l2tp_packet \<Rightarrow> l2tp_world \<Rightarrow> l2tp_world" where
  "l2tp_recv_StopCCN e pack w =
     (if c_state (conn w) = STATE_CLOSE \<or> c_state (conn w) = STATE_FIN_WAIT then w
      else
        let w = (case last_attr Assigned_Tunnel_ID (p_attrs pack) of
                   None \<Rightarrow> w
                 | Some tid \<Rightarrow> if c_peer_tid (conn w) = 0 then upd_c (\<lambda>c. c\<lparr>c_peer_tid := val_uint16 e (la_val tid)\<rparr>) w else w)
        in l2tp_tunnel_finwait e (log_result_code (p_attrs pack) w))"

text \<open>\<^verbatim>\<open>l2tp_recv_HELLO\<close> only restarts the timer of the HELLO messages.\<close>

definition l2tp_recv_HELLO :: "l2tp_world \<Rightarrow> l2tp_world" where
  "l2tp_recv_HELLO w = w"

section \<open>Sessions\<close>

abbreviation (input) "Call_Serial_Number \<equiv> 15 :: int"
abbreviation (input) "Minimum_BPS \<equiv> 16 :: int"
abbreviation (input) "Maximum_BPS \<equiv> 17 :: int"
abbreviation (input) "Bearer_Type \<equiv> 18 :: int"
abbreviation (input) "Framing_Type \<equiv> 19 :: int"
abbreviation (input) "Called_Number \<equiv> 21 :: int"
abbreviation (input) "Calling_Number \<equiv> 22 :: int"
abbreviation (input) "Sub_Address \<equiv> 23 :: int"
abbreviation (input) "TX_Speed \<equiv> 24 :: int"
abbreviation (input) "Physical_Channel_ID \<equiv> 25 :: int"
abbreviation (input) "Sequencing_Required \<equiv> 39 :: int"
abbreviation (input) "L2TP_DATASEQ_DENY \<equiv> 0 :: int"
abbreviation (input) "L2TP_DATASEQ_PREFER \<equiv> 1 :: int"
abbreviation (input) "L2TP_DATASEQ_REQUIRE \<equiv> 2 :: int"

text \<open>The loop of \<^verbatim>\<open>l2tp_tunnel_new_session\<close>: at most 65535 random numbers are tried.\<close>

fun pick_id :: "(u16 \<Rightarrow> bool) \<Rightarrow> nat \<Rightarrow> rand \<Rightarrow> u16 option \<times> rand" where
  "pick_id used 0 r = (None, r)"
| "pick_id used (Suc n) r =
     (case u_randbuf 2 r of
        (None, r) \<Rightarrow> (None, r)
      | (Some b, r) \<Rightarrow>
          let x = push_bit 8 (ucast (b ! 1)) OR ucast (b ! 0)
          in if x = 0 \<or> used x then pick_id used n r else (Some x, r))"

text \<open>A session as \<^verbatim>\<open>memset\<close> leaves it; \<^verbatim>\<open>tsearch\<close> has put it into the tree under its number.\<close>

definition zero_sess :: l2tp_sess where
  "zero_sess = \<lparr>s_peer_sid = 0, s_calling = None, s_called = None, s_state = STATE_INIT, s_lns_mode = False, s_hide = False,
     s_send_seq = False, s_recv_seq = False, s_timer = False, s_ctrl_started = False, s_fd = False, s_apses = False\<rparr>"

definition l2tp_tunnel_new_session :: "l2tp_world \<Rightarrow> u16 option \<times> l2tp_world" where
  "l2tp_tunnel_new_session w =
     (case pick_id (\<lambda>x. get_sess w x \<noteq> None) 65535 (rnd w) of
        (None, r) \<Rightarrow> (None, w\<lparr>rnd := r\<rparr>)
      | (Some sid, r) \<Rightarrow>
          (Some sid, upd_c (\<lambda>c. c\<lparr>c_sessions := c_sessions c @ [(sid, zero_sess)], c_sess_count := c_sess_count c + 1\<rparr>) (w\<lparr>rnd := r\<rparr>)))"

definition l2tp_tunnel_alloc_session :: "l2tp_env \<Rightarrow> l2tp_world \<Rightarrow> u16 option \<times> l2tp_world" where
  "l2tp_tunnel_alloc_session e w =
     (case l2tp_tunnel_new_session w of
        (None, w) \<Rightarrow> (None, w)
      | (Some sid, w) \<Rightarrow>
          (Some sid,
           l2tp_stat_inc Sess_starting
             (upd_s sid (\<lambda>s. s\<lparr>s_peer_sid := 0, s_state := STATE_INIT, s_lns_mode := c_lns_mode (conn w), s_hide := c_hide (conn w),
                s_send_seq := (e_dataseq e = L2TP_DATASEQ_PREFER \<or> e_dataseq e = L2TP_DATASEQ_REQUIRE),
                s_recv_seq := (e_dataseq e = L2TP_DATASEQ_REQUIRE)\<rparr>) w)))"

text \<open>A message of a session: built with its setting for hiding and sent on its queue.\<close>

definition session_message :: "l2tp_env \<Rightarrow> u16 \<Rightarrow> (l2tp_sess \<Rightarrow> u16 \<times> avp_req list) \<Rightarrow> l2tp_world \<Rightarrow> l2tp_packet option \<times> l2tp_world" where
  "session_message e sid rs w =
     (case get_sess w sid of
        None \<Rightarrow> (None, crash w)
      | Some s \<Rightarrow> (case rs s of (msg, as) \<Rightarrow> make_packet e msg (s_hide s) as w))"

text \<open>The numbers are stored with a final zero and sent up to their first zero.\<close>

definition c_string :: "bytes \<Rightarrow> bytes" where
  "c_string b = takeWhile (\<lambda>x. x \<noteq> 0) b"

definition l2tp_send_ICRQ :: "l2tp_env \<Rightarrow> u16 \<Rightarrow> l2tp_world \<Rightarrow> l2tp_world \<times> bool" where
  "l2tp_send_ICRQ e sid w =
     (case session_message e sid (\<lambda>s. (MSG_ICRQ, [Req16 Assigned_Session_ID sid True, Req32 Call_Serial_Number 0 True] @
            (case s_calling s of Some b \<Rightarrow> [ReqString Calling_Number (c_string b) True] | None \<Rightarrow> []) @
            (case s_called s of Some b \<Rightarrow> [ReqString Called_Number (c_string b) True] | None \<Rightarrow> []))) w of
        (None, w) \<Rightarrow> (w, True)
      | (Some pack, w) \<Rightarrow> l2tp_session_try_send sid pack w)"

definition l2tp_send_ICRP :: "l2tp_env \<Rightarrow> u16 \<Rightarrow> l2tp_world \<Rightarrow> l2tp_world \<times> bool" where
  "l2tp_send_ICRP e sid w =
     (case session_message e sid (\<lambda>s. (MSG_ICRP, [Req16 Assigned_Session_ID sid True])) w of
        (None, w) \<Rightarrow> (w, True)
      | (Some pack, w) \<Rightarrow> (fst (l2tp_session_send sid pack w), False))"

definition l2tp_send_ICCN :: "l2tp_env \<Rightarrow> u16 \<Rightarrow> l2tp_world \<Rightarrow> l2tp_world \<times> bool" where
  "l2tp_send_ICCN e sid w =
     (case session_message e sid (\<lambda>s. (MSG_ICCN, [Req32 TX_Speed 1000 True, Req32 Framing_Type 3 True] @
            (if s_send_seq s then [ReqOctets Sequencing_Required [] True] else []))) w of
        (None, w) \<Rightarrow> (w, True)
      | (Some pack, w) \<Rightarrow> (fst (l2tp_session_send sid pack w), False))"

definition l2tp_send_OCRQ :: "l2tp_env \<Rightarrow> u16 \<Rightarrow> l2tp_world \<Rightarrow> l2tp_world \<times> bool" where
  "l2tp_send_OCRQ e sid w =
     (case session_message e sid (\<lambda>s. (MSG_OCRQ, [Req16 Assigned_Session_ID sid True, Req32 Call_Serial_Number 0 True, Req32 Minimum_BPS 100 True,
            Req32 Maximum_BPS 100000 True, Req32 Bearer_Type 3 True, Req32 Framing_Type 3 True, ReqString Called_Number [] True])) w of
        (None, w) \<Rightarrow> (w, True)
      | (Some pack, w) \<Rightarrow> l2tp_session_try_send sid pack w)"

definition l2tp_send_OCRP :: "l2tp_env \<Rightarrow> u16 \<Rightarrow> l2tp_world \<Rightarrow> l2tp_world \<times> bool" where
  "l2tp_send_OCRP e sid w =
     (case session_message e sid (\<lambda>s. (MSG_OCRP, [Req16 Assigned_Session_ID sid True])) w of
        (None, w) \<Rightarrow> (w, True)
      | (Some pack, w) \<Rightarrow> (fst (l2tp_session_send sid pack w), False))"

definition l2tp_send_OCCN :: "l2tp_env \<Rightarrow> u16 \<Rightarrow> l2tp_world \<Rightarrow> l2tp_world \<times> bool" where
  "l2tp_send_OCCN e sid w =
     (case session_message e sid (\<lambda>s. (MSG_OCCN, [Req32 TX_Speed 1000 True, Req32 Framing_Type 3 True] @
            (if s_send_seq s then [ReqOctets Sequencing_Required [] True] else []))) w of
        (None, w) \<Rightarrow> (w, True)
      | (Some pack, w) \<Rightarrow> (fst (l2tp_session_send sid pack w), False))"

text \<open>
  \<^verbatim>\<open>l2tp_session_connect\<close>: the timer of the set-up is stopped first; a data channel that does not start leaves the session
  established without a socket.
\<close>

definition l2tp_session_connect :: "l2tp_env \<Rightarrow> u16 \<Rightarrow> l2tp_world \<Rightarrow> l2tp_world \<times> bool" where
  "l2tp_session_connect e sid w =
     (case get_sess w sid of
        None \<Rightarrow> (crash w, True)
      | Some s \<Rightarrow>
          let w = (if s_timer s then del_sess_timer sid w else w)
          in if \<not> e_sess_connect e then (upd_s sid (\<lambda>s. s\<lparr>s_fd := False\<rparr>) w, True)
             else
               let w = upd_s sid (\<lambda>s. s\<lparr>s_fd := True, s_ctrl_started := True\<rparr>) w;
                   w = l2tp_stat_move Sess_starting Sess_active w;
                   w = upd_s sid (\<lambda>s. s\<lparr>s_state := STATE_ESTB\<rparr>) w
               in if e_data e then (upd_s sid (\<lambda>s. s\<lparr>s_apses := True\<rparr>) w, False)
                  else (upd_s sid (\<lambda>s. s\<lparr>s_fd := False\<rparr>) w, True))"

definition l2tp_session_incall_reply :: "l2tp_env \<Rightarrow> u16 \<Rightarrow> l2tp_world \<Rightarrow> l2tp_world \<times> bool" where
  "l2tp_session_incall_reply e sid w =
     (if \<not> e_timer e then (w, True)
      else
        case l2tp_send_ICRP e sid (upd_s sid (\<lambda>s. s\<lparr>s_timer := True\<rparr>) w) of
          (w, True) \<Rightarrow> (del_sess_timer sid w, True)
        | (w, False) \<Rightarrow> (upd_s sid (\<lambda>s. s\<lparr>s_state := STATE_WAIT_ICCN\<rparr>) w, False))"

definition l2tp_session_outcall_reply :: "l2tp_env \<Rightarrow> u16 \<Rightarrow> l2tp_world \<Rightarrow> l2tp_world \<times> bool" where
  "l2tp_session_outcall_reply e sid w =
     (if \<not> e_timer e then (w, True)
      else
        case l2tp_send_OCRP e sid (upd_s sid (\<lambda>s. s\<lparr>s_timer := True\<rparr>) w) of
          (w, True) \<Rightarrow> (del_sess_timer sid w, True)
        | (w, False) \<Rightarrow>
            (case l2tp_send_OCCN e sid w of
               (w, True) \<Rightarrow> (del_sess_timer sid w, True)
             | (w, False) \<Rightarrow>
                 (case l2tp_session_connect e sid w of
                    (w, True) \<Rightarrow> (del_sess_timer sid w, True)
                  | (w, False) \<Rightarrow> (w, False))))"

text \<open>The end of \<^verbatim>\<open>l2tp_recv_ICRQ\<close> and \<^verbatim>\<open>l2tp_recv_OCRQ\<close> on an error.\<close>

definition reject_call :: "l2tp_env \<Rightarrow> u16 option \<Rightarrow> u16 \<Rightarrow> u16 \<Rightarrow> u16 \<Rightarrow> l2tp_world \<Rightarrow> l2tp_world" where
  "reject_call e sess peer_sid res err w =
     (let w = fst (l2tp_tunnel_send_CDN e (case sess of Some sid \<Rightarrow> sid | None \<Rightarrow> 0) peer_sid res err w)
      in case sess of Some sid \<Rightarrow> l2tp_session_free e sid w | None \<Rightarrow> w)"

text \<open>The first Calling-Number or Called-Number of the message, as bytes.\<close>

definition first_octets :: "int \<Rightarrow> l2tp_attr list \<Rightarrow> bytes option parse" where
  "first_octets i as =
     (case find (\<lambda>a. lda_id (la_attr a) = i) as of
        None \<Rightarrow> Ok None
      | Some a \<Rightarrow> (case attr_octets a of None \<Rightarrow> Fault | Some b \<Rightarrow> Ok (Some b)))"

definition l2tp_recv_ICRQ :: "l2tp_env \<Rightarrow> l2tp_packet \<Rightarrow> l2tp_world \<Rightarrow> l2tp_world" where
  "l2tp_recv_ICRQ e pack w =
     (if c_state (conn w) \<noteq> STATE_ESTB \<and> c_lns_mode (conn w) then w
      else if e_shutdown e then w
      else if e_busy e then w
      else
        let as = p_attrs pack
        in case (first_octets Calling_Number as, first_octets Called_Number as) of
             (Ok calling, Ok called) \<Rightarrow>
               (case last_attr Assigned_Session_ID as of
                  None \<Rightarrow> reject_call e None 0 2 6 w
                | Some a \<Rightarrow>
                    let peer_sid = val_uint16 e (la_val a)
                    in case l2tp_tunnel_alloc_session e w of
                         (None, w) \<Rightarrow> reject_call e None peer_sid 2 4 w
                       | (Some sid, w) \<Rightarrow>
                           let w = upd_s sid (\<lambda>s. s\<lparr>s_peer_sid := peer_sid,
                                     s_calling := (case calling of Some b \<Rightarrow> if length b > 0 then Some b else None | None \<Rightarrow> None),
                                     s_called := (case called of Some b \<Rightarrow> if length b > 1 then Some b else None | None \<Rightarrow> None)\<rparr>) w
                           in if unknown_mandatory [Assigned_Session_ID, Message_Type, Random_Vector, Call_Serial_Number, Bearer_Type, Calling_Number,
                                   Called_Number, Sub_Address, Physical_Channel_ID] as
                              then reject_call e (Some sid) peer_sid 2 8 w
                              else
                                (case l2tp_session_incall_reply e sid w of
                                   (w, True) \<Rightarrow> reject_call e (Some sid) peer_sid 2 4 w
                                 | (w, False) \<Rightarrow> w))
           | _ \<Rightarrow> crash w)"

definition l2tp_recv_OCRQ :: "l2tp_env \<Rightarrow> l2tp_packet \<Rightarrow> l2tp_world \<Rightarrow> l2tp_world" where
  "l2tp_recv_OCRQ e pack w =
     (if c_state (conn w) \<noteq> STATE_ESTB \<and> \<not> c_lns_mode (conn w) then w
      else if e_shutdown e then w
      else if e_busy e then w
      else
        let as = p_attrs pack
        in case last_attr Assigned_Session_ID as of
             None \<Rightarrow> reject_call e None 0 2 6 w
           | Some a \<Rightarrow>
               let peer_sid = val_uint16 e (la_val a)
               in case l2tp_tunnel_alloc_session e w of
                    (None, w) \<Rightarrow> reject_call e None peer_sid 2 4 w
                  | (Some sid, w) \<Rightarrow>
                      let w = upd_s sid (\<lambda>s. s\<lparr>s_peer_sid := peer_sid\<rparr>) w
                      in if unknown_mandatory [Message_Type, Random_Vector, Call_Serial_Number, Minimum_BPS, Maximum_BPS, Bearer_Type, Framing_Type,
                              Called_Number, Sub_Address, Assigned_Session_ID] as
                         then reject_call e (Some sid) peer_sid 2 8 w
                         else
                           (case l2tp_session_outcall_reply e sid w of
                              (w, True) \<Rightarrow> reject_call e (Some sid) peer_sid 2 4 w
                            | (w, False) \<Rightarrow> w))"

text \<open>The handlers of a session's messages are called with the number of a session that exists.\<close>

definition sess_state :: "u16 \<Rightarrow> l2tp_world \<Rightarrow> l2tp_state option" where
  "sess_state sid w = map_option s_state (get_sess w sid)"

definition l2tp_recv_ICRP :: "l2tp_env \<Rightarrow> u16 \<Rightarrow> l2tp_packet \<Rightarrow> l2tp_world \<Rightarrow> l2tp_world" where
  "l2tp_recv_ICRP e sid pack w =
     (if sess_state sid w \<noteq> Some STATE_WAIT_ICRP then w
      else
        let as = p_attrs pack
        in case last_attr Assigned_Session_ID as of
             None \<Rightarrow> l2tp_session_disconnect e sid 2 6 w
           | Some a \<Rightarrow>
               let w = upd_s sid (\<lambda>s. s\<lparr>s_peer_sid := val_uint16 e (la_val a)\<rparr>) w
               in if unknown_mandatory [Message_Type, Random_Vector, Assigned_Session_ID] as then l2tp_session_disconnect e sid 2 8 w
                  else
                    (case l2tp_send_ICCN e sid w of
                       (w, True) \<Rightarrow> l2tp_session_disconnect e sid 2 6 w
                     | (w, False) \<Rightarrow>
                         (case l2tp_session_connect e sid w of
                            (w, True) \<Rightarrow> l2tp_session_disconnect e sid 2 6 w
                          | (w, False) \<Rightarrow> w)))"

definition sequencing :: "l2tp_env \<Rightarrow> u16 \<Rightarrow> l2tp_attr list \<Rightarrow> l2tp_world \<Rightarrow> l2tp_world" where
  "sequencing e sid as w =
     (if last_attr Sequencing_Required as \<noteq> None \<and> e_dataseq e \<noteq> L2TP_DATASEQ_DENY then upd_s sid (\<lambda>s. s\<lparr>s_send_seq := True\<rparr>) w else w)"

definition l2tp_recv_ICCN :: "l2tp_env \<Rightarrow> u16 \<Rightarrow> l2tp_packet \<Rightarrow> l2tp_world \<Rightarrow> l2tp_world" where
  "l2tp_recv_ICCN e sid pack w =
     (if sess_state sid w \<noteq> Some STATE_WAIT_ICCN then w
      else
        let as = p_attrs pack;
            w = sequencing e sid as w
        in if unknown_mandatory [Message_Type, Random_Vector, TX_Speed, Framing_Type, 26, 27, 28, 29, 30, 31, 32, 33, 37, 38, Sequencing_Required] as
           then l2tp_session_disconnect e sid 2 8 w
           else
             (case l2tp_session_connect e sid w of
                (w, True) \<Rightarrow> l2tp_session_disconnect e sid 2 6 w
              | (w, False) \<Rightarrow> w))"

definition l2tp_recv_OCRP :: "l2tp_env \<Rightarrow> u16 \<Rightarrow> l2tp_packet \<Rightarrow> l2tp_world \<Rightarrow> l2tp_world" where
  "l2tp_recv_OCRP e sid pack w =
     (if sess_state sid w \<noteq> Some STATE_WAIT_OCRP then w
      else
        let as = p_attrs pack
        in case last_attr Assigned_Session_ID as of
             None \<Rightarrow> l2tp_session_disconnect e sid 2 6 w
           | Some a \<Rightarrow>
               let w = upd_s sid (\<lambda>s. s\<lparr>s_peer_sid := val_uint16 e (la_val a)\<rparr>) w
               in if unknown_mandatory [Message_Type, Random_Vector, Assigned_Session_ID] as then l2tp_session_disconnect e sid 2 8 w
                  else upd_s sid (\<lambda>s. s\<lparr>s_state := STATE_WAIT_OCCN\<rparr>) w)"

definition l2tp_recv_OCCN :: "l2tp_env \<Rightarrow> u16 \<Rightarrow> l2tp_packet \<Rightarrow> l2tp_world \<Rightarrow> l2tp_world" where
  "l2tp_recv_OCCN e sid pack w =
     (if sess_state sid w \<noteq> Some STATE_WAIT_OCCN then w
      else
        let as = p_attrs pack;
            w = sequencing e sid as w
        in if unknown_mandatory [Message_Type, Random_Vector, TX_Speed, Framing_Type, Sequencing_Required] as
           then l2tp_session_disconnect e sid 2 8 w
           else
             (case l2tp_session_connect e sid w of
                (w, True) \<Rightarrow> l2tp_session_disconnect e sid 2 6 w
              | (w, False) \<Rightarrow> w))"

definition l2tp_recv_CDN :: "l2tp_env \<Rightarrow> u16 \<Rightarrow> l2tp_packet \<Rightarrow> l2tp_world \<Rightarrow> l2tp_world" where
  "l2tp_recv_CDN e sid pack w =
     (if sess_state sid w = Some STATE_CLOSE then w
      else
        let w = (case last_attr Assigned_Session_ID (p_attrs pack) of
                   None \<Rightarrow> w
                 | Some a \<Rightarrow> upd_s sid (\<lambda>s. if s_peer_sid s = 0 then s\<lparr>s_peer_sid := val_uint16 e (la_val a)\<rparr> else s) w)
        in l2tp_session_free e sid (l2tp_session_clear_sendqueue sid (log_result_code (p_attrs pack) w)))"

definition l2tp_session_place_call :: "l2tp_env \<Rightarrow> u16 \<Rightarrow> l2tp_world \<Rightarrow> l2tp_world \<times> bool" where
  "l2tp_session_place_call e sid w =
     (if \<not> e_timer e then (w, True)
      else
        let w = upd_s sid (\<lambda>s. s\<lparr>s_timer := True\<rparr>) w;
            lns = (case get_sess w sid of Some s \<Rightarrow> s_lns_mode s | None \<Rightarrow> False)
        in case (if lns then l2tp_send_OCRQ e sid w else l2tp_send_ICRQ e sid w) of
             (w, True) \<Rightarrow> (del_sess_timer sid w, True)
           | (w, False) \<Rightarrow> (upd_s sid (\<lambda>s. s\<lparr>s_state := (if lns then STATE_WAIT_OCRP else STATE_WAIT_ICRP)\<rparr>) w, False))"

definition l2tp_tunnel_create_session :: "l2tp_env \<Rightarrow> l2tp_world \<Rightarrow> l2tp_world" where
  "l2tp_tunnel_create_session e w =
     (if c_state (conn w) \<noteq> STATE_ESTB then w
      else
        case l2tp_tunnel_alloc_session e w of
          (None, w) \<Rightarrow> w
        | (Some sid, w) \<Rightarrow>
            (case l2tp_session_place_call e sid w of
               (w, True) \<Rightarrow> l2tp_session_free e sid w
             | (w, False) \<Rightarrow>
                 (case l2tp_tunnel_push_sendqueue e w of
                    (w, r) \<Rightarrow> if r < 0 then l2tp_session_free e sid w else w)))"

section \<open>Timers and calls from the data channel\<close>

definition l2tp_session_timeout :: "l2tp_env \<Rightarrow> u16 \<Rightarrow> l2tp_world \<Rightarrow> l2tp_world" where
  "l2tp_session_timeout e sid w = l2tp_session_disconnect_push e sid 10 0 (del_sess_timer sid w)"

definition l2tp_tunnel_timeout :: "l2tp_env \<Rightarrow> l2tp_world \<Rightarrow> l2tp_world" where
  "l2tp_tunnel_timeout e w = l2tp_tunnel_disconnect_push e 1 0 (del_timeout w)"

definition l2tp_tunnel_finwait_timeout :: "l2tp_world \<Rightarrow> l2tp_world" where
  "l2tp_tunnel_finwait_timeout w = l2tp_tunnel_free (del_timeout w)"

definition l2tp_rtimeout :: "l2tp_env \<Rightarrow> l2tp_world \<Rightarrow> l2tp_world" where
  "l2tp_rtimeout e w =
     (case c_rtms_queue (conn w) of
        [] \<Rightarrow> w
      | pack # q \<Rightarrow>
          let w = upd_c (\<lambda>c. c\<lparr>c_retransmit := c_retransmit c + 1\<rparr>) w
          in if c_retransmit (conn w) > c_max_retransmit (conn w) then l2tp_tunnel_free (del_rtimeout w)
             else
               case tunnel_send_now e pack w of
                 ((pack, True), w) \<Rightarrow> l2tp_tunnel_free (del_rtimeout (upd_c (\<lambda>c. c\<lparr>c_rtms_queue := pack # q\<rparr>) w))
               | ((pack, False), w) \<Rightarrow>
                   let w = upd_c (\<lambda>c. c\<lparr>c_rtms_queue := pack # q, c_period := min (c_period c * 2) (c_rtimeout_cap c)\<rparr>) w
                   in if e_timer e then w else l2tp_tunnel_free (del_rtimeout w))"

definition l2tp_session_apses_finished :: "l2tp_env \<Rightarrow> u16 \<Rightarrow> l2tp_world \<Rightarrow> l2tp_world" where
  "l2tp_session_apses_finished e sid w =
     (if sess_state sid w = Some STATE_ESTB then l2tp_session_disconnect_push e sid 2 0 w else w)"

definition l2tp_conn_close :: "l2tp_env \<Rightarrow> l2tp_world \<Rightarrow> l2tp_world" where
  "l2tp_conn_close e w = l2tp_tunnel_disconnect_push e 0 0 w"

end
