(* ===== verification/L2tpRecv.thy ===== *)
theory L2tpRecv
  imports L2tpMessages
begin

text \<open>
  The reception of L2TP control messages (\<^verbatim>\<open>ctrl/l2tp/l2tp.c\<close>): the dispatch of messages to the handlers, the ring buffer of received
  messages, the read handlers of a tunnel's socket and of the server's socket, and the creation of tunnels.
\<close>

section \<open>Dispatch\<close>

definition l2tp_recv_WEN :: "u16 \<Rightarrow> l2tp_world \<Rightarrow> l2tp_world" where
  \<comment> \<open>only logged, as are SLI and a CDN without a session\<close>
  "l2tp_recv_WEN sid w = w"

definition l2tp_recv_SLI :: "u16 \<Rightarrow> l2tp_world \<Rightarrow> l2tp_world" where
  "l2tp_recv_SLI sid w = w"

definition l2tp_tunnel_recv_CDN :: "l2tp_world \<Rightarrow> l2tp_world" where
  "l2tp_tunnel_recv_CDN w = w"

definition l2tp_session_recv :: "l2tp_env \<Rightarrow> u16 \<Rightarrow> l2tp_packet \<Rightarrow> u16 \<Rightarrow> bool \<Rightarrow> l2tp_world \<Rightarrow> l2tp_world" where
  "l2tp_session_recv e sid pack msg_type mandatory w =
     (if msg_type \<in> {MSG_SCCRQ, MSG_SCCRP, MSG_SCCCN, MSG_StopCCN, MSG_HELLO, MSG_OCRQ, MSG_ICRQ} then w
      else if msg_type = MSG_OCRP then l2tp_recv_OCRP e sid pack w
      else if msg_type = MSG_OCCN then l2tp_recv_OCCN e sid pack w
      else if msg_type = MSG_ICRP then l2tp_recv_ICRP e sid pack w
      else if msg_type = MSG_ICCN then l2tp_recv_ICCN e sid pack w
      else if msg_type = MSG_CDN then l2tp_recv_CDN e sid pack w
      else if msg_type = MSG_WEN then l2tp_recv_WEN sid w
      else if msg_type = MSG_SLI then l2tp_recv_SLI sid w
      else if mandatory then l2tp_session_disconnect e sid 2 8 w
      else w)"

definition l2tp_tunnel_recv :: "l2tp_env \<Rightarrow> l2tp_packet \<Rightarrow> u16 \<Rightarrow> bool \<Rightarrow> l2tp_world \<Rightarrow> l2tp_world" where
  "l2tp_tunnel_recv e pack msg_type mandatory w =
     (if msg_type = MSG_SCCRQ then w
      else if msg_type = MSG_SCCRP then l2tp_recv_SCCRP e pack w
      else if msg_type = MSG_SCCCN then l2tp_recv_SCCCN e pack w
      else if msg_type = MSG_StopCCN then l2tp_recv_StopCCN e pack w
      else if msg_type = MSG_HELLO then l2tp_recv_HELLO w
      else if msg_type = MSG_OCRQ then l2tp_recv_OCRQ e pack w
      else if msg_type = MSG_ICRQ then l2tp_recv_ICRQ e pack w
      else if msg_type = MSG_CDN then l2tp_tunnel_recv_CDN w
      else if msg_type \<in> {MSG_OCRP, MSG_OCCN, MSG_ICRP, MSG_ICCN, MSG_WEN, MSG_SLI} then w
      else if mandatory then fst (l2tp_tunnel_disconnect e 2 8 w)
      else w)"

section \<open>The reception queue\<close>

text \<open>\<^verbatim>\<open>l2tp_tunnel_store_msg\<close>: the tunnel and the flag \<^verbatim>\<open>need_ack\<close>.\<close>

definition l2tp_tunnel_store_msg :: "l2tp_packet \<Rightarrow> bool \<Rightarrow> l2tp_world \<Rightarrow> l2tp_world \<times> bool" where
  "l2tp_tunnel_store_msg pack need_ack w =
     (let pack_Ns = hdr_Ns (p_hdr pack); pack_Nr = hdr_Nr (p_hdr pack)
      in if nsnr_cmp (c_Ns (conn w)) pack_Nr < 0 then (w, need_ack)
         else
           let w = (if nsnr_cmp pack_Nr (c_peer_Nr (conn w)) > 0 then upd_c (\<lambda>c. c\<lparr>c_peer_Nr := pack_Nr\<rparr>) w else w)
           in if l2tp_packet_is_ZLB pack then (w, need_ack)
              else if nsnr_cmp pack_Ns (c_Nr (conn w)) < 0 then (w, True)
              else
                let indx = unat (pack_Ns - c_Nr (conn w))
                in if indx \<ge> c_recv_queue_sz (conn w) then (w, True)
                   else
                     let indx = (indx + unat (c_recv_queue_offt (conn w))) mod c_recv_queue_sz (conn w)
                     in if c_recv_queue (conn w) ! indx \<noteq> None then (w, True)
                        else (upd_c (\<lambda>c. c\<lparr>c_recv_queue := (c_recv_queue c)[indx := Some pack]\<rparr>) w, True))"

text \<open>What the loop of \<^verbatim>\<open>l2tp_tunnel_reply\<close> does with one message taken from the queue.\<close>

definition process_msg :: "l2tp_env \<Rightarrow> l2tp_packet \<Rightarrow> l2tp_world \<Rightarrow> l2tp_world" where
  "process_msg e pack w =
     (if c_state (conn w) = STATE_FIN \<or> c_state (conn w) = STATE_FIN_WAIT then w
      else
        case p_attrs pack of
          [] \<Rightarrow> crash w
        | msg_attr # _ \<Rightarrow>
            if lda_id (la_attr msg_attr) \<noteq> Message_Type then w
            else
              let msg_type = val_uint16 e (la_val msg_attr);
                  msg_sid = hdr_sid (p_hdr pack)
              in if msg_sid \<noteq> 0 then
                   (case get_sess w msg_sid of
                      None \<Rightarrow> w
                    | Some _ \<Rightarrow> l2tp_session_recv e msg_sid pack msg_type (la_M msg_attr) w)
                 else l2tp_tunnel_recv e pack msg_type (la_M msg_attr) w)"

text \<open>
  The loop: \<open>k\<close> is the slot \<^verbatim>\<open>id\<close>, the result is \<^verbatim>\<open>pkt_count\<close>. It goes round the queue at most once and looks at one slot more when a
  message it handles deletes the tunnel, so \<^verbatim>\<open>recv_queue_sz + 1\<close> turns are enough.
\<close>

fun reply_loop :: "l2tp_env \<Rightarrow> nat \<Rightarrow> nat \<Rightarrow> l2tp_world \<Rightarrow> nat \<times> l2tp_world" where
  "reply_loop e 0 k w = (0, crash w)"
| "reply_loop e (Suc fuel) k w =
     (if c_state (conn w) = STATE_CLOSE then (0, w)
      else
        case c_recv_queue (conn w) ! k of
          None \<Rightarrow> (0, w)
        | Some pack \<Rightarrow>
            let w = upd_c (\<lambda>c. c\<lparr>c_recv_queue := (c_recv_queue c)[k := None], c_Nr := c_Nr c + 1\<rparr>) w;
                w = w\<lparr>delivered := delivered w @ [pack]\<rparr>;
                k = (k + 1) mod c_recv_queue_sz (conn w);
                w = process_msg e pack w
            in if k = unat (c_recv_queue_offt (conn w)) then (1, w)
               else case reply_loop e fuel k w of (n, w) \<Rightarrow> (Suc n, w))"

definition l2tp_tunnel_reply :: "l2tp_env \<Rightarrow> bool \<Rightarrow> l2tp_world \<Rightarrow> l2tp_world \<times> int" where
  "l2tp_tunnel_reply e need_ack w =
     (case reply_loop e (Suc (c_recv_queue_sz (conn w))) (unat (c_recv_queue_offt (conn w))) w of
        (pkt_count, w) \<Rightarrow>
          let w = upd_c (\<lambda>c. c\<lparr>c_recv_queue_offt := of_nat ((unat (c_recv_queue_offt c) + pkt_count) mod c_recv_queue_sz c)\<rparr>) w
          in case l2tp_tunnel_push_sendqueue e w of
               (w, res) \<Rightarrow>
                 if res = 0 \<and> need_ack then (case l2tp_send_ZLB e w of (w, failed) \<Rightarrow> (w, if failed then -1 else 0))
                 else (w, res))"

section \<open>The read handler of a tunnel\<close>

definition l2tp_tunnel_update_peerport :: "l2tp_env \<Rightarrow> u16 \<Rightarrow> l2tp_world \<Rightarrow> l2tp_world \<times> bool" where
  "l2tp_tunnel_update_peerport e port w = (if e_port e then (upd_c (\<lambda>c. c\<lparr>c_port := port\<rparr>) w, False) else (w, True))"

text \<open>
  The loop of \<^verbatim>\<open>l2tp_conn_read\<close> over the datagrams that wait in the socket, each with its source port. The results are \<^verbatim>\<open>need_ack\<close> and whether the
  tunnel is given up; \<open>refused\<close> tells that the socket reports \<^verbatim>\<open>ECONNREFUSED\<close> after the datagrams.
\<close>

fun read_loop :: "l2tp_env \<Rightarrow> bool \<Rightarrow> (u16 \<times> bytes) list \<Rightarrow> bool \<Rightarrow> l2tp_world \<Rightarrow> (bool \<times> bool) \<times> l2tp_world" where
  "read_loop e refused [] need_ack w = ((need_ack, refused), w)"
| "read_loop e refused ((port, buf) # ds) need_ack w =
     (case l2tp_recv (e_cf e) (c_secret (conn w)) port buf of
        Fault \<Rightarrow> ((need_ack, True), crash w)
      | Reject \<Rightarrow> read_loop e refused ds need_ack w
      | Ok pack \<Rightarrow>
          (case (if c_port_set (conn w) then (w, False) else l2tp_tunnel_update_peerport e (p_port pack) w) of
             (w, True) \<Rightarrow> ((need_ack, True), w)
           | (w, False) \<Rightarrow>
               let w = upd_c (\<lambda>c. c\<lparr>c_port_set := True\<rparr>) w
               in if hdr_tid (p_hdr pack) \<noteq> c_tid (conn w) \<and> (hdr_tid (p_hdr pack) \<noteq> 0 \<or> \<not> e_dir300 e) then read_loop e refused ds need_ack w
                  else case l2tp_tunnel_store_msg pack need_ack w of (w, need_ack) \<Rightarrow> read_loop e refused ds need_ack w))"

definition l2tp_conn_read :: "l2tp_env \<Rightarrow> bool \<Rightarrow> (u16 \<times> bytes) list \<Rightarrow> l2tp_world \<Rightarrow> l2tp_world" where
  "l2tp_conn_read e refused ds w =
     (case read_loop e refused ds False w of
        ((_, True), w) \<Rightarrow> l2tp_tunnel_free w
      | ((need_ack, False), w) \<Rightarrow>
          (case l2tp_tunnel_clean_rtmsqueue e w of
             (w, True) \<Rightarrow> l2tp_tunnel_free w
           | (w, False) \<Rightarrow>
               (case l2tp_tunnel_reply e need_ack w of
                  (w, res) \<Rightarrow>
                    if res < 0 then l2tp_tunnel_free w
                    else if c_state (conn w) = STATE_FIN \<and> c_send_queue (conn w) = [] \<and> c_rtms_queue (conn w) = [] then l2tp_tunnel_free w
                    else w)))"

section \<open>New tunnels\<close>

text \<open>
  \<^verbatim>\<open>l2tp_tunnel_alloc\<close> with the counters and the random source: the tunnel, or the failure. The tunnel's number is taken from random ones
  the way a session's is.
\<close>

definition l2tp_tunnel_alloc :: "l2tp_env \<Rightarrow> u16 \<Rightarrow> u32 \<Rightarrow> bool \<Rightarrow> bool \<Rightarrow> bool \<Rightarrow> (l2tp_stat_field \<Rightarrow> u32) \<Rightarrow> rand \<Rightarrow> l2tp_world option \<times> rand" where
  "l2tp_tunnel_alloc e port framing_cap lns_mode port_set hide st r =
     (if \<not> e_socket e then (None, r)
      else
        case pick_id (e_used e) 65535 r of
          (None, r) \<Rightarrow> (None, r)
        | (Some tid, r) \<Rightarrow>
            let c = \<lparr>c_hnd = False, c_timeout_timer = False, c_timeout_period = e_conf_timeout e * 1000, c_finwait = False, c_rtimeout_timer = False,
                     c_period = e_conf_rtimeout e * 1000, c_hello_timer = False, c_rtimeout = e_conf_rtimeout e * 1000,
                     c_rtimeout_cap = e_conf_rtimeout_cap e * 1000, c_max_retransmit = e_conf_retransmit e, c_port = port, c_tid = tid,
                     c_peer_tid = 0, c_framing_cap = framing_cap, c_lns_mode = lns_mode, c_hide = hide, c_port_set = port_set, c_was_estb = False,
                     c_challenge = None, c_secret = None, c_retransmit = 0, c_Ns = 0, c_Nr = 0, c_peer_Nr = 0, c_send_queue = [],
                     c_rtms_queue = [], c_send_queue_len = 0, c_recv_queue = replicate (unat (e_recv_window e)) None, c_recv_queue_offt = 0,
                     c_peer_rcv_wnd_sz = 4, c_state = STATE_INIT, c_sessions = [], c_sess_count = 0\<rparr>;
                w = \<lparr>conn = c, stat = st, in_table = True, rnd = r, sent = [], committed = [], delivered = [], challenges = [], lingering = 0, start = None, crashed = False\<rparr>
            in (Some (l2tp_stat_inc Conn_starting w), r))"

definition l2tp_tunnel_start :: "l2tp_env \<Rightarrow> start_call \<Rightarrow> l2tp_world \<Rightarrow> l2tp_world \<times> bool" where
  "l2tp_tunnel_start e f w =
     (if \<not> e_context e then (w, True)
      else
        let w = upd_c (\<lambda>c. c\<lparr>c_hnd := True\<rparr>) w
        in if \<not> e_handler e then (w, True)
           else if \<not> e_timer e then (upd_c (\<lambda>c. c\<lparr>c_hnd := False\<rparr>) w, True)
           else
             let w = upd_c (\<lambda>c. c\<lparr>c_timeout_timer := True\<rparr>) w
             in if \<not> e_call e then (upd_c (\<lambda>c. c\<lparr>c_hnd := False\<rparr>) (del_timeout w), True)
                else (w\<lparr>start := Some f\<rparr>, False))"

fun val_uint32 :: "l2tp_env \<Rightarrow> l2tp_value \<Rightarrow> u32" where
  "val_uint32 e (V16 x) = ucast x"
| "val_uint32 e (V32 x) = x"
| "val_uint32 e (V64 x) = ucast x"
| "val_uint32 e (VOctets b) = ucast (e_addr e b)"

text \<open>The part of \<^verbatim>\<open>l2tp_recv_SCCRQ\<close> that works on the new tunnel; the flag tells that it failed and the tunnel has been freed.\<close>

definition setup_tunnel :: "l2tp_env \<Rightarrow> l2tp_attr list \<Rightarrow> u16 \<Rightarrow> l2tp_world \<Rightarrow> l2tp_world \<times> bool" where
  "setup_tunnel e as peer_tid w =
     (case (case last_attr Recv_Window_Size as of
              None \<Rightarrow> (w, False)
            | Some a \<Rightarrow>
                let sz = val_uint16 e (la_val a)
                in (upd_c (\<lambda>c. c\<lparr>c_peer_rcv_wnd_sz := sz\<rparr>) w, sz = 0 \<or> sz > 32768)) of
        (w, True) \<Rightarrow> (l2tp_tunnel_free w, True)
      | (w, False) \<Rightarrow>
          let w = upd_c (\<lambda>c. c\<lparr>c_secret := e_conf_secret e\<rparr>) w
          in case l2tp_tunnel_storechall (last_attr Challenge as) w of
               (w, True) \<Rightarrow> (l2tp_tunnel_free w, True)
             | (w, False) \<Rightarrow>
                 let w = upd_c (\<lambda>c. c\<lparr>c_peer_tid := peer_tid, c_port_set := True, c_Nr := 1\<rparr>) w
                 in case l2tp_tunnel_start e Call_SCCRP w of
                      (w, True) \<Rightarrow> (l2tp_tunnel_free w, True)
                    | (w, False) \<Rightarrow> (w, False))"

text \<open>\<^verbatim>\<open>l2tp_recv_SCCRQ\<close>: the tunnel that was allocated, if one was, and whether it is kept.\<close>

definition l2tp_recv_SCCRQ :: "l2tp_env \<Rightarrow> l2tp_packet \<Rightarrow> (l2tp_stat_field \<Rightarrow> u32) \<Rightarrow> rand \<Rightarrow> (l2tp_world \<times> bool) option \<times> rand" where
  "l2tp_recv_SCCRQ e pack st r =
     (if e_shutdown e \<or> e_busy e then (None, r)
      else
        let as = p_attrs pack
        in if list_ex (\<lambda>a. lda_id (la_attr a) = Message_Digest) as then (None, r)
           else
             case last_attr Assigned_Tunnel_ID as of
               None \<Rightarrow> (None, r)
             | Some tid \<Rightarrow>
                 (case (last_attr Protocol_Version as, last_attr Framing_Capabilities as) of
                    (Some pv, Some fc) \<Rightarrow>
                      if val_uint16 e (la_val pv) \<noteq> 256 then (None, r)
                      else
                        (case l2tp_tunnel_alloc e (p_port pack) (val_uint32 e (la_val fc)) True True (e_conf_hide e) st r of
                           (None, r) \<Rightarrow> (None, r)
                         | (Some w, r) \<Rightarrow>
                             (case setup_tunnel e as (val_uint16 e (la_val tid)) (w\<lparr>delivered := [pack]\<rparr>) of (w, failed) \<Rightarrow> (Some (w, \<not> failed), rnd w)))
                  | _ \<Rightarrow> (None, r)))"

text \<open>One datagram in \<^verbatim>\<open>l2tp_udp_read\<close>; \<open>permitted\<close> is the check of the peer's address against the client ranges.\<close>

definition l2tp_udp_read1 :: "l2tp_env \<Rightarrow> bool \<Rightarrow> u16 \<Rightarrow> bytes \<Rightarrow> (l2tp_stat_field \<Rightarrow> u32) \<Rightarrow> rand \<Rightarrow> ((l2tp_world \<times> bool) option \<times> rand) parse" where
  "l2tp_udp_read1 e permitted port buf st r =
     bind_parse (l2tp_recv (e_cf e) (e_conf_secret e) port buf) (\<lambda>pack.
       if \<not> permitted then Reject
       else if hdr_tid (p_hdr pack) \<noteq> 0 then Reject
       else
         case p_attrs pack of
           [] \<Rightarrow> Reject
         | msg_type # _ \<Rightarrow>
             if lda_id (la_attr msg_type) \<noteq> Message_Type then Reject
             else if val_uint16 e (la_val msg_type) = MSG_SCCRQ then Ok (l2tp_recv_SCCRQ e pack st r)
             else Reject)"

text \<open>The end of \<^verbatim>\<open>l2tp_create_tunnel_exec\<close>: a tunnel with the parameters of the command.\<close>

definition create_tunnel :: "l2tp_env \<Rightarrow> u16 \<Rightarrow> bool \<Rightarrow> bool \<Rightarrow> bytes option \<Rightarrow> (l2tp_stat_field \<Rightarrow> u32) \<Rightarrow> rand \<Rightarrow> (l2tp_world \<times> bool) option \<times> rand" where
  "create_tunnel e port lns_mode hide secret st r =
     (case l2tp_tunnel_alloc e port 3 lns_mode False hide st r of
        (None, r) \<Rightarrow> (None, r)
      | (Some w, r) \<Rightarrow>
          (case l2tp_tunnel_start e Call_SCCRQ (upd_c (\<lambda>c. c\<lparr>c_secret := secret\<rparr>) w) of
             (w, True) \<Rightarrow> (Some (l2tp_tunnel_free w, False), rnd w)
           | (w, False) \<Rightarrow> (Some (w, True), rnd w)))"

section \<open>Ends of data channels\<close>

text \<open>\<^verbatim>\<open>__apses_destroy\<close> on the data channel of a session that is still in the tunnel, and of one that was freed before.\<close>

definition apses_destroy :: "u16 \<Rightarrow> l2tp_world \<Rightarrow> l2tp_world" where
  "apses_destroy sid = upd_s sid (\<lambda>s. s\<lparr>s_apses := False\<rparr>)"

definition apses_destroy_freed :: "l2tp_world \<Rightarrow> l2tp_world" where
  "apses_destroy_freed w =
     (let w = l2tp_stat_dec Sess_finishing (w\<lparr>lingering := lingering w - 1\<rparr>)
      in if c_state (conn w) = STATE_CLOSE then tunnel_put w else w)"

end
