(* ===== verification/L2tpChannel.thy ===== *)
theory L2tpChannel
  imports L2tpRecv "HOL-Library.Sublist"
begin

text \<open>
  The reliable channel of a tunnel: what the functions of \<^verbatim>\<open>ctrl/l2tp/l2tp.c\<close> keep of the sequence numbers and of the queues. \<open>chan_ok\<close> is the invariant,
  \<open>chan_rel\<close> what a function does to the channel besides keeping it; every handler is shown to satisfy \<open>chan_rel\<close> by the rules of the collection \<open>crel\<close>.
\<close>

named_theorems crel
named_theorems conn_state

section \<open>Comparison of sequence numbers\<close>

lemma nsnr_cmp_diff:
  assumes "- 32767 \<le> d" "d \<le> 32768" and that: "ns - nr = word_of_int d"
  shows "nsnr_cmp ns nr = sgn d"
proof -
  have "uint (word_of_int d :: u16) = d mod 65536"
    by (simp add: uint_word_of_int)
  moreover have "d mod 65536 = (if d < 0 then d + 65536 else d)"
  proof (cases "d < 0")
    case True
    then have "(d + 65536) mod 65536 = d + 65536"
      using assms by (intro mod_pos_pos_trivial) auto
    then show ?thesis
      using True by simp
  next
    case False
    then show ?thesis
      using assms by simp
  qed
  ultimately have u: "uint (ns - nr) = (if d < 0 then d + 65536 else d)"
    by (simp add: that)
  define x where "x = ns - nr"
  have "(x < - 32767) = (uint x < 32769)" "(x = 0) = (uint x = 0)" "(- 32767 \<le> x) = (32769 \<le> uint x)"
    by (simp_all add: word_less_def word_le_def word_uint_eq_iff)
  then show ?thesis
    using assms u unfolding nsnr_cmp_def Let_def x_def [symmetric] by (simp add: sgn_if)
qed

lemma nsnr_cmp_nat:
  assumes "int m - int n \<le> 32768" "int n - int m \<le> 32767"
  shows "nsnr_cmp (of_nat m) (of_nat n) = sgn (int m - int n)"
proof (rule nsnr_cmp_diff)
  show "(of_nat m :: u16) - of_nat n = word_of_int (int m - int n)"
    by simp
qed (use assms in auto)

section \<open>Invariant\<close>

definition tx :: "l2tp_world \<Rightarrow> nat" where
  "tx w = length (committed w)"

definition rx :: "l2tp_world \<Rightarrow> nat" where
  "rx w = length (delivered w)"

definition closed :: "l2tp_world \<Rightarrow> bool" where
  "closed w \<longleftrightarrow> c_state (conn w) = STATE_CLOSE"

text \<open>The number of messages that have left the retransmission queue.\<close>

definition acked :: "l2tp_world \<Rightarrow> nat" where
  "acked w = tx w - length (c_rtms_queue (conn w))"

text \<open>A message without what changes when it is sent again.\<close>

definition strip :: "l2tp_packet \<Rightarrow> l2tp_packet" where
  "strip p = p\<lparr>p_hdr := (p_hdr p)\<lparr>hdr_Nr := 0\<rparr>, p_ack := 0, p_sess := None\<rparr>"

definition sent_ok :: "l2tp_world \<Rightarrow> l2tp_packet \<Rightarrow> bool" where
  "sent_ok w p \<longleftrightarrow> hdr_Nr (p_hdr p) = of_nat (p_ack p) \<and> p_ack p \<le> rx w \<and> hdr_Ns (p_hdr p) = of_nat (p_seq p) \<and>
     (p_attrs p = [] \<and> p_seq p \<le> tx w \<or> p_seq p < tx w \<and> strip p = strip (committed w ! p_seq p))"

definition ring_size_ok :: "l2tp_world \<Rightarrow> bool" where
  "ring_size_ok w \<longleftrightarrow> c_recv_queue_sz (conn w) \<le> 32768 \<and> unat (c_recv_queue_offt (conn w)) < c_recv_queue_sz (conn w)"

definition rtms_ok :: "l2tp_world \<Rightarrow> bool" where
  "rtms_ok w \<longleftrightarrow> length (c_rtms_queue (conn w)) \<le> 32767 \<and> length (c_rtms_queue (conn w)) \<le> tx w \<and>
     map strip (c_rtms_queue (conn w)) = map strip (drop (acked w) (committed w))"

text \<open>A state that only sessions have.\<close>

definition call_state :: "l2tp_world \<Rightarrow> bool" where
  "call_state w \<longleftrightarrow> c_state (conn w) \<in> {STATE_WAIT_ICRP, STATE_WAIT_ICCN, STATE_WAIT_OCRP, STATE_WAIT_OCCN}"

definition base_ok :: "l2tp_world \<Rightarrow> bool" where
  "base_ok w \<longleftrightarrow> c_Ns (conn w) = of_nat (tx w) \<and> c_Nr (conn w) = of_nat (rx w) \<and> c_peer_rcv_wnd_sz (conn w) \<le> 32767 \<and> \<not> call_state w \<and>
     (\<forall>i < tx w. p_seq (committed w ! i) = i \<and> hdr_Ns (p_hdr (committed w ! i)) = of_nat i) \<and>
     (\<forall>p \<in> set (sent w). sent_ok w p) \<and> ring_size_ok w \<and>
     (if closed w then c_send_queue (conn w) = [] else rtms_ok w)"

definition chan_ok :: "l2tp_world \<Rightarrow> bool" where
  "chan_ok w \<longleftrightarrow> base_ok w \<and> (closed w \<or> c_peer_Nr (conn w) = of_nat (acked w))"

definition same_ring :: "l2tp_world \<Rightarrow> l2tp_world \<Rightarrow> bool" where
  "same_ring w w' \<longleftrightarrow> c_recv_queue (conn w') = c_recv_queue (conn w) \<and> c_recv_queue_offt (conn w') = c_recv_queue_offt (conn w)"

definition no_ring :: "l2tp_world \<Rightarrow> bool" where
  "no_ring w \<longleftrightarrow> closed w \<and> set (c_recv_queue (conn w)) \<subseteq> {None}"

definition chan_frame :: "l2tp_world \<Rightarrow> l2tp_world \<Rightarrow> bool" where
  "chan_frame w w' \<longleftrightarrow> chan_ok w' \<and> delivered w' = delivered w \<and> prefix (committed w) (committed w') \<and>
     set (sent w) \<subseteq> set (sent w') \<and> c_secret (conn w') = c_secret (conn w) \<and> c_recv_queue_sz (conn w') = c_recv_queue_sz (conn w) \<and> (same_ring w w' \<or> no_ring w') \<and>
     (closed w \<longrightarrow> closed w' \<and> tx w' = tx w) \<and> (\<not> closed w \<longrightarrow> tx w' \<le> acked w + 32767) \<and> (\<not> closed w' \<longrightarrow> acked w' = acked w)"

definition chan_rel :: "l2tp_world \<Rightarrow> l2tp_world \<Rightarrow> bool" where
  "chan_rel w w' \<longleftrightarrow> (chan_ok w \<longrightarrow> chan_frame w w')"

lemma tx_acked:
  assumes "chan_ok w" "\<not> closed w"
  shows "tx w \<le> acked w + 32767"
proof -
  have "length (c_rtms_queue (conn w)) \<le> 32767"
    using assms by (simp add: chan_ok_def base_ok_def rtms_ok_def)
  then show ?thesis
    by (simp add: acked_def)
qed

lemma chan_rel_refl: "chan_rel w w"
  by (auto simp: chan_rel_def chan_frame_def same_ring_def tx_acked)

lemma chan_frame_trans:
  assumes "chan_frame w w1" "chan_frame w1 w2"
  shows "chan_frame w w2"
proof -
  have r: "same_ring w w2 \<or> no_ring w2"
    using assms by (auto simp: chan_frame_def same_ring_def no_ring_def)
  have c: "\<not> closed w \<longrightarrow> tx w2 \<le> acked w + 32767"
    using assms by (cases "closed w1") (auto simp: chan_frame_def)
  show ?thesis
    using assms r c unfolding chan_frame_def by (metis order_trans prefix_order.trans)
qed

lemma chan_rel_trans: "chan_rel w w1 \<Longrightarrow> chan_rel w1 w2 \<Longrightarrow> chan_rel w w2"
  unfolding chan_rel_def using chan_frame_trans chan_frame_def by blast

section \<open>Functions that leave the channel alone\<close>

definition core :: "l2tp_world \<Rightarrow> (u16 \<times> u16 \<times> u16 \<times> u16 \<times> u16) \<times> (l2tp_packet list \<times> l2tp_packet option list \<times> bool \<times> bool \<times> bool \<times> bytes option) \<times>
    l2tp_packet list \<times> l2tp_packet list \<times> l2tp_packet list" where
  "core w = ((c_Ns (conn w), c_Nr (conn w), c_peer_Nr (conn w), c_recv_queue_offt (conn w), c_peer_rcv_wnd_sz (conn w)),
             (c_rtms_queue (conn w), c_recv_queue (conn w), closed w, closed w \<and> c_send_queue (conn w) \<noteq> [], call_state w, c_secret (conn w)),
             sent w, committed w, delivered w)"

lemma core_rel:
  assumes "core w' = core w"
  shows "chan_rel w w'"
proof -
  have *: "tx w' = tx w" "rx w' = rx w" "closed w' = closed w" "call_state w' = call_state w" "acked w' = acked w"
    using assms by (simp_all add: core_def tx_def rx_def acked_def)
  have "sent_ok w' p = sent_ok w p" for p
    using assms * by (simp add: core_def sent_ok_def)
  moreover have "rtms_ok w' = rtms_ok w" "ring_size_ok w' = ring_size_ok w"
    using assms * by (simp_all add: core_def rtms_ok_def ring_size_ok_def)
  ultimately have "chan_ok w' = chan_ok w"
    using assms * by (auto simp: core_def chan_ok_def base_ok_def)
  then show ?thesis
    using assms * tx_acked by (auto simp: chan_rel_def chan_frame_def same_ring_def core_def)
qed

lemma quiet: "chan_rel w0 w \<Longrightarrow> core w' = core w \<Longrightarrow> chan_rel w0 w'"
  using chan_rel_trans core_rel by blast

lemma crel_if [crel]: "(b \<Longrightarrow> chan_rel w0 x) \<Longrightarrow> (\<not> b \<Longrightarrow> chan_rel w0 y) \<Longrightarrow> chan_rel w0 (if b then x else y)"
  by simp

lemma crel_option [crel]:
  "(z = None \<Longrightarrow> chan_rel w0 x) \<Longrightarrow> (\<And>a. z = Some a \<Longrightarrow> chan_rel w0 (y a)) \<Longrightarrow> chan_rel w0 (case z of None \<Rightarrow> x | Some a \<Rightarrow> y a)"
  by (cases z) auto

lemma crel_parse [crel]:
  "(z = Fault \<Longrightarrow> chan_rel w0 x) \<Longrightarrow> (z = Reject \<Longrightarrow> chan_rel w0 y) \<Longrightarrow> (\<And>a. z = Ok a \<Longrightarrow> chan_rel w0 (u a)) \<Longrightarrow>
   chan_rel w0 (case z of Fault \<Rightarrow> x | Reject \<Rightarrow> y | Ok a \<Rightarrow> u a)"
  by (cases z) auto

lemma crel_list [crel]:
  "(z = [] \<Longrightarrow> chan_rel w0 x) \<Longrightarrow> (\<And>a as. z = a # as \<Longrightarrow> chan_rel w0 (y a as)) \<Longrightarrow> chan_rel w0 (case z of [] \<Rightarrow> x | a # as \<Rightarrow> y a as)"
  by (cases z) auto

subsection \<open>States\<close>

lemma conn_upd_c [simp]: "conn (upd_c f w) = f (conn w)" "stat (upd_c f w) = stat w" "sent (upd_c f w) = sent w"
  "committed (upd_c f w) = committed w" "delivered (upd_c f w) = delivered w" "lingering (upd_c f w) = lingering w" "rnd (upd_c f w) = rnd w"
  by (simp_all add: upd_c_def)

lemma conn_crash [simp]: "conn (crash w) = conn w" "sent (crash w) = sent w" "committed (crash w) = committed w" "delivered (crash w) = delivered w"
  "stat (crash w) = stat w" "lingering (crash w) = lingering w"
  by (simp_all add: crash_def)

lemma conn_stat [simp]: "conn (l2tp_stat_inc f w) = conn w" "conn (l2tp_stat_dec f w) = conn w" "conn (l2tp_stat_move f g w) = conn w"
  "sent (l2tp_stat_inc f w) = sent w" "sent (l2tp_stat_dec f w) = sent w" "sent (l2tp_stat_move f g w) = sent w"
  "committed (l2tp_stat_inc f w) = committed w" "committed (l2tp_stat_dec f w) = committed w" "committed (l2tp_stat_move f g w) = committed w"
  "delivered (l2tp_stat_inc f w) = delivered w" "delivered (l2tp_stat_dec f w) = delivered w" "delivered (l2tp_stat_move f g w) = delivered w"
  by (simp_all add: l2tp_stat_inc_def l2tp_stat_dec_def l2tp_stat_move_def)

lemma core_same [simp]: "core (crash w) = core w" "core (l2tp_stat_inc f w) = core w" "core (l2tp_stat_dec f w) = core w"
  "core (l2tp_stat_move f g w) = core w" "core (w\<lparr>rnd := r\<rparr>) = core w" "core (w\<lparr>lingering := n\<rparr>) = core w" "core (w\<lparr>start := x\<rparr>) = core w"
  "core (w\<lparr>in_table := b\<rparr>) = core w" "core (w\<lparr>rnd := r, challenges := cs\<rparr>) = core w" "core (upd_s sid h w) = core w"
  by (simp_all add: core_def closed_def call_state_def upd_s_def)

lemma core_del [simp]: "core (del_timeout w) = core w" "core (del_rtimeout w) = core w" "core (del_hello w) = core w" "core (del_sess_timer sid w) = core w"
  by (auto simp: del_timeout_def del_rtimeout_def del_hello_def del_sess_timer_def core_def closed_def call_state_def upd_s_def split: option.splits)

lemma state_same [conn_state]: "c_state (conn (upd_s sid g w)) = c_state (conn w)" "c_state (conn (del_timeout w)) = c_state (conn w)"
  "c_state (conn (del_rtimeout w)) = c_state (conn w)" "c_state (conn (del_hello w)) = c_state (conn w)"
  "c_state (conn (del_sess_timer sid w)) = c_state (conn w)" "c_state (conn (l2tp_tunnel_clear_sendqueue w)) = c_state (conn w)"
  "c_state (conn (l2tp_session_clear_sendqueue sid w)) = c_state (conn w)" "c_state (conn (l2tp_tunnel_clear_recvqueue w)) = c_state (conn w)"
  by (auto simp: upd_s_def del_timeout_def del_rtimeout_def del_hello_def del_sess_timer_def l2tp_tunnel_clear_sendqueue_def
      l2tp_session_clear_sendqueue_def l2tp_tunnel_clear_recvqueue_def split: option.splits)

lemma state_send_now [conn_state]: "conn (snd (tunnel_send_now e p w)) = conn w"
  by (auto simp: tunnel_send_now_def Let_def split: parse.splits send_result.splits)

lemma state_push_loop [conn_state]: "c_state (conn (snd (push_loop e m q w))) = c_state (conn w)"
proof (induction e m q w rule: push_loop.induct)
  case (2 e m p q w)
  then show ?case
    using state_send_now [of e "p\<lparr>p_hdr := (p_hdr p)\<lparr>hdr_Ns := c_Ns (conn w)\<rparr>, p_seq := length (committed w)\<rparr>" w]
    by (auto simp: Let_def split: prod.splits bool.splits)
qed simp

lemma state_push [conn_state]: "c_state (conn (fst (l2tp_tunnel_push_sendqueue e w))) = c_state (conn w)"
  using state_push_loop [of e "c_peer_Nr (conn w) + c_peer_rcv_wnd_sz (conn w)" "c_send_queue (conn w)" w]
  by (auto simp: l2tp_tunnel_push_sendqueue_def Let_def split: prod.splits bool.splits if_splits)

subsection \<open>Sending\<close>

lemma send_now_cases:
  assumes "tunnel_send_now e p w = ((p', failed), w')"
  obtains (send) "w' = w\<lparr>sent := sent w @ [p']\<rparr>" "\<not> failed" | (lost) "w' = w" | (crash) "w' = crash w" "failed"
  using assms by (auto simp: tunnel_send_now_def Let_def split: parse.splits send_result.splits)

lemma send_now_packet: "fst (fst (tunnel_send_now e p w)) = p\<lparr>p_hdr := (p_hdr p)\<lparr>hdr_Nr := c_Nr (conn w)\<rparr>, p_ack := length (delivered w)\<rparr>"
  by (auto simp: tunnel_send_now_def Let_def split: parse.splits send_result.splits)

lemma sent_ok_mono: "sent_ok w p \<Longrightarrow> prefix (committed w) (committed w') \<Longrightarrow> rx w \<le> rx w' \<Longrightarrow> sent_ok w' p"
  unfolding sent_ok_def tx_def prefix_def by (auto simp: nth_append)

lemma sent_ok_frame: "chan_ok w \<Longrightarrow> p \<in> set (sent w) \<Longrightarrow> sent_ok w p"
  by (simp add: chan_ok_def base_ok_def)

text \<open>Sending something that belongs to the channel: a packet without attributes or a message that has its number.\<close>

lemma send_now_rel:
  assumes "hdr_Ns (p_hdr p) = of_nat (p_seq p)"
    and "p_attrs p = [] \<and> p_seq p \<le> tx w \<or> p_seq p < tx w \<and> strip p = strip (committed w ! p_seq p)"
  shows "chan_rel w (snd (tunnel_send_now e p w))"
proof -
  obtain p' failed w' where *: "tunnel_send_now e p w = ((p', failed), w')"
    by (metis prod.exhaust)
  then have p': "p' = p\<lparr>p_hdr := (p_hdr p)\<lparr>hdr_Nr := c_Nr (conn w)\<rparr>, p_ack := length (delivered w)\<rparr>"
    using send_now_packet [of e p w] by simp
  from * show ?thesis
  proof (cases rule: send_now_cases)
    case send
    have same: "tx w' = tx w" "rx w' = rx w" "closed w' = closed w" "call_state w' = call_state w" "acked w' = acked w" "rtms_ok w' = rtms_ok w" "ring_size_ok w' = ring_size_ok w"
      "\<And>q. sent_ok w' q = sent_ok w q"
      by (simp_all add: send tx_def rx_def closed_def call_state_def acked_def rtms_ok_def ring_size_ok_def sent_ok_def)
    have "chan_ok w'" if "chan_ok w"
    proof -
      have "sent_ok w p'"
        using assms that by (auto simp: p' sent_ok_def chan_ok_def base_ok_def strip_def rx_def)
      then show ?thesis
        using that same by (simp add: chan_ok_def base_ok_def) (auto simp: send)
    qed
    then show ?thesis
      using same tx_acked by (auto simp: * chan_rel_def chan_frame_def same_ring_def) (auto simp: send)
  qed (simp_all add: * chan_rel_refl core_rel)
qed

text \<open>The window: one more message may be sent only while fewer than the window are on their way.\<close>

lemma window_open:
  assumes "chan_ok w" "\<not> closed w" "nsnr_cmp (c_Ns (conn w)) (c_peer_Nr (conn w) + c_peer_rcv_wnd_sz (conn w)) < 0"
  shows "length (c_rtms_queue (conn w)) < unat (c_peer_rcv_wnd_sz (conn w))"
proof -
  define d where "d = length (c_rtms_queue (conn w))"
  define n where "n = unat (c_peer_rcv_wnd_sz (conn w))"
  have d: "d \<le> 32767" "d \<le> tx w" "tx w = acked w + d"
    using assms by (auto simp: chan_ok_def base_ok_def rtms_ok_def acked_def d_def)
  have n: "n \<le> 32767" "c_peer_rcv_wnd_sz (conn w) = of_nat n"
    using assms by (simp_all add: chan_ok_def base_ok_def n_def word_le_nat_alt)
  have "c_Ns (conn w) = of_nat (acked w + d)" "c_peer_Nr (conn w) + c_peer_rcv_wnd_sz (conn w) = of_nat (acked w + n)"
    using assms d n by (simp_all add: chan_ok_def base_ok_def)
  then have "nsnr_cmp (of_nat (acked w + d)) (of_nat (acked w + n)) < 0"
    using assms(3) by simp
  moreover have "nsnr_cmp (of_nat (acked w + d)) (of_nat (acked w + n)) = sgn (int (acked w + d) - int (acked w + n))"
    using d n by (intro nsnr_cmp_nat) auto
  ultimately have "d < n"
    by (simp add: sgn_if split: if_splits)
  then show ?thesis
    by (simp add: d_def n_def)
qed

text \<open>A message gets its number: it joins the retransmission queue, and was sent or lost.\<close>

definition commits :: "l2tp_packet \<Rightarrow> l2tp_packet list \<Rightarrow> l2tp_world \<Rightarrow> l2tp_world" where
  "commits p q w = (upd_c (\<lambda>c. c\<lparr>c_send_queue := q, c_rtms_queue := c_rtms_queue c @ [p\<lparr>p_sess := None\<rparr>],
     c_send_queue_len := c_send_queue_len c - 1, c_Ns := c_Ns c + 1\<rparr>) w)\<lparr>committed := committed w @ [p]\<rparr>"

lemma commit_rel:
  assumes ok: "chan_ok w" "\<not> closed w" and room: "length (c_rtms_queue (conn w)) < 32767"
    and p: "hdr_Ns (p_hdr p) = c_Ns (conn w)" "p_seq p = tx w" "hdr_Nr (p_hdr p) = c_Nr (conn w)" "p_ack p = rx w"
    and w': "w' = commits p q (w\<lparr>sent := ps\<rparr>)" "ps = sent w \<or> ps = sent w @ [p]"
  shows "chan_frame w w'" "\<not> closed w'" "c_peer_Nr (conn w') = c_peer_Nr (conn w)"
    "c_peer_rcv_wnd_sz (conn w') = c_peer_rcv_wnd_sz (conn w)" "c_send_queue (conn w') = q"
proof -
  have t: "tx w' = Suc (tx w)" "rx w' = rx w" "closed w' = closed w" "call_state w' = call_state w"
    by (simp_all add: w' commits_def tx_def rx_def closed_def call_state_def)
  have L: "length (c_rtms_queue (conn w)) \<le> tx w"
    using ok by (simp add: chan_ok_def base_ok_def rtms_ok_def)
  have a: "acked w' = acked w"
    using L by (simp add: acked_def t) (simp add: w' commits_def)
  have r: "rtms_ok w'"
    using ok room L a by (simp add: chan_ok_def base_ok_def rtms_ok_def t) (simp add: w' commits_def strip_def acked_def tx_def)
  have s: "sent_ok w' x" if "x \<in> set (sent w')" for x
  proof -
    have "sent_ok w' p"
      using ok p t by (simp add: sent_ok_def chan_ok_def base_ok_def) (simp add: w' commits_def tx_def)
    moreover have "sent_ok w' x" if "x \<in> set (sent w)"
      using sent_ok_mono [OF sent_ok_frame [OF ok(1) that]] t by (simp add: w' commits_def)
    ultimately show ?thesis
      using that w' by (auto simp: commits_def)
  qed
  have n: "\<forall>i < tx w'. p_seq (committed w' ! i) = i \<and> hdr_Ns (p_hdr (committed w' ! i)) = of_nat i"
    using ok p by (simp add: chan_ok_def base_ok_def t less_Suc_eq) (auto simp: w' commits_def nth_append tx_def)
  have "base_ok w'"
    using ok r s n by (simp add: base_ok_def chan_ok_def t) (simp add: w' commits_def ring_size_ok_def)
  then have "chan_ok w'"
    using ok a by (simp add: chan_ok_def t) (simp add: w' commits_def)
  then show "chan_frame w w'"
    using ok a t room L w' by (auto simp: chan_frame_def same_ring_def commits_def acked_def)
  show "\<not> closed w'" "c_peer_Nr (conn w') = c_peer_Nr (conn w)" "c_peer_rcv_wnd_sz (conn w') = c_peer_rcv_wnd_sz (conn w)" "c_send_queue (conn w') = q"
    using ok t by (simp_all add: w' commits_def)
qed

lemma chan_frame_refl: "chan_ok w \<Longrightarrow> chan_frame w w"
  using chan_rel_refl chan_rel_def by blast

lemma push_loop_rel:
  "chan_ok w \<Longrightarrow> \<not> closed w \<Longrightarrow> m = c_peer_Nr (conn w) + c_peer_rcv_wnd_sz (conn w) \<Longrightarrow> chan_frame w (snd (push_loop e m q w))"
proof (induction q arbitrary: w)
  case (Cons p q)
  show ?case
  proof (cases "nsnr_cmp (c_Ns (conn w)) m \<ge> 0")
    case False
    define p1 where "p1 = p\<lparr>p_hdr := (p_hdr p)\<lparr>hdr_Ns := c_Ns (conn w)\<rparr>, p_seq := length (committed w)\<rparr>"
    obtain p2 failed w1 where s: "tunnel_send_now e p1 w = ((p2, failed), w1)"
      by (metis prod.exhaust)
    have p2: "p2 = p1\<lparr>p_hdr := (p_hdr p1)\<lparr>hdr_Nr := c_Nr (conn w)\<rparr>, p_ack := length (delivered w)\<rparr>"
      using send_now_packet [of e p1 w] s by simp
    show ?thesis
    proof (cases failed)
      case True
      from s True have "w1 = w \<or> w1 = crash w"
        by (cases rule: send_now_cases) auto
      then have "core (upd_c (\<lambda>c. c\<lparr>c_send_queue := p2 # q\<rparr>) w1) = core w"
        using Cons.prems by (auto simp: core_def closed_def call_state_def)
      then show ?thesis
        using Cons.prems False s True core_rel by (auto simp: Let_def p1_def [symmetric] chan_rel_def)
    next
      case ok: False
      have room: "length (c_rtms_queue (conn w)) < 32767"
        using window_open [OF Cons.prems(1,2)] False Cons.prems by (auto simp: chan_ok_def base_ok_def word_le_nat_alt)
      from s ok have "\<exists>ps. w1 = w\<lparr>sent := ps\<rparr> \<and> (ps = sent w \<or> ps = sent w @ [p2])"
        by (cases rule: send_now_cases) (auto intro: exI [of _ "sent w"])
      then obtain ps where "w1 = w\<lparr>sent := ps\<rparr>" "ps = sent w \<or> ps = sent w @ [p2]"
        by blast
      note c = commit_rel [OF Cons.prems(1,2) room _ _ _ _ refl this(2), of q]
      have "snd (push_loop e m (p # q) w) = snd (push_loop e m q (commits p2 q w1))"
        using False s ok by (simp add: Let_def p1_def [symmetric] commits_def split: prod.splits)
      moreover have "chan_frame w (commits p2 q w1)" "chan_frame (commits p2 q w1) (snd (push_loop e m q (commits p2 q w1)))"
        using c Cons.IH [of "commits p2 q w1"] Cons.prems \<open>w1 = _\<close> by (auto simp: p2 p1_def tx_def rx_def chan_frame_def)
      ultimately show ?thesis
        using chan_frame_trans by metis
    qed
  qed (use Cons.prems in \<open>simp add: chan_frame_refl\<close>)
qed (simp add: chan_frame_refl)

lemma push_rel: "chan_rel w (fst (l2tp_tunnel_push_sendqueue e w))"
proof (unfold chan_rel_def, intro impI)
  assume ok: "chan_ok w"
  define m where "m = c_peer_Nr (conn w) + c_peer_rcv_wnd_sz (conn w)"
  define w1 where "w1 = snd (push_loop e m (c_send_queue (conn w)) w)"
  have "core (fst (l2tp_tunnel_push_sendqueue e w)) = core w1"
    by (auto simp: l2tp_tunnel_push_sendqueue_def w1_def m_def [symmetric] Let_def core_def closed_def call_state_def split: prod.splits bool.splits)
  moreover have "chan_frame w w1"
  proof (cases "closed w")
    case True
    then have "c_send_queue (conn w) = []"
      using ok by (simp add: chan_ok_def base_ok_def)
    then show ?thesis
      using ok by (simp add: w1_def chan_frame_refl)
  qed (simp add: w1_def m_def push_loop_rel ok)
  ultimately show "chan_frame w (fst (l2tp_tunnel_push_sendqueue e w))"
    using core_rel chan_frame_trans chan_rel_def chan_frame_def by metis
qed

lemma crel_push [crel]: "chan_rel w0 w \<Longrightarrow> chan_rel w0 (fst (l2tp_tunnel_push_sendqueue e w))"
  using push_rel chan_rel_trans by blast

lemma ZLB_rel: "chan_rel w (fst (l2tp_send_ZLB e w))"
proof (cases "chan_ok w")
  case True
  define p where "p = (the (fst (l2tp_packet_alloc (e_cf e) 2 0 (c_port (conn w)) False None (rnd w))))
     \<lparr>p_hdr := \<lparr>hdr_flags = L2TP_FLAG_T OR L2TP_FLAG_L OR L2TP_FLAG_S OR 2, hdr_length = 0, hdr_tid = c_peer_tid (conn w), hdr_sid = 0,
        hdr_Ns = c_Ns (conn w), hdr_Nr = 0\<rparr>, p_seq := length (committed w)\<rparr>"
  have "fst (l2tp_send_ZLB e w) = snd (tunnel_send_now e p (w\<lparr>rnd := rnd w\<rparr>))"
    by (simp add: l2tp_send_ZLB_def l2tp_packet_alloc_def p_def Let_def split: prod.splits)
  moreover have "chan_rel w (snd (tunnel_send_now e p w))"
    using True by (intro send_now_rel) (simp_all add: p_def l2tp_packet_alloc_def chan_ok_def base_ok_def tx_def Let_def)
  ultimately show ?thesis
    by simp
qed (simp add: chan_rel_def)

lemma crel_ZLB [crel]: "chan_rel w0 w \<Longrightarrow> chan_rel w0 (fst (l2tp_send_ZLB e w))"
  using ZLB_rel chan_rel_trans by blast

end
