(* ===== verification/L2tpHandlers.thy ===== *)
theory L2tpHandlers
  imports L2tpChannel
begin

text \<open>
  Every handler of \<^verbatim>\<open>ctrl/l2tp/l2tp.c\<close> respects the channel of its tunnel: the contract \<open>chan_rel\<close>, function by function in the order of the calls.
\<close>

section \<open>Functions that touch neither the channel nor the state of the tunnel\<close>

definition steady :: "l2tp_world \<Rightarrow> l2tp_world \<Rightarrow> bool" where
  "steady w w' \<longleftrightarrow> core w' = core w \<and> c_state (conn w') = c_state (conn w)"

named_theorems steady

lemma steady_refl [steady]: "steady w w"
  by (simp add: steady_def)

lemma steady_simps: "steady w0 w \<Longrightarrow> core w = core w0" "steady w0 w \<Longrightarrow> c_state (conn w) = c_state (conn w0)"
  by (simp_all add: steady_def)

lemma steady_if [steady]: "(b \<Longrightarrow> steady w0 x) \<Longrightarrow> (\<not> b \<Longrightarrow> steady w0 y) \<Longrightarrow> steady w0 (if b then x else y)"
  by simp

lemma steady_option [steady]:
  "(z = None \<Longrightarrow> steady w0 x) \<Longrightarrow> (\<And>a. z = Some a \<Longrightarrow> steady w0 (y a)) \<Longrightarrow> steady w0 (case z of None \<Rightarrow> x | Some a \<Rightarrow> y a)"
  by (cases z) auto

lemma steady_parse [steady]:
  "(z = Fault \<Longrightarrow> steady w0 x) \<Longrightarrow> (z = Reject \<Longrightarrow> steady w0 y) \<Longrightarrow> (\<And>a. z = Ok a \<Longrightarrow> steady w0 (u a)) \<Longrightarrow>
   steady w0 (case z of Fault \<Rightarrow> x | Reject \<Rightarrow> y | Ok a \<Rightarrow> u a)"
  by (cases z) auto

lemma steady_trans: "steady w0 w \<Longrightarrow> steady w w' \<Longrightarrow> steady w0 w'"
  by (simp add: steady_def)

lemma steady_basic [steady]:
  "steady w0 w \<Longrightarrow> steady w0 (crash w)" "steady w0 w \<Longrightarrow> steady w0 (l2tp_stat_inc f w)" "steady w0 w \<Longrightarrow> steady w0 (l2tp_stat_dec f w)"
  "steady w0 w \<Longrightarrow> steady w0 (l2tp_stat_move f g w)" "steady w0 w \<Longrightarrow> steady w0 (w\<lparr>rnd := r\<rparr>)" "steady w0 w \<Longrightarrow> steady w0 (upd_s sid h w)"
  "steady w0 w \<Longrightarrow> steady w0 (w\<lparr>lingering := n\<rparr>)" "steady w0 w \<Longrightarrow> steady w0 (w\<lparr>rnd := r, challenges := cs\<rparr>)"
  "steady w0 w \<Longrightarrow> steady w0 (del_timeout w)" "steady w0 w \<Longrightarrow> steady w0 (del_rtimeout w)" "steady w0 w \<Longrightarrow> steady w0 (del_hello w)"
  "steady w0 w \<Longrightarrow> steady w0 (del_sess_timer sid w)"
  by (simp_all add: steady_def conn_state)

lemma steady_upd_c [steady]:
  assumes "steady w0 w" "core (upd_c f w) = core w" "c_state (f (conn w)) = c_state (conn w)"
  shows "steady w0 (upd_c f w)"
  using assms by (simp add: steady_def)

text \<open>The pairs that the functions return, taken apart.\<close>

lemma fst_if: "fst (if b then x else y) = (if b then fst x else fst y)"
  by simp

lemma snd_if: "snd (if b then x else y) = (if b then snd x else snd y)"
  by simp

lemma fst_option: "fst (case z of None \<Rightarrow> x | Some a \<Rightarrow> y a) = (case z of None \<Rightarrow> fst x | Some a \<Rightarrow> fst (y a))"
  by (cases z) auto

lemma snd_option: "snd (case z of None \<Rightarrow> x | Some a \<Rightarrow> y a) = (case z of None \<Rightarrow> snd x | Some a \<Rightarrow> snd (y a))"
  by (cases z) auto

lemma case_bool_if: "(case b of True \<Rightarrow> x | False \<Rightarrow> y) = (if b then x else y)"
  by (cases b) auto

lemmas flat = Let_def case_prod_beta case_bool_if fst_if snd_if fst_option snd_option fst_conv snd_conv

lemma steady_tunnel_send [steady]: "steady w0 w \<Longrightarrow> steady w0 (fst (l2tp_tunnel_send p w))"
  by (auto simp: l2tp_tunnel_send_def steady_def core_def closed_def call_state_def)

lemma steady_session_send [steady]: "steady w0 w \<Longrightarrow> steady w0 (fst (l2tp_session_send sid p w))"
  unfolding l2tp_session_send_def flat by (intro steady)

lemma steady_session_try_send [steady]: "steady w0 w \<Longrightarrow> steady w0 (fst (l2tp_session_try_send sid p w))"
  unfolding l2tp_session_try_send_def flat by (intro steady)

lemma steady_make_packet [steady]: "steady w0 w \<Longrightarrow> steady w0 (snd (make_packet e t h rs w))"
  unfolding make_packet_def flat by (intro steady)

lemma steady_StopCCN [steady]: "steady w0 w \<Longrightarrow> steady w0 (fst (l2tp_send_StopCCN e res err w))"
  unfolding l2tp_send_StopCCN_def flat by (intro steady)

lemma steady_CDN [steady]: "steady w0 w \<Longrightarrow> steady w0 (fst (l2tp_send_CDN e sid res err w))"
  unfolding l2tp_send_CDN_def flat by (intro steady)

lemma steady_tunnel_CDN [steady]: "steady w0 w \<Longrightarrow> steady w0 (fst (l2tp_tunnel_send_CDN e sid psid res err w))"
  unfolding l2tp_tunnel_send_CDN_def flat by (intro steady)

lemma core_challenge: "core (upd_c (\<lambda>c. c\<lparr>c_challenge := x\<rparr>) w) = core w"
  by (simp add: core_def closed_def call_state_def)

lemma steady_challenge [steady]: "steady w0 w \<Longrightarrow> steady w0 (upd_c (\<lambda>c. c\<lparr>c_challenge := x\<rparr>) w)"
  by (rule steady_upd_c) (simp_all add: core_challenge)

lemma steady_genchall [steady]: "steady w0 w \<Longrightarrow> steady w0 (snd (l2tp_tunnel_genchall e n p w))"
  unfolding l2tp_tunnel_genchall_def flat by (intro steady)

lemma steady_storechall [steady]: "steady w0 w \<Longrightarrow> steady w0 (fst (l2tp_tunnel_storechall a w))"
  unfolding l2tp_tunnel_storechall_def flat by (intro steady)

lemma steady_genchallresp [steady]: "steady w0 w \<Longrightarrow> steady w0 (snd (l2tp_tunnel_genchallresp e i p w))"
  unfolding l2tp_tunnel_genchallresp_def flat by (intro steady)

lemma steady_checkchallresp [steady]: "steady w0 w \<Longrightarrow> steady w0 (fst (l2tp_tunnel_checkchallresp e i a w))"
  by (auto simp: l2tp_tunnel_checkchallresp_def intro: steady split: option.splits)

lemma steady_with_challenge [steady]: "steady w0 w \<Longrightarrow> steady w0 (snd (with_challenge e p w))"
  unfolding with_challenge_def flat by (intro steady)

lemma steady_SCCCN [steady]: "steady w0 w \<Longrightarrow> steady w0 (fst (l2tp_send_SCCCN e w))"
  unfolding l2tp_send_SCCCN_def flat by (intro steady)

lemma steady_log_result [steady]: "steady w0 w \<Longrightarrow> steady w0 (log_result_code as w)"
  unfolding log_result_code_def flat by (intro steady)

lemma steady_new_session [steady]: "steady w0 w \<Longrightarrow> steady w0 (snd (l2tp_tunnel_new_session w))"
  unfolding l2tp_tunnel_new_session_def flat by (intro steady) (simp_all add: core_def closed_def call_state_def)

lemma steady_alloc_session [steady]: "steady w0 w \<Longrightarrow> steady w0 (snd (l2tp_tunnel_alloc_session e w))"
  unfolding l2tp_tunnel_alloc_session_def flat by (intro steady)

lemma steady_session_message [steady]: "steady w0 w \<Longrightarrow> steady w0 (snd (session_message e sid f w))"
  unfolding session_message_def flat by (intro steady)

lemma steady_ICRQ [steady]: "steady w0 w \<Longrightarrow> steady w0 (fst (l2tp_send_ICRQ e sid w))"
  unfolding l2tp_send_ICRQ_def flat by (intro steady)

lemma steady_ICRP [steady]: "steady w0 w \<Longrightarrow> steady w0 (fst (l2tp_send_ICRP e sid w))"
  unfolding l2tp_send_ICRP_def flat by (intro steady)

lemma steady_ICCN [steady]: "steady w0 w \<Longrightarrow> steady w0 (fst (l2tp_send_ICCN e sid w))"
  unfolding l2tp_send_ICCN_def flat by (intro steady)

lemma steady_OCRQ [steady]: "steady w0 w \<Longrightarrow> steady w0 (fst (l2tp_send_OCRQ e sid w))"
  unfolding l2tp_send_OCRQ_def flat by (intro steady)

lemma steady_OCRP [steady]: "steady w0 w \<Longrightarrow> steady w0 (fst (l2tp_send_OCRP e sid w))"
  unfolding l2tp_send_OCRP_def flat by (intro steady)

lemma steady_OCCN [steady]: "steady w0 w \<Longrightarrow> steady w0 (fst (l2tp_send_OCCN e sid w))"
  unfolding l2tp_send_OCCN_def flat by (intro steady)

lemma steady_session_connect [steady]: "steady w0 w \<Longrightarrow> steady w0 (fst (l2tp_session_connect e sid w))"
  unfolding l2tp_session_connect_def flat by (intro steady)

lemma steady_session_incall_reply [steady]: "steady w0 w \<Longrightarrow> steady w0 (fst (l2tp_session_incall_reply e sid w))"
  unfolding l2tp_session_incall_reply_def flat by (intro steady)

lemma steady_session_outcall_reply [steady]: "steady w0 w \<Longrightarrow> steady w0 (fst (l2tp_session_outcall_reply e sid w))"
  unfolding l2tp_session_outcall_reply_def flat by (intro steady)

lemma steady_session_place_call [steady]: "steady w0 w \<Longrightarrow> steady w0 (fst (l2tp_session_place_call e sid w))"
  unfolding l2tp_session_place_call_def flat by (intro steady)

lemma steady_sequencing [steady]: "steady w0 w \<Longrightarrow> steady w0 (sequencing e sid as w)"
  unfolding sequencing_def flat by (intro steady)

lemma steady_session_free_crash [steady]: "steady w0 w \<Longrightarrow> steady w0 (session_free crash r sid s w)"
  unfolding session_free_def flat by (intro steady) (simp_all add: core_def closed_def call_state_def)

lemma steady_free_sessions [steady]: "steady w0 w \<Longrightarrow> steady w0 (l2tp_tunnel_free_sessions w)"
proof -
  have "steady w0 (fold (\<lambda>(sid, s). session_free crash False sid s) ss v)" if "steady w0 v" for ss v
    using that by (induction ss arbitrary: v) (auto intro: steady)
  moreover assume "steady w0 w"
  then have "steady w0 (upd_c (\<lambda>c. c\<lparr>c_sessions := []\<rparr>) w)"
    by (intro steady) (simp_all add: core_def closed_def call_state_def)
  ultimately show ?thesis
    by (simp add: l2tp_tunnel_free_sessions_def Let_def)
qed

lemma steady_tunnel_put [steady]: "steady w0 w \<Longrightarrow> steady w0 (tunnel_put w)"
  unfolding tunnel_put_def by (intro steady)

text \<open>What is steady respects the channel and keeps the state.\<close>

lemma crel_of_steady: "steady w w' \<Longrightarrow> chan_rel w0 w \<Longrightarrow> chan_rel w0 w'"
  using quiet by (simp add: steady_def)

lemma state_of_steady: "steady w w' \<Longrightarrow> c_state (conn w') = c_state (conn w)"
  by (simp add: steady_def)

lemmas crel_steady [crel] = steady_basic [OF steady_refl, THEN crel_of_steady] steady_tunnel_send [OF steady_refl, THEN crel_of_steady] steady_session_send [OF steady_refl, THEN crel_of_steady]
  steady_make_packet [OF steady_refl, THEN crel_of_steady] steady_StopCCN [OF steady_refl, THEN crel_of_steady] steady_CDN [OF steady_refl, THEN crel_of_steady] steady_tunnel_CDN [OF steady_refl, THEN crel_of_steady]
  steady_storechall [OF steady_refl, THEN crel_of_steady] steady_genchallresp [OF steady_refl, THEN crel_of_steady] steady_checkchallresp [OF steady_refl, THEN crel_of_steady]
  steady_with_challenge [OF steady_refl, THEN crel_of_steady] steady_SCCCN [OF steady_refl, THEN crel_of_steady] steady_log_result [OF steady_refl, THEN crel_of_steady]
  steady_alloc_session [OF steady_refl, THEN crel_of_steady] steady_ICCN [OF steady_refl, THEN crel_of_steady] steady_session_connect [OF steady_refl, THEN crel_of_steady]
  steady_session_incall_reply [OF steady_refl, THEN crel_of_steady] steady_session_outcall_reply [OF steady_refl, THEN crel_of_steady] steady_session_place_call [OF steady_refl, THEN crel_of_steady]
  steady_sequencing [OF steady_refl, THEN crel_of_steady] steady_free_sessions [OF steady_refl, THEN crel_of_steady] steady_tunnel_put [OF steady_refl, THEN crel_of_steady]

lemmas state_steady [conn_state] = steady_tunnel_send [OF steady_refl, THEN state_of_steady]
  steady_make_packet [OF steady_refl, THEN state_of_steady] steady_StopCCN [OF steady_refl, THEN state_of_steady]
  steady_storechall [OF steady_refl, THEN state_of_steady] steady_genchallresp [OF steady_refl, THEN state_of_steady] steady_checkchallresp [OF steady_refl, THEN state_of_steady]
  steady_with_challenge [OF steady_refl, THEN state_of_steady] steady_SCCCN [OF steady_refl, THEN state_of_steady] steady_log_result [OF steady_refl, THEN state_of_steady]
  steady_free_sessions [OF steady_refl, THEN state_of_steady] steady_tunnel_put [OF steady_refl, THEN state_of_steady]

lemma crel_refl [crel]: "chan_rel w w"
  by (rule chan_rel_refl)

lemma crel_upd_c [crel]: "chan_rel w0 w \<Longrightarrow> core (upd_c f w) = core w \<Longrightarrow> chan_rel w0 (upd_c f w)"
  by (rule quiet)

section \<open>Ending sessions and tunnels\<close>

lemma crel_clear_sendqueue [crel]: "chan_rel w0 w \<Longrightarrow> chan_rel w0 (l2tp_tunnel_clear_sendqueue w)"
proof -
  have "chan_ok w \<Longrightarrow> core (l2tp_tunnel_clear_sendqueue w) = core w"
    by (auto simp: chan_ok_def base_ok_def core_def closed_def call_state_def l2tp_tunnel_clear_sendqueue_def)
  then have "chan_rel w (l2tp_tunnel_clear_sendqueue w)"
    using core_rel chan_rel_def by blast
  then show "chan_rel w0 w \<Longrightarrow> ?thesis"
    using chan_rel_trans by blast
qed

lemma crel_session_clear_sendqueue [crel]: "chan_rel w0 w \<Longrightarrow> chan_rel w0 (l2tp_session_clear_sendqueue sid w)"
proof -
  have "chan_ok w \<Longrightarrow> core (l2tp_session_clear_sendqueue sid w) = core w"
    by (auto simp: chan_ok_def base_ok_def core_def closed_def call_state_def l2tp_session_clear_sendqueue_def)
  then have "chan_rel w (l2tp_session_clear_sendqueue sid w)"
    using core_rel chan_rel_def by blast
  then show "chan_rel w0 w \<Longrightarrow> ?thesis"
    using chan_rel_trans by blast
qed

text \<open>A closed tunnel has lost its queues.\<close>

lemma tunnel_free_core:
  assumes "\<not> closed w" "\<not> call_state w"
  shows "core (l2tp_tunnel_free w) = ((c_Ns (conn w), c_Nr (conn w), c_peer_Nr (conn w), 0, c_peer_rcv_wnd_sz (conn w)),
       ([], map (\<lambda>_. None) (c_recv_queue (conn w)), True, False, False, c_secret (conn w)), sent w, committed w, delivered w)"
proof -
  define v where "v = (if c_state (conn w) = STATE_ESTB then l2tp_stat_move Conn_active Conn_finishing w
     else if c_state (conn w) = STATE_FIN \<or> c_state (conn w) = STATE_FIN_WAIT then w else l2tp_stat_move Conn_starting Conn_finishing w)"
  define u where "u = l2tp_tunnel_clear_recvqueue (l2tp_tunnel_clear_sendqueue (upd_c (\<lambda>c. c\<lparr>c_hnd := False, c_timeout_timer := False,
     c_rtimeout_timer := False, c_hello_timer := False, c_rtms_queue := []\<rparr>) ((upd_c (\<lambda>c. c\<lparr>c_state := STATE_CLOSE\<rparr>) v)\<lparr>in_table := False\<rparr>)))"
  have "l2tp_tunnel_free w = tunnel_put (l2tp_tunnel_free_sessions u)"
    using assms by (simp add: l2tp_tunnel_free_def v_def u_def Let_def closed_def call_state_def)
  then have "core (l2tp_tunnel_free w) = core u"
    using steady_simps(1) steady_tunnel_put steady_free_sessions steady_refl by metis
  moreover have "conn v = conn w" "sent v = sent w" "committed v = committed w" "delivered v = delivered w"
    by (simp_all add: v_def)
  ultimately show ?thesis
    by (simp add: u_def core_def closed_def call_state_def l2tp_tunnel_clear_recvqueue_def l2tp_tunnel_clear_sendqueue_def)
qed

lemma tunnel_free_ok:
  assumes "base_ok w" "\<not> closed w"
  shows "chan_ok (l2tp_tunnel_free w)" "no_ring (l2tp_tunnel_free w)" "committed (l2tp_tunnel_free w) = committed w"
    "delivered (l2tp_tunnel_free w) = delivered w" "sent (l2tp_tunnel_free w) = sent w" "c_secret (conn (l2tp_tunnel_free w)) = c_secret (conn w)"
    "c_recv_queue_sz (conn (l2tp_tunnel_free w)) = c_recv_queue_sz (conn w)"
proof -
  define w' where "w' = l2tp_tunnel_free w"
  have c: "core w' = ((c_Ns (conn w), c_Nr (conn w), c_peer_Nr (conn w), 0, c_peer_rcv_wnd_sz (conn w)),
       ([], map (\<lambda>_. None) (c_recv_queue (conn w)), True, False, False, c_secret (conn w)), sent w, committed w, delivered w)"
    using tunnel_free_core assms by (simp add: w'_def base_ok_def)
  have same: "tx w' = tx w" "rx w' = rx w" "closed w'" "\<And>p. sent_ok w' p = sent_ok w p"
    using c by (simp_all add: core_def tx_def rx_def sent_ok_def)
  have "ring_size_ok w'"
    using assms c by (auto simp: base_ok_def ring_size_ok_def core_def)
  then have "chan_ok w'"
    using assms c same by (simp add: chan_ok_def base_ok_def) (auto simp: core_def)
  moreover have "no_ring w'" "committed w' = committed w" "delivered w' = delivered w" "sent w' = sent w" "c_secret (conn w') = c_secret (conn w)"
    "c_recv_queue_sz (conn w') = c_recv_queue_sz (conn w)"
    using c by (auto simp: no_ring_def core_def)
  ultimately show "chan_ok (l2tp_tunnel_free w)" "no_ring (l2tp_tunnel_free w)" "committed (l2tp_tunnel_free w) = committed w"
    "delivered (l2tp_tunnel_free w) = delivered w" "sent (l2tp_tunnel_free w) = sent w" "c_secret (conn (l2tp_tunnel_free w)) = c_secret (conn w)"
    "c_recv_queue_sz (conn (l2tp_tunnel_free w)) = c_recv_queue_sz (conn w)"
    by (simp_all add: w'_def)
qed

lemma tunnel_free_rel: "chan_rel w (l2tp_tunnel_free w)"
proof (cases "closed w")
  case True
  then show ?thesis
    by (simp add: l2tp_tunnel_free_def closed_def chan_rel_refl)
next
  case False
  then show ?thesis
    using tunnel_free_ok [of w] tx_acked [of w] by (auto simp: chan_rel_def chan_frame_def chan_ok_def [of w] no_ring_def tx_def)
qed

lemma crel_tunnel_free [crel]: "chan_rel w0 w \<Longrightarrow> chan_rel w0 (l2tp_tunnel_free w)"
  using tunnel_free_rel chan_rel_trans by blast

lemma crel_tunnel_disconnect [crel]: "chan_rel w0 w \<Longrightarrow> chan_rel w0 (fst (l2tp_tunnel_disconnect e res err w))"
  unfolding l2tp_tunnel_disconnect_def flat by (intro crel) (auto simp: core_def closed_def call_state_def conn_state)

lemma crel_tunnel_disconnect_push [crel]: "chan_rel w0 w \<Longrightarrow> chan_rel w0 (l2tp_tunnel_disconnect_push e res err w)"
  unfolding l2tp_tunnel_disconnect_push_def flat by (intro crel)

lemma crel_session_free [crel]: "chan_rel w0 w \<Longrightarrow> chan_rel w0 (l2tp_session_free e sid w)"
  unfolding l2tp_session_free_def session_free_def flat by (intro crel) (simp_all add: core_def closed_def call_state_def)

lemma crel_session_disconnect [crel]: "chan_rel w0 w \<Longrightarrow> chan_rel w0 (l2tp_session_disconnect e sid res err w)"
  unfolding l2tp_session_disconnect_def by (intro crel)

lemma crel_session_disconnect_push [crel]: "chan_rel w0 w \<Longrightarrow> chan_rel w0 (l2tp_session_disconnect_push e sid res err w)"
  unfolding l2tp_session_disconnect_push_def flat by (intro crel)

section \<open>Tunnels\<close>

lemma crel_window:
  assumes "chan_rel w0 w" "x \<le> 32767"
  shows "chan_rel w0 (upd_c (\<lambda>c. c\<lparr>c_peer_rcv_wnd_sz := x\<rparr>) w)"
proof -
  define w' where "w' = upd_c (\<lambda>c. c\<lparr>c_peer_rcv_wnd_sz := x\<rparr>) w"
  have same: "tx w' = tx w" "rx w' = rx w" "closed w' = closed w" "call_state w' = call_state w" "acked w' = acked w" "rtms_ok w' = rtms_ok w" "ring_size_ok w' = ring_size_ok w"
    "\<And>p. sent_ok w' p = sent_ok w p" "same_ring w w'"
    by (simp_all add: w'_def tx_def rx_def closed_def call_state_def acked_def rtms_ok_def ring_size_ok_def sent_ok_def same_ring_def)
  have "chan_ok w \<Longrightarrow> chan_ok w'"
    using same assms(2) by (simp add: chan_ok_def base_ok_def) (auto simp: w'_def)
  then have "chan_rel w w'"
    using same tx_acked by (auto simp: chan_rel_def chan_frame_def) (auto simp: w'_def)
  then show ?thesis
    using assms(1) chan_rel_trans w'_def by blast
qed

text \<open>A message whose Receive Window Size, if it has one, is at most 32767.\<close>

definition small_window :: "l2tp_packet \<Rightarrow> bool" where
  "small_window pack \<longleftrightarrow>
     (\<forall>a \<in> set (p_attrs pack). lda_id (la_attr a) = Recv_Window_Size \<longrightarrow> (case la_val a of V16 x \<Rightarrow> x \<le> 32767 | _ \<Rightarrow> False))"

lemma find_in: "find P xs = Some x \<Longrightarrow> x \<in> set xs \<and> P x"
  by (induction xs) (auto split: if_splits)

lemma last_attr_in: "last_attr i as = Some a \<Longrightarrow> a \<in> set as \<and> lda_id (la_attr a) = i"
  unfolding last_attr_def by (drule find_in) simp

lemma small_window_value: "small_window pack \<Longrightarrow> last_attr Recv_Window_Size (p_attrs pack) = Some a \<Longrightarrow> val_uint16 e (la_val a) \<le> 32767"
  by (drule last_attr_in, cases "la_val a") (auto simp: small_window_def)

lemma crel_tunnel_connect [crel]: "chan_rel w0 w \<Longrightarrow> \<not> closed w \<Longrightarrow> \<not> call_state w \<Longrightarrow> chan_rel w0 (fst (l2tp_tunnel_connect e w))"
  unfolding l2tp_tunnel_connect_def flat by (intro crel) (auto simp: core_def closed_def call_state_def conn_state)

lemma state_tunnel_connect: "snd (l2tp_tunnel_connect e w) \<Longrightarrow> c_state (conn (fst (l2tp_tunnel_connect e w))) = c_state (conn w)"
  by (auto simp: l2tp_tunnel_connect_def Let_def conn_state split: if_splits)

lemma crel_send_HELLO [crel]: "chan_rel w0 w \<Longrightarrow> chan_rel w0 (l2tp_send_HELLO e w)"
  unfolding l2tp_send_HELLO_def flat by (intro crel)

lemma crel_send_SCCRQ [crel]: "chan_rel w0 w \<Longrightarrow> \<not> closed w \<Longrightarrow> \<not> call_state w \<Longrightarrow> chan_rel w0 (l2tp_send_SCCRQ e w)"
  unfolding l2tp_send_SCCRQ_def flat by (intro crel) (auto simp: core_def closed_def call_state_def conn_state)

lemma crel_send_SCCRP [crel]: "chan_rel w0 w \<Longrightarrow> \<not> closed w \<Longrightarrow> \<not> call_state w \<Longrightarrow> chan_rel w0 (l2tp_send_SCCRP e w)"
  unfolding l2tp_send_SCCRP_def flat by (intro crel) (auto simp: core_def closed_def call_state_def conn_state)

lemma crel_sccrp_window [crel]: "chan_rel w0 w \<Longrightarrow> small_window pack \<Longrightarrow> chan_rel w0 (fst (sccrp_window e (p_attrs pack) w))"
  unfolding sccrp_window_def flat by (intro crel crel_window) (auto simp: small_window_value)

lemma state_sccrp_window [conn_state]: "c_state (conn (fst (sccrp_window e as w))) = c_state (conn w)"
  by (auto simp: sccrp_window_def Let_def split: option.splits)

lemma crel_sccrp_reply [crel]: "chan_rel w0 w \<Longrightarrow> \<not> closed w \<Longrightarrow> \<not> call_state w \<Longrightarrow> chan_rel w0 (sccrp_reply e as w)"
  unfolding sccrp_reply_def flat by (intro crel; simp only: closed_def call_state_def conn_state simp_thms)

lemma crel_recv_SCCRP [crel]: "chan_rel w0 w \<Longrightarrow> small_window pack \<Longrightarrow> chan_rel w0 (l2tp_recv_SCCRP e pack w)"
  unfolding l2tp_recv_SCCRP_def flat by (intro crel; simp add: core_def closed_def call_state_def conn_state)

lemma crel_recv_SCCCN [crel]: "chan_rel w0 w \<Longrightarrow> chan_rel w0 (l2tp_recv_SCCCN e pack w)"
  unfolding l2tp_recv_SCCCN_def flat by (intro crel) (auto simp: core_def closed_def call_state_def conn_state)

lemma crel_finwait [crel]: "chan_rel w0 w \<Longrightarrow> chan_rel w0 (l2tp_tunnel_finwait e w)"
  unfolding l2tp_tunnel_finwait_def flat by (intro crel) (auto simp: core_def closed_def call_state_def conn_state)

lemma crel_recv_StopCCN [crel]: "chan_rel w0 w \<Longrightarrow> chan_rel w0 (l2tp_recv_StopCCN e pack w)"
  unfolding l2tp_recv_StopCCN_def flat by (intro crel) (auto simp: core_def closed_def call_state_def conn_state)

section \<open>Sessions\<close>

lemma crel_reject_call [crel]: "chan_rel w0 w \<Longrightarrow> chan_rel w0 (reject_call e s psid res err w)"
  unfolding reject_call_def flat by (intro crel)

lemma crel_recv_ICRQ [crel]: "chan_rel w0 w \<Longrightarrow> chan_rel w0 (l2tp_recv_ICRQ e pack w)"
  unfolding l2tp_recv_ICRQ_def flat by (intro crel)

lemma crel_recv_OCRQ [crel]: "chan_rel w0 w \<Longrightarrow> chan_rel w0 (l2tp_recv_OCRQ e pack w)"
  unfolding l2tp_recv_OCRQ_def flat by (intro crel)

lemma crel_recv_ICRP [crel]: "chan_rel w0 w \<Longrightarrow> chan_rel w0 (l2tp_recv_ICRP e sid pack w)"
  unfolding l2tp_recv_ICRP_def flat by (intro crel)

lemma crel_recv_ICCN [crel]: "chan_rel w0 w \<Longrightarrow> chan_rel w0 (l2tp_recv_ICCN e sid pack w)"
  unfolding l2tp_recv_ICCN_def flat by (intro crel)

lemma crel_recv_OCRP [crel]: "chan_rel w0 w \<Longrightarrow> chan_rel w0 (l2tp_recv_OCRP e sid pack w)"
  unfolding l2tp_recv_OCRP_def flat by (intro crel)

lemma crel_recv_OCCN [crel]: "chan_rel w0 w \<Longrightarrow> chan_rel w0 (l2tp_recv_OCCN e sid pack w)"
  unfolding l2tp_recv_OCCN_def flat by (intro crel)

lemma crel_recv_CDN [crel]: "chan_rel w0 w \<Longrightarrow> chan_rel w0 (l2tp_recv_CDN e sid pack w)"
  unfolding l2tp_recv_CDN_def flat by (intro crel)

lemma crel_create_session [crel]: "chan_rel w0 w \<Longrightarrow> chan_rel w0 (l2tp_tunnel_create_session e w)"
  unfolding l2tp_tunnel_create_session_def flat by (intro crel)

lemma crel_timers [crel]:
  "chan_rel w0 w \<Longrightarrow> chan_rel w0 (l2tp_session_timeout e sid w)"
  "chan_rel w0 w \<Longrightarrow> chan_rel w0 (l2tp_tunnel_timeout e w)"
  "chan_rel w0 w \<Longrightarrow> chan_rel w0 (l2tp_tunnel_finwait_timeout w)"
  "chan_rel w0 w \<Longrightarrow> chan_rel w0 (l2tp_session_apses_finished e sid w)"
  "chan_rel w0 w \<Longrightarrow> chan_rel w0 (l2tp_conn_close e w)"
  "chan_rel w0 w \<Longrightarrow> chan_rel w0 (apses_destroy sid w)"
  "chan_rel w0 w \<Longrightarrow> chan_rel w0 (apses_destroy_freed w)"
  unfolding l2tp_session_timeout_def l2tp_tunnel_timeout_def l2tp_tunnel_finwait_timeout_def l2tp_session_apses_finished_def l2tp_conn_close_def
    apses_destroy_def apses_destroy_freed_def flat
  by (intro crel; assumption)+

section \<open>Dispatch\<close>

lemma crel_session_recv [crel]: "chan_rel w0 w \<Longrightarrow> chan_rel w0 (l2tp_session_recv e sid pack t m w)"
  unfolding l2tp_session_recv_def l2tp_recv_WEN_def l2tp_recv_SLI_def by (intro crel)

lemma crel_tunnel_recv [crel]: "chan_rel w0 w \<Longrightarrow> small_window pack \<Longrightarrow> chan_rel w0 (l2tp_tunnel_recv e pack t m w)"
  unfolding l2tp_tunnel_recv_def l2tp_recv_HELLO_def l2tp_tunnel_recv_CDN_def by (intro crel)

lemma crel_process_msg [crel]: "chan_rel w0 w \<Longrightarrow> small_window pack \<Longrightarrow> chan_rel w0 (process_msg e pack w)"
  unfolding process_msg_def flat by (intro crel)

section \<open>Retransmission\<close>

lemma rtms_head:
  assumes "chan_ok w" "\<not> closed w" "c_rtms_queue (conn w) = p # q"
  shows "p_seq p = acked w" "hdr_Ns (p_hdr p) = of_nat (p_seq p)" "acked w < tx w" "strip p = strip (committed w ! acked w)"
proof -
  have r: "map strip (p # q) = map strip (drop (acked w) (committed w))" "length (p # q) \<le> tx w"
    using assms by (auto simp: chan_ok_def base_ok_def rtms_ok_def)
  show lt: "acked w < tx w"
    using r by (simp add: acked_def assms(3))
  then have "drop (acked w) (committed w) = committed w ! acked w # drop (Suc (acked w)) (committed w)"
    by (simp add: Cons_nth_drop_Suc tx_def)
  then show s: "strip p = strip (committed w ! acked w)"
    using r by simp
  have "p_seq (committed w ! acked w) = acked w" "hdr_Ns (p_hdr (committed w ! acked w)) = of_nat (acked w)"
    using assms lt by (simp_all add: chan_ok_def base_ok_def)
  moreover have "p_seq (strip p) = p_seq p" "hdr_Ns (p_hdr (strip p)) = hdr_Ns (p_hdr p)" for p
    by (simp_all add: strip_def)
  ultimately show "p_seq p = acked w" "hdr_Ns (p_hdr p) = of_nat (p_seq p)"
    using s by metis+
qed

lemma rtms_update_rel:
  assumes "chan_rel w0 w" "map strip q = map strip (c_rtms_queue (conn w))"
  shows "chan_rel w0 (upd_c (\<lambda>c. c\<lparr>c_rtms_queue := q\<rparr>) w)"
proof -
  define w' where "w' = upd_c (\<lambda>c. c\<lparr>c_rtms_queue := q\<rparr>) w"
  have l: "length q = length (c_rtms_queue (conn w))"
    using assms(2) map_eq_imp_length_eq by blast
  have same: "tx w' = tx w" "rx w' = rx w" "closed w' = closed w" "call_state w' = call_state w" "acked w' = acked w" "rtms_ok w' = rtms_ok w" "ring_size_ok w' = ring_size_ok w"
    "\<And>p. sent_ok w' p = sent_ok w p" "same_ring w w'"
    using assms(2) by (simp_all add: w'_def tx_def rx_def closed_def call_state_def acked_def rtms_ok_def ring_size_ok_def sent_ok_def same_ring_def l)
  have "chan_ok w \<Longrightarrow> chan_ok w'"
    using same by (simp add: chan_ok_def base_ok_def) (auto simp: w'_def)
  then have "chan_rel w w'"
    using same tx_acked by (auto simp: chan_rel_def chan_frame_def) (auto simp: w'_def)
  then show ?thesis
    using assms(1) chan_rel_trans w'_def by blast
qed

lemma rtimeout_rel:
  assumes "chan_ok w" "\<not> closed w"
  shows "chan_rel w (l2tp_rtimeout e w)"
proof (cases "c_rtms_queue (conn w)")
  case (Cons p q)
  define v where "v = upd_c (\<lambda>c. c\<lparr>c_retransmit := c_retransmit c + 1\<rparr>) w"
  obtain p' failed u where s: "tunnel_send_now e p v = ((p', failed), u)"
    by (metis prod.exhaust)
  have core: "core v = core w"
    by (simp add: v_def core_def closed_def call_state_def)
  then have v: "chan_rel w v"
    by (rule core_rel)
  have "chan_rel v u"
    using send_now_rel [of p v e] rtms_head [OF assms Cons] core s by (simp add: core_def tx_def)
  then have u: "chan_rel w u"
    using v chan_rel_trans by blast
  have "strip p' = strip p"
    using send_now_packet [of e p v] s by (simp add: strip_def)
  moreover have "c_rtms_queue (conn u) = p # q"
    using state_send_now [of e p v] s Cons by (simp add: v_def)
  ultimately have f: "chan_rel w (upd_c (\<lambda>c. c\<lparr>c_rtms_queue := p' # q\<rparr>) u)"
    using u by (intro rtms_update_rel) auto
  have g: "chan_rel w (upd_c (\<lambda>c. c\<lparr>c_rtms_queue := p' # q, c_period := min (c_period c * 2) (c_rtimeout_cap c)\<rparr>) u)"
    by (rule quiet [OF f]) (simp add: core_def closed_def call_state_def)
  have "l2tp_rtimeout e w = (if c_retransmit (conn v) > c_max_retransmit (conn v) then l2tp_tunnel_free (del_rtimeout v)
     else if failed then l2tp_tunnel_free (del_rtimeout (upd_c (\<lambda>c. c\<lparr>c_rtms_queue := p' # q\<rparr>) u))
     else if e_timer e then upd_c (\<lambda>c. c\<lparr>c_rtms_queue := p' # q, c_period := min (c_period c * 2) (c_rtimeout_cap c)\<rparr>) u
     else l2tp_tunnel_free (del_rtimeout (upd_c (\<lambda>c. c\<lparr>c_rtms_queue := p' # q, c_period := min (c_period c * 2) (c_rtimeout_cap c)\<rparr>) u)))"
    using s unfolding v_def [symmetric] by (simp add: l2tp_rtimeout_def Cons v_def [symmetric] Let_def)
  then show ?thesis
    using v f g by (auto intro: crel)
qed (simp add: l2tp_rtimeout_def chan_rel_refl)

end
