(* ===== verification/L2tpOrder.thy ===== *)
theory L2tpOrder
  imports L2tpHandlers
begin

text \<open>
  The receiving side of a tunnel (\<^verbatim>\<open>l2tp_tunnel_store_msg\<close>, \<^verbatim>\<open>l2tp_tunnel_reply\<close>, \<^verbatim>\<open>l2tp_conn_read\<close> of \<^verbatim>\<open>ctrl/l2tp/l2tp.c\<close>): whatever the order and the number of
  times in which the datagrams of a peer arrive, its messages are handled once each and in the order of their numbers.
\<close>

section \<open>Messages of the peer\<close>

text \<open>\<open>q\<close> is what \<^verbatim>\<open>l2tp_recv\<close> makes of a datagram of the message \<open>p\<close>, whatever acknowledgement the datagram carries.\<close>

definition carried :: "l2tp_conf \<Rightarrow> bytes option \<Rightarrow> l2tp_packet \<Rightarrow> l2tp_packet \<Rightarrow> bool" where
  "carried cf secret p q \<longleftrightarrow>
     (\<exists>nr port buf. l2tp_packet_send (p\<lparr>p_hdr := (p_hdr p)\<lparr>hdr_Nr := nr\<rparr>\<rparr>) = Ok buf \<and> l2tp_recv cf secret port buf = Ok q)"

definition good_msg :: "l2tp_conf \<Rightarrow> l2tp_packet list \<Rightarrow> bytes option \<Rightarrow> nat \<Rightarrow> l2tp_packet \<Rightarrow> bool" where
  "good_msg cf cm secret n q \<longleftrightarrow> n < length cm \<and> carried cf secret (cm ! n) q \<and> small_window q \<and> p_attrs q \<noteq> []"

text \<open>The ring read from slot \<open>k\<close> on holds the messages after the ones that were handled.\<close>

definition ring_at :: "l2tp_conf \<Rightarrow> l2tp_packet list \<Rightarrow> nat \<Rightarrow> l2tp_world \<Rightarrow> bool" where
  "ring_at cf cm k w \<longleftrightarrow>
     (\<forall>i < c_recv_queue_sz (conn w). \<forall>q. c_recv_queue (conn w) ! ((k + i) mod c_recv_queue_sz (conn w)) = Some q \<longrightarrow>
        good_msg cf cm (c_secret (conn w)) (rx w + i) q)"

abbreviation ring_ok :: "l2tp_conf \<Rightarrow> l2tp_packet list \<Rightarrow> l2tp_world \<Rightarrow> bool" where
  "ring_ok cf cm w \<equiv> ring_at cf cm (unat (c_recv_queue_offt (conn w))) w"

definition in_order :: "l2tp_conf \<Rightarrow> l2tp_packet list \<Rightarrow> l2tp_world \<Rightarrow> bool" where
  "in_order cf cm w \<longleftrightarrow> rx w \<le> length cm \<and> list_all2 (carried cf (c_secret (conn w))) (take (rx w) cm) (delivered w)"

text \<open>A datagram that reaches the tunnel: it comes from a packet of the peer that is not delayed by more than 32767 messages.\<close>

definition timely :: "l2tp_world \<Rightarrow> l2tp_packet \<Rightarrow> bool" where
  "timely w p \<longleftrightarrow> rx w \<le> p_seq p + 32767 \<and> tx w \<le> p_ack p + 32767"

definition from_peer :: "l2tp_conf \<Rightarrow> l2tp_packet list \<Rightarrow> nat \<Rightarrow> l2tp_world \<Rightarrow> l2tp_packet \<Rightarrow> l2tp_packet \<Rightarrow> bool" where
  "from_peer cf cm R w p q \<longleftrightarrow>
     hdr_Ns (p_hdr q) = of_nat (p_seq p) \<and> hdr_Nr (p_hdr q) = of_nat (p_ack p) \<and> timely w p \<and> p_ack p \<le> R \<and> p_ack p \<le> tx w \<and>
     p_seq p \<le> rx w + 32768 \<and> (p_attrs q \<noteq> [] \<longrightarrow> good_msg cf cm (c_secret (conn w)) (p_seq p) q)"

section \<open>The reception queue\<close>

text \<open>While datagrams are read, \<open>a\<close> is the number up to which the peer has acknowledged.\<close>

definition reading :: "nat \<Rightarrow> l2tp_world \<Rightarrow> bool" where
  "reading a w \<longleftrightarrow> base_ok w \<and> \<not> closed w \<and> c_peer_Nr (conn w) = of_nat a \<and> acked w \<le> a \<and> a \<le> tx w"

definition read_frame :: "l2tp_world \<Rightarrow> l2tp_world \<Rightarrow> bool" where
  "read_frame w w' \<longleftrightarrow> committed w' = committed w \<and> delivered w' = delivered w \<and> sent w' = sent w \<and> c_secret (conn w') = c_secret (conn w) \<and>
     c_rtms_queue (conn w') = c_rtms_queue (conn w) \<and> c_recv_queue_sz (conn w') = c_recv_queue_sz (conn w) \<and>
     closed w' = closed w \<and> call_state w' = call_state w \<and> c_recv_queue_offt (conn w') = c_recv_queue_offt (conn w)"

lemma read_frame_refl: "read_frame w w"
  by (simp add: read_frame_def)

lemma read_frame_trans: "read_frame w w1 \<Longrightarrow> read_frame w1 w2 \<Longrightarrow> read_frame w w2"
  by (simp add: read_frame_def)

lemma mod_add_inj:
  assumes "(k + i) mod n = (k + j) mod n" "i < n" "j < (n :: nat)"
  shows "i = j"
proof -
  obtain x y where "k + i + n * x = k + j + n * y"
    using assms(1) nat_mod_eq_iff by blast
  then have "i + n * x = j + n * y"
    by simp
  then have "i mod n = j mod n"
    using nat_mod_eq_iff by blast
  then show ?thesis
    using assms by simp
qed

lemma ring_insert:
  assumes "ring_ok cf cm w" "j < c_recv_queue_sz (conn w)" "good_msg cf cm (c_secret (conn w)) (rx w + j) q"
    and "w' = upd_c (\<lambda>c. c\<lparr>c_recv_queue := (c_recv_queue c)[(j + unat (c_recv_queue_offt c)) mod c_recv_queue_sz c := Some q]\<rparr>) w"
  shows "ring_ok cf cm w'"
proof -
  define n k where "n = c_recv_queue_sz (conn w)" and "k = unat (c_recv_queue_offt (conn w))"
  have w': "c_recv_queue (conn w') = (c_recv_queue (conn w))[(k + j) mod n := Some q]" "c_secret (conn w') = c_secret (conn w)" "rx w' = rx w"
    "c_recv_queue_sz (conn w') = n" "unat (c_recv_queue_offt (conn w')) = k"
    by (simp_all add: assms(4) n_def k_def rx_def add.commute)
  have "good_msg cf cm (c_secret (conn w)) (rx w + i) x"
    if "i < n" "(c_recv_queue (conn w))[(k + j) mod n := Some q] ! ((k + i) mod n) = Some x" for i x
  proof (cases "i = j")
    case True
    have "(k + j) mod n < length (c_recv_queue (conn w))"
      unfolding n_def [symmetric] using that(1) by (intro mod_less_divisor) simp
    then show ?thesis
      using that True assms(3) by simp
  next
    case False
    then have "(k + i) mod n \<noteq> (k + j) mod n"
      using mod_add_inj that(1) assms(2) n_def by blast
    then show ?thesis
      using that assms(1) by (auto simp: ring_at_def n_def k_def)
  qed
  then show ?thesis
    unfolding ring_at_def w'(4) w'(5) unfolding w' by blast
qed

lemma reading_frame:
  assumes "reading a w" "read_frame w w'" "ring_size_ok w'" "c_Ns (conn w') = c_Ns (conn w)" "c_Nr (conn w') = c_Nr (conn w)"
    "c_peer_rcv_wnd_sz (conn w') = c_peer_rcv_wnd_sz (conn w)" "c_peer_Nr (conn w') = of_nat a'" "a \<le> a'" "a' \<le> tx w"
  shows "reading a' w'"
proof -
  have "tx w' = tx w" "rx w' = rx w" "closed w' = closed w" "call_state w' = call_state w" "acked w' = acked w" "rtms_ok w' = rtms_ok w" "\<And>p. sent_ok w' p = sent_ok w p"
    using assms(2) by (simp_all add: read_frame_def tx_def rx_def acked_def rtms_ok_def sent_ok_def)
  then show ?thesis
    using assms by (auto simp: reading_def base_ok_def read_frame_def)
qed

definition ack_up :: "l2tp_packet \<Rightarrow> l2tp_world \<Rightarrow> l2tp_world" where
  "ack_up q w = (if nsnr_cmp (hdr_Nr (p_hdr q)) (c_peer_Nr (conn w)) > 0 then upd_c (\<lambda>c. c\<lparr>c_peer_Nr := hdr_Nr (p_hdr q)\<rparr>) w else w)"

lemma ack_up_reading:
  assumes "reading a w" "from_peer cf cm R w p q"
  shows "reading (max a (p_ack p)) (ack_up q w)" "read_frame w (ack_up q w)" "c_recv_queue (conn (ack_up q w)) = c_recv_queue (conn w)"
    "c_Nr (conn (ack_up q w)) = c_Nr (conn w)" "\<not> nsnr_cmp (c_Ns (conn w)) (hdr_Nr (p_hdr q)) < 0"
proof -
  have b: "c_Ns (conn w) = of_nat (tx w)" "c_peer_Nr (conn w) = of_nat a" "tx w \<le> acked w + 32767" "ring_size_ok w"
    using assms(1) by (auto simp: reading_def base_ok_def rtms_ok_def acked_def)
  have q: "hdr_Nr (p_hdr q) = of_nat (p_ack p)" "p_ack p \<le> tx w" "tx w \<le> p_ack p + 32767"
    using assms(2) by (auto simp: from_peer_def timely_def)
  have a: "acked w \<le> a" "a \<le> tx w"
    using assms(1) by (auto simp: reading_def)
  have "nsnr_cmp (of_nat (p_ack p)) (of_nat a) = sgn (int (p_ack p) - int a)"
    using b q a by (intro nsnr_cmp_nat) auto
  then have up: "ack_up q w = (if p_ack p > a then upd_c (\<lambda>c. c\<lparr>c_peer_Nr := of_nat (p_ack p)\<rparr>) w else w)"
    by (auto simp: ack_up_def q b sgn_if)
  show f: "read_frame w (ack_up q w)" "c_recv_queue (conn (ack_up q w)) = c_recv_queue (conn w)" "c_Nr (conn (ack_up q w)) = c_Nr (conn w)"
    by (simp_all add: up read_frame_def closed_def call_state_def)
  show "reading (max a (p_ack p)) (ack_up q w)"
    using b q a by (intro reading_frame [OF assms(1) f(1)]) (auto simp: up ring_size_ok_def max_def)
  have "nsnr_cmp (of_nat (tx w)) (of_nat (p_ack p)) = sgn (int (tx w) - int (p_ack p))"
    using q by (intro nsnr_cmp_nat) auto
  then show "\<not> nsnr_cmp (c_Ns (conn w)) (hdr_Nr (p_hdr q)) < 0"
    using q b by (simp add: sgn_if)
qed

lemma ring_ok_cong: "read_frame w w' \<Longrightarrow> c_recv_queue (conn w') = c_recv_queue (conn w) \<Longrightarrow> ring_ok cf cm w' = ring_ok cf cm w"
  by (simp add: ring_at_def read_frame_def rx_def)

lemma store_msg_reading:
  assumes r: "reading a w" and p: "from_peer cf cm R w p q" and ring: "ring_ok cf cm w"
    and s: "l2tp_tunnel_store_msg q n w = (w', n')"
  shows "reading (max a (p_ack p)) w'" "read_frame w w'" "ring_ok cf cm w'"
proof -
  define v where "v = ack_up q w"
  note v = ack_up_reading [OF r p, folded v_def]
  have ring_v: "ring_ok cf cm v"
    using ring_ok_cong v ring by blast
  have t: "tx v = tx w" "rx v = rx w" "c_secret (conn v) = c_secret (conn w)"
    using v(2) by (simp_all add: read_frame_def tx_def rx_def)
  define j where "j = unat (hdr_Ns (p_hdr q) - c_Nr (conn v))"
  define u where "u = upd_c (\<lambda>c. c\<lparr>c_recv_queue := (c_recv_queue c)[(j + unat (c_recv_queue_offt c)) mod c_recv_queue_sz c := Some q]\<rparr>) v"
  have w': "w' = v \<or> p_attrs q \<noteq> [] \<and> \<not> nsnr_cmp (hdr_Ns (p_hdr q)) (c_Nr (conn v)) < 0 \<and> j < c_recv_queue_sz (conn v) \<and> w' = u"
    using s v(5) unfolding l2tp_tunnel_store_msg_def ack_up_def [symmetric] v_def [symmetric] Let_def j_def [symmetric] l2tp_packet_is_ZLB_def
    by (auto simp: u_def upd_c_def split: if_splits)
  have "reading (max a (p_ack p)) w' \<and> read_frame v w' \<and> ring_ok cf cm w'"
  proof (cases "w' = v")
    case False
    then have c: "p_attrs q \<noteq> []" "\<not> nsnr_cmp (hdr_Ns (p_hdr q)) (c_Nr (conn v)) < 0" "j < c_recv_queue_sz (conn v)" "w' = u"
      using w' by auto
    have g: "good_msg cf cm (c_secret (conn w)) (p_seq p) q" and ns: "hdr_Ns (p_hdr q) = of_nat (p_seq p)"
      using p c(1) by (auto simp: from_peer_def)
    have nr: "c_Nr (conn v) = of_nat (rx w)"
      using v(1) t by (simp add: reading_def base_ok_def)
    have le: "p_seq p \<le> rx w + 32768" "rx w \<le> p_seq p + 32767"
      using p by (auto simp: from_peer_def timely_def)
    then have "nsnr_cmp (of_nat (p_seq p)) (of_nat (rx w)) = sgn (int (p_seq p) - int (rx w))"
      by (intro nsnr_cmp_nat) auto
    then have ge: "rx w \<le> p_seq p"
      using c(2) nr ns by (simp add: sgn_if split: if_splits)
    then have "of_nat (p_seq p) - of_nat (rx w) = (of_nat (p_seq p - rx w) :: u16)"
      by simp
    then have j: "j = p_seq p - rx w"
      using le by (simp add: j_def ns nr unat_of_nat)
    have "ring_ok cf cm u"
      using g ge by (intro ring_insert [OF ring_v c(3) _ u_def]) (simp add: t j)
    moreover have f: "read_frame v u"
      by (simp add: u_def read_frame_def closed_def call_state_def)
    have "reading (max a (p_ack p)) u"
      using v(1) by (intro reading_frame [OF v(1) f]) (auto simp: u_def reading_def base_ok_def ring_size_ok_def)
    ultimately show ?thesis
      using f c(4) by simp
  qed (use v ring_v in \<open>simp add: read_frame_refl\<close>)
  then show "reading (max a (p_ack p)) w'" "read_frame w w'" "ring_ok cf cm w'"
    using v(2) read_frame_trans by blast+
qed

lemma core_reading:
  assumes "core w' = core w" "reading a w" "ring_ok cf cm w"
  shows "reading a w'" "read_frame w w'" "ring_ok cf cm w'"
proof -
  show f: "read_frame w w'"
    using assms(1) by (simp add: core_def read_frame_def)
  show "reading a w'"
    using assms by (intro reading_frame [OF assms(2) f]) (auto simp: core_def reading_def base_ok_def ring_size_ok_def)
  show "ring_ok cf cm w'"
    using ring_ok_cong [OF f] assms by (simp add: core_def)
qed

section \<open>Reading datagrams\<close>

definition arrives :: "l2tp_conf \<Rightarrow> l2tp_packet list \<Rightarrow> nat \<Rightarrow> l2tp_world \<Rightarrow> u16 \<times> bytes \<Rightarrow> bool" where
  "arrives cf cm R w d \<longleftrightarrow> (\<forall>q. l2tp_recv cf (c_secret (conn w)) (fst d) (snd d) = Ok q \<longrightarrow> (\<exists>p. from_peer cf cm R w p q))"

lemma from_peer_frame: "read_frame w w' \<Longrightarrow> from_peer cf cm R w' p q = from_peer cf cm R w p q"
  by (simp add: from_peer_def timely_def read_frame_def tx_def rx_def)

lemma arrives_frame: "read_frame w w' \<Longrightarrow> arrives cf cm R w' d = arrives cf cm R w d"
  by (simp add: arrives_def from_peer_frame) (simp add: read_frame_def)

lemma read_loop_reading:
  assumes "e_cf e = cf" "\<forall>d \<in> set ds. arrives cf cm R w d" "reading a w" "ring_ok cf cm w" "a \<le> R"
  shows "\<exists>a' \<le> R. reading a' (snd (read_loop e f ds n w)) \<and> read_frame w (snd (read_loop e f ds n w)) \<and> ring_ok cf cm (snd (read_loop e f ds n w))"
  using assms(2-)
proof (induction ds arbitrary: a n w)
  case Nil
  then show ?case
    using read_frame_refl by auto
next
  case (Cons d ds)
  obtain port buf where d: "d = (port, buf)"
    by (cases d)
  have rest: "\<exists>a' \<le> R. reading a' (snd (read_loop e f ds n w')) \<and> read_frame w (snd (read_loop e f ds n w')) \<and> ring_ok cf cm (snd (read_loop e f ds n w'))"
    if "reading a' w'" "read_frame w w'" "ring_ok cf cm w'" "a' \<le> R" for a' w' n
    using Cons.IH [of w' a' n] Cons.prems(1) that arrives_frame [OF that(2)] read_frame_trans [OF that(2)] by fastforce
  have last: ?case if "snd (read_loop e f (d # ds) n w) = w'" "core w' = core w" for w'
    using core_reading [OF that(2) Cons.prems(2,3)] that Cons.prems(4) by auto
  show ?case
  proof (cases "l2tp_recv (e_cf e) (c_secret (conn w)) port buf")
    case Fault
    then show ?thesis
      by (intro last [of "crash w"]) (simp_all add: d)
  next
    case Reject
    then show ?thesis
      using rest [OF Cons.prems(2) read_frame_refl Cons.prems(3,4)] by (simp add: d)
  next
    case (Ok q)
    then obtain p where p: "from_peer cf cm R w p q"
      using Cons.prems(1) assms(1) d by (auto simp: arrives_def)
    define x where "x = (if c_port_set (conn w) then (w, False) else l2tp_tunnel_update_peerport e (p_port q) w)"
    define v where "v = upd_c (\<lambda>c. c\<lparr>c_port_set := True\<rparr>) (fst x)"
    have x: "core (fst x) = core w"
      by (simp add: x_def l2tp_tunnel_update_peerport_def core_def closed_def call_state_def)
    have "core v = core (fst x)"
      by (simp add: v_def core_def closed_def call_state_def)
    then have v: "core v = core w"
      using x by simp
    note rv = core_reading [OF v Cons.prems(2,3)]
    obtain w' n' where s: "l2tp_tunnel_store_msg q n v = (w', n')"
      by (cases "l2tp_tunnel_store_msg q n v")
    note sv = store_msg_reading [OF rv(1) _ rv(3) s, of R p] 
    have "max a (p_ack p) \<le> R"
      using p Cons.prems(4) by (simp add: from_peer_def)
    then have stored: "\<exists>a' \<le> R. reading a' (snd (read_loop e f ds n' w')) \<and> read_frame w (snd (read_loop e f ds n' w')) \<and> ring_ok cf cm (snd (read_loop e f ds n' w'))"
      using sv p from_peer_frame [OF rv(2)] read_frame_trans [OF rv(2)] by (intro rest [of "max a (p_ack p)"]) auto
    have "snd (read_loop e f (d # ds) n w) = (if snd x then fst x
       else if hdr_tid (p_hdr q) \<noteq> c_tid (conn v) \<and> (hdr_tid (p_hdr q) \<noteq> 0 \<or> \<not> e_dir300 e) then snd (read_loop e f ds n v)
       else snd (read_loop e f ds n' w'))"
    proof -
      obtain v0 b where xe: "x = (v0, b)"
        by (cases x)
      then have "v = upd_c (\<lambda>c. c\<lparr>c_port_set := True\<rparr>) v0"
        by (simp add: v_def)
      then show ?thesis
        using Ok s by (cases b) (simp_all add: d x_def [symmetric] xe Let_def)
    qed
    then show ?thesis
      using last [of "fst x"] x rest [OF rv Cons.prems(4)] stored by presburger
  qed
qed

section \<open>Acknowledged messages\<close>

definition clean_frame :: "l2tp_world \<Rightarrow> l2tp_world \<Rightarrow> bool" where
  "clean_frame w w' \<longleftrightarrow> committed w' = committed w \<and> delivered w' = delivered w \<and> sent w' = sent w \<and> c_secret (conn w') = c_secret (conn w) \<and>
     c_recv_queue (conn w') = c_recv_queue (conn w) \<and> closed w' = closed w \<and> c_recv_queue_offt (conn w') = c_recv_queue_offt (conn w)"

lemma dropWhile_drop:
  "n \<le> length q \<Longrightarrow> (\<And>i. i < n \<Longrightarrow> P (q ! i)) \<Longrightarrow> (n < length q \<Longrightarrow> \<not> P (q ! n)) \<Longrightarrow> dropWhile P q = drop n q"
proof (induction q arbitrary: n)
  case (Cons x q)
  show ?case
  proof (cases n)
    case (Suc m)
    then have "P x" "\<And>i. i < m \<Longrightarrow> P (q ! i)" "m < length q \<Longrightarrow> \<not> P (q ! m)"
      using Cons.prems(2) [of 0] Cons.prems(2) [of "Suc _"] Cons.prems(3) by auto
    then show ?thesis
      using Suc Cons.IH [of m] Cons.prems(1) by simp
  qed (use Cons.prems(3) in simp)
qed simp

lemma dropWhile_acked:
  assumes "reading a w"
  shows "dropWhile (\<lambda>p. nsnr_cmp (hdr_Ns (p_hdr p)) (c_peer_Nr (conn w)) < 0) (c_rtms_queue (conn w)) = drop (a - acked w) (c_rtms_queue (conn w))"
proof -
  define q where "q = c_rtms_queue (conn w)"
  have b: "base_ok w" "acked w \<le> a" "a \<le> tx w" "length q \<le> 32767" "length q \<le> tx w" "map strip q = map strip (drop (acked w) (committed w))"
    using assms by (auto simp: reading_def base_ok_def rtms_ok_def q_def)
  have l: "acked w + length q = tx w"
    using b(5) by (simp add: acked_def q_def)
  have cmp: "nsnr_cmp (hdr_Ns (p_hdr (q ! i))) (c_peer_Nr (conn w)) = sgn (int (acked w + i) - int a)" if "i < length q" for i
  proof -
    have "strip (q ! i) = strip (committed w ! (acked w + i))"
      using b(6) that l by (metis (no_types, lifting) length_map nth_drop nth_map tx_def le_add1)
    moreover have "hdr_Ns (p_hdr (strip p)) = hdr_Ns (p_hdr p)" for p
      by (simp add: strip_def)
    ultimately have "hdr_Ns (p_hdr (q ! i)) = of_nat (acked w + i)"
      using b(1) that l by (metis base_ok_def nat_add_left_cancel_less)
    moreover have "c_peer_Nr (conn w) = of_nat a"
      using assms by (simp add: reading_def)
    moreover have "nsnr_cmp (of_nat (acked w + i)) (of_nat a) = sgn (int (acked w + i) - int a)"
      using b l that by (intro nsnr_cmp_nat) auto
    ultimately show ?thesis
      by simp
  qed
  have "dropWhile (\<lambda>p. nsnr_cmp (hdr_Ns (p_hdr p)) (c_peer_Nr (conn w)) < 0) q = drop (a - acked w) q"
    using b l cmp by (intro dropWhile_drop) (auto simp: sgn_if)
  then show ?thesis
    by (simp add: q_def)
qed

lemma clean_rtms_ok:
  assumes "reading a w"
  shows "chan_ok (fst (l2tp_tunnel_clean_rtmsqueue e w))" "acked (fst (l2tp_tunnel_clean_rtmsqueue e w)) = a"
    "clean_frame w (fst (l2tp_tunnel_clean_rtmsqueue e w))"
proof -
  define v where "v = upd_c (\<lambda>c. c\<lparr>c_rtms_queue := drop (a - acked w) (c_rtms_queue c)\<rparr>) w"
  have "core (fst (l2tp_tunnel_clean_rtmsqueue e w)) = core v"
    by (auto simp: l2tp_tunnel_clean_rtmsqueue_def dropWhile_acked [OF assms] v_def Let_def del_rtimeout_def) (auto simp: core_def closed_def call_state_def upd_c_def)
  then have rel: "chan_rel v (fst (l2tp_tunnel_clean_rtmsqueue e w))" and
    c: "core (fst (l2tp_tunnel_clean_rtmsqueue e w)) = core v"
    using core_rel by auto
  have b: "base_ok w" "\<not> closed w" "acked w \<le> a" "a \<le> tx w" "c_peer_Nr (conn w) = of_nat a"
    "length (c_rtms_queue (conn w)) \<le> 32767" "length (c_rtms_queue (conn w)) \<le> tx w"
    "map strip (c_rtms_queue (conn w)) = map strip (drop (acked w) (committed w))"
    using assms by (auto simp: reading_def base_ok_def rtms_ok_def)
  have same: "tx v = tx w" "rx v = rx w" "closed v = closed w" "call_state v = call_state w" "ring_size_ok v = ring_size_ok w" "\<And>p. sent_ok v p = sent_ok w p"
    by (simp_all add: v_def tx_def rx_def closed_def call_state_def ring_size_ok_def sent_ok_def)
  have a: "acked v = a"
    using b by (simp add: acked_def same) (simp add: v_def acked_def)
  have "map strip (drop (a - acked w) (c_rtms_queue (conn w))) = map strip (drop a (committed w))"
    using b(3,8) by (simp flip: drop_map)
  then have "rtms_ok v"
    using b by (simp add: rtms_ok_def a same) (auto simp: v_def)
  then have "base_ok v"
    using b same by (simp add: base_ok_def) (simp add: v_def)
  then have ok: "chan_ok v"
    using b a by (simp add: chan_ok_def) (simp add: v_def)
  then show "chan_ok (fst (l2tp_tunnel_clean_rtmsqueue e w))" "acked (fst (l2tp_tunnel_clean_rtmsqueue e w)) = a"
    using rel a b same c by (auto simp: chan_rel_def chan_frame_def core_def)
  show "clean_frame w (fst (l2tp_tunnel_clean_rtmsqueue e w))"
    using c same by (simp add: clean_frame_def core_def) (simp add: v_def)
qed

section \<open>Handling messages\<close>

definition reply_frame :: "l2tp_world \<Rightarrow> l2tp_world \<Rightarrow> bool" where
  "reply_frame w w' \<longleftrightarrow> chan_ok w' \<and> prefix (delivered w) (delivered w') \<and> prefix (committed w) (committed w') \<and>
     set (sent w) \<subseteq> set (sent w') \<and> c_secret (conn w') = c_secret (conn w) \<and> c_recv_queue_sz (conn w') = c_recv_queue_sz (conn w) \<and>
     (closed w \<longrightarrow> closed w' \<and> tx w' = tx w) \<and> (\<not> closed w \<longrightarrow> tx w' \<le> acked w + 32767) \<and> (\<not> closed w' \<longrightarrow> acked w' = acked w)"

lemma reply_frame_refl: "chan_ok w \<Longrightarrow> reply_frame w w"
  using tx_acked by (auto simp: reply_frame_def)

lemma reply_frame_trans:
  assumes "reply_frame w w1" "reply_frame w1 w2"
  shows "reply_frame w w2"
proof -
  have "\<not> closed w \<longrightarrow> tx w2 \<le> acked w + 32767"
    using assms by (cases "closed w1") (auto simp: reply_frame_def)
  then show ?thesis
    using assms unfolding reply_frame_def by (metis order_trans prefix_order.trans)
qed

lemma chan_reply_frame: "chan_frame w w' \<Longrightarrow> reply_frame w w'"
  by (simp add: chan_frame_def reply_frame_def)

lemma rel_reply_frame: "chan_ok w \<Longrightarrow> chan_rel w w' \<Longrightarrow> reply_frame w w'"
  by (simp add: chan_rel_def chan_reply_frame)

lemma no_ring_at:
  assumes "no_ring w"
  shows "ring_at cf cm k w"
proof -
  have "c_recv_queue (conn w) ! ((k + i) mod c_recv_queue_sz (conn w)) = None" if "i < c_recv_queue_sz (conn w)" for i
  proof -
    have "(k + i) mod c_recv_queue_sz (conn w) < c_recv_queue_sz (conn w)"
      using that by (intro mod_less_divisor) linarith
    then show ?thesis
      using assms nth_mem unfolding no_ring_def by blast
  qed
  then show ?thesis
    by (simp add: ring_at_def)
qed

lemma same_ring_at:
  "same_ring w w' \<Longrightarrow> delivered w' = delivered w \<Longrightarrow> c_secret (conn w') = c_secret (conn w) \<Longrightarrow> ring_at cf cm k w' = ring_at cf cm k w"
  by (simp add: ring_at_def same_ring_def rx_def)

lemma ring_at_frame: "chan_frame w w' \<Longrightarrow> ring_at cf cm k w \<Longrightarrow> ring_at cf cm k w'"
  unfolding chan_frame_def using no_ring_at same_ring_at by metis

lemma ring_ok_frame: "chan_frame w w' \<Longrightarrow> ring_ok cf cm w \<Longrightarrow> ring_ok cf cm w'"
  unfolding chan_frame_def using no_ring_at same_ring_at same_ring_def by metis

lemma in_order_frame: "chan_frame w w' \<Longrightarrow> in_order cf cm w \<Longrightarrow> in_order cf cm w'"
  by (simp add: chan_frame_def in_order_def rx_def)

definition take_msg :: "nat \<Rightarrow> l2tp_packet \<Rightarrow> l2tp_world \<Rightarrow> l2tp_world" where
  "take_msg k q w = (upd_c (\<lambda>c. c\<lparr>c_recv_queue := (c_recv_queue c)[k := None], c_Nr := c_Nr c + 1\<rparr>) w)\<lparr>delivered := delivered w @ [q]\<rparr>"

lemma take_msg_simps [simp]:
  "call_state (take_msg k q w) = call_state w"
  "committed (take_msg k q w) = committed w" "sent (take_msg k q w) = sent w" "delivered (take_msg k q w) = delivered w @ [q]"
  "c_recv_queue (conn (take_msg k q w)) = (c_recv_queue (conn w))[k := None]" "c_secret (conn (take_msg k q w)) = c_secret (conn w)"
  "c_recv_queue_offt (conn (take_msg k q w)) = c_recv_queue_offt (conn w)" "closed (take_msg k q w) = closed w" "acked (take_msg k q w) = acked w"
  "tx (take_msg k q w) = tx w" "rx (take_msg k q w) = Suc (rx w)" "c_rtms_queue (conn (take_msg k q w)) = c_rtms_queue (conn w)"
  by (simp_all add: take_msg_def closed_def call_state_def acked_def tx_def rx_def)

lemma take_msg_ok:
  assumes "chan_ok w" "\<not> closed w"
  shows "chan_ok (take_msg k q w)" "reply_frame w (take_msg k q w)"
proof -
  have "sent_ok (take_msg k q w) p" if "p \<in> set (sent w)" for p
    using sent_ok_mono [OF sent_ok_frame [OF assms(1) that]] by simp
  then show ok: "chan_ok (take_msg k q w)"
    using assms by (simp add: chan_ok_def base_ok_def rtms_ok_def ring_size_ok_def) (simp add: take_msg_def)
  then show "reply_frame w (take_msg k q w)"
    using assms tx_acked by (simp add: reply_frame_def)
qed

lemma take_msg_ring:
  assumes ring: "ring_at cf cm k w" and k: "k < c_recv_queue_sz (conn w)" and q: "c_recv_queue (conn w) ! k = Some q"
  shows "ring_at cf cm ((k + 1) mod c_recv_queue_sz (conn w)) (take_msg k q w)" "good_msg cf cm (c_secret (conn w)) (rx w) q"
proof -
  define n where "n = c_recv_queue_sz (conn w)"
  have g: "good_msg cf cm (c_secret (conn w)) (rx w + i) x" if "i < n" "c_recv_queue (conn w) ! ((k + i) mod n) = Some x" for i x
    using ring that by (auto simp: ring_at_def n_def)
  show "good_msg cf cm (c_secret (conn w)) (rx w) q"
    using g [of 0 q] k q by (simp add: n_def [symmetric])
  have "good_msg cf cm (c_secret (conn w)) (Suc (rx w) + i) x"
    if i: "i < n" and x: "(c_recv_queue (conn w))[k := None] ! (((k + 1) mod n + i) mod n) = Some x" for i x
  proof -
    have m: "((k + 1) mod n + i) mod n = (k + Suc i) mod n"
      by (simp add: mod_add_left_eq)
    have "Suc i < n"
    proof (rule ccontr)
      assume "\<not> Suc i < n"
      then have "Suc i = n"
        using i by simp
      then have "(k + Suc i) mod n = k"
        using k by (simp add: n_def)
      then show False
        using x k m by (simp add: n_def)
    qed
    moreover have "(k + Suc i) mod n \<noteq> k"
    proof
      assume "(k + Suc i) mod n = k"
      then have "(k + Suc i) mod n = (k + 0) mod n"
        using k by (simp add: n_def)
      then show False
        using mod_add_inj calculation i by blast
    qed
    ultimately show ?thesis
      using g [of "Suc i" x] x by (simp only: m) simp
  qed
  then show "ring_at cf cm ((k + 1) mod c_recv_queue_sz (conn w)) (take_msg k q w)"
    unfolding n_def [symmetric] by (simp add: ring_at_def n_def)
qed

lemma take_msg_order:
  assumes "in_order cf cm w" "good_msg cf cm (c_secret (conn w)) (rx w) q"
  shows "in_order cf cm (take_msg k q w)"
  using assms by (auto simp: in_order_def good_msg_def take_Suc_conv_app_nth intro: list_all2_appendI)

text \<open>What the handlers keep of a tunnel with the messages of its peer.\<close>

definition recv_ok :: "l2tp_conf \<Rightarrow> l2tp_packet list \<Rightarrow> nat \<Rightarrow> l2tp_world \<Rightarrow> bool" where
  "recv_ok cf cm k w \<longleftrightarrow> chan_ok w \<and> ring_at cf cm k w \<and> in_order cf cm w \<and> k < c_recv_queue_sz (conn w)"

lemma recv_ok_frame: "chan_frame w w' \<Longrightarrow> recv_ok cf cm k w \<Longrightarrow> recv_ok cf cm k w'"
  unfolding recv_ok_def using ring_at_frame in_order_frame by (metis chan_frame_def)

lemma recv_ok_step:
  assumes "recv_ok cf cm k w" "\<not> closed w" "c_recv_queue (conn w) ! k = Some q"
  defines "w1 \<equiv> take_msg k q w"
  shows "recv_ok cf cm ((k + 1) mod c_recv_queue_sz (conn w)) w1" "reply_frame w w1" "\<not> closed w1" "small_window q"
    "chan_frame w1 (process_msg e q w1)"
proof -
  have ok: "chan_ok w" "ring_at cf cm k w" "in_order cf cm w" "k < c_recv_queue_sz (conn w)"
    using assms by (auto simp: recv_ok_def)
  note g = take_msg_ring [OF ok(2,4) assms(3)] and t = take_msg_ok [OF ok(1) assms(2), of k q]
  have "(k + 1) mod c_recv_queue_sz (conn w) < c_recv_queue_sz (conn w)"
    using ok(4) by (intro mod_less_divisor) linarith
  then show "recv_ok cf cm ((k + 1) mod c_recv_queue_sz (conn w)) w1" "reply_frame w w1" "\<not> closed w1"
    using g t take_msg_order [OF ok(3) g(2)] assms(2) by (simp_all add: recv_ok_def w1_def)
  show sw: "small_window q"
    using g(2) by (simp add: good_msg_def)
  show "chan_frame w1 (process_msg e q w1)"
    using crel_process_msg [OF chan_rel_refl sw] t(1) by (simp add: chan_rel_def w1_def)
qed

lemma offt_frame: "chan_frame w w' \<Longrightarrow> c_recv_queue_offt (conn w') = c_recv_queue_offt (conn w) \<or> no_ring w'"
  by (auto simp: chan_frame_def same_ring_def)

lemma reply_loop_unfold:
  assumes "c_recv_queue (conn w) ! k = Some q" "\<not> closed w"
  shows "reply_loop e (Suc fuel) k w =
     (if (k + 1) mod c_recv_queue_sz (conn w) = unat (c_recv_queue_offt (conn (process_msg e q (take_msg k q w)))) then (1, process_msg e q (take_msg k q w))
      else case reply_loop e fuel ((k + 1) mod c_recv_queue_sz (conn w)) (process_msg e q (take_msg k q w)) of (n, w) \<Rightarrow> (Suc n, w))"
  using assms by (simp add: take_msg_def [symmetric] closed_def call_state_def Let_def)

lemma reply_loop_ok:
  assumes "recv_ok cf cm k w" "reply_loop e fuel k w = (n, w')"
  shows "recv_ok cf cm ((k + n) mod c_recv_queue_sz (conn w)) w' \<and> reply_frame w w' \<and>
    (c_recv_queue_offt (conn w') = c_recv_queue_offt (conn w) \<or> no_ring w')"
  using assms
proof (induction fuel arbitrary: k w n w')
  case 0
  have "chan_frame w (crash w)"
    using 0(1) core_rel [of "crash w" w] by (simp add: chan_rel_def recv_ok_def)
  then show ?case
    using 0 recv_ok_frame chan_reply_frame by (auto simp: recv_ok_def)
next
  case (Suc fuel)
  let ?sz = "c_recv_queue_sz (conn w)"
  show ?case
  proof (cases "closed w \<or> c_recv_queue (conn w) ! k = None")
    case True
    then have "n = 0" "w' = w"
      using Suc.prems by (auto simp: closed_def call_state_def split: option.splits if_splits)
    then show ?thesis
      using Suc.prems by (simp add: recv_ok_def reply_frame_refl)
  next
    case False
    then obtain q where q: "c_recv_queue (conn w) ! k = Some q" and nc: "\<not> closed w"
      by auto
    define w1 w2 where "w1 = take_msg k q w" and "w2 = process_msg e q w1"
    note t = recv_ok_step(1-4) [OF Suc.prems(1) nc q, folded w1_def] recv_ok_step(5) [OF Suc.prems(1) nc q, of e, folded w1_def, folded w2_def]
    have r2: "recv_ok cf cm ((k + 1) mod ?sz) w2" and f2: "reply_frame w w2"
      using t recv_ok_frame reply_frame_trans chan_reply_frame by blast+
    have o2: "c_recv_queue_offt (conn w2) = c_recv_queue_offt (conn w) \<or> no_ring w2"
      using offt_frame [OF t(5)] by (simp add: w1_def)
    have sz: "c_recv_queue_sz (conn w2) = ?sz"
      using f2 by (simp add: reply_frame_def)
    note step = reply_loop_unfold [OF q nc, of e fuel, folded w1_def, folded w2_def]
    show ?thesis
    proof (cases "(k + 1) mod ?sz = unat (c_recv_queue_offt (conn w2))")
      case True
      then show ?thesis
        using Suc.prems(2) step r2 f2 o2 by simp
    next
      case go: False
      obtain m where m: "reply_loop e fuel ((k + 1) mod ?sz) w2 = (m, w')" "n = Suc m"
        using Suc.prems(2) step go by (auto split: prod.splits)
      note ih = Suc.IH [OF r2 m(1)]
      have "((k + 1) mod ?sz + m) mod ?sz = (k + n) mod ?sz"
        by (simp add: m(2) mod_add_left_eq)
      moreover have "no_ring w2 \<Longrightarrow> no_ring w'"
        using m(1) by (cases fuel) (auto simp: no_ring_def closed_def call_state_def)
      ultimately show ?thesis
        using ih o2 f2 reply_frame_trans sz by metis
    qed
  qed
qed

abbreviation tunnel_ok :: "l2tp_conf \<Rightarrow> l2tp_packet list \<Rightarrow> l2tp_world \<Rightarrow> bool" where
  "tunnel_ok cf cm w \<equiv> recv_ok cf cm (unat (c_recv_queue_offt (conn w))) w"

lemma tunnel_okI:
  assumes "chan_ok w" "ring_ok cf cm w" "in_order cf cm w"
  shows "tunnel_ok cf cm w"
  using assms by (simp add: recv_ok_def chan_ok_def base_ok_def ring_size_ok_def)

lemma tunnel_ok_frame:
  assumes "chan_frame w w'" "tunnel_ok cf cm w"
  shows "tunnel_ok cf cm w'"
proof (rule tunnel_okI)
  show "chan_ok w'"
    using assms(1) by (simp add: chan_frame_def)
  show "ring_ok cf cm w'" "in_order cf cm w'"
    using assms(2) ring_ok_frame [OF assms(1)] in_order_frame [OF assms(1)] by (simp_all add: recv_ok_def)
qed

lemma reply_ok:
  assumes "recv_ok cf cm (unat (c_recv_queue_offt (conn w))) w" "l2tp_tunnel_reply e n w = (w', res)"
  shows "recv_ok cf cm (unat (c_recv_queue_offt (conn w'))) w'" "reply_frame w w'"
proof -
  let ?k = "unat (c_recv_queue_offt (conn w))" and ?sz = "c_recv_queue_sz (conn w)"
  obtain m u where l: "reply_loop e (Suc ?sz) ?k w = (m, u)"
    by (metis prod.exhaust)
  note u = reply_loop_ok [OF assms(1) l]
  define v where "v = upd_c (\<lambda>c. c\<lparr>c_recv_queue_offt := of_nat ((unat (c_recv_queue_offt c) + m) mod c_recv_queue_sz c)\<rparr>) u"
  have sz: "c_recv_queue_sz (conn u) = ?sz" "?sz \<le> 32768" "0 < ?sz"
    using u assms(1) by (auto simp: reply_frame_def recv_ok_def chan_ok_def base_ok_def ring_size_ok_def)
  have lt: "(x + m) mod ?sz < ?sz" for x
    using sz(3) by (rule mod_less_divisor)
  have off: "unat (c_recv_queue_offt (conn v)) = (unat (c_recv_queue_offt (conn u)) + m) mod ?sz"
  proof -
    have "(unat (c_recv_queue_offt (conn u)) + m) mod ?sz < 65536"
      using lt [of "unat (c_recv_queue_offt (conn u))"] sz(2) by linarith
    then show ?thesis
      by (simp add: v_def unat_of_nat sz(1))
  qed
  have same: "tx v = tx u" "rx v = rx u" "closed v = closed u" "call_state v = call_state u" "acked v = acked u" "rtms_ok v = rtms_ok u" "\<And>p. sent_ok v p = sent_ok u p"
    "in_order cf cm v = in_order cf cm u"
    by (simp_all add: v_def tx_def rx_def closed_def call_state_def acked_def rtms_ok_def sent_ok_def in_order_def)
  have "ring_size_ok v"
    using off lt sz unfolding ring_size_ok_def by (simp add: v_def)
  then have ok: "chan_ok v"
    using u same by (simp add: recv_ok_def chan_ok_def base_ok_def) (auto simp: v_def)
  have "ring_at cf cm j v = ring_at cf cm j u" for j
    by (simp add: ring_at_def same) (simp add: v_def)
  moreover have "ring_at cf cm (unat (c_recv_queue_offt (conn v))) u"
    using u off no_ring_at by (metis recv_ok_def)
  ultimately have v: "recv_ok cf cm (unat (c_recv_queue_offt (conn v))) v"
    using ok off lt same u by (simp add: recv_ok_def) (simp add: v_def sz)
  have fv: "reply_frame w v"
    using u ok same by (simp add: reply_frame_def) (simp add: v_def)
  define x where "x = l2tp_tunnel_push_sendqueue e v"
  have "w' = fst x \<or> w' = fst (l2tp_send_ZLB e (fst x))"
    using assms(2) unfolding l2tp_tunnel_reply_def l by (auto simp: Let_def v_def [symmetric] x_def [symmetric] split: prod.splits if_splits)
  then have "chan_rel v w'"
    using crel_push [OF chan_rel_refl] crel_ZLB x_def by metis
  then have f: "chan_frame v w'"
    using ok by (simp add: chan_rel_def)
  then show "reply_frame w w'"
    using fv chan_reply_frame reply_frame_trans by blast
  show "tunnel_ok cf cm w'"
    using tunnel_ok_frame [OF f v] .
qed

section \<open>Enough turns\<close>

text \<open>\<open>j\<close> more slots lie before the one the loop started with: with more than \<open>j\<close> turns the loop ends by itself.\<close>

lemma reply_loop_fuel:
  assumes "recv_ok cf cm k w" "(k + j) mod c_recv_queue_sz (conn w) = unat (c_recv_queue_offt (conn w))" "0 < j"
    "j < fuel"
  shows "reply_loop e (fuel + extra) k w = reply_loop e fuel k w"
  using assms
proof (induction fuel arbitrary: j k w)
  case (Suc fuel)
  let ?sz = "c_recv_queue_sz (conn w)"
  show ?case
  proof (cases "closed w \<or> c_recv_queue (conn w) ! k = None")
    case True
    then show ?thesis
      by (auto simp: closed_def call_state_def)
  next
    case False
    then obtain q where q: "c_recv_queue (conn w) ! k = Some q" and nc: "\<not> closed w"
      by auto
    define w1 w2 where "w1 = take_msg k q w" and "w2 = process_msg e q w1"
    note t = recv_ok_step(1-4) [OF Suc.prems(1) nc q, folded w1_def] recv_ok_step(5) [OF Suc.prems(1) nc q, of e, folded w1_def, folded w2_def]
    have r2: "recv_ok cf cm ((k + 1) mod ?sz) w2"
      using t recv_ok_frame by blast
    have o2: "c_recv_queue_offt (conn w2) = c_recv_queue_offt (conn w) \<or> no_ring w2"
      using offt_frame [OF t(5)] by (simp add: w1_def)
    have sz: "c_recv_queue_sz (conn w2) = ?sz"
      using t(5) by (simp add: chan_frame_def w1_def)
    have "reply_loop e (fuel + extra) ((k + 1) mod ?sz) w2 = reply_loop e fuel ((k + 1) mod ?sz) w2"
      if go: "(k + 1) mod ?sz \<noteq> unat (c_recv_queue_offt (conn w2))"
    proof (cases "no_ring w2")
      case True
      then show ?thesis
        using Suc.prems by (cases fuel) (auto simp: no_ring_def closed_def call_state_def)
    next
      case False
      then have same: "c_recv_queue_offt (conn w2) = c_recv_queue_offt (conn w)"
        using o2 by simp
      then have "j \<noteq> 1"
        using go Suc.prems(2) by auto
      then have "((k + 1) mod ?sz + (j - 1)) mod ?sz = unat (c_recv_queue_offt (conn w2))"
        using Suc.prems(2,3) same mod_add_left_eq [of "k + 1" ?sz "j - 1"] by simp
      then show ?thesis
        using Suc.IH [OF r2, of "j - 1"] Suc.prems \<open>j \<noteq> 1\<close> by (simp add: sz)
    qed
    then show ?thesis
      unfolding add_Suc reply_loop_unfold [OF q nc, of e, folded w1_def, folded w2_def] by (simp cong: if_cong)
  qed
qed simp

lemma reply_loop_enough:
  assumes "tunnel_ok cf cm w"
  shows "reply_loop e (Suc (c_recv_queue_sz (conn w)) + extra) (unat (c_recv_queue_offt (conn w))) w =
    reply_loop e (Suc (c_recv_queue_sz (conn w))) (unat (c_recv_queue_offt (conn w))) w"
  using assms by (intro reply_loop_fuel [of cf cm _ _ "c_recv_queue_sz (conn w)"]) (auto simp: recv_ok_def)

section \<open>The read handler\<close>

text \<open>One call of the handler: the tunnel stays in order, and its messages reach at most 32767 beyond what the peer has got.\<close>

lemma conn_read_ok:
  assumes e: "e_cf e = cf" and ds: "\<forall>d \<in> set ds. arrives cf cm R w d" and ok: "tunnel_ok cf cm w" "\<not> closed w" "acked w \<le> R"
    and w': "w' = l2tp_conn_read e f ds w"
  shows "tunnel_ok cf cm w'" "prefix (delivered w) (delivered w')" "prefix (committed w) (committed w')" "set (sent w) \<subseteq> set (sent w')"
    "c_secret (conn w') = c_secret (conn w)" "tx w' \<le> R + 32767" "\<not> closed w' \<Longrightarrow> acked w' \<le> R"
proof -
  have r: "reading (acked w) w" "ring_ok cf cm w" "in_order cf cm w"
    using ok by (auto simp: reading_def recv_ok_def chan_ok_def acked_def)
  obtain n g u where l: "read_loop e f ds False w = ((n, g), u)"
    by (metis prod.exhaust)
  obtain a where a: "a \<le> R" "reading a u" "read_frame w u" "ring_ok cf cm u"
    using read_loop_reading [OF e ds r(1,2) ok(3), of f False] l by auto
  define v where "v = fst (l2tp_tunnel_clean_rtmsqueue e u)"
  note v = clean_rtms_ok [OF a(2), of e, folded v_def]
  have tv: "tunnel_ok cf cm v" "\<not> closed v"
  proof -
    have "ring_ok cf cm v" "in_order cf cm v"
      using a(3,4) r(3) v(3) by (simp_all add: ring_at_def rx_def clean_frame_def in_order_def read_frame_def)
    then show "tunnel_ok cf cm v"
      using v(1) by (rule tunnel_okI [rotated])
    show "\<not> closed v"
      using v(3) a(2) by (simp add: clean_frame_def reading_def)
  qed
  have t: "tx u = tx w" "rx u = rx w" "committed v = committed w" "delivered v = delivered w" "sent v = sent w" "c_secret (conn v) = c_secret (conn w)"
    "delivered u = delivered w" "committed u = committed w" "sent u = sent w" "c_secret (conn u) = c_secret (conn w)"
    using a(3) v(3) by (simp_all add: read_frame_def clean_frame_def tx_def rx_def)
  have lim: "tx w \<le> R + 32767"
    using tx_acked [of w] ok by (auto simp: recv_ok_def)
  have "tunnel_ok cf cm w' \<and> prefix (delivered w) (delivered w') \<and> prefix (committed w) (committed w') \<and> set (sent w) \<subseteq> set (sent w') \<and>
     c_secret (conn w') = c_secret (conn w) \<and> tx w' \<le> R + 32767 \<and> (\<not> closed w' \<longrightarrow> acked w' \<le> R)"
  proof (cases g)
    case True
    then have "w' = l2tp_tunnel_free u"
      by (simp add: w' l2tp_conn_read_def l)
    moreover have "base_ok u" "\<not> closed u"
      using a(2) by (simp_all add: reading_def)
    ultimately have f: "chan_ok w'" "no_ring w'" "committed w' = committed w" "delivered w' = delivered w" "sent w' = sent w"
      "c_secret (conn w') = c_secret (conn w)"
      using tunnel_free_ok t by simp_all
    then have "tunnel_ok cf cm w'"
      using r(3) no_ring_at by (intro tunnel_okI) (auto simp: in_order_def rx_def)
    then show ?thesis
      using f lim by (auto simp: no_ring_def tx_def)
  next
    case False
    obtain x res where x: "l2tp_tunnel_reply e n v = (x, res)"
      by (metis prod.exhaust)
    note rx = reply_ok [OF tv(1) x]
    have "w' = l2tp_tunnel_free v \<or> w' = x \<or> w' = l2tp_tunnel_free x"
      using False x by (auto simp: w' l2tp_conn_read_def l v_def split: prod.splits bool.splits)
    moreover have "chan_frame v (l2tp_tunnel_free v)" "chan_frame x (l2tp_tunnel_free x)"
      using tunnel_free_rel tv(1) rx(1) by (auto simp: chan_rel_def recv_ok_def)
    ultimately have "tunnel_ok cf cm w'" "reply_frame v w'"
      using tv(1) rx tunnel_ok_frame chan_reply_frame reply_frame_trans by blast+
    then show ?thesis
      using t tv(2) v(2) a(1) by (auto simp: reply_frame_def)
  qed
  then show "tunnel_ok cf cm w'" "prefix (delivered w) (delivered w')" "prefix (committed w) (committed w')" "set (sent w) \<subseteq> set (sent w')"
    "c_secret (conn w') = c_secret (conn w)" "tx w' \<le> R + 32767" "\<not> closed w' \<Longrightarrow> acked w' \<le> R"
    by blast+
qed

end
