(* ===== verification/L2tpPacketCorrect.thy ===== *)
theory L2tpPacketCorrect
  imports L2tpPacket
begin

text \<open>
  Lemmas about L2TP packets: the cipher of hidden attributes and its inverse, what the parser guarantees, and
  the attributes that the builder produces.
\<close>

section \<open>The cipher\<close>

abbreviation md5_sized :: "(bytes \<Rightarrow> bytes) \<Rightarrow> bool" where
  "md5_sized md5 \<equiv> \<forall>x. length (md5 x) = MD5_LEN"

definition block :: "bytes \<Rightarrow> nat \<Rightarrow> bytes" where
  "block v j = take MD5_LEN (drop (MD5_LEN * j) v)"

lemma memxor_OkI:
  assumes "off + sz \<le> length buf" "sz \<le> length src"
  obtains r where "memxor buf off src sz = Ok r" "length r = length buf"
    "\<And>i. i < length buf \<Longrightarrow> r ! i = (if off \<le> i \<and> i < off + sz then buf ! i XOR src ! (i - off) else buf ! i)"
  using assms by (simp add: memxor_def)

lemma memxor_length: "memxor buf off src sz = Ok r \<Longrightarrow> length r = length buf"
  by (auto simp: memxor_def split: if_splits)

lemma block_cong:
  assumes "length r = length v" "\<And>i. MD5_LEN * j \<le> i \<Longrightarrow> i < MD5_LEN * j + MD5_LEN \<Longrightarrow> i < length v \<Longrightarrow> r ! i = v ! i"
  shows "block r j = block v j"
  using assms by (auto intro!: nth_equalityI simp: block_def)

definition key :: "(bytes \<Rightarrow> bytes) \<Rightarrow> bytes \<Rightarrow> bytes \<Rightarrow> bytes \<Rightarrow> nat \<Rightarrow> u8" where
  "key md5 secret first c i = (if i < MD5_LEN then first ! i else md5 (secret @ block c (i div MD5_LEN - 1)) ! (i mod MD5_LEN))"

definition ciphered :: "(bytes \<Rightarrow> bytes) \<Rightarrow> bytes \<Rightarrow> bytes \<Rightarrow> bytes \<Rightarrow> bytes \<Rightarrow> bool" where
  "ciphered md5 secret first p c \<longleftrightarrow> length c = length p \<and> (\<forall>i < length p. c ! i = p ! i XOR key md5 secret first c i)"

lemma div_mod_block: "MD5_LEN * k + MD5_LEN \<le> i \<Longrightarrow> i < MD5_LEN * k + 2 * MD5_LEN \<Longrightarrow> i div MD5_LEN - 1 = k \<and> i mod MD5_LEN = i - (MD5_LEN * k + MD5_LEN)"
proof -
  assume a: "MD5_LEN * k + MD5_LEN \<le> i" "i < MD5_LEN * k + 2 * MD5_LEN"
  then have "i div MD5_LEN = Suc k" by (intro div_nat_eqI) simp_all
  then show ?thesis by (simp add: minus_div_mult_eq_mod [symmetric])
qed

lemma decode_blocks_spec:
  assumes "md5_sized md5" "MD5_LEN * Suc n \<le> length val"
  shows "\<exists>r. decode_blocks md5 secret n val = Ok r \<and> length r = length val \<and>
    (\<forall>i < length val. r ! i = (if MD5_LEN \<le> i \<and> i < MD5_LEN * Suc n
       then val ! i XOR md5 (secret @ block val (i div MD5_LEN - 1)) ! (i mod MD5_LEN) else val ! i))"
  using assms(2)
proof (induction n arbitrary: val)
  case (Suc n)
  let ?k = "md5 (secret @ block val n)"
  obtain v where v: "memxor val (MD5_LEN * n + MD5_LEN) ?k MD5_LEN = Ok v" "length v = length val"
    "\<And>i. i < length val \<Longrightarrow> v ! i = (if MD5_LEN * n + MD5_LEN \<le> i \<and> i < MD5_LEN * n + MD5_LEN + MD5_LEN
       then val ! i XOR ?k ! (i - (MD5_LEN * n + MD5_LEN)) else val ! i)"
    by (rule memxor_OkI [of "MD5_LEN * n + MD5_LEN" MD5_LEN val ?k]) (use Suc.prems assms(1) in simp_all)
  have "MD5_LEN * Suc n \<le> length v" using Suc.prems v(2) by simp
  from Suc.IH [OF this] obtain r where r: "decode_blocks md5 secret n v = Ok r" "length r = length v"
    "\<And>i. i < length v \<Longrightarrow> r ! i = (if MD5_LEN \<le> i \<and> i < MD5_LEN * Suc n
       then v ! i XOR md5 (secret @ block v (i div MD5_LEN - 1)) ! (i mod MD5_LEN) else v ! i)" by blast
  have rb: "read_bytes val (MD5_LEN * n) MD5_LEN = Ok (block val n)" using Suc.prems by (simp add: block_def)
  have e: "decode_blocks md5 secret (Suc n) val = Ok r"
    by (simp only: decode_blocks.simps rb bind_parse.simps v(1) r(1))
  have "r ! i = (if MD5_LEN \<le> i \<and> i < MD5_LEN * Suc (Suc n)
       then val ! i XOR md5 (secret @ block val (i div MD5_LEN - 1)) ! (i mod MD5_LEN) else val ! i)" if i: "i < length val" for i
  proof (cases "MD5_LEN * Suc n \<le> i \<and> i < MD5_LEN * Suc (Suc n)")
    case True
    have "r ! i = v ! i" using r(3) [of i] True i v(2) by simp
    moreover have "v ! i = val ! i XOR ?k ! (i - (MD5_LEN * n + MD5_LEN))" using v(3) [OF i] True by simp
    moreover have "i div MD5_LEN - 1 = n \<and> i mod MD5_LEN = i - (MD5_LEN * n + MD5_LEN)" using True by (intro div_mod_block) simp_all
    ultimately show ?thesis using True by simp
  next
    case False
    have vi: "v ! i = val ! i" using v(3) [OF i] False by auto
    have "block v (i div MD5_LEN - 1) = block val (i div MD5_LEN - 1)" if "MD5_LEN \<le> i" "i < MD5_LEN * Suc n"
    proof (rule block_cong [OF v(2)])
      fix j assume j: "j < MD5_LEN * (i div MD5_LEN - 1) + MD5_LEN" "j < length val"
      have "i div MD5_LEN \<le> n" using that by (simp add: less_Suc_eq_le [symmetric] div_less_iff_less_mult mult.commute)
      then have "j < MD5_LEN * n + MD5_LEN" using j(1) by linarith
      then show "v ! j = val ! j" using v(3) [OF j(2)] by simp
    qed
    then show ?thesis using False r(3) [of i] v(2) vi i by (cases "MD5_LEN \<le> i \<and> i < MD5_LEN * Suc n") auto
  qed
  then show ?case using e r(2) v(2) by auto
qed auto

lemma encode_blocks_spec:
  assumes "md5_sized md5" "MD5_LEN * Suc (k + n) \<le> length val"
  shows "\<exists>r. encode_blocks md5 secret k n val = Ok r \<and> length r = length val \<and>
    (\<forall>i < length val. r ! i = (if MD5_LEN * Suc k \<le> i \<and> i < MD5_LEN * Suc (k + n)
       then val ! i XOR md5 (secret @ block r (i div MD5_LEN - 1)) ! (i mod MD5_LEN) else val ! i))"
  using assms(2)
proof (induction n arbitrary: k val)
  case (Suc n)
  let ?k = "md5 (secret @ block val k)"
  obtain v where v: "memxor val (MD5_LEN * Suc k) ?k MD5_LEN = Ok v" "length v = length val"
    "\<And>i. i < length val \<Longrightarrow> v ! i = (if MD5_LEN * Suc k \<le> i \<and> i < MD5_LEN * Suc k + MD5_LEN
       then val ! i XOR ?k ! (i - MD5_LEN * Suc k) else val ! i)"
    by (rule memxor_OkI [of "MD5_LEN * Suc k" MD5_LEN val ?k]) (use Suc.prems assms(1) in simp_all)
  have "MD5_LEN * Suc (Suc k + n) \<le> length v" using Suc.prems v(2) by simp
  from Suc.IH [OF this] obtain r where r: "encode_blocks md5 secret (Suc k) n v = Ok r" "length r = length v"
    "\<And>i. i < length v \<Longrightarrow> r ! i = (if MD5_LEN * Suc (Suc k) \<le> i \<and> i < MD5_LEN * Suc (Suc k + n)
       then v ! i XOR md5 (secret @ block r (i div MD5_LEN - 1)) ! (i mod MD5_LEN) else v ! i)" by blast
  have rb: "read_bytes val (MD5_LEN * k) MD5_LEN = Ok (block val k)" using Suc.prems by (simp add: block_def)
  have e: "encode_blocks md5 secret k (Suc n) val = Ok r"
    by (simp only: encode_blocks.simps rb bind_parse.simps v(1) r(1))
  have low: "r ! i = val ! i" if "i < MD5_LEN * Suc k" "i < length val" for i using that r(3) [of i] v(2,3) by simp
  have bk: "block r k = block val k" by (rule block_cong) (use low r(2) v(2) in simp_all)
  have "r ! i = (if MD5_LEN * Suc k \<le> i \<and> i < MD5_LEN * Suc (k + Suc n)
       then val ! i XOR md5 (secret @ block r (i div MD5_LEN - 1)) ! (i mod MD5_LEN) else val ! i)" if i: "i < length val" for i
  proof (cases "MD5_LEN * Suc k \<le> i \<and> i < MD5_LEN * Suc (Suc k)")
    case True
    have "r ! i = v ! i" using r(3) [of i] True i v(2) by simp
    moreover have "v ! i = val ! i XOR ?k ! (i - MD5_LEN * Suc k)" using v(3) [OF i] True by simp
    moreover have "i div MD5_LEN - 1 = k \<and> i mod MD5_LEN = i - (MD5_LEN * k + MD5_LEN)" using True by (intro div_mod_block) simp_all
    ultimately show ?thesis using True bk by (simp add: add.commute)
  next
    case False
    then have "v ! i = val ! i" using v(3) [OF i] by auto
    then show ?thesis using False r(3) [of i] v(2) i by auto
  qed
  then show ?case using e r(2) v(2) by auto
qed auto

lemma encode_cipher_spec:
  assumes "md5_sized md5" "length first = MD5_LEN"
  shows "\<exists>c. encode_cipher md5 secret first p = Ok c \<and> ciphered md5 secret first p c"
proof (cases "length p \<le> MD5_LEN")
  case True
  obtain c where "memxor p 0 first (length p) = Ok c" "length c = length p" "\<And>i. i < length p \<Longrightarrow> c ! i = p ! i XOR first ! i"
    by (rule memxor_OkI [of 0 "length p" p first]) (use True assms(2) in auto)
  then show ?thesis using True by (auto simp: encode_cipher_def ciphered_def key_def)
next
  case False
  obtain v where v: "memxor p 0 first MD5_LEN = Ok v" "length v = length p"
    "\<And>i. i < length p \<Longrightarrow> v ! i = (if i < MD5_LEN then p ! i XOR first ! i else p ! i)"
    by (rule memxor_OkI [of 0 MD5_LEN p first]) (use False assms(2) in auto)
  define b m where bm: "b = length p div MD5_LEN - 1" "m = length p mod MD5_LEN"
  have bs: "length p div MD5_LEN - Suc 0 = b" "length p mod MD5_LEN = m" by (simp_all add: bm)
  have "1 \<le> length p div MD5_LEN" using False by (simp add: div_greater_zero_iff Suc_le_eq)
  then have sz: "MD5_LEN * Suc b + m = length p" "m < MD5_LEN" by (simp_all add: bm)
  then have "MD5_LEN * Suc (0 + b) \<le> length v" using v(2) by simp
  from encode_blocks_spec [OF assms(1) this, of secret] obtain r where r: "encode_blocks md5 secret 0 b v = Ok r" "length r = length v"
    "\<And>i. i < length v \<Longrightarrow> r ! i = (if MD5_LEN \<le> i \<and> i < MD5_LEN * Suc b
       then v ! i XOR md5 (secret @ block r (i div MD5_LEN - 1)) ! (i mod MD5_LEN) else v ! i)" by auto
  have rp: "length r = length p" using r(2) v(2) by simp
  have ri: "r ! i = p ! i XOR key md5 secret first r i" if "i < MD5_LEN * Suc b" "i < length p" for i
    using that r(3) [of i] v(2,3) by (auto simp: key_def)
  show ?thesis
  proof (cases "m = 0")
    case True
    then have "encode_cipher md5 secret first p = Ok r" using False v r(1) by (simp add: encode_cipher_def Let_def bs)
    moreover have "ciphered md5 secret first p r" using ri rp sz(1) True by (auto simp: ciphered_def)
    ultimately show ?thesis by blast
  next
    case m: False
    have rb: "read_bytes r (MD5_LEN * b) MD5_LEN = Ok (block r b)" using sz rp by (simp add: block_def)
    obtain c where c: "memxor r (MD5_LEN * b + MD5_LEN) (md5 (secret @ block r b)) m = Ok c" "length c = length r"
      "\<And>i. i < length r \<Longrightarrow> c ! i = (if MD5_LEN * b + MD5_LEN \<le> i \<and> i < MD5_LEN * b + MD5_LEN + m
         then r ! i XOR md5 (secret @ block r b) ! (i - (MD5_LEN * b + MD5_LEN)) else r ! i)"
      by (rule memxor_OkI [of "MD5_LEN * b + MD5_LEN" m r "md5 (secret @ block r b)"]) (use assms(1) sz rp in auto)
    have e: "encode_cipher md5 secret first p = Ok c"
      using False v r(1) m rb c(1) by (simp add: encode_cipher_def Let_def bs)
    have cl: "c ! i = r ! i" if "i < MD5_LEN * Suc b" "i < length p" for i using c(3) [of i] that rp by auto
    have bl: "block c j = block r j" if "j \<le> b" for j
      by (rule block_cong [OF c(2)]) (rule cl, use that rp sz in auto)
    have "c ! i = p ! i XOR key md5 secret first c i" if i: "i < length p" for i
    proof (cases "i < MD5_LEN * Suc b")
      case True
      then have "i div MD5_LEN - 1 \<le> b" by (simp add: less_mult_imp_div_less mult.commute less_Suc_eq_le [symmetric] less_imp_diff_less)
      then show ?thesis using cl [OF True i] ri [OF True i] bl by (simp add: key_def)
    next
      case h: False
      then have "i div MD5_LEN - 1 = b \<and> i mod MD5_LEN = i - (MD5_LEN * b + MD5_LEN)" using i sz
        by (intro div_mod_block) auto
      moreover have "r ! i = p ! i" using r(3) [of i] v h i by auto
      moreover have "c ! i = r ! i XOR md5 (secret @ block r b) ! (i - (MD5_LEN * b + MD5_LEN))" using c(3) [of i] h i rp sz(1) by auto
      moreover have "\<not> i < MD5_LEN" using h by simp
      ultimately show ?thesis using bl [of b] by (simp add: key_def)
    qed
    then show ?thesis using e c(2) rp by (auto simp: ciphered_def)
  qed
qed

text \<open>Deciphering what has been ciphered gives the original value back, with the padding cut off.\<close>

lemma decode_out_Ok:
  assumes "length r = length p" "p = u_write_be16 (of_nat n) @ v @ pad" "length v = n" "n < 2 ^ 16"
    "\<And>i. i < 2 + n \<Longrightarrow> r ! i = p ! i"
  shows "decode_out r = Ok (r, n) \<and> take n (drop 2 r) = v"
proof -
  have "2 + n \<le> length p" using assms(2,3) by simp
  then have t: "take (2 + n) r = take (2 + n) p" using assms(1,5) by (intro nth_equalityI) simp_all
  then have "take 2 r = take 2 p" by (metis min.absorb1 le_add1 take_take)
  then have "read_bytes r 0 2 = Ok (u_write_be16 (of_nat n))" using assms(1,2) by simp
  moreover have "take n (drop 2 r) = take n (drop 2 p)" using t by (metis add.commute take_drop)
  moreover have "u_read_be16 (u_write_be16 (of_nat n)) = of_nat n" using u_read_write_be16 [of "of_nat n" "[]"] by simp
  ultimately show ?thesis using assms by (simp add: decode_out_def unat_of_nat_eq)
qed

lemma decode_rest_spec:
  assumes "md5_sized md5" "length val > MD5_LEN" "MD5_LEN < n + 2" "n + 2 \<le> length val"
  shows "\<exists>r. decode_rest md5 secret (n + 2 - MD5_LEN) val = Ok r \<and> length r = length val \<and>
    (\<forall>i < n + 2. MD5_LEN \<le> i \<longrightarrow> r ! i = val ! i XOR md5 (secret @ block val (i div MD5_LEN - 1)) ! (i mod MD5_LEN))"
proof -
  define b m where bm: "b = (n + 2 - MD5_LEN) div MD5_LEN" "m = (n + 2 - MD5_LEN) mod MD5_LEN"
  have sz: "MD5_LEN * Suc b + m = n + 2" "m < MD5_LEN" using assms(3) by (simp_all add: bm)
  let ?v = "if m \<noteq> 0 then bind_parse (read_bytes val (b * MD5_LEN) MD5_LEN) (\<lambda>blk.
           memxor val (b * MD5_LEN + MD5_LEN) (md5 (secret @ blk)) m) else Ok val"
  have rb: "read_bytes val (b * MD5_LEN) MD5_LEN = Ok (block val b)" using sz assms(4) by (simp add: block_def mult.commute)
  obtain v where v: "?v = Ok v" "length v = length val"
    "\<And>i. i < length val \<Longrightarrow> v ! i = (if MD5_LEN * b + MD5_LEN \<le> i \<and> i < n + 2
       then val ! i XOR md5 (secret @ block val b) ! (i - (MD5_LEN * b + MD5_LEN)) else val ! i)"
  proof (cases "m = 0")
    case True
    have nb: "\<not> (MD5_LEN * b + MD5_LEN \<le> i \<and> i < n + 2)" for i using True sz by simp
    show ?thesis by (rule that [of val]) (simp_all only: True if_not_P [OF nb], simp_all)
  next
    case False
    obtain v where w: "memxor val (b * MD5_LEN + MD5_LEN) (md5 (secret @ block val b)) m = Ok v" "length v = length val"
      "\<And>i. i < length val \<Longrightarrow> v ! i = (if b * MD5_LEN + MD5_LEN \<le> i \<and> i < b * MD5_LEN + MD5_LEN + m
         then val ! i XOR md5 (secret @ block val b) ! (i - (b * MD5_LEN + MD5_LEN)) else val ! i)"
      by (rule memxor_OkI [of "b * MD5_LEN + MD5_LEN" m val "md5 (secret @ block val b)"]) (use assms(1,4) sz in auto)
    have e: "b * MD5_LEN = MD5_LEN * b" "MD5_LEN * b + MD5_LEN + m = n + 2" using sz by simp_all
    show ?thesis by (rule that [of v]) (use False rb w(1,2) w(3) [unfolded e] in simp_all)
  qed
  have "MD5_LEN * Suc b \<le> length v" using v(2) sz assms(4) by simp
  from decode_blocks_spec [OF assms(1) this, of secret] obtain r where r: "decode_blocks md5 secret b v = Ok r" "length r = length v"
    "\<And>i. i < length v \<Longrightarrow> r ! i = (if MD5_LEN \<le> i \<and> i < MD5_LEN * Suc b
       then v ! i XOR md5 (secret @ block v (i div MD5_LEN - 1)) ! (i mod MD5_LEN) else v ! i)" by blast
  have bv: "block v j = block val j" if "j < b" for j
  proof (rule block_cong [OF v(2)])
    fix i assume "i < MD5_LEN * j + MD5_LEN" "i < length val"
    moreover have "MD5_LEN * Suc j \<le> MD5_LEN * b" using that by (intro mult_le_mono) auto
    ultimately show "v ! i = val ! i" using v(3) [of i] by simp
  qed
  have "r ! i = val ! i XOR md5 (secret @ block val (i div MD5_LEN - 1)) ! (i mod MD5_LEN)" if i: "i < n + 2" "MD5_LEN \<le> i" for i
  proof (cases "i < MD5_LEN * Suc b")
    case True
    have "i div MD5_LEN < Suc b" using True by (simp add: less_mult_imp_div_less mult.commute)
    moreover have "0 < i div MD5_LEN" using i by (simp add: div_greater_zero_iff)
    ultimately have "i div MD5_LEN - 1 < b" by simp
    then show ?thesis using bv r(3) [of i] v(2) v(3) [of i] True i assms(4) by simp
  next
    case False
    then have "i div MD5_LEN - 1 = b \<and> i mod MD5_LEN = i - (MD5_LEN * b + MD5_LEN)" using i sz by (intro div_mod_block) auto
    then show ?thesis using r(3) [of i] v(2) v(3) [of i] False i assms(4) by simp
  qed
  moreover have "decode_rest md5 secret (n + 2 - MD5_LEN) val = Ok r"
    unfolding decode_rest_def Let_def bm [symmetric] v(1) using r(1) by simp
  ultimately show ?thesis using v(2) r(2) by auto
qed

lemma decode_out_total: "2 \<le> length val \<Longrightarrow> decode_out val = Reject \<or> (\<exists>n \<le> length val - 2. decode_out val = Ok (val, n))"
  by (auto simp: decode_out_def Let_def)

lemma decode_avp_total:
  assumes "md5_sized md5" "la_val RV = VOctets rv" "la_length RV \<le> length rv"
  shows "decode_avp md5 typ RV secret val = Reject \<or>
    (\<exists>r n. decode_avp md5 typ RV secret val = Ok (r, n) \<and> length r = length val \<and> 2 \<le> length val \<and> n \<le> length val - 2)"
proof -
  let ?first = "md5 (u_write_be16 typ @ secret @ take (la_length RV) rv)"
  consider (short) "length val < 2" | (one) "2 \<le> length val" "length val \<le> MD5_LEN" | (more) "length val > MD5_LEN" by linarith
  then show ?thesis
  proof cases
    case short
    then show ?thesis by (simp add: decode_avp_def)
  next
    case one
    obtain c where "memxor val 0 ?first (length val) = Ok c" "length c = length val"
      by (rule memxor_OkI [of 0 "length val" val ?first]) (use assms(1) one in auto)
    then show ?thesis using one assms(2,3) decode_out_total [of c] by (auto simp: decode_avp_def Let_def)
  next
    case more
    obtain p1 where p1: "memxor ?first 0 (take MD5_LEN val) MD5_LEN = Ok p1" "length p1 = MD5_LEN"
      by (rule memxor_OkI [of 0 MD5_LEN ?first "take MD5_LEN val"]) (use assms(1) more in auto)
    define n where "n = unat (u_read_be16 p1)"
    have fin: "decode_out (take MD5_LEN p1 @ drop MD5_LEN r) = Reject \<or>
        (\<exists>r' k. decode_out (take MD5_LEN p1 @ drop MD5_LEN r) = Ok (r', k) \<and> length r' = length val \<and> 2 \<le> length val \<and> k \<le> length val - 2)"
      if "length r = length val" for r
      using decode_out_total [of "take MD5_LEN p1 @ drop MD5_LEN r"] that p1(2) more by auto
    note d = decode_avp_def Let_def assms(2) n_def [symmetric]
    consider "n \<le> MD5_LEN - 2" | "\<not> n \<le> MD5_LEN - 2" "n > length val - 2" | "\<not> n \<le> MD5_LEN - 2" "\<not> n > length val - 2" by blast
    then show ?thesis
    proof cases
      case 1
      then show ?thesis using more assms(3) p1(1) fin [of val] by (simp add: d)
    next
      case 2
      then show ?thesis using more assms(3) p1(1) by (simp add: d)
    next
      case 3
      have "MD5_LEN < n + 2" "n + 2 \<le> length val" using 3 more by auto
      from decode_rest_spec [OF assms(1) more this, of secret]
      obtain r where r: "decode_rest md5 secret (n + 2 - MD5_LEN) val = Ok r" "length r = length val" by blast
      then show ?thesis using more assms(3) p1(1) 3 fin [OF r(2)] by (simp add: d)
    qed
  qed
qed

lemma decode_avp_ciphered:
  assumes md5: "md5_sized md5" and rv: "la_val RV = VOctets rv" "la_length RV = length rv"
    and c: "ciphered md5 secret (md5 (u_write_be16 typ @ secret @ rv)) p c"
    and p: "p = u_write_be16 (of_nat n) @ v @ pad" "length v = n" "n < 2 ^ 16"
  shows "\<exists>r. decode_avp md5 typ RV secret c = Ok (r, n) \<and> take n (drop 2 r) = v"
proof -
  let ?first = "md5 (u_write_be16 typ @ secret @ rv)"
  have len: "length c = length p" "n + 2 \<le> length c" using c p by (simp_all add: ciphered_def)
  have ci: "p ! i = c ! i XOR key md5 secret ?first c i" if "i < length c" for i
    using c that by (simp add: ciphered_def xor.assoc)
  note d = decode_avp_def Let_def rv
  show ?thesis
  proof (cases "length c \<le> MD5_LEN")
    case True
    obtain r where r: "memxor c 0 ?first (length c) = Ok r" "length r = length c" "\<And>i. i < length c \<Longrightarrow> r ! i = c ! i XOR ?first ! i"
      by (rule memxor_OkI [of 0 "length c" c ?first]) (use md5 True in auto)
    have "decode_out r = Ok (r, n) \<and> take n (drop 2 r) = v"
      by (rule decode_out_Ok [OF _ p]) (use r True len ci in \<open>auto simp: key_def\<close>)
    then show ?thesis using True r(1) len(2) by (auto simp: d)
  next
    case False
    then have more: "length c > MD5_LEN" by simp
    obtain p1 where p1: "memxor ?first 0 (take MD5_LEN c) MD5_LEN = Ok p1" "length p1 = MD5_LEN"
        "\<And>i. i < MD5_LEN \<Longrightarrow> p1 ! i = ?first ! i XOR take MD5_LEN c ! i"
      by (rule memxor_OkI [of 0 MD5_LEN ?first "take MD5_LEN c"]) (use md5 more in auto)
    have p1i: "p1 ! i = p ! i" if "i < MD5_LEN" for i using p1(3) [OF that] ci [of i] that more by (simp add: key_def xor.commute)
    have "take 2 p1 = take 2 p" using p1(2) p1i len more by (intro nth_equalityI) auto
    then have "take 2 p1 = u_write_be16 (of_nat n)" using p(1) by simp
    then have "p1 = u_write_be16 (of_nat n) @ drop 2 p1" by (metis append_take_drop_id)
    then have "u_read_be16 p1 = of_nat n" by (metis u_read_write_be16)
    then have n: "unat (u_read_be16 p1) = n" using p(3) by (simp add: unat_of_nat_eq)
    have fin: "decode_out (take MD5_LEN p1 @ drop MD5_LEN r) = Ok (take MD5_LEN p1 @ drop MD5_LEN r, n) \<and>
        take n (drop 2 (take MD5_LEN p1 @ drop MD5_LEN r)) = v"
      if r: "length r = length c" "\<And>i. MD5_LEN \<le> i \<Longrightarrow> i < n + 2 \<Longrightarrow> r ! i = p ! i" for r
    proof (rule decode_out_Ok [OF _ p])
      show "length (take MD5_LEN p1 @ drop MD5_LEN r) = length p" using r p1(2) len more by simp
      fix i assume "i < 2 + n"
      then show "(take MD5_LEN p1 @ drop MD5_LEN r) ! i = p ! i" using r p1i p1(2) len by (auto simp: nth_append)
    qed
    show ?thesis
    proof (cases "n \<le> MD5_LEN - 2")
      case True
      then show ?thesis using more p1(1) fin [of c] n by (simp add: d)
    next
      case nl: False
      then have "MD5_LEN < n + 2" by simp
      from decode_rest_spec [OF md5 more this len(2), of secret] obtain r where r: "decode_rest md5 secret (n + 2 - MD5_LEN) c = Ok r" "length r = length c"
        "\<And>i. i < n + 2 \<Longrightarrow> MD5_LEN \<le> i \<Longrightarrow> r ! i = c ! i XOR md5 (secret @ block c (i div MD5_LEN - 1)) ! (i mod MD5_LEN)" by blast
      have "r ! i = p ! i" if "MD5_LEN \<le> i" "i < n + 2" for i using r(3) [of i] ci [of i] that len by (simp add: key_def)
      then show ?thesis using more p1(1) r(1) fin [OF r(2)] n nl len(2) by (simp add: d)
    qed
  qed
qed

section \<open>What the parser guarantees\<close>

text \<open>A value of the member that the attribute's type selects, with the length the type demands.\<close>

definition typed :: "l2tp_attr \<Rightarrow> bool" where
  "typed a \<longleftrightarrow> (case lda_type (la_attr a) of
      L2TP_INT16 \<Rightarrow> la_length a = 2 \<and> (\<exists>x. la_val a = V16 x)
    | L2TP_INT32 \<Rightarrow> la_length a = 4 \<and> (\<exists>x. la_val a = V32 x)
    | L2TP_INT64 \<Rightarrow> la_length a = 8 \<and> (\<exists>x. la_val a = V64 x)
    | L2TP_NONE \<Rightarrow> la_val a = V64 0
    | _ \<Rightarrow> \<exists>b. la_val a = VOctets b \<and> length b = la_length a)"

definition dict_rv :: "l2tp_dict \<Rightarrow> bool" where
  \<comment> \<open>the random vector is an attribute with octets\<close>
  "dict_rv dict \<longleftrightarrow> (\<forall>da. l2tp_dict_find_attr_by_id dict Random_Vector = Some da \<longrightarrow> lda_type da = L2TP_OCTETS \<or> lda_type da = L2TP_STRING)"

definition in_dict :: "l2tp_dict \<Rightarrow> l2tp_attr \<Rightarrow> bool" where
  "in_dict dict a \<longleftrightarrow> l2tp_dict_find_attr_by_id dict (lda_id (la_attr a)) = Some (la_attr a) \<and> 0 \<le> lda_id (la_attr a) \<and> lda_id (la_attr a) < 2 ^ 16"

definition rv_ok :: "l2tp_attr option \<Rightarrow> bool" where
  "rv_ok RV \<longleftrightarrow> (\<forall>a. RV = Some a \<longrightarrow> (\<exists>b. la_val a = VOctets b \<and> length b = la_length a))"

lemma read_value_total:
  assumes "n \<le> length val"
  shows "read_value typ n val \<noteq> Fault \<and>
    (\<forall>v. read_value typ n val = Ok v \<longrightarrow> lda_type da = typ \<longrightarrow> typed \<lparr>la_attr = da, la_M = M, la_H = H, la_length = n, la_val = v\<rparr>)"
  using assms by (cases "typ") (auto simp: read_value_def typed_def)

lemma find_by_id: "l2tp_dict_find_attr_by_id dict i = Some da \<Longrightarrow> lda_id da = i"
  by (auto simp: l2tp_dict_find_attr_by_id_def find_Some_iff)

lemma recv_avp_total:
  assumes "md5_sized (lc_md5 cf)" "rv_ok RV"
  shows "recv_avp cf secret RV flags vendor typ val \<noteq> Fault \<and>
    (\<forall>a. recv_avp cf secret RV flags vendor typ val = Ok (Some a) \<longrightarrow> typed a \<and> in_dict (lc_dict cf) a \<and> \<not> la_H a \<and> lda_id (la_attr a) = uint typ)"
proof -
  have dec: "decode_avp (lc_md5 cf) typ rv sec val = Reject \<or>
      (\<exists>r n. decode_avp (lc_md5 cf) typ rv sec val = Ok (r, n) \<and> length r = length val \<and> 2 \<le> length val \<and> n \<le> length val - 2)"
    if "RV = Some rv" for rv sec
  proof -
    obtain b where "la_val rv = VOctets b" "la_length rv \<le> length b" using assms(2) \<open>RV = Some rv\<close> by (auto simp: rv_ok_def)
    then show ?thesis by (rule decode_avp_total [OF assms(1)])
  qed
  have fin: "bind_parse (read_value (lda_type da) n v) (\<lambda>v. Ok (Some \<lparr>la_attr = da, la_M = M, la_H = False, la_length = n, la_val = v\<rparr>)) \<noteq> Fault \<and>
     (\<forall>a. bind_parse (read_value (lda_type da) n v) (\<lambda>v. Ok (Some \<lparr>la_attr = da, la_M = M, la_H = False, la_length = n, la_val = v\<rparr>)) = Ok (Some a) \<longrightarrow>
       typed a \<and> in_dict (lc_dict cf) a \<and> \<not> la_H a \<and> lda_id (la_attr a) = uint typ)"
    if "l2tp_dict_find_attr_by_id (lc_dict cf) (uint typ) = Some da" "n \<le> length v" for da n v M
    using read_value_total [OF that(2), of "lda_type da" da M False] find_by_id [OF that(1)] that(1) uint_bound [of "typ"]
    by (auto simp: in_dict_def split: bind_parse_split)
  show ?thesis
  proof (cases "vendor \<noteq> 0 \<or> l2tp_dict_find_attr_by_id (lc_dict cf) (uint typ) = None")
    case True
    then show ?thesis by (auto simp: recv_avp_def Let_def)
  next
    case False
    then obtain da where da: "vendor = 0" "l2tp_dict_find_attr_by_id (lc_dict cf) (uint typ) = Some da" by auto
    show ?thesis
    proof (cases "flags AND L2TP_AVP_FLAG_H = 0")
      case True
      then show ?thesis using da fin [OF da(2), of "length val" val] by (auto simp: recv_avp_def Let_def)
    next
      case H: False
      show ?thesis
      proof (cases "RV = None \<or> secret = None \<or> secret = Some []")
        case True
        then show ?thesis using da H by (auto simp: recv_avp_def Let_def split: option.splits)
      next
        case False
        then obtain rv sec where rs: "RV = Some rv" "secret = Some sec" "sec \<noteq> []" by auto
        from dec [OF rs(1), of sec] show ?thesis
        proof
          assume "decode_avp (lc_md5 cf) typ rv sec val = Reject"
          then show ?thesis using da H rs by (simp add: recv_avp_def Let_def)
        next
          assume "\<exists>r n. decode_avp (lc_md5 cf) typ rv sec val = Ok (r, n) \<and> length r = length val \<and> 2 \<le> length val \<and> n \<le> length val - 2"
          then obtain r n where r: "decode_avp (lc_md5 cf) typ rv sec val = Ok (r, n)" "n \<le> length (drop 2 r)" by auto
          then show ?thesis using da H rs fin [OF da(2) r(2)] by (simp add: recv_avp_def Let_def)
        qed
      qed
    qed
  qed
qed

lemma recv_avps_total:
  assumes "md5_sized (lc_md5 cf)" "dict_rv (lc_dict cf)" "rv_ok RV" "len \<le> length buf"
  shows "recv_avps cf secret RV buf len \<noteq> Fault \<and>
    (\<forall>as. recv_avps cf secret RV buf len = Ok as \<longrightarrow> (\<forall>a \<in> set as. typed a \<and> in_dict (lc_dict cf) a \<and> \<not> la_H a))"
  using assms
proof (induction cf secret RV buf len rule: recv_avps.induct)
  case (1 cf secret RV buf len)
  show ?case
  proof (cases "len < 6")
    case True
    then show ?thesis by (auto simp: recv_avps.simps [of cf secret RV buf len])
  next
    case l: False
    let ?h = "take 6 buf"
    let ?n = "unat (u_read_be16 ?h AND L2TP_AVP_LEN_MASK)"
    have h: "read_bytes buf 0 6 = Ok ?h" using l "1.prems"(4) by simp
    show ?thesis
    proof (cases "?n < 6 \<or> len < ?n")
      case True
      then show ?thesis using l h by (auto simp: recv_avps.simps [of cf secret RV buf len] Let_def)
    next
      case False
      let ?val = "take (?n - 6) (drop 6 buf)"
      have val: "read_bytes buf 6 (?n - 6) = Ok ?val" using False "1.prems"(4) by simp
      let ?r = "recv_avp cf secret RV (u_read_be16 ?h) (u_read_be16 (drop 2 ?h)) (u_read_be16 (drop 4 ?h)) ?val"
      note rt = recv_avp_total [OF "1.prems"(1,3), of secret "u_read_be16 ?h" "u_read_be16 (drop 2 ?h)" "u_read_be16 (drop 4 ?h)" ?val]
      have e: "recv_avps cf secret RV buf len = bind_parse ?r (\<lambda>r.
          bind_parse (recv_avps cf secret (next_RV RV r)
            (drop ?n buf) (len - ?n)) (\<lambda>as. Ok (case r of Some a \<Rightarrow> a # as | None \<Rightarrow> as)))"
        using l h False val by (simp add: recv_avps.simps [of cf secret RV buf len] Let_def)
      have IH: "recv_avps cf secret (next_RV RV r) (drop ?n buf) (len - ?n) \<noteq> Fault \<and>
          (\<forall>as. recv_avps cf secret (next_RV RV r) (drop ?n buf) (len - ?n) = Ok as \<longrightarrow>
             (\<forall>a \<in> set as. typed a \<and> in_dict (lc_dict cf) a \<and> \<not> la_H a))" if r: "?r = Ok r" for r
      proof (rule "1.IH" [OF _ _ h refl refl _ _ val r "1.prems"(1,2)])
        show "rv_ok (next_RV RV r)"
        proof (cases r)
          case (Some a)
          then have a: "typed a" "in_dict (lc_dict cf) a" using rt r by auto
          have "lda_id (la_attr a) = Random_Vector \<Longrightarrow> lda_type (la_attr a) = L2TP_OCTETS \<or> lda_type (la_attr a) = L2TP_STRING"
            using a(2) "1.prems"(2) by (auto simp: in_dict_def dict_rv_def)
          then show ?thesis using Some a(1) "1.prems"(3) by (auto simp: rv_ok_def typed_def next_RV_def)
        qed (use "1.prems"(3) in \<open>simp add: next_RV_def\<close>)
      qed (use l False "1.prems"(4) in auto)
      show ?thesis
      proof (cases ?r)
        case (Ok r)
        then show ?thesis using IH [OF Ok] rt e
          by (cases "recv_avps cf secret (next_RV RV r) (drop ?n buf) (len - ?n)") (auto split: option.splits)
      qed (use rt e in auto)
    qed
  qed
qed

lemma l2tp_recv_total:
  assumes "md5_sized (lc_md5 cf)" "dict_rv (lc_dict cf)"
  shows "l2tp_recv cf secret port buf \<noteq> Fault \<and>
    (\<forall>pack. l2tp_recv cf secret port buf = Ok pack \<longrightarrow> (\<forall>a \<in> set (p_attrs pack). typed a \<and> in_dict (lc_dict cf) a \<and> \<not> la_H a))"
proof -
  let ?l = "unat (u_read_be16 (drop 2 buf))"
  have "rv_ok None" by (simp add: rv_ok_def)
  then have "recv_avps cf secret None (drop 12 buf) (?l - 12) \<noteq> Fault \<and>
      (\<forall>as. recv_avps cf secret None (drop 12 buf) (?l - 12) = Ok as \<longrightarrow> (\<forall>a \<in> set as. typed a \<and> in_dict (lc_dict cf) a \<and> \<not> la_H a))"
    if "\<not> length buf < ?l" using that by (intro recv_avps_total [OF assms]) auto
  then show ?thesis by (auto simp: l2tp_recv_def Let_def bind_parse_Ok_iff split: bind_parse_split)
qed

end
