(* ===== verification/L2tpRoundtrip.thy ===== *)
theory L2tpRoundtrip
  imports L2tpPacketCorrect
begin

text \<open>
  What is built, sent and received again: the receiver gets the attributes that were added, hidden or not.
\<close>

section \<open>Headers of attributes\<close>

lemma avp_len_mask: "n < 1024 \<Longrightarrow> unat (of_nat n AND L2TP_AVP_LEN_MASK) = n"
proof -
  assume "n < 1024"
  have "L2TP_AVP_LEN_MASK = mask 10" by (simp add: mask_eq_exp_minus_1)
  then have "of_nat n AND L2TP_AVP_LEN_MASK = take_bit 10 (of_nat n)" by (simp add: take_bit_eq_mask)
  then show ?thesis using \<open>n < 1024\<close> by (simp add: unsigned_take_bit_eq unat_of_nat_eq take_bit_nat_eq_self_iff)
qed

lemma avp_flags_len:
  assumes "6 + la_length a \<le> 1023"
  shows "unat (avp_flags a AND L2TP_AVP_LEN_MASK) = 6 + la_length a"
proof -
  have "avp_flags a AND L2TP_AVP_LEN_MASK = of_nat (6 + la_length a) AND L2TP_AVP_LEN_MASK"
    by (simp add: avp_flags_def bit.conj_disj_distrib2 and.assoc)
  then show ?thesis using assms avp_len_mask [of "6 + la_length a"] by simp
qed

lemma avp_flags_M: "avp_flags a AND L2TP_AVP_FLAG_M \<noteq> 0 \<longleftrightarrow> la_M a"
  by (simp add: avp_flags_def bit.conj_disj_distrib2 and.assoc)

lemma avp_flags_H: "avp_flags a AND L2TP_AVP_FLAG_H \<noteq> 0 \<longleftrightarrow> la_H a"
  by (simp add: avp_flags_def bit.conj_disj_distrib2 and.assoc)

section \<open>One attribute\<close>

definition plain :: "l2tp_attr \<Rightarrow> nat \<Rightarrow> l2tp_value \<Rightarrow> l2tp_attr" where
  "plain a n v = a\<lparr>la_H := False, la_length := n, la_val := v\<rparr>"

definition sent_as :: "l2tp_conf \<Rightarrow> bytes option \<Rightarrow> l2tp_attr option \<Rightarrow> l2tp_attr \<Rightarrow> l2tp_attr \<Rightarrow> bool" where
  "sent_as cf secret RV a a' \<longleftrightarrow>
     (\<forall>val. write_value a = Ok val \<longrightarrow> 6 + la_length a \<le> 1023 \<longrightarrow> length val = la_length a \<and>
        recv_avp cf secret RV (avp_flags a) 0 (word_of_int (lda_id (la_attr a))) val = Ok (Some a'))"

fun sends :: "l2tp_conf \<Rightarrow> bytes option \<Rightarrow> l2tp_attr option \<Rightarrow> l2tp_attr list \<Rightarrow> l2tp_attr list \<Rightarrow> bool" where
  "sends cf secret RV [] as' \<longleftrightarrow> as' = []"
| "sends cf secret RV (a # as) as' \<longleftrightarrow>
     (\<exists>a' bs'. as' = a' # bs' \<and> sent_as cf secret RV a a' \<and> sends cf secret (next_RV RV (Some a')) as bs')"

definition last_RV :: "l2tp_attr option \<Rightarrow> l2tp_attr list \<Rightarrow> l2tp_attr option" where
  "last_RV RV as = foldl (\<lambda>RV a. next_RV RV (Some a)) RV as"

lemma sends_append:
  "sends cf secret RV as as' \<Longrightarrow> sent_as cf secret (last_RV RV as') a a' \<Longrightarrow> sends cf secret RV (as @ [a]) (as' @ [a'])"
  by (induction as arbitrary: RV as') (auto simp: last_RV_def)

lemma recv_sent_avps:
  assumes "send_avps as len = Ok body" "sends cf secret RV as as'"
  shows "recv_avps cf secret RV (body @ rest) (length body) = Ok as'"
  using assms
proof (induction as arbitrary: len body RV as')
  case Nil
  then show ?case by (simp add: recv_avps.simps)
next
  case (Cons a as)
  from Cons.prems(1) obtain val body' where v: "6 + la_length a \<le> 1023" "write_value a = Ok val" "send_avps as (len + 6 + la_length a) = Ok body'"
      "body = u_write_be16 (avp_flags a) @ u_write_be16 0 @ u_write_be16 (word_of_int (lda_id (la_attr a))) @ val @ body'"
    by (auto simp: bind_parse_Ok_iff split: if_splits)
  from Cons.prems(2) obtain a' bs' where a': "as' = a' # bs'" "sent_as cf secret RV a a'" "sends cf secret (next_RV RV (Some a')) as bs'" by auto
  have val: "length val = la_length a" "recv_avp cf secret RV (avp_flags a) 0 (word_of_int (lda_id (la_attr a))) val = Ok (Some a')"
    using a'(2) v(1,2) by (simp_all add: sent_as_def)
  define h where "h = u_write_be16 (avp_flags a) @ u_write_be16 0 @ u_write_be16 (word_of_int (lda_id (la_attr a)))"
  have h: "length h = 6" "u_read_be16 h = avp_flags a" "u_read_be16 (drop 2 h) = 0" "u_read_be16 (drop 4 h) = word_of_int (lda_id (la_attr a))"
    using u_read_write_be16 [of "word_of_int (lda_id (la_attr a))" "[]"] by (simp_all add: h_def)
  have b: "body @ rest = h @ val @ body' @ rest" by (simp add: v(4) h_def)
  have lb: "length body = 6 + la_length a + length body'" by (simp add: v(4) val(1))
  have fl: "unat (avp_flags a AND L2TP_AVP_LEN_MASK) = 6 + la_length a" using avp_flags_len [OF v(1)] .
  have "recv_avps cf secret (next_RV RV (Some a')) (body' @ rest) (length body') = Ok bs'" by (rule Cons.IH [OF v(3) a'(3)])
  then show ?case unfolding b recv_avps.simps [of cf secret RV "h @ val @ body' @ rest" "length body"]
    using h lb fl val a'(1) by (simp add: Let_def)
qed

section \<open>Attributes that are added\<close>

definition dict_ok :: "l2tp_dict \<Rightarrow> bool" where
  \<comment> \<open>identifiers of 16 bits, at most one entry for each, and a random vector of octets that is never hidden\<close>
  "dict_ok dict \<longleftrightarrow> (\<forall>da \<in> set dict. 0 \<le> lda_id da \<and> lda_id da < 2 ^ 16 \<and>
     (lda_id da = Random_Vector \<longrightarrow> lda_type da = L2TP_OCTETS \<and> lda_H da \<in> {-1, 0}))"

lemma find_in_dict: "dict_ok dict \<Longrightarrow> l2tp_dict_find_attr_by_id dict i = Some da \<Longrightarrow>
   lda_id da = i \<and> 0 \<le> i \<and> i < 2 ^ 16 \<and> (i = Random_Vector \<longrightarrow> lda_type da = L2TP_OCTETS \<and> lda_H da \<in> {-1, 0})"
  by (auto simp: dict_ok_def l2tp_dict_find_attr_by_id_def find_Some_iff)

lemma uint_id: "0 \<le> i \<Longrightarrow> i < 2 ^ 16 \<Longrightarrow> uint (word_of_int i :: u16) = i"
  by (simp add: uint_word_of_int)

definition agrees :: "l2tp_conf \<Rightarrow> l2tp_attr \<Rightarrow> bool" where
  "agrees cf a \<longleftrightarrow> l2tp_dict_find_attr_by_id (lc_dict cf) (lda_id (la_attr a)) = Some (la_attr a) \<and>
     (lda_M (la_attr a) \<noteq> -1 \<longrightarrow> la_M a = (lda_M (la_attr a) \<noteq> 0)) \<and> (lda_H (la_attr a) \<noteq> -1 \<longrightarrow> la_H a = (lda_H (la_attr a) \<noteq> 0))"

lemma attr_alloc_agrees:
  assumes "dict_ok (lc_dict cf)" "attr_alloc (lc_dict cf) i M H = Some a"
  shows "agrees cf a" "lda_id (la_attr a) = i" "la_length a = 0" "la_val a = V64 0"
  using assms find_in_dict [OF assms(1)] by (auto simp: attr_alloc_def agrees_def split: option.splits)

lemma recv_avp_agrees:
  assumes "dict_ok (lc_dict cf)" "agrees cf a"
  shows "recv_avp cf secret RV (avp_flags a) 0 (word_of_int (lda_id (la_attr a))) val =
    bind_parse
      (if la_H a then
         (case (RV, secret) of
            (Some rv, Some sec) \<Rightarrow>
              if sec = [] then Reject
              else bind_parse (decode_avp (lc_md5 cf) (word_of_int (lda_id (la_attr a))) rv sec val) (\<lambda>(val, n). Ok (n, drop 2 val))
          | _ \<Rightarrow> Reject)
       else Ok (length val, val)) (\<lambda>(n, orig_val).
    bind_parse (read_value (lda_type (la_attr a)) n orig_val) (\<lambda>v.
      Ok (Some \<lparr>la_attr = la_attr a, la_M = la_M a, la_H = False, la_length = n, la_val = v\<rparr>)))"
proof -
  have f: "l2tp_dict_find_attr_by_id (lc_dict cf) (lda_id (la_attr a)) = Some (la_attr a)" using assms(2) by (simp add: agrees_def)
  from find_in_dict [OF assms(1) f] have u: "uint (word_of_int (lda_id (la_attr a)) :: u16) = lda_id (la_attr a)" by (intro uint_id) auto
  have M: "\<not> (lda_M (la_attr a) \<noteq> -1 \<and> (lda_M (la_attr a) = 0) = la_M a \<and> \<not> lc_avp_permissive cf)"
    and H: "\<not> (lda_H (la_attr a) \<noteq> -1 \<and> (lda_H (la_attr a) = 0) = la_H a \<and> \<not> lc_avp_permissive cf)"
    using assms(2) by (auto simp: agrees_def)
  show ?thesis unfolding recv_avp_def u avp_flags_M avp_flags_H Let_def f option.case if_not_P [OF M] if_not_P [OF H] by simp
qed

text \<open>The bytes that carry a value, hidden or not, and the type that reads them back.\<close>

definition carries :: "l2tp_type \<Rightarrow> bytes \<Rightarrow> l2tp_value \<Rightarrow> nat \<Rightarrow> bool" where
  "carries typ raw v n \<longleftrightarrow>
     (typ = L2TP_INT16 \<and> n = 2 \<and> (\<exists>x. v = V16 x \<and> raw = u_write_be16 x)) \<or>
     (typ = L2TP_INT32 \<and> n = 4 \<and> (\<exists>x. v = V32 x \<and> raw = u_write_be32 x)) \<or>
     (typ = L2TP_INT64 \<and> n = 8 \<and> (\<exists>x. v = V64 x \<and> raw = u_write_be64 x)) \<or>
     ((typ = L2TP_OCTETS \<or> typ = L2TP_STRING) \<and> v = VOctets raw \<and> n = length raw)"

lemma u_read_write_be:
  "u_read_be16 (u_write_be16 a) = a" "u_read_be32 (u_write_be32 b) = b" "u_read_be64 (u_write_be64 c) = c"
  using u_read_write_be16 [of a "[]"] u_read_write_be32 [of b "[]"] u_read_write_be64 [of c "[]"] by simp_all

lemma read_carried: "carries typ raw v n \<Longrightarrow> take n val = raw \<Longrightarrow> n \<le> length val \<Longrightarrow> read_value typ n val = Ok v"
  by (auto simp: carries_def read_value_def u_read_write_be)

lemma carries_length: "carries typ raw v n \<Longrightarrow> length raw = n"
  by (auto simp: carries_def)

lemma sent_plain:
  assumes "dict_ok (lc_dict cf)" "agrees cf a" "\<not> la_H a" "carries (lda_type (la_attr a)) raw (la_val a) (la_length a)"
  shows "sent_as cf secret RV a a"
proof -
  have r: "read_value (lda_type (la_attr a)) (length raw) raw = Ok (la_val a)"
    using assms(4) carries_length [OF assms(4)] by (intro read_carried) auto
  have "val = raw" if "write_value a = Ok val" for val
    using that assms(3,4) by (auto simp: write_value_def carries_def split: if_splits)
  then show ?thesis using carries_length [OF assms(4)] r assms(3) unfolding sent_as_def
    by (auto simp: recv_avp_agrees [OF assms(1,2)])
qed

lemma encode_attr_ciphered:
  assumes "md5_sized md5" "encode_attr md5 pack attr raw rnd = (Ok a, rnd')" "p_secret pack = Some secret" "p_last_RV pack = Some rv"
    "la_val rv = VOctets rvb" "la_length rv = length rvb" "length raw < 2 ^ 16"
  obtains c pad where "a = attr\<lparr>la_length := length c, la_val := VOctets c\<rparr>" "secret \<noteq> []" "0 < length c"
    "ciphered md5 secret (md5 (u_write_be16 (word_of_int (lda_id (la_attr attr))) @ secret @ rvb)) (u_write_be16 (of_nat (length raw)) @ raw @ pad) c"
proof -
  let ?first = "md5 (u_write_be16 (word_of_int (lda_id (la_attr attr))) @ secret @ rvb)"
  from assms(2-) obtain pad oct where o: "secret \<noteq> []" "encode_cipher md5 secret ?first (u_write_be16 (of_nat (length raw)) @ raw @ pad) = Ok oct"
      "a = attr\<lparr>la_length := length (u_write_be16 (of_nat (length raw)) @ raw @ pad), la_val := VOctets oct\<rparr>"
    by (auto simp: encode_attr_def Let_def bind_parse_Ok_iff split: if_splits prod.splits option.splits)
  from encode_cipher_spec [OF assms(1), of ?first secret "u_write_be16 (of_nat (length raw)) @ raw @ pad"] assms(1) o(2)
  have c: "ciphered md5 secret ?first (u_write_be16 (of_nat (length raw)) @ raw @ pad) oct" by auto
  then have "length oct = length (u_write_be16 (of_nat (length raw)) @ raw @ pad)" by (simp add: ciphered_def)
  then show ?thesis using that [of oct pad] o(1,3) c by simp
qed

lemma sent_hidden:
  assumes "dict_ok (lc_dict cf)" "md5_sized (lc_md5 cf)" "agrees cf attr" "la_H attr" "carries (lda_type (la_attr attr)) raw v n" "length raw < 2 ^ 16"
    and e: "encode_attr (lc_md5 cf) pack attr raw rnd = (Ok a, rnd')" "p_secret pack = Some secret" "p_last_RV pack = Some rv"
    and rv: "la_val rv = VOctets rvb" "la_length rv = length rvb"
  shows "sent_as cf (Some secret) (Some rv) a (plain attr n v)"
proof -
  from encode_attr_ciphered [OF assms(2) e rv assms(6)] obtain c pad where c: "a = attr\<lparr>la_length := length c, la_val := VOctets c\<rparr>" "secret \<noteq> []" "0 < length c"
    "ciphered (lc_md5 cf) secret (lc_md5 cf (u_write_be16 (word_of_int (lda_id (la_attr attr))) @ secret @ rvb)) (u_write_be16 (of_nat (length raw)) @ raw @ pad) c"
    by blast
  have ag: "agrees cf a" "la_H a" "la_attr a = la_attr attr" "la_M a = la_M attr" using assms(3,4) c(1) by (simp_all add: agrees_def)
  have w: "write_value a = Ok c" using c(1,3) ag(2) by (simp add: write_value_def)
  from decode_avp_ciphered [OF assms(2) rv c(4) refl refl assms(6)] obtain r where
    r: "decode_avp (lc_md5 cf) (word_of_int (lda_id (la_attr attr))) rv secret c = Ok (r, length raw)" "take (length raw) (drop 2 r) = raw" by blast
  have n: "length raw = n" by (rule carries_length [OF assms(5)])
  have "length raw \<le> length (drop 2 r)" using r(2) by (metis length_take min.cobounded1)
  then have "read_value (lda_type (la_attr attr)) n (drop 2 r) = Ok v" using r(2) n by (intro read_carried [OF assms(5)]) simp_all
  then show ?thesis unfolding sent_as_def recv_avp_agrees [OF assms(1) ag(1)]
    using w c(1,2) ag r(1) n by (simp add: plain_def)
qed

section \<open>Packets that are built\<close>

definition built :: "l2tp_conf \<Rightarrow> l2tp_packet \<Rightarrow> l2tp_attr list \<Rightarrow> bool" where
  "built cf pack as \<longleftrightarrow> sends cf (p_secret pack) None (p_attrs pack) as \<and> p_last_RV pack = last_RV None as \<and>
     (\<forall>rv. p_last_RV pack = Some rv \<longrightarrow> (\<exists>b. la_val rv = VOctets b \<and> la_length rv = length b))"

lemma built_add:
  "built cf pack as \<Longrightarrow> sent_as cf (p_secret pack) (p_last_RV pack) a a' \<Longrightarrow> lda_id (la_attr a') \<noteq> Random_Vector \<Longrightarrow>
   built cf (pack\<lparr>p_attrs := p_attrs pack @ [a]\<rparr>) (as @ [a'])"
  unfolding built_def using sends_append [of cf "p_secret pack" None "p_attrs pack" as a a'] by (auto simp: last_RV_def next_RV_def)

definition same_env :: "l2tp_packet \<Rightarrow> l2tp_packet \<Rightarrow> bool" where
  "same_env p q \<longleftrightarrow> p_secret p = p_secret q \<and> p_hide p = p_hide q \<and> p_hdr p = p_hdr q"

lemma add_random_vector_built:
  assumes "dict_ok (lc_dict cf)" "built cf pack as" "l2tp_packet_add_random_vector (lc_dict cf) pack rnd = ((pack', False), rnd')"
  shows "\<exists>rv. built cf pack' (as @ [rv]) \<and> lda_id (la_attr rv) = Random_Vector \<and> p_last_RV pack' = Some rv \<and> same_env pack pack'"
proof -
  from assms(3) obtain attr b v r1 r2 where o: "attr_alloc (lc_dict cf) Random_Vector True False = Some attr" "u_randbuf (rand_len b) r1 = (Some v, r2)"
      "pack' = pack\<lparr>p_attrs := p_attrs pack @ [attr\<lparr>la_length := rand_len b, la_val := VOctets v\<rparr>],
         p_last_RV := Some (attr\<lparr>la_length := rand_len b, la_val := VOctets v\<rparr>)\<rparr>"
    by (auto simp: l2tp_packet_add_random_vector_def Let_def split: option.splits prod.splits)
  have "length v = rand_len b" using o(2) by (cases "(rand_len b, r1)" rule: u_randbuf.cases) auto
  note a = o(1) o(3) [folded this]
  let ?rv = "attr\<lparr>la_length := length v, la_val := VOctets v\<rparr>"
  note ag = attr_alloc_agrees [OF assms(1) a(1)]
  have f: "l2tp_dict_find_attr_by_id (lc_dict cf) Random_Vector = Some (la_attr attr)" using ag(1,2) by (simp add: agrees_def)
  have "la_H attr = la_H (the (attr_alloc (lc_dict cf) Random_Vector True False))" using a(1) by simp
  also have "\<dots> = (lda_H (la_attr attr) \<noteq> -1 \<and> lda_H (la_attr attr) \<noteq> 0)" by (simp add: attr_alloc_def f)
  finally have t: "lda_type (la_attr attr) = L2TP_OCTETS" "\<not> la_H attr" using find_in_dict [OF assms(1) f] by auto
  have "sent_as cf (p_secret pack) (p_last_RV pack) ?rv ?rv"
    by (rule sent_plain [OF assms(1), of _ v]) (use ag(1) t in \<open>simp_all add: agrees_def carries_def\<close>)
  then have "sends cf (p_secret pack) None (p_attrs pack @ [?rv]) (as @ [?rv])" using assms(2) by (intro sends_append) (auto simp: built_def)
  then show ?thesis using a(2) ag(2) by (auto simp: built_def same_env_def last_RV_def next_RV_def intro!: exI [of _ ?rv])
qed

lemma add_attr_built:
  assumes cf: "dict_ok (lc_dict cf)" "md5_sized (lc_md5 cf)"
    and b: "built cf pack as" "agrees cf attr" "lda_id (la_attr attr) \<noteq> Random_Vector" "carries (lda_type (la_attr attr)) raw v n" "length raw < 2 ^ 16"
    and e: "add_attr cf pack attr raw v n rnd = ((pack', False), rnd')"
  shows "\<exists>rvs. built cf pack' (as @ rvs @ [plain attr n v]) \<and> (\<forall>r \<in> set rvs. lda_id (la_attr r) = Random_Vector) \<and> same_env pack pack'"
proof (cases "la_H attr")
  case False
  let ?a = "attr\<lparr>la_length := n, la_val := v\<rparr>"
  have p: "?a = plain attr n v" using False by (simp add: plain_def)
  have "sent_as cf (p_secret pack) (p_last_RV pack) ?a ?a"
    by (rule sent_plain [OF cf(1), of _ raw]) (use b False in \<open>simp_all add: agrees_def\<close>)
  then have "built cf (pack\<lparr>p_attrs := p_attrs pack @ [?a]\<rparr>) (as @ [?a])" using b by (intro built_add) simp_all
  then show ?thesis using e False p by (auto simp: add_attr_def same_env_def intro!: exI [of _ "[]"])
next
  case True
  obtain pk rnd1 rvs where pk: "built cf pk (as @ rvs)" "\<forall>r \<in> set rvs. lda_id (la_attr r) = Random_Vector" "same_env pack pk" "p_last_RV pk \<noteq> None"
    "(if p_last_RV pack = None then l2tp_packet_add_random_vector (lc_dict cf) pack rnd else ((pack, False), rnd)) = ((pk, False), rnd1)"
  proof (cases "p_last_RV pack = None")
    case n: True
    then obtain pk rnd1 where pk: "l2tp_packet_add_random_vector (lc_dict cf) pack rnd = ((pk, False), rnd1)"
      using e True by (auto simp: add_attr_def split: prod.splits bool.splits)
    from add_random_vector_built [OF cf(1) b(1) this] obtain rv where "built cf pk (as @ [rv])" "lda_id (la_attr rv) = Random_Vector" "p_last_RV pk = Some rv" "same_env pack pk"
      by blast
    then show ?thesis using that [of pk "[rv]" rnd1] n pk by auto
  next
    case False
    then show ?thesis using that [of pack "[]" rnd] b(1) by (auto simp: same_env_def)
  qed
  from e True pk(5) obtain a where a: "encode_attr (lc_md5 cf) pk attr raw rnd1 = (Ok a, rnd')" "pack' = pk\<lparr>p_attrs := p_attrs pk @ [a]\<rparr>"
    by (auto simp: add_attr_def split: prod.splits parse.splits)
  obtain rv where rv: "p_last_RV pk = Some rv" using pk(4) by auto
  obtain bs where bs: "la_val rv = VOctets bs" "la_length rv = length bs" using pk(1) rv by (auto simp: built_def)
  obtain secret where sec: "p_secret pk = Some secret" using a(1) rv by (auto simp: encode_attr_def split: option.splits)
  have "sent_as cf (p_secret pk) (p_last_RV pk) a (plain attr n v)"
    unfolding sec rv by (rule sent_hidden [OF cf b(2) True b(4,5) a(1) sec rv bs])
  then have "built cf pack' ((as @ rvs) @ [plain attr n v])" unfolding a(2) using b(3) by (intro built_add [OF pk(1)]) (simp_all add: plain_def)
  then show ?thesis using pk(2,3) a(2) by (auto simp: same_env_def)
qed

section \<open>Whole packets\<close>

fun req_id :: "avp_req \<Rightarrow> int" where
  "req_id (Req16 i _ _) = i" | "req_id (Req32 i _ _) = i" | "req_id (Req64 i _ _) = i" | "req_id (ReqString i _ _) = i" | "req_id (ReqOctets i _ _) = i"

fun req_M :: "avp_req \<Rightarrow> bool" where
  "req_M (Req16 _ _ M) = M" | "req_M (Req32 _ _ M) = M" | "req_M (Req64 _ _ M) = M" | "req_M (ReqString _ _ M) = M" | "req_M (ReqOctets _ _ M) = M"

fun req_val :: "avp_req \<Rightarrow> l2tp_value" where
  "req_val (Req16 _ x _) = V16 x" | "req_val (Req32 _ x _) = V32 x" | "req_val (Req64 _ x _) = V64 x"
| "req_val (ReqString _ x _) = VOctets x" | "req_val (ReqOctets _ x _) = VOctets x"

fun req_raw :: "avp_req \<Rightarrow> bytes" where
  "req_raw (Req16 _ x _) = u_write_be16 x" | "req_raw (Req32 _ x _) = u_write_be32 x" | "req_raw (Req64 _ x _) = u_write_be64 x"
| "req_raw (ReqString _ x _) = x" | "req_raw (ReqOctets _ x _) = x"

text \<open>An attribute that the dictionary knows with the type it is added as.\<close>

definition req_ok :: "l2tp_dict \<Rightarrow> avp_req \<Rightarrow> bool" where
  "req_ok dict r \<longleftrightarrow> req_id r \<noteq> Random_Vector \<and> length (req_raw r) < 2 ^ 16 \<and>
     (\<forall>da. l2tp_dict_find_attr_by_id dict (req_id r) = Some da \<longrightarrow> carries (lda_type da) (req_raw r) (req_val r) (length (req_raw r)))"

text \<open>The attribute as the receiver is meant to see it.\<close>

definition req_attr :: "l2tp_dict \<Rightarrow> avp_req \<Rightarrow> l2tp_attr" where
  "req_attr dict r =
     (let da = the (l2tp_dict_find_attr_by_id dict (req_id r))
      in \<lparr>la_attr = da, la_M = (if lda_M da \<noteq> -1 then lda_M da \<noteq> 0 else req_M r), la_H = False,
          la_length = length (req_raw r), la_val = req_val r\<rparr>)"

lemma add_req_attr:
  assumes "add_req cf pack r rnd = ((pack', False), rnd')"
  obtains attr where "attr_alloc (lc_dict cf) (req_id r) (req_M r) (p_hide pack) = Some attr"
    "add_attr cf pack attr (req_raw r) (req_val r) (length (req_raw r)) rnd = ((pack', False), rnd')"
  using assms that
  by (cases r) (auto simp: l2tp_packet_add_int16_def l2tp_packet_add_int32_def l2tp_packet_add_int64_def l2tp_packet_add_string_def
      l2tp_packet_add_octets_def split: option.splits if_splits)

abbreviation not_rv :: "l2tp_attr \<Rightarrow> bool" where
  "not_rv a \<equiv> lda_id (la_attr a) \<noteq> Random_Vector"

lemma add_req_built:
  assumes "dict_ok (lc_dict cf)" "md5_sized (lc_md5 cf)" "built cf pack as" "req_ok (lc_dict cf) r" "add_req cf pack r rnd = ((pack', False), rnd')"
  shows "\<exists>bs. built cf pack' (as @ bs) \<and> filter not_rv bs = [req_attr (lc_dict cf) r] \<and> same_env pack pack'"
proof -
  from add_req_attr [OF assms(5)] obtain attr where a: "attr_alloc (lc_dict cf) (req_id r) (req_M r) (p_hide pack) = Some attr"
    "add_attr cf pack attr (req_raw r) (req_val r) (length (req_raw r)) rnd = ((pack', False), rnd')" by blast
  note ag = attr_alloc_agrees [OF assms(1) a(1)]
  have f: "l2tp_dict_find_attr_by_id (lc_dict cf) (req_id r) = Some (la_attr attr)" using ag(1,2) by (simp add: agrees_def)
  have "plain attr (length (req_raw r)) (req_val r) = plain (the (attr_alloc (lc_dict cf) (req_id r) (req_M r) (p_hide pack))) (length (req_raw r)) (req_val r)"
    using a(1) by simp
  also have "\<dots> = req_attr (lc_dict cf) r" by (simp add: attr_alloc_def f plain_def req_attr_def Let_def)
  finally have p: "plain attr (length (req_raw r)) (req_val r) = req_attr (lc_dict cf) r" .
  have id: "lda_id (la_attr attr) \<noteq> Random_Vector" "carries (lda_type (la_attr attr)) (req_raw r) (req_val r) (length (req_raw r))" "length (req_raw r) < 2 ^ 16"
    using assms(4) ag(2) f by (simp_all add: req_ok_def)
  from add_attr_built [OF assms(1-3) ag(1) id a(2)] obtain rvs where
    "built cf pack' (as @ rvs @ [plain attr (length (req_raw r)) (req_val r)])" "\<forall>r \<in> set rvs. lda_id (la_attr r) = Random_Vector" "same_env pack pack'" by blast
  then show ?thesis using id(1) unfolding p [symmetric] by (intro exI [of _ "rvs @ [plain attr (length (req_raw r)) (req_val r)]"]) (auto simp: plain_def filter_empty_conv)
qed

lemma add_reqs_built:
  assumes "dict_ok (lc_dict cf)" "md5_sized (lc_md5 cf)" "built cf pack as" "\<forall>r \<in> set rs. req_ok (lc_dict cf) r" "add_reqs cf pack rs rnd = ((pack', False), rnd')"
  shows "\<exists>bs. built cf pack' (as @ bs) \<and> filter not_rv bs = map (req_attr (lc_dict cf)) rs \<and> same_env pack pack'"
  using assms(3-)
proof (induction rs arbitrary: pack as rnd)
  case Nil
  then show ?case by (auto simp: same_env_def intro!: exI [of _ "[]"])
next
  case (Cons r rs)
  from Cons.prems(3) obtain pk rnd1 where pk: "add_req cf pack r rnd = ((pk, False), rnd1)" "add_reqs cf pk rs rnd1 = ((pack', False), rnd')"
    by (auto split: prod.splits bool.splits)
  from add_req_built [OF assms(1,2) Cons.prems(1) _ pk(1)] Cons.prems(2) obtain bs where
    bs: "built cf pk (as @ bs)" "filter not_rv bs = [req_attr (lc_dict cf) r]" "same_env pack pk" by auto
  from Cons.IH [OF bs(1) _ pk(2)] Cons.prems(2) obtain cs where
    "built cf pack' ((as @ bs) @ cs)" "filter not_rv cs = map (req_attr (lc_dict cf)) rs" "same_env pk pack'" by auto
  then show ?case using bs by (intro exI [of _ "bs @ cs"]) (auto simp: same_env_def)
qed

lemma write_value_length: "write_value a = Ok val \<Longrightarrow> length val = la_length a"
  by (auto simp: write_value_def bind_parse_Ok_iff dest: read_bytes_length split: if_splits l2tp_type.splits l2tp_value.splits)

lemma send_avps_bound: "send_avps as len = Ok body \<Longrightarrow> len < L2TP_MAX_PACKET_SIZE \<Longrightarrow> len + length body < L2TP_MAX_PACKET_SIZE"
  by (induction as arbitrary: len body) (force simp: bind_parse_Ok_iff dest: write_value_length split: if_splits)+

lemma recv_built:
  assumes "built cf pack as" "ver \<in> {2, 3}"
    "p_hdr pack = \<lparr>hdr_flags = L2TP_FLAG_T OR L2TP_FLAG_L OR L2TP_FLAG_S OR (ver AND L2TP_VER_MASK), hdr_length = l, hdr_tid = t, hdr_sid = s, hdr_Ns = ns, hdr_Nr = nr\<rparr>"
    "l2tp_packet_send pack = Ok dgram"
  shows "\<exists>p. l2tp_recv cf (p_secret pack) port dgram = Ok p \<and> p_attrs p = as \<and>
    hdr_tid (p_hdr p) = t \<and> hdr_sid (p_hdr p) = s \<and> hdr_Ns (p_hdr p) = ns \<and> hdr_Nr (p_hdr p) = nr"
proof -
  let ?f = "L2TP_FLAG_T OR L2TP_FLAG_L OR L2TP_FLAG_S OR (ver AND L2TP_VER_MASK)"
  from assms(3,4) obtain body where body: "send_avps (p_attrs pack) 12 = Ok body"
      "dgram = u_write_be16 ?f @ u_write_be16 (of_nat (12 + length body)) @ u_write_be16 t @ u_write_be16 s @ u_write_be16 ns @ u_write_be16 nr @ body"
    by (auto simp: l2tp_packet_send_def bind_parse_Ok_iff Let_def)
  have "12 + length body < L2TP_MAX_PACKET_SIZE" using send_avps_bound [OF body(1)] by simp
  then have len: "unat (of_nat (12 + length body) :: u16) = 12 + length body" by (intro unat_of_nat_eq) simp
  have f: "?f AND L2TP_FLAG_T \<noteq> 0" "?f AND L2TP_FLAG_L \<noteq> 0" "?f AND L2TP_FLAG_S \<noteq> 0" "?f AND L2TP_VER_MASK = ver" "?f AND L2TP_FLAG_O = 0"
    using assms(2) by auto
  have rd: "u_read_be16 dgram = ?f" "u_read_be16 (drop 2 dgram) = of_nat (12 + length body)" "u_read_be16 (drop 4 dgram) = t"
    "u_read_be16 (drop 6 dgram) = s" "u_read_be16 (drop 8 dgram) = ns" "u_read_be16 (drop 10 dgram) = nr" "drop 12 dgram = body" "length dgram = 12 + length body"
    unfolding body(2) by simp_all
  have "recv_avps cf (p_secret pack) None body (length body) = Ok as"
    using recv_sent_avps [OF body(1), of cf "p_secret pack" None as "[]"] assms(1) by (simp add: built_def)
  then show ?thesis unfolding l2tp_recv_def rd len Let_def using f assms(2) by auto
qed

end
