(* ===== verification/L2tpLink.thy ===== *)
theory L2tpLink
  imports L2tpOrder L2tpRoundtrip
begin

text \<open>
  Two tunnel ends of \<^verbatim>\<open>ctrl/l2tp/l2tp.c\<close> that talk to each other over a network which loses, repeats and reorders datagrams. The specification is a pair of
  FIFO queues; every step of the two ends is a sequence of steps of the queues.
\<close>

section \<open>Events of one end\<close>

text \<open>Handlers that respect the channel: the contract of everything the context of a tunnel runs besides its read handler.\<close>

locale channel_handler =
  fixes handler :: "l2tp_world \<Rightarrow> l2tp_world"
  assumes respects: "chan_ok w \<Longrightarrow> \<not> closed w \<Longrightarrow> chan_frame w (handler w)"
begin

lemma keeps_tunnel: "tunnel_ok cf cm w \<Longrightarrow> \<not> closed w \<Longrightarrow> tunnel_ok cf cm (handler w)"
  by (rule tunnel_ok_frame [OF respects]) (simp_all add: recv_ok_def)

lemma keeps_delivered: "chan_ok w \<Longrightarrow> \<not> closed w \<Longrightarrow> delivered (handler w) = delivered w"
  using respects by (simp add: chan_frame_def)

lemma keeps_committed: "chan_ok w \<Longrightarrow> \<not> closed w \<Longrightarrow> prefix (committed w) (committed (handler w))"
  using respects by (simp add: chan_frame_def)

lemma keeps_window: "chan_ok w \<Longrightarrow> \<not> closed w \<Longrightarrow> tx (handler w) \<le> acked w + 32767"
  using respects by (simp add: chan_frame_def)

end

lemma rel_handler: "(\<And>w. chan_rel w (f w)) \<Longrightarrow> channel_handler f"
  by unfold_locales (simp add: chan_rel_def)

lemma not_call_state: "chan_ok w \<Longrightarrow> \<not> call_state w"
  by (simp add: chan_ok_def base_ok_def)

lemma start_rel: "chan_rel w (w\<lparr>start := x\<rparr>)"
  by (simp add: core_rel)

definition run_SCCRQ :: "l2tp_env \<Rightarrow> l2tp_world \<Rightarrow> l2tp_world" where
  "run_SCCRQ e w = l2tp_send_SCCRQ e (w\<lparr>start := None\<rparr>)"

definition run_SCCRP :: "l2tp_env \<Rightarrow> l2tp_world \<Rightarrow> l2tp_world" where
  "run_SCCRP e w = l2tp_send_SCCRP e (w\<lparr>start := None\<rparr>)"

interpretation sccrq: channel_handler "run_SCCRQ e" for e
proof
  fix w assume "chan_ok w" "\<not> closed w"
  then show "chan_frame w (run_SCCRQ e w)"
    using crel_send_SCCRQ [OF start_rel [of w None], of e] not_call_state
    by (simp add: chan_rel_def run_SCCRQ_def closed_def call_state_def)
qed

interpretation sccrp: channel_handler "run_SCCRP e" for e
proof
  fix w assume "chan_ok w" "\<not> closed w"
  then show "chan_frame w (run_SCCRP e w)"
    using crel_send_SCCRP [OF start_rel [of w None], of e] not_call_state
    by (simp add: chan_rel_def run_SCCRP_def closed_def call_state_def)
qed

interpretation hello: channel_handler "l2tp_send_HELLO e" for e
  by (intro rel_handler crel)

interpretation set_up_timer: channel_handler "l2tp_tunnel_timeout e" for e
  by (intro rel_handler crel)

interpretation finwait_timer: channel_handler l2tp_tunnel_finwait_timeout
  by (intro rel_handler crel)

interpretation rtms_timer: channel_handler "l2tp_rtimeout e" for e
  using rtimeout_rel by unfold_locales (simp add: chan_rel_def)

interpretation session_timer: channel_handler "l2tp_session_timeout e sid" for e sid
  by (intro rel_handler crel)

interpretation new_session: channel_handler "l2tp_tunnel_create_session e" for e
  by (intro rel_handler crel)

interpretation data_end: channel_handler "l2tp_session_apses_finished e sid" for e sid
  by (intro rel_handler crel)

interpretation data_destroy: channel_handler "apses_destroy sid" for sid
  by (intro rel_handler crel)

interpretation close: channel_handler "l2tp_conn_close e" for e
  by (intro rel_handler crel)

text \<open>What the context of a tunnel runs on its own; nothing runs any more once \<^verbatim>\<open>l2tp_tunnel_free\<close> has unregistered the context.\<close>

inductive local_event :: "l2tp_env \<Rightarrow> l2tp_world \<Rightarrow> l2tp_world \<Rightarrow> bool" for e w where
  sccrq: "start w = Some Call_SCCRQ \<Longrightarrow> local_event e w (run_SCCRQ e w)"
| sccrp: "start w = Some Call_SCCRP \<Longrightarrow> local_event e w (run_SCCRP e w)"
| hello: "c_hello_timer (conn w) \<Longrightarrow> local_event e w (l2tp_send_HELLO e w)"
| timeout: "c_timeout_timer (conn w) \<Longrightarrow> \<not> c_finwait (conn w) \<Longrightarrow> local_event e w (l2tp_tunnel_timeout e w)"
| finwait: "c_timeout_timer (conn w) \<Longrightarrow> c_finwait (conn w) \<Longrightarrow> local_event e w (l2tp_tunnel_finwait_timeout w)"
| rtimeout: "c_rtimeout_timer (conn w) \<Longrightarrow> local_event e w (l2tp_rtimeout e w)"
| session_timeout: "get_sess w sid = Some s \<Longrightarrow> s_timer s \<Longrightarrow> local_event e w (l2tp_session_timeout e sid w)"
| create_session: "local_event e w (l2tp_tunnel_create_session e w)"
| apses_finished: "local_event e w (l2tp_session_apses_finished e sid w)"
| apses_destroy: "get_sess w sid = Some s \<Longrightarrow> s_apses s \<Longrightarrow> local_event e w (apses_destroy sid w)"
| conn_close: "local_event e w (l2tp_conn_close e w)"

lemma local_event_frame:
  assumes "local_event e w w'" "chan_ok w" "\<not> closed w"
  shows "chan_frame w w'"
  using assms
  by cases (simp_all add: sccrq.respects sccrp.respects hello.respects set_up_timer.respects finwait_timer.respects rtms_timer.respects
      session_timer.respects new_session.respects data_end.respects data_destroy.respects close.respects)

section \<open>The network\<close>

text \<open>
  A datagram of the packets \<open>ps\<close> that reaches \<open>w\<close>: it was sent, it is not delayed by more than 32767 messages, and it does not announce a receive window
  above 32767.
\<close>

definition datagram :: "l2tp_conf \<Rightarrow> l2tp_packet list \<Rightarrow> l2tp_world \<Rightarrow> u16 \<times> bytes \<Rightarrow> bool" where
  "datagram cf ps w d \<longleftrightarrow> (\<exists>p \<in> set ps. l2tp_packet_send p = Ok (snd d) \<and> timely w p) \<and>
     (\<forall>q. l2tp_recv cf (c_secret (conn w)) (fst d) (snd d) = Ok q \<longrightarrow> small_window q)"

definition peer_sent :: "l2tp_world option \<Rightarrow> l2tp_packet list" where
  "peer_sent b = (case b of None \<Rightarrow> [] | Some b \<Rightarrow> sent b)"

definition conf_ok :: "l2tp_conf \<Rightarrow> l2tp_env \<Rightarrow> bool" where
  "conf_ok cf e \<longleftrightarrow> e_cf e = cf \<and> 0 < e_recv_window e \<and> e_recv_window e \<le> 32768"

text \<open>The end \<open>a\<close> starts the tunnel, \<open>b\<close> comes into being when the first message of \<open>a\<close> reaches the server socket.\<close>

inductive link_step :: "l2tp_conf \<Rightarrow> l2tp_world \<times> l2tp_world option \<Rightarrow> l2tp_world \<times> l2tp_world option \<Rightarrow> bool" for cf where
  local_a: "\<not> closed a \<Longrightarrow> conf_ok cf e \<Longrightarrow> local_event e a a' \<Longrightarrow> link_step cf (a, b) (a', b)"
| local_b: "\<not> closed b \<Longrightarrow> conf_ok cf e \<Longrightarrow> local_event e b b' \<Longrightarrow> link_step cf (a, Some b) (a, Some b')"
| read_a: "\<not> closed a \<Longrightarrow> conf_ok cf e \<Longrightarrow> \<forall>d \<in> set ds. datagram cf (peer_sent b) a d \<Longrightarrow> link_step cf (a, b) (l2tp_conn_read e refused ds a, b)"
| read_b: "\<not> closed b \<Longrightarrow> conf_ok cf e \<Longrightarrow> \<forall>d \<in> set ds. datagram cf (sent a) b d \<Longrightarrow>
    link_step cf (a, Some b) (a, Some (l2tp_conn_read e refused ds b))"
| accept: "conf_ok cf e \<Longrightarrow> p \<in> set (sent a) \<Longrightarrow> p_seq p = 0 \<Longrightarrow> l2tp_packet_send p = Ok buf \<Longrightarrow>
    (\<And>q. l2tp_recv cf (e_conf_secret e) port buf = Ok q \<Longrightarrow> small_window q) \<Longrightarrow>
    l2tp_udp_read1 e permitted port buf st r = Ok (Some (b, True), r') \<Longrightarrow> link_step cf (a, None) (a, Some b)"
| data_a: "0 < lingering a \<Longrightarrow> link_step cf (a, b) (apses_destroy_freed a, b)"
| data_b: "0 < lingering b \<Longrightarrow> link_step cf (a, Some b) (a, Some (apses_destroy_freed b))"

inductive link_reach :: "l2tp_conf \<Rightarrow> l2tp_world \<times> l2tp_world option \<Rightarrow> bool" for cf where
  created: "conf_ok cf e \<Longrightarrow> create_tunnel e port lns hide secret st r = (Some (a, True), r') \<Longrightarrow> link_reach cf (a, None)"
| step: "link_reach cf s \<Longrightarrow> link_step cf s s' \<Longrightarrow> link_reach cf s'"

section \<open>Datagrams\<close>

lemma recv_fields:
  assumes "l2tp_recv cf secret port buf = Ok q"
  shows "hdr_Ns (p_hdr q) = u_read_be16 (drop 8 buf)" "hdr_Nr (p_hdr q) = u_read_be16 (drop 10 buf)"
    "recv_avps cf secret None (drop 12 buf) (unat (u_read_be16 (drop 2 buf)) - 12) = Ok (p_attrs q)"
  using assms by (auto simp: l2tp_recv_def Let_def bind_parse_Ok_iff split: if_splits)

lemma send_header:
  assumes "l2tp_packet_send p = Ok buf" "l2tp_recv cf secret port buf = Ok q"
  shows "hdr_Ns (p_hdr q) = hdr_Ns (p_hdr p)" "hdr_Nr (p_hdr q) = hdr_Nr (p_hdr p)" "p_attrs p = [] \<Longrightarrow> p_attrs q = []"
proof -
  obtain body where b: "send_avps (p_attrs p) 12 = Ok body"
    and buf: "buf = u_write_be16 (hdr_flags (p_hdr p)) @ u_write_be16 (of_nat (12 + length body)) @ u_write_be16 (hdr_tid (p_hdr p)) @
       u_write_be16 (hdr_sid (p_hdr p)) @ u_write_be16 (hdr_Ns (p_hdr p)) @ u_write_be16 (hdr_Nr (p_hdr p)) @ body"
    using assms(1) by (auto simp: l2tp_packet_send_def Let_def bind_parse_Ok_iff)
  have rd: "u_read_be16 (drop 2 buf) = of_nat (12 + length body)" "u_read_be16 (drop 8 buf) = hdr_Ns (p_hdr p)"
    "u_read_be16 (drop 10 buf) = hdr_Nr (p_hdr p)"
    unfolding buf by simp_all
  then show "hdr_Ns (p_hdr q) = hdr_Ns (p_hdr p)" "hdr_Nr (p_hdr q) = hdr_Nr (p_hdr p)"
    using recv_fields [OF assms(2)] by simp_all
  show "p_attrs p = [] \<Longrightarrow> p_attrs q = []"
    using recv_fields(3) [OF assms(2)] rd(1) b by (simp add: recv_avps.simps)
qed

text \<open>A datagram depends on the attributes and the header only, and the parts of these that a retransmission keeps are those that \<open>strip\<close> keeps.\<close>

lemma send_strip:
  assumes "strip p = strip p'"
  shows "l2tp_packet_send (p'\<lparr>p_hdr := (p_hdr p')\<lparr>hdr_Nr := hdr_Nr (p_hdr p)\<rparr>\<rparr>) = l2tp_packet_send p"
proof -
  have "p_attrs (strip p) = p_attrs p" "hdr_flags (p_hdr (strip p)) = hdr_flags (p_hdr p)" "hdr_tid (p_hdr (strip p)) = hdr_tid (p_hdr p)"
    "hdr_sid (p_hdr (strip p)) = hdr_sid (p_hdr p)" "hdr_Ns (p_hdr (strip p)) = hdr_Ns (p_hdr p)" for p
    by (simp_all add: strip_def)
  then have "p_attrs p = p_attrs p'" "hdr_flags (p_hdr p) = hdr_flags (p_hdr p')" "hdr_tid (p_hdr p) = hdr_tid (p_hdr p')"
    "hdr_sid (p_hdr p) = hdr_sid (p_hdr p')" "hdr_Ns (p_hdr p) = hdr_Ns (p_hdr p')"
    using assms by metis+
  then show ?thesis
    by (simp add: l2tp_packet_send_def)
qed

lemma sent_carried:
  assumes "sent_ok src p" "l2tp_packet_send p = Ok buf" "l2tp_recv cf secret port buf = Ok q" "p_attrs q \<noteq> []"
  shows "p_seq p < tx src" "carried cf secret (committed src ! p_seq p) q"
proof -
  have p: "p_seq p < tx src" "strip p = strip (committed src ! p_seq p)"
    using assms(1,4) send_header(3) [OF assms(2,3)] by (auto simp: sent_ok_def)
  then show "p_seq p < tx src"
    by simp
  show "carried cf secret (committed src ! p_seq p) q"
    unfolding carried_def using send_strip [OF p(2)] assms(2,3) by auto
qed

section \<open>Invariant of the link\<close>

text \<open>One direction: \<open>dst\<close> has handled messages of \<open>src\<close> in order, and \<open>src\<close> knows of no more and is at most 32767 messages ahead.\<close>

definition dir_ok :: "l2tp_conf \<Rightarrow> l2tp_world \<Rightarrow> l2tp_world \<Rightarrow> bool" where
  "dir_ok cf src dst \<longleftrightarrow> tunnel_ok cf (committed src) dst \<and> (\<not> closed src \<longrightarrow> acked src \<le> rx dst) \<and> tx src \<le> rx dst + 32767"

lemma datagram_arrives:
  assumes "dir_ok cf src dst" "dir_ok cf dst src" "datagram cf (sent src) dst d"
  shows "arrives cf (committed src) (rx src) dst d"
proof (unfold arrives_def, intro allI impI)
  fix q assume q: "l2tp_recv cf (c_secret (conn dst)) (fst d) (snd d) = Ok q"
  obtain p where p: "p \<in> set (sent src)" "l2tp_packet_send p = Ok (snd d)" "timely dst p" "small_window q"
    using assms(3) q by (auto simp: datagram_def)
  have ok: "sent_ok src p"
    using assms(2) p(1) by (intro sent_ok_frame) (auto simp: dir_ok_def recv_ok_def)
  have b: "rx src \<le> tx dst" "tx src \<le> rx dst + 32767"
    using assms(1,2) by (auto simp: dir_ok_def recv_ok_def in_order_def tx_def)
  have "good_msg cf (committed src) (c_secret (conn dst)) (p_seq p) q" if "p_attrs q \<noteq> []"
    using sent_carried [OF ok p(2) q that] p(4) that by (simp add: good_msg_def tx_def)
  then have "from_peer cf (committed src) (rx src) dst p q"
    using send_header [OF p(2) q] ok b p(3) by (auto simp: from_peer_def sent_ok_def)
  then show "\<exists>p. from_peer cf (committed src) (rx src) dst p q"
    by blast
qed

text \<open>More messages of the peer do not disturb what was received.\<close>

lemma good_msg_mono: "good_msg cf cm s n q \<Longrightarrow> prefix cm cm' \<Longrightarrow> good_msg cf cm' s n q"
  by (auto simp: good_msg_def prefix_def nth_append)

lemma tunnel_ok_mono:
  assumes "tunnel_ok cf cm w" "prefix cm cm'"
  shows "tunnel_ok cf cm' w"
proof (rule tunnel_okI)
  show "chan_ok w" "ring_ok cf cm' w"
    using assms good_msg_mono by (auto simp: recv_ok_def ring_at_def)
  show "in_order cf cm' w"
    using assms by (auto simp: recv_ok_def in_order_def prefix_def)
qed

lemma dir_ok_src:
  assumes "dir_ok cf src dst" "chan_frame src src'"
  shows "dir_ok cf src' dst"
proof -
  have "tx src' \<le> rx dst + 32767"
    using assms by (cases "closed src") (auto simp: dir_ok_def chan_frame_def)
  then show ?thesis
    using assms tunnel_ok_mono by (auto simp: dir_ok_def chan_frame_def)
qed

lemma dir_ok_dst:
  assumes "dir_ok cf src dst" "chan_frame dst dst'"
  shows "dir_ok cf src dst'"
proof -
  have "rx dst' = rx dst"
    using assms(2) by (simp add: chan_frame_def rx_def)
  then show ?thesis
    using assms tunnel_ok_frame by (simp add: dir_ok_def)
qed

lemma dir_ok_read:
  assumes "dir_ok cf src dst" "dir_ok cf dst src" "\<not> closed dst" "conf_ok cf e" "\<forall>d \<in> set ds. datagram cf (sent src) dst d"
    and dst': "dst' = l2tp_conn_read e f ds dst"
  shows "dir_ok cf src dst'" "dir_ok cf dst' src" "prefix (committed dst) (committed dst')" "rx dst \<le> rx dst'"
proof -
  have arr: "\<forall>d \<in> set ds. arrives cf (committed src) (rx src) dst d"
    using datagram_arrives [OF assms(1,2)] assms(5) by blast
  have ok: "e_cf e = cf" "tunnel_ok cf (committed src) dst" "acked dst \<le> rx src" "tunnel_ok cf (committed dst) src"
    using assms by (simp_all add: dir_ok_def conf_ok_def)
  note r = conn_read_ok [OF ok(1) arr ok(2) assms(3) ok(3) dst']
  show le: "rx dst \<le> rx dst'" "prefix (committed dst) (committed dst')"
    using r(2,3) by (simp_all add: rx_def prefix_length_le)
  show "dir_ok cf src dst'"
    using r(1) le assms(1) by (auto simp: dir_ok_def)
  show "dir_ok cf dst' src"
    using r(6,7) tunnel_ok_mono [OF ok(4) r(3)] by (simp add: dir_ok_def)
qed

definition link_inv :: "l2tp_conf \<Rightarrow> l2tp_world \<times> l2tp_world option \<Rightarrow> bool" where
  "link_inv cf s = (case s of
     (a, None) \<Rightarrow> tunnel_ok cf [] a \<and> (\<not> closed a \<longrightarrow> acked a = 0) \<and> tx a \<le> 32767
   | (a, Some b) \<Rightarrow> dir_ok cf a b \<and> dir_ok cf b a)"

text \<open>A tunnel that has just been made.\<close>

lemma alloc_ok:
  assumes "l2tp_tunnel_alloc e port fc lns ps hide st r = (Some w, r')" "conf_ok cf e"
  shows "core w = ((0, 0, 0, 0, 4), ([], replicate (unat (e_recv_window e)) None, False, False, False, None), [], [], [])"
  using assms by (auto simp: l2tp_tunnel_alloc_def Let_def core_def closed_def call_state_def split: if_splits prod.splits option.splits)

lemma fresh_ok:
  assumes "core w = ((0, of_nat (length ms), 0, 0, n), ([], replicate (unat (e_recv_window e)) None, False, False, False, s), [], [], ms)"
    "conf_ok cf e" "n \<le> 32767" "length ms \<le> length cm" "list_all2 (carried cf s) (take (length ms) cm) ms"
  shows "tunnel_ok cf cm w" "\<not> closed w" "acked w = 0" "tx w = 0" "rx w = length ms"
proof -
  have sz: "0 < unat (e_recv_window e)" "unat (e_recv_window e) \<le> 32768"
    using assms(2) by (auto simp: conf_ok_def word_le_nat_alt word_less_nat_alt)
  show t: "\<not> closed w" "acked w = 0" "tx w = 0" "rx w = length ms"
    using assms(1) by (simp_all add: core_def acked_def tx_def rx_def)
  have "rtms_ok w" "ring_size_ok w"
    using assms(1) t sz by (simp_all add: core_def rtms_ok_def ring_size_ok_def)
  then have "chan_ok w"
    using assms t by (simp add: chan_ok_def base_ok_def core_def)
  moreover have "ring_ok cf cm w" "in_order cf cm w"
    using assms sz t by (auto simp: ring_at_def in_order_def core_def)
  ultimately show "tunnel_ok cf cm w"
    by (rule tunnel_okI)
qed

lemma start_core: "l2tp_tunnel_start e f w = (w', b) \<Longrightarrow> core w' = core w"
proof -
  have "steady v (fst (l2tp_tunnel_start e f w))" if "steady v w" for v
    using that unfolding l2tp_tunnel_start_def flat by (intro steady; simp add: core_def closed_def call_state_def steady_def)
  then show "l2tp_tunnel_start e f w = (w', b) \<Longrightarrow> core w' = core w"
    using steady_refl steady_simps(1) by (metis fst_conv)
qed

lemma create_ok:
  assumes "create_tunnel e port lns hide secret st r = (Some (a, True), r')" "conf_ok cf e"
  shows "link_inv cf (a, None)"
proof -
  obtain w r1 where w: "l2tp_tunnel_alloc e port 3 lns False hide st r = (Some w, r1)"
    using assms(1) by (auto simp: create_tunnel_def split: prod.splits option.splits)
  have "l2tp_tunnel_start e Call_SCCRQ (upd_c (\<lambda>c. c\<lparr>c_secret := secret\<rparr>) w) = (a, False)"
    using assms(1) w by (auto simp: create_tunnel_def split: prod.splits bool.splits)
  then have "core a = core (upd_c (\<lambda>c. c\<lparr>c_secret := secret\<rparr>) w)"
    by (rule start_core)
  then have "core a = ((0, of_nat (length []), 0, 0, 4), ([], replicate (unat (e_recv_window e)) None, False, False, False, secret), [], [], [])"
    using alloc_ok [OF w assms(2)] by (auto simp: core_def closed_def call_state_def)
  from fresh_ok [OF this assms(2), of "[]"] show ?thesis
    by (simp add: link_inv_def)
qed

lemma setup_core:
  assumes "setup_tunnel e (p_attrs pack) t w = (b, False)" "small_window pack"
    and w: "core w = ((0, 0, 0, 0, 4), (rt, rq, False, False, False, s), ps, cs, ms)"
  shows "\<exists>n \<le> 32767. core b = ((0, 1, 0, 0, n), (rt, rq, False, False, False, e_conf_secret e), ps, cs, ms)"
proof -
  define x where "x = (case last_attr Recv_Window_Size (p_attrs pack) of None \<Rightarrow> (w, False)
     | Some a \<Rightarrow> let sz = val_uint16 e (la_val a) in (upd_c (\<lambda>c. c\<lparr>c_peer_rcv_wnd_sz := sz\<rparr>) w, sz = 0 \<or> sz > 32768))"
  define u where "u = upd_c (\<lambda>c. c\<lparr>c_secret := e_conf_secret e\<rparr>) (fst x)"
  define v where "v = fst (l2tp_tunnel_storechall (last_attr Challenge (p_attrs pack)) u)"
  define y where "y = upd_c (\<lambda>c. c\<lparr>c_peer_tid := t, c_port_set := True, c_Nr := 1\<rparr>) v"
  have "\<not> snd x" "\<not> snd (l2tp_tunnel_storechall (last_attr Challenge (p_attrs pack)) u)" "b = fst (l2tp_tunnel_start e Call_SCCRP y)"
    using assms(1) unfolding setup_tunnel_def x_def [symmetric] u_def v_def y_def
    by (auto simp: Let_def case_prod_beta split: prod.splits bool.splits)
  then have b: "core b = core y"
    using start_core [of e Call_SCCRP y] by (metis prod.collapse)
  obtain n where n: "n \<le> 32767" "core u = ((0, 0, 0, 0, n), (rt, rq, False, False, False, e_conf_secret e), ps, cs, ms)"
  proof (cases "last_attr Recv_Window_Size (p_attrs pack)")
    case None
    then show ?thesis
      using that [of 4] w by (simp add: u_def x_def core_def closed_def call_state_def)
  next
    case (Some a)
    then show ?thesis
      using that [of "val_uint16 e (la_val a)"] w small_window_value [OF assms(2) Some, of e]
      by (simp add: u_def x_def core_def closed_def call_state_def Let_def)
  qed
  have "core v = core u"
    using steady_storechall [OF steady_refl] by (simp add: v_def steady_def)
  then have "core y = ((0, 1, 0, 0, n), (rt, rq, False, False, False, e_conf_secret e), ps, cs, ms)"
    using n(2) by (auto simp: y_def core_def closed_def call_state_def)
  then show ?thesis
    using b n(1) by auto
qed

lemma accept_ok:
  assumes "link_inv cf (a, None)" "conf_ok cf e" "p \<in> set (sent a)" "p_seq p = 0" "l2tp_packet_send p = Ok buf"
    and small: "\<And>q. l2tp_recv cf (e_conf_secret e) port buf = Ok q \<Longrightarrow> small_window q"
    and acc: "l2tp_udp_read1 e permitted port buf st r = Ok (Some (b, True), r')"
  shows "dir_ok cf a b" "dir_ok cf b a" "rx b = 1" "tx b = 0" "0 < tx a"
proof -
  have a: "tunnel_ok cf [] a" "\<not> closed a \<longrightarrow> acked a = 0" "tx a \<le> 32767"
    using assms(1) by (simp_all add: link_inv_def)
  have ecf: "e_cf e = cf"
    using assms(2) by (simp add: conf_ok_def)
  from acc obtain q where q: "l2tp_recv cf (e_conf_secret e) port buf = Ok q" "p_attrs q \<noteq> []" "l2tp_recv_SCCRQ e q st r = (Some (b, True), r')"
    by (auto simp: l2tp_udp_read1_def ecf bind_parse_Ok_iff split: if_splits list.splits)
  from q(3) obtain w r1 t ps where w: "l2tp_tunnel_alloc e (p_port q) ps True True (e_conf_hide e) st r = (Some w, r1)"
    "setup_tunnel e (p_attrs q) t (w\<lparr>delivered := [q]\<rparr>) = (b, False)"
    by (auto simp: l2tp_recv_SCCRQ_def Let_def split: if_splits option.splits prod.splits)
  have "core (w\<lparr>delivered := [q]\<rparr>) = ((0, 0, 0, 0, 4), ([], replicate (unat (e_recv_window e)) None, False, False, False, None), [], [], [q])"
    using alloc_ok [OF w(1) assms(2)] by (simp add: core_def closed_def call_state_def)
  from setup_core [OF w(2) small [OF q(1)] this] obtain n where
    c: "n \<le> 32767" "core b = ((0, of_nat (length [q]), 0, 0, n), ([], replicate (unat (e_recv_window e)) None, False, False, False, e_conf_secret e), [], [], [q])"
    by auto
  have "sent_ok a p"
    using a(1) assms(3) by (intro sent_ok_frame) (auto simp: recv_ok_def)
  note s = sent_carried [OF this assms(5) q(1,2)]
  then show lt: "0 < tx a"
    using assms(4) by simp
  then have "take 1 (committed a) = [committed a ! 0]"
    by (cases "committed a") (simp_all add: tx_def)
  then have "list_all2 (carried cf (e_conf_secret e)) (take (length [q]) (committed a)) [q]" "length [q] \<le> length (committed a)"
    using s assms(4) lt by (simp_all add: tx_def Suc_le_eq)
  note f = fresh_ok [OF c(2) assms(2) c(1) this(2,1)]
  then show rx: "rx b = 1" "tx b = 0"
    by simp_all
  have rxa: "rx a = 0"
    using a(1) by (simp add: recv_ok_def in_order_def)
  show "dir_ok cf a b"
    using f a rx by (simp add: dir_ok_def)
  have "committed b = []"
    using rx(2) by (simp add: tx_def)
  then show "dir_ok cf b a"
    using a f rxa by (simp add: dir_ok_def)
qed

text \<open>Every step keeps the invariant, and each end only adds to its messages and to what it has handled.\<close>

definition grows :: "l2tp_world \<Rightarrow> l2tp_world \<Rightarrow> bool" where
  "grows w w' \<longleftrightarrow> prefix (committed w) (committed w') \<and> rx w \<le> rx w'"

lemma grows_frame: "chan_frame w w' \<Longrightarrow> grows w w'"
  by (simp add: grows_def chan_frame_def rx_def)

lemma grows_refl: "grows w w"
  by (simp add: grows_def)

lemma inv_frame_a:
  assumes "link_inv cf (a, b)" "chan_frame a a'"
  shows "link_inv cf (a', b)"
proof (cases b)
  case None
  have "tx a' \<le> 32767" "\<not> closed a' \<longrightarrow> acked a' = 0"
    using assms None by (cases "closed a"; auto simp: link_inv_def chan_frame_def)+
  then show ?thesis
    using assms(1) None tunnel_ok_frame [OF assms(2), of cf "[]"] by (simp add: link_inv_def)
next
  case (Some x)
  then show ?thesis
    using assms(1) dir_ok_src [OF _ assms(2)] dir_ok_dst [OF _ assms(2)] by (simp add: link_inv_def)
qed

lemma inv_chan: "link_inv cf (a, b) \<Longrightarrow> chan_ok a" "link_inv cf (a, Some c) \<Longrightarrow> chan_ok c"
  by (auto simp: link_inv_def dir_ok_def recv_ok_def split: option.splits)

definition ends_grow :: "l2tp_world \<times> l2tp_world option \<Rightarrow> l2tp_world \<times> l2tp_world option \<Rightarrow> bool" where
  "ends_grow s s' \<longleftrightarrow> grows (fst s) (fst s') \<and>
     (case (snd s, snd s') of
        (None, None) \<Rightarrow> True
      | (None, Some b) \<Rightarrow> rx b = 1
      | (Some b, Some b') \<Rightarrow> grows b b'
      | (Some _, None) \<Rightarrow> False)"

lemma read_alone:
  assumes "link_inv cf (a, None)" "\<not> closed a" "conf_ok cf e" "\<forall>d \<in> set ds. datagram cf (peer_sent None) a d"
  shows "link_inv cf (l2tp_conn_read e f ds a, None)" "grows a (l2tp_conn_read e f ds a)"
proof -
  have "ds = []"
    using assms(4) by (cases ds) (auto simp: datagram_def peer_sent_def)
  then have "\<forall>d \<in> set ds. arrives cf [] 0 a d"
    by simp
  moreover have "e_cf e = cf" "tunnel_ok cf [] a" "acked a \<le> 0"
    using assms by (auto simp: link_inv_def conf_ok_def)
  ultimately have r: "tunnel_ok cf [] (l2tp_conn_read e f ds a)" "prefix (delivered a) (delivered (l2tp_conn_read e f ds a))"
    "prefix (committed a) (committed (l2tp_conn_read e f ds a))" "tx (l2tp_conn_read e f ds a) \<le> 0 + 32767"
    "\<not> closed (l2tp_conn_read e f ds a) \<Longrightarrow> acked (l2tp_conn_read e f ds a) \<le> 0"
    using conn_read_ok [OF _ _ _ assms(2) _ refl, where f = f and ds = ds and e = e and cm = "[]" and R = 0 and cf = cf] by auto
  then show "link_inv cf (l2tp_conn_read e f ds a, None)" "grows a (l2tp_conn_read e f ds a)"
    by (auto simp: link_inv_def grows_def rx_def prefix_length_le)
qed

lemma link_step_inv:
  assumes "link_step cf s s'" "link_inv cf s"
  shows "link_inv cf s' \<and> ends_grow s s'"
  using assms
proof (cases rule: link_step.cases)
  case (local_a a e a' b)
  then have f: "chan_frame a a'"
    using local_event_frame inv_chan assms(2) by blast
  show ?thesis
    using local_a(1,2) assms(2) inv_frame_a [OF _ f] grows_frame [OF f] by (simp add: ends_grow_def grows_refl split: option.splits)
next
  case (local_b b e b' a)
  then have f: "chan_frame b b'"
    using local_event_frame inv_chan assms(2) by blast
  show ?thesis
    using local_b(1,2) assms(2) dir_ok_src [OF _ f] dir_ok_dst [OF _ f] grows_frame [OF f] by (simp add: link_inv_def ends_grow_def grows_refl)
next
  case (read_a a e ds b f)
  show ?thesis
  proof (cases b)
    case None
    then show ?thesis
      using read_a(1,2) assms(2) read_alone [OF _ read_a(3,4)] read_a(5) by (simp add: ends_grow_def)
  next
    case (Some x)
    then have "dir_ok cf x a" "dir_ok cf a x" "\<forall>d \<in> set ds. datagram cf (sent x) a d"
      using read_a assms(2) by (auto simp: link_inv_def peer_sent_def)
    from dir_ok_read [OF this(1,2) read_a(3,4) this(3) refl, of f] show ?thesis
      using read_a Some by (simp add: link_inv_def ends_grow_def grows_def)
  qed
next
  case (read_b b e ds a f)
  then have "dir_ok cf a b" "dir_ok cf b a"
    using assms(2) by (auto simp: link_inv_def)
  from dir_ok_read [OF this read_b(3-5) refl, of f] show ?thesis
    using read_b by (simp add: link_inv_def ends_grow_def grows_def)
next
  case (accept e p a buf port permitted st r b r')
  from accept_ok [OF _ accept(3-8)] show ?thesis
    using accept(1,2) assms(2) by (simp add: link_inv_def [of cf "(a, Some b)"] ends_grow_def grows_refl)
next
  case (data_a a b)
  then have f: "chan_frame a (apses_destroy_freed a)"
    using crel_timers(7) [OF chan_rel_refl] inv_chan(1) assms(2) unfolding chan_rel_def by blast
  show ?thesis
    using data_a(1,2) assms(2) inv_frame_a [OF _ f] grows_frame [OF f] by (simp add: ends_grow_def grows_refl split: option.splits)
next
  case (data_b b a)
  then have f: "chan_frame b (apses_destroy_freed b)"
    using crel_timers(7) [OF chan_rel_refl] inv_chan(2) assms(2) unfolding chan_rel_def by blast
  show ?thesis
    using data_b(1,2) assms(2) dir_ok_src [OF _ f] dir_ok_dst [OF _ f] grows_frame [OF f] by (simp add: link_inv_def ends_grow_def grows_refl)
qed

lemma link_reach_inv: "link_reach cf s \<Longrightarrow> link_inv cf s"
proof (induction rule: link_reach.induct)
  case (created e port lns hide secret st r a r')
  then show ?case
    using create_ok by blast
qed (use link_step_inv in blast)

section \<open>Queues\<close>

text \<open>The specification of one direction: messages are put in at one end and taken out at the other, in the same order.\<close>

record 'm fifo =
  transit :: "'m list"
  received :: "'m list"

inductive fifo_step :: "'m fifo \<Rightarrow> 'm fifo \<Rightarrow> bool" where
  put: "fifo_step q (q\<lparr>transit := transit q @ [m]\<rparr>)"
| get: "transit q = m # ms \<Longrightarrow> fifo_step q (q\<lparr>transit := ms, received := received q @ [m]\<rparr>)"

definition fifo_of :: "'m list \<Rightarrow> nat \<Rightarrow> 'm fifo" where
  "fifo_of ms n = \<lparr>transit = drop n ms, received = take n ms\<rparr>"

lemma fifo_put: "n \<le> length ms \<Longrightarrow> fifo_step\<^sup>*\<^sup>* (fifo_of ms n) (fifo_of (ms @ ks) n)"
proof (induction ks rule: rev_induct)
  case (snoc k ks)
  have "fifo_step (fifo_of (ms @ ks) n) (fifo_of (ms @ ks @ [k]) n)"
    using fifo_step.put [of "fifo_of (ms @ ks) n" k] snoc.prems by (simp add: fifo_of_def)
  then show ?case
    using snoc by (simp add: rtranclp.rtrancl_into_rtrancl)
qed simp

lemma fifo_get: "n \<le> n' \<Longrightarrow> n' \<le> length ms \<Longrightarrow> fifo_step\<^sup>*\<^sup>* (fifo_of ms n) (fifo_of ms n')"
proof (induction rule: dec_induct)
  case (step k)
  have "fifo_step (fifo_of ms k) (fifo_of ms (Suc k))"
    using fifo_step.get [of "fifo_of ms k" "ms ! k" "drop (Suc k) ms"] step by (simp add: fifo_of_def Cons_nth_drop_Suc take_Suc_conv_app_nth)
  then show ?case
    using step by (simp add: rtranclp.rtrancl_into_rtrancl)
qed simp

lemma fifo_grows:
  assumes "prefix ms ms'" "n \<le> n'" "n \<le> length ms" "n' \<le> length ms'"
  shows "fifo_step\<^sup>*\<^sup>* (fifo_of ms n) (fifo_of ms' n')"
proof -
  obtain ks where "ms' = ms @ ks"
    using assms(1) by (auto simp: prefix_def)
  then show ?thesis
    using fifo_put [OF assms(3), of ks] fifo_get [OF assms(2,4)] by (simp add: rtranclp_trans)
qed

text \<open>The two directions of a link; before \<open>b\<close> exists nothing has been received by it.\<close>

definition to_b :: "l2tp_world \<times> l2tp_world option \<Rightarrow> l2tp_packet fifo" where
  "to_b s = fifo_of (committed (fst s)) (case snd s of None \<Rightarrow> 0 | Some b \<Rightarrow> rx b)"

definition to_a :: "l2tp_world \<times> l2tp_world option \<Rightarrow> l2tp_packet fifo" where
  "to_a s = fifo_of (case snd s of None \<Rightarrow> [] | Some b \<Rightarrow> committed b) (rx (fst s))"

lemma link_bounds:
  assumes "link_inv cf s"
  shows "(case snd s of None \<Rightarrow> 0 | Some b \<Rightarrow> rx b) \<le> length (committed (fst s))"
    "rx (fst s) \<le> length (case snd s of None \<Rightarrow> [] | Some b \<Rightarrow> committed b)"
  using assms by (auto simp: link_inv_def dir_ok_def recv_ok_def in_order_def split: option.splits prod.splits)

lemma link_fifo:
  assumes "link_inv cf s" "link_inv cf s'" "ends_grow s s'"
  shows "fifo_step\<^sup>*\<^sup>* (to_b s) (to_b s')" "fifo_step\<^sup>*\<^sup>* (to_a s) (to_a s')"
proof -
  show "fifo_step\<^sup>*\<^sup>* (to_b s) (to_b s')"
    unfolding to_b_def using assms(3) link_bounds(1) [OF assms(1)] link_bounds(1) [OF assms(2)]
    by (intro fifo_grows) (auto simp: ends_grow_def grows_def split: option.splits)
  show "fifo_step\<^sup>*\<^sup>* (to_a s) (to_a s')"
    unfolding to_a_def using assms(3) link_bounds(2) [OF assms(1)] link_bounds(2) [OF assms(2)]
    by (intro fifo_grows) (auto simp: ends_grow_def grows_def split: option.splits)
qed

end
