(* ===== verification/L2tpAuth.thy ===== *)
theory L2tpAuth
  imports L2tpLink
begin

text \<open>
  Authentication of tunnels in \<^verbatim>\<open>ctrl/l2tp/l2tp.c\<close>: with a secret configured a tunnel is established only by a peer that has answered a challenge of this end.
  The peer is arbitrary here, so are its datagrams.
\<close>

section \<open>Functions that do not touch the authentication\<close>

definition keeps :: "l2tp_world \<Rightarrow> l2tp_world \<Rightarrow> bool" where
  "keeps w w' \<longleftrightarrow> c_secret (conn w') = c_secret (conn w) \<and> delivered w' = delivered w \<and> challenges w' = challenges w \<and>
     c_challenge (conn w') = c_challenge (conn w) \<and> (crashed w \<longrightarrow> crashed w') \<and> (closing (c_state (conn w')) \<or> c_state (conn w') = c_state (conn w))"

named_theorems keeps

lemma keeps_refl [keeps]: "keeps w w"
  by (simp add: keeps_def)

lemma keeps_trans: "keeps w0 w \<Longrightarrow> keeps w w' \<Longrightarrow> keeps w0 w'"
  unfolding keeps_def by metis

lemma keeps_if [keeps]: "(b \<Longrightarrow> keeps w0 x) \<Longrightarrow> (\<not> b \<Longrightarrow> keeps w0 y) \<Longrightarrow> keeps w0 (if b then x else y)"
  by simp

lemma keeps_option [keeps]:
  "(z = None \<Longrightarrow> keeps w0 x) \<Longrightarrow> (\<And>a. z = Some a \<Longrightarrow> keeps w0 (y a)) \<Longrightarrow> keeps w0 (case z of None \<Rightarrow> x | Some a \<Rightarrow> y a)"
  by (cases z) auto

lemma keeps_parse [keeps]:
  "(z = Fault \<Longrightarrow> keeps w0 x) \<Longrightarrow> (z = Reject \<Longrightarrow> keeps w0 y) \<Longrightarrow> (\<And>a. z = Ok a \<Longrightarrow> keeps w0 (u a)) \<Longrightarrow>
   keeps w0 (case z of Fault \<Rightarrow> x | Reject \<Rightarrow> y | Ok a \<Rightarrow> u a)"
  by (cases z) auto

lemma keeps_list [keeps]:
  "(z = [] \<Longrightarrow> keeps w0 x) \<Longrightarrow> (\<And>a as. z = a # as \<Longrightarrow> keeps w0 (y a as)) \<Longrightarrow> keeps w0 (case z of [] \<Rightarrow> x | a # as \<Rightarrow> y a as)"
  by (cases z) auto

lemma keeps_upd_c [keeps]:
  assumes "keeps w0 w" "c_secret (f (conn w)) = c_secret (conn w) \<and> c_challenge (f (conn w)) = c_challenge (conn w)"
    "closing (c_state (f (conn w))) \<or> c_state (f (conn w)) = c_state (conn w)"
  shows "keeps w0 (upd_c f w)"
proof (rule keeps_trans [OF assms(1)])
  show "keeps w (upd_c f w)"
    using assms(2,3) by (simp add: keeps_def) (simp add: upd_c_def)
qed

lemma keeps_basic [keeps]:
  "keeps w0 w \<Longrightarrow> keeps w0 (crash w)" "keeps w0 w \<Longrightarrow> keeps w0 (l2tp_stat_inc f w)" "keeps w0 w \<Longrightarrow> keeps w0 (l2tp_stat_dec f w)"
  "keeps w0 w \<Longrightarrow> keeps w0 (l2tp_stat_move f g w)" "keeps w0 w \<Longrightarrow> keeps w0 (w\<lparr>rnd := r\<rparr>)"
  "keeps w0 w \<Longrightarrow> keeps w0 (w\<lparr>lingering := n\<rparr>)" "keeps w0 w \<Longrightarrow> keeps w0 (w\<lparr>in_table := b\<rparr>)" "keeps w0 w \<Longrightarrow> keeps w0 (w\<lparr>sent := ps\<rparr>)"
  "keeps w0 w \<Longrightarrow> keeps w0 (w\<lparr>committed := ps\<rparr>)" "keeps w0 w \<Longrightarrow> keeps w0 (w\<lparr>start := x\<rparr>)"
  by (simp_all add: keeps_def crash_def l2tp_stat_inc_def l2tp_stat_dec_def l2tp_stat_move_def)

lemma keeps_upd_s [keeps]: "keeps w0 w \<Longrightarrow> keeps w0 (upd_s sid h w)"
  unfolding upd_s_def flat by (intro keeps) simp_all

lemma keeps_del_timeout [keeps]: "keeps w0 w \<Longrightarrow> keeps w0 (del_timeout w)"
  unfolding del_timeout_def flat by (intro keeps) simp_all

lemma keeps_del_rtimeout [keeps]: "keeps w0 w \<Longrightarrow> keeps w0 (del_rtimeout w)"
  unfolding del_rtimeout_def flat by (intro keeps) simp_all

lemma keeps_del_hello [keeps]: "keeps w0 w \<Longrightarrow> keeps w0 (del_hello w)"
  unfolding del_hello_def flat by (intro keeps) simp_all

lemma keeps_del_sess_timer [keeps]: "keeps w0 w \<Longrightarrow> keeps w0 (del_sess_timer sid w)"
  unfolding del_sess_timer_def flat by (intro keeps)

lemma keeps_clear_recvqueue [keeps]: "keeps w0 w \<Longrightarrow> keeps w0 (l2tp_tunnel_clear_recvqueue w)"
  unfolding l2tp_tunnel_clear_recvqueue_def flat by (intro keeps) simp_all

lemma keeps_clear_sendqueue [keeps]: "keeps w0 w \<Longrightarrow> keeps w0 (l2tp_tunnel_clear_sendqueue w)"
  unfolding l2tp_tunnel_clear_sendqueue_def flat by (intro keeps) simp_all

lemma keeps_session_clear_sendqueue [keeps]: "keeps w0 w \<Longrightarrow> keeps w0 (l2tp_session_clear_sendqueue sid w)"
  unfolding l2tp_session_clear_sendqueue_def flat by (intro keeps) simp_all

lemma keeps_send_now [keeps]: "keeps w0 w \<Longrightarrow> keeps w0 (snd (tunnel_send_now e p w))"
  by (auto simp: tunnel_send_now_def Let_def intro: keeps split: parse.splits send_result.splits)

lemma keeps_push_loop [keeps]: "keeps w0 w \<Longrightarrow> keeps w0 (snd (push_loop e m q w))"
proof (induction q arbitrary: w)
  case (Cons p q)
  define p1 where "p1 = p\<lparr>p_hdr := (p_hdr p)\<lparr>hdr_Ns := c_Ns (conn w)\<rparr>, p_seq := length (committed w)\<rparr>"
  obtain p2 failed w1 where s: "tunnel_send_now e p1 w = ((p2, failed), w1)"
    by (metis prod.exhaust)
  have "keeps w0 w1"
    using keeps_send_now [OF Cons.prems, of e p1] s by simp
  then have "keeps w0 (upd_c (\<lambda>c. c\<lparr>c_send_queue := p2 # q\<rparr>) w1)" "keeps w0 (snd (push_loop e m q (commits p2 q w1)))"
    unfolding commits_def by (intro Cons.IH keeps; simp)+
  then show ?case
    using Cons.prems s by (cases failed) (auto simp: Let_def p1_def [symmetric] commits_def split: prod.splits)
qed simp

lemma keeps_push [keeps]: "keeps w0 w \<Longrightarrow> keeps w0 (fst (l2tp_tunnel_push_sendqueue e w))"
  unfolding l2tp_tunnel_push_sendqueue_def flat by (intro keeps) simp_all

lemma keeps_tunnel_send [keeps]: "keeps w0 w \<Longrightarrow> keeps w0 (fst (l2tp_tunnel_send p w))"
  unfolding l2tp_tunnel_send_def flat by (intro keeps) simp_all

lemma keeps_session_send [keeps]: "keeps w0 w \<Longrightarrow> keeps w0 (fst (l2tp_session_send sid p w))"
  unfolding l2tp_session_send_def flat by (intro keeps)

lemma keeps_session_try_send [keeps]: "keeps w0 w \<Longrightarrow> keeps w0 (fst (l2tp_session_try_send sid p w))"
  unfolding l2tp_session_try_send_def flat by (intro keeps)

lemma keeps_make_packet [keeps]: "keeps w0 w \<Longrightarrow> keeps w0 (snd (make_packet e t h rs w))"
  unfolding make_packet_def flat by (intro keeps)

lemma keeps_StopCCN [keeps]: "keeps w0 w \<Longrightarrow> keeps w0 (fst (l2tp_send_StopCCN e res err w))"
  unfolding l2tp_send_StopCCN_def flat by (intro keeps)

lemma keeps_CDN [keeps]: "keeps w0 w \<Longrightarrow> keeps w0 (fst (l2tp_send_CDN e sid res err w))"
  unfolding l2tp_send_CDN_def flat by (intro keeps)

lemma keeps_tunnel_CDN [keeps]: "keeps w0 w \<Longrightarrow> keeps w0 (fst (l2tp_tunnel_send_CDN e sid psid res err w))"
  unfolding l2tp_tunnel_send_CDN_def flat by (intro keeps)

lemma keeps_ZLB [keeps]: "keeps w0 w \<Longrightarrow> keeps w0 (fst (l2tp_send_ZLB e w))"
  unfolding l2tp_send_ZLB_def flat by (intro keeps)

lemma keeps_session_free_crash [keeps]: "keeps w0 w \<Longrightarrow> keeps w0 (session_free crash r sid s w)"
  unfolding session_free_def flat by (intro keeps) simp_all

lemma keeps_free_sessions [keeps]: "keeps w0 w \<Longrightarrow> keeps w0 (l2tp_tunnel_free_sessions w)"
proof -
  have "keeps w0 (fold (\<lambda>(sid, s). session_free crash False sid s) ss v)" if "keeps w0 v" for ss v
    using that by (induction ss arbitrary: v) (auto intro: keeps)
  moreover assume "keeps w0 w"
  then have "keeps w0 (upd_c (\<lambda>c. c\<lparr>c_sessions := []\<rparr>) w)"
    by (intro keeps) simp_all
  ultimately show ?thesis
    by (simp add: l2tp_tunnel_free_sessions_def Let_def)
qed

lemma keeps_tunnel_put [keeps]: "keeps w0 w \<Longrightarrow> keeps w0 (tunnel_put w)"
  unfolding tunnel_put_def flat by (intro keeps)

lemma keeps_tunnel_free [keeps]: "keeps w0 w \<Longrightarrow> keeps w0 (l2tp_tunnel_free w)"
  unfolding l2tp_tunnel_free_def flat by (intro keeps) simp_all

lemma keeps_tunnel_disconnect [keeps]: "keeps w0 w \<Longrightarrow> keeps w0 (fst (l2tp_tunnel_disconnect e res err w))"
  unfolding l2tp_tunnel_disconnect_def flat by (intro keeps) simp_all

lemma keeps_tunnel_disconnect_push [keeps]: "keeps w0 w \<Longrightarrow> keeps w0 (l2tp_tunnel_disconnect_push e res err w)"
  unfolding l2tp_tunnel_disconnect_push_def flat by (intro keeps)

lemma keeps_session_free [keeps]: "keeps w0 w \<Longrightarrow> keeps w0 (l2tp_session_free e sid w)"
  unfolding l2tp_session_free_def session_free_def flat by (intro keeps) simp_all

lemma keeps_session_disconnect [keeps]: "keeps w0 w \<Longrightarrow> keeps w0 (l2tp_session_disconnect e sid res err w)"
  unfolding l2tp_session_disconnect_def flat by (intro keeps)

lemma keeps_session_disconnect_push [keeps]: "keeps w0 w \<Longrightarrow> keeps w0 (l2tp_session_disconnect_push e sid res err w)"
  unfolding l2tp_session_disconnect_push_def flat by (intro keeps)

lemma keeps_genchallresp [keeps]: "keeps w0 w \<Longrightarrow> keeps w0 (snd (l2tp_tunnel_genchallresp e i p w))"
  unfolding l2tp_tunnel_genchallresp_def flat by (intro keeps)

lemma keeps_log_result [keeps]: "keeps w0 w \<Longrightarrow> keeps w0 (log_result_code as w)"
  unfolding log_result_code_def flat by (intro keeps)

lemma keeps_finwait [keeps]: "keeps w0 w \<Longrightarrow> keeps w0 (l2tp_tunnel_finwait e w)"
  unfolding l2tp_tunnel_finwait_def flat by (intro keeps) simp_all

lemma keeps_recv_StopCCN [keeps]: "keeps w0 w \<Longrightarrow> keeps w0 (l2tp_recv_StopCCN e pack w)"
  unfolding l2tp_recv_StopCCN_def flat by (intro keeps) simp_all

lemma keeps_send_HELLO [keeps]: "keeps w0 w \<Longrightarrow> keeps w0 (l2tp_send_HELLO e w)"
  unfolding l2tp_send_HELLO_def flat by (intro keeps)

lemma keeps_new_session [keeps]: "keeps w0 w \<Longrightarrow> keeps w0 (snd (l2tp_tunnel_new_session w))"
  unfolding l2tp_tunnel_new_session_def flat by (intro keeps) simp_all

lemma keeps_alloc_session [keeps]: "keeps w0 w \<Longrightarrow> keeps w0 (snd (l2tp_tunnel_alloc_session e w))"
  unfolding l2tp_tunnel_alloc_session_def flat by (intro keeps)

lemma keeps_session_message [keeps]: "keeps w0 w \<Longrightarrow> keeps w0 (snd (session_message e sid f w))"
  unfolding session_message_def flat by (intro keeps)

lemma keeps_ICRQ [keeps]: "keeps w0 w \<Longrightarrow> keeps w0 (fst (l2tp_send_ICRQ e sid w))"
  unfolding l2tp_send_ICRQ_def flat by (intro keeps)

lemma keeps_ICRP [keeps]: "keeps w0 w \<Longrightarrow> keeps w0 (fst (l2tp_send_ICRP e sid w))"
  unfolding l2tp_send_ICRP_def flat by (intro keeps)

lemma keeps_ICCN [keeps]: "keeps w0 w \<Longrightarrow> keeps w0 (fst (l2tp_send_ICCN e sid w))"
  unfolding l2tp_send_ICCN_def flat by (intro keeps)

lemma keeps_OCRQ [keeps]: "keeps w0 w \<Longrightarrow> keeps w0 (fst (l2tp_send_OCRQ e sid w))"
  unfolding l2tp_send_OCRQ_def flat by (intro keeps)

lemma keeps_OCRP [keeps]: "keeps w0 w \<Longrightarrow> keeps w0 (fst (l2tp_send_OCRP e sid w))"
  unfolding l2tp_send_OCRP_def flat by (intro keeps)

lemma keeps_OCCN [keeps]: "keeps w0 w \<Longrightarrow> keeps w0 (fst (l2tp_send_OCCN e sid w))"
  unfolding l2tp_send_OCCN_def flat by (intro keeps)

lemma keeps_session_connect [keeps]: "keeps w0 w \<Longrightarrow> keeps w0 (fst (l2tp_session_connect e sid w))"
  unfolding l2tp_session_connect_def flat by (intro keeps)

lemma keeps_session_incall_reply [keeps]: "keeps w0 w \<Longrightarrow> keeps w0 (fst (l2tp_session_incall_reply e sid w))"
  unfolding l2tp_session_incall_reply_def flat by (intro keeps)

lemma keeps_session_outcall_reply [keeps]: "keeps w0 w \<Longrightarrow> keeps w0 (fst (l2tp_session_outcall_reply e sid w))"
  unfolding l2tp_session_outcall_reply_def flat by (intro keeps)

lemma keeps_session_place_call [keeps]: "keeps w0 w \<Longrightarrow> keeps w0 (fst (l2tp_session_place_call e sid w))"
  unfolding l2tp_session_place_call_def flat by (intro keeps)

lemma keeps_sequencing [keeps]: "keeps w0 w \<Longrightarrow> keeps w0 (sequencing e sid as w)"
  unfolding sequencing_def flat by (intro keeps)

lemma keeps_reject_call [keeps]: "keeps w0 w \<Longrightarrow> keeps w0 (reject_call e s psid res err w)"
  unfolding reject_call_def flat by (intro keeps)

lemma keeps_recv_ICRQ [keeps]: "keeps w0 w \<Longrightarrow> keeps w0 (l2tp_recv_ICRQ e pack w)"
  unfolding l2tp_recv_ICRQ_def flat by (intro keeps)

lemma keeps_recv_OCRQ [keeps]: "keeps w0 w \<Longrightarrow> keeps w0 (l2tp_recv_OCRQ e pack w)"
  unfolding l2tp_recv_OCRQ_def flat by (intro keeps)

lemma keeps_recv_ICRP [keeps]: "keeps w0 w \<Longrightarrow> keeps w0 (l2tp_recv_ICRP e sid pack w)"
  unfolding l2tp_recv_ICRP_def flat by (intro keeps)

lemma keeps_recv_ICCN [keeps]: "keeps w0 w \<Longrightarrow> keeps w0 (l2tp_recv_ICCN e sid pack w)"
  unfolding l2tp_recv_ICCN_def flat by (intro keeps)

lemma keeps_recv_OCRP [keeps]: "keeps w0 w \<Longrightarrow> keeps w0 (l2tp_recv_OCRP e sid pack w)"
  unfolding l2tp_recv_OCRP_def flat by (intro keeps)

lemma keeps_recv_OCCN [keeps]: "keeps w0 w \<Longrightarrow> keeps w0 (l2tp_recv_OCCN e sid pack w)"
  unfolding l2tp_recv_OCCN_def flat by (intro keeps)

lemma keeps_recv_CDN [keeps]: "keeps w0 w \<Longrightarrow> keeps w0 (l2tp_recv_CDN e sid pack w)"
  unfolding l2tp_recv_CDN_def flat by (intro keeps)

lemma keeps_create_session [keeps]: "keeps w0 w \<Longrightarrow> keeps w0 (l2tp_tunnel_create_session e w)"
  unfolding l2tp_tunnel_create_session_def flat by (intro keeps)

lemma keeps_session_timeout [keeps]: "keeps w0 w \<Longrightarrow> keeps w0 (l2tp_session_timeout e sid w)"
  unfolding l2tp_session_timeout_def flat by (intro keeps)

lemma keeps_tunnel_timeout [keeps]: "keeps w0 w \<Longrightarrow> keeps w0 (l2tp_tunnel_timeout e w)"
  unfolding l2tp_tunnel_timeout_def flat by (intro keeps)

lemma keeps_finwait_timeout [keeps]: "keeps w0 w \<Longrightarrow> keeps w0 (l2tp_tunnel_finwait_timeout w)"
  unfolding l2tp_tunnel_finwait_timeout_def flat by (intro keeps)

lemma keeps_apses_finished [keeps]: "keeps w0 w \<Longrightarrow> keeps w0 (l2tp_session_apses_finished e sid w)"
  unfolding l2tp_session_apses_finished_def flat by (intro keeps)

lemma keeps_conn_close [keeps]: "keeps w0 w \<Longrightarrow> keeps w0 (l2tp_conn_close e w)"
  unfolding l2tp_conn_close_def flat by (intro keeps)

lemma keeps_apses_destroy [keeps]: "keeps w0 w \<Longrightarrow> keeps w0 (apses_destroy sid w)"
  unfolding apses_destroy_def flat by (intro keeps)

lemma keeps_apses_destroy_freed [keeps]: "keeps w0 w \<Longrightarrow> keeps w0 (apses_destroy_freed w)"
  unfolding apses_destroy_freed_def flat by (intro keeps)

lemma keeps_rtimeout [keeps]: "keeps w0 w \<Longrightarrow> keeps w0 (l2tp_rtimeout e w)"
  unfolding l2tp_rtimeout_def flat by (intro keeps) simp_all

lemma keeps_session_recv [keeps]: "keeps w0 w \<Longrightarrow> keeps w0 (l2tp_session_recv e sid pack t m w)"
  unfolding l2tp_recv_WEN_def l2tp_recv_SLI_def l2tp_session_recv_def flat by (intro keeps)

lemma keeps_clean_rtms [keeps]: "keeps w0 w \<Longrightarrow> keeps w0 (fst (l2tp_tunnel_clean_rtmsqueue e w))"
  unfolding l2tp_tunnel_clean_rtmsqueue_def flat by (intro keeps) simp_all

lemma keeps_store_msg [keeps]: "keeps w0 w \<Longrightarrow> keeps w0 (fst (l2tp_tunnel_store_msg q n w))"
  unfolding l2tp_tunnel_store_msg_def flat by (intro keeps) simp_all

lemma keeps_peerport [keeps]: "keeps w0 w \<Longrightarrow> keeps w0 (fst (l2tp_tunnel_update_peerport e p w))"
  unfolding l2tp_tunnel_update_peerport_def flat by (intro keeps) simp_all

lemma keeps_connected:
  "keeps w (fst (l2tp_tunnel_start e f w))"
  unfolding l2tp_tunnel_start_def flat by (intro keeps) simp_all

lemma keeps_read_loop: "keeps w0 w \<Longrightarrow> keeps w0 (snd (read_loop e f ds n w))"
proof (induction ds arbitrary: n w)
  case (Cons d ds)
  obtain port buf where d: "d = (port, buf)"
    by (metis prod.exhaust)
  have port: "keeps w0 (fst (l2tp_tunnel_update_peerport e p w))" "keeps w0 (upd_c (\<lambda>c. c\<lparr>c_port_set := True\<rparr>) w)"
    "keeps w0 (upd_c (\<lambda>c. c\<lparr>c_port_set := True\<rparr>) (fst (l2tp_tunnel_update_peerport e p w)))" for p
    using Cons.prems by (intro keeps; simp)+
  show ?case
    unfolding d read_loop.simps flat using Cons.prems port by (auto intro!: Cons.IH keeps split: parse.splits prod.splits bool.splits simp: flat)
qed simp

section \<open>The invariant\<close>

text \<open>A response to one of the challenges of this end, in one of the messages it has handled.\<close>

definition proven :: "l2tp_conf \<Rightarrow> l2tp_world \<Rightarrow> bool" where
  "proven cf w \<longleftrightarrow> (\<forall>s. secret_of (conn w) = Some s \<longrightarrow>
     (\<exists>q \<in> set (delivered w). \<exists>a \<in> set (p_attrs q). \<exists>ch \<in> set (challenges w). \<exists>i \<in> {2, 3}.
        16 \<le> length ch \<and> lda_id (la_attr a) = Challenge_Response \<and> attr_octets a = Some (comp_chap_md5 (lc_md5 cf) i s ch)))"

definition challenged :: "l2tp_world \<Rightarrow> bool" where
  "challenged w \<longleftrightarrow> (\<forall>s. secret_of (conn w) = Some s \<longrightarrow>
     (\<exists>ch. c_challenge (conn w) = Some ch \<and> ch \<in> set (challenges w) \<and> 16 \<le> length ch))"

definition auth_inv :: "l2tp_conf \<Rightarrow> l2tp_world \<Rightarrow> bool" where
  "auth_inv cf w \<longleftrightarrow> (c_state (conn w) \<in> {STATE_WAIT_SCCRP, STATE_WAIT_SCCCN} \<longrightarrow> challenged w) \<and>
     (c_state (conn w) = STATE_ESTB \<longrightarrow> proven cf w)"

lemma secret_of_eq: "c_secret c = c_secret c' \<Longrightarrow> secret_of c = secret_of c'"
  by (simp add: secret_of_def)

lemma auth_keeps: "keeps w w' \<Longrightarrow> auth_inv cf w \<Longrightarrow> auth_inv cf w'"
  unfolding auth_inv_def keeps_def proven_def challenged_def using secret_of_eq [of "conn w" "conn w'"] by auto

text \<open>What may change once the peer has been authenticated.\<close>

definition same_proof :: "l2tp_world \<Rightarrow> l2tp_world \<Rightarrow> bool" where
  "same_proof w w' \<longleftrightarrow> c_secret (conn w') = c_secret (conn w) \<and> delivered w' = delivered w \<and> challenges w' = challenges w"

lemma same_proof_keeps: "keeps w w' \<Longrightarrow> same_proof w w'"
  by (simp add: keeps_def same_proof_def)

lemma proven_same: "same_proof w w' \<Longrightarrow> proven cf w \<Longrightarrow> proven cf w'"
  unfolding same_proof_def proven_def using secret_of_eq [of "conn w'" "conn w"] by simp

text \<open>Ended tunnels wait for nothing.\<close>

definition waiting :: "l2tp_world \<Rightarrow> bool" where
  "waiting w \<longleftrightarrow> c_state (conn w) \<in> {STATE_INIT, STATE_WAIT_SCCRP, STATE_WAIT_SCCCN, STATE_ESTB}"

lemma auth_not_waiting: "\<not> waiting w \<Longrightarrow> auth_inv cf w"
  by (simp add: auth_inv_def waiting_def)

lemma keeps_not_waiting: "keeps w w' \<Longrightarrow> \<not> waiting w \<Longrightarrow> \<not> waiting w'"
  by (auto simp: keeps_def waiting_def)

lemma free_not_waiting: "\<not> waiting (l2tp_tunnel_free w)"
proof -
  have "keeps v (tunnel_put (l2tp_tunnel_free_sessions (l2tp_tunnel_clear_recvqueue (l2tp_tunnel_clear_sendqueue
     (upd_c (\<lambda>c. c\<lparr>c_hnd := False, c_timeout_timer := False, c_rtimeout_timer := False, c_hello_timer := False, c_rtms_queue := []\<rparr>)
        (v\<lparr>in_table := False\<rparr>))))))" for v
    by (intro keeps) simp_all
  moreover have "\<not> waiting (upd_c (\<lambda>c. c\<lparr>c_state := STATE_CLOSE\<rparr>) v)" for v
    by (simp add: upd_c_def waiting_def)
  ultimately have "\<not> waiting (tunnel_put (l2tp_tunnel_free_sessions (l2tp_tunnel_clear_recvqueue (l2tp_tunnel_clear_sendqueue
     (upd_c (\<lambda>c. c\<lparr>c_hnd := False, c_timeout_timer := False, c_rtimeout_timer := False, c_hello_timer := False, c_rtms_queue := []\<rparr>)
        ((upd_c (\<lambda>c. c\<lparr>c_state := STATE_CLOSE\<rparr>) v)\<lparr>in_table := False\<rparr>))))))" for v
    using keeps_not_waiting by blast
  moreover have "\<not> waiting w" if "c_state (conn w) \<in> {STATE_CLOSE, STATE_WAIT_ICRP, STATE_WAIT_ICCN, STATE_WAIT_OCRP, STATE_WAIT_OCCN}"
    using that by (auto simp: waiting_def)
  ultimately show ?thesis
    unfolding l2tp_tunnel_free_def Let_def by simp
qed

lemma disconnect_not_waiting: "\<not> waiting (fst (l2tp_tunnel_disconnect e res err w))"
proof -
  have "\<not> waiting (upd_c (\<lambda>c. c\<lparr>c_state := STATE_FIN, c_timeout_timer := False, c_hello_timer := False\<rparr>) v)" for v
    by (simp add: upd_c_def waiting_def)
  note f = keeps_not_waiting [OF keeps_free_sessions [OF keeps_refl] this]
  have w: "\<not> waiting w" if "c_state (conn w) \<notin> {STATE_INIT, STATE_WAIT_SCCRP, STATE_WAIT_SCCCN, STATE_ESTB}"
    using that by (auto simp: waiting_def)
  show ?thesis
    unfolding l2tp_tunnel_disconnect_def flat using f w free_not_waiting by (simp del: insert_iff)
qed

lemmas auth_ended = auth_not_waiting [OF free_not_waiting] auth_not_waiting [OF disconnect_not_waiting]

section \<open>Set-up\<close>

lemma randbuf_length: "u_randbuf n r = (Some b, r') \<Longrightarrow> length b = n"
  by (cases "(n, r)" rule: u_randbuf.cases) auto

lemma challenge_drawn:
  assumes "with_challenge e pack w = ((pack', False), w')"
  shows "challenged w'"
proof -
  obtain b r where b: "l2tp_tunnel_genchall e (rand_len b) pack (w\<lparr>rnd := r\<rparr>) = ((pack', False), w')"
    using assms by (auto simp: with_challenge_def split: prod.splits option.splits)
  have "16 \<le> rand_len b"
    by (simp add: rand_len_def)
  then show ?thesis
    using b randbuf_length by (auto simp: l2tp_tunnel_genchall_def challenged_def upd_c_def secret_of_def split: if_splits prod.splits option.splits bool.splits list.splits)
qed

lemma auth_wait:
  assumes "keeps w w'" "challenged w" "st = STATE_WAIT_SCCRP \<or> st = STATE_WAIT_SCCCN"
  shows "auth_inv cf (upd_c (\<lambda>c. c\<lparr>c_state := st\<rparr>) w')"
  using assms secret_of_eq [of "conn w" "c_state_update (\<lambda>_. st) (conn w')"]
  by (auto simp: keeps_def challenged_def auth_inv_def upd_c_def)

lemma keeps_sent: "keeps w (fst (l2tp_tunnel_push_sendqueue e (fst (l2tp_tunnel_send pack w))))"
  by (intro keeps)

lemma auth_SCCRQ: "auth_inv cf (l2tp_send_SCCRQ e w)"
proof -
  have "auth_inv cf (upd_c (\<lambda>c. c\<lparr>c_state := STATE_WAIT_SCCRP\<rparr>) w2)"
    if "with_challenge e p w1 = ((p', False), v)" "l2tp_tunnel_push_sendqueue e (fst (l2tp_tunnel_send p' v)) = (w2, x)" for p w1 p' v w2 x
    using auth_wait [OF keeps_sent challenge_drawn [OF that(1)], of STATE_WAIT_SCCRP cf e p'] that(2) by simp
  then show ?thesis
    using auth_ended(1) by (auto simp: l2tp_send_SCCRQ_def split: prod.splits option.splits bool.splits)
qed

lemma auth_SCCRP: "auth_inv cf (l2tp_send_SCCRP e w)"
proof -
  have "auth_inv cf (upd_c (\<lambda>c. c\<lparr>c_state := STATE_WAIT_SCCCN\<rparr>) w2)"
    if "with_challenge e p w1 = ((p', False), v)" "l2tp_tunnel_push_sendqueue e (fst (l2tp_tunnel_send p' v)) = (w2, x)" for p w1 p' v w2 x
    using auth_wait [OF keeps_sent challenge_drawn [OF that(1)], of STATE_WAIT_SCCCN cf e p'] that(2) by simp
  then show ?thesis
    using auth_ended(1) by (auto simp: l2tp_send_SCCRP_def split: prod.splits option.splits bool.splits)
qed

section \<open>The check of the response\<close>

lemma check_proven:
  assumes "l2tp_tunnel_checkchallresp e i (last_attr Challenge_Response (p_attrs q)) w = (w', False)" "i \<in> {2, 3}"
    "challenged w" "q \<in> set (delivered w)"
  shows "w' = w" "proven (e_cf e) w"
proof -
  show "w' = w"
    using assms(1) by (auto simp: l2tp_tunnel_checkchallresp_def split: option.splits if_splits)
  show "proven (e_cf e) w"
  proof (unfold proven_def, intro allI impI)
    fix s assume s: "secret_of (conn w) = Some s"
    then obtain ch where ch: "c_challenge (conn w) = Some ch" "ch \<in> set (challenges w)" "16 \<le> length ch"
      using assms(3) by (auto simp: challenged_def)
    obtain a where a: "last_attr Challenge_Response (p_attrs q) = Some a" "attr_octets a = Some (comp_chap_md5 (lc_md5 (e_cf e)) i s ch)"
      using assms(1) s ch by (auto simp: l2tp_tunnel_checkchallresp_def split: option.splits if_splits)
    then show "\<exists>q \<in> set (delivered w). \<exists>a \<in> set (p_attrs q). \<exists>ch \<in> set (challenges w). \<exists>i \<in> {2, 3}.
        16 \<le> length ch \<and> lda_id (la_attr a) = Challenge_Response \<and> attr_octets a = Some (comp_chap_md5 (lc_md5 (e_cf e)) i s ch)"
      using last_attr_in ch assms(2,4) by blast
  qed
qed

lemma same_proof_trans: "same_proof a b \<Longrightarrow> same_proof b c \<Longrightarrow> same_proof a c"
  by (simp add: same_proof_def)

lemma same_storechall: "same_proof w (fst (l2tp_tunnel_storechall a w))"
  by (auto simp: same_proof_def l2tp_tunnel_storechall_def upd_c_def crash_def split: option.splits)

lemma same_connect: "same_proof w (fst (l2tp_tunnel_connect e w))"
  by (auto simp: same_proof_def l2tp_tunnel_connect_def upd_c_def crash_def del_timeout_def l2tp_stat_move_def l2tp_stat_inc_def l2tp_stat_dec_def Let_def)

lemma same_if: "(b \<Longrightarrow> same_proof w0 x) \<Longrightarrow> (\<not> b \<Longrightarrow> same_proof w0 y) \<Longrightarrow> same_proof w0 (if b then x else y)"
  by simp

lemma same_option:
  "(z = None \<Longrightarrow> same_proof w0 x) \<Longrightarrow> (\<And>a. z = Some a \<Longrightarrow> same_proof w0 (y a)) \<Longrightarrow> same_proof w0 (case z of None \<Rightarrow> x | Some a \<Rightarrow> y a)"
  by (cases z) auto

lemmas same_after_keeps = same_proof_trans [OF _ same_proof_keeps]

lemma same_SCCCN: "same_proof w (fst (l2tp_send_SCCCN e w))"
  unfolding l2tp_send_SCCCN_def flat
  by (intro same_if same_option same_proof_keeps [OF keeps_make_packet] same_after_keeps [OF _ keeps_tunnel_send [OF keeps_refl]]
      same_after_keeps [OF _ keeps_genchallresp [OF keeps_refl]] same_proof_trans [OF _ same_storechall] keeps_refl)

lemma auth_proven: "proven cf w \<Longrightarrow> c_state (conn w) = STATE_ESTB \<Longrightarrow> auth_inv cf w"
  by (simp add: auth_inv_def)

lemma connect_state: "\<not> snd (l2tp_tunnel_connect e w) \<Longrightarrow> c_state (conn (fst (l2tp_tunnel_connect e w))) = STATE_ESTB"
  by (auto simp: l2tp_tunnel_connect_def Let_def upd_c_def split: if_splits)

lemma auth_connect: "proven cf w \<Longrightarrow> \<not> snd (l2tp_tunnel_connect e w) \<Longrightarrow> auth_inv cf (fst (l2tp_tunnel_connect e w))"
  using auth_proven connect_state proven_same same_connect by blast

lemma auth_sccrp_reply:
  assumes "challenged w" "q \<in> set (delivered w)" "e_cf e = cf"
  shows "auth_inv cf (sccrp_reply e (p_attrs q) w)"
proof (cases "l2tp_tunnel_checkchallresp e (ucast MSG_SCCRP) (last_attr Challenge_Response (p_attrs q)) w")
  case (Pair w' failed)
  show ?thesis
  proof (cases failed)
    case True
    then show ?thesis
      using Pair auth_ended(2) by (simp add: sccrp_reply_def)
  next
    case False
    define w1 where "w1 = fst (l2tp_tunnel_storechall (last_attr Challenge (p_attrs q)) w)"
    define w2 where "w2 = fst (l2tp_send_SCCCN e w1)"
    have p: "w' = w" "proven cf w"
      using check_proven [of e "ucast MSG_SCCRP" q w w'] Pair False assms by auto
    then have "proven cf w2"
      using proven_same same_storechall same_SCCCN unfolding w1_def w2_def by blast
    then have "auth_inv cf (fst (l2tp_tunnel_connect e w2))" if "\<not> snd (l2tp_tunnel_connect e w2)"
      using that by (rule auth_connect)
    then show ?thesis
      using Pair False p(1) auth_ended(2) unfolding sccrp_reply_def w2_def w1_def by (auto split: prod.splits bool.splits)
  qed
qed

lemma auth_recv_SCCRP:
  assumes "auth_inv cf w" "q \<in> set (delivered w)" "e_cf e = cf"
  shows "auth_inv cf (l2tp_recv_SCCRP e q w)"
proof (cases "c_state (conn w) = STATE_WAIT_SCCRP")
  case True
  have "auth_inv cf (sccrp_reply e (p_attrs q) v)" if "keeps w v" for v
  proof (rule auth_sccrp_reply)
    show "challenged v"
      using that assms(1) True secret_of_eq [of "conn w" "conn v"] by (auto simp: auth_inv_def challenged_def keeps_def)
  qed (use that assms in \<open>simp_all add: keeps_def\<close>)
  moreover have "keeps w (fst (sccrp_window e (p_attrs q) (upd_c (\<lambda>c. c\<lparr>c_peer_tid := t\<rparr>) w)))" for t
    unfolding sccrp_window_def flat by (intro keeps) simp_all
  ultimately have "auth_inv cf (sccrp_reply e (p_attrs q) (fst (sccrp_window e (p_attrs q) (upd_c (\<lambda>c. c\<lparr>c_peer_tid := t\<rparr>) w))))" for t
    by blast
  then show ?thesis
    unfolding l2tp_recv_SCCRP_def flat using True auth_ended(2) by (simp split: option.split)
qed (use assms in \<open>simp add: l2tp_recv_SCCRP_def\<close>)

lemma auth_recv_SCCCN:
  assumes "auth_inv cf w" "q \<in> set (delivered w)" "e_cf e = cf"
  shows "auth_inv cf (l2tp_recv_SCCCN e q w)"
proof (cases "c_state (conn w) = STATE_WAIT_SCCCN")
  case True
  then have ch: "challenged w"
    using assms(1) by (simp add: auth_inv_def)
  have "auth_inv cf (fst (l2tp_tunnel_connect e (fst (l2tp_tunnel_storechall None v))))"
    if "l2tp_tunnel_checkchallresp e (ucast MSG_SCCCN) (last_attr Challenge_Response (p_attrs q)) w = (v, False)"
      "\<not> snd (l2tp_tunnel_connect e (fst (l2tp_tunnel_storechall None v)))" for v
    using check_proven [OF that(1) _ ch assms(2)] auth_connect [OF proven_same [OF same_storechall] that(2)] assms(3) by simp
  then show ?thesis
    unfolding l2tp_recv_SCCCN_def using True auth_ended(2) by (auto simp: Let_def split: prod.splits bool.splits)
qed (use assms in \<open>simp add: l2tp_recv_SCCCN_def\<close>)

section \<open>Reachable tunnels\<close>

lemma auth_process_msg:
  assumes "auth_inv cf w" "q \<in> set (delivered w)" "e_cf e = cf"
  shows "auth_inv cf (process_msg e q w)"
proof -
  have "auth_inv cf (l2tp_tunnel_recv e q t m w)" for t m
    unfolding l2tp_tunnel_recv_def l2tp_recv_HELLO_def l2tp_tunnel_recv_CDN_def
    using auth_recv_SCCRP [OF assms] auth_recv_SCCCN [OF assms] auth_ended(2) assms(1)
      auth_keeps [OF keeps_recv_StopCCN [OF keeps_refl] assms(1)] auth_keeps [OF keeps_recv_ICRQ [OF keeps_refl] assms(1)]
      auth_keeps [OF keeps_recv_OCRQ [OF keeps_refl] assms(1)]
    by simp
  then show ?thesis
    unfolding process_msg_def Let_def
    using assms(1) auth_keeps [OF keeps_session_recv [OF keeps_refl] assms(1)] auth_keeps [OF keeps_basic(1) [OF keeps_refl] assms(1)]
    by (simp split: list.split option.split)
qed

lemma auth_take_msg: "auth_inv cf w \<Longrightarrow> auth_inv cf (take_msg k q w)"
  by (auto simp: auth_inv_def challenged_def proven_def take_msg_def upd_c_def secret_of_def)

lemma auth_reply_loop:
  assumes "auth_inv cf w" "e_cf e = cf"
  shows "auth_inv cf (snd (reply_loop e n k w))"
  using assms(1)
proof (induction n arbitrary: k w)
  case 0
  then show ?case
    using auth_keeps [OF keeps_basic(1) [OF keeps_refl]] by simp
next
  case (Suc n)
  show ?case
  proof (cases "closed w \<or> c_recv_queue (conn w) ! k = None")
    case True
    then show ?thesis
      using Suc.prems by (auto simp: closed_def split: option.split)
  next
    case False
    then obtain q where q: "c_recv_queue (conn w) ! k = Some q" "\<not> closed w"
      by auto
    have "auth_inv cf (process_msg e q (take_msg k q w))"
      using auth_process_msg [OF auth_take_msg [OF Suc.prems] _ assms(2), of q k q] by simp
    then show ?thesis
      unfolding reply_loop_unfold [OF q] flat using Suc.IH by simp
  qed
qed

lemma auth_reply:
  assumes "auth_inv cf w" "e_cf e = cf"
  shows "auth_inv cf (fst (l2tp_tunnel_reply e n w))"
proof -
  define v where "v = snd (reply_loop e (Suc (c_recv_queue_sz (conn w))) (unat (c_recv_queue_offt (conn w))) w)"
  have "auth_inv cf v"
    unfolding v_def by (rule auth_reply_loop [OF assms])
  moreover have "keeps v (fst (l2tp_tunnel_reply e n w))"
    unfolding l2tp_tunnel_reply_def flat v_def by (intro keeps) simp_all
  ultimately show ?thesis
    using auth_keeps by blast
qed

lemma auth_conn_read:
  assumes "auth_inv cf w" "e_cf e = cf"
  shows "auth_inv cf (l2tp_conn_read e f ds w)"
proof -
  define v where "v = fst (l2tp_tunnel_clean_rtmsqueue e (snd (read_loop e f ds False w)))"
  have "keeps w v"
    unfolding v_def by (intro keeps keeps_read_loop)
  then have v: "auth_inv cf v"
    using auth_keeps assms(1) by blast
  show ?thesis
    using auth_reply [OF v assms(2)] auth_ended(1) unfolding l2tp_conn_read_def flat v_def [symmetric] by simp
qed

text \<open>A tunnel of this end whose peer, and everybody else on the network, sends what they like.\<close>

inductive tunnel_reach :: "l2tp_conf \<Rightarrow> l2tp_world \<Rightarrow> bool" for cf where
  created: "e_cf e = cf \<Longrightarrow> create_tunnel e port lns hide secret st r = (Some (w, True), r') \<Longrightarrow> tunnel_reach cf w"
| accepted: "e_cf e = cf \<Longrightarrow> l2tp_udp_read1 e permitted port buf st r = Ok (Some (w, True), r') \<Longrightarrow> tunnel_reach cf w"
| event: "tunnel_reach cf w \<Longrightarrow> \<not> closed w \<Longrightarrow> e_cf e = cf \<Longrightarrow> local_event e w w' \<Longrightarrow> tunnel_reach cf w'"
| read: "tunnel_reach cf w \<Longrightarrow> \<not> closed w \<Longrightarrow> e_cf e = cf \<Longrightarrow> tunnel_reach cf (l2tp_conn_read e refused ds w)"
| data: "tunnel_reach cf w \<Longrightarrow> 0 < lingering w \<Longrightarrow> tunnel_reach cf (apses_destroy_freed w)"

lemma auth_event:
  assumes "local_event e w w'" "auth_inv cf w"
  shows "auth_inv cf w'"
  using assms(1)
proof cases
  case sccrq
  then show ?thesis
    by (simp add: run_SCCRQ_def auth_SCCRQ)
next
  case sccrp
  then show ?thesis
    by (simp add: run_SCCRP_def auth_SCCRP)
qed (auto intro!: auth_keeps [OF _ assms(2)] keeps)

lemma auth_start: "c_state (conn w) = STATE_INIT \<Longrightarrow> auth_inv cf (fst (l2tp_tunnel_start e f w))"
  using auth_keeps [OF keeps_connected] by (simp add: auth_inv_def)

lemma storechall_state: "c_state (conn (fst (l2tp_tunnel_storechall a w))) = c_state (conn w)"
  by (auto simp: l2tp_tunnel_storechall_def upd_c_def crash_def split: option.splits)

lemma alloc_state: "l2tp_tunnel_alloc e port fc lns ps hide st r = (Some w, r') \<Longrightarrow> c_state (conn w) = STATE_INIT"
  by (auto simp: l2tp_tunnel_alloc_def Let_def l2tp_stat_inc_def split: if_splits prod.splits option.splits)

lemma auth_setup: "c_state (conn w) = STATE_INIT \<Longrightarrow> auth_inv cf (fst (setup_tunnel e as t w))"
  unfolding setup_tunnel_def flat
  by (auto intro!: auth_start simp: auth_ended storechall_state upd_c_def split: option.split)

lemma auth_reach: "tunnel_reach cf w \<Longrightarrow> auth_inv cf w"
proof (induction rule: tunnel_reach.induct)
  case (created e port lns hide secret st r w r')
  then obtain v r1 where v: "l2tp_tunnel_alloc e port 3 lns False hide st r = (Some v, r1)"
    "fst (l2tp_tunnel_start e Call_SCCRQ (upd_c (\<lambda>c. c\<lparr>c_secret := secret\<rparr>) v)) = w"
    by (auto simp: create_tunnel_def split: prod.splits option.splits bool.splits)
  then show ?case
    using auth_start [of "upd_c (\<lambda>c. c\<lparr>c_secret := secret\<rparr>) v" cf e Call_SCCRQ] alloc_state [OF v(1)] by (simp add: upd_c_def)
next
  case (accepted e permitted port buf st r w r')
  then obtain q where "l2tp_recv_SCCRQ e q st r = (Some (w, True), r')"
    by (auto simp: l2tp_udp_read1_def bind_parse_Ok_iff split: if_splits list.splits)
  then obtain v r1 t ps where v: "l2tp_tunnel_alloc e (p_port q) ps True True (e_conf_hide e) st r = (Some v, r1)"
    "setup_tunnel e (p_attrs q) t (v\<lparr>delivered := [q]\<rparr>) = (w, False)"
    by (auto simp: l2tp_recv_SCCRQ_def Let_def split: if_splits option.splits prod.splits)
  then show ?case
    using auth_setup [of "v\<lparr>delivered := [q]\<rparr>" cf e "p_attrs q" t] alloc_state [OF v(1)] by simp
next
  case (event w e w')
  then show ?case
    using auth_event by blast
next
  case (read w e refused ds)
  then show ?case
    using auth_conn_read by blast
next
  case (data w)
  then show ?case
    using auth_keeps [OF keeps_apses_destroy_freed [OF keeps_refl]] by blast
qed

end
