(* ===== verification/L2tpRun.thy ===== *)
theory L2tpRun
  imports L2tpAuth
begin

text \<open>
  A run of two tunnel ends that share a secret, evaluated on the definitions: both ends set the tunnel up and authenticate each other. It shows that the
  hypotheses of the properties of tunnels can hold.
\<close>

definition run_md5 :: "bytes \<Rightarrow> bytes" where
  "run_md5 b = take 16 (rev b @ replicate 16 0)"

definition run_cf :: l2tp_conf where
  "run_cf = \<lparr>lc_dict = rfc2661_dict, lc_md5 = run_md5, lc_avp_permissive = False\<rparr>"

definition run_env :: l2tp_env where
  "run_env = \<lparr>e_cf = run_cf, e_sendto = (\<lambda>_. Sent), e_timer = True, e_socket = True, e_context = True, e_handler = True, e_call = True,
     e_used = (\<lambda>_. False), e_connect = True, e_sess_connect = True, e_data = True, e_port = True, e_shutdown = False, e_busy = False,
     e_addr = (\<lambda>_. 0), e_host_name = [65], e_hello_interval = 60, e_dataseq = 0, e_dir300 = False, e_conf_secret = Some [115], e_conf_hide = False,
     e_conf_timeout = 60, e_conf_rtimeout = 1, e_conf_rtimeout_cap = 16, e_conf_retransmit = 5, e_recv_window = 4\<rparr>"

definition run_rnd :: rand where
  "run_rnd = [Some [1, 2], Some [0, 0], Some [9], Some [7, 0]]"

section \<open>Plain messages\<close>

text \<open>Attributes that go out unhidden; the receiver sees them as they were added.\<close>

definition plain_req :: "avp_req \<Rightarrow> bool" where
  "plain_req r \<longleftrightarrow> req_id r \<noteq> Random_Vector \<and> length (req_raw r) \<le> 100 \<and>
     (\<exists>da. l2tp_dict_find_attr_by_id rfc2661_dict (req_id r) = Some da \<and> lda_H da \<in> {-1, 0} \<and> carries (lda_type da) (req_raw r) (req_val r) (length (req_raw r)))"

lemma rfc2661_dict_ok: "dict_ok rfc2661_dict"
  by (simp add: dict_ok_def rfc2661_dict_def dict_entry_def)

lemma add_plain:
  assumes "plain_req r" "\<not> p_hide pack" "lc_dict cf = rfc2661_dict"
  shows "add_req cf pack r x = ((pack\<lparr>p_attrs := p_attrs pack @ [req_attr rfc2661_dict r]\<rparr>, False), x)"
proof -
  obtain da where da: "l2tp_dict_find_attr_by_id rfc2661_dict (req_id r) = Some da" "lda_H da \<in> {-1, 0}" "length (req_raw r) \<le> 100"
    using assms(1) by (auto simp: plain_req_def)
  then have "attr_alloc (lc_dict cf) (req_id r) (req_M r) (p_hide pack) =
      Some \<lparr>la_attr = da, la_M = (if lda_M da \<noteq> -1 then lda_M da \<noteq> 0 else req_M r), la_H = False, la_length = 0, la_val = V64 0\<rparr>"
    using assms by (auto simp: attr_alloc_def)
  then show ?thesis
    using da by (cases r) (simp_all add: l2tp_packet_add_int16_def l2tp_packet_add_int32_def l2tp_packet_add_int64_def l2tp_packet_add_string_def
        l2tp_packet_add_octets_def add_attr_def req_attr_def)
qed

lemma add_plains:
  assumes "list_all plain_req rs" "\<not> p_hide pack" "lc_dict cf = rfc2661_dict"
  shows "add_reqs cf pack rs x = ((pack\<lparr>p_attrs := p_attrs pack @ map (req_attr rfc2661_dict) rs\<rparr>, False), x)"
  using assms by (induction rs arbitrary: pack) (simp_all add: add_plain)

lemma plain_attr:
  assumes "plain_req r" "lc_dict cf = rfc2661_dict"
  shows "sent_as cf secret RV (req_attr rfc2661_dict r) (req_attr rfc2661_dict r)" "write_value (req_attr rfc2661_dict r) = Ok (req_raw r)"
    "lda_id (la_attr (req_attr rfc2661_dict r)) = req_id r" "la_length (req_attr rfc2661_dict r) = length (req_raw r)"
    "la_val (req_attr rfc2661_dict r) = req_val r"
proof -
  obtain da where da: "l2tp_dict_find_attr_by_id rfc2661_dict (req_id r) = Some da" "lda_H da \<in> {-1, 0}"
    "carries (lda_type da) (req_raw r) (req_val r) (length (req_raw r))"
    using assms(1) by (auto simp: plain_req_def)
  have a: "la_attr (req_attr rfc2661_dict r) = da" "\<not> la_H (req_attr rfc2661_dict r)"
    using da(1) by (simp_all add: req_attr_def)
  show v: "la_length (req_attr rfc2661_dict r) = length (req_raw r)" "la_val (req_attr rfc2661_dict r) = req_val r"
    by (simp_all add: req_attr_def Let_def)
  show "lda_id (la_attr (req_attr rfc2661_dict r)) = req_id r"
    using find_in_dict [OF rfc2661_dict_ok da(1)] a by simp
  then have "agrees cf (req_attr rfc2661_dict r)"
    using da(1,2) assms(2) by (auto simp: agrees_def req_attr_def)
  then show "sent_as cf secret RV (req_attr rfc2661_dict r) (req_attr rfc2661_dict r)"
    using da(3) a v assms(2) rfc2661_dict_ok by (intro sent_plain) auto
  show "write_value (req_attr rfc2661_dict r) = Ok (req_raw r)"
    using a v da(3) by (auto simp: write_value_def carries_def)
qed

lemma plain_sends:
  assumes "list_all plain_req rs" "lc_dict cf = rfc2661_dict"
  shows "sends cf secret None (map (req_attr rfc2661_dict) rs) (map (req_attr rfc2661_dict) rs) \<and> last_RV None (map (req_attr rfc2661_dict) rs) = None"
proof -
  have n: "next_RV None (Some (req_attr rfc2661_dict r)) = None" if "plain_req r" for r
    using plain_attr(3) [OF that assms(2)] that by (simp add: next_RV_def plain_req_def)
  show ?thesis
    using assms(1) n plain_attr(1) [OF _ assms(2)] by (induction rs) (simp_all add: last_RV_def)
qed

lemma plain_send_avps:
  assumes "list_all plain_req rs" "l + 106 * length rs < 65536"
  shows "\<exists>body. send_avps (map (req_attr rfc2661_dict) rs) l = Ok body"
  using assms
proof (induction rs arbitrary: l)
  case (Cons r rs)
  define cf :: l2tp_conf where "cf = \<lparr>lc_dict = rfc2661_dict, lc_md5 = id, lc_avp_permissive = False\<rparr>"
  have "lc_dict cf = rfc2661_dict"
    by (simp add: cf_def)
  note a = plain_attr(2,4) [OF _ this, of r]
  have le: "length (req_raw r) \<le> 100"
    using Cons.prems by (simp add: plain_req_def)
  then obtain body where "send_avps (map (req_attr rfc2661_dict) rs) (l + 6 + length (req_raw r)) = Ok body"
    using Cons.IH [of "l + 6 + length (req_raw r)"] Cons.prems by auto
  then show ?case
    using a Cons.prems le by simp
qed simp

lemma plain_datagram:
  assumes "p_attrs p = map (req_attr rfc2661_dict) rs" "list_all plain_req rs" "length rs \<le> 100" "lc_dict cf = rfc2661_dict" "p_last_RV p = None"
    "p_hdr p = \<lparr>hdr_flags = 0xC802, hdr_length = l, hdr_tid = t, hdr_sid = s, hdr_Ns = ns, hdr_Nr = nr\<rparr>"
  obtains buf q where "l2tp_packet_send p = Ok buf" "l2tp_recv cf (p_secret p) port buf = Ok q" "p_attrs q = p_attrs p"
    "hdr_tid (p_hdr q) = t" "hdr_sid (p_hdr q) = s" "hdr_Ns (p_hdr q) = ns" "hdr_Nr (p_hdr q) = nr" "p_port q = port"
proof -
  obtain body where "send_avps (p_attrs p) 12 = Ok body"
    using plain_send_avps [OF assms(2), of 12] assms(1,3) by auto
  then obtain buf where b: "l2tp_packet_send p = Ok buf"
    by (simp add: l2tp_packet_send_def Let_def)
  have "built cf p (p_attrs p)"
    using plain_sends [OF assms(2,4)] assms(1,5) by (simp add: built_def)
  from recv_built [OF this, where ver = 2 and port = port, OF _ _ b] assms(6) obtain q where
    q: "l2tp_recv cf (p_secret p) port buf = Ok q" "p_attrs q = p_attrs p" "hdr_tid (p_hdr q) = t" "hdr_sid (p_hdr q) = s"
      "hdr_Ns (p_hdr q) = ns" "hdr_Nr (p_hdr q) = nr"
    by auto
  have "p_port q = port"
    using q(1) by (auto simp: l2tp_recv_def Let_def bind_parse_Ok_iff split: if_splits)
  then show ?thesis
    using that b q by blast
qed

section \<open>The run\<close>

lemma pick_id_hit:
  assumes "0 < n" "u_randbuf 2 r = (Some b, r')" "x = push_bit 8 (ucast (b ! 1)) OR ucast (b ! 0)" "x \<noteq> 0" "\<not> used x"
  shows "pick_id used n r = (Some x, r')"
  using assms by (cases n) (simp_all add: Let_def)

definition run_conn :: l2tp_conn where
  "run_conn = \<lparr>c_hnd = False, c_timeout_timer = False, c_timeout_period = 60000, c_finwait = False, c_rtimeout_timer = False,
     c_period = 1000, c_hello_timer = False, c_rtimeout = 1000, c_rtimeout_cap = 16000, c_max_retransmit = 5, c_port = 1701, c_tid = 513,
     c_peer_tid = 0, c_framing_cap = 3, c_lns_mode = False, c_hide = False, c_port_set = False, c_was_estb = False,
     c_challenge = None, c_secret = None, c_retransmit = 0, c_Ns = 0, c_Nr = 0, c_peer_Nr = 0, c_send_queue = [],
     c_rtms_queue = [], c_send_queue_len = 0, c_recv_queue = [None, None, None, None], c_recv_queue_offt = 0,
     c_peer_rcv_wnd_sz = 4, c_state = STATE_INIT, c_sessions = [], c_sess_count = 0\<rparr>"

definition run_world :: l2tp_world where
  "run_world = \<lparr>conn = run_conn, stat = (\<lambda>_. 0)(Conn_starting := 1), in_table = True, rnd = tl run_rnd, sent = [], committed = [], delivered = [], challenges = [],
     lingering = 0, start = None, crashed = False\<rparr>"

lemma run_alloc:
  "l2tp_tunnel_alloc run_env 1701 3 lns ps False (\<lambda>_. 0) run_rnd =
     (Some (upd_c (\<lambda>c. c\<lparr>c_lns_mode := lns, c_port_set := ps\<rparr>) run_world), tl run_rnd)"
proof -
  have "pick_id (\<lambda>_. False) 65535 run_rnd = (Some 513, tl run_rnd)"
    by (rule pick_id_hit [where b = "[1, 2]"]) (simp_all add: run_rnd_def push_bit_eq_mult)
  moreover have "replicate 4 None = [None, None, None, None]"
    by (simp add: numeral_eq_Suc)
  ultimately show ?thesis
    by (simp add: l2tp_tunnel_alloc_def run_env_def run_world_def run_conn_def l2tp_stat_inc_def upd_c_def)
qed

definition a0 :: l2tp_world where
  "a0 = fst (l2tp_tunnel_start run_env Call_SCCRQ (upd_c (\<lambda>c. c\<lparr>c_secret := Some [115]\<rparr>) run_world))"

lemma a0_made: "create_tunnel run_env 1701 False False (Some [115]) (\<lambda>_. 0) run_rnd = (Some (a0, True), rnd a0)"
proof -
  have "l2tp_tunnel_alloc run_env 1701 3 False False False (\<lambda>_. 0) run_rnd = (Some run_world, tl run_rnd)"
    unfolding run_alloc by (simp add: upd_c_def run_world_def run_conn_def)
  moreover have "l2tp_tunnel_start run_env Call_SCCRQ (upd_c (\<lambda>c. c\<lparr>c_secret := Some [115]\<rparr>) run_world) = (a0, False)"
    by (simp add: a0_def l2tp_tunnel_start_def run_env_def)
  ultimately show ?thesis
    by (simp add: create_tunnel_def)
qed

text \<open>A message of this end before it is sent.\<close>

definition run_msg :: "u16 \<Rightarrow> avp_req list \<Rightarrow> l2tp_packet" where
  "run_msg t rs = \<lparr>p_hdr = \<lparr>hdr_flags = 0xC802, hdr_length = 0, hdr_tid = 0, hdr_sid = 0, hdr_Ns = 0, hdr_Nr = 0\<rparr>,
     p_attrs = map (req_attr rfc2661_dict) (Req16 Message_Type t True # rs), p_last_RV = None, p_secret = Some [115], p_hide = False, p_port = 1701,
     p_sess = None, p_seq = 0, p_ack = 0\<rparr>"

lemma run_env_simps [simp]:
  "e_cf run_env = run_cf" "e_sendto run_env p = Sent" "e_timer run_env" "e_socket run_env" "e_context run_env" "e_handler run_env" "e_call run_env"
  "e_connect run_env" "\<not> e_shutdown run_env" "\<not> e_busy run_env" "e_port run_env" "e_hello_interval run_env = 60"
  "e_conf_secret run_env = Some [115]" "\<not> e_conf_hide run_env" "e_host_name run_env = [65]" "\<not> e_dir300 run_env" "lc_dict run_cf = rfc2661_dict" "lc_md5 run_cf = run_md5"
  by (simp_all add: run_env_def run_cf_def)

lemma lookup:
  "l2tp_dict_find_attr_by_id rfc2661_dict 0 = Some (dict_entry ''Message-Type'' 0 L2TP_INT16 (-1) 0)"
  "l2tp_dict_find_attr_by_id rfc2661_dict 2 = Some (dict_entry ''Protocol-Version'' 2 L2TP_INT16 1 0)"
  "l2tp_dict_find_attr_by_id rfc2661_dict 3 = Some (dict_entry ''Framing-Capabilities'' 3 L2TP_INT32 1 (-1))"
  "l2tp_dict_find_attr_by_id rfc2661_dict 7 = Some (dict_entry ''Host-Name'' 7 L2TP_STRING 1 0)"
  "l2tp_dict_find_attr_by_id rfc2661_dict 8 = Some (dict_entry ''Vendor-Name'' 8 L2TP_STRING 0 (-1))"
  "l2tp_dict_find_attr_by_id rfc2661_dict 9 = Some (dict_entry ''Assigned-Tunnel-ID'' 9 L2TP_INT16 1 (-1))"
  "l2tp_dict_find_attr_by_id rfc2661_dict 10 = Some (dict_entry ''Recv-Window-Size'' 10 L2TP_INT16 1 0)"
  "l2tp_dict_find_attr_by_id rfc2661_dict 11 = Some (dict_entry ''Challenge'' 11 L2TP_OCTETS 1 (-1))"
  "l2tp_dict_find_attr_by_id rfc2661_dict 13 = Some (dict_entry ''Challenge-Response'' 13 L2TP_OCTETS 1 (-1))"
  by (simp_all add: l2tp_dict_find_attr_by_id_def rfc2661_dict_def dict_entry_def)

lemma run_plain [simp]:
  "plain_req (Req16 0 x True)" "plain_req (Req16 2 x True)" "plain_req (Req32 3 y True)" "plain_req (Req16 9 x True)" "plain_req (Req16 10 x True)"
  "length b \<le> 100 \<Longrightarrow> plain_req (ReqString 7 b True)" "length b \<le> 100 \<Longrightarrow> plain_req (ReqString 8 b False)"
  "length b \<le> 100 \<Longrightarrow> plain_req (ReqOctets 11 b True)" "length b \<le> 100 \<Longrightarrow> plain_req (ReqOctets 13 b True)"
  by (simp_all add: plain_req_def lookup dict_entry_def carries_def)

definition run_attrs :: "avp_req list" where
  "run_attrs = [Req16 Protocol_Version 256 True, ReqString Host_Name [65] True, Req32 Framing_Capabilities 3 True,
      Req16 Assigned_Tunnel_ID 513 True, ReqString Vendor_Name (map (\<lambda>ch. of_char ch) ''accel-ppp'') False, Req16 Recv_Window_Size 4 True]"

lemma run_attrs_plain [simp]: "list_all plain_req run_attrs"
  by (simp add: run_attrs_def)

lemma make_msg:
  assumes "c_port (conn w) = 1701" "c_secret (conn w) = Some [115]" "list_all plain_req rs" "t \<noteq> 0"
  shows "make_packet run_env t False rs w = (Some (run_msg t rs), w)"
proof -
  have "L2TP_FLAG_T OR L2TP_FLAG_L OR L2TP_FLAG_S OR (2 AND L2TP_VER_MASK) = 0xC802"
    by simp
  then have "l2tp_packet_alloc run_cf 2 t 1701 False (Some [115]) x = (Some (run_msg t []), x)" for x
    using add_plain [of "Req16 Message_Type t True" _ run_cf x] assms(4) by (simp add: l2tp_packet_alloc_def run_msg_def)
  then show ?thesis
    using assms add_plains [of rs "run_msg t []" run_cf "rnd w"] by (simp add: make_packet_def run_msg_def)
qed

definition run_chall :: bytes where
  "run_chall = 9 # replicate 15 0"

lemma run_chall_simps [simp]: "length run_chall = 16"
  by (simp add: run_chall_def)

lemma challenge_msg:
  assumes "rnd w = [Some [0, 0], Some [9], Some [7, 0]]" "c_secret (conn w) = Some [115]" "length rs \<le> 100"
  shows "with_challenge run_env (run_msg t rs) w =
    ((run_msg t (rs @ [ReqOctets Challenge run_chall True]), False), upd_c (\<lambda>c. c\<lparr>c_challenge := Some run_chall\<rparr>) (w\<lparr>rnd := [Some [7, 0]], challenges := challenges w @ [run_chall]\<rparr>))"
proof -
  have "u_randbuf 2 (rnd w) = (Some [0, 0], [Some [9], Some [7, 0]])" "rand_len [0, 0] = 16" "u_randbuf 16 [Some [9], Some [7, 0]] = (Some run_chall, [Some [7, 0]])"
    using assms(1) by (simp_all add: rand_len_def run_chall_def numeral_eq_Suc)
  moreover have "l2tp_packet_add_octets run_cf (run_msg t rs) Challenge run_chall True x = ((run_msg t (rs @ [ReqOctets Challenge run_chall True]), False), x)" for x
    using add_plain [of "ReqOctets Challenge run_chall True" "run_msg t rs" run_cf x] by (simp add: run_msg_def)
  ultimately show ?thesis
    using assms(2) by (simp add: with_challenge_def l2tp_tunnel_genchall_def secret_of_def upd_c_def)
qed

lemma run_a0:
  "a0 = run_world\<lparr>conn := run_conn\<lparr>c_secret := Some [115], c_hnd := True, c_timeout_timer := True\<rparr>, start := Some Call_SCCRQ\<rparr>"
  by (simp add: a0_def l2tp_tunnel_start_def upd_c_def run_world_def run_conn_def)

lemma a0_attrs: "sccrx_attrs run_env (conn a0) = run_attrs"
  by (simp add: sccrx_attrs_def run_attrs_def run_a0 run_conn_def)

definition stamp :: "u16 \<Rightarrow> u16 \<Rightarrow> u16 \<Rightarrow> l2tp_packet \<Rightarrow> l2tp_packet" where
  "stamp t ns nr p = p\<lparr>p_hdr := (p_hdr p)\<lparr>hdr_tid := t, hdr_Ns := ns, hdr_Nr := nr\<rparr>, p_seq := unat ns, p_ack := unat nr\<rparr>"

definition dgram :: "l2tp_packet \<Rightarrow> bytes" where
  "dgram p = (case l2tp_packet_send p of Ok b \<Rightarrow> b | _ \<Rightarrow> [])"

definition parsed :: "u16 \<Rightarrow> l2tp_packet \<Rightarrow> l2tp_packet" where
  "parsed port p = (case l2tp_recv run_cf (Some [115]) port (dgram p) of Ok q \<Rightarrow> q | _ \<Rightarrow> p)"

lemma run_datagram:
  assumes "list_all plain_req rs" "length rs < 100" "p = stamp t ns nr (run_msg m rs)"
  shows "l2tp_packet_send p = Ok (dgram p)" "l2tp_recv run_cf (Some [115]) port (dgram p) = Ok (parsed port p)"
    "p_attrs (parsed port p) = map (req_attr rfc2661_dict) (Req16 Message_Type m True # rs)" "p_port (parsed port p) = port"
    "hdr_tid (p_hdr (parsed port p)) = t" "hdr_sid (p_hdr (parsed port p)) = 0" "hdr_Ns (p_hdr (parsed port p)) = ns" "hdr_Nr (p_hdr (parsed port p)) = nr"
proof -
  have p: "p_attrs p = map (req_attr rfc2661_dict) (Req16 Message_Type m True # rs)" "list_all plain_req (Req16 Message_Type m True # rs)"
    "length (Req16 Message_Type m True # rs) \<le> 100" "lc_dict run_cf = rfc2661_dict" "p_last_RV p = None"
    "p_hdr p = \<lparr>hdr_flags = 0xC802, hdr_length = 0, hdr_tid = t, hdr_sid = 0, hdr_Ns = ns, hdr_Nr = nr\<rparr>"
    using assms by (simp_all add: stamp_def run_msg_def)
  have s: "p_secret p = Some [115]"
    using assms(3) by (simp add: stamp_def run_msg_def)
  from plain_datagram [OF p, of port] obtain buf q where
    "l2tp_packet_send p = Ok buf" "l2tp_recv run_cf (p_secret p) port buf = Ok q" "p_attrs q = p_attrs p"
    "hdr_tid (p_hdr q) = t" "hdr_sid (p_hdr q) = 0" "hdr_Ns (p_hdr q) = ns" "hdr_Nr (p_hdr q) = nr" "p_port q = port"
    by metis
  then show "l2tp_packet_send p = Ok (dgram p)" "l2tp_recv run_cf (Some [115]) port (dgram p) = Ok (parsed port p)"
    "p_attrs (parsed port p) = map (req_attr rfc2661_dict) (Req16 Message_Type m True # rs)" "p_port (parsed port p) = port"
    "hdr_tid (p_hdr (parsed port p)) = t" "hdr_sid (p_hdr (parsed port p)) = 0" "hdr_Ns (p_hdr (parsed port p)) = ns" "hdr_Nr (p_hdr (parsed port p)) = nr"
    using p(1) s by (simp_all add: dgram_def parsed_def)
qed

text \<open>The messages of the set-up, as they are first sent.\<close>

definition sccrq :: l2tp_packet where
  "sccrq = stamp 0 0 0 (run_msg 1 (run_attrs @ [ReqOctets Challenge run_chall True]))"

definition response :: "u8 \<Rightarrow> avp_req" where
  "response i = ReqOctets Challenge_Response (comp_chap_md5 run_md5 i [115] run_chall) True"

definition sccrp :: l2tp_packet where
  "sccrp = stamp 513 0 1 (run_msg 2 (run_attrs @ [response 2, ReqOctets Challenge run_chall True]))"

lemma response_plain [simp]: "plain_req (response i)"
  by (simp add: response_def comp_chap_md5_def run_md5_def)

lemmas sccrq_datagram = run_datagram [OF _ _ sccrq_def]
lemmas sccrp_datagram = run_datagram [OF _ _ sccrp_def]

lemma nsnr_small: "nsnr_cmp 0 4 = -1" "nsnr_cmp 0 0 = 0" "nsnr_cmp 1 0 = 1" "nsnr_cmp 1 1 = 0" "nsnr_cmp 0 1 = -1" "nsnr_cmp 1 5 = -1"
  by code_simp+

definition a1 :: l2tp_world where
  "a1 = run_world\<lparr>conn := run_conn\<lparr>c_secret := Some [115], c_hnd := True, c_timeout_timer := True, c_challenge := Some run_chall, c_rtms_queue := [sccrq], c_Ns := 1,
      c_rtimeout_timer := True, c_state := STATE_WAIT_SCCRP\<rparr>,
    rnd := [Some [7, 0]], challenges := [run_chall], committed := [sccrq], sent := [sccrq]\<rparr>"

lemma a1_step: "run_SCCRQ run_env a0 = a1"
proof -
  define m where "m = run_msg 1 (run_attrs @ [ReqOctets Challenge run_chall True])"
  have "make_packet run_env 1 False (sccrx_attrs run_env (conn (a0\<lparr>start := None\<rparr>))) (a0\<lparr>start := None\<rparr>) = (Some (run_msg 1 run_attrs), a0\<lparr>start := None\<rparr>)"
    using a0_attrs by (subst make_msg) (simp_all add: run_a0 run_conn_def)
  moreover have "with_challenge run_env (run_msg 1 run_attrs) (a0\<lparr>start := None\<rparr>) =
      ((m, False), upd_c (\<lambda>c. c\<lparr>c_challenge := Some run_chall\<rparr>) (a0\<lparr>start := None, rnd := [Some [7, 0]], challenges := [run_chall]\<rparr>))"
    by (subst challenge_msg) (simp_all add: run_a0 run_world_def run_conn_def run_rnd_def run_attrs_def m_def)
  moreover have "l2tp_packet_send sccrq = Ok (dgram sccrq)"
    by (rule sccrq_datagram) (simp_all add: run_attrs_def)
  moreover have "m\<lparr>p_hdr := p_hdr m\<lparr>hdr_tid := 0\<rparr>\<rparr> = sccrq" "sccrq\<lparr>p_hdr := p_hdr sccrq\<lparr>hdr_Ns := 0\<rparr>, p_seq := 0\<rparr> = sccrq"
    "sccrq\<lparr>p_hdr := p_hdr sccrq\<lparr>hdr_Nr := 0\<rparr>, p_ack := 0\<rparr> = sccrq" "sccrq\<lparr>p_sess := None\<rparr> = sccrq"
    by (simp_all add: sccrq_def m_def stamp_def run_msg_def)
  ultimately show ?thesis
    by (simp add: run_SCCRQ_def l2tp_send_SCCRQ_def run_a0 run_world_def run_conn_def upd_c_def l2tp_tunnel_send_def l2tp_tunnel_push_sendqueue_def
        tunnel_send_now_def a1_def nsnr_small)
qed

definition b0 :: l2tp_world where
  "b0 = run_world\<lparr>conn := run_conn\<lparr>c_lns_mode := True, c_port_set := True, c_secret := Some [115], c_challenge := Some run_chall, c_peer_tid := 513, c_Nr := 1,
      c_hnd := True, c_timeout_timer := True\<rparr>, start := Some Call_SCCRP, delivered := [parsed 1701 sccrq]\<rparr>"

lemma run_attr_simps [simp]:
  "lda_id (la_attr (req_attr rfc2661_dict (Req16 0 x M))) = 0" "lda_id (la_attr (req_attr rfc2661_dict (Req16 2 x M))) = 2"
  "lda_id (la_attr (req_attr rfc2661_dict (Req32 3 y M))) = 3" "lda_id (la_attr (req_attr rfc2661_dict (Req16 9 x M))) = 9"
  "lda_id (la_attr (req_attr rfc2661_dict (Req16 10 x M))) = 10" "lda_id (la_attr (req_attr rfc2661_dict (ReqString 7 b M))) = 7"
  "lda_id (la_attr (req_attr rfc2661_dict (ReqString 8 b M))) = 8" "lda_id (la_attr (req_attr rfc2661_dict (ReqOctets 11 b M))) = 11"
  "lda_id (la_attr (req_attr rfc2661_dict (response i))) = 13"
  "la_val (req_attr rfc2661_dict r) = req_val r" "la_length (req_attr rfc2661_dict r) = length (req_raw r)"
  by (simp_all add: req_attr_def lookup dict_entry_def Let_def response_def)

lemma run_octets [simp]: "attr_octets (req_attr rfc2661_dict (ReqOctets i b M)) = Some b"
  by (simp add: attr_octets_def)

lemma b0_made: "l2tp_udp_read1 run_env True 1701 (dgram sccrq) (\<lambda>_. 0) run_rnd = Ok (Some (b0, True), rnd b0)"
proof -
  let ?q = "parsed 1701 sccrq"
  have q: "l2tp_recv run_cf (Some [115]) 1701 (dgram sccrq) = Ok ?q" "p_port ?q = 1701" "hdr_tid (p_hdr ?q) = 0"
    "p_attrs ?q = map (req_attr rfc2661_dict) (Req16 Message_Type 1 True # run_attrs @ [ReqOctets Challenge run_chall True])"
    by (rule sccrq_datagram; simp add: run_attrs_def)+
  have "setup_tunnel run_env (p_attrs ?q) 513 (upd_c (\<lambda>c. c\<lparr>c_lns_mode := True, c_port_set := True\<rparr>) run_world\<lparr>delivered := [?q]\<rparr>) = (b0, False)"
    by (simp add: setup_tunnel_def q last_attr_def run_attrs_def upd_c_def l2tp_tunnel_storechall_def secret_of_def l2tp_tunnel_start_def b0_def run_world_def run_conn_def)
  then have "l2tp_recv_SCCRQ run_env ?q (\<lambda>_. 0) run_rnd = (Some (b0, True), rnd b0)"
    using run_alloc [of True True] by (simp add: l2tp_recv_SCCRQ_def q last_attr_def run_attrs_def)
  then show ?thesis
    using q by (simp add: l2tp_udp_read1_def)
qed

lemma response_msg:
  "l2tp_packet_add_octets run_cf (run_msg m rs) Challenge_Response (comp_chap_md5 run_md5 i [115] run_chall) True x = ((run_msg m (rs @ [response i]), False), x)"
proof -
  have "\<not> p_hide (run_msg m rs)"
    by (simp add: run_msg_def)
  from add_plain [OF response_plain this, of run_cf i x] show ?thesis
    by (simp add: run_msg_def response_def)
qed

definition b1 :: l2tp_world where
  "b1 = b0\<lparr>conn := (conn b0)\<lparr>c_rtms_queue := [sccrp], c_Ns := 1, c_rtimeout_timer := True, c_state := STATE_WAIT_SCCCN\<rparr>,
     start := None, rnd := [Some [7, 0]], challenges := [run_chall], committed := [sccrp], sent := [sccrp]\<rparr>"

lemma b1_step: "run_SCCRP run_env b0 = b1"
proof -
  let ?w = "b0\<lparr>start := None\<rparr>"
  define m where "m = run_msg 2 (run_attrs @ [response 2, ReqOctets Challenge run_chall True])"
  have "sccrx_attrs run_env (conn ?w) = run_attrs"
    by (simp add: sccrx_attrs_def run_attrs_def b0_def run_conn_def)
  then have "make_packet run_env 2 False (sccrx_attrs run_env (conn ?w)) ?w = (Some (run_msg 2 run_attrs), ?w)"
    by (subst make_msg) (simp_all add: b0_def run_conn_def)
  moreover have "l2tp_tunnel_genchallresp run_env 2 (run_msg 2 run_attrs) ?w = ((run_msg 2 (run_attrs @ [response 2]), False), ?w)"
    by (simp add: l2tp_tunnel_genchallresp_def b0_def secret_of_def response_msg)
  moreover have "with_challenge run_env (run_msg 2 (run_attrs @ [response 2])) ?w =
      ((m, False), upd_c (\<lambda>c. c\<lparr>c_challenge := Some run_chall\<rparr>) (?w\<lparr>rnd := [Some [7, 0]], challenges := [run_chall]\<rparr>))"
    by (subst challenge_msg) (simp_all add: b0_def run_world_def run_conn_def run_rnd_def run_attrs_def m_def)
  moreover have "l2tp_packet_send sccrp = Ok (dgram sccrp)"
    by (rule sccrp_datagram) (simp_all add: run_attrs_def)
  moreover have "m\<lparr>p_seq := 0, p_hdr := p_hdr m\<lparr>hdr_tid := 513, hdr_Ns := 0, hdr_Nr := 1\<rparr>, p_ack := Suc 0\<rparr> = sccrp" "sccrp\<lparr>p_sess := None\<rparr> = sccrp"
    by (simp_all add: sccrp_def m_def stamp_def run_msg_def)
  ultimately show ?thesis
    by (simp add: run_SCCRP_def l2tp_send_SCCRP_def b0_def run_world_def run_conn_def upd_c_def l2tp_tunnel_send_def l2tp_tunnel_push_sendqueue_def
        tunnel_send_now_def b1_def nsnr_small)
qed

text \<open>The end that started the tunnel reads the answer of the other.\<close>

lemma sccrp_parsed:
  "l2tp_recv run_cf (Some [115]) 1701 (dgram sccrp) = Ok (parsed 1701 sccrp)" "p_port (parsed 1701 sccrp) = 1701" "hdr_tid (p_hdr (parsed 1701 sccrp)) = 513"
  "hdr_sid (p_hdr (parsed 1701 sccrp)) = 0" "hdr_Ns (p_hdr (parsed 1701 sccrp)) = 0" "hdr_Nr (p_hdr (parsed 1701 sccrp)) = 1"
  "p_attrs (parsed 1701 sccrp) = map (req_attr rfc2661_dict) (Req16 Message_Type 2 True # run_attrs @ [response 2, ReqOctets Challenge run_chall True])"
  by (rule sccrp_datagram; simp add: run_attrs_def)+

text \<open>The tunnel once the datagram is stored and the first message is acknowledged, and the tunnel that has handled the answer.\<close>

definition a1' :: l2tp_world where
  "a1' = a1\<lparr>conn := (conn a1)\<lparr>c_port_set := True, c_peer_Nr := 1, c_recv_queue := [Some (parsed 1701 sccrp), None, None, None], c_rtms_queue := [],
     c_rtimeout_timer := False\<rparr>\<rparr>"

definition scccn :: l2tp_packet where
  "scccn = stamp 513 1 1 (run_msg 3 [response 3])"

definition a1'' :: l2tp_world where
  "a1'' = a1'\<lparr>conn := (conn a1')\<lparr>c_recv_queue := [None, None, None, None], c_Nr := 1, c_peer_tid := 513, c_challenge := None,
     c_send_queue := [(run_msg 3 [response 3])\<lparr>p_hdr := (p_hdr (run_msg 3 [response 3]))\<lparr>hdr_tid := 513\<rparr>\<rparr>], c_send_queue_len := 1, c_timeout_timer := False, c_hello_timer := True,
     c_state := STATE_ESTB, c_was_estb := True\<rparr>, delivered := [parsed 1701 sccrp], stat := (\<lambda>_. 0)(Conn_starting := 0, Conn_active := 1)\<rparr>"

lemma a1_read: "read_loop run_env False [(1701, dgram sccrp)] False a1 =
  ((True, False), a1'\<lparr>conn := (conn a1')\<lparr>c_rtms_queue := [sccrq], c_rtimeout_timer := True\<rparr>\<rparr>)"
  by (simp add: a1'_def a1_def run_world_def run_conn_def sccrp_parsed l2tp_tunnel_update_peerport_def upd_c_def l2tp_tunnel_store_msg_def nsnr_small
      l2tp_packet_is_ZLB_def)

lemma a1_clean: "l2tp_tunnel_clean_rtmsqueue run_env (a1'\<lparr>conn := (conn a1')\<lparr>c_rtms_queue := [sccrq], c_rtimeout_timer := True\<rparr>\<rparr>) = (a1', False)"
proof -
  have "hdr_Ns (p_hdr sccrq) = 0"
    by (simp add: sccrq_def stamp_def)
  then show ?thesis
    by (simp add: l2tp_tunnel_clean_rtmsqueue_def a1'_def a1_def run_world_def run_conn_def upd_c_def del_rtimeout_def nsnr_small Let_def)
qed

lemma a1_answer: "process_msg run_env (parsed 1701 sccrp) (take_msg 0 (parsed 1701 sccrp) a1') = a1''"
proof -
  have e: "attr_octets (req_attr rfc2661_dict (response i)) = Some (comp_chap_md5 run_md5 i [115] run_chall)" "length (req_raw (response i)) = 16" for i
    by (simp_all add: response_def comp_chap_md5_def run_md5_def)
  have m: "make_packet run_env 3 False [] w = (Some (run_msg 3 []), w)" if "c_port (conn w) = 1701" "c_secret (conn w) = Some [115]" for w
    using that by (simp add: make_msg)
  show ?thesis
    by (simp add: process_msg_def take_msg_def sccrp_parsed l2tp_tunnel_recv_def l2tp_recv_SCCRP_def last_attr_def unknown_mandatory_def run_attrs_def
        sccrp_window_def sccrp_reply_def l2tp_tunnel_checkchallresp_def l2tp_tunnel_storechall_def l2tp_send_SCCCN_def m l2tp_tunnel_genchallresp_def
        response_msg secret_of_def e l2tp_tunnel_connect_def l2tp_tunnel_send_def del_timeout_def l2tp_stat_move_def l2tp_stat_inc_def l2tp_stat_dec_def
        upd_c_def a1'_def a1_def run_world_def run_conn_def a1''_def Let_def)
qed

definition a2 :: l2tp_world where
  "a2 = a1''\<lparr>conn := (conn a1'')\<lparr>c_recv_queue_offt := 1, c_send_queue := [], c_send_queue_len := 0, c_rtms_queue := [scccn], c_Ns := 2, c_rtimeout_timer := True\<rparr>,
     committed := [sccrq, scccn], sent := [sccrq, scccn]\<rparr>"

lemmas run_worlds = a2_def a1''_def a1'_def a1_def run_world_def run_conn_def

lemma a1_reply: "l2tp_tunnel_reply run_env True a1' = (a2, 1)"
proof -
  let ?q = "parsed 1701 sccrp"
  have "c_recv_queue (conn a1') ! 0 = Some ?q" "\<not> closed a1'"
    by (simp_all add: a1'_def closed_def a1_def)
  note l = reply_loop_unfold [OF this, of run_env, unfolded a1_answer]
  have "reply_loop run_env (Suc n) (Suc 0) a1'' = (0, a1'')" for n
    by (simp add: a1''_def)
  then have loop: "reply_loop run_env (Suc (c_recv_queue_sz (conn a1'))) (unat (c_recv_queue_offt (conn a1'))) a1' = (1, a1'')"
    using l [of "Suc (Suc (Suc (Suc 0)))"] by (simp add: a1''_def a1'_def a1_def run_world_def run_conn_def del: reply_loop.simps)
  have "l2tp_packet_send scccn = Ok (dgram scccn)"
    by (rule run_datagram(1) [OF _ _ scccn_def]) simp_all
  moreover have "(run_msg 3 [response 3])\<lparr>p_seq := Suc 0, p_hdr := p_hdr (run_msg 3 [response 3])\<lparr>hdr_tid := 513, hdr_Ns := 1, hdr_Nr := 1\<rparr>, p_ack := Suc 0\<rparr> = scccn"
    "scccn\<lparr>p_sess := None\<rparr> = scccn"
    by (simp_all add: scccn_def stamp_def run_msg_def)
  ultimately show ?thesis
    unfolding l2tp_tunnel_reply_def loop by (simp add: l2tp_tunnel_push_sendqueue_def tunnel_send_now_def upd_c_def nsnr_small run_worlds)
qed

lemma a2_step: "l2tp_conn_read run_env False [(1701, dgram sccrp)] a1 = a2"
  by (simp only: l2tp_conn_read_def a1_read prod.case bool.case a1_clean a1_reply) (simp add: run_worlds)

section \<open>The run is one of the link\<close>

lemma run_conf: "conf_ok run_cf run_env"
  by (simp add: conf_ok_def) (simp add: run_env_def)

lemma run_small:
  "small_window (parsed 1701 sccrq)" "small_window (parsed 1701 sccrp)"
proof -
  have q: "p_attrs (parsed 1701 sccrq) = map (req_attr rfc2661_dict) (Req16 Message_Type 1 True # run_attrs @ [ReqOctets Challenge run_chall True])"
    by (rule sccrq_datagram) (simp_all add: run_attrs_def)
  then show "small_window (parsed 1701 sccrq)" "small_window (parsed 1701 sccrp)"
    by (simp_all add: small_window_def sccrp_parsed run_attrs_def)
qed

lemma run_open: "\<not> closed a0" "\<not> closed a1" "\<not> closed b0" "start a0 = Some Call_SCCRQ" "start b0 = Some Call_SCCRP"
  by (simp_all add: closed_def run_a0 a1_def b0_def run_conn_def)

lemma reach_0: "link_reach run_cf (a0, None)"
  using link_reach.created [OF run_conf a0_made] .

lemma step_1: "link_step run_cf (a0, None) (a1, None)"
  using link_step.local_a [OF _ run_conf local_event.sccrq, of a0 None] run_open by (simp add: a1_step)

lemma step_2: "link_step run_cf (a1, None) (a1, Some b0)"
proof (rule link_step.accept [OF run_conf, where p = sccrq and buf = "dgram sccrq" and port = 1701])
  show "sccrq \<in> set (sent a1)" "p_seq sccrq = 0"
    by (simp_all add: a1_def sccrq_def stamp_def)
  show "l2tp_packet_send sccrq = Ok (dgram sccrq)"
    by (rule sccrq_datagram) (simp_all add: run_attrs_def)
  have "l2tp_recv run_cf (Some [115]) 1701 (dgram sccrq) = Ok (parsed 1701 sccrq)"
    by (rule sccrq_datagram) (simp_all add: run_attrs_def)
  then show "\<And>q. l2tp_recv run_cf (e_conf_secret run_env) 1701 (dgram sccrq) = Ok q \<Longrightarrow> small_window q"
    using run_small(1) by simp
qed (rule b0_made)

lemma step_3: "link_step run_cf (a1, Some b0) (a1, Some b1)"
  using link_step.local_b [OF _ run_conf local_event.sccrp, of b0 a1] run_open by (simp add: b1_step)

lemma step_4: "link_step run_cf (a1, Some b1) (a2, Some b1)"
proof -
  have "datagram run_cf (sent b1) a1 (1701, dgram sccrp)"
    using sccrp_datagram(1) sccrp_parsed(1) run_small(2)
    by (simp add: datagram_def b1_def run_attrs_def timely_def rx_def tx_def a1_def run_world_def sccrp_def stamp_def)
  then show ?thesis
    using link_step.read_a [OF _ run_conf, of a1 "[(1701, dgram sccrp)]" "Some b1" False] run_open by (simp add: a2_step peer_sent_def)
qed

lemma run_reach: "link_reach run_cf (a1, Some b1)" "link_reach run_cf (a2, Some b1)"
  using reach_0 step_1 step_2 step_3 step_4 link_reach.step by blast+

lemma run_tunnel_reach: "tunnel_reach run_cf a2"
proof -
  have "tunnel_reach run_cf a0"
    using tunnel_reach.created [OF _ a0_made] by simp
  moreover have "local_event run_env a0 a1"
    using local_event.sccrq [of a0 run_env] run_open by (simp add: a1_step)
  ultimately have "tunnel_reach run_cf a1"
    using tunnel_reach.event [of run_cf a0 run_env a1] run_open by simp
  from tunnel_reach.read [OF this, of run_env False "[(1701, dgram sccrp)]"] show ?thesis
    using run_open by (simp add: a2_step)
qed

end
