(* ===== verification/L2tpProps.thy ===== *)
theory L2tpProps
  imports L2tpRun L2tpPacketCorrect
begin

text \<open>
  Properties of the L2TP part (\<^verbatim>\<open>accel-pppd/ctrl/l2tp\<close>): the control channel between two ends, the authentication of tunnels, and the
  packets. The run of \<open>L2tpRun\<close> provides the witnesses.
\<close>

section \<open>The control channel\<close>

lemma u16_nat_le:
  assumes "(of_nat x :: u16) = of_nat y" "x \<le> y" "y < x + 65536"
  shows "x = y"
proof -
  have "(of_nat (y - x) :: u16) = 0"
    using assms by (simp add: of_nat_diff)
  then have "65536 dvd y - x"
    by (simp add: word_of_nat_eq_0_iff)
  then show ?thesis
    using assms by (auto dest: dvd_imp_le)
qed

lemma u16_nat_inj: "(of_nat x :: u16) = of_nat y \<Longrightarrow> x < y + 65536 \<Longrightarrow> y < x + 65536 \<Longrightarrow> x = y"
  using u16_nat_le [of x y] u16_nat_le [of y x] by (cases "x \<le> y") auto

lemma link_in_order:
  assumes "link_inv cf s"
  shows "list_all2 (carried cf (c_secret (conn (fst s)))) (received (to_a s)) (delivered (fst s))"
    "snd s = Some b \<Longrightarrow> list_all2 (carried cf (c_secret (conn b))) (received (to_b s)) (delivered b)"
  using assms
  by (auto simp: link_inv_def dir_ok_def recv_ok_def in_order_def to_a_def to_b_def fifo_of_def split: prod.splits option.splits)

text \<open>
  C2. The control channel of two tunnel ends implements two FIFO queues. The network between the ends loses, repeats and reorders datagrams (up to a delay of
  32767 messages); still every step of the ends - timers, retransmissions, arriving datagrams, new sessions, the end of the tunnel - is a sequence of
  puts and gets of the two queues, and what an end has handled is, message by message, what the other has put in.
\<close>

theorem control_channel_refines_fifo:
  assumes "link_reach cf s" "link_step cf s s'"
  shows "fifo_step\<^sup>*\<^sup>* (to_b s) (to_b s') \<and> fifo_step\<^sup>*\<^sup>* (to_a s) (to_a s') \<and>
    list_all2 (carried cf (c_secret (conn (fst s')))) (received (to_a s')) (delivered (fst s')) \<and>
    (\<forall>b. snd s' = Some b \<longrightarrow> list_all2 (carried cf (c_secret (conn b))) (received (to_b s')) (delivered b))"
proof -
  have s: "link_inv cf s"
    by (rule link_reach_inv [OF assms(1)])
  then have s': "link_inv cf s'" "ends_grow s s'"
    using link_step_inv [OF assms(2)] by simp_all
  show ?thesis
    using link_fifo [OF s s'] link_in_order [OF s'(1)] by blast
qed

theorem control_channel_refines_fifo_witness:
  "fifo_step\<^sup>*\<^sup>* (to_a (a1, Some b1)) (to_a (a2, Some b1)) \<and> received (to_a (a1, Some b1)) = [] \<and> received (to_a (a2, Some b1)) = [sccrp]"
  using control_channel_refines_fifo [OF run_reach(1) step_4] by (simp add: to_a_def fifo_of_def rx_def b1_def run_worlds)

text \<open>
  C16. In every state of the link the messages that an open end keeps for retransmission are exactly the ones that the peer has not acknowledged, under
  consecutive numbers that are all different; there are at most 32767 of them, so that the comparison of 16-bit numbers is never ambiguous.
\<close>

theorem retransmission_queue_exact:
  assumes "link_reach cf s" "fst s = w \<or> snd s = Some w" "\<not> closed w"
  shows "map (\<lambda>p. hdr_Ns (p_hdr p)) (c_rtms_queue (conn w)) = map of_nat [acked w..<tx w] \<and> c_Ns (conn w) = of_nat (tx w) \<and>
    c_peer_Nr (conn w) = of_nat (acked w) \<and> length (c_rtms_queue (conn w)) \<le> 32767 \<and> distinct (map (\<lambda>p. hdr_Ns (p_hdr p)) (c_rtms_queue (conn w)))"
proof -
  have "link_inv cf (fst s, snd s)"
    using link_reach_inv [OF assms(1)] by simp
  then have ok: "chan_ok w"
    using inv_chan assms(2) by metis
  then have b: "rtms_ok w" "\<forall>i < tx w. hdr_Ns (p_hdr (committed w ! i)) = of_nat i" "c_Ns (conn w) = of_nat (tx w)" "c_peer_Nr (conn w) = of_nat (acked w)"
    using assms(3) by (simp_all add: chan_ok_def base_ok_def)
  have n: "hdr_Ns (p_hdr (strip p)) = hdr_Ns (p_hdr p)" for p
    by (simp add: strip_def)
  have "map (\<lambda>p. hdr_Ns (p_hdr p)) (c_rtms_queue (conn w)) = map (\<lambda>p. hdr_Ns (p_hdr p)) (map strip (c_rtms_queue (conn w)))"
    by (simp add: n)
  also have "\<dots> = map (\<lambda>p. hdr_Ns (p_hdr p)) (drop (acked w) (committed w))"
    using b(1) by (simp add: rtms_ok_def n)
  also have "\<dots> = map of_nat [acked w..<tx w]"
    using b(2) by (intro nth_equalityI) (auto simp: tx_def)
  finally have m: "map (\<lambda>p. hdr_Ns (p_hdr p)) (c_rtms_queue (conn w)) = map of_nat [acked w..<tx w]" .
  have l: "length (c_rtms_queue (conn w)) \<le> 32767"
    using b(1) by (simp add: rtms_ok_def)
  then have "tx w \<le> acked w + 32767"
    using tx_acked [OF ok assms(3)] by simp
  then have "inj_on (of_nat :: nat \<Rightarrow> u16) {acked w..<tx w}"
    by (intro inj_onI) (auto intro: u16_nat_inj)
  then show ?thesis
    using m l b(3,4) by (simp add: distinct_map)
qed

theorem retransmission_queue_exact_witness:
  "map (\<lambda>p. hdr_Ns (p_hdr p)) (c_rtms_queue (conn a2)) = map of_nat [acked a2..<tx a2] \<and> acked a2 = 1 \<and> tx a2 = 2"
  using retransmission_queue_exact [OF run_reach(2), of a2] by (simp add: closed_def acked_def tx_def run_worlds)



section \<open>Retransmission\<close>

lemma free_closed: "\<not> closed w \<Longrightarrow> \<not> call_state w \<Longrightarrow> closed (l2tp_tunnel_free w)"
  using tunnel_free_core [of w] by (simp add: core_def)

lemma del_rtimeout_state: "closed (del_rtimeout w) = closed w" "call_state (del_rtimeout w) = call_state w"
  by (simp_all add: del_rtimeout_def closed_def call_state_def)

lemma rtimeout_turn:
  assumes "c_rtms_queue (conn w) \<noteq> []" "\<not> closed w" "\<not> call_state w" "w' = l2tp_rtimeout e w"
  shows "closed w' \<or> c_retransmit (conn w) < c_max_retransmit (conn w) \<and> c_rtms_queue (conn w') \<noteq> [] \<and> \<not> call_state w' \<and>
     c_retransmit (conn w') = c_retransmit (conn w) + 1 \<and> c_max_retransmit (conn w') = c_max_retransmit (conn w)"
proof -
  obtain p q where q: "c_rtms_queue (conn w) = p # q"
    using assms(1) by (cases "c_rtms_queue (conn w)") auto
  define v where "v = upd_c (\<lambda>c. c\<lparr>c_retransmit := c_retransmit c + 1\<rparr>) w"
  have s: "conn (snd (tunnel_send_now e p v)) = conn v"
    by (auto simp: tunnel_send_now_def Let_def crash_def split: parse.splits send_result.splits)
  have cl: "closed (l2tp_tunnel_free (del_rtimeout u))" if "c_state (conn u) = c_state (conn w)" for u
    using that assms(2,3) free_closed [of "del_rtimeout u"] del_rtimeout_state [of u] by (simp add: closed_def call_state_def)
  show ?thesis
    using assms(3) s unfolding assms(4) l2tp_rtimeout_def q
    by (auto simp: Let_def v_def [symmetric] intro!: cl split: prod.splits bool.splits)
       (auto simp: v_def call_state_def)
qed

text \<open>
  C17. A peer that stays silent loses the tunnel: with an unacknowledged message in the queue, after at most \<^verbatim>\<open>max_retransmit - retransmit + 1\<close>
  expirations of the retransmission timer the tunnel is closed, whatever becomes of the datagrams that are sent meanwhile.
\<close>

theorem silent_peer_loses_tunnel:
  assumes "c_rtms_queue (conn w) \<noteq> []" "\<not> closed w" "\<not> call_state w"
  shows "\<exists>n \<le> Suc (nat (c_max_retransmit (conn w) - c_retransmit (conn w))). closed ((l2tp_rtimeout e ^^ n) w)"
  using assms
proof (induction "nat (c_max_retransmit (conn w) - c_retransmit (conn w))" arbitrary: w rule: less_induct)
  case less
  define w' where "w' = l2tp_rtimeout e w"
  show ?case
  proof (cases "closed w'")
    case True
    then show ?thesis
      by (intro exI [of _ 1]) (simp add: w'_def)
  next
    case False
    note t = rtimeout_turn [OF less.prems w'_def]
    then obtain n where n: "n \<le> Suc (nat (c_max_retransmit (conn w') - c_retransmit (conn w')))" "closed ((l2tp_rtimeout e ^^ n) w')"
      using less.hyps [of w'] False by auto
    have "n \<le> nat (c_max_retransmit (conn w) - c_retransmit (conn w))"
      using t False n(1) by auto
    then show ?thesis
      using n(2) by (intro exI [of _ "Suc n"]) (simp add: w'_def funpow_swap1)
  qed
qed

theorem silent_peer_loses_tunnel_witness: "\<exists>n \<le> 6. closed ((l2tp_rtimeout run_env ^^ n) a2)"
  using silent_peer_loses_tunnel [of a2 run_env] by (simp add: run_worlds closed_def call_state_def)

section \<open>Authentication\<close>

text \<open>
  C3. Whatever datagrams a tunnel receives, from whomever: when it is established and has a secret, it has handled a message whose Challenge Response is the MD5
  digest of the message's number, the secret and a challenge that this end has drawn itself, of at least 16 random bytes.
\<close>

theorem established_tunnel_authenticated:
  assumes "tunnel_reach cf w" "c_state (conn w) = STATE_ESTB" "secret_of (conn w) = Some s"
  shows "\<exists>q \<in> set (delivered w). \<exists>a \<in> set (p_attrs q). \<exists>ch \<in> set (challenges w). \<exists>i \<in> {2, 3}.
    16 \<le> length ch \<and> lda_id (la_attr a) = Challenge_Response \<and> attr_octets a = Some (comp_chap_md5 (lc_md5 cf) i s ch)"
  using auth_reach [OF assms(1)] assms(2,3) by (simp add: auth_inv_def proven_def)

theorem established_tunnel_authenticated_witness:
  "\<exists>a \<in> set (p_attrs (parsed 1701 sccrp)). \<exists>i \<in> {2, 3}. lda_id (la_attr a) = Challenge_Response \<and> attr_octets a = Some (comp_chap_md5 run_md5 i [115] run_chall)"
proof -
  have "c_state (conn a2) = STATE_ESTB" "secret_of (conn a2) = Some [115]" "delivered a2 = [parsed 1701 sccrp]" "challenges a2 = [run_chall]"
    by (simp_all add: run_worlds secret_of_def)
  with established_tunnel_authenticated [OF run_tunnel_reach this(1,2)] show ?thesis
    by auto
qed



lemma nsnr_window:
  "nsnr_cmp ns (ns + 32768) = 1"
  "0 < sz \<Longrightarrow> sz < 32768 \<Longrightarrow> nsnr_cmp ns (ns + sz) = -1"
proof -
  show "nsnr_cmp ns (ns + 32768) = 1"
    using nsnr_cmp_diff [of 32768 ns "ns + 32768"] by simp
  assume sz: "0 < sz" "sz < 32768"
  then have "0 < uint sz" "uint sz < 32768"
    by (simp_all add: word_less_def)
  then show "nsnr_cmp ns (ns + sz) = -1"
    using nsnr_cmp_diff [of "- uint sz" ns "ns + sz"] by (simp add: sgn_if)
qed

lemma send_now_committed: "committed (snd (tunnel_send_now e p w)) = committed w"
  by (auto simp: tunnel_send_now_def Let_def crash_def split: parse.splits send_result.splits)

lemma push_loop_committed: "length (committed w) \<le> length (committed (snd (push_loop e m q w)))"
proof (induction q arbitrary: w)
  case (Cons p q)
  define p1 where "p1 = p\<lparr>p_hdr := (p_hdr p)\<lparr>hdr_Ns := c_Ns (conn w)\<rparr>, p_seq := length (committed w)\<rparr>"
  obtain p2 failed w1 where s: "tunnel_send_now e p1 w = ((p2, failed), w1)"
    by (metis prod.exhaust)
  have c: "committed w1 = committed w"
    using send_now_committed [of e p1 w] s by simp
  have "length (committed w) \<le> length (committed (snd (push_loop e m q (commits p2 q w1))))"
    using Cons.IH [of "commits p2 q w1"] c by (simp add: commits_def)
  then show ?case
    using s c by (cases failed) (auto simp: Let_def p1_def [symmetric] commits_def upd_c_def split: prod.splits)
qed simp

text \<open>
  C39. The largest receive window that \<^verbatim>\<open>l2tp_recv_SCCRP\<close> accepts, 32768, stalls the tunnel: as long as the peer has acknowledged everything nothing is sent
  any more, because \<^verbatim>\<open>nsnr_cmp\<close> takes a number for greater than the one 32768 above it. Any smaller window lets the first message of the queue out.
\<close>

theorem largest_window_stalls:
  assumes "last_attr Recv_Window_Size as = Some a" "c_Ns (conn w) = c_peer_Nr (conn w)" "sccrp_window e as w = (w', failed)"
    "c_send_queue (conn w) = p # q" "l2tp_packet_send (p\<lparr>p_hdr := (p_hdr p)\<lparr>hdr_Ns := c_Ns (conn w), hdr_Nr := c_Nr (conn w)\<rparr>\<rparr>) = Ok buf" "\<And>x. e_sendto e x = Sent"
  shows "(val_uint16 e (la_val a) = 32768 \<longrightarrow> \<not> failed \<and> l2tp_tunnel_push_sendqueue e w' = (w', 0)) \<and>
    (0 < val_uint16 e (la_val a) \<and> val_uint16 e (la_val a) < 32768 \<longrightarrow>
      \<not> failed \<and> length (committed w) < length (committed (fst (l2tp_tunnel_push_sendqueue e w'))))"
proof -
  define sz where "sz = val_uint16 e (la_val a)"
  have w': "w' = upd_c (\<lambda>c. c\<lparr>c_peer_rcv_wnd_sz := sz\<rparr>) w \<and> \<not> failed" if "0 < sz" "sz \<le> 32768"
    using assms(1,3) that by (auto simp: sccrp_window_def Let_def sz_def split: if_splits)
  have "\<not> failed \<and> l2tp_tunnel_push_sendqueue e w' = (w', 0)" if "sz = 32768"
    using w' that assms(2,4) by (simp add: l2tp_tunnel_push_sendqueue_def nsnr_window upd_c_def)
  moreover have "\<not> failed \<and> length (committed w) < length (committed (fst (l2tp_tunnel_push_sendqueue e w')))" if "0 < sz" "sz < 32768"
  proof -
    have e: "w' = upd_c (\<lambda>c. c\<lparr>c_peer_rcv_wnd_sz := sz\<rparr>) w" "\<not> failed"
      using w' that by simp_all
    define m where "m = c_peer_Nr (conn w') + sz"
    obtain p2 w1 where s: "tunnel_send_now e (p\<lparr>p_hdr := (p_hdr p)\<lparr>hdr_Ns := c_Ns (conn w')\<rparr>, p_seq := length (committed w')\<rparr>) w' = ((p2, False), w1)" "committed w1 = committed w"
      using assms(5,6) e by (simp add: tunnel_send_now_def l2tp_packet_send_def upd_c_def Let_def)
    have "nsnr_cmp (c_Ns (conn w')) m = -1"
      using nsnr_window(2) [OF that, of "c_Ns (conn w)"] assms(2) e by (simp add: m_def upd_c_def)
    then have "snd (push_loop e m (p # q) w') = snd (push_loop e m q (commits p2 q w1))"
      using s(1) by (simp add: commits_def split: prod.splits)
    moreover have "length (committed (commits p2 q w1)) = Suc (length (committed w))"
      using s(2) by (simp add: commits_def)
    ultimately have "length (committed w) < length (committed (snd (push_loop e m (p # q) w')))"
      using push_loop_committed [of "commits p2 q w1" e m q] by simp
    moreover have "committed (fst (l2tp_tunnel_push_sendqueue e w')) = committed (snd (push_loop e m (p # q) w'))"
      using assms(4) e by (simp add: l2tp_tunnel_push_sendqueue_def m_def upd_c_def Let_def split: prod.splits bool.splits)
    ultimately show ?thesis
      using e by simp
  qed
  ultimately show ?thesis
    unfolding sz_def by simp
qed

theorem largest_window_stalls_witness:
  "\<exists>w. c_send_queue (conn w) = [scccn] \<and> c_peer_rcv_wnd_sz (conn w) = 32768 \<and> l2tp_tunnel_push_sendqueue run_env w = (w, 0)"
proof -
  define w where "w = upd_c (\<lambda>c. c\<lparr>c_send_queue := [scccn], c_Ns := 1, c_rtms_queue := []\<rparr>) a2"
  define as where "as = map (req_attr rfc2661_dict) [Req16 Recv_Window_Size 32768 True]"
  have "l2tp_packet_send scccn = Ok (dgram scccn)" "scccn\<lparr>p_hdr := p_hdr scccn\<lparr>hdr_Ns := 1, hdr_Nr := 1\<rparr>\<rparr> = scccn"
    by (rule run_datagram(1) [OF _ _ scccn_def]) (simp_all add: scccn_def stamp_def)
  then have "\<not> snd (sccrp_window run_env as w) \<and> l2tp_tunnel_push_sendqueue run_env (fst (sccrp_window run_env as w)) = (fst (sccrp_window run_env as w), 0)"
    using largest_window_stalls [of as "req_attr rfc2661_dict (Req16 10 32768 True)" w run_env "fst (sccrp_window run_env as w)" "snd (sccrp_window run_env as w)" scccn "[]" "dgram scccn"]
    by (simp add: as_def last_attr_def w_def upd_c_def run_worlds)
  then show ?thesis
    by (intro exI [of _ "fst (sccrp_window run_env as w)"]) (simp add: sccrp_window_def as_def last_attr_def w_def upd_c_def run_worlds)
qed

section \<open>Packets\<close>

text \<open>
  C9. No datagram makes \<^verbatim>\<open>l2tp_recv\<close> read outside its buffers or use a value as a pointer that is none, whatever its bytes are; and when it
  accepts a packet, every attribute has a value of the type and length that its dictionary entry asks for, and none is hidden any more.
\<close>

theorem l2tp_recv_safe:
  assumes "md5_sized (lc_md5 cf)" "dict_rv (lc_dict cf)"
  shows "l2tp_recv cf secret port buf \<noteq> Fault \<and>
    (\<forall>pack. l2tp_recv cf secret port buf = Ok pack \<longrightarrow> (\<forall>a \<in> set (p_attrs pack). typed a \<and> in_dict (lc_dict cf) a \<and> \<not> la_H a))"
  by (rule l2tp_recv_total [OF assms])

lemma run_md5_sized: "md5_sized run_md5"
  by (simp add: run_md5_def min_def)

theorem l2tp_recv_safe_witness:
  "l2tp_recv run_cf (Some [115]) 1701 (dgram sccrp) = Ok (parsed 1701 sccrp) \<and>
   list_all (\<lambda>a. typed a \<and> in_dict rfc2661_dict a \<and> \<not> la_H a) (p_attrs (parsed 1701 sccrp))"
proof -
  have "dict_rv rfc2661_dict"
    by (simp add: dict_rv_def l2tp_dict_find_attr_by_id_def rfc2661_dict_def dict_entry_def)
  then show ?thesis
    using l2tp_recv_safe [of run_cf "Some [115]" 1701 "dgram sccrp"] run_md5_sized sccrp_parsed(1) by (simp add: list_all_iff)
qed

text \<open>
  C10. What one end puts into a packet the other end gets out: the attributes that were added to a new packet, hidden with the shared secret or not, are those
  that \<^verbatim>\<open>l2tp_recv\<close> finds in the datagram, in their order (besides the random vectors that hiding inserts), and the header arrives as it was set.
\<close>

theorem l2tp_packet_roundtrip:
  assumes "dict_ok (lc_dict cf)" "md5_sized (lc_md5 cf)" "\<forall>r \<in> set (Req16 Message_Type t True # rs). req_ok (lc_dict cf) r" "t \<noteq> 0"
    and "l2tp_packet_alloc cf 2 t p H secret x = (Some pack, x')" "add_reqs cf pack rs x' = ((pack', False), x'')"
    and "l2tp_packet_send (pack'\<lparr>p_hdr := (p_hdr pack')\<lparr>hdr_tid := tid, hdr_sid := sid, hdr_Ns := ns, hdr_Nr := nr\<rparr>\<rparr>) = Ok dgrm"
  shows "\<exists>q. l2tp_recv cf secret port dgrm = Ok q \<and> filter not_rv (p_attrs q) = map (req_attr (lc_dict cf)) (Req16 Message_Type t True # rs) \<and>
    hdr_tid (p_hdr q) = tid \<and> hdr_sid (p_hdr q) = sid \<and> hdr_Ns (p_hdr q) = ns \<and> hdr_Nr (p_hdr q) = nr"
proof -
  let ?flags = "L2TP_FLAG_T OR L2TP_FLAG_L OR L2TP_FLAG_S OR (2 AND L2TP_VER_MASK)"
  define p0 where "p0 = \<lparr>p_hdr = \<lparr>hdr_flags = ?flags, hdr_length = 0, hdr_tid = 0, hdr_sid = 0, hdr_Ns = 0, hdr_Nr = 0\<rparr>,
     p_attrs = [], p_last_RV = None, p_secret = secret, p_hide = H, p_port = p, p_sess = None, p_seq = 0, p_ack = 0\<rparr>"
  have "add_req cf p0 (Req16 Message_Type t True) x = ((pack, False), x')"
    using assms(4,5) by (auto simp: l2tp_packet_alloc_def Let_def p0_def split: prod.splits if_splits)
  then have "add_reqs cf p0 (Req16 Message_Type t True # rs) x = ((pack', False), x'')"
    using assms(6) by simp
  moreover have "built cf p0 []"
    by (simp add: built_def p0_def last_RV_def)
  ultimately obtain bs where bs: "built cf pack' bs" "filter not_rv bs = map (req_attr (lc_dict cf)) (Req16 Message_Type t True # rs)" "same_env p0 pack'"
    using add_reqs_built [OF assms(1,2) _ assms(3)] by force
  define pk where "pk = pack'\<lparr>p_hdr := (p_hdr pack')\<lparr>hdr_tid := tid, hdr_sid := sid, hdr_Ns := ns, hdr_Nr := nr\<rparr>\<rparr>"
  have "built cf pk bs" "p_secret pk = secret"
    using bs(1,3) by (simp_all add: built_def pk_def same_env_def p0_def)
  moreover have "p_hdr pack' = p_hdr p0"
    using bs(3) by (simp add: same_env_def)
  then have "p_hdr pk = \<lparr>hdr_flags = ?flags, hdr_length = 0, hdr_tid = tid, hdr_sid = sid, hdr_Ns = ns, hdr_Nr = nr\<rparr>"
    unfolding pk_def \<open>p_hdr pack' = p_hdr p0\<close> by (simp add: p0_def)
  ultimately show ?thesis
    using recv_built [of cf pk bs 2 0 tid sid ns nr dgrm port] assms(7) bs(2) by (auto simp: pk_def)
qed

theorem l2tp_packet_roundtrip_witness:
  "\<exists>q. l2tp_recv run_cf (Some [115]) 1701 (dgram (run_msg 2 [response 2])) = Ok q \<and>
     filter not_rv (p_attrs q) = map (req_attr rfc2661_dict) [Req16 Message_Type 2 True, response 2]"
proof -
  have "plain_req r \<Longrightarrow> req_ok rfc2661_dict r" for r
    by (auto simp: req_ok_def plain_req_def)
  then have "\<forall>r \<in> set [Req16 Message_Type 2 True, response 2]. req_ok rfc2661_dict r"
    by simp
  moreover have "\<not> p_hide (run_msg 2 [])"
    by (simp add: run_msg_def)
  then have "add_reqs run_cf (run_msg 2 []) [response 2] [] = ((run_msg 2 [response 2], False), [])"
    using add_plains [of "[response 2]" "run_msg 2 []" run_cf "[]"] by (simp add: run_msg_def)
  moreover have "l2tp_packet_alloc run_cf 2 2 1701 False (Some [115]) [] = (Some (run_msg 2 []), [])"
    using add_plain [of "Req16 Message_Type 2 True" _ run_cf "[]"] by (simp add: l2tp_packet_alloc_def run_msg_def)
  moreover have "run_msg 2 [response 2] = stamp 0 0 0 (run_msg 2 [response 2])"
    by (simp add: stamp_def run_msg_def)
  then have "l2tp_packet_send (run_msg 2 [response 2]) = Ok (dgram (run_msg 2 [response 2]))"
    using run_datagram(1) [of "[response 2]" _ 0 0 0 2] by simp
  moreover have "(run_msg 2 [response 2])\<lparr>p_hdr := p_hdr (run_msg 2 [response 2])\<lparr>hdr_tid := 0, hdr_sid := 0, hdr_Ns := 0, hdr_Nr := 0\<rparr>\<rparr> = run_msg 2 [response 2]"
    by (simp add: run_msg_def)
  ultimately show ?thesis
    using l2tp_packet_roundtrip [of run_cf 2 "[response 2]" 1701 False "Some [115]" "[]" "run_msg 2 []" "[]" "run_msg 2 [response 2]" "[]" 0 0 0 0 _ 1701]
      rfc2661_dict_ok run_md5_sized by auto
qed

section \<open>Calls before authentication\<close>

text \<open>An OCRQ as it arrives at the end that has accepted a tunnel and waits for the proof of the peer.\<close>

definition ocrq :: l2tp_packet where
  "ocrq = (run_msg MSG_OCRQ [Req16 Assigned_Session_ID 99 True])"

lemma call_lookup:
  "l2tp_dict_find_attr_by_id rfc2661_dict 14 = Some (dict_entry ''Assigned-Session-ID'' 14 L2TP_INT16 1 (-1))"
  "l2tp_dict_find_attr_by_id rfc2661_dict 24 = Some (dict_entry ''TX-Speed'' 24 L2TP_INT32 1 (-1))"
  "l2tp_dict_find_attr_by_id rfc2661_dict 19 = Some (dict_entry ''Framing-Type'' 19 L2TP_INT32 1 (-1))"
  by (simp_all add: l2tp_dict_find_attr_by_id_def rfc2661_dict_def dict_entry_def)

lemma call_plain: "plain_req (Req16 14 x True)" "plain_req (Req32 24 y True)" "plain_req (Req32 19 y True)"
  by (simp_all add: plain_req_def call_lookup dict_entry_def carries_def)

lemma ocrq_attrs: "last_attr Assigned_Session_ID (p_attrs ocrq) = Some (req_attr rfc2661_dict (Req16 14 99 True))"
  "unknown_mandatory [0, 36, 15, 16, 17, 18, 19, 21, 23, 14] (p_attrs ocrq) = False"
  by (simp_all add: ocrq_def run_msg_def last_attr_def unknown_mandatory_def req_attr_def call_lookup lookup dict_entry_def Let_def)

definition called :: l2tp_world where
  "called = b1\<lparr>conn := (conn b1)\<lparr>c_sessions := [(7, zero_sess\<lparr>s_lns_mode := True, s_peer_sid := 99, s_timer := True\<rparr>)], c_sess_count := 1\<rparr>, rnd := [],
     stat := (stat b1)(Sess_starting := 1)\<rparr>"

lemmas b1_worlds = b1_def b0_def run_world_def run_conn_def

definition untimed :: "l2tp_world \<Rightarrow> l2tp_world" where
  "untimed = upd_s 7 (\<lambda>s. s\<lparr>s_timer := False\<rparr>)"

text \<open>The end with a kernel that grants the session its socket or does not.\<close>

definition kernel :: "bool \<Rightarrow> l2tp_env" where
  "kernel grants = run_env\<lparr>e_sess_connect := grants\<rparr>"

lemma kernel_cf: "e_cf (kernel k) = run_cf"
  by (simp add: kernel_def)

lemma ocrq_session:
  "l2tp_tunnel_alloc_session (kernel k) b1 = (Some 7, called\<lparr>conn := (conn called)\<lparr>c_sessions := [(7, zero_sess\<lparr>s_lns_mode := True\<rparr>)]\<rparr>\<rparr>)"
proof -
  have "pick_id (\<lambda>x. get_sess b1 x \<noteq> None) 65535 (rnd b1) = (Some 7, [])"
    by (rule pick_id_hit [where b = "[7, 0]"]) (simp_all add: b1_worlds get_sess_def)
  then have "l2tp_tunnel_new_session b1 = (Some 7, upd_c (\<lambda>c. c\<lparr>c_sessions := [(7, zero_sess)], c_sess_count := 1\<rparr>) (b1\<lparr>rnd := []\<rparr>))"
    by (simp add: l2tp_tunnel_new_session_def b1_worlds upd_c_def)
  then show ?thesis
    by (simp add: l2tp_tunnel_alloc_session_def upd_s_def upd_c_def l2tp_stat_inc_def called_def zero_sess_def b1_worlds) (simp add: run_env_def kernel_def)
qed

lemma ocrq_message:
  assumes "c_sessions (conn w) = c_sessions (conn called)" "c_port (conn w) = 1701" "c_secret (conn w) = Some [115]" "c_state (conn w) = STATE_WAIT_SCCCN"
  shows "\<exists>q n. l2tp_send_OCRP (kernel k) 7 w = (upd_c (\<lambda>c. c\<lparr>c_send_queue := q, c_send_queue_len := n\<rparr>) w, False)"
    "\<exists>q n. l2tp_send_OCCN (kernel k) 7 w = (upd_c (\<lambda>c. c\<lparr>c_send_queue := q, c_send_queue_len := n\<rparr>) w, False)"
proof -
  have "make_packet (kernel k) t False rs w = (Some (run_msg t rs), w)" if "list_all plain_req rs" "t \<noteq> 0" for t rs
    using make_msg [OF assms(2,3) that] unfolding make_packet_def kernel_cf run_env_simps(1) by simp
  then show "\<exists>q n. l2tp_send_OCRP (kernel k) 7 w = (upd_c (\<lambda>c. c\<lparr>c_send_queue := q, c_send_queue_len := n\<rparr>) w, False)"
    "\<exists>q n. l2tp_send_OCCN (kernel k) 7 w = (upd_c (\<lambda>c. c\<lparr>c_send_queue := q, c_send_queue_len := n\<rparr>) w, False)"
    using assms by (auto simp: l2tp_send_OCRP_def l2tp_send_OCCN_def session_message_def get_sess_def called_def zero_sess_def call_plain l2tp_session_send_def
        l2tp_tunnel_send_def upd_c_def)
qed

lemma ocrq_reply:
  assumes "l2tp_session_outcall_reply (kernel k) 7 (untimed called) = (w, failed)"
  shows "k \<Longrightarrow> sess_state 7 w = Some STATE_ESTB \<and> \<not> failed" "\<not> k \<Longrightarrow> crashed w \<and> failed"
proof -
  have t: "upd_s 7 (\<lambda>s. s\<lparr>s_timer := True\<rparr>) (untimed called) = called"
    by (simp add: untimed_def upd_s_def upd_c_def called_def zero_sess_def)
  obtain q n where 1: "l2tp_send_OCRP (kernel k) 7 called = (upd_c (\<lambda>c. c\<lparr>c_send_queue := q, c_send_queue_len := n\<rparr>) called, False)"
    using ocrq_message(1) [of called k] by (auto simp: called_def b1_worlds)
  define w1 where "w1 = upd_c (\<lambda>c. c\<lparr>c_send_queue := q, c_send_queue_len := n\<rparr>) called"
  obtain q' n' where 2: "l2tp_send_OCCN (kernel k) 7 w1 = (upd_c (\<lambda>c. c\<lparr>c_send_queue := q', c_send_queue_len := n'\<rparr>) w1, False)"
    using ocrq_message(2) [of w1 k] by (auto simp: w1_def called_def b1_worlds)
  define w2 where "w2 = upd_c (\<lambda>c. c\<lparr>c_send_queue := q', c_send_queue_len := n'\<rparr>) w1"
  have s: "get_sess w2 7 = Some (zero_sess\<lparr>s_lns_mode := True, s_peer_sid := 99, s_timer := True\<rparr>)" "c_sessions (conn w2) = c_sessions (conn called)"
    by (simp_all add: w2_def w1_def called_def get_sess_def upd_c_def)
  have e: "e_timer (kernel k)" "e_sess_connect (kernel k) = k" "e_data (kernel k)"
    by (simp_all add: kernel_def run_env_def)
  have r: "l2tp_session_outcall_reply (kernel k) 7 (untimed called) = (case l2tp_session_connect (kernel k) 7 w2 of (w, True) \<Rightarrow> (del_sess_timer 7 w, True) | (w, False) \<Rightarrow> (w, False))"
    using 1 2 e by (simp add: l2tp_session_outcall_reply_def t w1_def [symmetric] w2_def [symmetric])
  show "k \<Longrightarrow> sess_state 7 w = Some STATE_ESTB \<and> \<not> failed" "\<not> k \<Longrightarrow> crashed w \<and> failed"
    using assms s e unfolding r
    by (auto simp: l2tp_session_connect_def del_sess_timer_def upd_s_def upd_c_def get_sess_def called_def sess_state_def l2tp_stat_move_def l2tp_stat_inc_def
        l2tp_stat_dec_def crash_def zero_sess_def split: if_splits)
qed

text \<open>
  C40. A tunnel that was accepted and still waits for the peer's proof of the secret answers an Outgoing-Call-Request: \<^verbatim>\<open>l2tp_recv_OCRQ\<close> lets it through because the tunnel
  is in LNS mode, whatever its state, and the session is established at once. When the kernel refuses the session its socket, the daemon deletes a timer
  that it has deleted before and crashes.
\<close>

theorem call_before_authentication:
  "tunnel_reach run_cf b1 \<and> c_state (conn b1) = STATE_WAIT_SCCCN \<and> secret_of (conn b1) = Some [115] \<and>
   sess_state 7 (l2tp_recv_OCRQ (kernel True) ocrq b1) = Some STATE_ESTB \<and> crashed (l2tp_recv_OCRQ (kernel False) ocrq b1)"
proof -
  have "tunnel_reach run_cf b0"
    using tunnel_reach.accepted [OF _ b0_made] by simp
  moreover have "local_event run_env b0 b1"
    using local_event.sccrp [of b0 run_env] run_open by (simp add: b1_step)
  ultimately have "tunnel_reach run_cf b1"
    using tunnel_reach.event [of run_cf b0 run_env b1] run_open by simp
  moreover have "upd_s 7 (\<lambda>s. s\<lparr>s_peer_sid := 99\<rparr>) (called\<lparr>conn := (conn called)\<lparr>c_sessions := [(7, zero_sess\<lparr>s_lns_mode := True\<rparr>)]\<rparr>\<rparr>) = untimed called"
    by (simp add: untimed_def upd_s_def upd_c_def called_def zero_sess_def)
  then have "l2tp_recv_OCRQ (kernel k) ocrq b1 =
      (case l2tp_session_outcall_reply (kernel k) 7 (untimed called) of (w, True) \<Rightarrow> reject_call (kernel k) (Some 7) 99 2 4 w | (w, False) \<Rightarrow> w)" for k
    using ocrq_attrs ocrq_session by (simp add: l2tp_recv_OCRQ_def b1_worlds kernel_def)
  moreover have "crashed w \<Longrightarrow> crashed (reject_call (kernel False) (Some 7) 99 2 4 w)" for w
    using keeps_reject_call [OF keeps_refl, of w "kernel False" "Some 7" 99 2 4] by (simp add: keeps_def)
  ultimately show ?thesis
    using ocrq_reply [of True] ocrq_reply [of False] by (auto simp: b1_worlds secret_of_def split: prod.split bool.split)
qed

end
