(* ===== verification/PppoePacket.thy ===== *)
theory PppoePacket
  imports Prelude
begin

text \<open>
  The frames of PPPoE discovery, \<^verbatim>\<open>accel-pppd/ctrl/pppoe/pppoe.c\<close>: the headers, the loop over the tags of a received frame,
  the packets that the server builds, the cookie that it puts into them and checks, and the access line tags of
  \<^verbatim>\<open>tr101.c\<close>. A received frame is the list of the bytes that \<^verbatim>\<open>recvfrom\<close> returned; a read behind them is a fault.
  MD5 and DES are not part of the sources: they are parameters.
\<close>

section \<open>Frames\<close>

abbreviation (input) ETH_ALEN :: nat where "ETH_ALEN \<equiv> 6"
abbreviation (input) ETH_HLEN :: nat where "ETH_HLEN \<equiv> 14"
abbreviation (input) ETHER_MAX_LEN :: nat where "ETHER_MAX_LEN \<equiv> 1518"
abbreviation (input) PPPOE_HLEN :: nat where "PPPOE_HLEN \<equiv> 6"

abbreviation (input) CODE_PADI :: u8 where "CODE_PADI \<equiv> 0x09"
abbreviation (input) CODE_PADO :: u8 where "CODE_PADO \<equiv> 0x07"
abbreviation (input) CODE_PADR :: u8 where "CODE_PADR \<equiv> 0x19"
abbreviation (input) CODE_PADS :: u8 where "CODE_PADS \<equiv> 0x65"
abbreviation (input) CODE_PADT :: u8 where "CODE_PADT \<equiv> 0xA7"

abbreviation (input) TAG_END_OF_LIST :: u16 where "TAG_END_OF_LIST \<equiv> 0"
abbreviation (input) TAG_SERVICE_NAME :: u16 where "TAG_SERVICE_NAME \<equiv> 0x0101"
abbreviation (input) TAG_AC_NAME :: u16 where "TAG_AC_NAME \<equiv> 0x0102"
abbreviation (input) TAG_HOST_UNIQ :: u16 where "TAG_HOST_UNIQ \<equiv> 0x0103"
abbreviation (input) TAG_AC_COOKIE :: u16 where "TAG_AC_COOKIE \<equiv> 0x0104"
abbreviation (input) TAG_VENDOR_SPECIFIC :: u16 where "TAG_VENDOR_SPECIFIC \<equiv> 0x0105"
abbreviation (input) TAG_RELAY_SESSION_ID :: u16 where "TAG_RELAY_SESSION_ID \<equiv> 0x0110"
abbreviation (input) TAG_PPP_MAX_PAYLOAD :: u16 where "TAG_PPP_MAX_PAYLOAD \<equiv> 0x0120"
abbreviation (input) TAG_SERVICE_NAME_ERROR :: u16 where "TAG_SERVICE_NAME_ERROR \<equiv> 0x0201"
abbreviation (input) TAG_AC_SYSTEM_ERROR :: u16 where "TAG_AC_SYSTEM_ERROR \<equiv> 0x0202"

abbreviation (input) COOKIE_LENGTH :: nat where "COOKIE_LENGTH \<equiv> 24"
abbreviation (input) VENDOR_ADSL_FORUM :: u32 where "VENDOR_ADSL_FORUM \<equiv> 0xde9"

record pppoe_tag =
  tag_type :: u16
  tag_data :: bytes

definition tag_len :: "pppoe_tag \<Rightarrow> nat" where
  "tag_len t = length (tag_data t)"

definition bc_addr :: bytes where
  "bc_addr = replicate ETH_ALEN 0xff"

text \<open>The fields of the headers of a frame; the frame has at least 20 bytes when they are read.\<close>

definition h_dest :: "bytes \<Rightarrow> bytes" where "h_dest pack = take ETH_ALEN pack"
definition h_source :: "bytes \<Rightarrow> bytes" where "h_source pack = take ETH_ALEN (drop ETH_ALEN pack)"
definition pppoe_ver :: "bytes \<Rightarrow> u8" where "pppoe_ver pack = drop_bit 4 (pack ! ETH_HLEN)"
definition pppoe_type :: "bytes \<Rightarrow> u8" where "pppoe_type pack = pack ! ETH_HLEN AND 0xf"
definition pppoe_code :: "bytes \<Rightarrow> u8" where "pppoe_code pack = pack ! (ETH_HLEN + 1)"
definition pppoe_sid :: "bytes \<Rightarrow> u16" where "pppoe_sid pack = u_read_be16 (drop (ETH_HLEN + 2) pack)"
definition pppoe_length :: "bytes \<Rightarrow> nat" where "pppoe_length pack = unat (u_read_be16 (drop (ETH_HLEN + 4) pack))"

text \<open>
  The loop over the tags that \<^verbatim>\<open>pppoe_recv_PADI\<close> and \<^verbatim>\<open>pppoe_recv_PADR\<close> share: \<open>n\<close> is the offset of the next tag, \<open>step\<close> the body
  of the \<^verbatim>\<open>switch\<close> on one tag. \<open>Reject\<close> is the return at a tag that does not fit into the length of the header.
\<close>

function for_tags :: "(pppoe_tag \<Rightarrow> 'a \<Rightarrow> 'a) \<Rightarrow> bytes \<Rightarrow> nat \<Rightarrow> nat \<Rightarrow> 'a \<Rightarrow> 'a parse" where
  "for_tags step pack len n a =
     (if n < len then
        if n + 4 > len then Reject
        else
          bind_parse (read_bytes pack (ETH_HLEN + PPPOE_HLEN + n) 4) (\<lambda>hd.
            let tl = unat (u_read_be16 (drop 2 hd))
            in if n + 4 + tl > len then Reject
               else
                 bind_parse (read_bytes pack (ETH_HLEN + PPPOE_HLEN + n + 4) tl) (\<lambda>data.
                   if u_read_be16 hd = TAG_END_OF_LIST then Ok a
                   else for_tags step pack len (n + 4 + tl) (step \<lparr>tag_type = u_read_be16 hd, tag_data = data\<rparr> a)))
      else Ok a)"
  by pat_completeness auto
termination
  by (relation "measure (\<lambda>(step, pack, len, n, a). len - n)") auto

declare for_tags.simps [simp del]

section \<open>Packets that the server builds\<close>

record pppoe_frame =
  f_source :: bytes
  f_dest :: bytes
  f_code :: u8
  f_sid :: u16
  f_tags :: bytes \<comment> \<open>the bytes behind the headers; \<^verbatim>\<open>hdr->length\<close> is their number\<close>

definition setup_header :: "bytes \<Rightarrow> bytes \<Rightarrow> u8 \<Rightarrow> u16 \<Rightarrow> pppoe_frame" where
  "setup_header src dst code sid = \<lparr>f_source = src, f_dest = dst, f_code = code, f_sid = sid, f_tags = []\<rparr>"

definition tag_bytes :: "pppoe_tag \<Rightarrow> bytes" where
  "tag_bytes t = u_write_be16 (tag_type t) @ u_write_be16 (of_nat (tag_len t)) @ tag_data t"

text \<open>
  \<^verbatim>\<open>add_tag\<close> and \<^verbatim>\<open>add_tag2\<close> leave the packet alone when the tag does not fit; no caller looks at their result.
\<close>

definition add_tag2 :: "pppoe_tag \<Rightarrow> pppoe_frame \<Rightarrow> pppoe_frame" where
  "add_tag2 t f =
     (if ETHER_MAX_LEN \<le> ETH_HLEN + PPPOE_HLEN + length (f_tags f) + 4 + tag_len t then f
      else f\<lparr>f_tags := f_tags f @ tag_bytes t\<rparr>)"

definition add_tag :: "u16 \<Rightarrow> bytes \<Rightarrow> pppoe_frame \<Rightarrow> pppoe_frame" where
  "add_tag type data = add_tag2 \<lparr>tag_type = type, tag_data = data\<rparr>"

definition add_tag_opt :: "pppoe_tag option \<Rightarrow> pppoe_frame \<Rightarrow> pppoe_frame" where
  "add_tag_opt t f = (case t of None \<Rightarrow> f | Some t \<Rightarrow> add_tag2 t f)"

text \<open>The bytes that \<^verbatim>\<open>pppoe_send\<close> hands to \<^verbatim>\<open>sendto\<close>.\<close>

definition frame_bytes :: "pppoe_frame \<Rightarrow> bytes" where
  "frame_bytes f = f_dest f @ f_source f @ u_write_be16 0x8863 @ [0x11, f_code f] @ u_write_be16 (f_sid f) @
     u_write_be16 (of_nat (length (f_tags f))) @ f_tags f"

section \<open>The cookie\<close>

text \<open>MD5 and DES in the mode that encrypts single blocks; the first argument of a cipher is its key.\<close>

record pppoe_crypto =
  cr_md5 :: "bytes \<Rightarrow> bytes"
  cr_encrypt :: "bytes \<Rightarrow> bytes \<Rightarrow> bytes"
  cr_decrypt :: "bytes \<Rightarrow> bytes \<Rightarrow> bytes"

definition ecb :: "(bytes \<Rightarrow> bytes) \<Rightarrow> bytes \<Rightarrow> bytes" where
  "ecb f raw = f (take 8 raw) @ f (take 8 (drop 8 raw)) @ f (take 8 (drop 16 raw))"

text \<open>What the cookie proves: the server's secret, its address, the client's address and the relay's tag.\<close>

definition cookie_mac :: "pppoe_crypto \<Rightarrow> bytes \<Rightarrow> bytes \<Rightarrow> bytes \<Rightarrow> pppoe_tag option \<Rightarrow> bytes" where
  "cookie_mac cr secret hwaddr src relay_sid =
     cr_md5 cr (secret @ hwaddr @ src @ (case relay_sid of None \<Rightarrow> [] | Some t \<Rightarrow> tag_data t))"

definition cookie_key :: "bytes \<Rightarrow> bytes \<Rightarrow> bytes" where
  "cookie_key hwaddr src = take 6 hwaddr @ [src ! 4, src ! 5]"

definition host_uniq_fold :: "pppoe_crypto \<Rightarrow> bytes \<Rightarrow> pppoe_tag option \<Rightarrow> bytes" where
  "host_uniq_fold cr secret host_uniq =
     (case host_uniq of
        None \<Rightarrow> replicate 4 0
      | Some t \<Rightarrow>
          let buf = cr_md5 cr (secret @ tag_data t)
          in map (\<lambda>i. buf ! i XOR buf ! (i + 4) XOR buf ! (i + 8) XOR buf ! (i + 12)) [0..<4])"

text \<open>A 32-bit integer in the byte order of the machine, which is little-endian.\<close>

definition le32_write :: "u32 \<Rightarrow> bytes" where "le32_write v = rev (u_write_be32 v)"
definition le32_read :: "bytes \<Rightarrow> u32" where "le32_read b = u_read_be32 (rev (take 4 b))"

definition generate_cookie ::
    "pppoe_crypto \<Rightarrow> int \<Rightarrow> int \<Rightarrow> bytes \<Rightarrow> bytes \<Rightarrow> bytes \<Rightarrow> bytes \<Rightarrow> pppoe_tag option \<Rightarrow> pppoe_tag option \<Rightarrow> bytes" where
  "generate_cookie cr now timeout secret des_ks hwaddr src host_uniq relay_sid =
     (let raw = cookie_mac cr secret hwaddr src relay_sid @ host_uniq_fold cr secret host_uniq @ le32_write (word_of_int (now + timeout))
      in ecb (cr_encrypt cr des_ks) (ecb (cr_encrypt cr (cookie_key hwaddr src)) raw))"

text \<open>True when \<^verbatim>\<open>check_cookie\<close> returns 0.\<close>

definition check_cookie :: "pppoe_crypto \<Rightarrow> int \<Rightarrow> bytes \<Rightarrow> bytes \<Rightarrow> bytes \<Rightarrow> bytes \<Rightarrow> bytes \<Rightarrow> pppoe_tag option \<Rightarrow> bool" where
  "check_cookie cr now secret des_ks hwaddr src cookie relay_sid =
     (let raw = ecb (cr_decrypt cr (cookie_key hwaddr src)) (ecb (cr_decrypt cr des_ks) cookie)
      in if uint (le32_read (drop 20 raw)) < now then False
         else take 16 raw = take 16 (cookie_mac cr secret hwaddr src relay_sid))"

section \<open>The access line tags\<close>

datatype tr101_attr = TrStr string bytes | TrInt string u32 | TrOctets string bytes

text \<open>The integer attributes by their number.\<close>

definition tr101_int :: "nat \<Rightarrow> string option" where
  "tr101_int = map_of
     [(0x81, ''Actual-Data-Rate-Upstream''), (0x82, ''Actual-Data-Rate-Downstream''),
      (0x83, ''Minimum-Data-Rate-Upstream''), (0x84, ''Minimum-Data-Rate-Downstream''),
      (0x85, ''Attainable-Data-Rate-Upstream''), (0x86, ''Attainable-Data-Rate-Downstream''),
      (0x87, ''Maximum-Data-Rate-Upstream''), (0x88, ''Maximum-Data-Rate-Downstream''),
      (0x89, ''Minimum-Data-Rate-Upstream-Low-Power''), (0x8A, ''Minimum-Data-Rate-Downstream-Low-Power''),
      (0x8B, ''Maximum-Interleaving-Delay-Upstream''), (0x8C, ''Actual-Interleaving-Delay-Upstream''),
      (0x8D, ''Maximum-Interleaving-Delay-Downstream''), (0x8E, ''Actual-Interleaving-Delay-Downstream'')]"

text \<open>
  The attribute that \<^verbatim>\<open>tr101_send_request\<close> adds for the sub-option \<open>id\<close> with \<open>len\<close> bytes at offset \<open>i\<close>; \<open>Reject\<close> is the jump to
  \<^verbatim>\<open>inval\<close>. The text of a string ends at its first zero byte. A copy of more than 63 bytes into the buffer of 64 is a fault.
\<close>

definition tr101_str :: "string \<Rightarrow> bytes \<Rightarrow> nat \<Rightarrow> nat \<Rightarrow> tr101_attr option parse" where
  "tr101_str name data i len =
     (if len > 63 then Reject
      else bind_parse (read_bytes data i len) (\<lambda>s. if length s + 1 > 64 then Fault else Ok (Some (TrStr name (takeWhile (\<lambda>b. b \<noteq> 0) s)))))"

definition tr101_option :: "nat \<Rightarrow> bytes \<Rightarrow> nat \<Rightarrow> nat \<Rightarrow> tr101_attr option parse" where
  "tr101_option opt data i len =
     (if opt = 0x01 then tr101_str ''ADSL-Agent-Circuit-Id'' data i len
      else if opt = 0x02 then tr101_str ''ADSL-Agent-Remote-Id'' data i len
      else if opt = 0x90 then
        if len \<noteq> 3 then Reject
        else bind_parse (read_bytes data i 3) (\<lambda>s. Ok (Some (TrOctets ''Access-Loop-Encapsulation'' s)))
      else if opt = 0xFE then
        if len \<noteq> 0 then Reject else Ok (Some (TrOctets ''IWF-Session'' []))
      else case tr101_int opt of
             None \<Rightarrow> Ok None
           | Some name \<Rightarrow>
               if len \<noteq> 4 then Reject else bind_parse (read_bytes data i 4) (\<lambda>s. Ok (Some (TrInt name (u_read_be32 s)))))"

text \<open>
  The loop of \<^verbatim>\<open>tr101_send_request\<close> at offset \<open>i\<close> of the data of the tag. The functions of the RADIUS packet are the parameter
  \<open>add\<close>; \<open>None\<close> is their failure, and \<open>Reject\<close> here is the result -1.
\<close>

function tr101_loop :: "(tr101_attr \<Rightarrow> 'p \<Rightarrow> 'p option) \<Rightarrow> bool \<Rightarrow> bytes \<Rightarrow> nat \<Rightarrow> 'p \<Rightarrow> 'p parse" where
  "tr101_loop add access data i pack =
     (if i < length data then
        if i + 2 > length data then Reject
        else
          bind_parse (read_byte data i) (\<lambda>b. bind_parse (read_byte data (i + 1)) (\<lambda>l.
            let opt = unat b; len = unat l
            in if i + 2 + len > length data then Reject
               else if access \<and> opt \<ge> 0x85 \<and> opt \<le> 0x90 then tr101_loop add access data (i + 2 + len) pack
               else
                 bind_parse (tr101_option opt data (i + 2) len) (\<lambda>r.
                   case r of
                     None \<Rightarrow> tr101_loop add access data (i + 2 + len) pack
                   | Some a \<Rightarrow> (case add a pack of None \<Rightarrow> Reject | Some pack \<Rightarrow> tr101_loop add access data (i + 2 + len) pack))))
      else Ok pack)"
  by pat_completeness auto
termination
  by (relation "measure (\<lambda>(add, access, data, i, pack). length data - i)") auto

declare tr101_loop.simps [simp del]

definition tr101_send_request :: "(tr101_attr \<Rightarrow> 'p \<Rightarrow> 'p option) \<Rightarrow> bool \<Rightarrow> pppoe_tag \<Rightarrow> 'p \<Rightarrow> 'p parse" where
  "tr101_send_request add access tr101 pack = tr101_loop add access (tag_data tr101) 4 pack"

definition tr101_send_access_request :: "(tr101_attr \<Rightarrow> 'p \<Rightarrow> 'p option) \<Rightarrow> pppoe_tag \<Rightarrow> 'p \<Rightarrow> 'p parse" where
  "tr101_send_access_request add = tr101_send_request add True"

definition tr101_send_accounting_request :: "(tr101_attr \<Rightarrow> 'p \<Rightarrow> 'p option) \<Rightarrow> pppoe_tag \<Rightarrow> 'p \<Rightarrow> 'p parse" where
  "tr101_send_accounting_request add = tr101_send_request add False"

end
