(* ===== verification/PppoeDelay.thy ===== *)
theory PppoeDelay
  imports CLib
begin

text \<open>
  The delay of PADO packets by load, \<^verbatim>\<open>accel-pppd/ctrl/pppoe/dpado.c\<close>. The list of ranges is a list of pairs of the number
  of sessions from which a range applies and its delay; the pointers \<^verbatim>\<open>dpado_range_next\<close> and \<^verbatim>\<open>dpado_range_prev\<close> are
  positions in it. The predecessor of the first range is the head of the list, which is no range: reading it as one is a fault.
\<close>

abbreviation (input) INT_MAX :: nat where "INT_MAX \<equiv> 2 ^ 31 - 1"

record dpado =
  dp_ranges :: "(nat \<times> int) list"
  dp_next :: "nat option"
  dp_prev :: "nat option"
  dp_delay :: int

definition range_after :: "(nat \<times> int) list \<Rightarrow> nat \<Rightarrow> nat option" where
  "range_after rs i = (if i + 1 < length rs then Some (i + 1) else None)"

definition dpado_check_next :: "int \<Rightarrow> dpado \<Rightarrow> dpado" where
  "dpado_check_next conn_cnt dp =
     (case dp_next dp of
        None \<Rightarrow> dp
      | Some i \<Rightarrow>
          if conn_cnt = int (fst (dp_ranges dp ! i))
          then dp\<lparr>dp_delay := snd (dp_ranges dp ! i), dp_prev := Some i, dp_next := range_after (dp_ranges dp) i\<rparr>
          else dp)"

definition dpado_check_prev :: "int \<Rightarrow> dpado \<Rightarrow> dpado parse" where
  "dpado_check_prev conn_cnt dp =
     (case dp_prev dp of
        None \<Rightarrow> Ok dp
      | Some i \<Rightarrow>
          if conn_cnt = int (fst (dp_ranges dp ! i)) then
            if i = 0 then Fault
            else Ok (dp\<lparr>dp_next := Some i, dp_prev := Some (i - 1), dp_delay := snd (dp_ranges dp ! (i - 1))\<rparr>)
          else Ok dp)"

text \<open>The parts of a string between the commas.\<close>

function commas :: "string \<Rightarrow> string list" where
  "commas s = (case strchr s (CHR '','') of None \<Rightarrow> [s] | Some r \<Rightarrow> before_chr s (CHR '','') # commas (tl r))"
  by pat_completeness auto
termination
proof (relation "measure length")
  fix s r assume "strchr s CHR '','' = Some r"
  then have "r = dropWhile (\<lambda>d. d \<noteq> CHR '','') s" "r \<noteq> []"
    by (auto simp: strchr_def split: list.splits)
  then show "(tl r, s) \<in> measure length"
    using length_dropWhile_le [of "\<lambda>d. d \<noteq> CHR '',''" s] by (metis in_measure length_greater_0_conv length_tl diff_less less_le_trans zero_less_one)
qed simp

declare commas.simps [simp del]

text \<open>One part of the option; \<open>first\<close> when the list is still empty. \<open>None\<close> is the jump to \<^verbatim>\<open>out_err\<close>.\<close>

definition parse_range :: "bool \<Rightarrow> string \<Rightarrow> (nat \<times> int) option" where
  "parse_range first part =
     (case strtol10 (before_chr part (CHR '':'')) of
        (delay, rest) \<Rightarrow>
          if rest \<noteq> [] then None
          else if first then Some (INT_MAX, to_int delay)
          else case strchr part (CHR '':'') of
                 None \<Rightarrow> None
               | Some r \<Rightarrow>
                   (case strtol10 (tl r) of
                      (cnt, rest) \<Rightarrow> if rest \<noteq> [] then None else Some (unat (word_of_int cnt :: u32), to_int delay)))"

fun parse_ranges :: "bool \<Rightarrow> string list \<Rightarrow> (nat \<times> int) list option" where
  "parse_ranges first [] = Some []"
| "parse_ranges first (p # ps) =
     (case parse_range first p of
        None \<Rightarrow> None
      | Some r \<Rightarrow> (case parse_ranges False ps of None \<Rightarrow> None | Some rs \<Rightarrow> Some (r # rs)))"

text \<open>The loop that finds the range of the current number of sessions: the state after the ranges before position \<open>i\<close>.\<close>

fun pick_range :: "nat \<Rightarrow> (nat \<times> int) list \<Rightarrow> nat \<Rightarrow> nat option \<Rightarrow> nat option" where
  "pick_range active [] i prev = prev"
| "pick_range active (r # rs) i prev = pick_range active rs (Suc i) (if prev = None \<or> active \<ge> fst r then Some i else prev)"

definition dpado_parse :: "nat \<Rightarrow> string \<Rightarrow> dpado option" where
  "dpado_parse active str =
     (case parse_ranges True (commas (filter (\<lambda>c. c \<noteq> CHR '' '') str)) of
        None \<Rightarrow> None
      | Some rs \<Rightarrow>
          let prev = pick_range active rs 0 None
          in Some \<lparr>dp_ranges = rs, dp_next = (case prev of None \<Rightarrow> None | Some i \<Rightarrow> range_after rs i), dp_prev = prev,
                   dp_delay = (case prev of None \<Rightarrow> 0 | Some i \<Rightarrow> snd (rs ! i))\<rparr>)"

end
