(* ===== verification/Connlimit.thy ===== *)
theory Connlimit
  imports CLib
begin

text \<open>
  The limit on the rate of connection attempts, \<^verbatim>\<open>accel-pppd/extra/connlimit.c\<close>: one entry per source in a list, the entry
  with the latest change of its time first. Times are those of the monotonic clock; the age of an entry is an
  \<^verbatim>\<open>unsigned int\<close> number of milliseconds.
\<close>

record timespec =
  tv_sec :: int
  tv_nsec :: int

record cl_item =
  it_key :: u64
  it_ts :: timespec
  it_count :: int

record cl_conf =
  conf_burst :: int
  conf_burst_timeout :: int
  conf_limit_timeout :: int

text \<open>Division of \<^verbatim>\<open>long\<close> values rounds towards zero.\<close>

definition quot :: "int \<Rightarrow> int \<Rightarrow> int" where
  "quot a b = sgn a * sgn b * (\<bar>a\<bar> div \<bar>b\<bar>)"

definition ms_between :: "timespec \<Rightarrow> timespec \<Rightarrow> int" where
  "ms_between ts old = (tv_sec ts - tv_sec old) * 1000 + quot (tv_nsec ts - tv_nsec old) 1000000"

definition cl_key_from_mac :: "bytes \<Rightarrow> u64" where
  "cl_key_from_mac hw = u_read_be64 (rev (take 6 hw @ [0, 0]))"

text \<open>
  The loop of \<^verbatim>\<open>connlimit_check\<close>; \<open>kept\<close> are the entries that were passed and stay, in their order. The result is \<^verbatim>\<open>r\<close> behind the
  loop, 1 when the key was not found, and the list.
\<close>

fun cl_scan :: "cl_conf \<Rightarrow> u64 \<Rightarrow> timespec \<Rightarrow> cl_item list \<Rightarrow> cl_item list \<Rightarrow> int \<times> cl_item list" where
  "cl_scan cf key ts kept [] = (1, kept)"
| "cl_scan cf key ts kept (it # items) =
     (let d = (word_of_int (ms_between ts (it_ts it)) :: u32)
      in if it_key it = key then
           if d \<ge> word_of_int (conf_burst_timeout cf) then (0, it\<lparr>it_ts := ts, it_count := 0\<rparr> # kept @ items)
           else
             let it = it\<lparr>it_count := it_count it + 1\<rparr>
             in if it_count it \<ge> conf_burst cf then
                  if d \<ge> word_of_int (conf_limit_timeout cf) then (0, it\<lparr>it_ts := ts\<rparr> # kept @ items)
                  else (- 1, kept @ it # items)
                else (0, kept @ it # items)
         else if d > word_of_int (conf_burst_timeout cf) then cl_scan cf key ts kept items
         else cl_scan cf key ts (kept @ [it]) items)"

definition connlimit_check :: "cl_conf \<Rightarrow> timespec \<Rightarrow> u64 \<Rightarrow> cl_item list \<Rightarrow> int \<times> cl_item list" where
  "connlimit_check cf ts key items =
     (case cl_scan cf key ts [] items of
        (r, items) \<Rightarrow> if r = 1 then (0, \<lparr>it_key = key, it_ts = ts, it_count = 0\<rparr> # items) else (r, items))"

section \<open>Configuration\<close>

text \<open>\<^verbatim>\<open>count/time\<close> with an optional number and a unit behind the slash; \<open>None\<close> is the result -1.\<close>

definition parse_limit :: "string \<Rightarrow> (int \<times> int) option" where
  "parse_limit opt =
     (let (limit, rest) = strtol10 opt; limit = to_int limit
      in case rest of
           [] \<Rightarrow> Some (limit, 1)
         | c # opt \<Rightarrow>
             if c \<noteq> CHR ''/'' then None
             else
               let (t, rest) = strtol10 opt;
                   t = (if rest = opt then 1 else to_int t)
               in case rest of
                    CHR ''s'' # _ \<Rightarrow> Some (limit, t)
                  | CHR ''m'' # _ \<Rightarrow> Some (limit, to_int (t * 60))
                  | CHR ''h'' # _ \<Rightarrow> Some (limit, to_int (t * 3600))
                  | _ \<Rightarrow> None)"

text \<open>
  \<^verbatim>\<open>load_config\<close> on the values of the options \<^verbatim>\<open>limit\<close>, \<^verbatim>\<open>burst\<close> and \<^verbatim>\<open>timeout\<close>; a division by zero is a fault.
\<close>

definition connlimit_load_config :: "string option \<Rightarrow> string option \<Rightarrow> string option \<Rightarrow> cl_conf \<Rightarrow> cl_conf parse" where
  "connlimit_load_config limit burst timeout cf =
     (let rest = (\<lambda>cf.
            let cf = (case burst of None \<Rightarrow> cf | Some b \<Rightarrow> cf\<lparr>conf_burst := atoi b\<rparr>)
            in case timeout of None \<Rightarrow> cf | Some t \<Rightarrow> cf\<lparr>conf_burst_timeout := to_int (atoi t * 1000)\<rparr>)
      in case limit of
           None \<Rightarrow> Ok (rest cf)
         | Some l \<Rightarrow>
             (case parse_limit l of
                None \<Rightarrow> Ok cf
              | Some (n, t) \<Rightarrow>
                  if n = 0 then Fault else Ok (rest (cf\<lparr>conf_limit_timeout := quot (to_int (t * 1000)) n\<rparr>))))"

end
