(* ===== verification/MacFilter.thy ===== *)
theory MacFilter
  imports CLib
begin

text \<open>
  The filter of source addresses of the PPPoE server, \<^verbatim>\<open>accel-pppd/ctrl/pppoe/mac_filter.c\<close>: a list of addresses and a type, -1 for no filter, 1
  when only the addresses of the list are served, 0 when they are the ones that are not. An address that the daemon prints is one it reads.
\<close>

record mac_filter =
  mf_list :: "bytes list"
  mf_type :: int
  mf_conf :: "string option" \<comment> \<open>\<^verbatim>\<open>conf_mac_filter\<close>\<close>

section \<open>Addresses as text\<close>

definition nibble_char :: "bool \<Rightarrow> nat \<Rightarrow> char" where
  "nibble_char upper n = char_of (if n < 10 then 48 + n else if upper then 55 + n else 87 + n)"

definition hex_byte :: "bool \<Rightarrow> u8 \<Rightarrow> string" where
  "hex_byte upper b = [nibble_char upper (unat b div 16), nibble_char upper (unat b mod 16)]"

fun mac_string :: "bool \<Rightarrow> bytes \<Rightarrow> string" where
  "mac_string upper [] = ''''"
| "mac_string upper [b] = hex_byte upper b"
| "mac_string upper (b # bs) = hex_byte upper b @ '':'' @ mac_string upper bs"

text \<open>
  The \<^verbatim>\<open>%x\<close> conversion of \<^verbatim>\<open>sscanf\<close>: white space, a sign, \<^verbatim>\<open>0x\<close>, hexadecimal digits; the value is that of \<^verbatim>\<open>strtoul\<close>, stored in
  32 bits. Behind it the format \<^verbatim>\<open>%x:%x:%x:%x:%x:%x\<close>: the values that were converted.
\<close>

definition scan_x :: "string \<Rightarrow> (u32 \<times> string) option" where
  "scan_x s =
     (let t = dropWhile isspace s;
          neg = (case t of c # _ \<Rightarrow> c = CHR ''-'' | [] \<Rightarrow> False);
          u = (case t of c # r \<Rightarrow> if c = CHR ''-'' \<or> c = CHR ''+'' then r else t | [] \<Rightarrow> t);
          u = (if take 2 u = ''0x'' \<or> take 2 u = ''0X'' then drop 2 u else u);
          ds = takeWhile (\<lambda>c. xdigit_val c \<noteq> None) u;
          n = digits_val 16 0 (map (\<lambda>c. the (xdigit_val c)) ds)
      in if ds = [] then None
         else if n > ULONG_MAX then Some (of_nat ULONG_MAX, drop (length ds) u)
         else Some (if neg then - of_nat n else of_nat n, drop (length ds) u))"

fun scan_colons :: "nat \<Rightarrow> string \<Rightarrow> u32 list" where
  "scan_colons 0 s = []"
| "scan_colons (Suc n) s =
     (case scan_x s of
        None \<Rightarrow> []
      | Some (v, r) \<Rightarrow> v # (case scan_lit (CHR '':'') r of None \<Rightarrow> [] | Some r \<Rightarrow> scan_colons n r))"

definition scan_mac :: "string \<Rightarrow> bytes option" where
  "scan_mac s =
     (let ns = scan_colons 6 s
      in if length ns \<noteq> 6 then None
         else if list_ex (\<lambda>n. n > 255) ns then None
         else Some (map (\<lambda>n. ucast n) ns))"

section \<open>Operations\<close>

text \<open>The frame is dropped.\<close>

definition mac_filter_check :: "mac_filter \<Rightarrow> bytes \<Rightarrow> bool" where
  "mac_filter_check m addr =
     (if mf_type m = - 1 then False
      else if list_ex (\<lambda>a. a = addr) (mf_list m) then mf_type m = 0
      else mf_type m \<noteq> 0)"

text \<open>
  The lines that \<^verbatim>\<open>fgets\<close> reads into a buffer of 1024 bytes: up to the end of a line, at most 1023 characters.
\<close>

function fgets_lines :: "string \<Rightarrow> string list" where
  "fgets_lines s =
     (if s = [] then []
      else
        let l = takeWhile (\<lambda>c. c \<noteq> CHR 0x0A) s;
            k = (if length l < 1023 then min (length l + 1) (length s) else 1023)
        in take k s # fgets_lines (drop k s))"
  by pat_completeness auto
termination
  by (relation "measure length") (auto simp: min_def Let_def)

declare fgets_lines.simps [simp del]

definition mac_filter_lines :: "string list \<Rightarrow> bytes list" where
  "mac_filter_lines ls =
     List.map_filter (\<lambda>l. if l \<noteq> [] \<and> (hd l = CHR ''#'' \<or> hd l = CHR '';'' \<or> hd l = CHR 0x0A) then None else scan_mac l) ls"

text \<open>
  \<^verbatim>\<open>mac_filter_load\<close>; \<open>fopen\<close> gives the content of a file that can be opened. The flag is the result 0. The type is already changed when
  the file turns out to be missing.
\<close>

definition mac_filter_load :: "(string \<Rightarrow> string option) \<Rightarrow> string \<Rightarrow> mac_filter \<Rightarrow> bool \<times> mac_filter" where
  "mac_filter_load fopen opt m =
     (case strchr opt (CHR '','') of
        None \<Rightarrow> (False, m)
      | Some c \<Rightarrow>
          let name = before_chr opt (CHR '',''); t = tl c
          in if t \<noteq> ''allow'' \<and> t \<noteq> ''deny'' then (False, m)
             else
               let m = m\<lparr>mf_type := if t = ''allow'' then 1 else 0\<rparr>
               in case fopen name of
                    None \<Rightarrow> (False, m)
                  | Some content \<Rightarrow> (True, m\<lparr>mf_conf := Some opt, mf_list := mac_filter_lines (fgets_lines content)\<rparr>))"

definition mac_filter_init :: "(string \<Rightarrow> string option) \<Rightarrow> string option \<Rightarrow> mac_filter" where
  "mac_filter_init fopen opt =
     (let m = \<lparr>mf_list = [], mf_type = 0, mf_conf = None\<rparr>
      in case opt of
           None \<Rightarrow> m\<lparr>mf_type := - 1\<rparr>
         | Some opt \<Rightarrow> (case mac_filter_load fopen opt m of (True, m) \<Rightarrow> m | (False, m) \<Rightarrow> m\<lparr>mf_type := - 1\<rparr>))"

definition mac_filter_add :: "string \<Rightarrow> mac_filter \<Rightarrow> mac_filter" where
  "mac_filter_add s m = (case scan_mac s of None \<Rightarrow> m | Some a \<Rightarrow> m\<lparr>mf_list := mf_list m @ [a]\<rparr>)"

definition mac_filter_del :: "string \<Rightarrow> mac_filter \<Rightarrow> mac_filter" where
  "mac_filter_del s m = (case scan_mac s of None \<Rightarrow> m | Some a \<Rightarrow> m\<lparr>mf_list := remove1 a (mf_list m)\<rparr>)"

definition mac_filter_show :: "mac_filter \<Rightarrow> string list" where
  "mac_filter_show m =
     (''filter type: '' @ (if mf_type m = 0 then ''deny'' else if mf_type m = 1 then ''allow'' else ''disabled'')) #
     map (mac_string False) (mf_list m)"

text \<open>\<^verbatim>\<open>cmd_exec\<close> on the words behind \<^verbatim>\<open>pppoe mac-filter\<close>; anything else prints the help.\<close>

definition mac_filter_cmd :: "(string \<Rightarrow> string option) \<Rightarrow> string list \<Rightarrow> mac_filter \<Rightarrow> mac_filter" where
  "mac_filter_cmd fopen ws m =
     (case ws of
        [] \<Rightarrow> m
      | f # args \<Rightarrow>
          if f = ''reload'' then (case mf_conf m of None \<Rightarrow> m | Some opt \<Rightarrow> snd (mac_filter_load fopen opt m))
          else if f = ''add'' then (case args of [a] \<Rightarrow> mac_filter_add a m | _ \<Rightarrow> m)
          else if f = ''del'' then (case args of [a] \<Rightarrow> mac_filter_del a m | _ \<Rightarrow> m)
          else m)"

section \<open>What is printed is what is read\<close>

lemma nibble_char_val: "n < 16 \<Longrightarrow> xdigit_val (nibble_char upper n) = Some n"
  by (auto simp: xdigit_val_def nibble_char_def Let_def)

lemma nibble_char_plain: "n < 16 \<Longrightarrow> \<not> isspace (nibble_char upper n) \<and> nibble_char upper n \<notin> {CHR ''-'', CHR ''+'', CHR ''x'', CHR ''X''}"
proof -
  assume n: "n < 16"
  let ?v = "if n < 10 then 48 + n else if upper then 55 + n else 87 + n"
  have v: "(of_char (nibble_char upper n) :: nat) = ?v" using n by (simp add: nibble_char_def)
  have "nibble_char upper n \<noteq> c" if "(of_char c :: nat) \<noteq> ?v" for c using v that by metis
  then show ?thesis using n v by (auto simp: isspace_def)
qed

lemma scan_x_hex_byte:
  assumes "r = [] \<or> hd r = CHR '':''"
  shows "scan_x (hex_byte upper b @ r) = Some (ucast b, r)"
proof -
  let ?h = "unat b div 16" and ?l = "unat b mod 16"
  have b: "unat b < 256" using unat_bound [of b] by simp
  then have h: "?h < 16" "?l < 16" by simp_all
  have c: "xdigit_val (CHR '':'') = None" by (simp add: xdigit_val_def)
  have t: "takeWhile (\<lambda>c. xdigit_val c \<noteq> None) (hex_byte upper b @ r) = hex_byte upper b"
    using assms h c by (cases r) (auto simp: hex_byte_def nibble_char_val)
  have "digits_val 16 0 (map (\<lambda>c. the (xdigit_val c)) (hex_byte upper b)) = unat b"
    using h by (simp add: hex_byte_def nibble_char_val)
  moreover have "dropWhile isspace (hex_byte upper b @ r) = hex_byte upper b @ r"
    using nibble_char_plain [OF h(1), of upper] by (simp add: hex_byte_def)
  ultimately show ?thesis
    using nibble_char_plain [OF h(1), of upper] nibble_char_plain [OF h(2), of upper] t b
    by (simp add: scan_x_def Let_def ULONG_MAX_def) (simp add: hex_byte_def)
qed

lemma scan_colons_mac_string:
  "scan_colons (length a) (mac_string upper a) = map ucast a"
proof (induction upper a rule: mac_string.induct)
  case (2 upper b)
  then show ?case using scan_x_hex_byte [of "[]" upper b] by simp
next
  case (3 upper b c bs)
  then show ?case using scan_x_hex_byte [of "'':'' @ mac_string upper (c # bs)" upper b] by simp
qed simp

lemma scan_mac_string: "length a = 6 \<Longrightarrow> scan_mac (mac_string upper a) = Some a"
proof -
  assume "length a = 6"
  then have "scan_colons 6 (mac_string upper a) = map ucast a" using scan_colons_mac_string [of a upper] by simp
  moreover have "\<not> (ucast n :: u32) > 255" for n :: u8
    using unat_bound [of n] by (simp add: word_less_nat_alt unsigned_ucast_eq take_bit_eq_mod)
  moreover have "ucast (ucast n :: u32) = n" for n :: u8 by (rule bit_word_eqI) (simp add: bit_ucast_iff)
  ultimately show ?thesis
    using \<open>length a = 6\<close> by (simp add: scan_mac_def list_ex_iff comp_def)
qed

text \<open>So a command with a printed address changes the verdict on that address and on no other.\<close>

lemma mac_filter_add_effect:
  assumes "length a = 6" "mf_type m \<noteq> - 1"
  shows "mac_filter_check (mac_filter_cmd fopen [''add'', mac_string upper a] m) b = (if b = a then mf_type m = 0 else mac_filter_check m b)"
  using assms by (auto simp: mac_filter_cmd_def mac_filter_add_def scan_mac_string mac_filter_check_def)

end
