(* ===== verification/PppoeServ.thy ===== *)
theory PppoeServ
  imports PppoePacket PppoeDelay Connlimit MacFilter Bitpool
begin

text \<open>
  The PPPoE server of \<^verbatim>\<open>accel-pppd/ctrl/pppoe\<close>: the servers on the interfaces (\<^verbatim>\<open>struct pppoe_serv_t\<close>), their connections
  (\<^verbatim>\<open>struct pppoe_conn_t\<close>), the session numbers, the counters, the delayed packets and the demultiplexer \<^verbatim>\<open>disc.c\<close>. Servers
  and connections carry a number of their own (\<open>sv_id\<close>, \<open>cn_id\<close>) in the place of their addresses. A context runs one
  function at a time; calls that one context queues for another (\<^verbatim>\<open>triton_context_call\<close>) wait in \<open>sv_calls\<close> and
  \<open>cn_calls\<close>. A server that was freed stays in the list with \<open>sv_freed\<close> set: touching it is a crash. What happens inside the
  PPP session of a connection is modelled in its own theories; here its start and end are events and its user name a flag.
\<close>

section \<open>Configuration and surroundings\<close>

datatype csid = CSID_MAC | CSID_IFNAME | CSID_IFNAME_MAC

record pppoe_conf =
  oc_service_name :: "bytes list"
  oc_accept_any_service :: bool
  oc_accept_blank_service :: bool
  oc_ac_name :: bytes
  oc_ifname_in_sid :: int
  oc_tr101 :: bool
  oc_padi_limit :: int
  oc_sid_uppercase :: bool
  oc_called_sid :: csid
  oc_cookie_timeout :: int
  oc_vlan_timeout :: int

text \<open>What the ioctls of \<^verbatim>\<open>__pppoe_server_start\<close> tell about an interface.\<close>

record ifinfo =
  if_hwaddr :: bytes
  if_mtu :: int
  if_index :: int

text \<open>
  The surroundings at the moment of a step: the clock, the state of the daemon and the results of the system. \<open>oe_shl\<close>
  is the value of \<^verbatim>\<open>1 << n\<close> for an \<open>n\<close> of 32 or more, which C leaves undefined.
\<close>

record pppoe_env =
  oe_conf :: pppoe_conf
  oe_cr :: pppoe_crypto
  oe_shl :: "nat \<Rightarrow> u32"
  oe_now :: timespec
  oe_shutdown :: bool
  oe_max_starting :: int
  oe_max_sessions :: int
  oe_ap_starting :: u32
  oe_ap_active :: u32
  oe_connlimit :: "cl_conf option" \<comment> \<open>the limiter, when its module is loaded\<close>
  oe_alloc :: bool \<comment> \<open>the memory pools are not exhausted\<close>
  oe_socket :: bool
  oe_connect :: bool
  oe_establish :: bool
  oe_if :: "string \<Rightarrow> ifinfo option"
  oe_secret :: bytes
  oe_des_key :: bytes
  oe_links :: "string \<Rightarrow> (string \<times> bool) list option" \<comment> \<open>the interfaces whose name matches a pattern, and whether they are VLANs\<close>
  oe_net_find :: "string \<Rightarrow> nat option"
  oe_vlan_busy :: bool
  oe_disc_socket :: bool
  oe_fopen :: "string \<Rightarrow> string option" \<comment> \<open>the content of a file that can be opened\<close>

section \<open>State\<close>

datatype conn_call = Do_connect | Do_disconnect | Do_conn_stop

record pppoe_conn =
  cn_id :: nat
  cn_sid :: u16
  cn_addr :: bytes
  cn_starting :: bool
  cn_started :: bool
  cn_relay_sid :: "pppoe_tag option"
  cn_host_uniq :: "pppoe_tag option"
  cn_service_name :: pppoe_tag
  cn_tr101 :: "pppoe_tag option"
  cn_cookie :: bytes
  cn_max_mtu :: int
  cn_called :: string
  cn_calling :: string
  cn_service :: bytes
  cn_username :: bool \<comment> \<open>\<^verbatim>\<open>ppp.ses.username\<close> is set\<close>
  cn_calls :: "conn_call list"

record delayed_pado =
  dl_addr :: bytes
  dl_host_uniq :: "pppoe_tag option"
  dl_relay_sid :: "pppoe_tag option"
  dl_service_name :: "pppoe_tag option"
  dl_max_payload :: u16

record padi =
  pd_ts :: timespec
  pd_addr :: bytes

datatype serv_call = Do_read bytes | Do_server_free | Do_start_timer | Do_server_stop

record pppoe_serv =
  sv_id :: nat
  sv_net :: nat
  sv_hwaddr :: bytes
  sv_ifname :: string
  sv_ifindex :: int
  sv_mtu :: int
  sv_timer :: bool
  sv_secret :: bytes
  sv_des_ks :: bytes
  sv_conns :: "pppoe_conn list"
  sv_conn_cnt :: int
  sv_pados :: "delayed_pado list"
  sv_padis :: "padi list"
  sv_padi_cnt :: int
  sv_padi_limit :: int
  sv_stopping :: bool
  sv_vlan_mon :: bool
  sv_calls :: "serv_call list"
  sv_freed :: bool

record pppoe_stat =
  ps_starting :: int
  ps_active :: int
  ps_delayed_PADO :: int
  ps_PADI_recv :: int
  ps_PADI_drop :: int
  ps_PADO_sent :: int
  ps_PADR_recv :: int
  ps_PADR_dup_recv :: int
  ps_PADS_sent :: int
  ps_filtered :: int

datatype ctrl_event = Ctrl_starting | Ctrl_started | Ctrl_finished | Ses_terminate bool

text \<open>\<^verbatim>\<open>struct disc_net\<close>; the descriptor of its handler is -1 once it is closed.\<close>

record disc_net =
  dn_net :: nat
  dn_open :: bool
  dn_refs :: int

record pppoe_world =
  o_servs :: "pppoe_serv list"
  o_disc_net :: "disc_net option" \<comment> \<open>the only element of \<^verbatim>\<open>nets\<close>\<close>
  o_disc :: "(int \<times> nat) list" \<comment> \<open>the servers in the trees of \<^verbatim>\<open>disc.c\<close>, by the index of their interface\<close>
  o_sid_map :: "u64 list"
  o_sid_idx :: nat
  o_stat :: pppoe_stat
  o_total_padi :: int
  o_dpado :: dpado
  o_mac :: mac_filter
  o_limits :: "cl_item list"
  o_next :: nat \<comment> \<open>the number of the next server or connection\<close>
  o_sent :: "(nat \<times> pppoe_frame) list" \<comment> \<open>from here on a record of the history: what was sent, with the server that sent it\<close>
  o_events :: "(nat \<times> ctrl_event) list"
  o_admitted :: "(nat \<times> nat \<times> bytes \<times> timespec) list" \<comment> \<open>connection, server, PADR frame and time\<close>
  o_released :: "u16 list" \<comment> \<open>the session numbers that were given back\<close>
  o_crashed :: bool

definition o_crash :: "pppoe_world \<Rightarrow> pppoe_world" where
  "o_crash w = w\<lparr>o_crashed := True\<rparr>"

definition get_serv :: "pppoe_world \<Rightarrow> nat \<Rightarrow> pppoe_serv option" where
  "get_serv w k = find (\<lambda>s. sv_id s = k) (o_servs w)"

definition upd_serv :: "nat \<Rightarrow> (pppoe_serv \<Rightarrow> pppoe_serv) \<Rightarrow> pppoe_world \<Rightarrow> pppoe_world" where
  "upd_serv k f w = w\<lparr>o_servs := map (\<lambda>s. if sv_id s = k then f s else s) (o_servs w)\<rparr>"

definition get_conn :: "pppoe_serv \<Rightarrow> nat \<Rightarrow> pppoe_conn option" where
  "get_conn sv c = find (\<lambda>cn. cn_id cn = c) (sv_conns sv)"

definition upd_cn :: "nat \<Rightarrow> nat \<Rightarrow> (pppoe_conn \<Rightarrow> pppoe_conn) \<Rightarrow> pppoe_world \<Rightarrow> pppoe_world" where
  "upd_cn k c f = upd_serv k (\<lambda>s. s\<lparr>sv_conns := map (\<lambda>cn. if cn_id cn = c then f cn else cn) (sv_conns s)\<rparr>)"

definition upd_stat :: "(pppoe_stat \<Rightarrow> pppoe_stat) \<Rightarrow> pppoe_world \<Rightarrow> pppoe_world" where
  "upd_stat f w = w\<lparr>o_stat := f (o_stat w)\<rparr>"

definition log_ctrl :: "nat \<Rightarrow> ctrl_event \<Rightarrow> pppoe_world \<Rightarrow> pppoe_world" where
  "log_ctrl c ev w = w\<lparr>o_events := o_events w @ [(c, ev)]\<rparr>"

text \<open>\<^verbatim>\<open>triton_context_call\<close> to the context of a connection and of a server.\<close>

definition call_conn :: "nat \<Rightarrow> nat \<Rightarrow> conn_call \<Rightarrow> pppoe_world \<Rightarrow> pppoe_world" where
  "call_conn k c f = upd_cn k c (\<lambda>cn. cn\<lparr>cn_calls := cn_calls cn @ [f]\<rparr>)"

definition call_serv :: "nat \<Rightarrow> serv_call \<Rightarrow> pppoe_world \<Rightarrow> pppoe_world" where
  "call_serv k f = upd_serv k (\<lambda>s. s\<lparr>sv_calls := sv_calls s @ [f]\<rparr>)"

section \<open>Session numbers\<close>

abbreviation (input) SID_WORDS :: nat where "SID_WORDS \<equiv> 1024"

text \<open>
  The loop of \<^verbatim>\<open>allocate_channel\<close>, with the number of words it still looks at: it ends when \<^verbatim>\<open>sid_ptr\<close> is back at
  \<^verbatim>\<open>old_sid_ptr\<close>, after all of them. The result is the number, 0 for none, the map and the position.
\<close>

primrec sid_loop :: "nat \<Rightarrow> u64 list \<Rightarrow> nat \<Rightarrow> u16 \<times> u64 list \<times> nat" where
  "sid_loop 0 m idx = (0, m, idx)"
| "sid_loop (Suc n) m idx =
     (let idx' = (if idx + 1 = SID_WORDS then 0 else idx + 1)
      in if m ! idx \<noteq> 0
         then (of_nat (idx * 64 + ctzl (m ! idx)), m[idx := m ! idx AND NOT (push_bit (ctzl (m ! idx)) 1)], idx')
         else sid_loop n m idx')"

text \<open>\<^verbatim>\<open>1 << n\<close> is a shift of an \<^verbatim>\<open>int\<close>; its result is extended with its sign to \<^verbatim>\<open>unsigned long\<close>.\<close>

definition int_shl :: "(nat \<Rightarrow> u32) \<Rightarrow> nat \<Rightarrow> u32" where
  "int_shl undef n = (if n < 32 then push_bit n 1 else undef n)"

definition sid_release :: "(nat \<Rightarrow> u32) \<Rightarrow> u16 \<Rightarrow> u64 list \<Rightarrow> u64 list" where
  "sid_release undef sid m =
     (let i = unat sid div 64 in m[i := m ! i OR scast (int_shl undef (unat sid mod 64))])"

definition sid_map_init :: "u64 list" where
  "sid_map_init = (replicate SID_WORDS (- 1))[0 := 0xFFFFFFFFFFFFFFFE, 1023 := 0x7FFFFFFFFFFFFFFF]"

section \<open>Texts\<close>

definition called_station_id :: "pppoe_conf \<Rightarrow> pppoe_serv \<Rightarrow> string" where
  "called_station_id cf sv =
     (let mac = mac_string (oc_sid_uppercase cf) (sv_hwaddr sv)
      in case oc_called_sid cf of
           CSID_IFNAME \<Rightarrow> sv_ifname sv
         | CSID_IFNAME_MAC \<Rightarrow> sv_ifname sv @ '':'' @ mac
         | CSID_MAC \<Rightarrow> if oc_ifname_in_sid cf = 2 \<or> oc_ifname_in_sid cf = 3 then sv_ifname sv @ '':'' @ mac else mac)"

definition calling_station_id :: "pppoe_conf \<Rightarrow> pppoe_serv \<Rightarrow> bytes \<Rightarrow> string" where
  "calling_station_id cf sv addr =
     (let mac = mac_string (oc_sid_uppercase cf) addr
      in if oc_ifname_in_sid cf = 1 \<or> oc_ifname_in_sid cf = 3 then sv_ifname sv @ '':'' @ mac else mac)"

text \<open>The buffer of 256 zero bytes into which the name of the service is copied if it leaves room for a final zero.\<close>

definition service_text :: "pppoe_tag \<Rightarrow> bytes" where
  "service_text t = (if 0 < tag_len t \<and> tag_len t < 256 then tag_data t @ replicate (256 - tag_len t) 0 else replicate 256 0)"

section \<open>Sending\<close>

definition pppoe_send :: "nat \<Rightarrow> pppoe_frame \<Rightarrow> pppoe_world \<Rightarrow> pppoe_world" where
  "pppoe_send k f w = w\<lparr>o_sent := o_sent w @ [(k, f)]\<rparr>"

definition pado_frame ::
    "pppoe_env \<Rightarrow> pppoe_serv \<Rightarrow> bytes \<Rightarrow> pppoe_tag option \<Rightarrow> pppoe_tag option \<Rightarrow> pppoe_tag option \<Rightarrow> u16 \<Rightarrow> pppoe_frame" where
  "pado_frame e sv addr host_uniq relay_sid service_name ppp_max_payload =
     (let cf = oe_conf e;
          f = setup_header (sv_hwaddr sv) addr CODE_PADO 0;
          f = add_tag TAG_AC_NAME (oc_ac_name cf) f;
          f = fold (add_tag TAG_SERVICE_NAME) (oc_service_name cf) f;
          f = add_tag_opt service_name f;
          cookie = generate_cookie (oe_cr e) (tv_sec (oe_now e)) (oc_cookie_timeout cf) (sv_secret sv) (sv_des_ks sv) (sv_hwaddr sv) addr
                     host_uniq relay_sid;
          f = add_tag TAG_AC_COOKIE cookie f;
          f = add_tag_opt host_uniq f;
          f = add_tag_opt relay_sid f
      in if ppp_max_payload \<noteq> 0 then add_tag TAG_PPP_MAX_PAYLOAD (u_write_be16 ppp_max_payload) f else f)"

definition pppoe_send_PADO ::
    "pppoe_env \<Rightarrow> pppoe_serv \<Rightarrow> bytes \<Rightarrow> pppoe_tag option \<Rightarrow> pppoe_tag option \<Rightarrow> pppoe_tag option \<Rightarrow> u16 \<Rightarrow> pppoe_world \<Rightarrow> pppoe_world" where
  "pppoe_send_PADO e sv addr host_uniq relay_sid service_name ppp_max_payload w =
     pppoe_send (sv_id sv) (pado_frame e sv addr host_uniq relay_sid service_name ppp_max_payload)
       (upd_stat (\<lambda>s. s\<lparr>ps_PADO_sent := ps_PADO_sent s + 1\<rparr>) w)"

definition pppoe_send_err ::
    "pppoe_env \<Rightarrow> pppoe_serv \<Rightarrow> bytes \<Rightarrow> pppoe_tag option \<Rightarrow> pppoe_tag option \<Rightarrow> u8 \<Rightarrow> u16 \<Rightarrow> pppoe_world \<Rightarrow> pppoe_world" where
  "pppoe_send_err e sv addr host_uniq relay_sid code type w =
     (let f = setup_header (sv_hwaddr sv) addr code 0;
          f = add_tag TAG_AC_NAME (oc_ac_name (oe_conf e)) f;
          f = add_tag type [] f
      in pppoe_send (sv_id sv) (add_tag_opt relay_sid (add_tag_opt host_uniq f)) w)"

definition pads_frame :: "pppoe_env \<Rightarrow> pppoe_serv \<Rightarrow> pppoe_conn \<Rightarrow> pppoe_frame" where
  "pads_frame e sv cn =
     (let f = setup_header (sv_hwaddr sv) (cn_addr cn) CODE_PADS (cn_sid cn);
          f = add_tag TAG_AC_NAME (oc_ac_name (oe_conf e)) f;
          f = add_tag2 (cn_service_name cn) f;
          f = add_tag_opt (cn_host_uniq cn) f;
          f = add_tag_opt (cn_relay_sid cn) f
      in if cn_max_mtu cn > 1492 then add_tag TAG_PPP_MAX_PAYLOAD (u_write_be16 (word_of_int (cn_max_mtu cn))) f else f)"

definition pppoe_send_PADS :: "pppoe_env \<Rightarrow> pppoe_serv \<Rightarrow> pppoe_conn \<Rightarrow> pppoe_world \<Rightarrow> pppoe_world" where
  "pppoe_send_PADS e sv cn w =
     pppoe_send (sv_id sv) (pads_frame e sv cn) (upd_stat (\<lambda>s. s\<lparr>ps_PADS_sent := ps_PADS_sent s + 1\<rparr>) w)"

definition pppoe_send_PADT :: "pppoe_env \<Rightarrow> pppoe_serv \<Rightarrow> pppoe_conn \<Rightarrow> pppoe_world \<Rightarrow> pppoe_world" where
  "pppoe_send_PADT e sv cn w =
     (let f = setup_header (sv_hwaddr sv) (cn_addr cn) CODE_PADT (cn_sid cn);
          f = add_tag TAG_AC_NAME (oc_ac_name (oe_conf e)) f;
          f = add_tag2 (cn_service_name cn) f
      in pppoe_send (sv_id sv) (add_tag_opt (cn_relay_sid cn) f) w)"

end
