(* ===== verification/PppoeRecv.thy ===== *)
theory PppoeRecv
  imports PppoeServ
begin

text \<open>
  The handlers of the PPPoE server in \<^verbatim>\<open>pppoe.c\<close>: received PADI, PADR and PADT packets, the limits they are checked against, and the start
  and the end of a connection.
\<close>

section \<open>The end of a connection\<close>

definition active_dec :: "pppoe_world \<Rightarrow> pppoe_world" where
  "active_dec w =
     (case dpado_check_prev (ps_active (o_stat w)) (o_dpado w) of
        Ok dp \<Rightarrow> upd_stat (\<lambda>s. s\<lparr>ps_active := ps_active s - 1\<rparr>) (w\<lparr>o_dpado := dp\<rparr>)
      | _ \<Rightarrow> o_crash w)"

definition active_inc :: "pppoe_world \<Rightarrow> pppoe_world" where
  "active_inc w =
     upd_stat (\<lambda>s. s\<lparr>ps_active := ps_active s + 1\<rparr>) (w\<lparr>o_dpado := dpado_check_next (ps_active (o_stat w) + 1) (o_dpado w)\<rparr>)"

text \<open>
  \<^verbatim>\<open>disconnect\<close>. The hard termination of the session calls back \<^verbatim>\<open>ppp_finished\<close>, which does nothing as \<^verbatim>\<open>ppp_started\<close> is already
  0. The context of the connection is unregistered with the calls that still wait in it.
\<close>

definition unlink_conn :: "pppoe_conn \<Rightarrow> pppoe_serv \<Rightarrow> pppoe_serv" where
  "unlink_conn cn s =
     (let s = s\<lparr>sv_conns := filter (\<lambda>c. cn_id c \<noteq> cn_id cn) (sv_conns s), sv_conn_cnt := sv_conn_cnt s - 1\<rparr>
      in if sv_conn_cnt s = 0 then
           if sv_stopping s then s\<lparr>sv_calls := sv_calls s @ [Do_server_free]\<rparr>
           else if sv_vlan_mon s then s\<lparr>sv_calls := sv_calls s @ [Do_start_timer]\<rparr>
           else s
         else s)"

definition disconnect :: "pppoe_env \<Rightarrow> nat \<Rightarrow> nat \<Rightarrow> pppoe_world \<Rightarrow> pppoe_world" where
  "disconnect e k c w =
     (case get_serv w k of
        None \<Rightarrow> o_crash w
      | Some sv \<Rightarrow>
          (case get_conn sv c of
             None \<Rightarrow> o_crash w
           | Some cn \<Rightarrow>
               let w = (if cn_started cn then log_ctrl c (Ses_terminate True) (active_dec w)
                        else if cn_starting cn then upd_stat (\<lambda>s. s\<lparr>ps_starting := ps_starting s - 1\<rparr>) w
                        else w)
               in if sv_freed sv then o_crash w
                  else
                    let w = log_ctrl c Ctrl_finished (pppoe_send_PADT e sv cn w);
                        w = upd_serv k (unlink_conn cn) w
                    in w\<lparr>o_sid_map := sid_release (oe_shl e) (cn_sid cn) (o_sid_map w), o_released := o_released w @ [cn_sid cn]\<rparr>))"

definition ppp_finished :: "nat \<Rightarrow> nat \<Rightarrow> pppoe_world \<Rightarrow> pppoe_world" where
  "ppp_finished k c w =
     (case get_serv w k of
        None \<Rightarrow> o_crash w
      | Some sv \<Rightarrow>
          (case get_conn sv c of
             None \<Rightarrow> o_crash w
           | Some cn \<Rightarrow>
               if cn_started cn then call_conn k c Do_disconnect (upd_cn k c (\<lambda>cn. cn\<lparr>cn_started := False\<rparr>) (active_dec w))
               else w))"

text \<open>\<^verbatim>\<open>pppoe_conn_close\<close> and \<^verbatim>\<open>_conn_stop\<close>; the soft termination is reported by \<^verbatim>\<open>ppp_finished\<close> when the session has ended.\<close>

definition pppoe_conn_close :: "pppoe_env \<Rightarrow> nat \<Rightarrow> nat \<Rightarrow> pppoe_world \<Rightarrow> pppoe_world" where
  "pppoe_conn_close e k c w =
     (case get_serv w k of
        None \<Rightarrow> o_crash w
      | Some sv \<Rightarrow>
          (case get_conn sv c of
             None \<Rightarrow> o_crash w
           | Some cn \<Rightarrow> if cn_started cn then log_ctrl c (Ses_terminate False) w else disconnect e k c w))"

definition conn_stop :: "nat \<Rightarrow> pppoe_world \<Rightarrow> pppoe_world" where
  "conn_stop c = log_ctrl c (Ses_terminate False)"

section \<open>The start of a connection\<close>

definition conn_max_mtu :: "int \<Rightarrow> u16 \<Rightarrow> int" where
  "conn_max_mtu mtu ppp_max_payload =
     (if uint ppp_max_payload > 1492 then min (uint ppp_max_payload) (mtu - 8) else min 1500 mtu - 8)"

definition new_conn ::
    "pppoe_env \<Rightarrow> pppoe_serv \<Rightarrow> bytes \<Rightarrow> pppoe_tag option \<Rightarrow> pppoe_tag option \<Rightarrow> pppoe_tag option \<Rightarrow> pppoe_tag option \<Rightarrow> bytes \<Rightarrow> u16 \<Rightarrow>
      nat \<Rightarrow> u16 \<Rightarrow> pppoe_conn" where
  "new_conn e sv addr host_uniq relay_sid service_name tr101 cookie ppp_max_payload c sid =
     (let service_name = (case service_name of None \<Rightarrow> \<lparr>tag_type = TAG_SERVICE_NAME, tag_data = []\<rparr> | Some t \<Rightarrow> t)
      in \<lparr>cn_id = c, cn_sid = sid, cn_addr = addr, cn_starting = False, cn_started = False,
          cn_relay_sid = relay_sid, cn_host_uniq = host_uniq, cn_service_name = service_name, cn_tr101 = tr101,
          cn_cookie = take (COOKIE_LENGTH - 4) cookie, cn_max_mtu = conn_max_mtu (sv_mtu sv) ppp_max_payload,
          cn_called = called_station_id (oe_conf e) sv, cn_calling = calling_station_id (oe_conf e) sv addr,
          cn_service = service_text service_name, cn_username = False, cn_calls = []\<rparr>)"

definition link_conn :: "pppoe_conn \<Rightarrow> pppoe_serv \<Rightarrow> pppoe_serv" where
  "link_conn cn s = s\<lparr>sv_conns := sv_conns s @ [cn], sv_timer := False, sv_conn_cnt := sv_conn_cnt s + 1\<rparr>"

definition allocate_channel ::
    "pppoe_env \<Rightarrow> pppoe_serv \<Rightarrow> bytes \<Rightarrow> pppoe_tag option \<Rightarrow> pppoe_tag option \<Rightarrow> pppoe_tag option \<Rightarrow> pppoe_tag option \<Rightarrow> bytes \<Rightarrow> u16 \<Rightarrow>
      pppoe_world \<Rightarrow> pppoe_conn option \<times> pppoe_world" where
  "allocate_channel e sv addr host_uniq relay_sid service_name tr101 cookie ppp_max_payload w =
     (if \<not> oe_alloc e then (None, w)
      else
        case sid_loop SID_WORDS (o_sid_map w) (o_sid_idx w) of
          (sid, m, idx) \<Rightarrow>
            let w = w\<lparr>o_sid_map := m, o_sid_idx := idx\<rparr>
            in if sid = 0 then (None, w)
               else
                 let cn = new_conn e sv addr host_uniq relay_sid service_name tr101 cookie ppp_max_payload (o_next w) sid
                 in (Some cn, (upd_serv (sv_id sv) (link_conn cn) w)\<lparr>o_next := o_next w + 1\<rparr>))"

definition connect_channel :: "pppoe_env \<Rightarrow> nat \<Rightarrow> nat \<Rightarrow> pppoe_world \<Rightarrow> pppoe_world" where
  "connect_channel e k c w =
     (let w = log_ctrl c Ctrl_starting w;
          w = upd_stat (\<lambda>s. s\<lparr>ps_starting := ps_starting s + 1\<rparr>) (upd_cn k c (\<lambda>cn. cn\<lparr>cn_starting := True\<rparr>) w);
          w = log_ctrl c Ctrl_started w
      in if \<not> oe_socket e then disconnect e k c w
         else
           case get_serv w k of
             None \<Rightarrow> o_crash w
           | Some sv \<Rightarrow>
               if sv_freed sv then o_crash w
               else if \<not> oe_connect e \<or> \<not> oe_establish e then disconnect e k c w
               else
                 active_inc (upd_stat (\<lambda>s. s\<lparr>ps_starting := ps_starting s - 1\<rparr>)
                   (upd_cn k c (\<lambda>cn. cn\<lparr>cn_starting := False, cn_started := True\<rparr>) w)))"

section \<open>Limits\<close>

definition drop_padi :: "timespec \<Rightarrow> padi list \<Rightarrow> padi list" where
  "drop_padi now = dropWhile (\<lambda>p. ms_between now (pd_ts p) > 1000)"

text \<open>The check of the limiter; the flag: the packet is dropped.\<close>

definition check_connlimit :: "pppoe_env \<Rightarrow> bytes \<Rightarrow> pppoe_world \<Rightarrow> bool \<times> pppoe_world" where
  "check_connlimit e addr w =
     (case oe_connlimit e of
        None \<Rightarrow> (False, w)
      | Some cf \<Rightarrow>
          (case connlimit_check cf (oe_now e) (cl_key_from_mac addr) (o_limits w) of (r, items) \<Rightarrow> (r \<noteq> 0, w\<lparr>o_limits := items\<rparr>)))"

definition check_padi_limit :: "pppoe_env \<Rightarrow> pppoe_serv \<Rightarrow> bytes \<Rightarrow> pppoe_world \<Rightarrow> bool \<times> pppoe_world" where
  "check_padi_limit e sv addr w =
     (if sv_padi_limit sv = 0 then check_connlimit e addr w
      else
        let rest = drop_padi (oe_now e) (sv_padis sv);
            gone = int (length (sv_padis sv) - length rest);
            cnt = sv_padi_cnt sv - gone;
            w = upd_serv (sv_id sv) (\<lambda>s. s\<lparr>sv_padis := rest, sv_padi_cnt := cnt\<rparr>) (w\<lparr>o_total_padi := o_total_padi w - gone\<rparr>)
        in if cnt = sv_padi_limit sv then (True, w)
           else if oc_padi_limit (oe_conf e) \<noteq> 0 \<and> (word_of_int (o_total_padi w) :: u32) \<ge> word_of_int (oc_padi_limit (oe_conf e)) then (True, w)
           else if list_ex (\<lambda>p. pd_addr p = addr) rest then (True, w)
           else if \<not> oe_alloc e then (True, w)
           else
             let w = upd_serv (sv_id sv) (\<lambda>s. s\<lparr>sv_padis := rest @ [\<lparr>pd_ts = oe_now e, pd_addr = addr\<rparr>], sv_padi_cnt := cnt + 1\<rparr>) w
             in check_connlimit e addr (w\<lparr>o_total_padi := o_total_padi w + 1\<rparr>))"

text \<open>The daemon takes no more sessions; the counters are unsigned, so are the comparisons.\<close>

definition at_capacity :: "pppoe_env \<Rightarrow> bool" where
  "at_capacity e \<longleftrightarrow>
     oe_max_starting e \<noteq> 0 \<and> oe_ap_starting e \<ge> word_of_int (oe_max_starting e) \<or>
     oe_max_sessions e \<noteq> 0 \<and> oe_ap_active e + oe_ap_starting e \<ge> word_of_int (oe_max_sessions e)"

section \<open>PADI\<close>

record padi_vars =
  vi_service_match :: bool
  vi_service_name :: "pppoe_tag option"
  vi_host_uniq :: "pppoe_tag option"
  vi_relay_sid :: "pppoe_tag option"
  vi_max_payload :: u16

definition padi_tag :: "pppoe_conf \<Rightarrow> pppoe_tag \<Rightarrow> padi_vars \<Rightarrow> padi_vars" where
  "padi_tag cf t v =
     (if tag_type t = TAG_SERVICE_NAME then
        if tag_len t = 0 \<and> oc_accept_blank_service cf then v\<lparr>vi_service_match := True\<rparr>
        else if oc_service_name cf \<noteq> [] then
          if list_ex (\<lambda>s. tag_data t = s) (oc_service_name cf) then v\<lparr>vi_service_match := True\<rparr> else v
        else v\<lparr>vi_service_name := Some t\<rparr>
      else if tag_type t = TAG_HOST_UNIQ then v\<lparr>vi_host_uniq := Some t\<rparr>
      else if tag_type t = TAG_RELAY_SESSION_ID then v\<lparr>vi_relay_sid := Some t\<rparr>
      else if tag_type t = TAG_PPP_MAX_PAYLOAD then
        if tag_len t = 2 then v\<lparr>vi_max_payload := u_read_be16 (tag_data t)\<rparr> else v
      else v)"

definition padi_answer :: "pppoe_env \<Rightarrow> pppoe_serv \<Rightarrow> bytes \<Rightarrow> padi_vars \<Rightarrow> pppoe_world \<Rightarrow> pppoe_world" where
  "padi_answer e sv addr v w =
     (let mp = (if uint (vi_max_payload v) > sv_mtu sv - 8 then word_of_int (sv_mtu sv - 8) else vi_max_payload v)
      in if \<not> vi_service_match v \<and> \<not> oc_accept_any_service (oe_conf e) then w
         else if dp_delay (o_dpado w) \<noteq> 0 then
           if list_ex (\<lambda>p. dl_addr p = addr) (sv_pados sv) then w
           else if \<not> oe_alloc e then o_crash w
           else
             let p = \<lparr>dl_addr = addr, dl_host_uniq = vi_host_uniq v, dl_relay_sid = vi_relay_sid v, dl_service_name = vi_service_name v,
                      dl_max_payload = mp\<rparr>
             in upd_stat (\<lambda>s. s\<lparr>ps_delayed_PADO := ps_delayed_PADO s + 1\<rparr>)
                  (upd_serv (sv_id sv) (\<lambda>s. s\<lparr>sv_pados := sv_pados s @ [p]\<rparr>) w)
         else pppoe_send_PADO e sv addr (vi_host_uniq v) (vi_relay_sid v) (vi_service_name v) mp w)"

definition pppoe_recv_PADI :: "pppoe_env \<Rightarrow> pppoe_serv \<Rightarrow> bytes \<Rightarrow> pppoe_world \<Rightarrow> pppoe_world" where
  "pppoe_recv_PADI e sv pack w =
     (let w = upd_stat (\<lambda>s. s\<lparr>ps_PADI_recv := ps_PADI_recv s + 1\<rparr>) w;
          cf = oe_conf e
      in if oe_shutdown e \<or> dp_delay (o_dpado w) = - 1 then w
         else if at_capacity e then w
         else
           case check_padi_limit e sv (h_source pack) w of
             (True, w) \<Rightarrow> upd_stat (\<lambda>s. s\<lparr>ps_PADI_drop := ps_PADI_drop s + 1\<rparr>) w
           | (False, w) \<Rightarrow>
               if pppoe_sid pack \<noteq> 0 then w
               else
                 case for_tags (padi_tag cf) pack (pppoe_length pack) 0
                        \<lparr>vi_service_match = (oc_service_name cf = []), vi_service_name = None, vi_host_uniq = None,
                         vi_relay_sid = None, vi_max_payload = 0\<rparr> of
                   Fault \<Rightarrow> o_crash w
                 | Reject \<Rightarrow> w
                 | Ok v \<Rightarrow> padi_answer e sv (h_source pack) v w)"

section \<open>PADR\<close>

record padr_vars =
  vr_service_match :: bool
  vr_service_count :: nat
  vr_service_name :: "pppoe_tag option"
  vr_host_uniq :: "pppoe_tag option"
  vr_relay_sid :: "pppoe_tag option"
  vr_cookie :: "pppoe_tag option"
  vr_tr101 :: "pppoe_tag option"
  vr_max_payload :: u16

definition padr_tag :: "pppoe_conf \<Rightarrow> pppoe_tag \<Rightarrow> padr_vars \<Rightarrow> padr_vars" where
  "padr_tag cf t v =
     (if tag_type t = TAG_SERVICE_NAME then
        let v = v\<lparr>vr_service_name := Some t, vr_service_count := vr_service_count v + 1\<rparr>
        in if tag_len t = 0 then v\<lparr>vr_service_match := True\<rparr>
           else if oc_service_name cf \<noteq> [] then
             if list_ex (\<lambda>s. tag_data t = s) (oc_service_name cf) then v\<lparr>vr_service_match := True\<rparr> else v
           else v\<lparr>vr_service_match := True\<rparr>
      else if tag_type t = TAG_HOST_UNIQ then v\<lparr>vr_host_uniq := Some t\<rparr>
      else if tag_type t = TAG_AC_COOKIE then v\<lparr>vr_cookie := Some t\<rparr>
      else if tag_type t = TAG_RELAY_SESSION_ID then v\<lparr>vr_relay_sid := Some t\<rparr>
      else if tag_type t = TAG_VENDOR_SPECIFIC then
        if tag_len t < 4 then v
        else if u_read_be32 (tag_data t) = VENDOR_ADSL_FORUM \<and> oc_tr101 cf then v\<lparr>vr_tr101 := Some t\<rparr>
        else v
      else if tag_type t = TAG_PPP_MAX_PAYLOAD then
        if tag_len t = 2 then v\<lparr>vr_max_payload := u_read_be16 (tag_data t)\<rparr> else v
      else v)"

definition padr_tags :: "pppoe_conf \<Rightarrow> bytes \<Rightarrow> padr_vars parse" where
  "padr_tags cf pack =
     for_tags (padr_tag cf) pack (pppoe_length pack) 0
       \<lparr>vr_service_match = False, vr_service_count = 0, vr_service_name = None, vr_host_uniq = None, vr_relay_sid = None,
        vr_cookie = None, vr_tr101 = None, vr_max_payload = 0\<rparr>"

definition find_channel :: "pppoe_serv \<Rightarrow> bytes \<Rightarrow> pppoe_conn option" where
  "find_channel sv cookie = find (\<lambda>cn. cn_cookie cn = take (COOKIE_LENGTH - 4) cookie) (sv_conns sv)"

text \<open>What follows the check of the cookie.\<close>

definition padr_admit :: "pppoe_env \<Rightarrow> pppoe_serv \<Rightarrow> bytes \<Rightarrow> padr_vars \<Rightarrow> bytes \<Rightarrow> pppoe_world \<Rightarrow> pppoe_world" where
  "padr_admit e sv pack v cookie w =
     (if \<not> vr_service_match v \<and> \<not> oc_accept_any_service (oe_conf e)
      then pppoe_send_err e sv (h_source pack) (vr_host_uniq v) (vr_relay_sid v) CODE_PADS TAG_SERVICE_NAME_ERROR w
      else
        case find_channel sv cookie of
          Some cn \<Rightarrow>
            if \<not> cn_username cn
            then pppoe_send_PADS e sv cn (upd_stat (\<lambda>s. s\<lparr>ps_PADR_dup_recv := ps_PADR_dup_recv s + 1\<rparr>) w)
            else w
        | None \<Rightarrow>
            (case allocate_channel e sv (h_source pack) (vr_host_uniq v) (vr_relay_sid v) (vr_service_name v) (vr_tr101 v) cookie
                    (vr_max_payload v) w of
               (None, w) \<Rightarrow> pppoe_send_err e sv (h_source pack) (vr_host_uniq v) (vr_relay_sid v) CODE_PADS TAG_AC_SYSTEM_ERROR w
             | (Some cn, w) \<Rightarrow>
                 let w = w\<lparr>o_admitted := o_admitted w @ [(cn_id cn, sv_id sv, pack, oe_now e)]\<rparr>
                 in call_conn (sv_id sv) (cn_id cn) Do_connect (pppoe_send_PADS e sv cn w)))"

definition pppoe_recv_PADR :: "pppoe_env \<Rightarrow> pppoe_serv \<Rightarrow> bytes \<Rightarrow> pppoe_world \<Rightarrow> pppoe_world" where
  "pppoe_recv_PADR e sv pack w =
     (let w = upd_stat (\<lambda>s. s\<lparr>ps_PADR_recv := ps_PADR_recv s + 1\<rparr>) w
      in if oe_shutdown e then w
         else if at_capacity e then w
         else if h_dest pack = bc_addr then w
         else if pppoe_sid pack \<noteq> 0 then w
         else
           case padr_tags (oe_conf e) pack of
             Fault \<Rightarrow> o_crash w
           | Reject \<Rightarrow> w
           | Ok v \<Rightarrow>
               (case vr_cookie v of
                  None \<Rightarrow> w
                | Some t \<Rightarrow>
                    if vr_service_count v \<noteq> 1 then w
                    else if tag_len t \<noteq> COOKIE_LENGTH then w
                    else if \<not> check_cookie (oe_cr e) (tv_sec (oe_now e)) (sv_secret sv) (sv_des_ks sv) (sv_hwaddr sv) (h_source pack)
                                (tag_data t) (vr_relay_sid v) then w
                    else padr_admit e sv pack v (tag_data t) w))"

section \<open>PADT\<close>

definition pppoe_recv_PADT :: "pppoe_serv \<Rightarrow> bytes \<Rightarrow> pppoe_world \<Rightarrow> pppoe_world" where
  "pppoe_recv_PADT sv pack w =
     (if h_dest pack = bc_addr then w
      else
        case find (\<lambda>cn. cn_sid cn = pppoe_sid pack) (sv_conns sv) of
          None \<Rightarrow> w
        | Some cn \<Rightarrow> if cn_addr cn = h_source pack then call_conn (sv_id sv) (cn_id cn) Do_disconnect w else w)"

definition pppoe_serv_read :: "pppoe_env \<Rightarrow> pppoe_serv \<Rightarrow> bytes \<Rightarrow> pppoe_world \<Rightarrow> pppoe_world" where
  "pppoe_serv_read e sv pack w =
     (if pppoe_code pack = CODE_PADI then pppoe_recv_PADI e sv pack w
      else if pppoe_code pack = CODE_PADR then pppoe_recv_PADR e sv pack w
      else if pppoe_code pack = CODE_PADT then pppoe_recv_PADT sv pack w
      else w)"

end
