(* ===== verification/PppoeLife.thy ===== *)
theory PppoeLife
  imports PppoeRecv
begin

text \<open>
  The life of the PPPoE servers: start and stop on an interface, the demultiplexer \<^verbatim>\<open>disc.c\<close>, the timers, and the histories of the daemon as sequences of the steps of its contexts.
\<close>

section \<open>The demultiplexer\<close>

text \<open>
  \<^verbatim>\<open>find_net\<close> and \<^verbatim>\<open>init_net\<close>, which refuses a second network: \<^verbatim>\<open>net_cnt\<close> may not reach \<^verbatim>\<open>MAX_NET - 1\<close>, which is 1.
\<close>

definition disc_net_of :: "pppoe_env \<Rightarrow> nat \<Rightarrow> pppoe_world \<Rightarrow> disc_net option" where
  "disc_net_of e net w =
     (case o_disc_net w of
        Some d \<Rightarrow> if dn_net d = net then Some d else None
      | None \<Rightarrow> if oe_disc_socket e then Some \<lparr>dn_net = net, dn_open = True, dn_refs = 1\<rparr> else None)"

text \<open>\<^verbatim>\<open>pppoe_disc_start\<close>: \<open>None\<close> is the result -1. A new network has no server yet, so a refusal leaves nothing behind.\<close>

definition pppoe_disc_start :: "pppoe_env \<Rightarrow> nat \<Rightarrow> int \<Rightarrow> nat \<Rightarrow> pppoe_world \<Rightarrow> pppoe_world option" where
  "pppoe_disc_start e net ifindex k w =
     (case disc_net_of e net w of
        None \<Rightarrow> None
      | Some d \<Rightarrow>
          if \<not> dn_open d then None
          else if list_ex (\<lambda>x. fst x = ifindex) (o_disc w) then None
          else Some (w\<lparr>o_disc_net := Some (d\<lparr>dn_refs := dn_refs d + 1\<rparr>), o_disc := o_disc w @ [(ifindex, k)]\<rparr>))"

text \<open>A reference to the network is given up; the last one frees it, with its trees.\<close>

definition disc_unref :: "pppoe_world \<Rightarrow> pppoe_world" where
  "disc_unref w =
     (case o_disc_net w of
        None \<Rightarrow> o_crash w
      | Some d \<Rightarrow>
          if dn_refs d - 1 = 0 then w\<lparr>o_disc_net := None, o_disc := []\<rparr>
          else w\<lparr>o_disc_net := Some (d\<lparr>dn_refs := dn_refs d - 1\<rparr>)\<rparr>)"

text \<open>\<^verbatim>\<open>pppoe_disc_stop\<close>; erasing a server that is in no tree is a crash.\<close>

definition pppoe_disc_stop :: "nat \<Rightarrow> pppoe_world \<Rightarrow> pppoe_world" where
  "pppoe_disc_stop k w =
     (if list_ex (\<lambda>d. snd d = k) (o_disc w) then disc_unref (w\<lparr>o_disc := filter (\<lambda>d. snd d \<noteq> k) (o_disc w)\<rparr>) else o_crash w)"

definition forward :: "int \<Rightarrow> bytes \<Rightarrow> pppoe_world \<Rightarrow> pppoe_world" where
  "forward ifindex pack w =
     (case map_of (o_disc w) ifindex of
        None \<Rightarrow> w
      | Some k \<Rightarrow>
          (case get_serv w k of
             None \<Rightarrow> o_crash w
           | Some sv \<Rightarrow>
               if sv_freed sv then o_crash w
               else if h_dest pack = bc_addr \<or> h_dest pack = sv_hwaddr sv then call_serv k (Do_read pack) w
               else w))"

text \<open>One turn of the loop of \<^verbatim>\<open>disc_read\<close> with a frame that \<^verbatim>\<open>recvfrom\<close> returned, cut to the size of the buffer.\<close>

definition disc_read :: "int \<Rightarrow> bytes \<Rightarrow> pppoe_world \<Rightarrow> pppoe_world" where
  "disc_read ifindex frame w =
     (let pack = take ETHER_MAX_LEN frame
      in if length pack < ETH_HLEN + PPPOE_HLEN then w
         else if mac_filter_check (o_mac w) (h_source pack) then upd_stat (\<lambda>s. s\<lparr>ps_filtered := ps_filtered s + 1\<rparr>) w
         else if h_source pack = bc_addr then w
         else if h_source pack ! 0 AND 1 \<noteq> 0 then w
         else if length pack < ETH_HLEN + PPPOE_HLEN + pppoe_length pack then w
         else if pppoe_ver pack \<noteq> 1 then w
         else if pppoe_type pack \<noteq> 1 then w
         else forward ifindex pack w)"

definition notify_down :: "int \<Rightarrow> pppoe_world \<Rightarrow> pppoe_world" where
  "notify_down ifindex w = (case map_of (o_disc w) ifindex of None \<Rightarrow> w | Some k \<Rightarrow> call_serv k Do_server_stop w)"

text \<open>The handler of the socket is closed, either for an error that \<^verbatim>\<open>recvfrom\<close> reports or with its context.\<close>

definition disc_shut :: "pppoe_world \<Rightarrow> pppoe_world" where
  "disc_shut w = w\<lparr>o_disc_net := map_option (\<lambda>d. d\<lparr>dn_open := False\<rparr>) (o_disc_net w)\<rparr>"

definition disc_stop :: "pppoe_world \<Rightarrow> pppoe_world" where
  "disc_stop w = (let w = disc_shut w in disc_unref (fold (\<lambda>d. call_serv (snd d) Do_server_stop) (o_disc w) w))"

definition disc_close :: "pppoe_world \<Rightarrow> pppoe_world" where
  "disc_close w = disc_shut w"

section \<open>The end of a server\<close>

text \<open>
  \<^verbatim>\<open>pppoe_server_free\<close>: the delayed packets are freed one by one. The list of PADI packets and their share in the total are
  left alone.
\<close>

definition pppoe_server_free :: "nat \<Rightarrow> pppoe_world \<Rightarrow> pppoe_world" where
  "pppoe_server_free k w =
     (case get_serv w k of
        None \<Rightarrow> o_crash w
      | Some sv \<Rightarrow>
          if sv_freed sv then o_crash w
          else
            upd_serv k (\<lambda>s. s\<lparr>sv_freed := True, sv_pados := [], sv_timer := False, sv_calls := []\<rparr>)
              (upd_stat (\<lambda>s. s\<lparr>ps_delayed_PADO := ps_delayed_PADO s - int (length (sv_pados sv))\<rparr>) w))"

definition server_stop :: "nat \<Rightarrow> pppoe_world \<Rightarrow> pppoe_world" where
  "server_stop k w =
     (case get_serv w k of
        None \<Rightarrow> o_crash w
      | Some sv \<Rightarrow>
          if sv_freed sv then o_crash w
          else if sv_stopping sv then w
          else
            let w = pppoe_disc_stop k (upd_serv k (\<lambda>s. s\<lparr>sv_stopping := True\<rparr>) w)
            in if sv_conn_cnt sv = 0 then pppoe_server_free k w
               else fold (\<lambda>cn. call_conn k (cn_id cn) Do_conn_stop) (sv_conns sv) w)"

definition pppoe_serv_close :: "nat \<Rightarrow> pppoe_world \<Rightarrow> pppoe_world" where
  "pppoe_serv_close k w =
     (case get_serv w k of
        None \<Rightarrow> o_crash w
      | Some sv \<Rightarrow>
          if sv_freed sv then o_crash w
          else if sv_stopping sv then w
          else
            let w = pppoe_disc_stop k (upd_serv k (\<lambda>s. s\<lparr>sv_stopping := True\<rparr>) w)
            in if sv_conn_cnt sv = 0 then pppoe_server_free k w else w)"

definition pppoe_serv_start_timer :: "pppoe_env \<Rightarrow> nat \<Rightarrow> pppoe_world \<Rightarrow> pppoe_world" where
  "pppoe_serv_start_timer e k w =
     (case get_serv w k of
        None \<Rightarrow> o_crash w
      | Some sv \<Rightarrow>
          if sv_freed sv then o_crash w
          else if sv_conn_cnt sv \<noteq> 0 then w
          else if oc_vlan_timeout (oe_conf e) \<noteq> 0 then upd_serv k (\<lambda>s. s\<lparr>sv_timer := True\<rparr>) w
          else pppoe_server_free k (pppoe_disc_stop k w))"

definition pppoe_serv_timeout :: "nat \<Rightarrow> pppoe_world \<Rightarrow> pppoe_world" where
  "pppoe_serv_timeout k w =
     (case get_serv w k of
        None \<Rightarrow> o_crash w
      | Some sv \<Rightarrow>
          if sv_freed sv then o_crash w
          else if sv_conn_cnt sv \<noteq> 0 then w
          else pppoe_server_free k (pppoe_disc_stop k w))"

definition pado_timer :: "pppoe_env \<Rightarrow> nat \<Rightarrow> nat \<Rightarrow> pppoe_world \<Rightarrow> pppoe_world" where
  \<comment> \<open>the timer of the delayed packet at position \<open>i\<close>\<close>
  "pado_timer e k i w =
     (case get_serv w k of
        None \<Rightarrow> o_crash w
      | Some sv \<Rightarrow>
          if sv_freed sv \<or> i \<ge> length (sv_pados sv) then o_crash w
          else
            let p = sv_pados sv ! i;
                w = (if oe_shutdown e then w
                     else pppoe_send_PADO e sv (dl_addr p) (dl_host_uniq p) (dl_relay_sid p) (dl_service_name p) (dl_max_payload p) w)
            in upd_stat (\<lambda>s. s\<lparr>ps_delayed_PADO := ps_delayed_PADO s - 1\<rparr>)
                 (upd_serv k (\<lambda>s. s\<lparr>sv_pados := take i (sv_pados s) @ drop (Suc i) (sv_pados s)\<rparr>) w))"

section \<open>The start of a server\<close>

lemma strtol10_rest: "length (snd (strtol10 s)) \<le> length s"
proof -
  have d: "length (drop n u) \<le> length s" if "length u \<le> length s" for n and u :: string
    using that by simp
  have "length (dropWhile isspace s) \<le> length s" by (rule length_dropWhile_le)
  then show ?thesis
    by (auto simp: strtol10_def Let_def intro!: d split: list.splits)
qed

text \<open>
  \<^verbatim>\<open>parse_server\<close>. Behind \<^verbatim>\<open>net=\<close> the pointer is not advanced, so the loop ends there; the name starts with the first character whatever
  it is, so an empty name is read beyond the end of the string. \<open>Reject\<close> is the result -1.
\<close>

function parse_server :: "(string \<Rightarrow> nat option) \<Rightarrow> string \<Rightarrow> int \<times> nat \<Rightarrow> (int \<times> nat) parse" where
  "parse_server net_find opt (padi_limit, net) =
     (if opt = [] \<or> hd opt \<noteq> CHR '','' then Ok (padi_limit, net)
      else
        let opt = tl opt
        in if strchr opt (CHR ''='') = None then Reject
           else if take 11 opt = ''padi-limit='' then
             let r = strtol10 (drop 11 opt)
             in if snd r \<noteq> [] \<and> hd (snd r) \<noteq> CHR '','' then Reject else parse_server net_find (snd r) (to_int (fst r), net)
           else if take 4 opt = ''net='' then
             case drop 4 opt of
               [] \<Rightarrow> Fault
             | d # r \<Rightarrow>
                 let name = d # takeWhile (\<lambda>x. x \<noteq> CHR '','') r
                 in if length name \<ge> 64 then Reject
                    else (case net_find name of None \<Rightarrow> Reject | Some n \<Rightarrow> Ok (padi_limit, n))
           else Reject)"
  by pat_completeness auto
termination
proof (relation "measure (\<lambda>(f, opt, a). length opt)", goal_cases)
  case (2 net_find opt padi_limit net opt' r)
  then show ?case using strtol10_rest [of "drop 11 opt'"] by (cases opt) auto
qed simp

declare parse_server.simps [simp del]

text \<open>\<^verbatim>\<open>__pppoe_server_start\<close>; \<open>vid\<close> says whether the interface is a VLAN of a monitored one.\<close>

definition new_serv :: "pppoe_env \<Rightarrow> nat \<Rightarrow> string \<Rightarrow> ifinfo \<Rightarrow> int \<Rightarrow> nat \<Rightarrow> bool \<Rightarrow> pppoe_serv" where
  "new_serv e k ifname i padi_limit net vlan_mon =
     \<lparr>sv_id = k, sv_net = net, sv_hwaddr = if_hwaddr i, sv_ifname = ifname, sv_ifindex = if_index i, sv_mtu = if_mtu i,
      sv_timer = (vlan_mon \<and> oc_vlan_timeout (oe_conf e) \<noteq> 0), sv_secret = oe_secret e, sv_des_ks = oe_des_key e, sv_conns = [],
      sv_conn_cnt = 0, sv_pados = [], sv_padis = [], sv_padi_cnt = 0, sv_padi_limit = padi_limit, sv_stopping = False,
      sv_vlan_mon = vlan_mon, sv_calls = [], sv_freed = False\<rparr>"

definition server_start :: "pppoe_env \<Rightarrow> string \<Rightarrow> string \<Rightarrow> bool \<Rightarrow> bool \<Rightarrow> pppoe_world \<Rightarrow> pppoe_world" where
  "server_start e ifname opt vid vlan_mon w =
     (case parse_server (oe_net_find e) opt (oc_padi_limit (oe_conf e), 0) of
        Fault \<Rightarrow> o_crash w
      | Reject \<Rightarrow> w
      | Ok (padi_limit, net) \<Rightarrow>
          if list_ex (\<lambda>s. \<not> sv_freed s \<and> sv_net s = net \<and> sv_ifname s = ifname) (o_servs w) then w
          else if vid \<and> \<not> vlan_mon \<and> oe_vlan_busy e then w
          else
            case oe_if e ifname of
              None \<Rightarrow> w
            | Some i \<Rightarrow>
                if if_hwaddr i ! 0 AND 1 \<noteq> 0 then w
                else
                  case pppoe_disc_start e net (if_index i) (o_next w) w of
                    None \<Rightarrow> w
                  | Some w \<Rightarrow> w\<lparr>o_servs := o_servs w @ [new_serv e (o_next w) ifname i padi_limit net vlan_mon], o_next := o_next w + 1\<rparr>)"

text \<open>
  \<^verbatim>\<open>pppoe_server_start\<close> on a value of the option \<^verbatim>\<open>interface\<close>. The name before a comma is copied into a buffer of \<^verbatim>\<open>IFNAMSIZ\<close> bytes. A pattern
  starts a server on every interface that matches it.
\<close>

definition pppoe_server_start :: "pppoe_env \<Rightarrow> string \<Rightarrow> pppoe_world \<Rightarrow> pppoe_world" where
  "pppoe_server_start e opt w =
     (let name = before_chr opt (CHR '',''); rest = drop (length name) opt
      in if length opt > 3 \<and> take 3 opt = ''re:'' then
           (case oe_links e (drop 3 name) of
              None \<Rightarrow> w
            | Some ls \<Rightarrow> fold (\<lambda>l. server_start e (fst l) rest (snd l) False) ls w)
         else if rest \<noteq> [] then
           if length name \<ge> 16 then o_crash w else server_start e name rest False False w
         else server_start e opt opt False False w)"

text \<open>The VLAN monitor takes over the server on an interface: \<^verbatim>\<open>set_vlan_timeout\<close> when it did not have it yet.\<close>

definition set_vlan_timeout :: "pppoe_env \<Rightarrow> pppoe_serv \<Rightarrow> pppoe_serv" where
  "set_vlan_timeout e s = (if oc_vlan_timeout (oe_conf e) \<noteq> 0 \<and> sv_conn_cnt s = 0 then s\<lparr>sv_timer := True\<rparr> else s)"

definition vlan_mon_takes :: "pppoe_env \<Rightarrow> nat \<Rightarrow> pppoe_world \<Rightarrow> pppoe_world" where
  "vlan_mon_takes e k =
     upd_serv k (\<lambda>s. if sv_freed s \<or> sv_vlan_mon s then s else set_vlan_timeout e (s\<lparr>sv_vlan_mon := True\<rparr>))"

definition pppoe_server_stop :: "string \<Rightarrow> pppoe_world \<Rightarrow> pppoe_world" where
  "pppoe_server_stop ifname w =
     (case find (\<lambda>s. \<not> sv_freed s \<and> sv_ifname s = ifname) (o_servs w) of
        None \<Rightarrow> w
      | Some sv \<Rightarrow> call_serv (sv_id sv) Do_server_stop w)"

section \<open>Histories\<close>

text \<open>The contexts take their next call.\<close>

definition serv_run :: "pppoe_env \<Rightarrow> nat \<Rightarrow> pppoe_world \<Rightarrow> pppoe_world" where
  "serv_run e k w =
     (case get_serv w k of
        None \<Rightarrow> w
      | Some sv \<Rightarrow>
          (case sv_calls sv of
             [] \<Rightarrow> w
           | f # fs \<Rightarrow>
               let w = upd_serv k (\<lambda>s. s\<lparr>sv_calls := fs\<rparr>) w
               in case f of
                    Do_read pack \<Rightarrow> pppoe_serv_read e (sv\<lparr>sv_calls := fs\<rparr>) pack w
                  | Do_server_free \<Rightarrow> pppoe_server_free k w
                  | Do_start_timer \<Rightarrow> pppoe_serv_start_timer e k w
                  | Do_server_stop \<Rightarrow> server_stop k w))"

definition conn_run :: "pppoe_env \<Rightarrow> nat \<Rightarrow> nat \<Rightarrow> pppoe_world \<Rightarrow> pppoe_world" where
  "conn_run e k c w =
     (case get_serv w k of
        None \<Rightarrow> w
      | Some sv \<Rightarrow>
          (case get_conn sv c of
             None \<Rightarrow> w
           | Some cn \<Rightarrow>
               (case cn_calls cn of
                  [] \<Rightarrow> w
                | f # fs \<Rightarrow>
                    let w = upd_cn k c (\<lambda>cn. cn\<lparr>cn_calls := fs\<rparr>) w
                    in case f of
                         Do_connect \<Rightarrow> connect_channel e k c w
                       | Do_disconnect \<Rightarrow> disconnect e k c w
                       | Do_conn_stop \<Rightarrow> conn_stop c w)))"

definition pppoe_init :: pppoe_world where
  "pppoe_init = \<lparr>o_servs = [], o_disc_net = None, o_disc = [], o_sid_map = sid_map_init, o_sid_idx = 0,
     o_stat = \<lparr>ps_starting = 0, ps_active = 0, ps_delayed_PADO = 0, ps_PADI_recv = 0, ps_PADI_drop = 0, ps_PADO_sent = 0,
               ps_PADR_recv = 0, ps_PADR_dup_recv = 0, ps_PADS_sent = 0, ps_filtered = 0\<rparr>,
     o_total_padi = 0, o_dpado = \<lparr>dp_ranges = [], dp_next = None, dp_prev = None, dp_delay = 0\<rparr>, o_mac = mac_filter_init (\<lambda>f. None) None,
     o_limits = [], o_next = 0, o_sent = [], o_events = [], o_admitted = [], o_released = [], o_crashed = False\<rparr>"

text \<open>
  The steps of the daemon: servers are started and stopped, for the configuration or for a VLAN, frames arrive, the contexts take their calls, sessions get a user name and
  end, timers run out, contexts are closed, and the options of the delay and the filter change.
\<close>

datatype pppoe_event =
    Server_start string | Vlan_start string string | Vlan_mon nat | Server_stop string | Frame int bytes | Net_down int | Disc_stop | Disc_close
  | Serv_run nat | Conn_run nat nat | Username nat nat | Session_end nat nat | Conn_close nat nat | Serv_close nat | Serv_timer nat
  | Pado_timer nat nat | Set_delay string | Mac_init "string option" | Mac_cmd "string list"

definition live :: "nat \<Rightarrow> nat \<Rightarrow> pppoe_world \<Rightarrow> bool" where
  "live k c w \<longleftrightarrow> (case get_serv w k of None \<Rightarrow> False | Some sv \<Rightarrow> get_conn sv c \<noteq> None)"

definition disc_up :: "pppoe_world \<Rightarrow> bool" where
  "disc_up w \<longleftrightarrow> (case o_disc_net w of None \<Rightarrow> False | Some d \<Rightarrow> dn_open d)"

definition up_serv :: "nat \<Rightarrow> pppoe_world \<Rightarrow> bool" where
  "up_serv k w \<longleftrightarrow> (case get_serv w k of None \<Rightarrow> False | Some sv \<Rightarrow> \<not> sv_freed sv)"

fun pppoe_exec :: "pppoe_env \<Rightarrow> pppoe_event \<Rightarrow> pppoe_world \<Rightarrow> pppoe_world" where
  "pppoe_exec e (Server_start opt) w = pppoe_server_start e opt w"
| "pppoe_exec e (Vlan_start ifname opt) w = server_start e ifname opt True True w"
| "pppoe_exec e (Vlan_mon k) w = vlan_mon_takes e k w"
| "pppoe_exec e (Server_stop ifname) w = pppoe_server_stop ifname w"
| "pppoe_exec e (Frame ifindex frame) w = (if disc_up w then disc_read ifindex frame w else w)"
| "pppoe_exec e (Net_down ifindex) w = (if disc_up w then notify_down ifindex w else w)"
| "pppoe_exec e Disc_stop w = (if disc_up w then disc_stop w else w)"
| "pppoe_exec e Disc_close w = (if disc_up w then disc_close w else w)"
| "pppoe_exec e (Serv_run k) w = serv_run e k w"
| "pppoe_exec e (Conn_run k c) w = conn_run e k c w"
| "pppoe_exec e (Username k c) w = upd_cn k c (\<lambda>cn. cn\<lparr>cn_username := True\<rparr>) w"
| "pppoe_exec e (Session_end k c) w = (if live k c w then ppp_finished k c w else w)"
| "pppoe_exec e (Conn_close k c) w = (if live k c w then pppoe_conn_close e k c w else w)"
| "pppoe_exec e (Serv_close k) w = (if up_serv k w then pppoe_serv_close k w else w)"
| "pppoe_exec e (Serv_timer k) w =
     (case get_serv w k of None \<Rightarrow> w | Some sv \<Rightarrow> if sv_timer sv then pppoe_serv_timeout k w else w)"
| "pppoe_exec e (Pado_timer k i) w =
     (case get_serv w k of None \<Rightarrow> w | Some sv \<Rightarrow> if i < length (sv_pados sv) then pado_timer e k i w else w)"
| "pppoe_exec e (Set_delay str) w =
     (case dpado_parse (nat (ps_active (o_stat w))) str of None \<Rightarrow> w | Some dp \<Rightarrow> w\<lparr>o_dpado := dp\<rparr>)"
| "pppoe_exec e (Mac_init opt) w = w\<lparr>o_mac := mac_filter_init (oe_fopen e) opt\<rparr>"
| "pppoe_exec e (Mac_cmd ws) w = w\<lparr>o_mac := mac_filter_cmd (oe_fopen e) ws (o_mac w)\<rparr>"

inductive pppoe_reach :: "pppoe_crypto \<Rightarrow> (nat \<Rightarrow> u32) \<Rightarrow> pppoe_world \<Rightarrow> bool" for cr undef where
  reach_init: "pppoe_reach cr undef pppoe_init"
| reach_step: "pppoe_reach cr undef w \<Longrightarrow> oe_cr e = cr \<Longrightarrow> oe_shl e = undef \<Longrightarrow> pppoe_reach cr undef (pppoe_exec e ev w)"

end
