(* ===== verification/PppoeSids.thy ===== *)
theory PppoeSids
  imports PppoeServ
begin

text \<open>
  The map of session numbers: what the search of \<^verbatim>\<open>allocate_channel\<close> finds, and what the release in \<^verbatim>\<open>disconnect\<close> does to the map.
\<close>

definition sid_map_ok :: "u64 list \<Rightarrow> nat \<Rightarrow> bool" where
  "sid_map_ok m idx \<longleftrightarrow> length m = 1024 \<and> idx < 1024"

lemma word_free: "i < length m \<Longrightarrow> b < 64 \<Longrightarrow> bm_test m (i * 64 + b) \<longleftrightarrow> bit (m ! i) b"
  by (simp add: bm_test_bit)

lemma sid_loop_idx: "idx < 1024 \<Longrightarrow> snd (snd (sid_loop n m idx)) < 1024"
  by (induction n arbitrary: idx) (auto simp: Let_def)

text \<open>A number that is found was free and is so no longer; otherwise the map stays as it is.\<close>

lemma sid_loop_found:
  assumes "length m = 1024" "idx < 1024" "\<not> bm_test m 0"
  shows "case sid_loop n m idx of (sid, m', idx') \<Rightarrow>
           if sid = 0 then m' = m else bm_test m (unat sid) \<and> m' = bm_clear m (unat sid)"
  using assms
proof (induction n arbitrary: idx)
  case (Suc n)
  show ?case
  proof (cases "m ! idx = 0")
    case True
    then show ?thesis
      using Suc by (auto simp: Let_def)
  next
    case False
    let ?b = "ctzl (m ! idx)"
    have b: "bit (m ! idx) ?b" "?b < 64" using ctzl_bit [OF False] by auto
    have "idx * 64 + ?b < 2 ^ 16" using b(2) Suc.prems(2) by simp
    then have u: "unat (of_nat (idx * 64 + ?b) :: u16) = idx * 64 + ?b"
      by (intro unat_of_nat_eq) simp
    have t: "bm_test m (idx * 64 + ?b)" using b Suc.prems by (simp add: word_free)
    then have "idx * 64 + ?b \<noteq> 0" using Suc.prems(3) by metis
    then have "(of_nat (idx * 64 + ?b) :: u16) \<noteq> 0" using u by (metis unat_0)
    moreover have "(idx * 64 + ?b) div 64 = idx" "(idx * 64 + ?b) mod 64 = ?b" using b(2) by simp_all
    ultimately show ?thesis
      using False t u by (simp add: Let_def bm_clear_def del: of_nat_add of_nat_mult)
  qed
qed simp

text \<open>The search over all words finds a number when one is free.\<close>

lemma sid_loop_none:
  assumes "length m = 1024" "idx < 1024" "\<not> bm_test m 0" "fst (sid_loop n m idx) = 0" "j < n" "n \<le> 1024"
  shows "m ! ((idx + j) mod 1024) = 0"
  using assms(2,4,5,6)
proof (induction n arbitrary: idx j)
  case (Suc n)
  let ?i = "if idx + 1 = 1024 then 0 else idx + 1"
  have z: "m ! idx = 0"
  proof (rule ccontr)
    assume "m ! idx \<noteq> 0"
    then have z: "(of_nat (idx * 64 + ctzl (m ! idx)) :: u16) = 0" using Suc.prems by (simp add: Let_def)
    have b: "bit (m ! idx) (ctzl (m ! idx))" "ctzl (m ! idx) < 64" using ctzl_bit \<open>m ! idx \<noteq> 0\<close> by auto
    have "unat (of_nat (idx * 64 + ctzl (m ! idx)) :: u16) = idx * 64 + ctzl (m ! idx)"
      using Suc.prems(1) b(2) by (intro unat_of_nat_eq) simp
    then have "idx * 64 + ctzl (m ! idx) = 0" unfolding z by (simp only: unat_0)
    then show False using assms(1,3) b(1) Suc.prems(1) by (auto simp: bm_test_bit)
  qed
  show ?case
  proof (cases j)
    case 0
    then show ?thesis using z Suc.prems(1) by simp
  next
    case (Suc j')
    have "fst (sid_loop n m ?i) = 0" using Suc.prems(2) z by (simp add: Let_def)
    then have "m ! ((?i + j') mod 1024) = 0" using Suc.prems Suc by (intro Suc.IH) auto
    moreover have "(?i + j') mod 1024 = (idx + j) mod 1024" using Suc by auto
    ultimately show ?thesis by simp
  qed
qed simp

lemma sid_loop_complete:
  assumes "length m = 1024" "idx < 1024" "\<not> bm_test m 0" "bm_test m s" "s < 65536"
  shows "fst (sid_loop 1024 m idx) \<noteq> 0"
proof
  assume z: "fst (sid_loop 1024 m idx) = 0"
  have s: "s div 64 < 1024" using assms(5) by simp
  define j where "j = (s div 64 + 1024 - idx) mod 1024"
  have "(idx + j) mod 1024 = s div 64"
    using s assms(2) unfolding j_def by (simp add: mod_simps)
  moreover have "m ! ((idx + j) mod 1024) = 0"
    using sid_loop_none [OF assms(1-3) z] by (simp add: j_def)
  ultimately show False using assms(4) by (simp add: bm_test_bit)
qed

section \<open>Release\<close>

text \<open>A number that is below 31 modulo 64 is given back as it should be.\<close>

lemma sid_release_low:
  assumes "unat sid mod 64 < 31"
  shows "sid_release undef sid m = bm_set m (unat sid)"
proof -
  have "scast (push_bit n 1 :: u32) = (push_bit n 1 :: u64)" if "n < 31" for n
    using that by (intro bit_word_eqI) (auto simp: bit_simps)
  then show ?thesis
    using assms by (simp add: sid_release_def bm_set_def int_shl_def Let_def)
qed

text \<open>The number 31 modulo 64 takes the sign bit: all numbers from it to the end of the word are marked as free.\<close>

lemma sid_release_31:
  assumes "unat sid mod 64 = 31" "length m = 1024" "j < 65536"
  shows "bm_test (sid_release undef sid m) j \<longleftrightarrow> j div 64 = unat sid div 64 \<and> 31 \<le> j mod 64 \<or> bm_test m j"
proof -
  have b: "bit (scast (push_bit 31 1 :: u32) :: u64) n \<longleftrightarrow> 31 \<le> n \<and> n < 64" for n
    unfolding bit_signed_iff bit_push_bit_iff by (auto simp: min_def)
  have "unat sid div 64 < 1024" using unat_bound [of sid] by simp
  then show ?thesis
    using assms b [of "j mod 64"] by (cases "j div 64 = unat sid div 64") (auto simp: bm_test_bit sid_release_def int_shl_def Let_def bit_or_iff)
qed

lemma length_sid_release [simp]: "length (sid_release undef sid m) = length m"
  by (simp add: sid_release_def Let_def)

lemma sid_map_init_free: "s < 65536 \<Longrightarrow> bm_test sid_map_init s \<longleftrightarrow> s \<noteq> 0 \<and> s \<noteq> 65535"
proof -
  have w: "bit (0xFFFFFFFFFFFFFFFE :: u64) n \<longleftrightarrow> n \<noteq> 0 \<and> n < 64" "bit (0x7FFFFFFFFFFFFFFF :: u64) n \<longleftrightarrow> n < 63" for n
  proof -
    have "(0xFFFFFFFFFFFFFFFE :: u64) = NOT 1" "(0x7FFFFFFFFFFFFFFF :: u64) = mask 63"
      by (simp_all add: mask_eq_exp_minus_1)
    then show "bit (0xFFFFFFFFFFFFFFFE :: u64) n \<longleftrightarrow> n \<noteq> 0 \<and> n < 64" "bit (0x7FFFFFFFFFFFFFFF :: u64) n \<longleftrightarrow> n < 63"
      by (simp_all only: bit_not_iff bit_mask_iff bit_1_iff) auto
  qed
  assume s: "s < 65536"
  then have d: "s div 64 < 1024" "s mod 64 < 64" "s = s div 64 * 64 + s mod 64" by simp_all
  consider "s div 64 = 0" | "s div 64 = 1023" | "s div 64 \<noteq> 0" "s div 64 \<noteq> 1023" by blast
  then show ?thesis
  proof cases
    case 1
    then show ?thesis using d w(1) [of s] by (auto simp: bm_test_bit sid_map_init_def)
  next
    case 2
    then have "s \<noteq> 65535 \<longleftrightarrow> s mod 64 < 63" "s \<noteq> 0" using d by linarith+
    then show ?thesis using 2 w(2) [of "s mod 64"] by (auto simp: bm_test_bit sid_map_init_def)
  next
    case 3
    then show ?thesis using d by (auto simp: bm_test_bit sid_map_init_def)
  qed
qed

end
