(* ===== verification/PppoePacketCorrect.thy ===== *)
theory PppoePacketCorrect
  imports PppoePacket
begin

text \<open>
  The loop over the tags never reads behind a frame that passed the demultiplexer, finds the tags that the server's own packets carry,
  and a cookie that was generated for a client is accepted until it expires.
\<close>

section \<open>Reading tags\<close>

lemma for_tags_safe: "20 + len \<le> length pack \<Longrightarrow> for_tags step pack len n a \<noteq> Fault"
proof (induction step pack len n a rule: for_tags.induct)
  case (1 step pack len n a)
  show ?case
    using 1 by (subst for_tags.simps) (auto simp: Let_def intro!: bind_parse_no_fault)
qed

text \<open>An invariant of the steps is one of the loop.\<close>

lemma for_tags_keeps:
  "for_tags step pack len n a = Ok b \<Longrightarrow> (\<And>t a. P a \<Longrightarrow> P (step t a)) \<Longrightarrow> P a \<Longrightarrow> P b"
proof (induction step pack len n a rule: for_tags.induct)
  case (1 step pack len n a)
  show ?case
  proof (cases "n < len")
    case True
    with 1(2) obtain th data where h: "\<not> n + 4 > len" "read_bytes pack (14 + 6 + n) 4 = Ok th"
      "\<not> n + 4 + unat (u_read_be16 (drop 2 th)) > len" "read_bytes pack (14 + 6 + n + 4) (unat (u_read_be16 (drop 2 th))) = Ok data"
      and r: "(if u_read_be16 th = 0 then Ok a
         else for_tags step pack len (n + 4 + unat (u_read_be16 (drop 2 th))) (step \<lparr>tag_type = u_read_be16 th, tag_data = data\<rparr> a)) = Ok b"
      by (subst (asm) for_tags.simps) (auto simp: Let_def bind_parse_Ok_iff split: if_splits)
    show ?thesis
      using r 1(3,4) 1(1) [OF True h(1,2) refl h(3,4) _ _ 1(3)] by (auto split: if_splits)
  next
    case False
    then show ?thesis using 1(2,4) by (subst (asm) for_tags.simps) simp
  qed
qed

definition tags_fit :: "pppoe_tag list \<Rightarrow> bool" where
  "tags_fit ts \<longleftrightarrow> list_all (\<lambda>t. tag_len t < 2 ^ 16 \<and> tag_type t \<noteq> TAG_END_OF_LIST) ts"

abbreviation tags_bytes :: "pppoe_tag list \<Rightarrow> bytes" where
  "tags_bytes ts \<equiv> concat (map tag_bytes ts)"

lemma length_tag_bytes [simp]: "length (tag_bytes t) = 4 + tag_len t"
  by (simp add: tag_bytes_def tag_len_def)

lemma for_tags_done [simp]: "for_tags step pack len len a = Ok a"
  by (subst for_tags.simps) simp

lemma for_tags_step:
  assumes "drop (20 + n) pack = tag_bytes t @ rest" "n + 4 + tag_len t \<le> len" "tag_len t < 2 ^ 16" "tag_type t \<noteq> TAG_END_OF_LIST"
  shows "for_tags step pack len n a = for_tags step pack len (n + 4 + tag_len t) (step t a)"
proof -
  let ?th = "u_write_be16 (tag_type t) @ u_write_be16 (of_nat (tag_len t))"
  have l: "length pack = 20 + n + (4 + tag_len t + length rest)" if "20 + n \<le> length pack"
    using arg_cong [OF assms(1), of length] that by simp
  have p: "20 + n \<le> length pack"
    using arg_cong [OF assms(1), of length] by (cases "20 + n \<le> length pack") auto
  have r1: "read_bytes pack (20 + n) 4 = Ok ?th"
    using assms(1) p l by (simp add: tag_bytes_def add.assoc)
  have "drop (24 + n) pack = drop 4 (drop (20 + n) pack)"
    by (simp add: add.commute)
  then have d: "drop (24 + n) pack = tag_data t @ rest"
    unfolding assms(1) by (simp add: tag_bytes_def)
  have r2: "read_bytes pack (24 + n) (tag_len t) = Ok (tag_data t)"
    using p l d by (simp add: tag_len_def)
  have u: "unat (u_read_be16 (drop 2 ?th)) = tag_len t" "u_read_be16 ?th = tag_type t"
    using assms(3) u_read_write_be16 [of "of_nat (tag_len t)" "[]"] by (simp_all add: unat_of_nat_eq)
  have eta: "\<lparr>tag_type = tag_type t, tag_data = tag_data t\<rparr> = t"
    by (cases t) simp
  show ?thesis
    using assms(2,4) u by (subst for_tags.simps) (simp add: r1 r2 Let_def eta)
qed

lemma for_tags_fold:
  assumes "tags_fit ts" "drop (20 + n) pack = tags_bytes ts @ rest" "n + length (tags_bytes ts) \<le> len"
  shows "for_tags step pack len n a = for_tags step pack len (n + length (tags_bytes ts)) (fold step ts a)"
  using assms
proof (induction ts arbitrary: n a)
  case (Cons t ts)
  have t: "for_tags step pack len n a = for_tags step pack len (n + 4 + tag_len t) (step t a)"
    using Cons.prems by (intro for_tags_step [where rest = "tags_bytes ts @ rest"]) (auto simp: tags_fit_def)
  have "drop (20 + (n + 4 + tag_len t)) pack = drop (4 + tag_len t) (drop (20 + n) pack)"
    by (simp add: ac_simps)
  then have d: "drop (20 + (n + 4 + tag_len t)) pack = tags_bytes ts @ rest"
    using Cons.prems(2) by simp
  show ?case
    using Cons.IH [OF _ d, of "step t a"] Cons.prems unfolding t by (simp add: tags_fit_def add.assoc)
qed simp

section \<open>Building packets\<close>

text \<open>The frame carries these tags.\<close>

definition carries :: "pppoe_frame \<Rightarrow> pppoe_tag list \<Rightarrow> bool" where
  "carries f ts \<longleftrightarrow> f_tags f = tags_bytes ts \<and> length (f_tags f) < 1498 \<and> tags_fit ts"

text \<open>The tags of a list that find room behind \<open>n\<close> bytes.\<close>

fun roomy :: "nat \<Rightarrow> pppoe_tag list \<Rightarrow> pppoe_tag list" where
  "roomy n [] = []"
| "roomy n (t # ts) = (if n + 4 + tag_len t < 1498 then t # roomy (n + 4 + tag_len t) ts else roomy n ts)"

lemma setup_header_carries: "carries (setup_header src dst code sid) []"
  by (simp add: carries_def setup_header_def tags_fit_def)

lemma add_tag2_frame [simp]:
  "f_source (add_tag2 t f) = f_source f" "f_dest (add_tag2 t f) = f_dest f" "f_code (add_tag2 t f) = f_code f" "f_sid (add_tag2 t f) = f_sid f"
  by (simp_all add: add_tag2_def)

lemma carries_add_tag2:
  assumes "carries f ts" "tag_type t \<noteq> TAG_END_OF_LIST"
  shows "carries (add_tag2 t f) (ts @ roomy (length (f_tags f)) [t])"
  using assms by (auto simp: carries_def add_tag2_def tags_fit_def)

lemma carries_fold:
  assumes "carries f ts" "list_all (\<lambda>t. tag_type t \<noteq> TAG_END_OF_LIST) us"
  shows "carries (fold add_tag2 us f) (ts @ roomy (length (f_tags f)) us)"
  using assms
proof (induction us arbitrary: f ts)
  case (Cons u us)
  have c: "carries (add_tag2 u f) (ts @ roomy (length (f_tags f)) [u])"
    using Cons.prems by (intro carries_add_tag2) auto
  show ?case
    using Cons.IH [OF c] Cons.prems(2) by (auto simp: add_tag2_def add.assoc)
qed simp

lemma frame_bytes_fields:
  assumes "length (f_dest f) = 6" "length (f_source f) = 6" "length (f_tags f) < 1498"
  shows "length (frame_bytes f) = 20 + length (f_tags f)" "drop 20 (frame_bytes f) = f_tags f"
    "h_source (frame_bytes f) = f_source f" "h_dest (frame_bytes f) = f_dest f" "pppoe_code (frame_bytes f) = f_code f"
    "pppoe_sid (frame_bytes f) = f_sid f" "pppoe_length (frame_bytes f) = length (f_tags f)"
proof -
  show "length (frame_bytes f) = 20 + length (f_tags f)" "drop 20 (frame_bytes f) = f_tags f"
    "h_source (frame_bytes f) = f_source f" "h_dest (frame_bytes f) = f_dest f"
    using assms by (simp_all add: frame_bytes_def h_source_def h_dest_def)
  show "pppoe_code (frame_bytes f) = f_code f"
    using assms by (simp add: frame_bytes_def pppoe_code_def nth_append)
  have "drop 16 (frame_bytes f) = u_write_be16 (f_sid f) @ u_write_be16 (of_nat (length (f_tags f))) @ f_tags f"
    "drop 18 (frame_bytes f) = u_write_be16 (of_nat (length (f_tags f))) @ f_tags f"
    using assms by (simp_all add: frame_bytes_def)
  then show "pppoe_sid (frame_bytes f) = f_sid f" "pppoe_length (frame_bytes f) = length (f_tags f)"
    using assms(3) by (simp_all add: pppoe_sid_def pppoe_length_def unat_of_nat_eq)
qed

text \<open>A receiver that walks the tags of a packet finds those that it carries.\<close>

lemma carries_parsed:
  assumes "carries f ts" "length (f_dest f) = 6" "length (f_source f) = 6"
  shows "for_tags step (frame_bytes f) (pppoe_length (frame_bytes f)) 0 a = Ok (fold step ts a)"
proof -
  note fields = frame_bytes_fields [OF assms(2,3)]
  have "for_tags step (frame_bytes f) (length (f_tags f)) 0 a = for_tags step (frame_bytes f) (length (f_tags f)) (0 + length (tags_bytes ts)) (fold step ts a)"
    using assms(1) fields(2) by (intro for_tags_fold [where rest = "[]"]) (auto simp: carries_def)
  then show ?thesis
    using assms(1) fields(7) by (auto simp: carries_def)
qed

section \<open>The cookie\<close>

definition crypto_ok :: "pppoe_crypto \<Rightarrow> bool" where
  "crypto_ok cr \<longleftrightarrow> (\<forall>x. length (cr_md5 cr x) = 16) \<and>
     (\<forall>k b. length b = 8 \<longrightarrow> length (cr_encrypt cr k b) = 8 \<and> cr_decrypt cr k (cr_encrypt cr k b) = b)"

lemma ecb_decrypt_encrypt:
  assumes "crypto_ok cr" "length raw = 24"
  shows "ecb (cr_decrypt cr k) (ecb (cr_encrypt cr k) raw) = raw" "length (ecb (cr_encrypt cr k) raw) = 24"
proof -
  have l: "length (cr_encrypt cr k b) = 8" "cr_decrypt cr k (cr_encrypt cr k b) = b" if "length b = 8" for b
    using assms(1) that by (simp_all add: crypto_ok_def)
  have "take 8 raw @ take 8 (drop 8 raw) @ drop 16 raw = raw"
    by (metis add_2_eq_Suc' append_take_drop_id drop_drop numeral_Bit0 one_plus_numeral)
  then show "ecb (cr_decrypt cr k) (ecb (cr_encrypt cr k) raw) = raw" "length (ecb (cr_encrypt cr k) raw) = 24"
    using assms(2) l by (simp_all add: ecb_def)
qed

lemma le32_read_write: "le32_read (le32_write v) = v"
  using u_read_write_be32 [of v "[]"] by (simp add: le32_read_def le32_write_def)

lemma check_generated_cookie:
  assumes "crypto_ok cr" "0 \<le> now + timeout" "now + timeout < 2 ^ 32" "now' \<le> now + timeout"
  shows "check_cookie cr now' secret des hw src (generate_cookie cr now timeout secret des hw src hu rs) rs"
    and "length (generate_cookie cr now timeout secret des hw src hu rs) = 24"
proof -
  let ?raw = "cookie_mac cr secret hw src rs @ host_uniq_fold cr secret hu @ le32_write (word_of_int (now + timeout))"
  have m: "length (cookie_mac cr secret hw src rs) = 16"
    using assms(1) by (simp add: cookie_mac_def crypto_ok_def)
  have h: "length (host_uniq_fold cr secret hu) = 4"
    by (simp add: host_uniq_fold_def Let_def split: option.splits)
  have "length ?raw = 24" using m h by (simp add: le32_write_def)
  note ed = ecb_decrypt_encrypt [OF assms(1)]
  have d: "ecb (cr_decrypt cr (cookie_key hw src)) (ecb (cr_decrypt cr des) (generate_cookie cr now timeout secret des hw src hu rs)) = ?raw"
    unfolding generate_cookie_def Let_def using \<open>length ?raw = 24\<close> ed by simp
  have "drop 20 ?raw = le32_write (word_of_int (now + timeout))"
    using m h by simp
  moreover have "uint (word_of_int (now + timeout) :: u32) = now + timeout"
    using assms(2,3) by (simp only: uint_word_of_int) simp
  ultimately have "uint (le32_read (drop 20 ?raw)) = now + timeout"
    by (simp only: le32_read_write)
  then show "check_cookie cr now' secret des hw src (generate_cookie cr now timeout secret des hw src hu rs) rs"
    unfolding check_cookie_def d Let_def using assms(4) m by simp
  show "length (generate_cookie cr now timeout secret des hw src hu rs) = 24"
    unfolding generate_cookie_def Let_def using \<open>length ?raw = 24\<close> ed by simp
qed

section \<open>Access line tags\<close>

lemma tr101_option_safe: "i + len \<le> length data \<Longrightarrow> tr101_option opt data i len \<noteq> Fault"
  by (auto simp: tr101_option_def tr101_str_def split: option.splits)

lemma bind_parse_Fault_iff: "bind_parse r f = Fault \<longleftrightarrow> r = Fault \<or> (\<exists>a. r = Ok a \<and> f a = Fault)"
  by (cases r) auto

lemma tr101_loop_safe: "tr101_loop add access data i pack \<noteq> Fault"
proof (induction "length data - i" arbitrary: i pack rule: less_induct)
  case less
  show ?case
    using less by (subst tr101_loop.simps)
      (cases access; auto simp: Let_def bind_parse_Fault_iff tr101_option_safe split: option.splits)
qed

end
