(* ===== verification/PppoeInv.thy ===== *)
theory PppoeInv
  imports PppoeLife PppoeSids PppoePacketCorrect "HOL-Library.Multiset"
begin

text \<open>
  What holds in every history of the PPPoE server: each connection was admitted by a PADR with a valid cookie, frames that wait for a server
  are complete, and the session numbers of the connections are different as long as no number was released whose bit is above the 30th.
\<close>

section \<open>The part of the state that matters\<close>

type_synonym conn_view = "nat \<times> u16 \<times> bytes \<times> bytes"
type_synonym serv_view = "nat \<times> bytes \<times> bytes \<times> bytes \<times> conn_view list"

definition cview :: "pppoe_conn \<Rightarrow> conn_view" where
  "cview cn = (cn_id cn, cn_sid cn, cn_addr cn, cn_cookie cn)"

definition sview :: "pppoe_serv \<Rightarrow> serv_view" where
  "sview sv = (sv_id sv, sv_hwaddr sv, sv_secret sv, sv_des_ks sv, map cview (sv_conns sv))"

abbreviation v_id :: "conn_view \<Rightarrow> nat" where "v_id v \<equiv> fst v"
abbreviation v_sid :: "conn_view \<Rightarrow> u16" where "v_sid v \<equiv> fst (snd v)"
abbreviation v_conns :: "serv_view \<Rightarrow> conn_view list" where "v_conns v \<equiv> snd (snd (snd (snd v)))"

definition sviews :: "pppoe_world \<Rightarrow> serv_view list" where
  "sviews w = map sview (o_servs w)"

definition cviews :: "serv_view list \<Rightarrow> conn_view list" where
  "cviews vs = concat (map v_conns vs)"

definition queued :: "bytes \<Rightarrow> pppoe_world \<Rightarrow> bool" where
  "queued p w \<longleftrightarrow> (\<exists>sv \<in> set (o_servs w). Do_read p \<in> set (sv_calls sv))"

text \<open>A step that leaves that part alone.\<close>

definition same :: "pppoe_world \<Rightarrow> pppoe_world \<Rightarrow> bool" where
  "same w0 w \<longleftrightarrow> sviews w = sviews w0 \<and> o_sid_map w = o_sid_map w0 \<and> o_sid_idx w = o_sid_idx w0 \<and> o_admitted w = o_admitted w0 \<and>
     o_next w = o_next w0 \<and> o_released w = o_released w0 \<and> (\<forall>p. queued p w \<longrightarrow> queued p w0)"

named_theorems same_intros

lemma same_refl [same_intros]: "same w w"
  by (simp add: same_def)

lemma same_trans: "same a b \<Longrightarrow> same b c \<Longrightarrow> same a c"
  by (simp add: same_def)

lemma same_fields [same_intros]:
  "same w0 w \<Longrightarrow> same w0 (o_crash w)" "same w0 w \<Longrightarrow> same w0 (upd_stat f w)" "same w0 w \<Longrightarrow> same w0 (log_ctrl c ev w)"
  "same w0 w \<Longrightarrow> same w0 (pppoe_send k fr w)" "same w0 w \<Longrightarrow> same w0 (w\<lparr>o_dpado := dp\<rparr>)" "same w0 w \<Longrightarrow> same w0 (w\<lparr>o_limits := ls\<rparr>)"
  "same w0 w \<Longrightarrow> same w0 (w\<lparr>o_total_padi := n\<rparr>)" "same w0 w \<Longrightarrow> same w0 (w\<lparr>o_disc := d\<rparr>)" "same w0 w \<Longrightarrow> same w0 (w\<lparr>o_disc_net := dn\<rparr>)"
  "same w0 w \<Longrightarrow> same w0 (w\<lparr>o_mac := ms\<rparr>)"
  by (simp_all add: same_def sviews_def queued_def o_crash_def upd_stat_def log_ctrl_def pppoe_send_def)

lemma same_upd_serv [same_intros]:
  assumes "same w0 w" "\<And>s. sview (f s) = sview s" "\<And>s p. Do_read p \<in> set (sv_calls (f s)) \<Longrightarrow> Do_read p \<in> set (sv_calls s)"
  shows "same w0 (upd_serv k f w)"
proof -
  have "sviews (upd_serv k f w) = sviews w"
    using assms(2) by (simp add: sviews_def upd_serv_def)
  moreover have "queued p (upd_serv k f w) \<Longrightarrow> queued p w" for p
    using assms(3) by (auto simp: queued_def upd_serv_def split: if_splits)
  ultimately show ?thesis
    using assms(1) by (auto simp: same_def upd_serv_def)
qed

lemma same_upd_cn [same_intros]:
  assumes "same w0 w" "\<And>cn. cview (f cn) = cview cn"
  shows "same w0 (upd_cn k c f w)"
  unfolding upd_cn_def using assms by (intro same_upd_serv) (auto simp: sview_def)

lemma same_if_then [same_intros]: "(b \<Longrightarrow> same w0 w) \<Longrightarrow> (\<not> b \<Longrightarrow> same w0 w') \<Longrightarrow> same w0 (if b then w else w')"
  by simp

lemma same_case_option [same_intros]:
  "(x = None \<Longrightarrow> same w0 w) \<Longrightarrow> (\<And>y. x = Some y \<Longrightarrow> same w0 (g y)) \<Longrightarrow> same w0 (case x of None \<Rightarrow> w | Some y \<Rightarrow> g y)"
  by (cases x) auto

lemma same_parse [same_intros]:
  "(x = Fault \<Longrightarrow> same w0 w) \<Longrightarrow> (x = Reject \<Longrightarrow> same w0 w') \<Longrightarrow> (\<And>y. x = Ok y \<Longrightarrow> same w0 (g y)) \<Longrightarrow>
   same w0 (case x of Fault \<Rightarrow> w | Reject \<Rightarrow> w' | Ok y \<Rightarrow> g y)"
  by (cases x) auto

lemma same_calls [same_intros]:
  "same w0 w \<Longrightarrow> same w0 (call_conn k c f w)"
  "same w0 w \<Longrightarrow> \<not> (\<exists>p. g = Do_read p) \<Longrightarrow> same w0 (call_serv k g w)"
  unfolding call_conn_def call_serv_def by (rule same_upd_cn same_upd_serv; auto simp: cview_def sview_def)+

section \<open>Steps that leave it alone\<close>

lemma same_active [same_intros]:
  "same w0 w \<Longrightarrow> same w0 (active_dec w)" "same w0 w \<Longrightarrow> same w0 (active_inc w)"
  unfolding active_dec_def active_inc_def by (intro same_intros; assumption)+

lemma same_send [same_intros]:
  "same w0 w \<Longrightarrow> same w0 (pppoe_send_PADO e sv a hu rs sn mp w)" "same w0 w \<Longrightarrow> same w0 (pppoe_send_err e sv a hu rs co ty w)"
  "same w0 w \<Longrightarrow> same w0 (pppoe_send_PADS e sv cn w)" "same w0 w \<Longrightarrow> same w0 (pppoe_send_PADT e sv cn w)"
  unfolding pppoe_send_PADO_def pppoe_send_err_def pppoe_send_PADS_def pppoe_send_PADT_def Let_def by (intro same_intros; assumption)+

lemma same_ppp_finished [same_intros]: "same w0 w \<Longrightarrow> same w0 (ppp_finished k c w)"
  unfolding ppp_finished_def by (intro same_intros) (simp_all add: cview_def)

lemma same_check_connlimit: "same w0 w \<Longrightarrow> same w0 (snd (check_connlimit e a w))"
  unfolding check_connlimit_def by (auto intro: same_intros split: option.splits prod.splits)

lemma same_check_padi_limit: "same w0 w \<Longrightarrow> same w0 (snd (check_padi_limit e sv a w))"
  unfolding check_padi_limit_def Let_def
  by (auto intro!: same_intros same_check_connlimit simp: sview_def)

lemma same_padi_answer [same_intros]: "same w0 w \<Longrightarrow> same w0 (padi_answer e sv a v w)"
  unfolding padi_answer_def Let_def by (intro same_intros) (simp_all add: sview_def)

lemma same_PADI [same_intros]:
  assumes "same w0 w"
  shows "same w0 (pppoe_recv_PADI e sv pack w)"
proof -
  have "same w0 (snd (check_padi_limit e sv (h_source pack) (upd_stat (\<lambda>s. s\<lparr>ps_PADI_recv := ps_PADI_recv s + 1\<rparr>) w)))"
    using assms by (intro same_check_padi_limit same_intros)
  then show ?thesis
    unfolding pppoe_recv_PADI_def Let_def using assms by (auto intro!: same_intros split: prod.splits bool.splits)
qed

lemma same_PADT [same_intros]: "same w0 w \<Longrightarrow> same w0 (pppoe_recv_PADT sv pack w)"
  unfolding pppoe_recv_PADT_def by (intro same_intros)

lemma same_disc_stop [same_intros]: "same w0 w \<Longrightarrow> same w0 (pppoe_disc_stop k w)" "same w0 w \<Longrightarrow> same w0 (disc_close w)"
  unfolding pppoe_disc_stop_def disc_unref_def disc_close_def disc_shut_def by (intro same_intros; assumption)+

lemma same_server_free [same_intros]: "same w0 w \<Longrightarrow> same w0 (pppoe_server_free k w)"
  unfolding pppoe_server_free_def by (intro same_intros) (simp_all add: sview_def)

lemma same_fold: "(\<And>x w. same w0 w \<Longrightarrow> same w0 (f x w)) \<Longrightarrow> same w0 w \<Longrightarrow> same w0 (fold f xs w)"
  by (induction xs arbitrary: w) auto

lemma same_stop [same_intros]:
  "same w0 w \<Longrightarrow> same w0 (server_stop k w)" "same w0 w \<Longrightarrow> same w0 (pppoe_serv_close k w)"
  "same w0 w \<Longrightarrow> same w0 (pppoe_serv_start_timer e k w)" "same w0 w \<Longrightarrow> same w0 (pppoe_serv_timeout k w)"
  "same w0 w \<Longrightarrow> same w0 (disc_stop w)" "same w0 w \<Longrightarrow> same w0 (notify_down i w)" "same w0 w \<Longrightarrow> same w0 (pppoe_server_stop n w)"
  "same w0 w \<Longrightarrow> same w0 (pado_timer e k j w)"
  unfolding server_stop_def pppoe_serv_close_def pppoe_serv_start_timer_def pppoe_serv_timeout_def disc_stop_def disc_shut_def disc_unref_def notify_down_def
    pppoe_server_stop_def pado_timer_def Let_def
  by (intro same_intros same_fold; simp add: sview_def)+

section \<open>The invariant\<close>

text \<open>The PADR frame \<open>pack\<close>, received at the time \<open>t\<close> by a server with these keys, proves the right to a session.\<close>

definition admissible :: "pppoe_crypto \<Rightarrow> bytes \<Rightarrow> bytes \<Rightarrow> bytes \<Rightarrow> bytes \<Rightarrow> timespec \<Rightarrow> bytes \<Rightarrow> bytes \<Rightarrow> bool" where
  "admissible cr hw secret des pack t addr cookie \<longleftrightarrow>
     (\<exists>cf v tag. padr_tags cf pack = Ok v \<and> vr_cookie v = Some tag \<and> tag_len tag = 24 \<and> vr_service_count v = 1 \<and>
        check_cookie cr (tv_sec t) secret des hw (h_source pack) (tag_data tag) (vr_relay_sid v) \<and>
        h_source pack = addr \<and> take 20 (tag_data tag) = cookie \<and> h_dest pack \<noteq> bc_addr \<and> pppoe_sid pack = 0)"

lemma admissibleI:
  "padr_tags cf pack = Ok v \<Longrightarrow> vr_cookie v = Some tag \<Longrightarrow> tag_len tag = 24 \<Longrightarrow> vr_service_count v = 1 \<Longrightarrow>
   check_cookie cr (tv_sec t) secret des hw (h_source pack) (tag_data tag) (vr_relay_sid v) \<Longrightarrow> h_dest pack \<noteq> bc_addr \<Longrightarrow>
   pppoe_sid pack = 0 \<Longrightarrow> admissible cr hw secret des pack t (h_source pack) (take 20 (tag_data tag))"
  unfolding admissible_def by blast

definition conns_admitted :: "pppoe_crypto \<Rightarrow> (nat \<times> nat \<times> bytes \<times> timespec) list \<Rightarrow> serv_view \<Rightarrow> bool" where
  "conns_admitted cr adm v =
     (case v of (k, hw, secret, des, cs) \<Rightarrow>
        list_all (\<lambda>(c, sid, addr, cookie). \<exists>pack t. (c, k, pack, t) \<in> set adm \<and> admissible cr hw secret des pack t addr cookie) cs)"

definition sids_ok :: "u64 list \<Rightarrow> conn_view list \<Rightarrow> bool" where
  "sids_ok m cs \<longleftrightarrow> \<not> bm_test m 0 \<and> \<not> bm_test m 65535 \<and> distinct (map v_sid cs) \<and>
     (\<forall>v \<in> set cs. 0 < unat (v_sid v) \<and> unat (v_sid v) < 65535 \<and> \<not> bm_test m (unat (v_sid v)))"

definition released_low :: "u16 list \<Rightarrow> bool" where
  "released_low r \<longleftrightarrow> list_all (\<lambda>s. unat s mod 64 < 31) r"

definition frame_fits :: "bytes \<Rightarrow> bool" where
  "frame_fits pack \<longleftrightarrow> 20 + pppoe_length pack \<le> length pack"

definition pppoe_inv :: "pppoe_crypto \<Rightarrow> pppoe_world \<Rightarrow> bool" where
  "pppoe_inv cr w \<longleftrightarrow>
     distinct (map fst (sviews w)) \<and> (\<forall>v \<in> set (sviews w). fst v < o_next w) \<and>
     distinct (map v_id (cviews (sviews w))) \<and> (\<forall>v \<in> set (cviews (sviews w)). v_id v < o_next w) \<and>
     sid_map_ok (o_sid_map w) (o_sid_idx w) \<and>
     (released_low (o_released w) \<longrightarrow> sids_ok (o_sid_map w) (cviews (sviews w))) \<and>
     (\<forall>v \<in> set (sviews w). conns_admitted cr (o_admitted w) v) \<and>
     (\<forall>p. queued p w \<longrightarrow> frame_fits p)"

lemma inv_same: "pppoe_inv cr w \<Longrightarrow> same w w' \<Longrightarrow> pppoe_inv cr w'"
  by (auto simp: pppoe_inv_def same_def)

lemma inv_init: "pppoe_inv cr pppoe_init"
  using sid_map_init_free [of 0] sid_map_init_free [of 65535]
  by (simp add: pppoe_inv_def pppoe_init_def sviews_def cviews_def queued_def sid_map_ok_def sids_ok_def sid_map_init_def)

section \<open>Updating one server\<close>

lemma get_serv_split:
  assumes "get_serv w k = Some sv" "distinct (map fst (sviews w))"
  obtains xs ys where "o_servs w = xs @ sv # ys" "k \<notin> sv_id ` set xs" "k \<notin> sv_id ` set ys" "sv_id sv = k"
proof -
  have "sv \<in> set (o_servs w)" "sv_id sv = k"
    using assms(1) by (auto simp: get_serv_def find_Some_iff)
  then obtain xs ys where "o_servs w = xs @ sv # ys" by (auto simp: in_set_conv_decomp)
  then show thesis
    using that [of xs ys] assms(2) \<open>sv_id sv = k\<close> by (auto simp: sviews_def sview_def)
qed

lemma upd_serv_split:
  assumes "o_servs w = xs @ sv # ys" "k \<notin> sv_id ` set xs" "k \<notin> sv_id ` set ys" "sv_id sv = k"
  shows "o_servs (upd_serv k f w) = xs @ f sv # ys"
proof -
  have "map (\<lambda>s. if sv_id s = k then f s else s) zs = zs" if "k \<notin> sv_id ` set zs" for zs
    using that by (intro map_idI) auto
  then show ?thesis using assms by (simp add: upd_serv_def)
qed

lemma get_serv_upd:
  assumes "get_serv w k = Some sv" "sv_id (f sv) = k"
  shows "get_serv (upd_serv k f w) k = Some (f sv)"
proof -
  have "find (\<lambda>s. sv_id s = k) zs = Some sv \<Longrightarrow> find (\<lambda>s. sv_id s = k) (map (\<lambda>s. if sv_id s = k then f s else s) zs) = Some (f sv)" for zs
    using assms(2) by (induction zs) auto
  then show ?thesis using assms(1) by (simp add: get_serv_def upd_serv_def)
qed

section \<open>A new connection\<close>

lemma sid_loop_length: "length (fst (snd (sid_loop n m idx))) = length m"
  by (induction n arbitrary: idx) (auto simp: Let_def)

lemma inv_no_sid:
  assumes "pppoe_inv cr w" "sid_loop 1024 (o_sid_map w) (o_sid_idx w) = (0, m, idx)"
  shows "pppoe_inv cr (w\<lparr>o_sid_map := m, o_sid_idx := idx\<rparr>)"
proof -
  have "length m = 1024" "idx < 1024"
    using assms sid_loop_length [of 1024 "o_sid_map w" "o_sid_idx w"] sid_loop_idx [of "o_sid_idx w" 1024 "o_sid_map w"]
    by (auto simp: pppoe_inv_def sid_map_ok_def)
  moreover have "m = o_sid_map w" if "released_low (o_released w)"
    using that assms sid_loop_found [of "o_sid_map w" "o_sid_idx w" 1024] by (auto simp: pppoe_inv_def sid_map_ok_def sids_ok_def)
  ultimately show ?thesis
    using assms(1) by (auto simp: pppoe_inv_def sviews_def queued_def sid_map_ok_def)
qed

lemma sids_ok_add:
  assumes "sids_ok m cs" "bm_test m (unat sid)" "m' = bm_clear m (unat sid)" "length m = 1024"
  shows "sids_ok m' ((c, sid, a, ck) # cs)"
proof -
  have l: "unat sid < 64 * length m" using unat_bound [of sid] assms(4) by simp
  have "unat sid \<noteq> 0" using assms(1,2) by (cases "unat sid = 0") (simp_all add: sids_ok_def)
  moreover have "unat sid \<noteq> 65535" using assms(1,2) by (cases "unat sid = 65535") (simp_all add: sids_ok_def)
  moreover have "unat sid < 65536" using unat_bound [of sid] by simp
  ultimately show ?thesis
    using assms by (auto simp: sids_ok_def bm_test_clear [OF l])
qed

lemma distinct_map_mset: "mset cs = mset cs' \<Longrightarrow> distinct (map g cs) \<longleftrightarrow> distinct (map g cs')"
  by (intro mset_eq_imp_distinct_iff) (simp add: mset_map)

lemma sids_ok_mset: "mset cs = mset cs' \<Longrightarrow> sids_ok m cs \<longleftrightarrow> sids_ok m cs'"
  by (simp add: sids_ok_def distinct_map_mset [of cs cs'] mset_eq_setD [of cs cs'])

lemma inv_add:
  assumes inv: "pppoe_inv cr w" and sv: "get_serv w k = Some sv"
    and sid: "sid_loop 1024 (o_sid_map w) (o_sid_idx w) = (sid, m, idx)" "sid \<noteq> 0"
    and cn: "cview cn = (o_next w, sid, a, ck)" and ad: "admissible cr (sv_hwaddr sv) (sv_secret sv) (sv_des_ks sv) pack t a ck"
    and w': "w' = (upd_serv k (link_conn cn) w)\<lparr>o_sid_map := m, o_sid_idx := idx, o_next := o_next w + 1, o_admitted := o_admitted w @ [(o_next w, k, pack, t)]\<rparr>"
  shows "pppoe_inv cr w'"
proof -
  have d: "distinct (map fst (sviews w))" using inv by (simp add: pppoe_inv_def)
  obtain xs ys where s: "o_servs w = xs @ sv # ys" "k \<notin> sv_id ` set xs" "k \<notin> sv_id ` set ys" "sv_id sv = k"
    using get_serv_split [OF sv d] .
  let ?v = "(k, sv_hwaddr sv, sv_secret sv, sv_des_ks sv, map cview (sv_conns sv) @ [(o_next w, sid, a, ck)])"
  have fv: "sview (link_conn cn sv) = ?v" using cn s(4) by (simp add: link_conn_def sview_def)
  have v': "sviews w' = map sview xs @ ?v # map sview ys"
    using upd_serv_split [OF s, of "link_conn cn"] fv by (simp add: sviews_def w')
  have v: "sviews w = map sview xs @ sview sv # map sview ys" by (simp add: sviews_def s(1))
  have ms: "mset (cviews (sviews w')) = mset ((o_next w, sid, a, ck) # cviews (sviews w))"
    unfolding v v' by (simp add: cviews_def sview_def)
  have set: "set (cviews (sviews w')) = insert (o_next w, sid, a, ck) (set (cviews (sviews w)))"
    using mset_eq_setD [OF ms] by simp
  have "distinct (map v_id (cviews (sviews w')))"
    using inv distinct_map_mset [OF ms, of fst] by (auto simp: pppoe_inv_def)
  moreover have "length m = 1024" "idx < 1024"
    using inv sid sid_loop_length [of 1024 "o_sid_map w" "o_sid_idx w"] sid_loop_idx [of "o_sid_idx w" 1024 "o_sid_map w"]
    by (auto simp: pppoe_inv_def sid_map_ok_def)
  moreover have "sids_ok m (cviews (sviews w'))" if "released_low (o_released w)"
  proof -
    have ok: "sids_ok (o_sid_map w) (cviews (sviews w))" "length (o_sid_map w) = 1024" "o_sid_idx w < 1024"
      using that inv by (simp_all add: pppoe_inv_def sid_map_ok_def)
    then have "bm_test (o_sid_map w) (unat sid)" "m = bm_clear (o_sid_map w) (unat sid)"
      using sid sid_loop_found [of "o_sid_map w" "o_sid_idx w" 1024] by (auto simp: sids_ok_def)
    then show ?thesis
      using sids_ok_add [OF ok(1)] ok(2) sids_ok_mset [OF ms] by blast
  qed
  moreover have "conns_admitted cr (o_admitted w') u" if "u \<in> set (sviews w')" for u
  proof -
    have *: "conns_admitted cr (o_admitted w) x" if "x \<in> set (sviews w)" for x
      using inv that by (simp add: pppoe_inv_def)
    have mono: "conns_admitted cr (o_admitted w) x \<Longrightarrow> conns_admitted cr (o_admitted w') x" for x
      by (fastforce simp: conns_admitted_def w' upd_serv_def list_all_iff split: prod.splits)
    show ?thesis
    proof (cases "u = ?v")
      case True
      have "conns_admitted cr (o_admitted w') (sview sv)" using mono [OF *] v by simp
      then show ?thesis
        using True ad s(4) by (auto simp: conns_admitted_def sview_def w')
    next
      case False
      then show ?thesis using that mono * unfolding v v' by auto
    qed
  qed
  moreover have "queued p w' \<Longrightarrow> queued p w" for p
    using upd_serv_split [OF s, of "link_conn cn"] s(1) by (auto simp: queued_def w' link_conn_def)
  ultimately show ?thesis
    using inv set s(4) unfolding pppoe_inv_def v v' by (auto simp: w' sid_map_ok_def upd_serv_def sview_def less_Suc_eq)
qed

text \<open>The three ways in which an admitted PADR ends.\<close>

lemma padr_admit_cases:
  fixes e :: pppoe_env and sv :: pppoe_serv and v :: padr_vars and pack cookie :: bytes
  assumes "sid_loop 1024 (o_sid_map w) (o_sid_idx w) = (sid, m, idx)"
  defines "cn \<equiv> new_conn e sv (h_source pack) (vr_host_uniq v) (vr_relay_sid v) (vr_service_name v) (vr_tr101 v) cookie (vr_max_payload v)
      (o_next w) sid"
  defines "w1 \<equiv> (upd_serv (sv_id sv) (link_conn cn) w)\<lparr>o_sid_map := m, o_sid_idx := idx, o_next := o_next w + 1,
      o_admitted := o_admitted w @ [(o_next w, sv_id sv, pack, oe_now e)]\<rparr>"
  shows "same w (padr_admit e sv pack v cookie w) \<or>
    sid = 0 \<and> same (w\<lparr>o_sid_map := m, o_sid_idx := idx\<rparr>) (padr_admit e sv pack v cookie w) \<or>
    sid \<noteq> 0 \<and> padr_admit e sv pack v cookie w = call_conn (sv_id sv) (o_next w) Do_connect (pppoe_send_PADS e sv cn w1)"
proof -
  let ?al = "allocate_channel e sv (h_source pack) (vr_host_uniq v) (vr_relay_sid v) (vr_service_name v) (vr_tr101 v) cookie (vr_max_payload v) w"
  let ?w2 = "(upd_serv (sv_id sv) (link_conn cn) (w\<lparr>o_sid_map := m, o_sid_idx := idx\<rparr>))\<lparr>o_next := o_next w + 1\<rparr>"
  have al: "?al = (if \<not> oe_alloc e then (None, w) else if sid = 0 then (None, w\<lparr>o_sid_map := m, o_sid_idx := idx\<rparr>) else (Some cn, ?w2))"
    unfolding allocate_channel_def assms(1) cn_def Let_def by simp
  have id: "cn_id cn = o_next w" by (simp add: cn_def new_conn_def Let_def)
  have w1: "?w2\<lparr>o_admitted := o_admitted ?w2 @ [(cn_id cn, sv_id sv, pack, oe_now e)]\<rparr> = w1"
    by (simp add: w1_def upd_serv_def id)
  show ?thesis
  proof (cases "(\<not> vr_service_match v \<and> \<not> oc_accept_any_service (oe_conf e)) \<or> find_channel sv cookie \<noteq> None")
    case True
    then have "same w (padr_admit e sv pack v cookie w)"
      unfolding padr_admit_def by (auto intro!: same_intros split: option.splits)
    then show ?thesis ..
  next
    case False
    then have p: "padr_admit e sv pack v cookie w =
      (case ?al of
         (None, w) \<Rightarrow> pppoe_send_err e sv (h_source pack) (vr_host_uniq v) (vr_relay_sid v) CODE_PADS TAG_AC_SYSTEM_ERROR w
       | (Some cn, w) \<Rightarrow>
           let w = w\<lparr>o_admitted := o_admitted w @ [(cn_id cn, sv_id sv, pack, oe_now e)]\<rparr>
           in call_conn (sv_id sv) (cn_id cn) Do_connect (pppoe_send_PADS e sv cn w))"
      unfolding padr_admit_def by auto
    show ?thesis
      unfolding p al Let_def using same_send(2) [OF same_refl] w1 id by simp
  qed
qed

lemma inv_padr_admit:
  assumes inv: "pppoe_inv cr w" and sv: "get_serv w (sv_id sv) = Some sv"
    and ad: "admissible cr (sv_hwaddr sv) (sv_secret sv) (sv_des_ks sv) pack (oe_now e) (h_source pack) (take 20 cookie)"
  shows "pppoe_inv cr (padr_admit e sv pack v cookie w)"
proof -
  obtain sid m idx where s: "sid_loop 1024 (o_sid_map w) (o_sid_idx w) = (sid, m, idx)" by (rule prod_cases3)
  define cn where "cn = new_conn e sv (h_source pack) (vr_host_uniq v) (vr_relay_sid v) (vr_service_name v) (vr_tr101 v) cookie
    (vr_max_payload v) (o_next w) sid"
  define w1 where "w1 = (upd_serv (sv_id sv) (link_conn cn) w)\<lparr>o_sid_map := m, o_sid_idx := idx, o_next := o_next w + 1,
      o_admitted := o_admitted w @ [(o_next w, sv_id sv, pack, oe_now e)]\<rparr>"
  have "cview cn = (o_next w, sid, h_source pack, take 20 cookie)" by (simp add: cn_def new_conn_def cview_def Let_def)
  then have i: "sid \<noteq> 0 \<Longrightarrow> pppoe_inv cr w1" using inv_add [OF inv sv s _ _ ad w1_def] by blast
  have sm: "same w1 (call_conn (sv_id sv) (o_next w) Do_connect (pppoe_send_PADS e sv cn w1))" by (intro same_intros)
  consider "same w (padr_admit e sv pack v cookie w)"
    | "sid = 0" "same (w\<lparr>o_sid_map := m, o_sid_idx := idx\<rparr>) (padr_admit e sv pack v cookie w)"
    | "sid \<noteq> 0" "padr_admit e sv pack v cookie w = call_conn (sv_id sv) (o_next w) Do_connect (pppoe_send_PADS e sv cn w1)"
    using padr_admit_cases [OF s, of e sv pack v cookie] unfolding cn_def [symmetric] w1_def [symmetric] by blast
  then show ?thesis
  proof cases
    case 1
    then show ?thesis by (rule inv_same [OF inv])
  next
    case 2
    then show ?thesis using inv_no_sid [OF inv] s by (intro inv_same [OF _ 2(2)]) simp
  next
    case 3
    then show ?thesis using inv_same [OF i [OF 3(1)] sm] by simp
  qed
qed

lemma inv_PADR:
  assumes inv: "pppoe_inv cr w" and sv: "get_serv w (sv_id sv) = Some sv" and cr: "oe_cr e = cr"
  shows "pppoe_inv cr (pppoe_recv_PADR e sv pack w)"
proof -
  let ?w = "upd_stat (\<lambda>s. s\<lparr>ps_PADR_recv := ps_PADR_recv s + 1\<rparr>) w"
  have i: "pppoe_inv cr ?w" by (rule inv_same [OF inv]) (intro same_intros)
  have g: "get_serv ?w (sv_id sv) = Some sv" using sv by (simp add: get_serv_def upd_stat_def)
  have c: "pppoe_inv cr (o_crash ?w)" by (rule inv_same [OF inv]) (intro same_intros)
  show ?thesis
    unfolding pppoe_recv_PADR_def Let_def
    using i c by (auto split: parse.splits option.splits intro!: inv_padr_admit [OF i g] admissibleI simp: cr)
qed

lemma inv_serv_read:
  assumes "pppoe_inv cr w" "get_serv w (sv_id sv) = Some sv" "oe_cr e = cr"
  shows "pppoe_inv cr (pppoe_serv_read e sv pack w)"
  using inv_PADR [OF assms] inv_same [OF assms(1) same_PADI [OF same_refl]] inv_same [OF assms(1) same_PADT [OF same_refl]] assms(1)
  by (simp add: pppoe_serv_read_def)

section \<open>The end of a connection\<close>

lemma get_conn_mset:
  assumes "get_conn sv c = Some cn" "distinct (map cn_id (sv_conns sv))"
  shows "mset (sv_conns sv) = add_mset cn (mset (filter (\<lambda>x. cn_id x \<noteq> cn_id cn) (sv_conns sv)))" "cn_id cn = c"
proof -
  have m: "cn \<in> set (sv_conns sv)" and "cn_id cn = c"
    using assms(1) by (auto simp: get_conn_def find_Some_iff)
  show "cn_id cn = c" by fact
  obtain xs ys where s: "sv_conns sv = xs @ cn # ys" using m by (auto simp: in_set_conv_decomp)
  have "cn_id cn \<notin> cn_id ` set xs" "cn_id cn \<notin> cn_id ` set ys" using assms(2) unfolding s by simp_all
  then have "\<forall>x \<in> set xs. cn_id x \<noteq> cn_id cn" "\<forall>x \<in> set ys. cn_id x \<noteq> cn_id cn" by (auto intro: rev_image_eqI)
  then have "filter (\<lambda>x. cn_id x \<noteq> cn_id cn) xs = xs" "filter (\<lambda>x. cn_id x \<noteq> cn_id cn) ys = ys" by (auto simp: filter_id_conv)
  then show "mset (sv_conns sv) = add_mset cn (mset (filter (\<lambda>x. cn_id x \<noteq> cn_id cn) (sv_conns sv)))"
    using s by simp
qed

lemma unlink_conn_fields:
  "sv_conns (unlink_conn cn s) = filter (\<lambda>c. cn_id c \<noteq> cn_id cn) (sv_conns s)" "sv_id (unlink_conn cn s) = sv_id s"
  "sv_hwaddr (unlink_conn cn s) = sv_hwaddr s" "sv_secret (unlink_conn cn s) = sv_secret s" "sv_des_ks (unlink_conn cn s) = sv_des_ks s"
  "Do_read p \<in> set (sv_calls (unlink_conn cn s)) \<longleftrightarrow> Do_read p \<in> set (sv_calls s)"
  by (simp_all add: unlink_conn_def Let_def)

lemma sids_ok_del:
  assumes "sids_ok m (v # cs)" "unat (v_sid v) mod 64 < 31" "length m = 1024"
  shows "sids_ok (sid_release undef (v_sid v) m) cs"
proof -
  have l: "unat (v_sid v) < 64 * length m" using unat_bound [of "v_sid v"] assms(3) by simp
  have r: "sid_release undef (v_sid v) m = bm_set m (unat (v_sid v))" by (rule sid_release_low [OF assms(2)])
  have "unat (v_sid v) \<noteq> unat (v_sid x)" if "x \<in> set cs" for x
    using assms(1) that by (auto simp: sids_ok_def word_unat_eq_iff)
  then show ?thesis
    using assms(1) unfolding r sids_ok_def bm_test_set [OF l] by auto
qed

lemma inv_unlink:
  assumes inv: "pppoe_inv cr w" and sv: "get_serv w k = Some sv" and cn: "get_conn sv c = Some cn"
    and w': "w' = (upd_serv k (unlink_conn cn) w)\<lparr>o_sid_map := sid_release undef (cn_sid cn) (o_sid_map w), o_released := o_released w @ [cn_sid cn]\<rparr>"
  shows "pppoe_inv cr w'"
proof -
  have d: "distinct (map fst (sviews w))" using inv by (simp add: pppoe_inv_def)
  obtain xs ys where s: "o_servs w = xs @ sv # ys" "k \<notin> sv_id ` set xs" "k \<notin> sv_id ` set ys" "sv_id sv = k"
    using get_serv_split [OF sv d] .
  let ?v = "(k, sv_hwaddr sv, sv_secret sv, sv_des_ks sv, map cview (filter (\<lambda>c. cn_id c \<noteq> cn_id cn) (sv_conns sv)))"
  have v': "sviews w' = map sview xs @ ?v # map sview ys"
    using upd_serv_split [OF s, of "unlink_conn cn"] s(4) by (simp add: sviews_def w' sview_def unlink_conn_fields)
  have v: "sviews w = map sview xs @ sview sv # map sview ys" by (simp add: sviews_def s(1))
  have di: "distinct (map cn_id (sv_conns sv))"
    using inv unfolding pppoe_inv_def v by (auto simp: cviews_def sview_def comp_def cview_def)
  have ms: "mset (cviews (sviews w)) = mset (cview cn # cviews (sviews w'))"
    using arg_cong [OF get_conn_mset(1) [OF cn di], of "image_mset cview"] unfolding v v' by (simp add: cviews_def sview_def mset_map)
  have set: "set (cviews (sviews w)) = insert (cview cn) (set (cviews (sviews w')))"
    using mset_eq_setD [OF ms] by simp
  have "distinct (map v_id (cviews (sviews w')))"
    using inv distinct_map_mset [OF ms, of fst] by (auto simp: pppoe_inv_def)
  moreover have "sids_ok (o_sid_map w') (cviews (sviews w'))" if "released_low (o_released w')"
    using that inv sids_ok_mset [OF ms, of "o_sid_map w"] sids_ok_del [of "o_sid_map w" "cview cn" "cviews (sviews w')"]
    by (auto simp: pppoe_inv_def w' released_low_def sid_map_ok_def cview_def)
  moreover have "conns_admitted cr (o_admitted w) u" if "u \<in> set (sviews w')" for u
  proof (cases "u = ?v")
    case True
    have "conns_admitted cr (o_admitted w) (sview sv)" using inv v by (simp add: pppoe_inv_def)
    then show ?thesis using True s(4) by (auto simp: conns_admitted_def sview_def list_all_iff)
  next
    case False
    then show ?thesis using that inv unfolding pppoe_inv_def v v' by auto
  qed
  moreover have "queued p w' \<Longrightarrow> queued p w" for p
    using upd_serv_split [OF s, of "unlink_conn cn"] s(1) by (auto simp: queued_def w' unlink_conn_fields)
  ultimately show ?thesis
    using inv set s(4) unfolding pppoe_inv_def v v' by (auto simp: w' sid_map_ok_def upd_serv_def sview_def)
qed

text \<open>Steps before the connection is unlinked change nothing that the unlinking looks at.\<close>

lemma inv_disconnect:
  assumes inv: "pppoe_inv cr w"
  shows "pppoe_inv cr (disconnect e k c w)"
proof (cases "get_serv w k")
  case None
  then show ?thesis using inv_same [OF inv same_fields(1) [OF same_refl]] by (simp add: disconnect_def)
next
  case (Some sv)
  show ?thesis
  proof (cases "get_conn sv c")
    case None
    then show ?thesis using inv_same [OF inv same_fields(1) [OF same_refl]] Some by (simp add: disconnect_def)
  next
    case cn: (Some cn)
    define w1 where "w1 = (if cn_started cn then log_ctrl c (Ses_terminate True) (active_dec w)
                        else if cn_starting cn then upd_stat (\<lambda>s. s\<lparr>ps_starting := ps_starting s - 1\<rparr>) w
                        else w)"
    define w2 where "w2 = log_ctrl c Ctrl_finished (pppoe_send_PADT e sv cn w1)"
    have "same w w1" unfolding w1_def by (intro same_intros)
    then have s2: "same w w2" and sc: "same w (o_crash w1)" unfolding w2_def by (auto intro: same_intros)
    have "o_servs w1 = o_servs w"
      by (simp add: w1_def log_ctrl_def active_dec_def upd_stat_def o_crash_def split: parse.splits)
    then have "o_servs w2 = o_servs w"
      by (simp add: w2_def log_ctrl_def pppoe_send_PADT_def pppoe_send_def Let_def)
    then have g: "get_serv w2 k = Some sv" using Some by (simp add: get_serv_def)
    have d: "disconnect e k c w = (if sv_freed sv then o_crash w1
        else (upd_serv k (unlink_conn cn) w2)\<lparr>o_sid_map := sid_release (oe_shl e) (cn_sid cn) (o_sid_map w2), o_released := o_released w2 @ [cn_sid cn]\<rparr>)"
      by (simp only: disconnect_def Some cn option.case Let_def w1_def [symmetric] w2_def [symmetric]) (simp add: upd_serv_def)
    show ?thesis
      using inv_unlink [OF inv_same [OF inv s2] g cn refl] inv_same [OF inv sc] unfolding d by simp
  qed
qed

lemma inv_conn_close: "pppoe_inv cr w \<Longrightarrow> pppoe_inv cr (pppoe_conn_close e k c w)"
  unfolding pppoe_conn_close_def
  by (auto split: option.splits intro: inv_disconnect inv_same [OF _ same_fields(1) [OF same_refl]] inv_same [OF _ same_fields(3) [OF same_refl]])

lemma inv_connect_channel:
  assumes "pppoe_inv cr w"
  shows "pppoe_inv cr (connect_channel e k c w)"
proof -
  define w1 where "w1 = log_ctrl c Ctrl_started (upd_stat (\<lambda>s. s\<lparr>ps_starting := ps_starting s + 1\<rparr>)
    (upd_cn k c (\<lambda>cn. cn\<lparr>cn_starting := True\<rparr>) (log_ctrl c Ctrl_starting w)))"
  have "same w w1" unfolding w1_def by (intro same_intros) (simp add: cview_def)
  then have i: "pppoe_inv cr w1" by (rule inv_same [OF assms])
  have a: "same w1 (active_inc (upd_stat (\<lambda>s. s\<lparr>ps_starting := ps_starting s - 1\<rparr>)
                   (upd_cn k c (\<lambda>cn. cn\<lparr>cn_starting := False, cn_started := True\<rparr>) w1)))"
    by (intro same_intros) (simp add: cview_def)
  show ?thesis
    unfolding connect_channel_def Let_def w1_def [symmetric]
    using inv_disconnect [OF i] inv_same [OF i a] inv_same [OF i same_fields(1) [OF same_refl]] by (simp split: option.splits)
qed

section \<open>Frames and servers\<close>

lemma inv_forward:
  assumes inv: "pppoe_inv cr w" and fits: "frame_fits pack"
  shows "pppoe_inv cr (forward i pack w)"
proof -
  have q: "queued p (call_serv k (Do_read pack) w) \<Longrightarrow> queued p w \<or> p = pack" for p k
    by (auto simp: queued_def call_serv_def upd_serv_def split: if_splits)
  have "sviews (call_serv k (Do_read pack) w) = sviews w" for k
    by (simp add: sviews_def call_serv_def upd_serv_def sview_def)
  then have "pppoe_inv cr (call_serv k (Do_read pack) w)" for k
    using inv fits q by (fastforce simp: pppoe_inv_def call_serv_def upd_serv_def)
  then show ?thesis
    unfolding forward_def using inv inv_same [OF inv same_fields(1) [OF same_refl]] by (auto split: option.splits)
qed

lemma inv_disc_read:
  assumes inv: "pppoe_inv cr w"
  shows "pppoe_inv cr (disc_read i frame w)"
proof -
  have "pppoe_inv cr (upd_stat f w)" for f by (rule inv_same [OF inv]) (intro same_intros)
  then show ?thesis
    using inv by (auto simp: disc_read_def Let_def frame_fits_def intro!: inv_forward)
qed

lemma inv_server_start:
  assumes inv: "pppoe_inv cr w"
  shows "pppoe_inv cr (server_start e n opt vid vm w)"
proof -
  have "pppoe_inv cr (w'\<lparr>o_servs := o_servs w' @ [new_serv e (o_next w') n i pl net vm], o_next := o_next w' + 1\<rparr>)"
    if "pppoe_inv cr w'" for w' i pl net
  proof -
    let ?v = "sview (new_serv e (o_next w') n i pl net vm)"
    let ?w = "w'\<lparr>o_servs := o_servs w' @ [new_serv e (o_next w') n i pl net vm], o_next := o_next w' + 1\<rparr>"
    have "sviews ?w = sviews w' @ [?v]" "cviews (sviews w' @ [?v]) = cviews (sviews w')" "fst ?v = o_next w'"
      "conns_admitted cr a ?v" for a
      by (simp_all add: sviews_def cviews_def new_serv_def sview_def conns_admitted_def)
    moreover have "queued p ?w \<longleftrightarrow> queued p w'" for p
      by (auto simp: queued_def new_serv_def)
    ultimately show ?thesis
      using that by (auto simp: pppoe_inv_def less_Suc_eq)
  qed
  moreover have "pppoe_inv cr w'" if "pppoe_disc_start e net i k w = Some w'" for net i k w'
    using that inv by (auto simp: pppoe_disc_start_def Let_def split: if_splits option.splits intro!: inv_same [OF inv] same_intros)
  ultimately show ?thesis
    unfolding server_start_def using inv inv_same [OF inv same_fields(1) [OF same_refl]]
    by (auto split: parse.splits option.splits)
qed

section \<open>All histories\<close>

lemma inv_serv_run:
  assumes inv: "pppoe_inv cr w" and cr: "oe_cr e = cr"
  shows "pppoe_inv cr (serv_run e k w)"
proof (cases "get_serv w k")
  case (Some sv)
  show ?thesis
  proof (cases "sv_calls sv")
    case (Cons f fs)
    have id: "sv_id sv = k" using Some by (auto simp: get_serv_def find_Some_iff)
    define w1 where "w1 = w\<lparr>o_servs := map (\<lambda>s. if sv_id s = k then s\<lparr>sv_calls := fs\<rparr> else s) (o_servs w)\<rparr>"
    have w1: "w1 = upd_serv k (\<lambda>s. s\<lparr>sv_calls := fs\<rparr>) w" by (simp add: w1_def upd_serv_def)
    have g: "get_serv w1 k = Some (sv\<lparr>sv_calls := fs\<rparr>)" unfolding w1 using get_serv_upd [OF Some] id by simp
    obtain xs ys where s: "o_servs w = xs @ sv # ys" "k \<notin> sv_id ` set xs" "k \<notin> sv_id ` set ys" "sv_id sv = k"
      using get_serv_split [OF Some] inv by (auto simp: pppoe_inv_def)
    have "queued p w1 \<Longrightarrow> queued p w" for p
      using upd_serv_split [OF s, of "\<lambda>s. s\<lparr>sv_calls := fs\<rparr>"] s(1) Cons unfolding w1 by (auto simp: queued_def)
    moreover have "sviews w1 = sviews w" by (simp add: sviews_def w1_def sview_def)
    ultimately have i: "pppoe_inv cr w1"
      using inv by (auto simp: pppoe_inv_def w1_def)
    show ?thesis
      using inv_serv_read [OF i, of "sv\<lparr>sv_calls := fs\<rparr>" e] g id cr inv_same [OF i same_server_free [OF same_refl]]
        inv_same [OF i same_stop(3) [OF same_refl]] inv_same [OF i same_stop(1) [OF same_refl]] Some Cons
      by (simp add: serv_run_def Let_def w1 [symmetric] split: serv_call.splits)
  qed (simp add: serv_run_def Some inv)
qed (simp add: serv_run_def inv)

lemma inv_conn_run:
  assumes inv: "pppoe_inv cr w"
  shows "pppoe_inv cr (conn_run e k c w)"
proof -
  have "pppoe_inv cr (upd_cn k c (\<lambda>cn. cn\<lparr>cn_calls := fs\<rparr>) w)" for fs
    by (rule inv_same [OF inv]) (intro same_intros, simp add: cview_def)
  then show ?thesis
    unfolding conn_run_def Let_def conn_stop_def
    by (auto split: option.splits list.splits conn_call.splits
        intro: inv inv_connect_channel inv_disconnect inv_same [OF _ same_fields(3) [OF same_refl]])
qed

lemma inv_pppoe_server_start:
  assumes inv: "pppoe_inv cr w"
  shows "pppoe_inv cr (pppoe_server_start e opt w)"
proof -
  have "pppoe_inv cr (fold (\<lambda>l. server_start e (fst l) rest (snd l) False) ls w)" if "pppoe_inv cr w" for rest ls w
    using that by (induction ls arbitrary: w) (auto intro: inv_server_start)
  then show ?thesis
    unfolding pppoe_server_start_def Let_def using inv_server_start [OF inv] inv inv_same [OF inv same_fields(1) [OF same_refl]]
    by (auto split: option.splits)
qed

lemma inv_exec:
  assumes inv: "pppoe_inv cr w" and "oe_cr e = cr"
  shows "pppoe_inv cr (pppoe_exec e ev w)"
proof -
  have s: "same w w' \<Longrightarrow> pppoe_inv cr w'" for w' by (rule inv_same [OF inv])
  show ?thesis
  proof (cases ev)
    case (Frame i frame)
    then show ?thesis using inv_disc_read [OF inv] inv by simp
  next
    case (Server_start opt)
    then show ?thesis using inv_pppoe_server_start [OF inv] by simp
  next
    case (Vlan_start n opt)
    then show ?thesis using inv_server_start [OF inv] by simp
  next
    case (Serv_run k)
    then show ?thesis using inv_serv_run [OF assms] by simp
  next
    case (Conn_run k c)
    then show ?thesis using inv_conn_run [OF inv] by simp
  next
    case (Conn_close k c)
    then show ?thesis using inv_conn_close [OF inv] inv by simp
  qed (auto intro!: s same_intros simp: cview_def sview_def set_vlan_timeout_def vlan_mon_takes_def split: option.splits if_splits)
qed

lemma inv_reach: "pppoe_reach cr undef w \<Longrightarrow> pppoe_inv cr w"
  by (induction rule: pppoe_reach.induct) (auto intro: inv_init inv_exec)

end
