(* ===== verification/PppoeRun.thy ===== *)
theory PppoeRun
  imports PppoeInv
begin

text \<open>
  A short history: a server is started and a client sends a PADR with the cookie that the server would have put into a PADO. The digest and the
  cipher are simple functions with the lengths of MD5 and DES.
\<close>

definition run_cr :: pppoe_crypto where
  "run_cr = \<lparr>cr_md5 = (\<lambda>x. take 16 (x @ replicate 16 0)), cr_encrypt = (\<lambda>k b. b), cr_decrypt = (\<lambda>k b. b)\<rparr>"

definition run_conf :: pppoe_conf where
  "run_conf = \<lparr>oc_service_name = [], oc_accept_any_service = False, oc_accept_blank_service = False, oc_ac_name = [97], oc_ifname_in_sid = 0,
     oc_tr101 = True, oc_padi_limit = 0, oc_sid_uppercase = False, oc_called_sid = CSID_MAC, oc_cookie_timeout = 5, oc_vlan_timeout = 60\<rparr>"

definition run_hw :: bytes where "run_hw = [2, 0, 0, 0, 0, 9]"
definition run_client :: bytes where "run_client = [2, 0, 0, 0, 0, 1]"

text \<open>The shift of an \<^verbatim>\<open>int\<close> by 32 or more as an x86 processor does it.\<close>

definition x86_shl :: "nat \<Rightarrow> u32" where "x86_shl n = push_bit (n mod 32) 1"

definition run_env :: pppoe_env where
  "run_env = \<lparr>oe_conf = run_conf, oe_cr = run_cr, oe_shl = x86_shl, oe_now = \<lparr>tv_sec = 100, tv_nsec = 0\<rparr>, oe_shutdown = False,
     oe_max_starting = 0, oe_max_sessions = 0, oe_ap_starting = 0, oe_ap_active = 0, oe_connlimit = None, oe_alloc = True, oe_socket = True,
     oe_connect = True, oe_establish = True, oe_if = (\<lambda>n. Some \<lparr>if_hwaddr = run_hw, if_mtu = 1500, if_index = 3\<rparr>),
     oe_secret = replicate 16 7, oe_des_key = replicate 8 5, oe_links = (\<lambda>p. None), oe_net_find = (\<lambda>n. None), oe_vlan_busy = False, oe_disc_socket = True, oe_fopen = (\<lambda>n. None)\<rparr>"

definition run_sv :: pppoe_serv where
  "run_sv = new_serv run_env 0 ''eth0'' \<lparr>if_hwaddr = run_hw, if_mtu = 1500, if_index = 3\<rparr> 0 0 False"

definition run_cookie :: pppoe_tag where
  "run_cookie = \<lparr>tag_type = TAG_AC_COOKIE, tag_data = generate_cookie run_cr 100 5 (replicate 16 7) (replicate 8 5) run_hw run_client None None\<rparr>"

definition blank_service :: pppoe_tag where
  "blank_service = \<lparr>tag_type = TAG_SERVICE_NAME, tag_data = []\<rparr>"

definition run_frame :: "bytes \<Rightarrow> u8 \<Rightarrow> pppoe_tag list \<Rightarrow> bytes" where
  "run_frame dst code ts = frame_bytes \<lparr>f_source = run_client, f_dest = dst, f_code = code, f_sid = 0, f_tags = tags_bytes ts\<rparr>"

definition run_padr :: bytes where "run_padr = run_frame run_hw CODE_PADR [blank_service, run_cookie]"

lemma run_crypto_ok: "crypto_ok run_cr"
  by (auto simp: crypto_ok_def run_cr_def min_def)

lemma run_cookie_len: "tag_len run_cookie = 24" "tag_len blank_service = 0"
  using check_generated_cookie(2) [OF run_crypto_ok, of 100 5 100] by (simp_all add: run_cookie_def tag_len_def blank_service_def)

lemma run_frame_fields:
  assumes "length dst = 6" "length (tags_bytes ts) < 1498"
  shows "length (run_frame dst code ts) = 20 + length (tags_bytes ts)" "h_source (run_frame dst code ts) = run_client"
    "h_dest (run_frame dst code ts) = dst" "pppoe_code (run_frame dst code ts) = code" "pppoe_sid (run_frame dst code ts) = 0"
    "pppoe_length (run_frame dst code ts) = length (tags_bytes ts)" "pppoe_ver (run_frame dst code ts) = 1" "pppoe_type (run_frame dst code ts) = 1"
proof -
  let ?f = "\<lparr>f_source = run_client, f_dest = dst, f_code = code, f_sid = 0, f_tags = tags_bytes ts\<rparr>"
  have l: "length run_client = 6" by (simp add: run_client_def)
  show "length (run_frame dst code ts) = 20 + length (tags_bytes ts)" "h_source (run_frame dst code ts) = run_client"
    "h_dest (run_frame dst code ts) = dst" "pppoe_code (run_frame dst code ts) = code" "pppoe_sid (run_frame dst code ts) = 0"
    "pppoe_length (run_frame dst code ts) = length (tags_bytes ts)"
    using frame_bytes_fields [of ?f] assms l by (simp_all add: run_frame_def)
  have "run_frame dst code ts ! 14 = 0x11"
    using assms l by (simp add: run_frame_def frame_bytes_def nth_append)
  then show "pppoe_ver (run_frame dst code ts) = 1" "pppoe_type (run_frame dst code ts) = 1"
    by (simp_all add: pppoe_ver_def pppoe_type_def)
qed

lemma run_frame_tags:
  assumes "length dst = 6" "length (tags_bytes ts) < 1498" "tags_fit ts"
  shows "for_tags step (run_frame dst code ts) (pppoe_length (run_frame dst code ts)) 0 a = Ok (fold step ts a)"
  unfolding run_frame_def using assms by (intro carries_parsed) (simp_all add: carries_def run_client_def)

lemma run_tags: "length (tags_bytes [blank_service, run_cookie]) = 32" "tags_fit [blank_service, run_cookie]" "length run_hw = 6"
  using run_cookie_len by (simp_all add: tags_fit_def) (simp_all add: blank_service_def run_cookie_def run_hw_def)

lemma run_padr_fields:
  "length run_padr = 52" "h_source run_padr = run_client" "h_dest run_padr = run_hw" "pppoe_code run_padr = CODE_PADR" "pppoe_sid run_padr = 0"
  "pppoe_length run_padr = 32" "pppoe_ver run_padr = 1" "pppoe_type run_padr = 1"
  using run_frame_fields [of run_hw "[blank_service, run_cookie]" CODE_PADR] run_tags by (simp_all add: run_padr_def)

definition run_vars :: padr_vars where
  "run_vars = \<lparr>vr_service_match = True, vr_service_count = 1, vr_service_name = Some blank_service, vr_host_uniq = None, vr_relay_sid = None,
     vr_cookie = Some run_cookie, vr_tr101 = None, vr_max_payload = 0\<rparr>"

lemma run_padr_tags: "padr_tags run_conf run_padr = Ok run_vars"
proof -
  have t: "tag_type blank_service = TAG_SERVICE_NAME" "tag_type run_cookie = TAG_AC_COOKIE"
    by (simp_all add: blank_service_def run_cookie_def)
  show ?thesis
    using run_tags run_cookie_len
    unfolding padr_tags_def run_padr_def
    by (subst run_frame_tags) (simp_all add: padr_tag_def t run_vars_def Let_def)
qed

lemma run_cookie_valid:
  "check_cookie run_cr 100 (replicate 16 7) (replicate 8 5) run_hw run_client (tag_data run_cookie) None"
  using check_generated_cookie(1) [OF run_crypto_ok, of 100 5 100] by (simp add: run_cookie_def)

section \<open>The history\<close>

definition run_w1 :: pppoe_world where "run_w1 = pppoe_exec run_env (Server_start ''eth0'') pppoe_init"
definition run_w2 :: pppoe_world where "run_w2 = pppoe_exec run_env (Frame 3 run_padr) run_w1"
definition run_w3 :: pppoe_world where "run_w3 = pppoe_exec run_env (Serv_run 0) run_w2"

lemma disc_run_reach: "pppoe_reach run_cr x86_shl run_w1" "pppoe_reach run_cr x86_shl run_w2" "pppoe_reach run_cr x86_shl run_w3"
proof -
  have e: "oe_cr run_env = run_cr" "oe_shl run_env = x86_shl" by (simp_all add: run_env_def)
  show 1: "pppoe_reach run_cr x86_shl run_w1" unfolding run_w1_def by (rule reach_step [OF reach_init e])
  show 2: "pppoe_reach run_cr x86_shl run_w2" unfolding run_w2_def by (rule reach_step [OF 1 e])
  show "pppoe_reach run_cr x86_shl run_w3" unfolding run_w3_def by (rule reach_step [OF 2 e])
qed

lemma run_w1: "run_w1 = pppoe_init\<lparr>o_servs := [run_sv], o_disc_net := Some \<lparr>dn_net = 0, dn_open = True, dn_refs = 2\<rparr>, o_disc := [(3, 0)], o_next := 1\<rparr>"
  by (simp add: run_w1_def pppoe_server_start_def before_chr_def server_start_def parse_server.simps run_env_def pppoe_disc_start_def disc_net_of_def pppoe_init_def run_sv_def run_hw_def run_conf_def)

lemma run_sv_fields:
  "sv_id run_sv = 0" "sv_hwaddr run_sv = run_hw" "sv_secret run_sv = replicate 16 7" "sv_des_ks run_sv = replicate 8 5" "sv_conns run_sv = []"
  "sv_calls run_sv = []" "\<not> sv_freed run_sv"
  by (simp_all add: run_sv_def new_serv_def run_env_def)

lemma run_w2: "run_w2 = run_w1\<lparr>o_servs := [run_sv\<lparr>sv_calls := [Do_read run_padr]\<rparr>]\<rparr>"
proof -
  have "hd run_client \<noteq> hd bc_addr" by (simp add: run_client_def bc_addr_def)
  then have "run_client \<noteq> bc_addr" by auto
  moreover have "run_client ! 0 AND 1 = 0" "take 1518 run_padr = run_padr"
    using run_padr_fields(1) by (simp_all add: run_client_def bc_addr_def)
  ultimately show ?thesis
    using run_padr_fields run_sv_fields
    by (simp add: run_w2_def disc_up_def disc_read_def Let_def mac_filter_check_def mac_filter_init_def run_w1 pppoe_init_def forward_def get_serv_def call_serv_def upd_serv_def)
qed

lemma run_sid: "fst (sid_loop 1024 sid_map_init 0) \<noteq> 0"
  using sid_map_init_free [of 1] sid_map_init_free [of 0] by (intro sid_loop_complete [where s = 1]) (simp_all add: sid_map_init_def)

lemma run_env_fields:
  "oe_conf run_env = run_conf" "oe_cr run_env = run_cr" "oe_shl run_env = x86_shl" "tv_sec (oe_now run_env) = 100" "\<not> oe_shutdown run_env"
  "\<not> at_capacity run_env" "oe_alloc run_env" "oc_cookie_timeout run_conf = 5" "oc_service_name run_conf = []" "oc_ac_name run_conf = [97]"
  "\<not> oc_accept_blank_service run_conf"
  by (simp_all add: run_env_def at_capacity_def run_conf_def)

lemma run_vars_fields:
  "vr_cookie run_vars = Some run_cookie" "vr_service_count run_vars = 1" "vr_service_match run_vars" "vr_relay_sid run_vars = None"
  by (simp_all add: run_vars_def)

lemma run_hw_not_bc: "run_hw \<noteq> bc_addr"
proof -
  have "hd run_hw \<noteq> hd bc_addr" by (simp add: run_hw_def bc_addr_def)
  then show ?thesis by auto
qed

lemma run_w1_fields: "get_serv run_w1 0 = Some run_sv" "o_sid_map run_w1 = sid_map_init" "o_sid_idx run_w1 = 0" "find_channel run_sv x = None"
  using run_sv_fields by (simp_all add: run_w1 get_serv_def pppoe_init_def find_channel_def)

end
