(* ===== verification/PppoeProps.thy ===== *)
theory PppoeProps
  imports PppoeRun
begin

text \<open>
  The properties of PPPoE discovery: frames are read within their bounds, a session needs a valid cookie, the cookie of a PADO leads to a
  session, and what becomes of the session numbers.
\<close>

section \<open>What a PADO offers\<close>

definition opt_list :: "'a option \<Rightarrow> 'a list" where
  "opt_list x = (case x of None \<Rightarrow> [] | Some y \<Rightarrow> [y])"

definition pado_cookie :: "pppoe_env \<Rightarrow> pppoe_serv \<Rightarrow> bytes \<Rightarrow> pppoe_tag option \<Rightarrow> pppoe_tag option \<Rightarrow> bytes" where
  "pado_cookie e sv addr hu rs = generate_cookie (oe_cr e) (tv_sec (oe_now e)) (oc_cookie_timeout (oe_conf e)) (sv_secret sv) (sv_des_ks sv)
     (sv_hwaddr sv) addr hu rs"

definition pado_tags :: "pppoe_env \<Rightarrow> pppoe_serv \<Rightarrow> bytes \<Rightarrow> pppoe_tag option \<Rightarrow> pppoe_tag option \<Rightarrow> pppoe_tag option \<Rightarrow> u16 \<Rightarrow> pppoe_tag list" where
  "pado_tags e sv addr hu rs sn mp =
     \<lparr>tag_type = TAG_AC_NAME, tag_data = oc_ac_name (oe_conf e)\<rparr> #
     map (\<lambda>s. \<lparr>tag_type = TAG_SERVICE_NAME, tag_data = s\<rparr>) (oc_service_name (oe_conf e)) @ opt_list sn @
     [\<lparr>tag_type = TAG_AC_COOKIE, tag_data = pado_cookie e sv addr hu rs\<rparr>] @ opt_list hu @ opt_list rs @
     (if mp \<noteq> 0 then [\<lparr>tag_type = TAG_PPP_MAX_PAYLOAD, tag_data = u_write_be16 mp\<rparr>] else [])"

lemma pado_frame_fold: "pado_frame e sv addr hu rs sn mp = fold add_tag2 (pado_tags e sv addr hu rs sn mp) (setup_header (sv_hwaddr sv) addr CODE_PADO 0)"
proof -
  have o: "add_tag_opt t f = fold add_tag2 (opt_list t) f" for t f
    by (simp add: add_tag_opt_def opt_list_def split: option.splits)
  have m: "fold (add_tag TAG_SERVICE_NAME) ss f = fold add_tag2 (map (\<lambda>s. \<lparr>tag_type = TAG_SERVICE_NAME, tag_data = s\<rparr>) ss) f" for ss f
    by (induction ss arbitrary: f) (simp_all add: add_tag_def)
  show ?thesis
    by (simp add: pado_frame_def pado_tags_def pado_cookie_def Let_def o m) (simp add: add_tag_def)
qed

text \<open>The tags that a PADI hands on have the types under which they were found.\<close>

definition padi_typed :: "padi_vars \<Rightarrow> bool" where
  "padi_typed v \<longleftrightarrow> list_all (\<lambda>t. tag_type t = TAG_SERVICE_NAME) (opt_list (vi_service_name v)) \<and>
     list_all (\<lambda>t. tag_type t = TAG_HOST_UNIQ) (opt_list (vi_host_uniq v)) \<and>
     list_all (\<lambda>t. tag_type t = TAG_RELAY_SESSION_ID) (opt_list (vi_relay_sid v))"

definition padi_vars0 :: "pppoe_conf \<Rightarrow> padi_vars" where
  "padi_vars0 cf = \<lparr>vi_service_match = (oc_service_name cf = []), vi_service_name = None, vi_host_uniq = None, vi_relay_sid = None,
     vi_max_payload = 0\<rparr>"

lemma padi_tags_typed:
  assumes "for_tags (padi_tag cf) pack len n (padi_vars0 cf') = Ok v"
  shows "padi_typed v"
proof -
  have "padi_typed (padi_tag cf t a)" if "padi_typed a" for t a
    using that by (auto simp: padi_tag_def padi_typed_def opt_list_def)
  then show ?thesis
    by (rule for_tags_keeps [OF assms]) (simp_all add: padi_typed_def padi_vars0_def opt_list_def)
qed

lemma set_roomy: "set (roomy n ts) \<subseteq> set ts"
  by (induction n ts rule: roomy.induct) auto

lemma pado_parsed:
  assumes "padi_typed v" "length addr = 6" "length (sv_hwaddr sv) = 6"
    and f: "f = pado_frame e sv addr (vi_host_uniq v) (vi_relay_sid v) (vi_service_name v) mp"
  shows "for_tags (\<lambda>t ts. ts @ [t]) (frame_bytes f) (pppoe_length (frame_bytes f)) 0 [] =
    Ok (roomy 0 (pado_tags e sv addr (vi_host_uniq v) (vi_relay_sid v) (vi_service_name v) mp))"
proof -
  let ?L = "pado_tags e sv addr (vi_host_uniq v) (vi_relay_sid v) (vi_service_name v) mp"
  have typed: "list_all (\<lambda>t. tag_type t \<noteq> TAG_END_OF_LIST) ?L"
    using assms(1) by (auto simp: pado_tags_def padi_typed_def opt_list_def list_all_iff split: option.splits)
  have c: "carries f (roomy 0 ?L)"
    using carries_fold [OF setup_header_carries typed] unfolding f pado_frame_fold by (simp add: setup_header_def)
  have "f_dest (fold add_tag2 us g) = f_dest g" "f_source (fold add_tag2 us g) = f_source g" for us g
    by (induction us arbitrary: g) auto
  then have "f_dest f = addr" "f_source f = sv_hwaddr sv" unfolding f pado_frame_fold by (simp_all add: setup_header_def)
  moreover have "fold (\<lambda>t ts. ts @ [t]) us acc = acc @ us" for us acc :: "pppoe_tag list"
    by (induction us arbitrary: acc) auto
  ultimately show ?thesis
    using carries_parsed [OF c, of "\<lambda>t ts. ts @ [t]" "[]"] assms(2,3) by simp
qed

lemma pado_cookie_found:
  assumes "padi_typed v" "length addr = 6" "length (sv_hwaddr sv) = 6"
    and f: "f = pado_frame e sv addr (vi_host_uniq v) (vi_relay_sid v) (vi_service_name v) mp"
    and ts: "for_tags (\<lambda>t ts. ts @ [t]) (frame_bytes f) (pppoe_length (frame_bytes f)) 0 [] = Ok ts"
    and t: "t \<in> set ts" "tag_type t = TAG_AC_COOKIE"
  shows "tag_data t = pado_cookie e sv addr (vi_host_uniq v) (vi_relay_sid v)"
proof -
  have "t \<in> set (pado_tags e sv addr (vi_host_uniq v) (vi_relay_sid v) (vi_service_name v) mp)"
    using pado_parsed [OF assms(1-4)] ts t(1) set_roomy by fastforce
  then show ?thesis
    using t(2) assms(1) by (auto simp: pado_tags_def padi_typed_def opt_list_def split: option.splits if_splits)
qed

text \<open>A PADR with a valid cookie that was not used before, while a session number is free.\<close>

lemma padr_session:
  assumes g: "get_serv w (sv_id sv) = Some sv"
    and e: "\<not> oe_shutdown e" "\<not> at_capacity e" "oe_alloc e" "h_dest pack \<noteq> bc_addr" "pppoe_sid pack = 0"
    and u: "padr_tags (oe_conf e) pack = Ok u" "vr_cookie u = Some t" "tag_len t = 24" "vr_service_count u = 1"
      "vr_service_match u \<or> oc_accept_any_service (oe_conf e)"
    and c: "check_cookie (oe_cr e) (tv_sec (oe_now e)) (sv_secret sv) (sv_des_ks sv) (sv_hwaddr sv) (h_source pack) (tag_data t) (vr_relay_sid u)"
    and new: "find_channel sv (tag_data t) = None" and sid: "fst (sid_loop 1024 (o_sid_map w) (o_sid_idx w)) \<noteq> 0"
  defines "w' \<equiv> pppoe_recv_PADR e sv pack w"
  shows "\<exists>sv' cn. get_serv w' (sv_id sv) = Some sv' \<and> cn \<in> set (sv_conns sv') \<and> cn_addr cn = h_source pack \<and> cn_sid cn \<noteq> 0 \<and>
    cn_calls cn = [Do_connect] \<and> o_sent w' = o_sent w @ [(sv_id sv, pads_frame e sv cn)]"
proof -
  obtain sid m idx where s: "sid_loop 1024 (o_sid_map w) (o_sid_idx w) = (sid, m, idx)" "sid \<noteq> 0"
    using sid by (metis fst_conv prod_cases3)
  define w1 where "w1 = upd_stat (\<lambda>s. s\<lparr>ps_PADR_recv := ps_PADR_recv s + 1\<rparr>) w"
  define cn where "cn = new_conn e sv (h_source pack) (vr_host_uniq u) (vr_relay_sid u) (vr_service_name u) (vr_tr101 u) (tag_data t)
    (vr_max_payload u) (o_next w) sid"
  define w2 where "w2 = (upd_serv (sv_id sv) (link_conn cn) w1)\<lparr>o_sid_map := m, o_sid_idx := idx, o_next := o_next w + 1,
    o_admitted := o_admitted w @ [(o_next w, sv_id sv, pack, oe_now e)]\<rparr>"
  have cn: "cn_id cn = o_next w" "cn_addr cn = h_source pack" "cn_sid cn = sid" "cn_calls cn = []"
    by (simp_all add: cn_def new_conn_def Let_def)
  have w1: "o_sid_map w1 = o_sid_map w" "o_sid_idx w1 = o_sid_idx w" "o_next w1 = o_next w" "o_admitted w1 = o_admitted w"
    "o_servs w1 = o_servs w" "o_sent w1 = o_sent w"
    by (simp_all add: w1_def upd_stat_def)
  have al: "allocate_channel e sv (h_source pack) (vr_host_uniq u) (vr_relay_sid u) (vr_service_name u) (vr_tr101 u) (tag_data t)
      (vr_max_payload u) w1 = (Some cn, (upd_serv (sv_id sv) (link_conn cn) (w1\<lparr>o_sid_map := m, o_sid_idx := idx\<rparr>))\<lparr>o_next := o_next w + 1\<rparr>)"
    using e(3) s by (simp add: allocate_channel_def w1 cn_def Let_def)
  have "w' = padr_admit e sv pack u (tag_data t) w1"
    using e u c by (simp add: w'_def pppoe_recv_PADR_def w1_def Let_def)
  also have "\<dots> = call_conn (sv_id sv) (o_next w) Do_connect (pppoe_send_PADS e sv cn w2)"
  proof -
    let ?w = "(upd_serv (sv_id sv) (link_conn cn) (w1\<lparr>o_sid_map := m, o_sid_idx := idx\<rparr>))\<lparr>o_next := o_next w + 1\<rparr>"
    have "?w\<lparr>o_admitted := o_admitted ?w @ [(cn_id cn, sv_id sv, pack, oe_now e)]\<rparr> = w2"
      by (rule pppoe_world.equality) (simp_all add: w2_def upd_serv_def w1 cn(1))
    then show ?thesis
      using u(5) new unfolding padr_admit_def al Let_def by (auto simp: cn(1))
  qed
  finally have w': "w' = call_conn (sv_id sv) (o_next w) Do_connect (pppoe_send_PADS e sv cn w2)" .
  have "get_serv (upd_serv (sv_id sv) (link_conn cn) w1) (sv_id sv) = Some (link_conn cn sv)"
    using g w1(5) by (intro get_serv_upd) (simp_all add: get_serv_def link_conn_def)
  then have g2: "get_serv (pppoe_send_PADS e sv cn w2) (sv_id sv) = Some (link_conn cn sv)"
    by (simp add: w2_def get_serv_def pppoe_send_PADS_def pppoe_send_def upd_stat_def)
  let ?f = "\<lambda>cn. cn\<lparr>cn_calls := cn_calls cn @ [Do_connect]\<rparr>"
  let ?sv = "(link_conn cn sv)\<lparr>sv_conns := map (\<lambda>cn. if cn_id cn = o_next w then ?f cn else cn) (sv_conns (link_conn cn sv))\<rparr>"
  have "get_serv w' (sv_id sv) = Some ?sv"
    unfolding w' call_conn_def upd_cn_def by (rule get_serv_upd [OF g2]) (simp add: link_conn_def)
  moreover have "cn\<lparr>cn_calls := [Do_connect]\<rparr> \<in> set (sv_conns ?sv)"
    using cn by (simp add: link_conn_def)
  moreover have "o_sent w' = o_sent w @ [(sv_id sv, pads_frame e sv (cn\<lparr>cn_calls := [Do_connect]\<rparr>))]"
    by (simp add: w' call_conn_def upd_cn_def upd_serv_def pppoe_send_PADS_def pppoe_send_def upd_stat_def w2_def w1 pads_frame_def Let_def)
  ultimately show ?thesis using cn s(2) by (intro exI [of _ ?sv] exI [of _ "cn\<lparr>cn_calls := [Do_connect]\<rparr>"]) simp
qed

section \<open>Properties\<close>

text \<open>
  C14. The cookie of a PADO opens a session. A client that got a PADO in answer to its PADI, and that returns the cookie it finds there in a
  PADR to the same server before the cookie expires, with the tag of its relay unchanged and the name of one service, gets a session:
  a connection with its address and a session number other than 0 is created and told to the client in a PADS, unless the cookie was used
  before, the server takes no sessions at that time or all numbers are in use.
\<close>

theorem pado_leads_to_session:
  assumes "crypto_ok (oe_cr e)" "length (h_source padi) = 6" "length (sv_hwaddr sv0) = 6"
    and "for_tags (padi_tag (oe_conf e)) padi (pppoe_length padi) 0 (padi_vars0 (oe_conf e)) = Ok v"
    and "f = pado_frame e sv0 (h_source padi) (vi_host_uniq v) (vi_relay_sid v) (vi_service_name v) mp"
    and "for_tags (\<lambda>t ts. ts @ [t]) (frame_bytes f) (pppoe_length (frame_bytes f)) 0 [] = Ok ts" "t \<in> set ts" "tag_type t = TAG_AC_COOKIE"
    and "0 \<le> tv_sec (oe_now e) + oc_cookie_timeout (oe_conf e)" "tv_sec (oe_now e) + oc_cookie_timeout (oe_conf e) < 2 ^ 32"
    and "get_serv w (sv_id sv) = Some sv" "sv_secret sv = sv_secret sv0" "sv_des_ks sv = sv_des_ks sv0" "sv_hwaddr sv = sv_hwaddr sv0"
    and "oe_cr e' = oe_cr e" "tv_sec (oe_now e') \<le> tv_sec (oe_now e) + oc_cookie_timeout (oe_conf e)"
    and "\<not> oe_shutdown e'" "\<not> at_capacity e'" "oe_alloc e'"
    and "h_source padr = h_source padi" "h_dest padr \<noteq> bc_addr" "pppoe_sid padr = 0"
    and "padr_tags (oe_conf e') padr = Ok u" "vr_cookie u = Some t" "vr_relay_sid u = vi_relay_sid v" "vr_service_count u = 1"
    and "vr_service_match u \<or> oc_accept_any_service (oe_conf e')"
    and "find_channel sv (tag_data t) = None" "fst (sid_loop 1024 (o_sid_map w) (o_sid_idx w)) \<noteq> 0"
  shows "\<exists>sv' cn. get_serv (pppoe_recv_PADR e' sv padr w) (sv_id sv) = Some sv' \<and> cn \<in> set (sv_conns sv') \<and>
    cn_addr cn = h_source padi \<and> cn_sid cn \<noteq> 0 \<and> cn_calls cn = [Do_connect] \<and>
    o_sent (pppoe_recv_PADR e' sv padr w) = o_sent w @ [(sv_id sv, pads_frame e' sv cn)]"
proof -
  have d: "tag_data t = pado_cookie e sv0 (h_source padi) (vi_host_uniq v) (vi_relay_sid v)"
    using pado_cookie_found [OF padi_tags_typed [OF assms(4)] assms(2,3,5-8)] .
  note gen = check_generated_cookie [OF assms(1,9,10), of _ "sv_secret sv0" "sv_des_ks sv0" "sv_hwaddr sv0" "h_source padi" "vi_host_uniq v"
      "vi_relay_sid v"]
  have c: "check_cookie (oe_cr e') (tv_sec (oe_now e')) (sv_secret sv) (sv_des_ks sv) (sv_hwaddr sv) (h_source padr) (tag_data t) (vr_relay_sid u)"
    using gen(1) [OF assms(16)] unfolding d pado_cookie_def assms by simp
  have "tag_len t = 24"
    using gen(2) [OF assms(16)] unfolding tag_len_def d pado_cookie_def by simp
  then show ?thesis
    using padr_session [OF assms(11,17-19,21-24) _ assms(26,27) c assms(28,29)] assms(20) by simp
qed

definition run_padi :: bytes where "run_padi = run_frame run_hw CODE_PADI [blank_service]"

lemma run_padi_tags:
  "h_source run_padi = run_client"
  "for_tags (padi_tag run_conf) run_padi (pppoe_length run_padi) 0 (padi_vars0 run_conf) = Ok ((padi_vars0 run_conf)\<lparr>vi_service_name := Some blank_service\<rparr>)"
proof -
  have l: "length (tags_bytes [blank_service]) = 4" "tags_fit [blank_service]"
    using run_cookie_len by (simp_all add: tags_fit_def) (simp add: blank_service_def)
  then show "h_source run_padi = run_client"
    using run_frame_fields(2) [of run_hw "[blank_service]" CODE_PADI] run_tags(3) by (simp add: run_padi_def)
  show "for_tags (padi_tag run_conf) run_padi (pppoe_length run_padi) 0 (padi_vars0 run_conf) = Ok ((padi_vars0 run_conf)\<lparr>vi_service_name := Some blank_service\<rparr>)"
    unfolding run_padi_def using l run_tags(3)
    by (subst run_frame_tags) (simp_all add: padi_tag_def run_env_fields, simp add: blank_service_def)
qed

theorem pado_leads_to_session_witness:
  "\<exists>sv cn. get_serv (pppoe_recv_PADR run_env run_sv run_padr run_w1) 0 = Some sv \<and> cn \<in> set (sv_conns sv) \<and> cn_addr cn = run_client \<and> cn_sid cn \<noteq> 0"
proof -
  let ?v = "(padi_vars0 run_conf)\<lparr>vi_service_name := Some blank_service\<rparr>"
  let ?f = "pado_frame run_env run_sv run_client (vi_host_uniq ?v) (vi_relay_sid ?v) (vi_service_name ?v) 0"
  have l: "length run_client = 6" by (simp add: run_client_def)
  have v: "vi_host_uniq ?v = None" "vi_relay_sid ?v = None" "vi_service_name ?v = Some blank_service"
    by (simp_all add: padi_vars0_def)
  have p: "for_tags (\<lambda>t ts. ts @ [t]) (frame_bytes ?f) (pppoe_length (frame_bytes ?f)) 0 [] =
      Ok (roomy 0 (pado_tags run_env run_sv run_client (vi_host_uniq ?v) (vi_relay_sid ?v) (vi_service_name ?v) 0))"
    using pado_parsed [OF padi_tags_typed [OF run_padi_tags(2)] l _ refl, of run_sv run_env 0] run_tags(3) run_sv_fields(2) by simp
  have c: "run_cookie \<in> set (roomy 0 (pado_tags run_env run_sv run_client (vi_host_uniq ?v) (vi_relay_sid ?v) (vi_service_name ?v) 0))"
    using run_cookie_len by (simp add: v pado_tags_def run_env_fields opt_list_def pado_cookie_def run_sv_fields run_cookie_def tag_len_def)
  show ?thesis
    using pado_leads_to_session [of run_env run_padi run_sv ?v ?f 0 _ run_cookie run_w1 run_sv run_env run_padr run_vars, OF _ _ _ _ _ p c]
      run_crypto_ok l run_tags(3) run_padi_tags run_padr_fields run_padr_tags run_env_fields run_vars_fields run_hw_not_bc run_w1_fields run_sv_fields
      run_sid v
    by (auto simp: run_cookie_def)
qed

lemma run_w3: "run_w3 = pppoe_recv_PADR run_env run_sv run_padr run_w1"
proof -
  let ?sv = "run_sv\<lparr>sv_calls := [Do_read run_padr]\<rparr>"
  have sv: "?sv\<lparr>sv_calls := []\<rparr> = run_sv" by (rule pppoe_serv.equality) (simp_all add: run_sv_fields)
  have u: "upd_serv 0 (\<lambda>s. s\<lparr>sv_calls := []\<rparr>) run_w2 = run_w1"
    using run_sv_fields(1) sv by (simp add: run_w2 upd_serv_def run_w1)
  have g: "get_serv run_w2 0 = Some ?sv" using run_sv_fields(1) by (simp add: run_w2 get_serv_def)
  have c: "sv_calls ?sv = [Do_read run_padr]" by simp
  have "serv_run run_env 0 run_w2 = pppoe_serv_read run_env run_sv run_padr run_w1"
    unfolding serv_run_def g option.case c list.case u sv Let_def serv_call.case ..
  then show ?thesis
    unfolding run_w3_def pppoe_exec.simps pppoe_serv_read_def run_padr_fields(4) by simp
qed

lemma get_serv_mem: "get_serv w k = Some sv \<Longrightarrow> sv \<in> set (o_servs w)"
  by (auto simp: get_serv_def find_Some_iff)

lemma run_w3_session: "\<exists>sv cn. sv \<in> set (o_servs run_w3) \<and> cn \<in> set (sv_conns sv)"
proof -
  obtain sv cn where "get_serv run_w3 0 = Some sv" "cn \<in> set (sv_conns sv)"
    using padr_session [of run_w1 run_sv run_env run_padr run_vars run_cookie] run_padr_fields run_padr_tags run_cookie_valid run_sv_fields
      run_cookie_len run_sid run_w1_fields run_env_fields run_vars_fields run_hw_not_bc unfolding run_w3 by auto
  then show ?thesis using get_serv_mem by blast
qed

lemma released_PADR: "o_released (pppoe_recv_PADR e sv pack w) = o_released w"
proof -
  have "o_released (padr_admit e sv pack v ck x) = o_released x" for v ck x
    by (simp add: padr_admit_def allocate_channel_def Let_def pppoe_send_err_def pppoe_send_PADS_def pppoe_send_def upd_stat_def call_conn_def
        upd_cn_def upd_serv_def split: option.splits prod.splits)
  then show ?thesis
    by (simp add: pppoe_recv_PADR_def Let_def upd_stat_def o_crash_def split: parse.splits option.splits)
qed



text \<open>
  C15. Session numbers are unique, as long as the release works: in every history in which only numbers were given back that are below 31
  modulo 64, the connections of all servers have pairwise different numbers between 1 and 65534.
\<close>

theorem pppoe_session_numbers_unique:
  assumes "pppoe_reach cr undef w" "\<forall>sid \<in> set (o_released w). unat sid mod 64 < 31"
  shows "distinct (concat (map (\<lambda>sv. map cn_sid (sv_conns sv)) (o_servs w))) \<and>
    (\<forall>sv \<in> set (o_servs w). \<forall>cn \<in> set (sv_conns sv). 0 < unat (cn_sid cn) \<and> unat (cn_sid cn) < 65535)"
proof -
  have "sids_ok (o_sid_map w) (cviews (sviews w))"
    using inv_reach [OF assms(1)] assms(2) by (simp add: pppoe_inv_def released_low_def list_all_iff)
  moreover have "map v_sid (cviews (sviews w)) = concat (map (\<lambda>sv. map cn_sid (sv_conns sv)) (o_servs w))"
    by (simp add: cviews_def sviews_def sview_def cview_def map_concat comp_def)
  ultimately show ?thesis
    by (fastforce simp: sids_ok_def cviews_def sviews_def sview_def cview_def)
qed

theorem pppoe_session_numbers_unique_witness:
  "(\<exists>sv cn. sv \<in> set (o_servs run_w3) \<and> cn \<in> set (sv_conns sv)) \<and> distinct (concat (map (\<lambda>sv. map cn_sid (sv_conns sv)) (o_servs run_w3)))"
proof
  have "o_released run_w1 = []" by (simp add: run_w1 pppoe_init_def)
  then have "o_released run_w3 = []" unfolding run_w3 released_PADR .
  then have "\<forall>sid \<in> set (o_released run_w3). unat sid mod 64 < 31" by (simp only: list.set) blast
  from pppoe_session_numbers_unique [OF disc_run_reach(3) this]
  show "distinct (concat (map (\<lambda>sv. map cn_sid (sv_conns sv)) (o_servs run_w3)))" by (rule conjunct1)
qed (rule run_w3_session)

lemma sid_loop_hit:
  "0 < n \<Longrightarrow> m ! idx \<noteq> 0 \<Longrightarrow> \<exists>idx'. sid_loop n m idx =
     (of_nat (idx * 64 + ctzl (m ! idx)), m[idx := m ! idx AND NOT (push_bit (ctzl (m ! idx)) 1)], idx')"
  by (cases n) (auto simp: Let_def)

lemma get_serv_disconnect:
  assumes "get_serv w k = Some sv" "\<not> sv_freed sv" "get_conn sv c = Some cn"
  shows "get_serv (disconnect e k c w) k = Some (unlink_conn cn sv)"
    "o_sid_map (disconnect e k c w) = sid_release (oe_shl e) (cn_sid cn) (o_sid_map w)"
proof -
  define w1 where "w1 = (if cn_started cn then log_ctrl c (Ses_terminate True) (active_dec w)
                        else if cn_starting cn then upd_stat (\<lambda>s. s\<lparr>ps_starting := ps_starting s - 1\<rparr>) w
                        else w)"
  define w2 where "w2 = log_ctrl c Ctrl_finished (pppoe_send_PADT e sv cn w1)"
  have "o_servs w1 = o_servs w" "o_sid_map w1 = o_sid_map w"
    by (simp_all add: w1_def log_ctrl_def active_dec_def upd_stat_def o_crash_def split: parse.splits)
  then have w2: "o_servs w2 = o_servs w" "o_sid_map w2 = o_sid_map w"
    by (simp_all add: w2_def log_ctrl_def pppoe_send_PADT_def pppoe_send_def Let_def)
  have d: "disconnect e k c w = (upd_serv k (unlink_conn cn) w2)\<lparr>o_sid_map := sid_release (oe_shl e) (cn_sid cn) (o_sid_map w2),
      o_released := o_released w2 @ [cn_sid cn]\<rparr>"
    using assms by (simp only: disconnect_def option.case Let_def w1_def [symmetric] w2_def [symmetric]) (simp add: upd_serv_def)
  have "sv_id sv = k" using assms(1) by (auto simp: get_serv_def find_Some_iff)
  then have "get_serv (upd_serv k (unlink_conn cn) w2) k = Some (unlink_conn cn sv)"
    using assms(1) w2 by (intro get_serv_upd) (simp_all add: get_serv_def unlink_conn_fields)
  then show "get_serv (disconnect e k c w) k = Some (unlink_conn cn sv)"
    "o_sid_map (disconnect e k c w) = sid_release (oe_shl e) (cn_sid cn) (o_sid_map w)"
    unfolding d using w2 by (simp_all add: get_serv_def)
qed

text \<open>
  C30. Otherwise a number is given out twice. The release shifts an \<^verbatim>\<open>int\<close>: the number 31 modulo 64 sets the sign bit, whose extension marks
  all higher numbers of the same word as free. When all numbers of a word are in use and the session with the number 31 of that word ends,
  the second session that then gets its number from the word gets 32, which another session still has.
\<close>

theorem session_number_given_twice:
  assumes "get_serv w k = Some sv" "\<not> sv_freed sv" "get_conn sv c = Some cn" "unat (cn_sid cn) = 64 * i + 31"
    and "other \<in> set (sv_conns sv)" "cn_id other \<noteq> c" "unat (cn_sid other) = 64 * i + 32"
    and "length (o_sid_map w) = 1024" "i < 1024" "\<forall>b \<le> 32. \<not> bit (o_sid_map w ! i) b"
    and "sid_loop 1024 (o_sid_map (disconnect e k c w)) i = (sid1, m1, idx1)" "sid_loop 1024 m1 i = (sid2, m2, idx2)"
  shows "sid2 = cn_sid other \<and> (\<exists>sv'. get_serv (disconnect e k c w) k = Some sv' \<and> other \<in> set (sv_conns sv'))"
proof
  note d = get_serv_disconnect [OF assms(1-3), of e]
  let ?m = "sid_release (oe_shl e) (cn_sid cn) (o_sid_map w)"
  define X :: u64 where "X = scast (push_bit 31 1 :: u32)"
  have b: "bit X n \<longleftrightarrow> 31 \<le> n \<and> n < 64" for n
    unfolding X_def bit_signed_iff bit_push_bit_iff by (auto simp: min_def)
  have mi: "?m ! i = o_sid_map w ! i OR X" "length ?m = 1024"
    using assms(4,8,9) by (simp_all add: sid_release_def int_shl_def Let_def X_def)
  have c1: "ctzl (?m ! i) = 31"
    unfolding ctzl_cases mi bit_or_iff using b assms(10) by auto
  then have "?m ! i \<noteq> 0" using ctzl_cases [of "?m ! i" 31] by auto
  then have m1: "m1 = ?m[i := ?m ! i AND NOT (push_bit 31 1)]"
    using sid_loop_hit [of 1024 ?m i] assms(11) c1 unfolding d(2) by auto
  then have m1i: "m1 ! i = (o_sid_map w ! i OR X) AND NOT (push_bit 31 1)"
    using assms(9) mi by simp
  have c2: "ctzl (m1 ! i) = 32"
    unfolding ctzl_cases m1i bit_and_iff bit_or_iff bit_not_iff bit_push_bit_iff using b assms(10) by auto
  then have "m1 ! i \<noteq> 0" using ctzl_cases [of "m1 ! i" 32] by auto
  then have "sid2 = of_nat (64 * i + 32)"
    using sid_loop_hit [of 1024 m1 i] assms(12) c2 by (auto simp: mult.commute)
  moreover have "cn_sid other = of_nat (unat (cn_sid other))" by simp
  ultimately show "sid2 = cn_sid other" unfolding assms(7) by (simp only:)
  have "cn_id cn = c" using assms(3) by (auto simp: get_conn_def find_Some_iff)
  then show "\<exists>sv'. get_serv (disconnect e k c w) k = Some sv' \<and> other \<in> set (sv_conns sv')"
    using d(1) assms(5,6) by (auto simp: unlink_conn_fields)
qed

definition twin_conn :: "nat \<Rightarrow> u16 \<Rightarrow> pppoe_conn" where
  "twin_conn c sid = new_conn run_env run_sv run_client None None None None [] 0 c sid"

definition twin_world :: pppoe_world where
  "twin_world = run_w1\<lparr>o_servs := [run_sv\<lparr>sv_conns := [twin_conn 1 31, twin_conn 2 32], sv_conn_cnt := 2\<rparr>], o_sid_map := replicate 1024 0\<rparr>"

theorem session_number_given_twice_witness:
  "fst (sid_loop 1024 (fst (snd (sid_loop 1024 (o_sid_map (disconnect run_env 0 1 twin_world)) 0))) 0) = 32"
proof -
  let ?sv = "run_sv\<lparr>sv_conns := [twin_conn 1 31, twin_conn 2 32], sv_conn_cnt := 2\<rparr>"
  have t: "cn_id (twin_conn c s) = c" "cn_sid (twin_conn c s) = s" for c s
    by (simp_all add: twin_conn_def new_conn_def Let_def)
  obtain s1 m1 i1 where 1: "sid_loop 1024 (o_sid_map (disconnect run_env 0 1 twin_world)) 0 = (s1, m1, i1)" by (rule prod_cases3)
  obtain s2 m2 i2 where 2: "sid_loop 1024 m1 0 = (s2, m2, i2)" by (rule prod_cases3)
  have w: "get_serv twin_world 0 = Some ?sv" "length (o_sid_map twin_world) = 1024" "o_sid_map twin_world ! 0 = 0"
    "get_conn ?sv 1 = Some (twin_conn 1 31)" "twin_conn 2 32 \<in> set (sv_conns ?sv)"
    using run_sv_fields by (simp_all add: twin_world_def get_serv_def get_conn_def t)
  have "s2 = cn_sid (twin_conn 2 32)"
    using session_number_given_twice [OF w(1) _ w(4) _ w(5) _ _ w(2) _ _ 1 2] run_sv_fields w(3) by (simp add: t)
  then show ?thesis using 1 2 t by simp
qed

section \<open>No crash\<close>

lemma crashed_simps [simp]:
  "o_crashed (upd_stat f w) = o_crashed w" "o_crashed (upd_serv k g w) = o_crashed w" "o_crashed (pppoe_send k fr w) = o_crashed w"
  "o_crashed (call_conn k c ca w) = o_crashed w"
  by (simp_all add: upd_stat_def upd_serv_def pppoe_send_def call_conn_def upd_cn_def)

lemma crashed_send [simp]:
  "o_crashed (pppoe_send_PADO e sv a hu rs sn mp w) = o_crashed w" "o_crashed (pppoe_send_err e sv a hu rs co ty w) = o_crashed w"
  "o_crashed (pppoe_send_PADS e sv cn w) = o_crashed w"
  by (simp_all add: pppoe_send_PADO_def pppoe_send_err_def pppoe_send_PADS_def Let_def)






end
