(* ===== verification/PppoeConf.thy ===== *)
theory PppoeConf
  imports PppoeLife
begin

text \<open>
  The options of the PPPoE server: \<^verbatim>\<open>load_config\<close> on the section \<^verbatim>\<open>pppoe\<close> of the configuration, the values the variables have before it
  runs, and \<^verbatim>\<open>load_interfaces\<close>, which \<^verbatim>\<open>pppoe_init\<close> calls first. The part of \<^verbatim>\<open>load_config\<close> that talks to the VLAN monitor is left out.
\<close>

datatype mppe = MPPE_UNSET | MPPE_ALLOW | MPPE_DENY | MPPE_PREFER | MPPE_REQUIRE

record pppoe_config = pppoe_conf +
  oc_verbose :: int
  oc_session_timeout :: int
  oc_mppe :: mppe
  oc_ip_pool :: "string option"
  oc_ipv6_pool :: "string option"
  oc_dpv6_pool :: "string option"
  oc_ifname :: "string option"
  oc_vlan_name :: string

definition conf_start :: pppoe_config where
  "conf_start = \<lparr>oc_service_name = [], oc_accept_any_service = False, oc_accept_blank_service = False, oc_ac_name = [], oc_ifname_in_sid = 0,
     oc_tr101 = True, oc_padi_limit = 0, oc_sid_uppercase = False, oc_called_sid = CSID_MAC, oc_cookie_timeout = 0, oc_vlan_timeout = 60,
     oc_verbose = 0, oc_session_timeout = 0, oc_mppe = MPPE_UNSET, oc_ip_pool = None, oc_ipv6_pool = None, oc_dpv6_pool = None,
     oc_ifname = None, oc_vlan_name = ''''\<rparr>"

text \<open>The section as the function \<^verbatim>\<open>conf_get_opt\<close> of its options; some have a second name.\<close>

definition opt_or :: "(string \<Rightarrow> string option) \<Rightarrow> string \<Rightarrow> string \<Rightarrow> string option" where
  "opt_or get a b = (case get a of None \<Rightarrow> get b | Some v \<Rightarrow> Some v)"

definition c_bytes :: "string \<Rightarrow> bytes" where
  "c_bytes = map of_char"

text \<open>
  The names of the services: the parts between commas that are not empty (\<^verbatim>\<open>strtok\<close>). The array has 255 places and the loop fills them all;
  the final \<^verbatim>\<open>NULL\<close> is then written behind it.
\<close>

definition service_names :: "string \<Rightarrow> bytes list parse" where
  "service_names opt =
     (let ps = filter (\<lambda>p. p \<noteq> []) (commas opt)
      in if length ps \<ge> 255 then Fault else Ok (map c_bytes ps))"

definition load_names :: "(string \<Rightarrow> string option) \<Rightarrow> pppoe_config \<Rightarrow> pppoe_config parse" where
  "load_names get cf =
     (let cf = (case get ''verbose'' of None \<Rightarrow> cf | Some v \<Rightarrow> cf\<lparr>oc_verbose := atoi v\<rparr>);
          cf = (case get ''accept-any-service'' of None \<Rightarrow> cf | Some v \<Rightarrow> cf\<lparr>oc_accept_any_service := (atoi v \<noteq> 0)\<rparr>);
          cf = (case get ''accept-blank-service'' of None \<Rightarrow> cf | Some v \<Rightarrow> cf\<lparr>oc_accept_blank_service := (atoi v \<noteq> 0)\<rparr>);
          cf = (case opt_or get ''ac-name'' ''AC-Name'' of
                  None \<Rightarrow> cf\<lparr>oc_ac_name := c_bytes ''accel-ppp''\<rparr> | Some v \<Rightarrow> cf\<lparr>oc_ac_name := c_bytes v\<rparr>)
      in case opt_or get ''service-name'' ''Service-Name'' of
           None \<Rightarrow> Ok cf
         | Some v \<Rightarrow> bind_parse (service_names v) (\<lambda>ns. Ok (cf\<lparr>oc_service_name := ns\<rparr>)))"

definition ifname_in_sid :: "string \<Rightarrow> int \<Rightarrow> int" where
  "ifname_in_sid v old =
     (if v = ''calling-sid'' then 1 else if v = ''called-sid'' then 2 else if v = ''both'' then 3
      else if atoi v \<ge> 0 then atoi v else old)"

definition mppe_of :: "string option \<Rightarrow> mppe" where
  "mppe_of v =
     (if v = Some ''deny'' then MPPE_DENY else if v = Some ''allow'' then MPPE_ALLOW else if v = Some ''prefer'' then MPPE_PREFER
      else if v = Some ''require'' then MPPE_REQUIRE else MPPE_UNSET)"

definition called_sid_of :: "string option \<Rightarrow> csid" where
  "called_sid_of v =
     (if v = Some ''ifname'' then CSID_IFNAME else if v = Some ''ifname:mac'' then CSID_IFNAME_MAC else CSID_MAC)"

definition load_rest :: "(string \<Rightarrow> string option) \<Rightarrow> pppoe_config \<Rightarrow> pppoe_config" where
  "load_rest get cf =
     (let cf = (case get ''ifname-in-sid'' of None \<Rightarrow> cf | Some v \<Rightarrow> cf\<lparr>oc_ifname_in_sid := ifname_in_sid v (oc_ifname_in_sid cf)\<rparr>);
          cf = (case get ''tr101'' of None \<Rightarrow> cf | Some v \<Rightarrow> cf\<lparr>oc_tr101 := (atoi v \<noteq> 0)\<rparr>);
          cf = (case get ''padi-limit'' of None \<Rightarrow> cf | Some v \<Rightarrow> cf\<lparr>oc_padi_limit := atoi v\<rparr>);
          cf = (case get ''sid-uppercase'' of None \<Rightarrow> cf | Some v \<Rightarrow> cf\<lparr>oc_sid_uppercase := (atoi v \<noteq> 0)\<rparr>);
          cf = cf\<lparr>oc_cookie_timeout := (case get ''cookie-timeout'' of None \<Rightarrow> 5 | Some v \<Rightarrow> atoi v)\<rparr>;
          cf = cf\<lparr>oc_session_timeout := (case get ''session-timeout'' of None \<Rightarrow> 0 | Some v \<Rightarrow> atoi v)\<rparr>;
          cf = cf\<lparr>oc_mppe := mppe_of (get ''mppe''), oc_ip_pool := get ''ip-pool'', oc_ipv6_pool := get ''ipv6-pool'',
                  oc_dpv6_pool := get ''ipv6-pool-delegate'', oc_ifname := get ''ifname'', oc_called_sid := called_sid_of (get ''called-sid''),
                  oc_vlan_name := (case get ''vlan-name'' of None \<Rightarrow> ''%I.%N'' | Some v \<Rightarrow> v)\<rparr>
      in case get ''vlan-timeout'' of None \<Rightarrow> cf | Some v \<Rightarrow> if atoi v \<ge> 0 then cf\<lparr>oc_vlan_timeout := atoi v\<rparr> else cf)"

text \<open>\<^verbatim>\<open>load_config\<close>, with the number of active sessions for the delay of the PADO. A delay that does not parse changes nothing.\<close>

definition pppoe_load_config ::
    "(string \<Rightarrow> string option) \<Rightarrow> nat \<Rightarrow> pppoe_config \<times> dpado \<Rightarrow> (pppoe_config \<times> dpado) parse" where
  "pppoe_load_config get active c =
     bind_parse (load_names get (fst c)) (\<lambda>cf.
       let dp = (case opt_or get ''pado-delay'' ''PADO-Delay'' of
                   None \<Rightarrow> snd c
                 | Some v \<Rightarrow> (case dpado_parse active v of None \<Rightarrow> snd c | Some dp \<Rightarrow> dp))
       in Ok (load_rest get cf, dp))"

definition load_interfaces :: "pppoe_env \<Rightarrow> (string \<times> string option) list \<Rightarrow> pppoe_world \<Rightarrow> pppoe_world" where
  "load_interfaces e items =
     fold (\<lambda>(name, val) w. if name = ''interface'' then (case val of None \<Rightarrow> w | Some v \<Rightarrow> pppoe_server_start e v w) else w) items"

section \<open>The limit on PADI packets\<close>

text \<open>A world in which no server has a limit of its own.\<close>

definition no_limits :: "pppoe_world \<Rightarrow> bool" where
  "no_limits w \<longleftrightarrow> (\<forall>sv \<in> set (o_servs w). sv_padi_limit sv = 0)"

lemma no_limits_crash [simp]: "no_limits (o_crash w) \<longleftrightarrow> no_limits w"
  by (simp add: no_limits_def o_crash_def)

lemma no_limits_server_start:
  assumes "no_limits w" "opt = [] \<or> hd opt \<noteq> CHR '',''" "oc_padi_limit (oe_conf e) = 0"
  shows "no_limits (server_start e name opt vid vm w)"
proof -
  have "no_limits w'" if "pppoe_disc_start e net i k w = Some w'" for net i k w'
    using that assms(1) by (auto simp: pppoe_disc_start_def no_limits_def split: option.splits if_splits)
  then have "no_limits (w'\<lparr>o_servs := o_servs w' @ [new_serv e k name i 0 net vm], o_next := n\<rparr>)"
    if "pppoe_disc_start e net j l w = Some w'" for net i k w' n j l
    using that by (auto simp: no_limits_def new_serv_def)
  then show ?thesis
    using assms by (auto simp: server_start_def parse_server.simps [of _ opt] split: option.splits)
qed

lemma no_limits_load_interfaces:
  assumes "oc_padi_limit (oe_conf e) = 0" "list_all (\<lambda>(n, v). case v of None \<Rightarrow> True | Some s \<Rightarrow> CHR '','' \<notin> set s) items"
  shows "no_limits w \<Longrightarrow> no_limits (load_interfaces e items w)"
  using assms(2)
proof (induction items arbitrary: w)
  case (Cons it items)
  obtain n v where it: "it = (n, v)" by fastforce
  have "no_limits (pppoe_server_start e s w)" if "CHR '','' \<notin> set s" for s
  proof -
    have n: "before_chr s (CHR '','') = s" using that by (auto simp: before_chr_def takeWhile_eq_all_conv)
    have h: "s = [] \<or> hd s \<noteq> CHR '',''" using that by (cases s) auto
    have "no_limits (fold (\<lambda>l. server_start e (fst l) [] (snd l) False) ls w)" for ls
      using \<open>no_limits w\<close> assms(1) by (induction ls arbitrary: w) (auto intro: no_limits_server_start)
    then show ?thesis
      using n h no_limits_server_start [OF \<open>no_limits w\<close> h assms(1)] \<open>no_limits w\<close>
      by (auto simp: pppoe_server_start_def split: option.splits)
  qed
  then have "no_limits (if n = ''interface'' then (case v of None \<Rightarrow> w | Some v \<Rightarrow> pppoe_server_start e v w) else w)"
    using Cons.prems by (auto simp: it split: option.splits)
  then show ?case
    using Cons.IH Cons.prems(2) by (simp add: load_interfaces_def it)
qed (simp add: load_interfaces_def)

text \<open>
  The servers that \<^verbatim>\<open>pppoe_init\<close> starts get their limit before the option \<^verbatim>\<open>padi-limit\<close> is read. Without a limit of their own they have none,
  and a server without one does not look at the limit of all servers either, whatever the configuration says.
\<close>

lemma global_padi_limit_ignored:
  assumes "oe_conf e = pppoe_conf.truncate conf_start" "list_all (\<lambda>(n, v). case v of None \<Rightarrow> True | Some s \<Rightarrow> CHR '','' \<notin> set s) items"
    and "sv \<in> set (o_servs (load_interfaces e items pppoe_init))"
  shows "check_padi_limit e' sv addr w = check_connlimit e' addr w"
proof -
  have "oc_padi_limit (oe_conf e) = 0" using assms(1) by (simp add: pppoe_conf.truncate_def conf_start_def)
  then have "no_limits (load_interfaces e items pppoe_init)"
    using assms(2) by (intro no_limits_load_interfaces) (simp_all add: no_limits_def pppoe_init_def)
  then show ?thesis using assms(3) by (simp add: no_limits_def check_padi_limit_def)
qed

text \<open>\<^verbatim>\<open>load_config\<close> writes outside the array of the names exactly when it is given 255 names or more.\<close>

lemma load_config_fault_iff:
  "pppoe_load_config get active c = Fault \<longleftrightarrow>
     (\<exists>v. opt_or get ''service-name'' ''Service-Name'' = Some v \<and> 255 \<le> length (filter (\<lambda>p. p \<noteq> []) (commas v)))"
  by (auto simp: pppoe_load_config_def load_names_def service_names_def Let_def split: option.splits)

end
