(* ===== verification/ConnlimitRate.thy ===== *)
theory ConnlimitRate
  imports Connlimit
begin

text \<open>
  The rate that the limiter lets through: the number of accepted attempts of one source within a window of time, whatever the
  other sources do meanwhile.
\<close>

section \<open>Time\<close>

definition ns :: "timespec \<Rightarrow> int" where
  "ns t = tv_sec t * 1000000000 + tv_nsec t"

definition clock_ok :: "timespec \<Rightarrow> bool" where
  "clock_ok t \<longleftrightarrow> 0 \<le> tv_nsec t \<and> tv_nsec t < 1000000000"

lemma quot_bounds:
  assumes "0 < b"
  shows "quot a b * b < a + b" "a - b < quot a b * b"
proof -
  have q: "quot a b = (if 0 \<le> a then a div b else - ((- a) div b))"
    using assms by (auto simp: quot_def sgn_if)
  have m: "x mod b < b" "0 \<le> x mod b" "x div b * b = x - x mod b" for x
    using assms by (simp_all add: minus_mod_eq_div_mult)
  show "quot a b * b < a + b" "a - b < quot a b * b"
    using m [of a] m [of "- a"] assms unfolding q by (cases "0 \<le> a"; simp only: if_True if_False minus_mult_left [symmetric]; linarith)+
qed

lemma ms_between_bounds:
  "ms_between t u * 1000000 < ns t - ns u + 1000000"
  "ns t - ns u - 1000000 < ms_between t u * 1000000"
  using quot_bounds [of 1000000 "tv_nsec t - tv_nsec u"] by (simp_all add: ms_between_def ns_def algebra_simps)

section \<open>The entry of a source\<close>

definition cl_find :: "u64 \<Rightarrow> cl_item list \<Rightarrow> cl_item option" where
  "cl_find k items = find (\<lambda>i. it_key i = k) items"

lemma cl_find_simps [simp]:
  "cl_find k [] = None" "cl_find k (i # is) = (if it_key i = k then Some i else cl_find k is)"
  by (simp_all add: cl_find_def)

lemma cl_find_append: "cl_find k (xs @ ys) = (case cl_find k xs of None \<Rightarrow> cl_find k ys | Some i \<Rightarrow> Some i)"
  by (induction xs) auto

text \<open>What one attempt makes of the entry of its source, and whether it is accepted.\<close>

definition attempt :: "cl_conf \<Rightarrow> timespec \<Rightarrow> u64 \<Rightarrow> cl_item option \<Rightarrow> bool \<times> cl_item" where
  "attempt cf ts k e =
     (case e of
        None \<Rightarrow> (True, \<lparr>it_key = k, it_ts = ts, it_count = 0\<rparr>)
      | Some it \<Rightarrow>
          let d = (word_of_int (ms_between ts (it_ts it)) :: u32)
          in if d \<ge> word_of_int (conf_burst_timeout cf) then (True, it\<lparr>it_ts := ts, it_count := 0\<rparr>)
             else if it_count it + 1 < conf_burst cf then (True, it\<lparr>it_count := it_count it + 1\<rparr>)
             else if d \<ge> word_of_int (conf_limit_timeout cf) then (True, it\<lparr>it_ts := ts, it_count := it_count it + 1\<rparr>)
             else (False, it\<lparr>it_count := it_count it + 1\<rparr>))"

lemma cl_scan_own:
  assumes "cl_find k kept = None"
  shows "case cl_find k items of
           None \<Rightarrow> fst (cl_scan cf k ts kept items) = 1 \<and> cl_find k (snd (cl_scan cf k ts kept items)) = None
         | Some it \<Rightarrow> fst (cl_scan cf k ts kept items) = (if fst (attempt cf ts k (Some it)) then 0 else - 1) \<and>
             cl_find k (snd (cl_scan cf k ts kept items)) = Some (snd (attempt cf ts k (Some it)))"
  using assms
proof (induction items arbitrary: kept)
  case (Cons it items)
  show ?case
  proof (cases "it_key it = k")
    case True
    then show ?thesis using Cons.prems by (auto simp: attempt_def Let_def cl_find_append)
  next
    case False
    then show ?thesis
      using Cons.IH [of kept] Cons.IH [of "kept @ [it]"] Cons.prems by (auto simp: Let_def cl_find_append split: option.splits)
  qed
qed simp

lemma check_own:
  "fst (connlimit_check cf ts k items) = (if fst (attempt cf ts k (cl_find k items)) then 0 else - 1) \<and>
   cl_find k (snd (connlimit_check cf ts k items)) = Some (snd (attempt cf ts k (cl_find k items)))"
  using cl_scan_own [of k "[]" cf ts items]
  by (cases "cl_find k items") (auto simp: connlimit_check_def attempt_def Let_def split: prod.splits if_splits)

lemma cl_scan_passed:
  "k' \<noteq> k \<Longrightarrow> cl_find k kept = Some i \<Longrightarrow> cl_find k (snd (cl_scan cf k' ts kept items)) = Some i"
  by (induction items arbitrary: kept) (auto simp: Let_def cl_find_append)

lemma cl_scan_other:
  assumes "k' \<noteq> k"
    and "\<And>it. cl_find k items = Some it \<Longrightarrow> \<not> (word_of_int (ms_between ts (it_ts it)) :: u32) > word_of_int (conf_burst_timeout cf)"
  shows "cl_find k (snd (cl_scan cf k' ts kept items)) = cl_find k (kept @ items)"
  using assms(2)
proof (induction items arbitrary: kept)
  case (Cons it items)
  show ?case
  proof (cases "it_key it = k")
    case True
    then have "cl_find k (kept @ [it]) = cl_find k (kept @ it # items)"
      by (auto simp: cl_find_append split: option.splits)
    moreover obtain i where "cl_find k (kept @ [it]) = Some i"
      using True by (cases "cl_find k kept") (auto simp: cl_find_append)
    ultimately show ?thesis
      using Cons.prems [of it] assms(1) True cl_scan_passed [of k' k "kept @ [it]" i] by (auto simp: Let_def cl_find_append)
  next
    case False
    then show ?thesis
      using Cons.prems assms(1) Cons.IH [of kept] Cons.IH [of "kept @ [it]"]
      by (auto simp: Let_def cl_find_append split: option.splits)
  qed
qed simp

lemma check_other:
  assumes "k' \<noteq> k"
    and "\<And>it. cl_find k items = Some it \<Longrightarrow> \<not> (word_of_int (ms_between ts (it_ts it)) :: u32) > word_of_int (conf_burst_timeout cf)"
  shows "cl_find k (snd (connlimit_check cf ts k' items)) = cl_find k items"
proof -
  have "cl_find k (snd (cl_scan cf k' ts [] items)) = cl_find k items"
    using cl_scan_other [where kept = "[]", OF assms] by simp
  then show ?thesis
    using assms(1) by (auto simp: connlimit_check_def split: prod.splits)
qed

section \<open>The rate\<close>

fun cl_run :: "cl_conf \<Rightarrow> (timespec \<times> u64) list \<Rightarrow> cl_item list \<Rightarrow> int list" where
  "cl_run cf [] items = []"
| "cl_run cf ((ts, k) # as) items = (case connlimit_check cf ts k items of (r, items) \<Rightarrow> r # cl_run cf as items)"

definition accepted :: "u64 \<Rightarrow> (timespec \<times> u64) list \<Rightarrow> int list \<Rightarrow> nat" where
  "accepted k as rs = length (filter (\<lambda>((_, k'), r). k' = k \<and> r = 0) (zip as rs))"

lemma age_in_window:
  assumes "ns u \<le> ns t" "ns t - ns u \<le> (B - 1) * 1000000" "B < 2 ^ 31"
  shows "0 \<le> ms_between t u" "ms_between t u < B" "uint (word_of_int (ms_between t u) :: u32) = ms_between t u"
proof -
  show a: "0 \<le> ms_between t u" "ms_between t u < B"
    using ms_between_bounds [of t u] assms(1,2) by (simp_all add: algebra_simps)
  then show "uint (word_of_int (ms_between t u) :: u32) = ms_between t u"
    using assms(3) by (simp add: uint_word_of_int)
qed

definition cl_conf_ok :: "cl_conf \<Rightarrow> bool" where
  "cl_conf_ok cf \<longleftrightarrow> 1 \<le> conf_burst cf \<and> 0 < conf_limit_timeout cf \<and> conf_limit_timeout cf < 2 ^ 31 \<and>
     0 < conf_burst_timeout cf \<and> conf_burst_timeout cf < 2 ^ 31"

text \<open>The least number of nanoseconds between two acceptances beyond the burst.\<close>

definition limit_ns :: "cl_conf \<Rightarrow> int" where
  "limit_ns cf = (conf_limit_timeout cf - 1) * 1000000 + 1"

text \<open>What an entry can still be good for until the time \<open>stop\<close>.\<close>

definition credit :: "cl_conf \<Rightarrow> int \<Rightarrow> cl_item \<Rightarrow> int" where
  "credit cf stop it = max 0 (conf_burst cf - 1 - it_count it) + (stop - ns (it_ts it)) div limit_ns cf"

lemma limit_ns_pos: "cl_conf_ok cf \<Longrightarrow> 0 < limit_ns cf"
  by (simp add: cl_conf_ok_def limit_ns_def)

lemma div_step:
  assumes "(0::int) < L" "L \<le> b - a"
  shows "(s - b) div L + 1 \<le> (s - a) div L"
proof -
  have "(s - b) div L + 1 = (s - b + L) div L" using div_add_self2 [of L "s - b"] assms(1) by linarith
  also have "\<dots> \<le> (s - a) div L" using assms by (intro zdiv_mono1) simp_all
  finally show ?thesis .
qed

lemma attempt_credit:
  fixes k :: u64
  assumes ok: "cl_conf_ok cf" and t: "ns (it_ts it) \<le> ns ts" "ns ts \<le> stop"
    and win: "stop - ns (it_ts it) \<le> (conf_burst_timeout cf - 1) * 1000000"
  defines "r \<equiv> attempt cf ts k (Some it)"
  shows "of_bool (fst r) + credit cf stop (snd r) \<le> credit cf stop it"
    and "ns (it_ts it) \<le> ns (it_ts (snd r))" "ns (it_ts (snd r)) \<le> ns ts"
proof -
  let ?m = "ms_between ts (it_ts it)" and ?d = "word_of_int (ms_between ts (it_ts it)) :: u32"
  have "ns ts - ns (it_ts it) \<le> (conf_burst_timeout cf - 1) * 1000000" using t win by simp
  then have m: "0 \<le> ?m" "?m < conf_burst_timeout cf" "uint ?d = ?m"
    using age_in_window [OF t(1)] ok by (simp_all add: cl_conf_ok_def)
  have w: "uint (word_of_int (conf_burst_timeout cf) :: u32) = conf_burst_timeout cf"
    "uint (word_of_int (conf_limit_timeout cf) :: u32) = conf_limit_timeout cf"
    using ok by (simp_all add: cl_conf_ok_def uint_word_of_int)
  have fresh: "\<not> ?d \<ge> word_of_int (conf_burst_timeout cf)"
    using m w(1) by (simp add: word_le_def)
  have late: "limit_ns cf \<le> ns ts - ns (it_ts it)" if "?d \<ge> word_of_int (conf_limit_timeout cf)"
    using that m(3) w(2) ms_between_bounds(1) [of ts "it_ts it"] by (simp add: word_le_def limit_ns_def)
  have step: "(stop - ns ts) div limit_ns cf + 1 \<le> (stop - ns (it_ts it)) div limit_ns cf"
    if "?d \<ge> word_of_int (conf_limit_timeout cf)"
    using div_step [OF limit_ns_pos [OF ok] late [OF that]] .
  show "of_bool (fst r) + credit cf stop (snd r) \<le> credit cf stop it"
    using fresh step by (auto simp: r_def attempt_def Let_def credit_def)
  show "ns (it_ts it) \<le> ns (it_ts (snd r))" "ns (it_ts (snd r)) \<le> ns ts"
    using fresh t by (auto simp: r_def attempt_def Let_def)
qed

lemma run_credit:
  assumes ok: "cl_conf_ok cf" and "cl_find k items = Some it"
    and "sorted (ns (it_ts it) # map (\<lambda>a. ns (fst a)) as)" "\<forall>a \<in> set as. ns (fst a) \<le> stop" "ns (it_ts it) \<le> stop"
    and "stop - ns (it_ts it) \<le> (conf_burst_timeout cf - 1) * 1000000"
  shows "int (accepted k as (cl_run cf as items)) \<le> credit cf stop it"
  using assms(2-)
proof (induction as arbitrary: items it)
  case Nil
  then show ?case
    using limit_ns_pos [OF ok] by (simp add: accepted_def credit_def pos_imp_zdiv_nonneg_iff)
next
  case (Cons a as)
  obtain ts k' where a: "a = (ts, k')" by fastforce
  have t: "ns (it_ts it) \<le> ns ts" "ns ts \<le> stop" using Cons.prems a by auto
  note ac = attempt_credit [OF ok t Cons.prems(5), of k]
  show ?case
  proof (cases "k' = k")
    case True
    let ?it = "snd (attempt cf ts k (Some it))"
    have f: "cl_find k (snd (connlimit_check cf ts k items)) = Some ?it"
      and r: "fst (connlimit_check cf ts k items) = (if fst (attempt cf ts k (Some it)) then 0 else - 1)"
      using check_own [of cf ts k items] Cons.prems(1) by simp_all
    have "int (accepted k as (cl_run cf as (snd (connlimit_check cf ts k items)))) \<le> credit cf stop ?it"
      using Cons.prems ac a by (intro Cons.IH [OF f]) auto
    then show ?thesis
      using ac(1) r True a by (cases "fst (attempt cf ts k (Some it))") (auto simp: accepted_def split: prod.splits)
  next
    case False
    have "ns ts - ns (it_ts it) \<le> (conf_burst_timeout cf - 1) * 1000000" using t Cons.prems(5) by simp
    then have "\<not> (word_of_int (ms_between ts (it_ts it)) :: u32) > word_of_int (conf_burst_timeout cf)"
      using age_in_window [OF t(1), of "conf_burst_timeout cf"] ok by (simp add: cl_conf_ok_def word_less_def uint_word_of_int)
    then have f: "cl_find k (snd (connlimit_check cf ts k' items)) = Some it"
      using check_other [OF False, of items cf ts] Cons.prems(1) by simp
    have "int (accepted k as (cl_run cf as (snd (connlimit_check cf ts k' items)))) \<le> credit cf stop it"
      using Cons.prems a by (intro Cons.IH [OF f]) auto
    then show ?thesis
      using False a by (auto simp: accepted_def split: prod.splits)
  qed
qed

text \<open>
  C21. A source gets no more than its rate: within a window of time shorter than the timeout of an entry, a source that was not
  known before is accepted at most as often as the burst allows, plus once for every full limit interval (less the millisecond
  that is lost by rounding) in the window, whatever other sources try at the same time.
\<close>

theorem connlimit_rate:
  assumes "cl_conf_ok cf" "cl_find k items = None"
    and "sorted (map (\<lambda>a. ns (fst a)) as)" "\<forall>a \<in> set as. t0 \<le> ns (fst a) \<and> ns (fst a) \<le> stop"
    and "stop - t0 \<le> (conf_burst_timeout cf - 1) * 1000000" "t0 \<le> stop"
  shows "int (accepted k as (cl_run cf as items)) \<le> conf_burst cf + (stop - t0) div limit_ns cf"
  using assms(2-4)
proof (induction as arbitrary: items)
  case Nil
  then show ?case
    using limit_ns_pos [OF assms(1)] assms(1,6) by (simp add: accepted_def cl_conf_ok_def pos_imp_zdiv_nonneg_iff)
next
  case (Cons a as)
  obtain ts k' where a: "a = (ts, k')" by fastforce
  show ?case
  proof (cases "k' = k")
    case True
    let ?it = "\<lparr>it_key = k, it_ts = ts, it_count = 0\<rparr>"
    have f: "cl_find k (snd (connlimit_check cf ts k items)) = Some ?it" and r: "fst (connlimit_check cf ts k items) = 0"
      using check_own [of cf ts k items] Cons.prems(1) by (simp_all add: attempt_def)
    have "int (accepted k as (cl_run cf as (snd (connlimit_check cf ts k items)))) \<le> credit cf stop ?it"
      using Cons.prems a assms(5) by (intro run_credit [OF assms(1) f]) auto
    moreover have "(stop - ns ts) div limit_ns cf \<le> (stop - t0) div limit_ns cf"
      using Cons.prems(3) a limit_ns_pos [OF assms(1)] by (intro zdiv_mono1) auto
    ultimately show ?thesis
      using r True a assms(1) by (auto simp: accepted_def credit_def cl_conf_ok_def split: prod.splits)
  next
    case False
    have "cl_find k (snd (connlimit_check cf ts k' items)) = None"
      using check_other [OF False, of items cf ts] Cons.prems(1) by simp
    then show ?thesis
      using Cons.IH [of "snd (connlimit_check cf ts k' items)"] Cons.prems False a by (auto simp: accepted_def split: prod.splits)
  qed
qed

definition slow_conf :: cl_conf where
  "slow_conf = \<lparr>conf_burst = 2, conf_burst_timeout = 60000, conf_limit_timeout = 1000\<rparr>"

definition four_attempts :: "(timespec \<times> u64) list" where
  "four_attempts = map (\<lambda>(s, n). (\<lparr>tv_sec = s, tv_nsec = n\<rparr>, 7)) [(10, 0), (10, 0), (10, 100000000), (11, 200000000)]"

theorem connlimit_rate_witness:
  "cl_run slow_conf four_attempts [] = [0, 0, - 1, 0] \<and> int (accepted 7 four_attempts (cl_run slow_conf four_attempts [])) \<le> 3"
proof
  show "cl_run slow_conf four_attempts [] = [0, 0, - 1, 0]"
    by (simp add: slow_conf_def four_attempts_def connlimit_check_def Let_def ms_between_def quot_def word_le_def uint_word_of_int)
  show "int (accepted 7 four_attempts (cl_run slow_conf four_attempts [])) \<le> 3"
    using connlimit_rate [of slow_conf 7 "[]" four_attempts 10000000000 11200000000]
    by (simp add: slow_conf_def four_attempts_def cl_conf_ok_def ns_def limit_ns_def)
qed

end
