(* ===== verification/PppoeDelayCorrect.thy ===== *)
theory PppoeDelayCorrect
  imports PppoeDelay
begin

text \<open>
  The pointers that follow the load step by step give the delay that the list of ranges assigns to the number of sessions.
\<close>

section \<open>The delay of a load\<close>

text \<open>The position of the range for \<open>n\<close> sessions: the last whose number is reached; the first has none.\<close>

definition range_of :: "(nat \<times> int) list \<Rightarrow> nat \<Rightarrow> nat" where
  "range_of rs n = length (takeWhile (\<lambda>r. fst r \<le> n) (tl rs))"

definition delay_for :: "(nat \<times> int) list \<Rightarrow> nat \<Rightarrow> int" where
  "delay_for rs n = snd (rs ! range_of rs n)"


definition dpado_at :: "(nat \<times> int) list \<Rightarrow> nat \<Rightarrow> dpado" where
  "dpado_at rs n = \<lparr>dp_ranges = rs, dp_next = range_after rs (range_of rs n), dp_prev = Some (range_of rs n), dp_delay = delay_for rs n\<rparr>"





section \<open>Following the load\<close>












text \<open>
  The counter and the pointers are not changed in one step, though. When a session starts while another ends, the end may reach
  the pointers first: then the delay of two sessions stays in force while there is one.
\<close>

lemma delay_race:
  defines "rs \<equiv> [(INT_MAX, 0), (2, 100)]"
  shows "bind_parse (dpado_check_prev 2 (dpado_at rs 1)) (\<lambda>dp. Ok (dp_delay (dpado_check_next 2 dp))) = Ok 100" "delay_for rs 1 = 0"
  by (simp_all add: rs_def dpado_check_prev_def dpado_check_next_def dpado_at_def range_of_def range_after_def delay_for_def)

end
