(* ===== verification/Spec2Isabelle.thy ===== *)
theory Spec2Isabelle
  imports IpPoolProps LcpProps L2tpProps PppoeProps PppoeConf ConnlimitRate PppoeDelayCorrect
begin

text \<open>
  accel-ppp is an access concentrator: the daemon \<^verbatim>\<open>accel-pppd\<close> terminates PPP connections that arrive over PPPoE, L2TP, PPTP or SSTP, asks for
  authentication, assigns addresses and counts traffic. All paths below are relative to \<^verbatim>\<open>src/accel-pppd\<close>.

  \<^bold>\<open>The parts of the program and how they interact.\<close> A control module (\<^verbatim>\<open>ctrl/pppoe\<close>, \<^verbatim>\<open>ctrl/l2tp\<close>, ...) speaks the protocol that sets
  a channel to a client up. When the channel stands it hands it to the PPP code (\<^verbatim>\<open>ppp/ppp.c\<close>, \<^verbatim>\<open>establish_ppp\<close>), which runs one layer after the other:
  LCP (\<^verbatim>\<open>ppp/ppp_lcp.c\<close>) negotiates the link through the automaton of \<^verbatim>\<open>ppp/ppp_fsm.c\<close>, the authentication layer (\<^verbatim>\<open>ppp/ppp_auth.c\<close>) runs the agreed
  method, then the network protocols start. The session layer (\<^verbatim>\<open>session.c\<close>) keeps the list and the counters of all sessions and fires the events
  by which other modules, such as the address pools (\<^verbatim>\<open>extra/ippool.c\<close>), take part. Everything runs in contexts of the event loop \<^verbatim>\<open>triton\<close>: a context
  executes one function at a time, and asks others to do something by queueing calls for them.

  \<^bold>\<open>How the model is built.\<close> The model is a shallow embedding. Structures are records, enumerations and unions datatypes, functions are functions
  of the same name on the state they change; \<^verbatim>\<open>p\<close> in C that points to a session, a server or a range is an identifier or an index. Integers have
  their width where it matters (\<^verbatim>\<open>u8\<close>, \<^verbatim>\<open>u16\<close>, \<^verbatim>\<open>u32\<close>, \<^verbatim>\<open>u64\<close> of \<^verbatim>\<open>Prelude\<close>). A read outside a received buffer, the use of a null or
  freed pointer and a division by zero are not left out: they are the value \<open>Fault\<close> of the type \<open>parse\<close>, or set a flag of the state (\<open>crashed\<close>), and
  it is a theorem that they do not happen, or a finding that they do. The kernel, the clock, random numbers, MD5, DES and event handlers
  outside the modelled files are parameters; what is assumed of them is a named predicate (\<open>frame_env\<close>, \<open>crypto_ok\<close>, ...), and each theorem that uses
  one is accompanied by a witness on a concrete run. Log output is left out throughout.

  \<^bold>\<open>Shared theories.\<close>
  \<^item> \<^verbatim>\<open>Prelude\<close>: machine integers, the accessors of \<^verbatim>\<open>utils.h\<close>, bounded reads, list lemmas.
  \<^item> \<^verbatim>\<open>CLib\<close>: the C library functions that parse configuration strings.

  \<^bold>\<open>Address pools\<close> (\<^verbatim>\<open>extra/bitpool.h\<close>, \<^verbatim>\<open>extra/ippool.c\<close>, \<^verbatim>\<open>radius/dict.c\<close>).
  \<^item> \<^verbatim>\<open>Bitpool\<close>: the bit array, one definition per inline function; the locale \<open>unit_allocator\<close> is what the pools rely on, interpreted on the array.
    The search by words is equivalent to a search bit by bit.
  \<^item> \<^verbatim>\<open>RadiusDict\<close>: the dictionary of attributes and its look-ups.
  \<^item> \<^verbatim>\<open>IpPool\<close>: ranges, pools and pool sets (\<open>ip_range\<close>, \<open>ip_pool\<close>, \<open>pool_set\<close>), \<open>get_ip\<close>, \<open>put_ip\<close>, \<^verbatim>\<open>load_config\<close> with the reconciliation of
    live sessions, restoring from a backup.
  \<^item> \<^verbatim>\<open>IpPoolCorrect\<close>, \<^verbatim>\<open>IpPoolProps\<close>: leases are unique, release undoes allocation, counters are exact, a reload keeps live
    addresses reserved, and exactly when an allocation returns: the walk along overflow pools (\<open>chain_loop\<close>, a \<open>partial_function\<close>) diverges on a cycle that
    does not contain its start.

  \<^bold>\<open>Sessions and PPP\<close> (\<^verbatim>\<open>session.c\<close>, \<^verbatim>\<open>ppp/ppp_fsm.c\<close>, \<^verbatim>\<open>ppp/ppp.c\<close>, \<^verbatim>\<open>ppp/ppp_lcp.c\<close>, \<^verbatim>\<open>ppp/lcp_opt_*.c\<close>, \<^verbatim>\<open>ppp/ppp_auth.c\<close>).
  \<^item> \<^verbatim>\<open>Session\<close>: start, activation, termination and finish of sessions, counters, shutdown, session ids.
  \<^item> \<^verbatim>\<open>PppFsm\<close>, \<^verbatim>\<open>PppFsmCorrect\<close>: the automaton, generic in its client. The locale \<open>fsm_client\<close> is the contract of a client; it is
    interpreted on LCP (in \<^verbatim>\<open>PppLcpInv\<close>) and on a client that records what it is asked to do, which relates the code to the table of RFC 1661,
    with the deviations listed.
  \<^item> \<^verbatim>\<open>PppState\<close>, \<^verbatim>\<open>PppChannel\<close>, \<^verbatim>\<open>LcpOptions\<close>, \<^verbatim>\<open>PppLcp\<close>, \<^verbatim>\<open>PppAuth\<close>: the state of a connection, the
    connection code, the options, LCP and the authentication layer, file by file.
  \<^item> \<^verbatim>\<open>PppSystem\<close>: the files put together. They call each other back and forth; \<open>ppp_sys n\<close> resolves calls up to the nesting depth \<open>n\<close>, and the
    theorems show that 9 is enough. \<open>ppp_reach\<close> are the histories of any number of sessions.
  \<^item> \<^verbatim>\<open>PppInvariant\<close>, \<^verbatim>\<open>PppFrames\<close>, \<^verbatim>\<open>PppDestroy\<close>, \<^verbatim>\<open>PppLcpInv\<close>, \<^verbatim>\<open>PppTerminate\<close>, \<^verbatim>\<open>PppStart\<close>,
    \<^verbatim>\<open>PppLcpRecv\<close>, \<^verbatim>\<open>PppEvents\<close>, \<^verbatim>\<open>PppEstablish\<close>, \<^verbatim>\<open>PppReach\<close>: the invariant and that every function keeps it, from the
    inside out, up to all histories.
  \<^item> \<^verbatim>\<open>PppProps\<close>: no network protocol before authorization, memory safety, exact counters, each event reported once and in order, nothing of an ended
    session is left, a hard termination ends a session.
  \<^item> \<^verbatim>\<open>LcpPackets\<close>, \<^verbatim>\<open>LcpProps\<close>: packets of LCP are parsed exactly, fit their buffers, are well formed, and are answered as the
    options decide.

  \<^bold>\<open>L2TP\<close> (\<^verbatim>\<open>ctrl/l2tp/packet.c\<close>, \<^verbatim>\<open>dict.c\<close>, \<^verbatim>\<open>l2tp.c\<close>).
  \<^item> \<^verbatim>\<open>L2tpPacket\<close>, \<^verbatim>\<open>L2tpPacketCorrect\<close>, \<^verbatim>\<open>L2tpRoundtrip\<close>: control packets with hidden attributes; nothing is read out of
    bounds, and what is built, sent and received again is the same.
  \<^item> \<^verbatim>\<open>L2tpState\<close>, \<^verbatim>\<open>L2tpMessages\<close>, \<^verbatim>\<open>L2tpRecv\<close>: a tunnel with its sessions, queues and timers, all control messages, the ring of
    received messages and the read handlers. The loop of \<^verbatim>\<open>l2tp_tunnel_reply\<close> has fuel \<open>recv_queue_sz + 1\<close>, which is shown to be enough.
  \<^item> \<^verbatim>\<open>L2tpChannel\<close>, \<^verbatim>\<open>L2tpHandlers\<close>, \<^verbatim>\<open>L2tpOrder\<close>: the contract \<open>chan_rel\<close> of every handler towards the channel, and the order
    of reception.
  \<^item> \<^verbatim>\<open>L2tpLink\<close>: two ends over a network that loses, repeats and reorders datagrams refine a pair of queues; the locale \<open>channel_handler\<close> is the
    contract of an event at one end, interpreted on each of them.
  \<^item> \<^verbatim>\<open>L2tpAuth\<close>: a tunnel with a secret is established only by a peer that knows it.
  \<^item> \<^verbatim>\<open>L2tpRun\<close>, \<^verbatim>\<open>L2tpProps\<close>: a run of two ends for the witnesses, and the properties.

  \<^bold>\<open>PPPoE\<close> (\<^verbatim>\<open>ctrl/pppoe/*.c\<close>, \<^verbatim>\<open>extra/connlimit.c\<close>).
  \<^item> \<^verbatim>\<open>PppoePacket\<close>, \<^verbatim>\<open>PppoePacketCorrect\<close>: frames, tags, the cookie, and the access line tags of \<^verbatim>\<open>tr101.c\<close>. A generated cookie is
    accepted until it expires.
  \<^item> \<^verbatim>\<open>Connlimit\<close>, \<^verbatim>\<open>ConnlimitRate\<close>: the limiter of connection attempts and the rate it lets through.
  \<^item> \<^verbatim>\<open>MacFilter\<close>: the address filter; the addresses it prints are addresses it reads.
  \<^item> \<^verbatim>\<open>PppoeDelay\<close>, \<^verbatim>\<open>PppoeDelayCorrect\<close>: the delay of PADO packets; the pointers that follow the number of sessions agree with a search.
  \<^item> \<^verbatim>\<open>PppoeServ\<close>, \<^verbatim>\<open>PppoeRecv\<close>, \<^verbatim>\<open>PppoeLife\<close>: servers and connections (\<open>pppoe_serv\<close>, \<open>pppoe_conn\<close>), the handlers of PADI,
    PADR and PADT, start and end of connections and servers, the demultiplexer \<^verbatim>\<open>disc.c\<close>; \<open>pppoe_reach\<close> are the histories, in which the contexts take
    their steps in any order. The search for a session number looks at 1024 words, all that the map has.
  \<^item> \<^verbatim>\<open>PppoeConf\<close>: the options, and why the overall limit of PADI packets has no effect.
  \<^item> \<^verbatim>\<open>PppoeSids\<close>, \<^verbatim>\<open>PppoeInv\<close>: the map of session numbers and the invariant of all histories.
  \<^item> \<^verbatim>\<open>PppoeRun\<close>, \<^verbatim>\<open>PppoeProps\<close>: sessions need a valid cookie and a valid cookie gets one, frames are read within their bounds, session
    numbers are unique as long as their release works, and how it fails: the shift of an \<^verbatim>\<open>int\<close> in \<^verbatim>\<open>disconnect\<close>.

  \<^bold>\<open>Bounds.\<close> Atomic steps are the functions that the source runs under a lock or in one context. The nesting depth of calls in the PPP part, the fuel of
  \<^verbatim>\<open>l2tp_tunnel_reply\<close> and the number of words of the map of session numbers are the only numbers that bound a computation and are not a loop bound
  of the source; each is shown to be enough or, for the map, is the number of steps after which the source itself stops. All other loops are
  functions with a termination proof, or the \<open>partial_function\<close> of the overflow chain.

  \<^bold>\<open>Not modelled.\<close> The network control protocols and the authentication methods (their layers are parameters of the PPP part), RADIUS besides its
  dictionary, IPoE with DHCPv4, PPTP, SSTP, call switching of L2TP, IPv6 pools, DHCPv6 and router advertisements, and the VLAN monitor are further
  components of the same size as those above that are left for later. The event loop, the netlink code, traffic shaping, logging, the command line,
  monitoring, scripts, session backup and the kernel modules are input and output, or kernel interfaces: the models take their results
  as parameters. Data races between contexts are seen only where the source queues calls; memory exhaustion only where the source tests for it
  or where a finding says that it does not.
\<close>

end
